(* ===== verification/Prelude.thy ===== *)
theory Prelude
  imports Complex_Main "HOL-Library.Word" "HOL-Library.Monad_Syntax"
begin

unbundle bit_operations_syntax

text \<open>
  Shared vocabulary of the development: the C++ types and standard-library functions the
  packages use (bytes, \<open>std::clamp\<close>, the conversion \<open>static_cast<int>(double)\<close>,
  \<open>atan2\<close>, \<open>std::vector::at\<close>, the exceptions they throw), the run of a ROS node as a
  fold of its callbacks over the messages it receives, and the locales in which invariants
  of such runs are proved once.  A C++ \<open>double\<close> is a real number here: rounding, infinities
  and NaN are outside the model, and so are the branches only they can reach.
\<close>

named_theorems node_defs "definitions of callbacks, unfolded in preservation proofs"
named_theorems clamp_facts "facts about clamped quantities"

section \<open>Standard library\<close>

type_synonym byte = "8 word"

text \<open>
  What ends a callback early: the exceptions of the modelled code, \<open>exit\<close>, and \<open>Bad_index\<close> for
  an unchecked \<open>operator[]\<close> outside its container, which C++ leaves undefined.
\<close>

datatype exn = Runtime_error string | Out_of_range | Invalid_argument | Bad_index | Null_pointer | Division_by_zero | Exit int

text \<open>\<open>operator[]\<close> with an \<open>int\<close> index.\<close>

definition idx :: "'a list \<Rightarrow> int \<Rightarrow> exn + 'a" where
  "idx xs i = (if 0 \<le> i \<and> i < int (length xs) then Inr (xs ! nat i) else Inl Bad_index)"

lemma idx_Inr [simp]: "0 \<le> i \<Longrightarrow> i < int (length xs) \<Longrightarrow> idx xs i = Inr (xs ! nat i)"
  by (simp add: idx_def)

text \<open>Sequencing of steps that may end early.\<close>

definition sbind :: "exn + 'a \<Rightarrow> ('a \<Rightarrow> exn + 'b) \<Rightarrow> exn + 'b" where
  "sbind m f = (case m of Inl e \<Rightarrow> Inl e | Inr x \<Rightarrow> f x)"

lemma sbind_simps [simp]: "sbind (Inl e) f = Inl e" "sbind (Inr x) f = f x"
  by (simp_all add: sbind_def)

lemma sbind_eq_Inr: "sbind m f = Inr y \<longleftrightarrow> (\<exists>x. m = Inr x \<and> f x = Inr y)"
  by (cases m) simp_all

lemma sbind_eq_Inl: "sbind m f = Inl e \<longleftrightarrow> m = Inl e \<or> (\<exists>x. m = Inr x \<and> f x = Inl e)"
  by (cases m) simp_all

lemma sbind_cong [fundef_cong]:
  "m = m' \<Longrightarrow> (\<And>x. m' = Inr x \<Longrightarrow> f x = g x) \<Longrightarrow> sbind m f = sbind m' g"
  by (cases m') simp_all

text \<open>\<open>std::clamp(v, lo, hi)\<close>, defined by the standard for \<open>lo \<le> hi\<close>.\<close>

definition std_clamp :: "'a::linorder \<Rightarrow> 'a \<Rightarrow> 'a \<Rightarrow> 'a" where
  "std_clamp v lo hi = (if v < lo then lo else if hi < v then hi else v)"

lemma std_clamp_ge [clamp_facts]: "lo \<le> hi \<Longrightarrow> lo \<le> std_clamp v lo hi"
  by (auto simp: std_clamp_def)

lemma std_clamp_le [clamp_facts]: "lo \<le> hi \<Longrightarrow> std_clamp v lo hi \<le> hi"
  by (auto simp: std_clamp_def)

lemma std_clamp_id: "lo \<le> v \<Longrightarrow> v \<le> hi \<Longrightarrow> std_clamp v lo hi = v"
  by (auto simp: std_clamp_def)

lemma std_clamp_mono: "lo \<le> hi \<Longrightarrow> v \<le> w \<Longrightarrow> std_clamp v lo hi \<le> std_clamp w lo hi"
  by (auto simp: std_clamp_def)

text \<open>The conversion of a floating-point value to \<open>int\<close> drops the fractional part.\<close>

definition c_trunc :: "real \<Rightarrow> int" where
  "c_trunc x = (if 0 \<le> x then \<lfloor>x\<rfloor> else \<lceil>x\<rceil>)"

lemma c_trunc_of_int [simp]: "c_trunc (of_int k) = k"
  by (simp add: c_trunc_def)

lemma c_trunc_numeral [simp]: "c_trunc (numeral k) = numeral k" "c_trunc 0 = 0" "c_trunc 1 = 1"
  by (simp_all add: c_trunc_def)

lemma c_trunc_mono: "x \<le> y \<Longrightarrow> c_trunc x \<le> c_trunc y"
  by (auto simp: c_trunc_def floor_mono ceiling_mono intro: order_trans [of _ 0])

lemma c_trunc_ge: "of_int k \<le> x \<Longrightarrow> k \<le> c_trunc x"
  using c_trunc_mono [of "of_int k" x] by simp

lemma c_trunc_le: "x \<le> of_int k \<Longrightarrow> c_trunc x \<le> k"
  using c_trunc_mono [of x "of_int k"] by simp

lemma c_trunc_minus: "c_trunc (- x) = - c_trunc x"
  by (auto simp: c_trunc_def ceiling_minus floor_minus)

lemma c_trunc_abs_err: "\<bar>x - of_int (c_trunc x)\<bar> < 1"
  unfolding c_trunc_def by (auto split: if_splits) linarith+

text \<open>\<open>std::round\<close>: to the nearest integer, halves away from zero.\<close>

definition c_round :: "real \<Rightarrow> int" where
  "c_round x = (if 0 \<le> x then \<lfloor>x + 1 / 2\<rfloor> else \<lceil>x - 1 / 2\<rceil>)"

text \<open>\<open>atan2(y, x)\<close>: the argument of the point \<open>(x, y)\<close>, 0 at the origin.\<close>

definition atan2 :: "real \<Rightarrow> real \<Rightarrow> real" where
  "atan2 y x = Arg (Complex x y)"

lemma atan2_bounds: "- pi < atan2 y x" "atan2 y x \<le> pi"
  using Arg_bounded [of "Complex x y"] by (simp_all add: atan2_def)

text \<open>
  \<open>std::vector::at\<close> with an \<open>int\<close> index: a negative index converts to a huge unsigned one,
  so everything outside the vector throws \<open>std::out_of_range\<close>.
\<close>

definition vec_at :: "'a list \<Rightarrow> int \<Rightarrow> exn + 'a" where
  "vec_at xs i = (if 0 \<le> i \<and> i < int (length xs) then Inr (xs ! nat i) else Inl Out_of_range)"

lemma vec_at_Inr [simp]: "0 \<le> i \<Longrightarrow> i < int (length xs) \<Longrightarrow> vec_at xs i = Inr (xs ! nat i)"
  by (simp add: vec_at_def)

lemma vec_at_nat [simp]: "n < length xs \<Longrightarrow> vec_at xs (int n) = Inr (xs ! n)"
  by (simp add: vec_at_def)

text \<open>A step applied to each element of a list, in order, until one ends early.\<close>

fun smap :: "('a \<Rightarrow> exn + 'b) \<Rightarrow> 'a list \<Rightarrow> exn + 'b list" where
  "smap f [] = Inr []"
| "smap f (x # xs) = sbind (f x) (\<lambda>y. sbind (smap f xs) (\<lambda>ys. Inr (y # ys)))"

lemma smap_Inr: "(\<And>x. x \<in> set xs \<Longrightarrow> f x = Inr (g x)) \<Longrightarrow> smap f xs = Inr (map g xs)"
  by (induction xs) simp_all

lemma smap_all2: "smap f xs = Inr ys \<longleftrightarrow> list_all2 (\<lambda>x y. f x = Inr y) xs ys"
  by (induction xs arbitrary: ys) (auto simp: sbind_eq_Inr list_all2_Cons1)

section \<open>Runs\<close>

text \<open>
  The outcome of code that may not end, may throw, or returns: \<open>None\<close>, \<open>Some (Inl e)\<close>,
  \<open>Some (Inr x)\<close>.
\<close>

type_synonym 'a run = "(exn + 'a) option"

definition rbind :: "'a run \<Rightarrow> ('a \<Rightarrow> 'b run) \<Rightarrow> 'b run" where
  "rbind r f = Option.bind r (\<lambda>x. case x of Inl e \<Rightarrow> Some (Inl e) | Inr y \<Rightarrow> f y)"

lemma rbind_simps [simp]: "rbind None f = None" "rbind (Some (Inl e)) f = Some (Inl e)" "rbind (Some (Inr x)) f = f x"
  by (simp_all add: rbind_def)

lemma rbind_eq_Inr: "rbind r f = Some (Inr y) \<longleftrightarrow> (\<exists>x. r = Some (Inr x) \<and> f x = Some (Inr y))"
  by (cases r) (auto simp: rbind_def split: sum.splits)

section \<open>Nodes\<close>

text \<open>The value of a parameter of a node, or the default where it has none.\<close>

definition get_parameter_or :: "'a option \<Rightarrow> 'a \<Rightarrow> 'a" where
  "get_parameter_or p d = (case p of None \<Rightarrow> d | Some v \<Rightarrow> v)"


text \<open>
  A node handles one message at a time (a single-threaded executor): a callback takes the
  state and the message and gives the new state and what it sends, or an exception, which
  ends the node.
\<close>

type_synonym ('s, 'e, 'o) handler = "'s \<Rightarrow> 'e \<Rightarrow> exn + ('s \<times> 'o list)"

fun run_handlers :: "('s, 'e, 'o) handler \<Rightarrow> 's \<Rightarrow> 'e list \<Rightarrow> exn + ('s \<times> 'o list)" where
  "run_handlers h s [] = Inr (s, [])"
| "run_handlers h s (e # es) =
     (case h s e of
        Inl x \<Rightarrow> Inl x
      | Inr (s', os) \<Rightarrow>
          (case run_handlers h s' es of
             Inl x \<Rightarrow> Inl x
           | Inr (s'', os') \<Rightarrow> Inr (s'', os @ os')))"

text \<open>
  The contract between a node and the rest of the system: an invariant its callbacks keep
  while every message they send is acceptable.
\<close>

locale handler_system =
  fixes h :: "('s, 'e, 'o) handler"
    and inv :: "'s \<Rightarrow> bool"
    and ok :: "'o \<Rightarrow> bool"
  assumes inv_step: "inv s \<Longrightarrow> h s e = Inr (s', os) \<Longrightarrow> inv s'"
    and ok_step: "inv s \<Longrightarrow> h s e = Inr (s', os) \<Longrightarrow> list_all ok os"
begin

lemma run_from:
  assumes "run_handlers h s es = Inr (s', os)" and "inv s"
  shows "inv s' \<and> list_all ok os"
  using assms
proof (induction es arbitrary: s s' os)
  case Nil
  then show ?case by simp
next
  case (Cons e es)
  then obtain s1 o1 o2 where h1: "h s e = Inr (s1, o1)"
    and r: "run_handlers h s1 es = Inr (s', o2)" and os: "os = o1 @ o2"
    by (auto split: sum.splits)
  have "inv s1" and "list_all ok o1"
    using inv_step ok_step h1 Cons.prems(2) by blast+
  with Cons.IH [OF r] os show ?case by simp
qed

lemma run_inv: "run_handlers h s es = Inr (s', os) \<Longrightarrow> inv s \<Longrightarrow> inv s'"
  using run_from by blast

lemma run_out: "run_handlers h s es = Inr (s', os) \<Longrightarrow> inv s \<Longrightarrow> x \<in> set os \<Longrightarrow> ok x"
  using run_from by (fastforce simp: list_all_iff)

end

text \<open>
  The same where the environment keeps to a protocol: \<open>g\<close> says which message may come in which
  state, and \<open>guarded\<close> that a whole run keeps to it.
\<close>

fun guarded :: "('s \<Rightarrow> 'e \<Rightarrow> bool) \<Rightarrow> ('s, 'e, 'o) handler \<Rightarrow> 's \<Rightarrow> 'e list \<Rightarrow> bool" where
  "guarded g h s [] = True"
| "guarded g h s (e # es) = (g s e \<and> (case h s e of Inl x \<Rightarrow> True | Inr (s', os) \<Rightarrow> guarded g h s' es))"

locale guarded_system =
  fixes h :: "('s, 'e, 'o) handler"
    and g :: "'s \<Rightarrow> 'e \<Rightarrow> bool"
    and inv :: "'s \<Rightarrow> bool"
    and ok :: "'o \<Rightarrow> bool"
  assumes g_step: "inv s \<Longrightarrow> g s e \<Longrightarrow> h s e = Inr (s', os) \<Longrightarrow> inv s' \<and> list_all ok os"
begin

lemma guarded_run:
  assumes "run_handlers h s es = Inr (s', os)" and "inv s" and "guarded g h s es"
  shows "inv s' \<and> list_all ok os"
  using assms
proof (induction es arbitrary: s s' os)
  case Nil
  then show ?case by simp
next
  case (Cons e es)
  then obtain s1 o1 o2 where h1: "h s e = Inr (s1, o1)"
    and r: "run_handlers h s1 es = Inr (s', o2)" and os: "os = o1 @ o2"
    by (auto split: sum.splits)
  have "inv s1" and "list_all ok o1" and "guarded g h s1 es"
    using g_step [OF Cons.prems(2) _ h1] Cons.prems(3) h1 by simp_all
  with Cons.IH [OF r] os show ?case by simp
qed

end

sublocale handler_system \<subseteq> free: guarded_system h "\<lambda>_ _. True" inv ok
  by unfold_locales (auto dest: inv_step ok_step)

lemma run_handlers_append:
  "run_handlers h s es = Inr (s', os) \<Longrightarrow> run_handlers h s' es' = Inr (s'', os')
   \<Longrightarrow> run_handlers h s (es @ es') = Inr (s'', os @ os')"
  by (induction es arbitrary: s os) (auto split: sum.splits)

text \<open>A node whose callbacks never throw is one whose steps are total.\<close>

locale total_system =
  fixes f :: "'s \<Rightarrow> 'e \<Rightarrow> 's \<times> 'o list"
    and inv :: "'s \<Rightarrow> bool"
    and ok :: "'o \<Rightarrow> bool"
  assumes t_step: "inv s \<Longrightarrow> f s e = (s', os) \<Longrightarrow> inv s' \<and> list_all ok os"

text \<open>
  A node whose callbacks may not end or may throw: under its invariant they do neither.
\<close>

fun run_all :: "('s \<Rightarrow> 'e \<Rightarrow> ('s \<times> 'o list) run) \<Rightarrow> 's \<Rightarrow> 'e list \<Rightarrow> ('s \<times> 'o list) run" where
  "run_all h s [] = Some (Inr (s, []))"
| "run_all h s (e # es) =
     rbind (h s e) (\<lambda>(s', os). rbind (run_all h s' es) (\<lambda>(s'', os'). Some (Inr (s'', os @ os'))))"

locale run_system =
  fixes h :: "'s \<Rightarrow> 'e \<Rightarrow> ('s \<times> 'o list) run"
    and inv :: "'s \<Rightarrow> bool"
    and ok :: "'o \<Rightarrow> bool"
  assumes r_step: "inv s \<Longrightarrow> \<exists>s' os. h s e = Some (Inr (s', os)) \<and> inv s' \<and> list_all ok os"
begin

lemma always_returns:
  assumes "inv s"
  shows "\<exists>s' os. run_all h s es = Some (Inr (s', os)) \<and> inv s' \<and> list_all ok os"
  using assms
proof (induction es arbitrary: s)
  case Nil
  then show ?case by simp
next
  case (Cons e es)
  obtain s1 o1 where 1: "h s e = Some (Inr (s1, o1))" "inv s1" "list_all ok o1" using r_step [OF Cons.prems] by blast
  obtain s2 o2 where "run_all h s1 es = Some (Inr (s2, o2))" "inv s2" "list_all ok o2" using Cons.IH [OF 1(2)] by blast
  then show ?case using 1 by simp
qed

end

sublocale total_system \<subseteq> returning: run_system "\<lambda>s e. Some (Inr (f s e))" inv ok
proof unfold_locales
  fix s e
  assume "inv s"
  moreover obtain s' os where "f s e = (s', os)" by fastforce
  ultimately show "\<exists>s' os. Some (Inr (f s e)) = Some (Inr (s', os)) \<and> inv s' \<and> list_all ok os"
    using t_step by auto
qed

sublocale total_system \<subseteq> handler_system "\<lambda>s e. Inr (f s e)" inv ok
  by unfold_locales (auto dest: t_step)

context total_system
begin

lemma never_throws: "\<exists>s' os. run_handlers (\<lambda>s e. Inr (f s e)) s es = Inr (s', os)"
proof (induction es arbitrary: s)
  case Nil
  then show ?case by simp
next
  case (Cons e es)
  obtain s1 o1 where "f s e = (s1, o1)" by fastforce
  moreover obtain s2 o2 where "run_handlers (\<lambda>s e. Inr (f s e)) s1 es = Inr (s2, o2)"
    using Cons.IH by blast
  ultimately show ?case by simp
qed

end

end
