(* ===== verification/Messages.thy ===== *)
theory Messages
  imports Prelude
begin

text \<open>
  The messages of package \<open>autorccar_interfaces\<close> (and the few standard ROS messages) that
  nodes exchange: one record per \<open>.msg\<close> file, with the fields the nodes read or write.
\<close>

text \<open>\<open>msg/ControlCommand.msg\<close>: speed in m/s, steering angle in rad.\<close>

record ControlCommandMsg =
  cm_speed :: real
  cm_steering_angle :: real

text \<open>\<open>std_msgs/Int8\<close> carries a mode or a command as a signed byte.\<close>

type_synonym int8 = "8 word"

record vec3 =
  v3_x :: real
  v3_y :: real
  v3_z :: real

record quat =
  q_w :: real
  q_x :: real
  q_y :: real
  q_z :: real

text \<open>\<open>builtin_interfaces/Time\<close>.\<close>

record TimeMsg =
  tm_sec :: int
  tm_nanosec :: int

text \<open>\<open>msg/NavState.msg\<close>.\<close>

record NavStateMsg =
  nv_timestamp :: TimeMsg
  nv_origin :: vec3
  nv_position :: vec3
  nv_velocity :: vec3
  nv_quaternion :: quat
  nv_acceleration :: vec3
  nv_angular_velocity :: vec3

text \<open>\<open>vision_msgs/BoundingBox2D\<close>, the fields the packages use, and \<open>msg/BoundingBoxes.msg\<close>.\<close>

record BoundingBox2D =
  bb_center_x :: real
  bb_center_y :: real
  bb_size_x :: real
  bb_size_y :: real

record BoundingBoxesMsg =
  bbs_num :: int
  bbs_boxes :: "BoundingBox2D list"

text \<open>\<open>msg/PathPoint.msg\<close>; a path message is a list of them.\<close>

record PathPointMsg =
  pp_x :: real
  pp_y :: real
  pp_speed :: real

end
