(* ===== verification/HardwareControl.thy ===== *)
theory HardwareControl
  imports Messages
begin

text \<open>
  Package \<open>autorccar_hardware_control\<close>: the serial port (\<open>serial_port.cpp\<close>), the
  conversion of a drive command to PWM values and its serial frame (\<open>hardware_control.cpp\<close>),
  and the node that arbitrates between the autonomous and the teleoperated command streams
  (\<open>hardware_control_node.cpp\<close>).
\<close>

section \<open>The serial port\<close>

text \<open>
  What the operating system does is input of the model: the descriptor \<open>open\<close> returns, the
  results of \<open>tcgetattr\<close> and \<open>tcsetattr\<close>, the result of \<open>write\<close>.  The descriptors the
  process holds open are state, because the class owns one.
\<close>

record posix_open =
  po_open :: int
  po_tcgetattr :: int
  po_tcsetattr :: int

record SerialPort =
  port_fd :: int

type_synonym fds = "int set"

datatype speed_t = B57600 | B115200 | B230400 | B460800

definition GetBaudrate :: "int \<Rightarrow> exn + speed_t" where
  "GetBaudrate baudrate =
     (if baudrate = 57600 then Inr B57600
      else if baudrate = 115200 then Inr B115200
      else if baudrate = 230400 then Inr B230400
      else if baudrate = 460800 then Inr B460800
      else Inl (Runtime_error ''Unsupported baudrate''))"

text \<open>The constructor: result (the port and its line settings, or the exception) and the open descriptors after it.\<close>

definition SerialPort_ctor :: "posix_open \<Rightarrow> int \<Rightarrow> fds \<Rightarrow> (exn + SerialPort \<times> speed_t) \<times> fds" where
  "SerialPort_ctor os baudrate F =
     (let fd = po_open os in
      if fd < 0 then (Inl (Runtime_error ''Failed to open serial port''), F)
      else let F1 = insert fd F in
      if po_tcgetattr os \<noteq> 0 then (Inl (Runtime_error ''tcgetattr failed''), F1 - {fd})
      else (case GetBaudrate baudrate of
              Inl e \<Rightarrow> (Inl e, F1)
            | Inr sp \<Rightarrow>
                if po_tcsetattr os \<noteq> 0 then (Inl (Runtime_error ''tcsetattr failed''), F1 - {fd})
                else (Inr (\<lparr>port_fd = fd\<rparr>, sp), F1)))"

definition SerialPort_dtor :: "SerialPort \<Rightarrow> fds \<Rightarrow> fds" where
  "SerialPort_dtor p F = (if port_fd p \<ge> 0 then F - {port_fd p} else F)"

text \<open>Move construction: the new object and what is left of the old one.\<close>

definition SerialPort_move :: "SerialPort \<Rightarrow> SerialPort \<times> SerialPort" where
  "SerialPort_move other = (\<lparr>port_fd = port_fd other\<rparr>, other\<lparr>port_fd := -1\<rparr>)"

text \<open>Move assignment; \<open>same\<close> says that both sides are the same object.\<close>

definition SerialPort_move_assign ::
    "bool \<Rightarrow> SerialPort \<Rightarrow> SerialPort \<Rightarrow> fds \<Rightarrow> SerialPort \<times> SerialPort \<times> fds" where
  "SerialPort_move_assign same this other F =
     (if \<not> same then
        let F' = (if port_fd this \<ge> 0 then F - {port_fd this} else F)
        in (this\<lparr>port_fd := port_fd other\<rparr>, other\<lparr>port_fd := -1\<rparr>, F')
      else (this, other, F))"

type_synonym posix_write = "int \<Rightarrow> byte list \<Rightarrow> int"

definition SerialPort_Write :: "posix_write \<Rightarrow> SerialPort \<Rightarrow> byte list \<Rightarrow> exn + int" where
  "SerialPort_Write wr p data =
     (let ret = wr (port_fd p) data in
      if ret < 0 then Inl (Runtime_error ''write failed'') else Inr ret)"

section \<open>Commands and PWM values\<close>

definition kEscPwmMin :: int where "kEscPwmMin = 3277"
definition kEscPwmN :: int where "kEscPwmN = 5039"
definition kEscPwmMax :: int where "kEscPwmMax = 6553"
definition kSteerPwmMin :: int where "kSteerPwmMin = 10"
definition kSteerPwmN :: int where "kSteerPwmN = 87"
definition kSteerPwmMax :: int where "kSteerPwmMax = 170"
definition kEscPwmSpeedGain :: real where "kEscPwmSpeedGain = 319.76"
definition kSteerPwmGain :: real where "kSteerPwmGain = 4.30"

lemmas pwm_consts = kEscPwmMin_def kEscPwmN_def kEscPwmMax_def
  kSteerPwmMin_def kSteerPwmN_def kSteerPwmMax_def

datatype DriveCommand = kStop | kAuto | kManual

fun drive_int :: "DriveCommand \<Rightarrow> int" where
  "drive_int kStop = 0"
| "drive_int kAuto = 1"
| "drive_int kManual = 2"

record ControlCommand =
  speed :: real
  steering_angle :: real

record Pwm =
  pwm_speed :: int
  pwm_steering :: int

record ControlResult =
  cr_command :: ControlCommand
  cr_pwm :: Pwm

record Parameters =
  max_speed :: real
  max_steering_angle :: real
  serial_baudrate :: int
  use_dummy_hardware :: bool

record HardwareControl =
  hc_parameters :: Parameters
  hc_serial :: "SerialPort option"
  hc_drive_command :: DriveCommand

definition RadToDeg :: "real \<Rightarrow> real" where
  "RadToDeg radians = radians * 180 / pi"

definition ConvertCommandToPwm :: "ControlCommand \<Rightarrow> Pwm" where
  "ConvertCommandToPwm c =
     \<lparr>pwm_speed = c_trunc (kEscPwmSpeedGain * (speed c powr 0.5337) + of_int kEscPwmN),
      pwm_steering = c_trunc (kSteerPwmGain * RadToDeg (steering_angle c)) + kSteerPwmN\<rparr>"

text \<open>The constructor opens the port unless dummy hardware is configured.\<close>

definition HardwareControl_ctor ::
    "posix_open \<Rightarrow> Parameters \<Rightarrow> fds \<Rightarrow> (exn + HardwareControl) \<times> fds" where
  "HardwareControl_ctor os ps F =
     (if \<not> use_dummy_hardware ps then
        (case SerialPort_ctor os (serial_baudrate ps) F of
           (Inl e, F') \<Rightarrow> (Inl e, F')
         | (Inr (p, _), F') \<Rightarrow>
             (Inr \<lparr>hc_parameters = ps, hc_serial = Some p, hc_drive_command = kStop\<rparr>, F'))
      else (Inr \<lparr>hc_parameters = ps, hc_serial = None, hc_drive_command = kStop\<rparr>, F))"

definition SetDriveCommand :: "DriveCommand \<Rightarrow> HardwareControl \<Rightarrow> HardwareControl" where
  "SetDriveCommand d hc = hc\<lparr>hc_drive_command := d\<rparr>"

definition GotStopCommand :: "HardwareControl \<Rightarrow> bool" where
  "GotStopCommand hc \<longleftrightarrow> hc_drive_command hc = kStop"

section \<open>The serial frame\<close>

definition AddCheckSum :: "byte list \<Rightarrow> nat \<Rightarrow> byte" where
  "AddCheckSum msg_tx msg_size = foldl (\<lambda>checksum i. checksum + msg_tx ! i) 0 [2..<msg_size - 1]"

text \<open>\<open>(x >> 8) & 0xFF\<close> and \<open>x & 0xFF\<close> of an \<open>int\<close>, stored in a byte.\<close>

definition hi_byte :: "int \<Rightarrow> byte" where
  "hi_byte x = word_of_int ((drop_bit 8 x) AND 0xFF)"

definition lo_byte :: "int \<Rightarrow> byte" where
  "lo_byte x = word_of_int (x AND 0xFF)"

definition frame_head :: "DriveCommand \<Rightarrow> Pwm \<Rightarrow> byte list" where
  "frame_head cmd pwm =
     [0xFF, 0xFE,
      hi_byte (pwm_steering pwm), lo_byte (pwm_steering pwm),
      hi_byte (pwm_speed pwm), lo_byte (pwm_speed pwm),
      hi_byte (drive_int cmd), lo_byte (drive_int cmd)]"

definition frame :: "DriveCommand \<Rightarrow> Pwm \<Rightarrow> byte list" where
  "frame cmd pwm = frame_head cmd pwm @ [AddCheckSum (frame_head cmd pwm @ [0]) 9]"

text \<open>The return value is the number of bytes written, \<open>-1\<close> without a port; the frames sent come with it.\<close>

definition SerializeAndSendMessage ::
    "posix_write \<Rightarrow> HardwareControl \<Rightarrow> DriveCommand \<Rightarrow> Pwm \<Rightarrow> exn + (int \<times> byte list list)" where
  "SerializeAndSendMessage wr hc cmd pwm =
     (case hc_serial hc of
        None \<Rightarrow> Inr (-1, [])
      | Some p \<Rightarrow>
          (case SerialPort_Write wr p (frame cmd pwm) of
             Inl e \<Rightarrow> Inl e
           | Inr n \<Rightarrow> Inr (n, [frame cmd pwm])))"

definition neutral_pwm :: Pwm where
  "neutral_pwm = \<lparr>pwm_speed = kEscPwmN, pwm_steering = kSteerPwmN\<rparr>"

definition SendStopMessage :: "posix_write \<Rightarrow> HardwareControl \<Rightarrow> exn + (int \<times> byte list list)" where
  "SendStopMessage wr hc = SerializeAndSendMessage wr hc (hc_drive_command hc) neutral_pwm"

definition clamp_command :: "Parameters \<Rightarrow> ControlCommand \<Rightarrow> ControlCommand" where
  "clamp_command ps c =
     \<lparr>speed = std_clamp (speed c) 0 (max_speed ps),
      steering_angle = std_clamp (steering_angle c) (- max_steering_angle ps) (max_steering_angle ps)\<rparr>"

definition clamp_pwm :: "Pwm \<Rightarrow> Pwm" where
  "clamp_pwm p =
     \<lparr>pwm_speed = std_clamp (pwm_speed p) kEscPwmMin kEscPwmMax,
      pwm_steering = std_clamp (pwm_steering p) kSteerPwmMin kSteerPwmMax\<rparr>"

definition zero_result :: ControlResult where
  "zero_result = \<lparr>cr_command = \<lparr>speed = 0, steering_angle = 0\<rparr>,
                  cr_pwm = \<lparr>pwm_speed = 0, pwm_steering = 0\<rparr>\<rparr>"

definition SendControlCommand ::
    "posix_write \<Rightarrow> HardwareControl \<Rightarrow> ControlCommand \<Rightarrow> exn + (ControlResult \<times> byte list list)" where
  "SendControlCommand wr hc cc =
     (if GotStopCommand hc then
        (case SendStopMessage wr hc of
           Inl e \<Rightarrow> Inl e
         | Inr (_, fs) \<Rightarrow> Inr (zero_result, fs))
      else
        let cc' = clamp_command (hc_parameters hc) cc;
            pwm = clamp_pwm (ConvertCommandToPwm cc')
        in (case SerializeAndSendMessage wr hc (hc_drive_command hc) pwm of
              Inl e \<Rightarrow> Inl e
            | Inr (_, fs) \<Rightarrow> Inr (\<lparr>cr_command = cc', cr_pwm = pwm\<rparr>, fs)))"

end
