(* ===== verification/HardwareNode.thy ===== *)
theory HardwareNode
  imports HardwareControl
begin

text \<open>
  The node of \<open>hardware_control_node.cpp\<close>: the mode switch between the autonomous stream
  (\<open>planning_control/control_command\<close>) and the teleoperated one (\<open>teleop/control_command\<close>),
  the commands of the ground station and of the teleoperator, and the missed-deadline
  callback.  Its safety invariant is proved once for all callbacks and holds in every run
  through the locale \<open>handler_system\<close>.
\<close>

section \<open>State, messages, callbacks\<close>

record HwNode =
  hn_hc :: HardwareControl
  hn_teleop :: bool

datatype HwOut =
    Serial "byte list"
  | PubControl ControlCommandMsg
  | PubPwm ControlCommandMsg
  | PubTeleop bool

datatype HwEvent =
    EvDeadline
  | EvControl ControlCommandMsg
  | EvTeleopControl ControlCommandMsg
  | EvGcs int8
  | EvTeleop int8

text \<open>Parameter overrides given to the node; a missing one leaves the default of \<open>Parameters\<close>.\<close>

record HwOverrides =
  ov_max_speed :: "real option"
  ov_max_steering_angle :: "real option"
  ov_serial_baudrate :: "int option"
  ov_use_dummy_hardware :: "bool option"

definition ReadParameters :: "HwOverrides \<Rightarrow> Parameters" where
  "ReadParameters ov =
     \<lparr>max_speed = get_parameter_or (ov_max_speed ov) 0,
      max_steering_angle = get_parameter_or (ov_max_steering_angle ov) 0,
      serial_baudrate = get_parameter_or (ov_serial_baudrate ov) 0,
      use_dummy_hardware = get_parameter_or (ov_use_dummy_hardware ov) False\<rparr>"

definition HardwareControlNode_ctor ::
    "posix_open \<Rightarrow> HwOverrides \<Rightarrow> fds \<Rightarrow> (exn + HwNode \<times> HwOut list) \<times> fds" where
  "HardwareControlNode_ctor os ov F =
     (case HardwareControl_ctor os (ReadParameters ov) F of
        (Inl e, F') \<Rightarrow> (Inl e, F')
      | (Inr hc, F') \<Rightarrow> (Inr (\<lparr>hn_hc = hc, hn_teleop = False\<rparr>, [PubTeleop False]), F'))"

definition ToMsg :: "ControlCommand \<Rightarrow> ControlCommandMsg" where
  "ToMsg c = \<lparr>cm_speed = speed c, cm_steering_angle = steering_angle c\<rparr>"

definition ToMsg2 :: "Pwm \<Rightarrow> ControlCommandMsg" where
  "ToMsg2 p = \<lparr>cm_speed = of_int (pwm_speed p), cm_steering_angle = of_int (pwm_steering p)\<rparr>"

text \<open>Sending a command and publishing what was sent: the common tail of three callbacks.\<close>

definition send_and_publish ::
    "posix_write \<Rightarrow> HwNode \<Rightarrow> ControlCommand \<Rightarrow> exn + HwOut list" where
  "send_and_publish wr n cc =
     (case SendControlCommand wr (hn_hc n) cc of
        Inl e \<Rightarrow> Inl e
      | Inr (r, fs) \<Rightarrow> Inr (map Serial fs @ [PubControl (ToMsg (cr_command r)), PubPwm (ToMsg2 (cr_pwm r))]))"

definition set_drive :: "DriveCommand \<Rightarrow> HwNode \<Rightarrow> HwNode" where
  "set_drive d n = n\<lparr>hn_hc := SetDriveCommand d (hn_hc n)\<rparr>"

definition deadline_callback :: "posix_write \<Rightarrow> HwNode \<Rightarrow> exn + (HwNode \<times> HwOut list)" where
  "deadline_callback wr n =
     (case send_and_publish wr n \<lparr>speed = 0, steering_angle = 0\<rparr> of
        Inl e \<Rightarrow> Inl e
      | Inr os \<Rightarrow> Inr (set_drive kStop n, os))"

definition ControlCommandCallback ::
    "posix_write \<Rightarrow> ControlCommandMsg \<Rightarrow> HwNode \<Rightarrow> exn + (HwNode \<times> HwOut list)" where
  "ControlCommandCallback wr msg n =
     (if hn_teleop n then Inr (n, [])
      else case send_and_publish wr n \<lparr>speed = cm_speed msg, steering_angle = cm_steering_angle msg\<rparr> of
             Inl e \<Rightarrow> Inl e
           | Inr os \<Rightarrow> Inr (n, os))"

definition TeleopControlCommandCallback ::
    "posix_write \<Rightarrow> ControlCommandMsg \<Rightarrow> HwNode \<Rightarrow> exn + (HwNode \<times> HwOut list)" where
  "TeleopControlCommandCallback wr msg n =
     (if \<not> hn_teleop n then Inr (n, [])
      else case send_and_publish wr n \<lparr>speed = cm_speed msg, steering_angle = cm_steering_angle msg\<rparr> of
             Inl e \<Rightarrow> Inl e
           | Inr os \<Rightarrow> Inr (n, os))"

definition GcsCommandCallback :: "int8 \<Rightarrow> HwNode \<Rightarrow> HwNode" where
  "GcsCommandCallback d n =
     (if d = 0 then set_drive kStop n
      else if d = 1 then (if \<not> hn_teleop n then set_drive kAuto n else n)
      else set_drive kStop n)"

definition TeleopCommandCallback :: "int8 \<Rightarrow> HwNode \<Rightarrow> HwNode \<times> HwOut list" where
  "TeleopCommandCallback d n =
     (let n' = (if d = 0 then (set_drive kStop n)\<lparr>hn_teleop := True\<rparr>
                else if d = 1 then (if hn_teleop n then set_drive kManual n else n)
                else if d = 2 then (set_drive kStop n)\<lparr>hn_teleop := False\<rparr>
                else set_drive kStop n)
      in (n', [PubTeleop (hn_teleop n')]))"

fun hw_step :: "HwNode \<Rightarrow> posix_write \<times> HwEvent \<Rightarrow> exn + (HwNode \<times> HwOut list)" where
  "hw_step n (wr, EvDeadline) = deadline_callback wr n"
| "hw_step n (wr, EvControl m) = ControlCommandCallback wr m n"
| "hw_step n (wr, EvTeleopControl m) = TeleopControlCommandCallback wr m n"
| "hw_step n (wr, EvGcs d) = Inr (GcsCommandCallback d n, [])"
| "hw_step n (wr, EvTeleop d) = Inr (TeleopCommandCallback d n)"

lemmas hw_callbacks = deadline_callback_def ControlCommandCallback_def
  TeleopControlCommandCallback_def GcsCommandCallback_def TeleopCommandCallback_def
  set_drive_def SetDriveCommand_def

section \<open>What one command sends\<close>

definition params_ok :: "Parameters \<Rightarrow> bool" where
  "params_ok ps \<longleftrightarrow> 0 \<le> max_speed ps \<and> 0 \<le> max_steering_angle ps"

definition pwm_safe :: "Pwm \<Rightarrow> bool" where
  "pwm_safe p \<longleftrightarrow> kEscPwmN \<le> pwm_speed p \<and> pwm_speed p \<le> kEscPwmMax
     \<and> kSteerPwmMin \<le> pwm_steering p \<and> pwm_steering p \<le> kSteerPwmMax"

text \<open>A frame the node may put on the wire: bounded, never reversing, neutral when stopped.\<close>

definition safe_frame :: "byte list \<Rightarrow> bool" where
  "safe_frame bs \<longleftrightarrow>
     (\<exists>cmd pwm. bs = frame cmd pwm \<and> pwm_safe pwm \<and> (cmd = kStop \<longrightarrow> pwm = neutral_pwm))"

fun hw_ok :: "Parameters \<Rightarrow> HwOut \<Rightarrow> bool" where
  "hw_ok ps (Serial bs) = safe_frame bs"
| "hw_ok ps (PubControl m) = (0 \<le> cm_speed m \<and> cm_speed m \<le> max_speed ps
     \<and> \<bar>cm_steering_angle m\<bar> \<le> max_steering_angle ps)"
| "hw_ok ps (PubPwm m) = True"
| "hw_ok ps (PubTeleop b) = True"

lemma neutral_pwm_safe: "pwm_safe neutral_pwm"
  by (simp add: pwm_safe_def neutral_pwm_def pwm_consts)

lemma Convert_speed_mono:
  "0 \<le> speed c \<Longrightarrow> speed c \<le> speed d \<Longrightarrow>
   pwm_speed (ConvertCommandToPwm c) \<le> pwm_speed (ConvertCommandToPwm d)"
  unfolding ConvertCommandToPwm_def
  by (auto intro!: c_trunc_mono mult_left_mono powr_mono2 simp: kEscPwmSpeedGain_def)

lemma Convert_speed_neutral: "pwm_speed (ConvertCommandToPwm \<lparr>speed = 0, steering_angle = a\<rparr>) = kEscPwmN"
  by (simp add: ConvertCommandToPwm_def)

lemma Convert_speed_ge: "0 \<le> speed c \<Longrightarrow> kEscPwmN \<le> pwm_speed (ConvertCommandToPwm c)"
  using Convert_speed_mono [of "\<lparr>speed = 0, steering_angle = 0\<rparr>" c] by (simp add: Convert_speed_neutral)

lemma clamp_command_bounds:
  assumes "params_ok ps"
  shows "0 \<le> speed (clamp_command ps c)" "speed (clamp_command ps c) \<le> max_speed ps"
    "\<bar>steering_angle (clamp_command ps c)\<bar> \<le> max_steering_angle ps"
  using assms by (auto simp: params_ok_def clamp_command_def std_clamp_def abs_le_iff)

lemma clamp_pwm_safe: "kEscPwmN \<le> pwm_speed p \<Longrightarrow> pwm_safe (clamp_pwm p)"
  by (auto simp: pwm_safe_def clamp_pwm_def std_clamp_def pwm_consts)

lemma Serialize_frames:
  "SerializeAndSendMessage wr hc cmd pwm = Inr (r, fs) \<Longrightarrow> set fs \<subseteq> {frame cmd pwm}"
  by (auto simp: SerializeAndSendMessage_def split: option.splits sum.splits)

lemma SendControlCommand_stop:
  "hc_drive_command hc = kStop \<Longrightarrow> SendControlCommand wr hc cc = Inr (r, fs) \<Longrightarrow>
   r = zero_result \<and> set fs \<subseteq> {frame kStop neutral_pwm}"
  by (auto simp: SendControlCommand_def GotStopCommand_def SendStopMessage_def
      split: sum.splits dest: Serialize_frames)

section \<open>The mode invariant\<close>

text \<open>The drive command agrees with the mode, and the parameters never change.\<close>

definition hw_inv :: "Parameters \<Rightarrow> HwNode \<Rightarrow> bool" where
  "hw_inv ps n \<longleftrightarrow> params_ok ps \<and> hc_parameters (hn_hc n) = ps
     \<and> (hc_drive_command (hn_hc n) = kManual \<longrightarrow> hn_teleop n)
     \<and> (hc_drive_command (hn_hc n) = kAuto \<longrightarrow> \<not> hn_teleop n)"

lemma send_and_publish_ok:
  assumes "send_and_publish wr n cc = Inr os" and "params_ok (hc_parameters (hn_hc n))"
  shows "list_all (hw_ok (hc_parameters (hn_hc n))) os"
proof -
  let ?hc = "hn_hc n" and ?ps = "hc_parameters (hn_hc n)"
  obtain r fs where r: "SendControlCommand wr ?hc cc = Inr (r, fs)"
    and os: "os = map Serial fs @ [PubControl (ToMsg (cr_command r)), PubPwm (ToMsg2 (cr_pwm r))]"
    using assms(1) by (auto simp: send_and_publish_def split: sum.splits)
  show ?thesis
  proof (cases "hc_drive_command ?hc = kStop")
    case True
    with r have "r = zero_result" and "set fs \<subseteq> {frame kStop neutral_pwm}"
      using SendControlCommand_stop by blast+
    then show ?thesis
      using assms(2) os neutral_pwm_safe
      by (auto simp: list_all_iff safe_frame_def zero_result_def ToMsg_def params_ok_def)
  next
    case False
    define c where "c = clamp_command ?ps cc"
    define p where "p = clamp_pwm (ConvertCommandToPwm c)"
    have c: "0 \<le> speed c" "speed c \<le> max_speed ?ps" "\<bar>steering_angle c\<bar> \<le> max_steering_angle ?ps"
      using clamp_command_bounds [OF assms(2)] by (simp_all add: c_def)
    have "pwm_safe p"
      using c(1) by (simp add: p_def clamp_pwm_safe Convert_speed_ge)
    moreover from False r have "cr_command r = c" and "set fs \<subseteq> {frame (hc_drive_command ?hc) p}"
      by (auto simp: SendControlCommand_def GotStopCommand_def c_def p_def Let_def
          split: sum.splits dest: Serialize_frames)
    ultimately show ?thesis
      using False c os by (auto simp: list_all_iff safe_frame_def ToMsg_def)
  qed
qed

lemma hw_step_safe:
  assumes "hw_inv ps n" and "hw_step n e = Inr (n', os)"
  shows "hw_inv ps n' \<and> list_all (hw_ok ps) os"
proof -
  obtain wr ev where e: "e = (wr, ev)" by fastforce
  have ok: "list_all (hw_ok ps) xs" if "send_and_publish wr n cc = Inr xs" for cc xs
    using send_and_publish_ok [OF that] assms(1) by (simp add: hw_inv_def)
  show ?thesis
    using assms ok unfolding e
    by (cases ev) (auto simp: hw_callbacks hw_inv_def Let_def split: if_splits sum.splits)
qed

interpretation hw: handler_system hw_step "hw_inv ps" "hw_ok ps" for ps
  by unfold_locales (blast dest: hw_step_safe)+

text \<open>Everything that can start the car: the ground station's start and the teleoperator's.\<close>

fun is_start :: "HwEvent \<Rightarrow> bool" where
  "is_start (EvGcs d) = (d = 1)"
| "is_start (EvTeleop d) = (d = 1)"
| "is_start _ = False"

fun hw_still :: "HwOut \<Rightarrow> bool" where
  "hw_still (Serial bs) = (bs = frame kStop neutral_pwm)"
| "hw_still (PubControl m) = (cm_speed m = 0)"
| "hw_still _ = True"

definition stop_step :: "HwNode \<Rightarrow> posix_write \<times> HwEvent \<Rightarrow> exn + (HwNode \<times> HwOut list)" where
  "stop_step n e = (if is_start (snd e) then Inr (n, []) else hw_step n e)"

lemma stop_step_still:
  assumes stop: "hc_drive_command (hn_hc n) = kStop" and "stop_step n e = Inr (n', os)"
  shows "hc_drive_command (hn_hc n') = kStop \<and> list_all hw_still os"
proof -
  obtain wr ev where e: "e = (wr, ev)" by fastforce
  have ok: "list_all hw_still xs" if "send_and_publish wr n cc = Inr xs" for cc xs
    using that SendControlCommand_stop [OF stop]
    by (fastforce simp: send_and_publish_def list_all_iff zero_result_def ToMsg_def split: sum.splits)
  show ?thesis
    using assms ok unfolding e
    by (cases ev) (auto simp: stop_step_def hw_callbacks Let_def split: if_splits sum.splits)
qed

interpretation stopped: handler_system stop_step "\<lambda>n. hc_drive_command (hn_hc n) = kStop" hw_still
  by unfold_locales (blast dest: stop_step_still)+

lemma run_stop_step:
  "list_all (\<lambda>e. \<not> is_start (snd e)) es \<Longrightarrow> run_handlers stop_step n es = run_handlers hw_step n es"
  by (induction es arbitrary: n) (simp_all add: stop_step_def split: sum.splits)

section \<open>Properties of the node\<close>

lemma hw_ctor_inv:
  assumes "HardwareControlNode_ctor os ov F = (Inr (n, outs), F')" and "params_ok (ReadParameters ov)"
  shows "hw_inv (ReadParameters ov) n" and "hc_drive_command (hn_hc n) = kStop"
  using assms
  by (auto simp: HardwareControlNode_ctor_def HardwareControl_ctor_def hw_inv_def
      split: prod.splits sum.splits if_splits)

text \<open>
  C3.  In every run of the node from its constructor, with a speed and a steering limit that
  are not negative: the car is driven by the planner only outside teleoperation and by the
  teleoperator only inside it, and whatever is sent is safe: each serial frame carries PWM
  values inside their ranges and never below neutral, a stop frame is neutral, and each
  published command respects the configured limits.
\<close>

theorem hw_run_safe:
  assumes "HardwareControlNode_ctor os ov F = (Inr (n, outs0), F')"
    and "params_ok (ReadParameters ov)"
    and "run_handlers hw_step n es = Inr (n', outs)"
  shows "(hc_drive_command (hn_hc n') = kManual \<longrightarrow> hn_teleop n')
    \<and> (hc_drive_command (hn_hc n') = kAuto \<longrightarrow> \<not> hn_teleop n')
    \<and> (\<forall>bs. Serial bs \<in> set outs \<longrightarrow> safe_frame bs)
    \<and> (\<forall>m. PubControl m \<in> set outs \<longrightarrow> 0 \<le> cm_speed m
         \<and> cm_speed m \<le> max_speed (ReadParameters ov)
         \<and> \<bar>cm_steering_angle m\<bar> \<le> max_steering_angle (ReadParameters ov))"
proof -
  note inv = hw_ctor_inv(1) [OF assms(1,2)]
  have "hw_inv (ReadParameters ov) n'"
    by (rule hw.run_inv [OF assms(3) inv])
  moreover have "hw_ok (ReadParameters ov) x" if "x \<in> set outs" for x
    using that by (rule hw.run_out [OF assms(3) inv])
  ultimately show ?thesis
    by (fastforce simp: hw_inv_def)
qed

definition test_overrides :: HwOverrides where
  "test_overrides = \<lparr>ov_max_speed = Some 1, ov_max_steering_angle = Some 1,
                     ov_serial_baudrate = None, ov_use_dummy_hardware = Some True\<rparr>"

theorem hw_run_safe_witness:
  "\<exists>n n' outs. run_handlers hw_step n [(\<lambda>_ _. 9, EvTeleop 0), (\<lambda>_ _. 9, EvTeleop 1)] = Inr (n', outs)
     \<and> hc_drive_command (hn_hc n') = kManual \<and> hn_teleop n'"
proof -
  define n where "n = \<lparr>hn_hc = \<lparr>hc_parameters = ReadParameters test_overrides, hc_serial = None,
                                 hc_drive_command = kStop\<rparr>, hn_teleop = False\<rparr>"
  define n' where "n' = (set_drive kManual n)\<lparr>hn_teleop := True\<rparr>"
  let ?es = "[(\<lambda>_ _. 9, EvTeleop 0), (\<lambda>_ _. 9, EvTeleop 1)] :: (posix_write \<times> HwEvent) list"
  have c: "HardwareControlNode_ctor \<lparr>po_open = 0, po_tcgetattr = 0, po_tcsetattr = 0\<rparr> test_overrides {}
      = (Inr (n, [PubTeleop False]), {})"
    by (simp add: HardwareControlNode_ctor_def HardwareControl_ctor_def n_def ReadParameters_def
        test_overrides_def get_parameter_or_def)
  have p: "params_ok (ReadParameters test_overrides)"
    by (simp add: params_ok_def ReadParameters_def test_overrides_def get_parameter_or_def)
  have r: "run_handlers hw_step n ?es = Inr (n', [PubTeleop True, PubTeleop True])"
    by (simp add: hw_callbacks n_def n'_def)
  have "hc_drive_command (hn_hc n') = kManual"
    by (simp add: n'_def set_drive_def SetDriveCommand_def)
  then show ?thesis
    using hw_run_safe [OF c p r] r by blast
qed

text \<open>
  C4.  The car stands still until it is started: from a stopped node, as long as neither the
  ground station nor the teleoperator sends a start command, every frame on the wire is the
  neutral stop frame, every published speed is 0, and the node stays stopped, whatever
  control commands, stop commands, undefined commands and missed deadlines come in between.
\<close>

theorem no_motion_until_started:
  assumes "hc_drive_command (hn_hc n) = kStop"
    and "list_all (\<lambda>e. \<not> is_start (snd e)) es"
    and "run_handlers hw_step n es = Inr (n', outs)"
  shows "hc_drive_command (hn_hc n') = kStop
    \<and> (\<forall>bs. Serial bs \<in> set outs \<longrightarrow> bs = frame kStop neutral_pwm)
    \<and> (\<forall>m. PubControl m \<in> set outs \<longrightarrow> cm_speed m = 0)"
proof -
  have r: "run_handlers stop_step n es = Inr (n', outs)"
    using assms(2,3) by (simp add: run_stop_step)
  have "hw_still x" if "x \<in> set outs" for x
    using stopped.run_out [OF r assms(1) that] .
  then show ?thesis
    using stopped.run_inv [OF r assms(1)] by fastforce
qed

definition stopped_node :: "bool \<Rightarrow> HwNode" where
  "stopped_node tele = \<lparr>hn_hc = \<lparr>hc_parameters = \<lparr>max_speed = 1, max_steering_angle = 1,
       serial_baudrate = 115200, use_dummy_hardware = False\<rparr>,
       hc_serial = Some \<lparr>port_fd = 3\<rparr>, hc_drive_command = kStop\<rparr>, hn_teleop = tele\<rparr>"

theorem no_motion_until_started_witness:
  "run_handlers hw_step (stopped_node False)
     [(\<lambda>_ bs. int (length bs), EvControl \<lparr>cm_speed = 1, cm_steering_angle = 0\<rparr>)] =
       Inr (stopped_node False, [Serial (frame kStop neutral_pwm), PubControl \<lparr>cm_speed = 0, cm_steering_angle = 0\<rparr>,
            PubPwm \<lparr>cm_speed = 0, cm_steering_angle = 0\<rparr>])
   \<and> hc_drive_command (hn_hc (stopped_node False)) = kStop"
proof -
  let ?es = "[(\<lambda>_ bs. int (length bs), EvControl \<lparr>cm_speed = 1, cm_steering_angle = 0\<rparr>)]"
  have r: "run_handlers hw_step (stopped_node False) ?es =
      Inr (stopped_node False, [Serial (frame kStop neutral_pwm), PubControl \<lparr>cm_speed = 0, cm_steering_angle = 0\<rparr>,
            PubPwm \<lparr>cm_speed = 0, cm_steering_angle = 0\<rparr>])"
    by (simp add: stopped_node_def ControlCommandCallback_def send_and_publish_def SendControlCommand_def
        GotStopCommand_def SendStopMessage_def SerializeAndSendMessage_def SerialPort_Write_def
        zero_result_def ToMsg_def ToMsg2_def)
  have "hc_drive_command (hn_hc (stopped_node False)) = kStop"
    by (simp add: stopped_node_def)
  from no_motion_until_started [OF this _ r] r show ?thesis by simp
qed

lemma clamp_zero_command:
  "params_ok ps \<Longrightarrow> clamp_pwm (ConvertCommandToPwm (clamp_command ps \<lparr>speed = 0, steering_angle = 0\<rparr>)) = neutral_pwm"
  by (simp add: params_ok_def clamp_command_def std_clamp_def ConvertCommandToPwm_def clamp_pwm_def
      RadToDeg_def neutral_pwm_def pwm_consts)

lemma SendControlCommand_zero:
  assumes "params_ok (hc_parameters hc)"
    and "SendControlCommand wr hc \<lparr>speed = 0, steering_angle = 0\<rparr> = Inr (r, fs)"
  shows "set fs \<subseteq> {frame (hc_drive_command hc) neutral_pwm}"
  using assms(2) clamp_zero_command [OF assms(1)]
  by (auto simp: SendControlCommand_def GotStopCommand_def SendStopMessage_def Let_def
      split: if_splits sum.splits dest: Serialize_frames)

text \<open>
  A missed deadline of the planner's command stream stops the car in whatever mode it is:
  the frame sent with it has the neutral PWM values under the drive command of the moment,
  and the drive command becomes stop.  The callback does not look at the mode, so it stops a
  teleoperated car too: its next command is answered with the stop frame.
\<close>

theorem deadline_stops_any_mode:
  assumes "params_ok (hc_parameters (hn_hc n))"
    and "deadline_callback wr n = Inr (n', outs)"
  shows "n' = set_drive kStop n
    \<and> (\<forall>bs. Serial bs \<in> set outs \<longrightarrow> bs = frame (hc_drive_command (hn_hc n)) neutral_pwm)
    \<and> (\<forall>wr' m n'' outs' bs. TeleopControlCommandCallback wr' m n' = Inr (n'', outs')
         \<and> Serial bs \<in> set outs' \<longrightarrow> bs = frame kStop neutral_pwm)"
proof -
  have "hc_drive_command (hn_hc (set_drive kStop n)) = kStop"
    by (simp add: set_drive_def SetDriveCommand_def)
  then have "bs = frame kStop neutral_pwm"
    if "TeleopControlCommandCallback wr' m (set_drive kStop n) = Inr (n'', outs')" "Serial bs \<in> set outs'"
    for wr' m n'' outs' bs
    using that by (auto simp: TeleopControlCommandCallback_def send_and_publish_def
        split: if_splits sum.splits dest!: SendControlCommand_stop [rotated])
  then show ?thesis
    using assms
    by (auto simp: deadline_callback_def send_and_publish_def split: sum.splits
        dest!: SendControlCommand_zero [OF assms(1)])
qed

theorem deadline_stops_any_mode_witness:
  "deadline_callback (\<lambda>_ bs. int (length bs)) (set_drive kManual (stopped_node True)) =
     Inr (stopped_node True, [Serial (frame kManual neutral_pwm), PubControl \<lparr>cm_speed = 0, cm_steering_angle = 0\<rparr>,
        PubPwm (ToMsg2 neutral_pwm)])
   \<and> stopped_node True = set_drive kStop (set_drive kManual (stopped_node True))"
proof -
  let ?n = "set_drive kManual (stopped_node True)"
  have p: "params_ok (hc_parameters (hn_hc ?n))"
    by (simp add: params_ok_def stopped_node_def set_drive_def SetDriveCommand_def)
  have r: "deadline_callback (\<lambda>_ bs. int (length bs)) ?n =
     Inr (stopped_node True, [Serial (frame kManual neutral_pwm), PubControl \<lparr>cm_speed = 0, cm_steering_angle = 0\<rparr>,
        PubPwm (ToMsg2 neutral_pwm)])"
    using clamp_zero_command [OF p]
    by (simp add: stopped_node_def deadline_callback_def send_and_publish_def SendControlCommand_def
        GotStopCommand_def SerializeAndSendMessage_def SerialPort_Write_def Let_def
        set_drive_def SetDriveCommand_def ToMsg_def clamp_command_def std_clamp_def)
  from deadline_stops_any_mode [OF p r] r show ?thesis by simp
qed

text \<open>
  The port's constructor either owns exactly one new descriptor, which its destructor
  closes again, or throws; when it throws it has closed what it opened, except for an
  unsupported baud rate, where the descriptor is leaked.
\<close>

theorem serial_port_descriptors:
  assumes "po_open os \<notin> F"
  shows "case SerialPort_ctor os baud F of
      (Inr (p, _), F') \<Rightarrow> port_fd p = po_open os \<and> F' = insert (port_fd p) F \<and> SerialPort_dtor p F' = F
        \<and> SerialPort_dtor (snd (SerialPort_move p)) (SerialPort_dtor (fst (SerialPort_move p)) F') = F
    | (Inl e, F') \<Rightarrow> F' = (if e = Runtime_error ''Unsupported baudrate'' then insert (po_open os) F else F)"
  using assms
  by (auto simp: SerialPort_ctor_def GetBaudrate_def SerialPort_dtor_def SerialPort_move_def Let_def
      split: sum.splits if_splits)

theorem serial_port_descriptors_witness:
  "SerialPort_ctor \<lparr>po_open = 5, po_tcgetattr = 0, po_tcsetattr = 0\<rparr> 9600 {0, 1, 2} =
     (Inl (Runtime_error ''Unsupported baudrate''), insert 5 {0, 1, 2})"
  using serial_port_descriptors [of "\<lparr>po_open = 5, po_tcgetattr = 0, po_tcsetattr = 0\<rparr>" "{0, 1, 2}" 9600]
  by (simp add: SerialPort_ctor_def GetBaudrate_def)

end
