(* ===== verification/Firmware.thy ===== *)
theory Firmware
  imports HardwareControl
begin

unbundle bit_operations_syntax

text \<open>
  The other end of the serial link: the receiver loop of the ESP32 firmware
  (\<open>hardware/firmware/esp32_uart_pwm.ino\<close>), a byte-at-a-time state machine that collects the
  seven payload bytes after the header, verifies the checksum and drives the servo, the
  ESC and the lamps.  The locale \<open>serial_codec\<close> states what the two ends promise each
  other; it is interpreted on the frames of \<open>SerializeAndSendMessage\<close> and this receiver.
\<close>

section \<open>The receiver\<close>

record rx =
  rx_state :: nat
  rx_payload :: "byte list"
  rx_index :: nat

definition rx_init :: rx where
  "rx_init = \<lparr>rx_state = 0, rx_payload = replicate 7 0, rx_index = 0\<rparr>"

text \<open>What one verified packet makes the firmware write to its pins.\<close>

record actuation =
  ac_servo_duty :: int
  ac_esc_duty :: int
  ac_yled :: bool
  ac_gled :: bool

definition constrain :: "int \<Rightarrow> int \<Rightarrow> int \<Rightarrow> int" where
  "constrain x a b = (if x < a then a else if x > b then b else x)"

definition servoWrite :: "int \<Rightarrow> int" where
  "servoWrite deg = c_trunc (of_int deg * 18.2) + 3277"

text \<open>\<open>(int16_t)((hi << 8) | lo)\<close>.\<close>

definition int16_of :: "byte \<Rightarrow> byte \<Rightarrow> int" where
  "int16_of h l = sint (word_of_int (push_bit 8 (uint h) OR uint l) :: 16 word)"

definition actuate :: "byte list \<Rightarrow> actuation" where
  "actuate payload =
     (let xs = int16_of (payload ! 0) (payload ! 1);
          xa = int16_of (payload ! 2) (payload ! 3);
          xm = int16_of (payload ! 4) (payload ! 5)
      in \<lparr>ac_servo_duty = servoWrite (constrain xs 0 180),
          ac_esc_duty = constrain xa 3277 6553,
          ac_yled = (xm = 2), ac_gled = (xm > 0)\<rparr>)"

definition payload_checksum :: "byte list \<Rightarrow> byte" where
  "payload_checksum payload = foldl (\<lambda>checksum i. checksum + payload ! i) 0 [0..<6]"

definition rx_byte :: "rx \<Rightarrow> byte \<Rightarrow> rx \<times> actuation list" where
  "rx_byte s c =
     (if rx_state s = 0 then (if c = 0xFF then s\<lparr>rx_state := 1\<rparr> else s, [])
      else if rx_state s = 1 then
        (if c = 0xFE then s\<lparr>rx_state := 2, rx_index := 0\<rparr> else s\<lparr>rx_state := 0\<rparr>, [])
      else if rx_state s = 2 then
        let payload = (rx_payload s)[rx_index s := c]; index = rx_index s + 1
        in if index \<ge> 7 then
             (s\<lparr>rx_payload := payload, rx_index := index, rx_state := 0\<rparr>,
              if payload_checksum payload = payload ! 6 then [actuate payload] else [])
           else (s\<lparr>rx_payload := payload, rx_index := index\<rparr>, [])
      else (s, []))"

fun rx_run :: "rx \<Rightarrow> byte list \<Rightarrow> rx \<times> actuation list" where
  "rx_run s [] = (s, [])"
| "rx_run s (c # cs) =
     (let (s1, a) = rx_byte s c; (s2, b) = rx_run s1 cs in (s2, a @ b))"

lemma rx_run_append:
  "rx_run s (xs @ ys) = (let (s1, a) = rx_run s xs; (s2, b) = rx_run s1 ys in (s2, a @ b))"
  by (induction xs arbitrary: s) (auto split: prod.splits)

text \<open>The buffer invariant: the payload array is never indexed past its end.\<close>

definition rx_inv :: "rx \<Rightarrow> bool" where
  "rx_inv s \<longleftrightarrow> length (rx_payload s) = 7 \<and> rx_state s \<le> 2 \<and> (rx_state s = 2 \<longrightarrow> rx_index s < 7)"

definition rx_idle :: "rx \<Rightarrow> bool" where
  "rx_idle s \<longleftrightarrow> length (rx_payload s) = 7 \<and> rx_state s = 0"

lemma rx_inv_init: "rx_inv rx_init"
  by (simp add: rx_inv_def rx_init_def)

lemma rx_idle_init: "rx_idle rx_init"
  by (simp add: rx_idle_def rx_init_def)

lemma rx_idle_inv: "rx_idle s \<Longrightarrow> rx_inv s"
  by (simp add: rx_inv_def rx_idle_def)

lemma rx_byte_inv: "rx_inv s \<Longrightarrow> rx_inv (fst (rx_byte s c))"
  by (auto simp: rx_inv_def rx_byte_def Let_def)

lemma rx_run_inv: "rx_inv s \<Longrightarrow> rx_inv (fst (rx_run s cs))"
  by (induction cs arbitrary: s) (auto dest: rx_byte_inv split: prod.splits, metis fst_conv rx_byte_inv)

text \<open>One byte in each of the three states.\<close>

lemma rx_byte_wait: "rx_state s = 0 \<Longrightarrow> c \<noteq> 0xFF \<Longrightarrow> rx_byte s c = (s, [])"
  by (simp add: rx_byte_def)

lemma rx_byte_header:
  "rx_state s = 1 \<Longrightarrow> rx_byte s c =
     (if c = 0xFE then s\<lparr>rx_state := 2, rx_index := 0\<rparr> else s\<lparr>rx_state := 0\<rparr>, [])"
  by (simp add: rx_byte_def)

section \<open>The contract of the link\<close>

locale serial_codec =
  fixes enc :: "'m \<Rightarrow> byte list"
    and recv :: "'r \<Rightarrow> byte list \<Rightarrow> 'r \<times> 'a list"
    and act :: "'m \<Rightarrow> 'a"
    and idle :: "'r \<Rightarrow> bool"
    and valid :: "'m \<Rightarrow> bool"
  assumes recv_Nil: "recv s [] = (s, [])"
    and recv_append:
      "recv s (xs @ ys) = (let (s1, a) = recv s xs; (s2, b) = recv s1 ys in (s2, a @ b))"
    and decode: "idle s \<Longrightarrow> valid m \<Longrightarrow> \<exists>s'. idle s' \<and> recv s (enc m) = (s', [act m])"
begin

lemma stream:
  assumes "idle s" and "list_all valid ms"
  shows "\<exists>s'. idle s' \<and> recv s (concat (map enc ms)) = (s', map act ms)"
  using assms
proof (induction ms arbitrary: s)
  case Nil
  then show ?case by (simp add: recv_Nil)
next
  case (Cons m ms)
  then obtain s1 where "idle s1" and 1: "recv s (enc m) = (s1, [act m])"
    using decode [of s m] by auto
  moreover from Cons.IH [OF \<open>idle s1\<close>] Cons.prems obtain s2
    where "idle s2" and "recv s1 (concat (map enc ms)) = (s2, map act ms)" by auto
  ultimately show ?case by (simp add: recv_append)
qed

end

section \<open>Decoding a frame\<close>

lemma uint_lo_byte: "uint (lo_byte x) = x mod 256"
proof -
  have "x AND 0xFF = x mod 256"
    using take_bit_eq_mask [of 8 x] by (simp add: mask_eq_exp_minus_1 take_bit_eq_mod)
  then show ?thesis by (simp add: lo_byte_def uint_word_of_int)
qed

lemma uint_hi_byte: "uint (hi_byte x) = (x div 256) mod 256"
proof -
  have "drop_bit 8 x AND 0xFF = (x div 256) mod 256"
    using take_bit_eq_mask [of 8 "drop_bit 8 x"]
    by (simp add: mask_eq_exp_minus_1 take_bit_eq_mod drop_bit_eq_div)
  then show ?thesis by (simp add: hi_byte_def uint_word_of_int)
qed

lemma push_bit_OR_low:
  assumes "0 \<le> b" and "b < 2 ^ n"
  shows "push_bit n a OR b = a * 2 ^ n + (b::int)"
proof -
  have b: "b = take_bit n b"
    using assms by (simp add: take_bit_int_eq_self)
  have "push_bit n a AND b = 0"
    by (subst b, rule bit_eqI) (auto simp: bit_simps)
  then show ?thesis
    by (simp add: disjunctive_add_eq_or [symmetric] push_bit_eq_mult)
qed

lemma int16_of_bytes:
  assumes "- (2 ^ 15) \<le> x" and "x < 2 ^ 15"
  shows "int16_of (hi_byte x) (lo_byte x) = x"
proof -
  have "push_bit 8 (uint (hi_byte x)) OR uint (lo_byte x) = (x div 256) mod 256 * 2 ^ 8 + x mod 256"
    by (subst push_bit_OR_low) (simp_all add: uint_lo_byte uint_hi_byte)
  also have "\<dots> = x mod (256 * 256)"
    by (subst zmod_zmult2_eq) simp_all
  also have "\<dots> = take_bit 16 x"
    by (simp add: take_bit_eq_mod)
  finally have "int16_of (hi_byte x) (lo_byte x) = sint (word_of_int x :: 16 word)"
    by (simp add: int16_of_def sint_sbintrunc' signed_take_bit_take_bit)
  also have "\<dots> = x"
    using assms by (simp add: sint_sbintrunc' signed_take_bit_int_eq_self)
  finally show ?thesis .
qed

text \<open>A whole packet, received from the idle state.\<close>

lemma fill_payload:
  "length xs = 7 \<Longrightarrow>
   xs[0 := a, Suc 0 := b, Suc (Suc 0) := c, Suc (Suc (Suc 0)) := d, Suc (Suc (Suc (Suc 0))) := e,
      Suc (Suc (Suc (Suc (Suc 0)))) := f, Suc (Suc (Suc (Suc (Suc (Suc 0))))) := g] = [a, b, c, d, e, f, g]"
  by (auto simp: length_Suc_conv eval_nat_numeral)

lemma rx_collect:
  assumes "rx_idle s"
  shows "rx_run s [0xFF, 0xFE, a, b, c, d, e, f, g] =
    (s\<lparr>rx_payload := [a, b, c, d, e, f, g], rx_index := 7\<rparr>,
     if a + b + c + d + e + f = g then [actuate [a, b, c, d, e, f, g]] else [])"
proof -
  have "payload_checksum [a, b, c, d, e, f, g] = a + b + c + d + e + f"
    by (simp add: payload_checksum_def upt_rec)
  with assms show ?thesis
    by (cases s) (simp add: rx_byte_def rx_idle_def fill_payload Let_def)
qed

lemma frame_bytes:
  "frame cmd pwm =
     (let a = hi_byte (pwm_steering pwm); b = lo_byte (pwm_steering pwm);
          c = hi_byte (pwm_speed pwm); d = lo_byte (pwm_speed pwm);
          e = hi_byte (drive_int cmd); f = lo_byte (drive_int cmd)
      in [0xFF, 0xFE, a, b, c, d, e, f, a + b + c + d + e + f])"
  by (simp add: frame_def AddCheckSum_def frame_head_def upt_rec Let_def)

definition expected :: "DriveCommand \<times> Pwm \<Rightarrow> actuation" where
  "expected m = (case m of (cmd, pwm) \<Rightarrow>
     \<lparr>ac_servo_duty = servoWrite (pwm_steering pwm), ac_esc_duty = pwm_speed pwm,
      ac_yled = (cmd = kManual), ac_gled = (cmd \<noteq> kStop)\<rparr>)"

definition pwm_in_range :: "Pwm \<Rightarrow> bool" where
  "pwm_in_range p \<longleftrightarrow> kEscPwmMin \<le> pwm_speed p \<and> pwm_speed p \<le> kEscPwmMax
     \<and> kSteerPwmMin \<le> pwm_steering p \<and> pwm_steering p \<le> kSteerPwmMax"

lemma frame_decodes:
  assumes "rx_idle s" and "pwm_in_range pwm"
  shows "\<exists>s'. rx_idle s' \<and> rx_run s (frame cmd pwm) = (s', [expected (cmd, pwm)])"
proof -
  have "int16_of (hi_byte (pwm_steering pwm)) (lo_byte (pwm_steering pwm)) = pwm_steering pwm"
    "int16_of (hi_byte (pwm_speed pwm)) (lo_byte (pwm_speed pwm)) = pwm_speed pwm"
    "int16_of (hi_byte (drive_int cmd)) (lo_byte (drive_int cmd)) = drive_int cmd"
    using assms(2) by (cases cmd; simp add: int16_of_bytes pwm_in_range_def pwm_consts)+
  moreover have "rx_run s (frame cmd pwm) =
      (fst (rx_run s (frame cmd pwm)), [actuate (drop 2 (butlast (frame cmd pwm)) @ [last (frame cmd pwm)])])"
    using assms(1) by (simp add: frame_bytes Let_def rx_collect del: rx_run.simps)
  moreover have "rx_idle (fst (rx_run s (frame cmd pwm)))"
    using assms(1) by (simp add: frame_bytes Let_def rx_collect rx_idle_def del: rx_run.simps)
  ultimately show ?thesis
    using assms(2) by (cases cmd) (auto simp: frame_bytes Let_def actuate_def expected_def constrain_def
      pwm_in_range_def pwm_consts simp del: rx_run.simps)
qed

interpretation link: serial_codec "\<lambda>(cmd, pwm). frame cmd pwm" rx_run expected rx_idle "\<lambda>(cmd, pwm). pwm_in_range pwm"
  by unfold_locales (auto simp: rx_run_append dest: frame_decodes)

section \<open>Losing and regaining synchronisation\<close>

text \<open>How many bytes other than \<open>0xFF\<close> the receiver can still swallow before it is idle.\<close>

definition rx_pending :: "rx \<Rightarrow> nat" where
  "rx_pending s = (if rx_state s = 0 then 0 else if rx_state s = 1 then 8 else 7 - rx_index s)"

lemma rx_byte_pending:
  "rx_inv s \<Longrightarrow> c \<noteq> 0xFF \<Longrightarrow> rx_pending (fst (rx_byte s c)) \<le> rx_pending s - 1"
  by (auto simp: rx_inv_def rx_byte_def rx_pending_def Let_def)

lemma rx_run_pending:
  "rx_inv s \<Longrightarrow> 0xFF \<notin> set cs \<Longrightarrow> rx_pending (fst (rx_run s cs)) \<le> rx_pending s - length cs"
proof (induction cs arbitrary: s)
  case Nil
  then show ?case by simp
next
  case (Cons c cs)
  let ?s = "fst (rx_byte s c)"
  have "rx_pending (fst (rx_run ?s cs)) \<le> rx_pending ?s - length cs"
    using Cons rx_byte_inv by simp
  also have "\<dots> \<le> rx_pending s - 1 - length cs"
    using rx_byte_pending [of s c] Cons.prems by auto
  finally show ?case by (simp add: split_def Let_def)
qed

lemma rx_pending_0: "rx_inv s \<Longrightarrow> rx_pending s = 0 \<longleftrightarrow> rx_idle s"
  by (auto simp: rx_inv_def rx_pending_def rx_idle_def split: if_splits)

lemma rx_pending_le: "rx_pending s \<le> 8"
  by (auto simp: rx_pending_def)

lemma hi_byte_small: "0 \<le> x \<Longrightarrow> x < 256 \<Longrightarrow> hi_byte x = 0"
  by (simp add: hi_byte_def drop_bit_eq_div)

lemma byte_neq_FF: "uint (b :: byte) < 255 \<Longrightarrow> b \<noteq> 0xFF"
  by auto

lemma frame_tail_ignored:
  assumes "rx_state s = 0" and "pwm_in_range pwm"
  shows "snd (rx_run s (drop 2 (frame cmd pwm))) = []"
proof -
  have a: "hi_byte (pwm_steering pwm) = 0" "hi_byte (drive_int cmd) = 0"
    using assms(2) by (cases cmd; simp add: hi_byte_small pwm_in_range_def pwm_consts)+
  have "pwm_speed pwm div 256 \<le> 25" "0 \<le> pwm_speed pwm div 256"
    using assms(2) by (auto simp: pwm_in_range_def pwm_consts)
  then have b: "lo_byte (pwm_steering pwm) \<noteq> 0xFF" "hi_byte (pwm_speed pwm) \<noteq> 0xFF"
    using assms(2) by (auto intro!: byte_neq_FF simp: uint_lo_byte uint_hi_byte pwm_in_range_def pwm_consts)
  have c: "lo_byte (drive_int cmd) \<noteq> 0xFF"
    by (cases cmd) (simp_all add: lo_byte_def)
  show ?thesis
    using assms(1) a b c by (cases "lo_byte (pwm_speed pwm) = 0xFF")
      (simp_all add: frame_bytes Let_def rx_byte_def)
qed

section \<open>Properties of the link\<close>

text \<open>
  C12.  The serial link is faithful: a stream of frames with PWM values in the ranges the
  controller clamps to, sent to an idle receiver, makes the firmware perform exactly the
  commanded actuations, in order; its own range limits never alter a value.
\<close>

theorem frame_roundtrip:
  assumes "rx_idle s" and "list_all (\<lambda>(cmd, pwm). pwm_in_range pwm) ms"
  shows "\<exists>s'. rx_idle s' \<and>
    rx_run s (concat (map (\<lambda>(cmd, pwm). frame cmd pwm) ms)) =
      (s', map (\<lambda>(cmd, pwm). \<lparr>ac_servo_duty = servoWrite (pwm_steering pwm),
                              ac_esc_duty = pwm_speed pwm,
                              ac_yled = (cmd = kManual), ac_gled = (cmd \<noteq> kStop)\<rparr>) ms)"
  using link.stream [OF assms] by (simp add: expected_def [abs_def])

theorem frame_roundtrip_witness:
  "\<exists>s'. rx_idle s' \<and> rx_run rx_init (frame kAuto \<lparr>pwm_speed = 5100, pwm_steering = 100\<rparr>) =
     (s', [\<lparr>ac_servo_duty = servoWrite 100, ac_esc_duty = 5100, ac_yled = False, ac_gled = True\<rparr>])"
  using frame_roundtrip [OF rx_idle_init, of "[(kAuto, \<lparr>pwm_speed = 5100, pwm_steering = 100\<rparr>)]"]
  by (simp add: pwm_in_range_def pwm_consts)

text \<open>
  C32.  Whatever bytes arrive, the receiver never writes past its seven-byte payload buffer
  and its state stays one of the three it knows; and any eight consecutive bytes other than
  the header byte \<open>0xFF\<close> bring it back to waiting for a header.
\<close>

theorem rx_safe_and_resyncs:
  "rx_inv (fst (rx_run rx_init cs)) \<and>
   (length ds \<ge> 8 \<and> 0xFF \<notin> set ds \<longrightarrow> rx_idle (fst (rx_run rx_init (cs @ ds))))"
proof (intro conjI impI)
  let ?s = "fst (rx_run rx_init cs)"
  show inv: "rx_inv ?s"
    by (rule rx_run_inv [OF rx_inv_init])
  assume ds: "length ds \<ge> 8 \<and> 0xFF \<notin> set ds"
  then have "rx_pending (fst (rx_run ?s ds)) = 0"
    using rx_run_pending [OF inv, of ds] rx_pending_le [of ?s] by linarith
  then show "rx_idle (fst (rx_run rx_init (cs @ ds)))"
    using rx_pending_0 [OF rx_run_inv [OF inv]] by (simp add: rx_run_append split_def Let_def)
qed

theorem rx_safe_and_resyncs_witness:
  "rx_idle (fst (rx_run rx_init ([0xFF, 0xFE, 1, 2] @ replicate 8 0)))"
  using rx_safe_and_resyncs [of "[0xFF, 0xFE, 1, 2]" "replicate 8 0"] by simp

text \<open>
  A single stray header byte in front of a valid frame makes the receiver lose that
  frame: after \<open>0xFF 0xFF\<close> it falls back to waiting for \<open>0xFF\<close> instead of for \<open>0xFE\<close>.
\<close>

theorem stray_header_loses_frame:
  assumes "rx_idle s" and "pwm_in_range pwm"
  shows "snd (rx_run s (0xFF # frame cmd pwm)) = []"
proof -
  have "0xFF # frame cmd pwm = [0xFF, 0xFF, 0xFE] @ drop 2 (frame cmd pwm)"
    by (simp add: frame_bytes Let_def)
  moreover have "rx_run s [0xFF, 0xFF, 0xFE] = (s\<lparr>rx_state := 0\<rparr>, [])"
    using assms(1) by (simp add: rx_idle_def rx_byte_def)
  moreover have "snd (rx_run (s\<lparr>rx_state := 0\<rparr>) (drop 2 (frame cmd pwm))) = []"
    using assms(2) by (simp add: frame_tail_ignored)
  ultimately show ?thesis
    by (simp only: rx_run_append) (simp add: split_def Let_def)
qed

theorem stray_header_loses_frame_witness:
  "snd (rx_run rx_init (0xFF # frame kManual \<lparr>pwm_speed = 5100, pwm_steering = 100\<rparr>)) = []"
  by (rule stray_header_loses_frame [OF rx_idle_init]) (simp add: pwm_in_range_def pwm_consts)

end
