(* ===== verification/Spline.thy ===== *)
theory Spline
  imports Messages
begin

text \<open>
  Natural cubic splines (\<open>cubic_spline_path.cpp\<close>, classes \<open>CubicSpline1D\<close> and
  \<open>CubicSpline2D\<close>): a curve through given points, parametrised by the length of the polygon
  through them.  The matrix inverse of Eigen is an argument; what is relied on is that the
  inverse of a matrix without kernel is one.
\<close>

section \<open>Eigen\<close>

type_synonym matrix = "nat \<Rightarrow> nat \<Rightarrow> real"

record EigenOps =
  eg_inverse :: "nat \<Rightarrow> matrix \<Rightarrow> matrix"
  eg_rotate :: "quat \<Rightarrow> vec3 \<Rightarrow> vec3"

definition mat_vec :: "nat \<Rightarrow> matrix \<Rightarrow> (nat \<Rightarrow> real) \<Rightarrow> nat \<Rightarrow> real" where
  "mat_vec n M v i = (\<Sum>j<n. M i j * v j)"

definition no_kernel :: "nat \<Rightarrow> matrix \<Rightarrow> bool" where
  "no_kernel n M \<longleftrightarrow> (\<forall>v. (\<forall>i<n. mat_vec n M v i = 0) \<longrightarrow> (\<forall>i<n. v i = 0))"

definition is_right_inverse :: "nat \<Rightarrow> matrix \<Rightarrow> matrix \<Rightarrow> bool" where
  "is_right_inverse n M N \<longleftrightarrow> (\<forall>i<n. \<forall>k<n. (\<Sum>j<n. M i j * N j k) = (if i = k then 1 else 0))"

text \<open>What the library documents of \<open>inverse()\<close>, for one matrix.\<close>

definition eigen_inverts :: "EigenOps \<Rightarrow> nat \<Rightarrow> matrix \<Rightarrow> bool" where
  "eigen_inverts E n M \<longleftrightarrow> (no_kernel n M \<longrightarrow> is_right_inverse n M (eg_inverse E n M))"

lemma mat_vec_cong: "(\<And>i. i < n \<Longrightarrow> v i = w i) \<Longrightarrow> mat_vec n M v i = mat_vec n M w i"
  by (simp add: mat_vec_def)

lemma right_inverse_solves:
  assumes "is_right_inverse n M N" and "i < n"
  shows "mat_vec n M (mat_vec n N b) i = b i"
proof -
  have "mat_vec n M (mat_vec n N b) i = (\<Sum>j<n. \<Sum>k<n. M i j * N j k * b k)"
    by (simp add: mat_vec_def sum_distrib_left mult.assoc)
  also have "\<dots> = (\<Sum>k<n. (\<Sum>j<n. M i j * N j k) * b k)"
    by (subst sum.swap) (simp add: sum_distrib_right)
  also have "\<dots> = (\<Sum>k<n. (if i = k then 1 else 0) * b k)"
    using assms unfolding is_right_inverse_def by (intro sum.cong) auto
  also have "\<dots> = (\<Sum>k<n. if k = i then b k else 0)"
    by (intro sum.cong) auto
  also have "\<dots> = b i"
    using assms(2) by simp
  finally show ?thesis .
qed

lemma solve_eq:
  assumes "eigen_inverts E n M" and "no_kernel n M" and "i < n"
  shows "mat_vec n M (mat_vec n (eg_inverse E n M) b) i = b i"
  using assms right_inverse_solves unfolding eigen_inverts_def by blast

section \<open>One dimension\<close>

record CubicSpline1D =
  sp_x :: "real list"
  sp_a :: "real list"
  sp_b :: "real list"
  sp_c :: "real list"
  sp_d :: "real list"

definition diff_x :: "real list \<Rightarrow> real list" where
  "diff_x xs = map (\<lambda>i. xs ! i - xs ! (i - 1)) [1..<length xs]"

text \<open>\<open>h\<close> are the differences of the abscissas, \<open>n\<close> the number of points.\<close>

definition spline_A :: "nat \<Rightarrow> real list \<Rightarrow> matrix" where
  "spline_A n h i j =
     (if i = n - 1 then (if j = n - 1 then 1 else 0)
      else if i = 0 then (if j = 0 then 1 else 0)
      else if j = i - 1 then h ! (i - 1)
      else if j = i + 1 then h ! i
      else if j = i then 2 * (h ! (i - 1) + h ! i)
      else 0)"

definition spline_B :: "nat \<Rightarrow> real list \<Rightarrow> real list \<Rightarrow> nat \<Rightarrow> real" where
  "spline_B n h a i =
     (if 0 < i \<and> i < n - 1
      then 3 * (a ! (i + 1) - a ! i) / h ! i - 3 * (a ! i - a ! (i - 1)) / h ! (i - 1)
      else 0)"

text \<open>
  The constructor.  Without points the matrix access fails; more ordinates than abscissas
  overrun the copy; missing ordinates stay 0.
\<close>

definition CubicSpline1D_ctor :: "EigenOps \<Rightarrow> real list \<Rightarrow> real list \<Rightarrow> exn + CubicSpline1D" where
  "CubicSpline1D_ctor E xs ys =
     (let n = length xs; h = diff_x xs; a = ys @ replicate (n - length ys) 0;
          c = mat_vec n (eg_inverse E n (spline_A n h)) (spline_B n h a)
      in if n = 0 \<or> n < length ys then Inl Bad_index
         else Inr \<lparr>sp_x = xs, sp_a = a,
                   sp_b = map (\<lambda>i. 1 / h ! i * (a ! (i + 1) - a ! i) - h ! i / 3 * (2 * c i + c (i + 1))) [0..<n - 1],
                   sp_c = map c [0..<n],
                   sp_d = map (\<lambda>i. (c (i + 1) - c i) / (3 * h ! i)) [0..<n - 1]\<rparr>)"

definition spline_coeffs :: "CubicSpline1D \<Rightarrow> int \<Rightarrow> exn + real \<times> real \<times> real \<times> real \<times> real" where
  "spline_coeffs sp i =
     sbind (vec_at (sp_x sp) i) (\<lambda>x. sbind (vec_at (sp_a sp) i) (\<lambda>a. sbind (vec_at (sp_b sp) i) (\<lambda>b.
     sbind (vec_at (sp_c sp) i) (\<lambda>c. sbind (vec_at (sp_d sp) i) (\<lambda>d. Inr (x, a, b, c, d))))))"

definition sp_CalculatePosition :: "CubicSpline1D \<Rightarrow> real \<Rightarrow> int \<Rightarrow> exn + real" where
  "sp_CalculatePosition sp x i =
     sbind (spline_coeffs sp i) (\<lambda>(xi, a, b, c, d).
       let dx = x - xi in Inr (a + b * dx + c * dx * dx + d * dx * dx * dx))"

definition sp_CalculateFirstDerivative :: "CubicSpline1D \<Rightarrow> real \<Rightarrow> int \<Rightarrow> exn + real" where
  "sp_CalculateFirstDerivative sp x i =
     sbind (vec_at (sp_x sp) i) (\<lambda>xi. sbind (vec_at (sp_b sp) i) (\<lambda>b. sbind (vec_at (sp_c sp) i) (\<lambda>c.
     sbind (vec_at (sp_d sp) i) (\<lambda>d.
       let dx = x - xi in Inr (b + 2 * c * dx + 3 * d * dx * dx)))))"

definition sp_CalculateSecondDerivative :: "CubicSpline1D \<Rightarrow> real \<Rightarrow> int \<Rightarrow> exn + real" where
  "sp_CalculateSecondDerivative sp x i =
     sbind (vec_at (sp_x sp) i) (\<lambda>xi. sbind (vec_at (sp_c sp) i) (\<lambda>c. sbind (vec_at (sp_d sp) i) (\<lambda>d.
       let dx = x - xi in Inr (2 * c + 6 * d * dx))))"

section \<open>Two dimensions\<close>

type_synonym Point = "real \<times> real"

record CubicSpline2D =
  delta_distance :: "real list"
  distance :: "real list"
  cubic_spline_x :: CubicSpline1D
  cubic_spline_y :: CubicSpline1D

definition seg_len :: "Point \<Rightarrow> Point \<Rightarrow> real" where
  "seg_len p q = sqrt ((fst q - fst p) * (fst q - fst p) + (snd q - snd p) * (snd q - snd p))"

text \<open>The running sums: the distances from the start \<open>acc\<close> on.\<close>

fun distances :: "real \<Rightarrow> Point list \<Rightarrow> real list" where
  "distances acc (p # q # ps) = acc # distances (acc + seg_len p q) (q # ps)"
| "distances acc _ = [acc]"

fun seg_lens :: "Point list \<Rightarrow> real list" where
  "seg_lens (p # q # ps) = seg_len p q # seg_lens (q # ps)"
| "seg_lens _ = []"

definition CubicSpline2D_ctor :: "EigenOps \<Rightarrow> Point list \<Rightarrow> exn + CubicSpline2D" where
  "CubicSpline2D_ctor E path =
     sbind (CubicSpline1D_ctor E (distances 0 path) (map fst path)) (\<lambda>spx.
     sbind (CubicSpline1D_ctor E (distances 0 path) (map snd path)) (\<lambda>spy.
       Inr \<lparr>delta_distance = seg_lens path, distance = distances 0 path,
            cubic_spline_x = spx, cubic_spline_y = spy\<rparr>))"

definition GetDistance :: "CubicSpline2D \<Rightarrow> int \<Rightarrow> exn + real" where
  "GetDistance sp i = vec_at (distance sp) i"

definition GetDeltaDistance :: "CubicSpline2D \<Rightarrow> int \<Rightarrow> exn + real" where
  "GetDeltaDistance sp i = vec_at (delta_distance sp) i"

definition CalculatePosition :: "CubicSpline2D \<Rightarrow> real \<Rightarrow> int \<Rightarrow> exn + Point" where
  "CalculatePosition sp s i =
     sbind (sp_CalculatePosition (cubic_spline_x sp) s i) (\<lambda>x.
     sbind (sp_CalculatePosition (cubic_spline_y sp) s i) (\<lambda>y. Inr (x, y)))"

definition CalculateHeading :: "CubicSpline2D \<Rightarrow> real \<Rightarrow> int \<Rightarrow> exn + real" where
  "CalculateHeading sp s i =
     sbind (sp_CalculateFirstDerivative (cubic_spline_y sp) s i) (\<lambda>dy.
     sbind (sp_CalculateFirstDerivative (cubic_spline_x sp) s i) (\<lambda>dx. Inr (atan2 dy dx)))"

definition CalculateCurvature :: "CubicSpline2D \<Rightarrow> real \<Rightarrow> int \<Rightarrow> exn + real" where
  "CalculateCurvature sp s i =
     sbind (sp_CalculateFirstDerivative (cubic_spline_x sp) s i) (\<lambda>dx.
     sbind (sp_CalculateSecondDerivative (cubic_spline_x sp) s i) (\<lambda>ddx.
     sbind (sp_CalculateFirstDerivative (cubic_spline_y sp) s i) (\<lambda>dy.
     sbind (sp_CalculateSecondDerivative (cubic_spline_y sp) s i) (\<lambda>ddy.
       Inr ((ddy * dx - ddx * dy) / ((dx * dx + dy * dy) powr 1.5))))))"

section \<open>The linear system\<close>

text \<open>
  The system is strictly diagonally dominant when the abscissas increase, so it has no
  kernel: at an index where a solution of the homogeneous system is greatest, its row would
  not vanish.
\<close>

lemma spline_row:
  assumes "0 < i" and "i < n - 1"
  shows "mat_vec n (spline_A n h) v i = h ! (i - 1) * v (i - 1) + 2 * (h ! (i - 1) + h ! i) * v i + h ! i * v (i + 1)"
proof -
  have "mat_vec n (spline_A n h) v i = (\<Sum>j \<in> {i - 1, i, i + 1}. spline_A n h i j * v j)"
    unfolding mat_vec_def using assms by (intro sum.mono_neutral_right) (auto simp: spline_A_def)
  moreover have "i - 1 \<noteq> i" "i - 1 \<noteq> i + 1" "i \<noteq> i + 1" "i \<noteq> n - 1" "i \<noteq> 0" using assms by auto
  ultimately show ?thesis by (simp add: spline_A_def)
qed

lemma spline_row_end:
  assumes "0 < n" and "i = 0 \<or> i = n - 1"
  shows "mat_vec n (spline_A n h) v i = v i"
proof -
  have "i < n" using assms by auto
  then have "mat_vec n (spline_A n h) v i = (\<Sum>j \<in> {i}. spline_A n h i j * v j)"
    unfolding mat_vec_def using assms by (intro sum.mono_neutral_right) (auto simp: spline_A_def)
  then show ?thesis using assms by (auto simp: spline_A_def)
qed

lemma dominant_row:
  fixes p q l r m :: real
  assumes "0 < p" and "0 < q" and "p * l + 2 * (p + q) * m + q * r = 0"
    and "\<bar>l\<bar> \<le> \<bar>m\<bar>" and "\<bar>r\<bar> \<le> \<bar>m\<bar>"
  shows "m = 0"
proof -
  have "2 * (p + q) * m = - (p * l + q * r)" using assms(3) by linarith
  then have "2 * (p + q) * \<bar>m\<bar> = \<bar>p * l + q * r\<bar>"
    using assms(1,2) by (metis abs_minus_cancel abs_mult abs_of_pos add_pos_pos mult_pos_pos zero_less_numeral)
  also have "\<dots> \<le> p * \<bar>l\<bar> + q * \<bar>r\<bar>"
    using abs_triangle_ineq [of "p * l" "q * r"] assms(1,2) by (simp add: abs_mult)
  also have "\<dots> \<le> p * \<bar>m\<bar> + q * \<bar>m\<bar>"
    using assms by (intro add_mono mult_left_mono) simp_all
  finally have "(p + q) * \<bar>m\<bar> \<le> 0" by (simp add: algebra_simps)
  moreover have "0 < p + q" using assms by simp
  ultimately show ?thesis by (simp add: mult_le_0_iff)
qed

lemma spline_no_kernel:
  assumes "0 < n" and "\<And>i. i < n - 1 \<Longrightarrow> 0 < h ! i"
  shows "no_kernel n (spline_A n h)"
  unfolding no_kernel_def
proof (intro allI impI)
  fix v :: "nat \<Rightarrow> real" and k
  assume z: "\<forall>i<n. mat_vec n (spline_A n h) v i = 0" and k: "k < n"
  have "Max ((\<lambda>i. \<bar>v i\<bar>) ` {..<n}) \<in> (\<lambda>i. \<bar>v i\<bar>) ` {..<n}"
    using assms(1) by (intro Max_in) auto
  then obtain m where "m < n" and "\<bar>v m\<bar> = Max ((\<lambda>i. \<bar>v i\<bar>) ` {..<n})" by auto
  then have m: "m < n" "\<And>i. i < n \<Longrightarrow> \<bar>v i\<bar> \<le> \<bar>v m\<bar>" by auto
  have "v m = 0"
  proof (cases "m = 0 \<or> m = n - 1")
    case True
    then show ?thesis using z m(1) spline_row_end [OF assms(1), of m h v] by simp
  next
    case False
    then have b: "0 < m" "m < n - 1" using m(1) by auto
    show ?thesis
    proof (rule dominant_row)
      show "0 < h ! (m - 1)" "0 < h ! m" using assms(2) b by simp_all
      show "h ! (m - 1) * v (m - 1) + 2 * (h ! (m - 1) + h ! m) * v m + h ! m * v (m + 1) = 0"
        using z m(1) spline_row [OF b, of h v] by simp
      show "\<bar>v (m - 1)\<bar> \<le> \<bar>v m\<bar>" "\<bar>v (m + 1)\<bar> \<le> \<bar>v m\<bar>" using m(2) b by simp_all
    qed
  qed
  then show "v k = 0" using m(2) [OF k] by simp
qed

section \<open>Smoothness\<close>

definition increasing :: "real list \<Rightarrow> bool" where
  "increasing xs \<longleftrightarrow> (\<forall>i. i + 1 < length xs \<longrightarrow> xs ! i < xs ! (i + 1))"

lemma diff_x_nth: "i + 1 < length xs \<Longrightarrow> diff_x xs ! i = xs ! (i + 1) - xs ! i"
  using nth_upt [of 1 i "length xs"] by (simp add: diff_x_def)

text \<open>The spline that the constructor builds, with its coefficients named.\<close>

lemma CubicSpline1D_fields:
  assumes "CubicSpline1D_ctor E xs ys = Inr sp" and "length ys = length xs" and "i + 1 < length xs"
  defines "c \<equiv> mat_vec (length xs) (eg_inverse E (length xs) (spline_A (length xs) (diff_x xs))) (spline_B (length xs) (diff_x xs) ys)"
  shows "vec_at (sp_x sp) (int i) = Inr (xs ! i)" and "vec_at (sp_a sp) (int i) = Inr (ys ! i)"
    and "vec_at (sp_b sp) (int i) = Inr (1 / diff_x xs ! i * (ys ! (i + 1) - ys ! i) - diff_x xs ! i / 3 * (2 * c i + c (i + 1)))"
    and "vec_at (sp_c sp) (int i) = Inr (c i)"
    and "vec_at (sp_d sp) (int i) = Inr ((c (i + 1) - c i) / (3 * diff_x xs ! i))"
  using assms(1-3) unfolding c_def by (auto simp: CubicSpline1D_ctor_def Let_def split: if_splits)

lemma spline_system:
  assumes "increasing xs" and "length ys = length xs" and "xs \<noteq> []"
    and "eigen_inverts E (length xs) (spline_A (length xs) (diff_x xs))"
  defines "n \<equiv> length xs" and "h \<equiv> diff_x xs"
    and "c \<equiv> mat_vec (length xs) (eg_inverse E (length xs) (spline_A (length xs) (diff_x xs))) (spline_B (length xs) (diff_x xs) ys)"
  shows "c 0 = 0" and "c (n - 1) = 0"
    and "i + 2 < n \<Longrightarrow> h ! i * c i + 2 * (h ! i + h ! (i + 1)) * c (i + 1) + h ! (i + 1) * c (i + 2)
           = 3 * (ys ! (i + 2) - ys ! (i + 1)) / h ! (i + 1) - 3 * (ys ! (i + 1) - ys ! i) / h ! i"
proof -
  have n: "0 < n" using assms(3) by (simp add: n_def)
  have h: "0 < h ! i" if "i < n - 1" for i
    using assms(1) that by (simp add: increasing_def h_def n_def diff_x_nth)
  have sol: "mat_vec n (spline_A n h) c i = spline_B n h ys i" if "i < n" for i
    unfolding c_def n_def h_def
    using solve_eq [OF assms(4) _] spline_no_kernel [OF n h] that by (simp add: n_def h_def)
  show "c 0 = 0" and "c (n - 1) = 0"
    using sol [of 0] sol [of "n - 1"] spline_row_end [OF n, of 0 h c] spline_row_end [OF n, of "n - 1" h c] n
    by (simp_all add: spline_B_def)
  show "h ! i * c i + 2 * (h ! i + h ! (i + 1)) * c (i + 1) + h ! (i + 1) * c (i + 2)
      = 3 * (ys ! (i + 2) - ys ! (i + 1)) / h ! (i + 1) - 3 * (ys ! (i + 1) - ys ! i) / h ! i" if "i + 2 < n"
    using sol [of "i + 1"] spline_row [of "i + 1" n h c] that by (simp add: spline_B_def)
qed

lemma segment_end:
  fixes h :: real
  assumes "h \<noteq> 0"
  shows "a + (1 / h * (a' - a) - h / 3 * (2 * c + c')) * h + c * h * h + (c' - c) / (3 * h) * h * h * h = a'"
    and "(1 / h * (a' - a) - h / 3 * (2 * c + c')) + 2 * c * h + 3 * ((c' - c) / (3 * h)) * h * h
         = 1 / h * (a' - a) + h / 3 * (c + 2 * c')"
    and "2 * c + 6 * ((c' - c) / (3 * h)) * h = 2 * c'"
  using assms by (simp_all add: field_simps)

lemma slope_balance:
  fixes p q :: real
  assumes "p * c0 + 2 * (p + q) * c1 + q * c2 = 3 * u / q - 3 * w / p"
  shows "1 / p * w + p / 3 * (c0 + 2 * c1) = 1 / q * u - q / 3 * (2 * c1 + c2)"
proof -
  have "3 * u / q = 3 * (1 / q * u)" "3 * w / p = 3 * (1 / p * w)" by simp_all
  with assms have "p * c0 + 2 * (p + q) * c1 + q * c2 = 3 * (1 / q * u) - 3 * (1 / p * w)" by (simp only:)
  then show ?thesis by argo
qed

text \<open>
  C37.  The curve is smooth: with increasing abscissas, each segment runs exactly through the two
  points it joins, neighbouring segments have equal first and second derivatives where they
  meet, and the second derivative vanishes at both ends.
\<close>

theorem spline_is_smooth:
  assumes "increasing xs" and "length ys = length xs" and "2 \<le> length xs"
    and "eigen_inverts E (length xs) (spline_A (length xs) (diff_x xs))"
    and "CubicSpline1D_ctor E xs ys = Inr sp"
  shows "(\<forall>i. i + 1 < length xs \<longrightarrow> sp_CalculatePosition sp (xs ! i) (int i) = Inr (ys ! i)
            \<and> sp_CalculatePosition sp (xs ! (i + 1)) (int i) = Inr (ys ! (i + 1)))
    \<and> (\<forall>i. i + 2 < length xs \<longrightarrow>
          sp_CalculateFirstDerivative sp (xs ! (i + 1)) (int i) = sp_CalculateFirstDerivative sp (xs ! (i + 1)) (int (i + 1))
          \<and> sp_CalculateSecondDerivative sp (xs ! (i + 1)) (int i) = sp_CalculateSecondDerivative sp (xs ! (i + 1)) (int (i + 1)))
    \<and> sp_CalculateSecondDerivative sp (xs ! 0) 0 = Inr 0
    \<and> sp_CalculateSecondDerivative sp (xs ! (length xs - 1)) (int (length xs - 2)) = Inr 0"
proof -
  let ?n = "length xs" and ?h = "diff_x xs"
  define c where "c = mat_vec ?n (eg_inverse E ?n (spline_A ?n ?h)) (spline_B ?n ?h ys)"
  note f = CubicSpline1D_fields [OF assms(5,2), folded c_def]
  have ne: "xs \<noteq> []" using assms(3) by auto
  note sys = spline_system [OF assms(1,2) ne assms(4), folded c_def]
  have h: "?h ! i = xs ! (i + 1) - xs ! i" "?h ! i \<noteq> 0" if "i + 1 < ?n" for i
    using assms(1) that by (auto simp: increasing_def diff_x_nth)
  have pos: "sp_CalculatePosition sp (xs ! i) (int i) = Inr (ys ! i) \<and>
      sp_CalculatePosition sp (xs ! (i + 1)) (int i) = Inr (ys ! (i + 1))" if i: "i + 1 < ?n" for i
    using f [OF i] segment_end(1) [OF h(2) [OF i], of "ys ! i" "ys ! (i + 1)" "c i" "c (i + 1)"] h(1) [OF i]
    by (simp add: sp_CalculatePosition_def spline_coeffs_def Let_def)
  have first: "sp_CalculateFirstDerivative sp (xs ! (i + 1)) (int i) =
      Inr (1 / ?h ! i * (ys ! (i + 1) - ys ! i) + ?h ! i / 3 * (c i + 2 * c (i + 1)))" if i: "i + 1 < ?n" for i
    using f [OF i] segment_end(2) [OF h(2) [OF i], of "ys ! (i + 1)" "ys ! i" "c i" "c (i + 1)"] h(1) [OF i]
    by (simp add: sp_CalculateFirstDerivative_def Let_def)
  have second: "sp_CalculateSecondDerivative sp (xs ! (i + 1)) (int i) = Inr (2 * c (i + 1))" if i: "i + 1 < ?n" for i
    using f [OF i] segment_end(3) [OF h(2) [OF i], of "c i" "c (i + 1)"] h(1) [OF i]
    by (simp add: sp_CalculateSecondDerivative_def Let_def)
  have start: "sp_CalculateFirstDerivative sp (xs ! i) (int i) =
        Inr (1 / ?h ! i * (ys ! (i + 1) - ys ! i) - ?h ! i / 3 * (2 * c i + c (i + 1)))"
      "sp_CalculateSecondDerivative sp (xs ! i) (int i) = Inr (2 * c i)" if i: "i + 1 < ?n" for i
    using f [OF i] by (simp_all add: sp_CalculateFirstDerivative_def sp_CalculateSecondDerivative_def Let_def)
  have slope: "1 / ?h ! i * (ys ! (i + 1) - ys ! i) + ?h ! i / 3 * (c i + 2 * c (i + 1)) =
      1 / ?h ! (i + 1) * (ys ! (i + 2) - ys ! (i + 1)) - ?h ! (i + 1) / 3 * (2 * c (i + 1) + c (i + 2))" if "i + 2 < ?n" for i
    using slope_balance [OF sys(3) [OF that]] .
  have end0: "sp_CalculateSecondDerivative sp (xs ! 0) 0 = Inr 0"
    using start(2) [of 0] sys(1) assms(3) by simp
  have end1: "sp_CalculateSecondDerivative sp (xs ! (?n - 1)) (int (?n - 2)) = Inr 0"
  proof -
    have "?n - 2 + 1 = ?n - 1" using assms(3) by simp
    then show ?thesis using second [of "?n - 2"] sys(2) assms(3) by simp
  qed
  have joint: "sp_CalculateFirstDerivative sp (xs ! (i + 1)) (int i) = sp_CalculateFirstDerivative sp (xs ! (i + 1)) (int (i + 1))
      \<and> sp_CalculateSecondDerivative sp (xs ! (i + 1)) (int i) = sp_CalculateSecondDerivative sp (xs ! (i + 1)) (int (i + 1))"
    if i: "i + 2 < ?n" for i
    using first [of i] start(1) [of "i + 1"] second [of i] start(2) [of "i + 1"] slope [OF i] i by simp
  show ?thesis using pos joint end0 end1 by blast
qed

text \<open>Three points in a row; the inverse of their system written out.\<close>

definition test_inverse :: "nat \<Rightarrow> matrix \<Rightarrow> matrix" where
  "test_inverse n M i j =
     (if i = 1 then (if j = 1 then 1 / 4 else if j = 0 \<or> j = 2 then - (1 / 4) else 0) else if i = j then 1 else 0)"

definition test_eigen :: EigenOps where
  "test_eigen = \<lparr>eg_inverse = test_inverse, eg_rotate = (\<lambda>q v. v)\<rparr>"

lemma diff_x_test: "diff_x [0, 1, 2] = [1, 1 :: real]"
  by (simp add: diff_x_def upt_rec numeral_2_eq_2)

lemma sum_less_3: "(\<Sum>i<(3 :: nat). f i) = f 0 + f 1 + (f 2 :: real)"
  by (simp add: eval_nat_numeral)

lemma all_less_3: "(\<forall>i<3. P i) \<longleftrightarrow> P 0 \<and> P 1 \<and> P (2 :: nat)"
  by (auto simp: less_Suc_eq eval_nat_numeral)

lemma test_inverts: "eigen_inverts test_eigen 3 (spline_A 3 [1, 1])"
proof -
  have "is_right_inverse 3 (spline_A 3 [1, 1]) (test_inverse 3 (spline_A 3 [1, 1]))"
    unfolding is_right_inverse_def all_less_3 sum_less_3 by (simp add: spline_A_def test_inverse_def)
  then show ?thesis by (simp add: eigen_inverts_def test_eigen_def)
qed

theorem spline_is_smooth_witness:
  "\<exists>sp. CubicSpline1D_ctor test_eigen [0, 1, 2] [0, 1, 0] = Inr sp
    \<and> sp_CalculatePosition sp 1 0 = Inr 1
    \<and> sp_CalculateFirstDerivative sp 1 0 = sp_CalculateFirstDerivative sp 1 1"
proof -
  obtain sp where sp: "CubicSpline1D_ctor test_eigen [0, 1, 2] [0, 1, 0] = Inr sp"
    by (simp add: CubicSpline1D_ctor_def Let_def)
  have inc: "increasing [0, 1, 2]"
    by (auto simp: increasing_def less_Suc_eq)
  have inv: "eigen_inverts test_eigen (length [0, 1, 2 :: real]) (spline_A (length [0, 1, 2 :: real]) (diff_x [0, 1, 2]))"
    using test_inverts unfolding diff_x_test by (simp add: numeral_3_eq_3)
  have "length [0, 1, 0 :: real] = length [0, 1, 2 :: real]" "2 \<le> length [0, 1, 2 :: real]" by simp_all
  note t = spline_is_smooth [OF inc this inv sp]
  have "sp_CalculatePosition sp 1 0 = Inr 1" using t [THEN conjunct1, THEN spec, of 0] by simp
  moreover have "sp_CalculateFirstDerivative sp 1 0 = sp_CalculateFirstDerivative sp 1 1"
    using t [THEN conjunct2, THEN conjunct1, THEN spec, of 0] by simp
  ultimately show ?thesis using sp by blast
qed

end
