(* ===== verification/SplinePath.thy ===== *)
theory SplinePath
  imports Spline
begin

text \<open>
  The path object of the planner (\<open>cubic_spline_path.cpp\<close>, class \<open>CubicSplinePath\<close>): finding the
  part of the path next to a position, the reference point there, and the distance that
  remains to its end.  The search walks along the segments in either direction; it is a total
  function here, by a measure that shows it never turns round.
\<close>

section \<open>The path and its search\<close>

record Reference =
  rf_point :: Point
  rf_heading :: real
  rf_curvature :: real
  rf_distance :: real
  rf_remain :: real

record CubicSplinePath =
  cp_path :: "Point list"
  cp_spline :: CubicSpline2D
  total_distance :: real
  idx_valid :: bool
  current_path_idx :: int
  path_generated :: bool

text \<open>Without two points \<open>total_distance_\<close> stays uninitialised; it is not read then.\<close>

definition CubicSplinePath_ctor :: "EigenOps \<Rightarrow> Point list \<Rightarrow> exn + CubicSplinePath" where
  "CubicSplinePath_ctor E input_path =
     sbind (CubicSpline2D_ctor E input_path) (\<lambda>sp.
       if length input_path < 2
       then Inr \<lparr>cp_path = input_path, cp_spline = sp, total_distance = 0, idx_valid = False,
                 current_path_idx = 0, path_generated = False\<rparr>
       else sbind (GetDistance sp (int (length input_path) - 1)) (\<lambda>d.
            Inr \<lparr>cp_path = input_path, cp_spline = sp, total_distance = d, idx_valid = False,
                 current_path_idx = 0, path_generated = True\<rparr>))"

definition IsPathGenerated :: "CubicSplinePath \<Rightarrow> bool" where
  "IsPathGenerated cp = path_generated cp"

definition InvalidateCurrentPathIndex :: "CubicSplinePath \<Rightarrow> CubicSplinePath" where
  "InvalidateCurrentPathIndex cp = cp\<lparr>idx_valid := False\<rparr>"

definition minus_pt :: "Point \<Rightarrow> Point \<Rightarrow> Point" where
  "minus_pt p q = (fst p - fst q, snd p - snd q)"

definition squaredNorm :: "Point \<Rightarrow> real" where
  "squaredNorm p = fst p * fst p + snd p * snd p"

definition normalized :: "Point \<Rightarrow> Point" where
  "normalized v = (if squaredNorm v > 0 then (fst v / sqrt (squaredNorm v), snd v / sqrt (squaredNorm v)) else v)"

definition dot :: "Point \<Rightarrow> Point \<Rightarrow> real" where
  "dot p q = fst p * fst q + snd p * snd q"

text \<open>The position along segment \<open>i\<close>: its projection on the direction of the segment.\<close>

definition along :: "CubicSplinePath \<Rightarrow> Point \<Rightarrow> int \<Rightarrow> exn + real" where
  "along cp position i =
     sbind (vec_at (cp_path cp) i) (\<lambda>a. sbind (vec_at (cp_path cp) (i + 1)) (\<lambda>b.
       Inr (dot (minus_pt position a) (normalized (minus_pt b a)))))"

text \<open>The position beyond an end of the path, along the heading there.\<close>

definition along_heading :: "Point \<Rightarrow> Point \<Rightarrow> real \<Rightarrow> real" where
  "along_heading position a heading =
     (let p0 = minus_pt position a in fst p0 * cos heading + snd p0 * sin heading)"

definition beyond :: "CubicSplinePath \<Rightarrow> Point \<Rightarrow> int \<Rightarrow> bool" where
  "beyond cp position i =
     (case along cp position i of Inl e \<Rightarrow> False
      | Inr d \<Rightarrow> (case GetDeltaDistance (cp_spline cp) i of Inl e \<Rightarrow> False | Inr l \<Rightarrow> d > l))"

lemma along_range: "along cp position i = Inr d \<Longrightarrow> 0 \<le> i \<and> i + 1 < int (length (cp_path cp))"
  by (auto simp: along_def vec_at_def sbind_eq_Inr split: if_splits)

lemma beyond_range: "beyond cp position i \<Longrightarrow> 0 \<le> i \<and> i + 1 < int (length (cp_path cp))"
  by (auto simp: beyond_def dest: along_range split: sum.splits)

function FindPathIndexAndDeltaDistance :: "CubicSplinePath \<Rightarrow> Point \<Rightarrow> int \<Rightarrow> exn + int \<times> real" where
  "FindPathIndexAndDeltaDistance cp position i =
     (if i = int (length (cp_path cp)) - 1 then
        sbind (GetDistance (cp_spline cp) i) (\<lambda>s.
        sbind (CalculateHeading (cp_spline cp) s (i - 1)) (\<lambda>heading.
        sbind (vec_at (cp_path cp) i) (\<lambda>a.
          Inr (i, along_heading position a heading))))
      else if i = -1 then
        sbind (CalculateHeading (cp_spline cp) 0 0) (\<lambda>heading.
        sbind (vec_at (cp_path cp) 0) (\<lambda>a.
          Inr (i, along_heading position a heading)))
      else
        sbind (along cp position i) (\<lambda>dot_product.
        sbind (GetDeltaDistance (cp_spline cp) i) (\<lambda>delta.
          if dot_product > delta then FindPathIndexAndDeltaDistance cp position (i + 1)
          else if dot_product < 0 then
            if i > 0 then
              sbind (along cp position (i - 1)) (\<lambda>dot_before.
              sbind (GetDeltaDistance (cp_spline cp) (i - 1)) (\<lambda>delta_before.
                if dot_before > delta_before then Inr (i, 0)
                else FindPathIndexAndDeltaDistance cp position (i - 1)))
            else FindPathIndexAndDeltaDistance cp position (i - 1)
          else Inr (i, dot_product))))"
  by pat_completeness auto

definition walk :: "CubicSplinePath \<Rightarrow> Point \<Rightarrow> int \<Rightarrow> nat" where
  "walk cp position i =
     nat (if beyond cp position i then int (length (cp_path cp)) - i
          else if beyond cp position (i - 1) then 0 else i + 2)"

text \<open>
  Forward, the next segment is either passed too, or its own test ends the walk, because the
  position lies beyond the one just left; backward, the segment entered has been checked.
\<close>

termination FindPathIndexAndDeltaDistance
proof (relation "measure (\<lambda>(cp, position, i). walk cp position i)")
  fix cp position and i :: int and d l
  assume a: "along cp position i = Inr d" and l: "GetDeltaDistance (cp_spline cp) i = Inr l" and "l < d"
  then have "beyond cp position i" by (simp add: beyond_def)
  then show "((cp, position, i + 1), cp, position, i) \<in> measure (\<lambda>(cp, position, i). walk cp position i)"
    using beyond_range by (fastforce simp: walk_def)
next
  fix cp position and i :: int and d l e m
  assume a: "along cp position i = Inr d" and l: "GetDeltaDistance (cp_spline cp) i = Inr l" and "\<not> l < d"
    and b: "along cp position (i - 1) = Inr e" "GetDeltaDistance (cp_spline cp) (i - 1) = Inr m" "\<not> m < e"
  then have "\<not> beyond cp position i" "\<not> beyond cp position (i - 1)" "0 \<le> i"
    using along_range [OF a] by (simp_all add: beyond_def)
  then show "((cp, position, i - 1), cp, position, i) \<in> measure (\<lambda>(cp, position, i). walk cp position i)"
    by (simp add: walk_def)
next
  fix cp position and i :: int and d l
  assume a: "along cp position i = Inr d" and l: "GetDeltaDistance (cp_spline cp) i = Inr l" and "\<not> l < d"
    and "\<not> 0 < i"
  then have "\<not> beyond cp position i" and i: "i = 0"
    using along_range [OF a] by (simp_all add: beyond_def)
  moreover have "\<not> beyond cp position (- 1)" "\<not> beyond cp position (- 2)"
    using beyond_range [of cp position "- 1"] beyond_range [of cp position "- 2"] by auto
  ultimately show "((cp, position, i - 1), cp, position, i) \<in> measure (\<lambda>(cp, position, i). walk cp position i)"
    by (simp add: walk_def)
qed simp

declare FindPathIndexAndDeltaDistance.simps [simp del]

section \<open>Reference points\<close>

text \<open>The scan for the closest point; \<open>None\<close> is the initial \<open>numeric_limits<double>::max()\<close>.\<close>

fun closest_point :: "Point \<Rightarrow> Point list \<Rightarrow> int \<Rightarrow> real option \<Rightarrow> int \<Rightarrow> int" where
  "closest_point position [] k least best = best"
| "closest_point position (p # ps) k least best =
     (let d = squaredNorm (minus_pt position p)
      in if (case least of None \<Rightarrow> True | Some m \<Rightarrow> d < m)
         then closest_point position ps (k + 1) (Some d) k
         else closest_point position ps (k + 1) least best)"

text \<open>The point at a distance from an end of the path, along the heading there.\<close>

definition beside :: "Point \<Rightarrow> real \<Rightarrow> real \<Rightarrow> Point" where
  "beside a d heading = (fst a + d * cos heading, snd a + d * sin heading)"

definition ReferencePoint :: "Point \<Rightarrow> CubicSplinePath \<Rightarrow> exn + CubicSplinePath \<times> Reference" where
  "ReferencePoint position cp0 =
     (let cp = (if \<not> idx_valid cp0
                then cp0\<lparr>current_path_idx := closest_point position (cp_path cp0) 0 None 0, idx_valid := True\<rparr>
                else cp0);
          sp = cp_spline cp; n = int (length (cp_path cp))
      in sbind (FindPathIndexAndDeltaDistance cp position (current_path_idx cp)) (\<lambda>(i, delta).
         if i = n - 1 then
           sbind (GetDistance sp i) (\<lambda>d. sbind (CalculateHeading sp d (i - 1)) (\<lambda>heading.
           sbind (vec_at (cp_path cp) i) (\<lambda>a.
             Inr (cp\<lparr>current_path_idx := i - 1\<rparr>,
                  \<lparr>rf_point = beside a delta heading, rf_heading = heading, rf_curvature = 0,
                   rf_distance = d + delta, rf_remain = total_distance cp - (d + delta)\<rparr>))))
         else if i = -1 then
           sbind (CalculateHeading sp 0 0) (\<lambda>heading. sbind (vec_at (cp_path cp) 0) (\<lambda>a.
             Inr (cp\<lparr>current_path_idx := 0\<rparr>,
                  \<lparr>rf_point = beside a delta heading, rf_heading = heading, rf_curvature = 0,
                   rf_distance = delta, rf_remain = total_distance cp - delta\<rparr>)))
         else
           sbind (GetDistance sp i) (\<lambda>d. let s = d + delta in
           sbind (CalculatePosition sp s i) (\<lambda>pt. sbind (CalculateHeading sp s i) (\<lambda>heading.
           sbind (CalculateCurvature sp s i) (\<lambda>curv.
             Inr (cp\<lparr>current_path_idx := i\<rparr>,
                  \<lparr>rf_point = pt, rf_heading = heading, rf_curvature = curv,
                   rf_distance = s, rf_remain = total_distance cp - s\<rparr>)))))))"

text \<open>The segment that contains a distance; \<open>k\<close> segments from \<open>i\<close> on are left.\<close>

fun find_interval :: "CubicSpline2D \<Rightarrow> real \<Rightarrow> int \<Rightarrow> nat \<Rightarrow> int \<Rightarrow> exn + int" where
  "find_interval sp s i 0 best = Inr best"
| "find_interval sp s i (Suc k) best =
     sbind (GetDistance sp i) (\<lambda>d0.
       sbind (if d0 \<le> s then sbind (GetDistance sp (i + 1)) (\<lambda>d1. Inr (s < d1)) else Inr False) (\<lambda>hit.
         find_interval sp s (i + 1) k (if hit then i else best)))"

definition ReferencePointAt :: "real \<Rightarrow> CubicSplinePath \<Rightarrow> exn + Reference" where
  "ReferencePointAt s cp =
     (let sp = cp_spline cp; n = int (length (cp_path cp))
      in sbind (if s \<ge> total_distance cp then Inr (n - 1)
                else if s \<le> 0 then Inr (-1)
                else find_interval sp s 0 (nat (n - 1)) 0) (\<lambda>i.
         if i = n - 1 then
           sbind (GetDistance sp i) (\<lambda>d. sbind (CalculateHeading sp d (i - 1)) (\<lambda>heading.
           sbind (vec_at (cp_path cp) i) (\<lambda>a.
             Inr \<lparr>rf_point = beside a (s - total_distance cp) heading, rf_heading = heading, rf_curvature = 0,
                  rf_distance = s, rf_remain = total_distance cp - s\<rparr>)))
         else if i = -1 then
           sbind (CalculateHeading sp 0 0) (\<lambda>heading. sbind (vec_at (cp_path cp) 0) (\<lambda>a.
             Inr \<lparr>rf_point = beside a s heading, rf_heading = heading, rf_curvature = 0,
                  rf_distance = s, rf_remain = total_distance cp - s\<rparr>))
         else
           sbind (CalculatePosition sp s i) (\<lambda>pt. sbind (CalculateHeading sp s i) (\<lambda>heading.
           sbind (CalculateCurvature sp s i) (\<lambda>curv.
             Inr \<lparr>rf_point = pt, rf_heading = heading, rf_curvature = curv,
                  rf_distance = s, rf_remain = total_distance cp - s\<rparr>)))))"

definition GetRemainDistance :: "Point \<Rightarrow> CubicSplinePath \<Rightarrow> exn + real" where
  "GetRemainDistance position cp =
     sbind (FindPathIndexAndDeltaDistance cp position (current_path_idx cp)) (\<lambda>(i, delta).
       let j = (if i = int (length (cp_path cp)) - 1 then i - 1 else if i = -1 then 0 else i)
       in sbind (GetDistance (cp_spline cp) j) (\<lambda>d. Inr (total_distance cp - (d + delta))))"

definition GetRemainDistanceAt :: "real \<Rightarrow> CubicSplinePath \<Rightarrow> real" where
  "GetRemainDistanceAt s cp = total_distance cp - s"

section \<open>Well-formed paths\<close>

definition sp1_ok :: "nat \<Rightarrow> CubicSpline1D \<Rightarrow> bool" where
  "sp1_ok n sp \<longleftrightarrow> length (sp_x sp) = n \<and> length (sp_a sp) = n \<and> length (sp_b sp) = n - 1
     \<and> length (sp_c sp) = n \<and> length (sp_d sp) = n - 1"

definition path_ok :: "CubicSplinePath \<Rightarrow> bool" where
  "path_ok cp \<longleftrightarrow> 2 \<le> length (cp_path cp)
     \<and> delta_distance (cp_spline cp) = seg_lens (cp_path cp) \<and> distance (cp_spline cp) = distances 0 (cp_path cp)
     \<and> sp1_ok (length (cp_path cp)) (cubic_spline_x (cp_spline cp))
     \<and> sp1_ok (length (cp_path cp)) (cubic_spline_y (cp_spline cp))
     \<and> total_distance cp = distances 0 (cp_path cp) ! (length (cp_path cp) - 1)
     \<and> 0 \<le> current_path_idx cp \<and> current_path_idx cp < int (length (cp_path cp))
     \<and> path_generated cp"

lemma length_distances [simp]: "length (distances acc ps) = max 1 (length ps)"
  by (induction acc ps rule: distances.induct) auto

lemma length_seg_lens [simp]: "length (seg_lens ps) = length ps - 1"
  by (induction ps rule: seg_lens.induct) auto

lemma sp1_ctor_ok: "CubicSpline1D_ctor E xs ys = Inr sp \<Longrightarrow> sp1_ok (length xs) sp"
  by (auto simp: CubicSpline1D_ctor_def Let_def sp1_ok_def split: if_splits)

lemma ctor_path_ok:
  assumes "2 \<le> length ps"
  obtains cp where "CubicSplinePath_ctor E ps = Inr cp" and "path_ok cp" and "cp_path cp = ps" and "\<not> idx_valid cp"
proof -
  have l: "max 1 (length ps) = length ps" "length ps \<noteq> 0" using assms by auto
  obtain spx where x: "CubicSpline1D_ctor E (distances 0 ps) (map fst ps) = Inr spx"
    using l by (simp add: CubicSpline1D_ctor_def Let_def)
  obtain spy where y: "CubicSpline1D_ctor E (distances 0 ps) (map snd ps) = Inr spy"
    using l by (simp add: CubicSpline1D_ctor_def Let_def)
  let ?sp = "\<lparr>delta_distance = seg_lens ps, distance = distances 0 ps, cubic_spline_x = spx, cubic_spline_y = spy\<rparr>"
  let ?cp = "\<lparr>cp_path = ps, cp_spline = ?sp, total_distance = distances 0 ps ! (length ps - 1), idx_valid = False,
     current_path_idx = 0, path_generated = True\<rparr>"
  have i: "vec_at (distances 0 ps) (int (length ps) - 1) = Inr (distances 0 ps ! (length ps - 1))"
    using assms l by (simp add: nat_diff_distrib' vec_at_def)
  have "CubicSplinePath_ctor E ps = Inr ?cp"
    using assms i by (simp add: CubicSplinePath_ctor_def CubicSpline2D_ctor_def x y GetDistance_def)
  moreover have "path_ok ?cp"
    using assms sp1_ctor_ok [OF x] sp1_ctor_ok [OF y] l by (simp add: path_ok_def)
  ultimately show ?thesis using that by simp
qed

lemma sp1_derivatives:
  assumes "sp1_ok n sp" and "0 \<le> i" and "i < int n - 1"
  shows "\<exists>d. sp_CalculateFirstDerivative sp x i = Inr d" and "\<exists>d. sp_CalculateSecondDerivative sp x i = Inr d"
    and "\<exists>d. sp_CalculatePosition sp x i = Inr d"
proof -
  have "i < int (length (sp_x sp))" "i < int (length (sp_a sp))" "i < int (length (sp_b sp))"
    "i < int (length (sp_c sp))" "i < int (length (sp_d sp))"
    using assms by (auto simp: sp1_ok_def)
  then show "\<exists>d. sp_CalculateFirstDerivative sp x i = Inr d" and "\<exists>d. sp_CalculateSecondDerivative sp x i = Inr d"
    and "\<exists>d. sp_CalculatePosition sp x i = Inr d"
    using assms(2) by (simp_all add: sp_CalculateFirstDerivative_def sp_CalculateSecondDerivative_def
        sp_CalculatePosition_def spline_coeffs_def Let_def)
qed

lemma path_ok_access:
  assumes "path_ok cp"
  shows "0 \<le> i \<Longrightarrow> i < int (length (cp_path cp)) \<Longrightarrow> GetDistance (cp_spline cp) i = Inr (distances 0 (cp_path cp) ! nat i)"
    and "0 \<le> i \<Longrightarrow> i < int (length (cp_path cp)) - 1 \<Longrightarrow> GetDeltaDistance (cp_spline cp) i = Inr (seg_lens (cp_path cp) ! nat i)"
    and "0 \<le> i \<Longrightarrow> i < int (length (cp_path cp)) \<Longrightarrow> \<exists>a. vec_at (cp_path cp) i = Inr a"
    and "0 \<le> i \<Longrightarrow> i < int (length (cp_path cp)) - 1 \<Longrightarrow> \<exists>d. along cp position i = Inr d"
    and "0 \<le> i \<Longrightarrow> i < int (length (cp_path cp)) - 1 \<Longrightarrow> \<exists>h. CalculateHeading (cp_spline cp) s i = Inr h"
    and "0 \<le> i \<Longrightarrow> i < int (length (cp_path cp)) - 1 \<Longrightarrow> \<exists>p. CalculatePosition (cp_spline cp) s i = Inr p"
    and "0 \<le> i \<Longrightarrow> i < int (length (cp_path cp)) - 1 \<Longrightarrow> \<exists>c. CalculateCurvature (cp_spline cp) s i = Inr c"
proof -
  let ?n = "length (cp_path cp)"
  have ok: "sp1_ok ?n (cubic_spline_x (cp_spline cp))" "sp1_ok ?n (cubic_spline_y (cp_spline cp))" "2 \<le> ?n"
    and d: "distance (cp_spline cp) = distances 0 (cp_path cp)" "delta_distance (cp_spline cp) = seg_lens (cp_path cp)"
    using assms by (auto simp: path_ok_def)
  show "0 \<le> i \<Longrightarrow> i < int ?n \<Longrightarrow> GetDistance (cp_spline cp) i = Inr (distances 0 (cp_path cp) ! nat i)"
    using ok(3) by (simp add: GetDistance_def d)
  show "0 \<le> i \<Longrightarrow> i < int ?n - 1 \<Longrightarrow> GetDeltaDistance (cp_spline cp) i = Inr (seg_lens (cp_path cp) ! nat i)"
    using ok(3) by (simp add: GetDeltaDistance_def d of_nat_diff)
  show "0 \<le> i \<Longrightarrow> i < int ?n \<Longrightarrow> \<exists>a. vec_at (cp_path cp) i = Inr a" by simp
  show "0 \<le> i \<Longrightarrow> i < int ?n - 1 \<Longrightarrow> \<exists>d. along cp position i = Inr d" by (simp add: along_def)
  assume i: "0 \<le> i" "i < int ?n - 1"
  note x = sp1_derivatives [OF ok(1) i] and y = sp1_derivatives [OF ok(2) i]
  obtain dx ddx px dy ddy py where
    "sp_CalculateFirstDerivative (cubic_spline_x (cp_spline cp)) s i = Inr dx"
    "sp_CalculateSecondDerivative (cubic_spline_x (cp_spline cp)) s i = Inr ddx"
    "sp_CalculatePosition (cubic_spline_x (cp_spline cp)) s i = Inr px"
    "sp_CalculateFirstDerivative (cubic_spline_y (cp_spline cp)) s i = Inr dy"
    "sp_CalculateSecondDerivative (cubic_spline_y (cp_spline cp)) s i = Inr ddy"
    "sp_CalculatePosition (cubic_spline_y (cp_spline cp)) s i = Inr py"
    using x [of s] y [of s] by blast
  then show "\<exists>h. CalculateHeading (cp_spline cp) s i = Inr h" "\<exists>p. CalculatePosition (cp_spline cp) s i = Inr p"
    "\<exists>c. CalculateCurvature (cp_spline cp) s i = Inr c"
    by (simp_all add: CalculateHeading_def CalculatePosition_def CalculateCurvature_def)
qed

section \<open>What the search finds\<close>

text \<open>
  The foot of a position: before the start, beyond the end, on a segment between its ends, or
  at a corner that both of its segments leave behind.
\<close>

definition is_foot :: "CubicSplinePath \<Rightarrow> Point \<Rightarrow> int \<Rightarrow> real \<Rightarrow> bool" where
  "is_foot cp position i t \<longleftrightarrow>
     i = -1 \<or> i = int (length (cp_path cp)) - 1
     \<or> (0 \<le> i \<and> i < int (length (cp_path cp)) - 1 \<and>
         (along cp position i = Inr t \<and> 0 \<le> t \<and> t \<le> seg_lens (cp_path cp) ! nat i
          \<or> t = 0 \<and> beyond cp position (i - 1) \<and> (\<exists>d. along cp position i = Inr d \<and> d < 0)))"

lemma search_ok:
  assumes "path_ok cp" and "-1 \<le> i" and "i < int (length (cp_path cp))"
  shows "\<exists>j t. FindPathIndexAndDeltaDistance cp position i = Inr (j, t) \<and> is_foot cp position j t"
  using assms
proof (induction cp position i rule: FindPathIndexAndDeltaDistance.induct)
  case (1 cp position i)
  let ?n = "int (length (cp_path cp))"
  note access = path_ok_access [OF 1(4)]
  have n2: "2 \<le> ?n" using 1(4) by (simp add: path_ok_def)
  then have ne: "cp_path cp \<noteq> []" by auto
  consider (last) "i = ?n - 1" | (first) "i = -1" | (mid) "0 \<le> i" "i < ?n - 1" "i \<noteq> ?n - 1" "i \<noteq> -1"
    using 1(5,6) by linarith
  then show ?case
  proof cases
    case last
    obtain h where "CalculateHeading (cp_spline cp) (distances 0 (cp_path cp) ! nat i) (i - 1) = Inr h"
      using access(5) [of "i - 1"] last n2 by auto
    then show ?thesis
      using access(1) [of i] access(3) [of i] last n2 ne
      by (subst FindPathIndexAndDeltaDistance.simps) (auto simp: is_foot_def)
  next
    case first
    obtain h where "CalculateHeading (cp_spline cp) 0 0 = Inr h" using access(5) [of 0] n2 by auto
    then show ?thesis
      using access(3) [of 0] first n2 ne
      by (subst FindPathIndexAndDeltaDistance.simps) (auto simp: is_foot_def)
  next
    case mid
    obtain d where d: "along cp position i = Inr d" using access(4) mid by blast
    let ?l = "seg_lens (cp_path cp) ! nat i"
    have l: "GetDeltaDistance (cp_spline cp) i = Inr ?l" using access(2) mid by simp
    consider (fwd) "?l < d" | (stay) "0 \<le> d" "d \<le> ?l" | (start) "\<not> ?l < d" "d < 0" "i = 0" | (bwd) "\<not> ?l < d" "d < 0" "0 < i"
      using mid by linarith
    then show ?thesis
    proof cases
      case fwd
      then show ?thesis
        using 1(1) [OF mid(3,4) d l fwd 1(4)] mid
        by (subst FindPathIndexAndDeltaDistance.simps) (simp add: d l)
    next
      case stay
      then show ?thesis
        using mid d l by (subst FindPathIndexAndDeltaDistance.simps) (auto simp: is_foot_def)
    next
      case start
      then show ?thesis
        using 1(3) [OF mid(3,4) d l start(1,2) _ 1(4)] mid d [unfolded start(3)] l [unfolded start(3)]
        by (subst FindPathIndexAndDeltaDistance.simps) (simp add: start(3))
    next
      case bwd
      obtain e where e: "along cp position (i - 1) = Inr e" using access(4) [of "i - 1" position] mid bwd by auto
      let ?m = "seg_lens (cp_path cp) ! nat (i - 1)"
      have m: "GetDeltaDistance (cp_spline cp) (i - 1) = Inr ?m" using access(2) [of "i - 1"] mid bwd by simp
      show ?thesis
      proof (cases "?m < e")
        case True
        then have "beyond cp position (i - 1)" by (simp add: beyond_def e m)
        then show ?thesis
          using True bwd mid d
          by (subst FindPathIndexAndDeltaDistance.simps) (auto simp: d l e m is_foot_def)
      next
        case False
        then show ?thesis
          using 1(2) [OF mid(3,4) d l bwd(1,2,3) e m False 1(4)] mid bwd
          by (subst FindPathIndexAndDeltaDistance.simps) (simp add: d l e m)
      qed
    qed
  qed
qed

lemma is_foot_range: "is_foot cp position j t \<Longrightarrow> 2 \<le> length (cp_path cp) \<Longrightarrow> -1 \<le> j \<and> j < int (length (cp_path cp))"
  by (auto simp: is_foot_def)

lemma closest_point_range:
  "0 \<le> k \<Longrightarrow> 0 \<le> best \<Longrightarrow> best < k + int (length ps) \<Longrightarrow>
   0 \<le> closest_point position ps k least best \<and> closest_point position ps k least best < k + int (length ps)"
proof (induction ps arbitrary: k least best)
  case (Cons p ps)
  then show ?case
    using Cons.IH [of "k + 1"] by (auto simp: Let_def add.assoc)
qed simp

text \<open>The path whose index has been initialised for a position.\<close>

definition with_index :: "Point \<Rightarrow> CubicSplinePath \<Rightarrow> CubicSplinePath" where
  "with_index position cp =
     (if \<not> idx_valid cp
      then cp\<lparr>current_path_idx := closest_point position (cp_path cp) 0 None 0, idx_valid := True\<rparr> else cp)"

lemma with_index_ok:
  assumes "path_ok cp"
  shows "path_ok (with_index position cp)"
proof -
  have "cp_path cp \<noteq> []" using assms by (auto simp: path_ok_def)
  then show ?thesis
    using assms closest_point_range [of 0 0 "cp_path cp" position None] by (simp add: with_index_def path_ok_def)
qed

lemma with_index_fields [simp]: "cp_path (with_index position cp) = cp_path cp"
  "cp_spline (with_index position cp) = cp_spline cp" "total_distance (with_index position cp) = total_distance cp"
  by (simp_all add: with_index_def)

lemma ReferencePoint_ok:
  assumes "path_ok cp"
  obtains cp' r where "ReferencePoint position cp = Inr (cp', r)" and "path_ok cp'" and "cp_path cp' = cp_path cp"
    and "total_distance cp' = total_distance cp" and "rf_remain r = total_distance cp - rf_distance r"
proof -
  let ?c = "with_index position cp" and ?n = "int (length (cp_path cp))"
  have ok: "path_ok ?c" using assms by (rule with_index_ok)
  then have n2: "2 \<le> length (cp_path cp)" "cp_path cp \<noteq> []" and i: "-1 \<le> current_path_idx ?c" "current_path_idx ?c < ?n"
    by (auto simp: path_ok_def)
  obtain j t where f: "FindPathIndexAndDeltaDistance ?c position (current_path_idx ?c) = Inr (j, t)"
    and foot: "is_foot ?c position j t"
    using search_ok [OF ok i(1), of position] i(2) by auto
  have j: "-1 \<le> j" "j < ?n" using is_foot_range [OF foot] n2 by auto
  have idx: "path_ok (?c\<lparr>current_path_idx := k\<rparr>)" if "0 \<le> k" "k < ?n" for k
    using ok that by (simp add: path_ok_def)
  note access = path_ok_access [OF ok, simplified]
  consider (last) "j = ?n - 1" | (first) "j = -1" | (mid) "0 \<le> j" "j < ?n - 1" using j by linarith
  then show ?thesis
  proof cases
    case last
    obtain h where "CalculateHeading (cp_spline cp) (distances 0 (cp_path cp) ! nat j) (j - 1) = Inr h"
      using access(5) [of "j - 1"] last n2 by auto
    moreover obtain a where "vec_at (cp_path cp) j = Inr a" using access(3) [of j] last n2 by auto
    ultimately show ?thesis
      using that [of "?c\<lparr>current_path_idx := j - 1\<rparr>"] idx [of "j - 1"] f access(1) [of j] last n2
      by (simp add: ReferencePoint_def with_index_def [symmetric] Let_def)
  next
    case first
    obtain h where "CalculateHeading (cp_spline cp) 0 0 = Inr h" using access(5) [of 0] n2 by auto
    moreover obtain a where "vec_at (cp_path cp) 0 = Inr a" using access(3) [of 0] n2 by auto
    ultimately show ?thesis
      using that [of "?c\<lparr>current_path_idx := 0\<rparr>"] idx [of 0] f first n2
      by (simp add: ReferencePoint_def with_index_def [symmetric] Let_def)
  next
    case mid
    let ?s = "distances 0 (cp_path cp) ! nat j + t"
    obtain p h c where "CalculatePosition (cp_spline cp) ?s j = Inr p" "CalculateHeading (cp_spline cp) ?s j = Inr h"
      "CalculateCurvature (cp_spline cp) ?s j = Inr c"
      using access(5,6,7) [of j ?s] mid by metis
    then show ?thesis
      using that [of "?c\<lparr>current_path_idx := j\<rparr>"] idx [of j] f access(1) [of j] mid
      by (simp add: ReferencePoint_def with_index_def [symmetric] Let_def)
  qed
qed

section \<open>Properties of the path\<close>


lemma unit_path: "\<exists>cp. CubicSplinePath_ctor test_eigen [(0, 0), (1, 0)] = Inr cp \<and> path_ok cp
    \<and> cp_path cp = [(0, 0), (1, 0)] \<and> \<not> idx_valid cp"
  using ctor_path_ok [of "[(0, 0), (1, 0)]" test_eigen] by auto


lemma distances_0: "distances acc ps ! 0 = acc"
  by (cases ps rule: seg_lens.cases) simp_all

lemma distances_step:
  "Suc i < length ps \<Longrightarrow> distances acc ps ! Suc i = distances acc ps ! i + seg_lens ps ! i"
proof (induction acc ps arbitrary: i rule: distances.induct)
  case (1 acc p q ps)
  then show ?case by (cases i) (simp_all add: distances_0)
qed simp_all

text \<open>
  The two computations of the remaining distance agree, except beyond the end of the path:
  there \<open>GetRemainDistance\<close> measures from the start of the last segment, so it is too long by
  the length of that segment and the car is told to go on when it has passed the end.
\<close>

theorem remain_distance_beyond_end:
  assumes "path_ok cp" and "idx_valid cp"
    and "FindPathIndexAndDeltaDistance cp position (current_path_idx cp) = Inr (j, t)"
  shows "\<exists>cp' r d. ReferencePoint position cp = Inr (cp', r) \<and> GetRemainDistance position cp = Inr d
    \<and> d = rf_remain r + (if j = int (length (cp_path cp)) - 1 then last (seg_lens (cp_path cp)) else 0)
    \<and> (j = int (length (cp_path cp)) - 1 \<longrightarrow> rf_remain r = - t)"
proof -
  let ?n = "int (length (cp_path cp))" and ?ps = "cp_path cp"
  have n2: "2 \<le> length ?ps" "?ps \<noteq> []" and i: "-1 \<le> current_path_idx cp" "current_path_idx cp < ?n"
    and tot: "total_distance cp = distances 0 ?ps ! (length ?ps - 1)"
    using assms(1) by (auto simp: path_ok_def)
  have j: "-1 \<le> j" "j < ?n"
    using search_ok [OF assms(1) i, of position] assms(3) is_foot_range n2(1) by fastforce+
  have w: "with_index position cp = cp" using assms(2) by (simp add: with_index_def)
  note access = path_ok_access [OF assms(1)]
  consider (last) "j = ?n - 1" | (first) "j = -1" | (mid) "0 \<le> j" "j < ?n - 1" using j by linarith
  then show ?thesis
  proof cases
    case last
    obtain h where "CalculateHeading (cp_spline cp) (distances 0 ?ps ! nat j) (j - 1) = Inr h"
      using access(5) [of "j - 1"] last n2 by auto
    moreover obtain a where "vec_at ?ps j = Inr a" using access(3) [of j] last n2 by auto
    moreover have "total_distance cp = distances 0 ?ps ! nat (j - 1) + last (seg_lens ?ps)"
    proof -
      have "Suc (length ?ps - 2) = length ?ps - 1" "nat (j - 1) = length ?ps - 2" "seg_lens ?ps \<noteq> []"
        using n2 last by (auto simp: nat_diff_distrib' simp flip: length_greater_0_conv)
      then show ?thesis
        using distances_step [of "length ?ps - 2" ?ps 0] n2 tot by (simp add: last_conv_nth numeral_2_eq_2)
    qed
    moreover have "total_distance cp = distances 0 ?ps ! nat j" using last n2 tot by (simp add: nat_diff_distrib')
    ultimately show ?thesis
      using assms(2,3) access(1) [of j] access(1) [of "j - 1"] last n2
      by (simp add: ReferencePoint_def GetRemainDistance_def Let_def)
  next
    case first
    obtain h where "CalculateHeading (cp_spline cp) 0 0 = Inr h" using access(5) [of 0] n2 by auto
    moreover obtain a where "vec_at ?ps 0 = Inr a" using access(3) [of 0] n2 by auto
    moreover have "distances 0 ?ps ! 0 = 0" by (rule distances_0)
    ultimately show ?thesis
      using assms(2,3) access(1) [of 0] first n2
      by (simp add: ReferencePoint_def GetRemainDistance_def Let_def)
  next
    case mid
    let ?s = "distances 0 ?ps ! nat j + t"
    obtain p h c where "CalculatePosition (cp_spline cp) ?s j = Inr p" "CalculateHeading (cp_spline cp) ?s j = Inr h"
      "CalculateCurvature (cp_spline cp) ?s j = Inr c"
      using access(5,6,7) [of j ?s] mid by metis
    then show ?thesis
      using assms(2,3) access(1) [of j] mid
      by (simp add: ReferencePoint_def GetRemainDistance_def Let_def)
  qed
qed

theorem remain_distance_beyond_end_witness:
  "\<exists>cp cp' r d. path_ok cp \<and> ReferencePoint (2, 0) cp = Inr (cp', r) \<and> GetRemainDistance (2, 0) cp = Inr d
     \<and> d = rf_remain r + 1"
proof -
  obtain c where c: "CubicSplinePath_ctor test_eigen [(0, 0), (1, 0)] = Inr c" "path_ok c" "cp_path c = [(0, 0), (1, 0)]"
    using unit_path by blast
  define cp where "cp = c\<lparr>idx_valid := True, current_path_idx := 0\<rparr>"
  have ok: "path_ok cp" "idx_valid cp" "cp_path cp = [(0, 0), (1, 0)]" "current_path_idx cp = 0"
    using c(2,3) by (simp_all add: cp_def path_ok_def)
  have a: "along cp (2, 0) 0 = Inr 2"
    by (simp add: along_def ok(3) vec_at_def minus_pt_def normalized_def squaredNorm_def dot_def)
  have l: "GetDeltaDistance (cp_spline cp) 0 = Inr 1"
    using path_ok_access(2) [OF ok(1), of 0] by (simp add: ok(3) seg_len_def)
  have "FindPathIndexAndDeltaDistance cp (2, 0) 0 = FindPathIndexAndDeltaDistance cp (2, 0) 1"
    by (subst FindPathIndexAndDeltaDistance.simps) (simp add: ok(3) a l)
  moreover obtain j t where f: "FindPathIndexAndDeltaDistance cp (2, 0) 1 = Inr (j, t)"
    using search_ok [OF ok(1), of 1 "(2, 0)"] ok(3) by auto
  moreover have "j = 1"
    using f by (subst (asm) FindPathIndexAndDeltaDistance.simps) (auto simp: ok(3) sbind_eq_Inr)
  ultimately have "FindPathIndexAndDeltaDistance cp (2, 0) (current_path_idx cp) = Inr (1, t)"
    by (simp add: ok(4))
  from remain_distance_beyond_end [OF ok(1,2) this] ok show ?thesis
    by (simp add: seg_len_def) blast
qed

end
