(* ===== verification/Frenet.thy ===== *)
theory Frenet
  imports SplinePath
begin

text \<open>
  The local planner (\<open>frenet_optimal_path.cpp\<close>): candidate motions sampled around the global
  path as polynomials in time, converted to the plane, filtered by the vehicle's limits and
  the obstacle boxes, and the cheapest one kept.  The three sampling loops step a \<open>double\<close> by
  a parameter and may not end: they are partial functions, whose value \<open>None\<close> is a loop that
  never ends.
\<close>

section \<open>Data\<close>

record State =
  st_timestamp :: real
  st_pos :: vec3
  st_vel :: vec3
  st_quat :: quat
  st_accel :: vec3
  st_ang_vel :: vec3

record PlanBox =
  x_min :: real
  x_max :: real
  y_min :: real
  y_max :: real

record FrenetPath =
  f_d :: "real list"
  f_d_d :: "real list"
  f_dd_d :: "real list"
  f_ddd_d :: "real list"
  f_s :: "real list"
  f_d_s :: "real list"
  f_dd_s :: "real list"
  f_ddd_s :: "real list"
  f_cd :: real
  f_cv :: real
  f_cf :: real
  f_path :: "Point list"
  f_yaw :: "real list"
  f_ds :: "real list"
  f_c :: "real list"

definition empty_path :: FrenetPath where
  "empty_path = \<lparr>f_d = [], f_d_d = [], f_dd_d = [], f_ddd_d = [], f_s = [], f_d_s = [], f_dd_s = [], f_ddd_s = [],
     f_cd = 0, f_cv = 0, f_cf = 0, f_path = [], f_yaw = [], f_ds = [], f_c = []\<rparr>"

record FrenetState =
  fs_speed :: real
  fs_accel :: real
  fs_lateral_distance :: real
  fs_lateral_speed :: real
  fs_lateral_accel :: real
  fs_course_distance :: real

record FrenetParameters =
  fr_max_speed :: real
  fr_max_accel :: real
  fr_max_curvature :: real
  fr_max_road_width :: real
  fr_d_road_width :: real
  fr_dt :: real
  fr_max_t :: real
  fr_min_t :: real
  fr_target_speed :: real
  fr_d_target_speed :: real
  fr_n_speed_sample :: int
  fr_robot_radius :: real
  fr_k_j :: real
  fr_k_t :: real
  fr_k_d :: real
  fr_k_lat :: real
  fr_k_lon :: real

text \<open>The default member initialisers: everything is 0.\<close>

definition frenet_defaults :: FrenetParameters where
  "frenet_defaults = \<lparr>fr_max_speed = 0, fr_max_accel = 0, fr_max_curvature = 0, fr_max_road_width = 0,
     fr_d_road_width = 0, fr_dt = 0, fr_max_t = 0, fr_min_t = 0, fr_target_speed = 0, fr_d_target_speed = 0,
     fr_n_speed_sample = 0, fr_robot_radius = 0, fr_k_j = 0, fr_k_t = 0, fr_k_d = 0, fr_k_lat = 0, fr_k_lon = 0\<rparr>"

record FrenetOptimalPath =
  fo_parameters :: FrenetParameters
  current_frenet_path :: FrenetPath
  frenet_paths :: "FrenetPath list"
  fo_boxes :: "PlanBox list"

definition FrenetOptimalPath_ctor :: "FrenetParameters \<Rightarrow> FrenetOptimalPath" where
  "FrenetOptimalPath_ctor ps =
     \<lparr>fo_parameters = ps, current_frenet_path = empty_path, frenet_paths = [], fo_boxes = []\<rparr>"

section \<open>Polynomials\<close>

record QuarticPolynomial =
  q4_x0 :: real
  q4_x1 :: real
  q4_x2 :: real
  q4_x3 :: real
  q4_x4 :: real

definition quartic_A :: "real \<Rightarrow> matrix" where
  "quartic_A T i j =
     (if i = 0 then (if j = 0 then 3 * T * T else 4 * T * T * T)
      else (if j = 0 then 6 * T else 12 * T * T))"

definition QuarticPolynomial_ctor ::
    "EigenOps \<Rightarrow> real \<Rightarrow> real \<Rightarrow> real \<Rightarrow> real \<Rightarrow> real \<Rightarrow> real \<Rightarrow> QuarticPolynomial" where
  "QuarticPolynomial_ctor E xs vxs axs vxe axe T =
     (let x2 = axs / 2;
          b = (\<lambda>i :: nat. if i = 0 then vxe - vxs - 2 * x2 * T else axe - 2 * x2);
          c = mat_vec 2 (eg_inverse E 2 (quartic_A T)) b
      in \<lparr>q4_x0 = xs, q4_x1 = vxs, q4_x2 = x2, q4_x3 = c 0, q4_x4 = c 1\<rparr>)"

definition q4_Point :: "QuarticPolynomial \<Rightarrow> real \<Rightarrow> real" where
  "q4_Point q t = q4_x0 q + (q4_x1 q * t) + (q4_x2 q * t * t) + (q4_x3 q * t * t * t) + (q4_x4 q * t * t * t * t)"

definition q4_First :: "QuarticPolynomial \<Rightarrow> real \<Rightarrow> real" where
  "q4_First q t = q4_x1 q + (2 * q4_x2 q * t) + (3 * q4_x3 q * t * t) + (4 * q4_x4 q * t * t * t)"

definition q4_Second :: "QuarticPolynomial \<Rightarrow> real \<Rightarrow> real" where
  "q4_Second q t = (2 * q4_x2 q) + (6 * q4_x3 q * t) + (12 * q4_x4 q * t * t)"

definition q4_Third :: "QuarticPolynomial \<Rightarrow> real \<Rightarrow> real" where
  "q4_Third q t = (6 * q4_x3 q) + (24 * q4_x4 q * t)"

record QuinticPolynomial =
  q5_x0 :: real
  q5_x1 :: real
  q5_x2 :: real
  q5_x3 :: real
  q5_x4 :: real
  q5_x5 :: real

definition quintic_A :: "real \<Rightarrow> matrix" where
  "quintic_A T i j =
     (if i = 0 then (if j = 0 then T * T * T else if j = 1 then T * T * T * T else T * T * T * T * T)
      else if i = 1 then (if j = 0 then 3 * T * T else if j = 1 then 4 * T * T * T else 5 * T * T * T * T)
      else (if j = 0 then 6 * T else if j = 1 then 12 * T * T else 20 * T * T * T))"

definition QuinticPolynomial_ctor ::
    "EigenOps \<Rightarrow> real \<Rightarrow> real \<Rightarrow> real \<Rightarrow> real \<Rightarrow> real \<Rightarrow> real \<Rightarrow> real \<Rightarrow> QuinticPolynomial" where
  "QuinticPolynomial_ctor E xs vxs axs xe vxe axe T =
     (let x2 = axs / 2;
          b = (\<lambda>i :: nat. if i = 0 then xe - xs - vxs * T - x2 * T * T
                 else if i = 1 then vxe - vxs - 2 * x2 * T else axe - 2 * x2);
          c = mat_vec 3 (eg_inverse E 3 (quintic_A T)) b
      in \<lparr>q5_x0 = xs, q5_x1 = vxs, q5_x2 = x2, q5_x3 = c 0, q5_x4 = c 1, q5_x5 = c 2\<rparr>)"

definition q5_Point :: "QuinticPolynomial \<Rightarrow> real \<Rightarrow> real" where
  "q5_Point q t = q5_x0 q + (q5_x1 q * t) + (q5_x2 q * t * t) + (q5_x3 q * t * t * t) + (q5_x4 q * t * t * t * t)
     + (q5_x5 q * t * t * t * t * t)"

definition q5_First :: "QuinticPolynomial \<Rightarrow> real \<Rightarrow> real" where
  "q5_First q t = q5_x1 q + (2 * q5_x2 q * t) + (3 * q5_x3 q * t * t) + (4 * q5_x4 q * t * t * t)
     + (5 * q5_x5 q * t * t * t * t)"

definition q5_Second :: "QuinticPolynomial \<Rightarrow> real \<Rightarrow> real" where
  "q5_Second q t = (2 * q5_x2 q) + (6 * q5_x3 q * t) + (12 * q5_x4 q * t * t) + (20 * q5_x5 q * t * t * t)"

definition q5_Third :: "QuinticPolynomial \<Rightarrow> real \<Rightarrow> real" where
  "q5_Third q t = (6 * q5_x3 q) + (24 * q5_x4 q * t) + (60 * q5_x5 q * t * t)"

section \<open>Sampling\<close>

text \<open>The loop \<open>for (double x = start; p(x); x += dx)\<close> whose body appends values to a vector.\<close>

partial_function (option) for_loop ::
    "(real \<Rightarrow> bool) \<Rightarrow> real \<Rightarrow> (real \<Rightarrow> (exn + 'a list) option) \<Rightarrow> real \<Rightarrow> (exn + 'a list) option" where
  "for_loop p dx body x =
     (if p x
      then Option.bind (body x) (\<lambda>r. case r of Inl e \<Rightarrow> Some (Inl e)
           | Inr ys \<Rightarrow> Option.bind (for_loop p dx body (x + dx)) (\<lambda>r'. Some (sbind r' (\<lambda>zs. Inr (ys @ zs)))))
      else Some (Inr []))"

text \<open>\<open>back()\<close> of an empty vector is undefined; a negative count given to \<open>reserve\<close> is too long.\<close>

definition vec_back :: "'a list \<Rightarrow> exn + 'a" where
  "vec_back xs = (if xs = [] then Inl Bad_index else Inr (last xs))"

definition reserve :: "int \<Rightarrow> exn + unit" where
  "reserve n = (if n < 0 then Inl (Runtime_error ''length_error'') else Inr ())"

definition sum_squares :: "real list \<Rightarrow> real" where
  "sum_squares xs = foldl (\<lambda>x y. x + y * y) 0 xs"

text \<open>One candidate: lateral offset \<open>di\<close> and speed \<open>tv\<close> reached after the time \<open>ti\<close>, sampled at \<open>ts\<close>.\<close>

definition frenet_candidate ::
    "EigenOps \<Rightarrow> FrenetParameters \<Rightarrow> FrenetState \<Rightarrow> real \<Rightarrow> real \<Rightarrow> real list \<Rightarrow> real \<Rightarrow> exn + FrenetPath" where
  "frenet_candidate E ps st di ti ts tv =
     (let lat_qp = QuinticPolynomial_ctor E (fs_lateral_distance st) (fs_lateral_speed st) (fs_lateral_accel st) di 0 0 ti;
          lon_qp = QuarticPolynomial_ctor E (fs_course_distance st) (fs_speed st) (fs_accel st) tv 0 ti;
          d = map (q5_Point lat_qp) ts; ddd_d = map (q5_Third lat_qp) ts;
          d_s = map (q4_First lon_qp) ts; ddd_s = map (q4_Third lon_qp) ts
      in sbind (vec_back d_s) (\<lambda>v_end. sbind (vec_back d) (\<lambda>d_end.
           let j_p = sum_squares ddd_d; j_s = sum_squares ddd_s;
               ds = (fr_target_speed ps - v_end)\<^sup>2;
               cd = fr_k_j ps * j_p + fr_k_t ps * ti + fr_k_d ps * d_end\<^sup>2;
               cv = fr_k_j ps * j_s + fr_k_t ps * ti + fr_k_d ps * ds
           in Inr \<lparr>f_d = d, f_d_d = map (q5_First lat_qp) ts, f_dd_d = map (q5_Second lat_qp) ts, f_ddd_d = ddd_d,
                   f_s = map (q4_Point lon_qp) ts, f_d_s = d_s, f_dd_s = map (q4_Second lon_qp) ts, f_ddd_s = ddd_s,
                   f_cd = cd, f_cv = cv, f_cf = fr_k_lat ps * cd + fr_k_lon ps * cv,
                   f_path = [], f_yaw = [], f_ds = [], f_c = []\<rparr>)))"

text \<open>The times \<open>for (double t = 0; t < ti; t += dt)\<close> at which a candidate is sampled.\<close>

definition sample_times :: "FrenetParameters \<Rightarrow> real \<Rightarrow> real list run" where
  "sample_times ps ti = for_loop (\<lambda>t. t < ti) (fr_dt ps) (\<lambda>t. Some (Inr [t])) 0"

definition speed_loop :: "FrenetParameters \<Rightarrow> (real \<Rightarrow> 'a list run) \<Rightarrow> 'a list run" where
  "speed_loop ps body =
     for_loop (\<lambda>tv. tv \<le> fr_target_speed ps + fr_d_target_speed ps * of_int (fr_n_speed_sample ps)) (fr_d_target_speed ps)
       body (fr_target_speed ps - fr_d_target_speed ps * of_int (fr_n_speed_sample ps))"

text \<open>The candidates of one pair of offset and time.\<close>

definition candidates_at :: "EigenOps \<Rightarrow> FrenetParameters \<Rightarrow> FrenetState \<Rightarrow> real \<Rightarrow> real \<Rightarrow> FrenetPath list run" where
  "candidates_at E ps st di ti =
     rbind (Some (reserve (c_trunc (ti / fr_dt ps + 1)))) (\<lambda>_.
     rbind (sample_times ps ti) (\<lambda>ts.
     speed_loop ps (\<lambda>tv. Some (sbind (frenet_candidate E ps st di ti ts tv) (\<lambda>fp. Inr [fp])))))"

definition CalculateFrenetPaths :: "EigenOps \<Rightarrow> FrenetParameters \<Rightarrow> FrenetState \<Rightarrow> FrenetPath list run" where
  "CalculateFrenetPaths E ps st =
     (let n_road = c_trunc (2 * fr_max_road_width ps + 1);
          n_time = c_trunc ((fr_max_t ps - fr_min_t ps) / fr_dt ps + 1);
          n_speed = 2 * fr_n_speed_sample ps + 1
      in rbind (Some (reserve (n_road * n_time * n_speed))) (\<lambda>_.
         for_loop (\<lambda>di. di \<le> fr_max_road_width ps) (fr_d_road_width ps)
           (\<lambda>di. for_loop (\<lambda>ti. ti \<le> fr_max_t ps) (fr_dt ps) (candidates_at E ps st di) (fr_min_t ps))
           (- fr_max_road_width ps)))"

definition ComputeCurrentFrenetState :: "CubicSplinePath \<Rightarrow> State \<Rightarrow> exn + CubicSplinePath \<times> FrenetState" where
  "ComputeCurrentFrenetState gp st =
     (let pos = (v3_x (st_pos st), v3_y (st_pos st))
      in sbind (ReferencePoint pos gp) (\<lambda>(gp', ref).
         let hv = (cos (rf_heading ref), sin (rf_heading ref));
             err = minus_pt pos (rf_point ref);
             cross = fst hv * snd err - snd hv * fst err;
             norm = sqrt (squaredNorm err)
         in Inr (gp', \<lparr>fs_speed = v3_x (st_vel st), fs_accel = v3_x (st_accel st),
                       fs_lateral_distance = (if cross < 0 then - norm else norm),
                       fs_lateral_speed = v3_y (st_vel st), fs_lateral_accel = v3_y (st_accel st),
                       fs_course_distance = rf_distance ref\<rparr>)))"

section \<open>Candidates in the plane\<close>

fun global_points :: "CubicSplinePath \<Rightarrow> real list \<Rightarrow> real list \<Rightarrow> int \<Rightarrow> exn + Point list" where
  "global_points gp ds [] j = Inr []"
| "global_points gp ds (s # ss) j =
     (if GetRemainDistanceAt s gp < 1 / 10 ^ 9 then Inr []
      else sbind (ReferencePointAt s gp) (\<lambda>ref. sbind (vec_at ds j) (\<lambda>dist.
           sbind (global_points gp ds ss (j + 1)) (\<lambda>ps.
             Inr ((fst (rf_point ref) + dist * cos (rf_heading ref + pi / 2),
                   snd (rf_point ref) + dist * sin (rf_heading ref + pi / 2)) # ps)))))"

definition hypot :: "real \<Rightarrow> real \<Rightarrow> real" where
  "hypot x y = sqrt (x * x + y * y)"

definition to_global :: "CubicSplinePath \<Rightarrow> FrenetPath \<Rightarrow> exn + FrenetPath" where
  "to_global gp fp =
     sbind (global_points gp (f_d fp) (f_s fp) 0) (\<lambda>path.
       if length path < 2 then Inr (fp\<lparr>f_path := path\<rparr>)
       else
         let deltas = map (\<lambda>(p, q). minus_pt q p) (zip path (tl path));
             yaw0 = map (\<lambda>v. atan2 (snd v) (fst v)) deltas; ds0 = map (\<lambda>v. hypot (fst v) (snd v)) deltas;
             yaw = yaw0 @ [last yaw0]; ds = ds0 @ [last ds0]
         in Inr (fp\<lparr>f_path := path, f_yaw := yaw, f_ds := ds,
                    f_c := map (\<lambda>j. (yaw ! (j + 1) - yaw ! j) / ds ! j) [0..<length yaw - 1]\<rparr>))"

definition CalculateGlobalPaths :: "CubicSplinePath \<Rightarrow> FrenetPath list \<Rightarrow> exn + FrenetPath list" where
  "CalculateGlobalPaths gp ps = smap (to_global gp) ps"

section \<open>Filtering\<close>

definition Cross :: "Point \<Rightarrow> Point \<Rightarrow> real" where
  "Cross p q = fst p * snd q - snd p * fst q"

definition DoIntersect :: "Point \<Rightarrow> Point \<Rightarrow> Point \<Rightarrow> Point \<Rightarrow> bool" where
  "DoIntersect p0 p1 q0 q1 =
     (let r = minus_pt p1 p0; s = minus_pt q1 q0; q0p0 = minus_pt q0 p0; r_cross_s = Cross r s
      in if \<bar>r_cross_s\<bar> < 1 / 10 ^ 9 then False
         else let t = Cross q0p0 r / r_cross_s; u = Cross q0p0 s / r_cross_s
              in t \<ge> 0 \<and> t \<le> 1 \<and> u \<ge> 0 \<and> u \<le> 1)"

definition GetBoxEdges :: "PlanBox \<Rightarrow> (Point \<times> Point) list" where
  "GetBoxEdges b =
     [((x_min b, y_min b), (x_max b, y_min b)), ((x_max b, y_min b), (x_max b, y_max b)),
      ((x_max b, y_max b), (x_min b, y_max b)), ((x_min b, y_max b), (x_min b, y_min b))]"

definition with_margin :: "FrenetParameters \<Rightarrow> PlanBox \<Rightarrow> PlanBox" where
  "with_margin ps b = \<lparr>x_min = x_min b - fr_robot_radius ps, x_max = x_max b + fr_robot_radius ps,
     y_min = y_min b - fr_robot_radius ps, y_max = y_max b + fr_robot_radius ps\<rparr>"

definition CheckPathCollision :: "FrenetParameters \<Rightarrow> Point list \<Rightarrow> PlanBox list \<Rightarrow> bool" where
  "CheckPathCollision ps path boxes =
     (if length path < 2 then False
      else list_ex (\<lambda>(p1, p2). list_ex (\<lambda>b. list_ex (\<lambda>(e1, e2). DoIntersect p1 p2 e1 e2) (GetBoxEdges (with_margin ps b))) boxes)
             (zip path (tl path)))"

definition CheckCollision :: "FrenetParameters \<Rightarrow> PlanBox list \<Rightarrow> FrenetPath list \<Rightarrow> FrenetPath list" where
  "CheckCollision ps boxes fps =
     (if length boxes < 1 then fps else filter (\<lambda>fp. \<not> CheckPathCollision ps (f_path fp) boxes) fps)"

definition CheckPaths :: "FrenetParameters \<Rightarrow> PlanBox list \<Rightarrow> FrenetPath list \<Rightarrow> FrenetPath list" where
  "CheckPaths ps boxes fps =
     (let f1 = filter (\<lambda>fp. \<not> length (f_path fp) < 2) fps;
          f2 = filter (\<lambda>fp. \<not> list_ex (\<lambda>v. v > fr_max_speed ps) (f_d_s fp)) f1;
          f3 = filter (\<lambda>fp. \<not> list_ex (\<lambda>a. \<bar>a\<bar> > fr_max_accel ps) (f_dd_s fp)) f2;
          f4 = filter (\<lambda>fp. \<not> list_ex (\<lambda>c. \<bar>c\<bar> > fr_max_curvature ps) (f_c fp)) f3
      in CheckCollision ps boxes f4)"

text \<open>The scan for the least cost: of equal costs the last wins.\<close>

fun cheapest :: "FrenetPath \<Rightarrow> FrenetPath list \<Rightarrow> FrenetPath" where
  "cheapest best [] = best"
| "cheapest best (fp # fps) = (if f_cf best \<ge> f_cf fp then cheapest fp fps else cheapest best fps)"

definition choose_path :: "FrenetPath list \<Rightarrow> FrenetOptimalPath \<Rightarrow> FrenetOptimalPath" where
  "choose_path kept fo = fo\<lparr>frenet_paths := kept,
     current_frenet_path := (case kept of [] \<Rightarrow> empty_path | fp # rest \<Rightarrow> cheapest fp rest)\<rparr>"

definition Planning :: "EigenOps \<Rightarrow> State \<Rightarrow> CubicSplinePath \<Rightarrow> FrenetOptimalPath \<Rightarrow> (CubicSplinePath \<times> FrenetOptimalPath) run" where
  "Planning E st gp fo =
     rbind (Some (ComputeCurrentFrenetState gp st)) (\<lambda>(gp', fstate).
     rbind (CalculateFrenetPaths E (fo_parameters fo) fstate) (\<lambda>cands.
     rbind (Some (CalculateGlobalPaths gp' cands)) (\<lambda>fps.
       Some (Inr (gp', choose_path (CheckPaths (fo_parameters fo) (fo_boxes fo) fps) fo)))))"

definition fo_IsPathGenerated :: "FrenetOptimalPath \<Rightarrow> bool" where
  "fo_IsPathGenerated fo \<longleftrightarrow> length (f_path (current_frenet_path fo)) \<ge> 2"

definition GetCurrentFrenetPath :: "FrenetOptimalPath \<Rightarrow> FrenetPath" where
  "GetCurrentFrenetPath fo =
     (if length (f_path (current_frenet_path fo)) < 2 then empty_path else current_frenet_path fo)"

definition fo_SetBoundingBoxes :: "PlanBox list \<Rightarrow> FrenetOptimalPath \<Rightarrow> FrenetOptimalPath" where
  "fo_SetBoundingBoxes bs fo = fo\<lparr>fo_boxes := bs\<rparr>"

section \<open>The polynomials meet their boundary conditions\<close>

lemma mat_vec_2: "mat_vec 2 M v i = M i 0 * v 0 + M i 1 * v 1"
  by (simp add: mat_vec_def eval_nat_numeral)

lemma mat_vec_3: "mat_vec 3 M v i = M i 0 * v 0 + M i 1 * v 1 + M i 2 * v 2"
  by (simp add: mat_vec_def eval_nat_numeral)

lemma all_less_2: "(\<forall>i<2. P i) \<longleftrightarrow> P 0 \<and> P (1 :: nat)"
  by (auto simp: less_Suc_eq eval_nat_numeral)

lemma quartic_no_kernel: "T \<noteq> 0 \<Longrightarrow> no_kernel 2 (quartic_A T)"
  unfolding no_kernel_def all_less_2 mat_vec_2
proof (intro allI impI)
  fix v :: "nat \<Rightarrow> real"
  assume T: "T \<noteq> 0" and z: "quartic_A T 0 0 * v 0 + quartic_A T 0 1 * v 1 = 0 \<and> quartic_A T 1 0 * v 0 + quartic_A T 1 1 * v 1 = 0"
  have "T * T * (3 * v 0 + 4 * (T * v 1)) = 0" "T * (6 * v 0 + 12 * (T * v 1)) = 0"
    using z by (simp_all add: quartic_A_def algebra_simps)
  then have "3 * v 0 + 4 * (T * v 1) = 0" "6 * v 0 + 12 * (T * v 1) = 0" using T by simp_all
  then have "v 0 = 0" "T * v 1 = 0" by linarith+
  then show "v 0 = 0 \<and> v 1 = 0" using T by simp
qed

lemma quintic_no_kernel: "T \<noteq> 0 \<Longrightarrow> no_kernel 3 (quintic_A T)"
  unfolding no_kernel_def all_less_3 mat_vec_3
proof (intro allI impI)
  fix v :: "nat \<Rightarrow> real"
  assume T: "T \<noteq> 0" and z: "quintic_A T 0 0 * v 0 + quintic_A T 0 1 * v 1 + quintic_A T 0 2 * v 2 = 0
     \<and> quintic_A T 1 0 * v 0 + quintic_A T 1 1 * v 1 + quintic_A T 1 2 * v 2 = 0
     \<and> quintic_A T 2 0 * v 0 + quintic_A T 2 1 * v 1 + quintic_A T 2 2 * v 2 = 0"
  have "T * T * T * (v 0 + T * v 1 + T * T * v 2) = 0" "T * T * (3 * v 0 + 4 * (T * v 1) + 5 * (T * T * v 2)) = 0"
    "T * (6 * v 0 + 12 * (T * v 1) + 20 * (T * T * v 2)) = 0"
    using z by (simp_all add: quintic_A_def algebra_simps)
  then have "v 0 + T * v 1 + T * T * v 2 = 0" "3 * v 0 + 4 * (T * v 1) + 5 * (T * T * v 2) = 0"
    "6 * v 0 + 12 * (T * v 1) + 20 * (T * T * v 2) = 0" using T by simp_all
  then have "v 0 = 0" "T * v 1 = 0" "T * T * v 2 = 0" by linarith+
  then show "v 0 = 0 \<and> v 1 = 0 \<and> v 2 = 0" using T by simp
qed

lemma quintic_rows:
  fixes xs vxs axs xe vxe axe :: real
  assumes "T \<noteq> 0" and "eigen_inverts E 3 (quintic_A T)"
  defines "q \<equiv> QuinticPolynomial_ctor E xs vxs axs xe vxe axe T"
  shows "T * T * T * q5_x3 q + T * T * T * T * q5_x4 q + T * T * T * T * T * q5_x5 q = xe - xs - vxs * T - axs / 2 * T * T"
    and "3 * T * T * q5_x3 q + 4 * T * T * T * q5_x4 q + 5 * T * T * T * T * q5_x5 q = vxe - vxs - axs * T"
    and "6 * T * q5_x3 q + 12 * T * T * q5_x4 q + 20 * T * T * T * q5_x5 q = axe - axs"
  using solve_eq [OF assms(2) quintic_no_kernel [OF assms(1)], of 0 "\<lambda>i. if i = 0 then xe - xs - vxs * T - axs / 2 * T * T
        else if i = 1 then vxe - vxs - 2 * (axs / 2) * T else axe - 2 * (axs / 2)"]
    solve_eq [OF assms(2) quintic_no_kernel [OF assms(1)], of 1 "\<lambda>i. if i = 0 then xe - xs - vxs * T - axs / 2 * T * T
        else if i = 1 then vxe - vxs - 2 * (axs / 2) * T else axe - 2 * (axs / 2)"]
    solve_eq [OF assms(2) quintic_no_kernel [OF assms(1)], of 2 "\<lambda>i. if i = 0 then xe - xs - vxs * T - axs / 2 * T * T
        else if i = 1 then vxe - vxs - 2 * (axs / 2) * T else axe - 2 * (axs / 2)"]
  unfolding mat_vec_3 [of "quintic_A T"] q_def QuinticPolynomial_ctor_def Let_def
  by (simp_all add: quintic_A_def)

lemma quartic_rows:
  fixes xs vxs axs xe vxe axe :: real
  assumes "T \<noteq> 0" and "eigen_inverts E 2 (quartic_A T)"
  defines "q \<equiv> QuarticPolynomial_ctor E xs vxs axs vxe axe T"
  shows "3 * T * T * q4_x3 q + 4 * T * T * T * q4_x4 q = vxe - vxs - axs * T"
    and "6 * T * q4_x3 q + 12 * T * T * q4_x4 q = axe - axs"
  using solve_eq [OF assms(2) quartic_no_kernel [OF assms(1)], of 0 "\<lambda>i. if i = 0 then vxe - vxs - 2 * (axs / 2) * T else axe - 2 * (axs / 2)"]
    solve_eq [OF assms(2) quartic_no_kernel [OF assms(1)], of 1 "\<lambda>i. if i = 0 then vxe - vxs - 2 * (axs / 2) * T else axe - 2 * (axs / 2)"]
  unfolding mat_vec_2 [of "quartic_A T"] q_def QuarticPolynomial_ctor_def Let_def
  by (simp_all add: quartic_A_def)

text \<open>
  The candidate motions start from the vehicle's present state and reach the sampled goal:
  for a time other than 0, the lateral polynomial has the given position, speed and
  acceleration at both ends, and the longitudinal one at the start, and the given speed and
  acceleration at the end.
\<close>

theorem polynomials_meet_boundary:
  assumes "T \<noteq> 0" and "eigen_inverts E 3 (quintic_A T)" and "eigen_inverts E 2 (quartic_A T)"
  shows "(let q = QuinticPolynomial_ctor E xs vxs axs xe vxe axe T in
        q5_Point q 0 = xs \<and> q5_First q 0 = vxs \<and> q5_Second q 0 = axs
        \<and> q5_Point q T = xe \<and> q5_First q T = vxe \<and> q5_Second q T = axe)
    \<and> (let q = QuarticPolynomial_ctor E xs vxs axs vxe axe T in
        q4_Point q 0 = xs \<and> q4_First q 0 = vxs \<and> q4_Second q 0 = axs
        \<and> q4_First q T = vxe \<and> q4_Second q T = axe)"
proof -
  let ?q = "QuinticPolynomial_ctor E xs vxs axs xe vxe axe T" and ?r = "QuarticPolynomial_ctor E xs vxs axs vxe axe T"
  have f: "q5_x0 ?q = xs" "q5_x1 ?q = vxs" "q5_x2 ?q = axs / 2" "q4_x0 ?r = xs" "q4_x1 ?r = vxs" "q4_x2 ?r = axs / 2"
    by (simp_all add: QuinticPolynomial_ctor_def QuarticPolynomial_ctor_def Let_def)
  have "q5_Point ?q T = xe" "q5_First ?q T = vxe" "q5_Second ?q T = axe"
    using quintic_rows [OF assms(1,2), of xs vxs axs xe vxe axe]
    unfolding q5_Point_def q5_First_def q5_Second_def f by (simp_all add: algebra_simps)
  moreover have "q4_First ?r T = vxe" "q4_Second ?r T = axe"
    using quartic_rows [OF assms(1,3), of xs vxs axs vxe axe]
    unfolding q4_First_def q4_Second_def f by (simp_all add: algebra_simps)
  moreover have "q5_Point ?q 0 = xs" "q5_First ?q 0 = vxs" "q5_Second ?q 0 = axs"
    "q4_Point ?r 0 = xs" "q4_First ?r 0 = vxs" "q4_Second ?r 0 = axs"
    unfolding q5_Point_def q5_First_def q5_Second_def q4_Point_def q4_First_def q4_Second_def f by simp_all
  ultimately show ?thesis by (simp add: Let_def)
qed

text \<open>The two inverses for the time 1.\<close>

definition unit_inverse :: "nat \<Rightarrow> matrix \<Rightarrow> matrix" where
  "unit_inverse n M i j =
     (if n = 2 then [[1, - (1 / 3)], [- (1 / 2), 1 / 4]] ! i ! j
      else [[10, - 4, 1 / 2], [- 15, 7, - 1], [6, - 3, 1 / 2]] ! i ! j)"

definition unit_eigen :: EigenOps where
  "unit_eigen = \<lparr>eg_inverse = unit_inverse, eg_rotate = (\<lambda>q v. v)\<rparr>"

lemma sum_less_2: "(\<Sum>i<(2 :: nat). f i) = f 0 + (f 1 :: real)"
  by (simp add: eval_nat_numeral)

lemma unit_inverts: "eigen_inverts unit_eigen 3 (quintic_A 1)" "eigen_inverts unit_eigen 2 (quartic_A 1)"
proof -
  have "is_right_inverse 3 (quintic_A 1) (unit_inverse 3 (quintic_A 1))"
    unfolding is_right_inverse_def all_less_3 sum_less_3 by (simp add: quintic_A_def unit_inverse_def eval_nat_numeral)
  then show "eigen_inverts unit_eigen 3 (quintic_A 1)" by (simp add: eigen_inverts_def unit_eigen_def)
  have "is_right_inverse 2 (quartic_A 1) (unit_inverse 2 (quartic_A 1))"
    unfolding is_right_inverse_def all_less_2 sum_less_2 by (simp add: quartic_A_def unit_inverse_def)
  then show "eigen_inverts unit_eigen 2 (quartic_A 1)" by (simp add: eigen_inverts_def unit_eigen_def)
qed

theorem polynomials_meet_boundary_witness:
  "q5_Point (QuinticPolynomial_ctor unit_eigen 0 1 0 5 0 0 1) 1 = 5
   \<and> q4_First (QuarticPolynomial_ctor unit_eigen 0 1 0 2 0 1) 1 = 2"
  using polynomials_meet_boundary [OF _ unit_inverts, of 0 1 0 5 0 0]
    polynomials_meet_boundary [OF _ unit_inverts, of 0 1 0 5 2 0] by (simp add: Let_def)

end
