(* ===== verification/FrenetPlanning.thy ===== *)
theory FrenetPlanning
  imports Frenet
begin

text \<open>
  What the local planner guarantees: its sampling loops end when their steps are positive, the
  path it keeps respects every limit and is the cheapest of those that do, and its collision
  test is the crossing of segments - which misses an obstacle that contains the path.
\<close>

section \<open>Runs that end\<close>

text \<open>A loop whose variable grows and whose condition bounds it ends, if every body returns.\<close>

lemma for_loop_returns:
  assumes "0 < dx" and "\<And>x. p x \<Longrightarrow> x \<le> b"
    and "\<And>x. x0 \<le> x \<Longrightarrow> p x \<Longrightarrow> \<exists>ys. body x = Some (Inr ys) \<and> (\<forall>y\<in>set ys. P y) \<and> ys \<noteq> []"
  shows "\<exists>ys. for_loop p dx body x0 = Some (Inr ys) \<and> (\<forall>y\<in>set ys. P y) \<and> (p x0 \<longrightarrow> ys \<noteq> [])"
  using assms(3)
proof (induction "nat (\<lceil>(b - x0) / dx\<rceil> + 1)" arbitrary: x0 rule: less_induct)
  case less
  show ?case
  proof (cases "p x0")
    case True
    obtain ys where ys: "body x0 = Some (Inr ys)" "\<forall>y\<in>set ys. P y" "ys \<noteq> []" using less.prems [of x0] True by auto
    have "(b - (x0 + dx)) / dx = (b - x0) / dx - 1" using assms(1) by (simp add: field_simps)
    then have "\<lceil>(b - (x0 + dx)) / dx\<rceil> = \<lceil>(b - x0) / dx\<rceil> - 1" by simp
    moreover have "0 \<le> \<lceil>(b - x0) / dx\<rceil>"
      using assms(2) [OF True] assms(1) by (simp add: order.strict_trans2 [of "-1" 0])
    ultimately have "nat (\<lceil>(b - (x0 + dx)) / dx\<rceil> + 1) < nat (\<lceil>(b - x0) / dx\<rceil> + 1)" by linarith
    from less.hyps [OF this] less.prems assms(1)
    obtain zs where "for_loop p dx body (x0 + dx) = Some (Inr zs)" "\<forall>y\<in>set zs. P y" by force
    then show ?thesis using True ys by (subst for_loop.simps) auto
  next
    case False
    then show ?thesis by (subst for_loop.simps) simp
  qed
qed

lemma sample_times_return:
  assumes "0 < fr_dt ps" and "0 < ti"
  obtains ts where "sample_times ps ti = Some (Inr ts)" and "ts \<noteq> []"
proof -
  have "\<exists>ts. sample_times ps ti = Some (Inr ts) \<and> (\<forall>t\<in>set ts. True) \<and> (0 < ti \<longrightarrow> ts \<noteq> [])"
    unfolding sample_times_def by (rule for_loop_returns [where b = ti]) (use assms in auto)
  then show ?thesis using that assms by blast
qed

lemma speed_loop_returns:
  assumes "0 < fr_d_target_speed ps" and "0 \<le> fr_n_speed_sample ps"
    and "\<And>tv. \<exists>ys. body tv = Some (Inr ys) \<and> (\<forall>y\<in>set ys. P y) \<and> ys \<noteq> []"
  obtains ys where "speed_loop ps body = Some (Inr ys)" and "\<forall>y\<in>set ys. P y" and "ys \<noteq> []"
proof -
  have "0 \<le> fr_d_target_speed ps * of_int (fr_n_speed_sample ps)" using assms(1,2) by simp
  then have "fr_target_speed ps - fr_d_target_speed ps * of_int (fr_n_speed_sample ps)
      \<le> fr_target_speed ps + fr_d_target_speed ps * of_int (fr_n_speed_sample ps)" by linarith
  moreover have "\<exists>ys. speed_loop ps body = Some (Inr ys) \<and> (\<forall>y\<in>set ys. P y)
    \<and> (fr_target_speed ps - fr_d_target_speed ps * of_int (fr_n_speed_sample ps)
      \<le> fr_target_speed ps + fr_d_target_speed ps * of_int (fr_n_speed_sample ps) \<longrightarrow> ys \<noteq> [])"
    unfolding speed_loop_def by (rule for_loop_returns [OF assms(1)], assumption, rule assms(3))
  ultimately show ?thesis using that by blast
qed

text \<open>The shape of a candidate: its vectors have one length, which is not 0.\<close>

definition candidate_ok :: "FrenetPath \<Rightarrow> bool" where
  "candidate_ok fp \<longleftrightarrow> f_s fp \<noteq> [] \<and> length (f_d fp) = length (f_s fp) \<and> length (f_d_s fp) = length (f_s fp)
     \<and> length (f_dd_s fp) = length (f_s fp) \<and> f_path fp = []"

lemma frenet_candidate_returns:
  assumes "ts \<noteq> []"
  obtains fp where "frenet_candidate E ps st di ti ts tv = Inr fp" and "candidate_ok fp"
  using assms by (simp add: frenet_candidate_def Let_def vec_back_def candidate_ok_def)

lemma candidates_at_return:
  assumes "0 < fr_dt ps" and "0 < fr_d_target_speed ps" and "0 \<le> fr_n_speed_sample ps" and "0 < ti"
  shows "\<exists>ys. candidates_at E ps st di ti = Some (Inr ys) \<and> (\<forall>fp\<in>set ys. candidate_ok fp) \<and> ys \<noteq> []"
proof -
  obtain ts where ts: "sample_times ps ti = Some (Inr ts)" "ts \<noteq> []" using sample_times_return assms by blast
  have "\<exists>ys. Some (sbind (frenet_candidate E ps st di ti ts tv) (\<lambda>fp. Inr [fp])) = Some (Inr ys)
      \<and> (\<forall>fp\<in>set ys. candidate_ok fp) \<and> ys \<noteq> []" for tv
    by (rule frenet_candidate_returns [OF ts(2), of E ps st di ti tv]) simp
  then obtain ys where "speed_loop ps (\<lambda>tv. Some (sbind (frenet_candidate E ps st di ti ts tv) (\<lambda>fp. Inr [fp]))) = Some (Inr ys)"
    "\<forall>fp\<in>set ys. candidate_ok fp" "ys \<noteq> []"
    by (rule speed_loop_returns [OF assms(2,3)])
  moreover have "0 \<le> c_trunc (ti / fr_dt ps + 1)" using assms(1,4) by (intro c_trunc_ge) simp
  ultimately show ?thesis by (simp add: candidates_at_def reserve_def ts(1))
qed

text \<open>Parameters with which the loops end and take at least one step.\<close>

definition sampling_ok :: "FrenetParameters \<Rightarrow> bool" where
  "sampling_ok ps \<longleftrightarrow> 0 < fr_dt ps \<and> 0 < fr_d_road_width ps \<and> 0 < fr_d_target_speed ps \<and> 0 < fr_min_t ps
     \<and> fr_min_t ps \<le> fr_max_t ps \<and> 0 \<le> fr_max_road_width ps \<and> 0 \<le> fr_n_speed_sample ps"

lemma CalculateFrenetPaths_returns:
  assumes "sampling_ok ps"
  obtains cands where "CalculateFrenetPaths E ps st = Some (Inr cands)" and "\<forall>fp\<in>set cands. candidate_ok fp" and "cands \<noteq> []"
proof -
  note ok = assms [unfolded sampling_ok_def]
  let ?times = "\<lambda>di. for_loop (\<lambda>ti. ti \<le> fr_max_t ps) (fr_dt ps) (candidates_at E ps st di) (fr_min_t ps)"
  have t: "\<exists>ys. ?times di = Some (Inr ys) \<and> (\<forall>fp\<in>set ys. candidate_ok fp) \<and> ys \<noteq> []" for di
  proof -
    have "\<exists>ys. ?times di = Some (Inr ys) \<and> (\<forall>fp\<in>set ys. candidate_ok fp) \<and> (fr_min_t ps \<le> fr_max_t ps \<longrightarrow> ys \<noteq> [])"
      by (rule for_loop_returns [where b = "fr_max_t ps"]) (use ok in \<open>auto intro!: candidates_at_return\<close>)
    then show ?thesis using ok by blast
  qed
  have "\<exists>ys. for_loop (\<lambda>di. di \<le> fr_max_road_width ps) (fr_d_road_width ps) ?times (- fr_max_road_width ps) = Some (Inr ys)
      \<and> (\<forall>fp\<in>set ys. candidate_ok fp) \<and> (- fr_max_road_width ps \<le> fr_max_road_width ps \<longrightarrow> ys \<noteq> [])"
    by (rule for_loop_returns [where b = "fr_max_road_width ps"]) (use ok t in auto)
  moreover have "0 \<le> c_trunc (2 * fr_max_road_width ps + 1)" "0 \<le> c_trunc ((fr_max_t ps - fr_min_t ps) / fr_dt ps + 1)"
    using ok by (auto intro!: c_trunc_ge add_nonneg_nonneg divide_nonneg_pos)
  then have "0 \<le> c_trunc (2 * fr_max_road_width ps + 1) * c_trunc ((fr_max_t ps - fr_min_t ps) / fr_dt ps + 1)
      * (2 * fr_n_speed_sample ps + 1)" using ok by simp
  then have "reserve (c_trunc (2 * fr_max_road_width ps + 1) * c_trunc ((fr_max_t ps - fr_min_t ps) / fr_dt ps + 1)
      * (2 * fr_n_speed_sample ps + 1)) = Inr ()" unfolding reserve_def by simp
  ultimately show ?thesis using that ok
    by (auto simp: CalculateFrenetPaths_def Let_def)
qed

section \<open>Candidates in the plane\<close>

lemma find_interval_ok:
  assumes "path_ok cp"
  shows "0 \<le> i \<Longrightarrow> i + int k \<le> int (length (cp_path cp)) - 1 \<Longrightarrow> 0 \<le> best \<Longrightarrow> best < int (length (cp_path cp)) - 1 \<Longrightarrow>
    \<exists>j. find_interval (cp_spline cp) s i k best = Inr j \<and> 0 \<le> j \<and> j < int (length (cp_path cp)) - 1"
proof (induction k arbitrary: i best)
  case (Suc k)
  have "GetDistance (cp_spline cp) i = Inr (distances 0 (cp_path cp) ! nat i)"
    "GetDistance (cp_spline cp) (i + 1) = Inr (distances 0 (cp_path cp) ! nat (i + 1))"
    using path_ok_access(1) [OF assms] Suc.prems by simp_all
  then show ?case using Suc.IH [of "i + 1"] Suc.prems by simp
qed simp

lemma ReferencePointAt_ok:
  assumes "path_ok cp"
  shows "\<exists>r. ReferencePointAt s cp = Inr r"
proof -
  let ?n = "int (length (cp_path cp))"
  have n2: "2 \<le> length (cp_path cp)" "cp_path cp \<noteq> []" using assms by (auto simp: path_ok_def)
  note access = path_ok_access [OF assms]
  consider (last) "total_distance cp \<le> s" | (first) "\<not> total_distance cp \<le> s" "s \<le> 0"
    | (mid) "\<not> total_distance cp \<le> s" "\<not> s \<le> 0" by blast
  then show ?thesis
  proof cases
    case last
    obtain h where "CalculateHeading (cp_spline cp) (distances 0 (cp_path cp) ! nat (?n - 1)) (?n - 1 - 1) = Inr h"
      using access(5) [of "?n - 1 - 1"] n2 by auto
    moreover have "0 \<le> ?n - 1" "?n - 1 < ?n" using n2 by simp_all
    then obtain a where "vec_at (cp_path cp) (?n - 1) = Inr a" using access(3) by blast
    ultimately show ?thesis using last access(1) [of "?n - 1"] n2 by (simp add: ReferencePointAt_def)
  next
    case first
    obtain h where "CalculateHeading (cp_spline cp) 0 0 = Inr h" using access(5) [of 0] n2 by auto
    moreover obtain a where "vec_at (cp_path cp) 0 = Inr a" using access(3) [of 0] n2 by fastforce
    ultimately show ?thesis using first n2 by (simp add: ReferencePointAt_def)
  next
    case mid
    obtain j where j: "find_interval (cp_spline cp) s 0 (nat (?n - 1)) 0 = Inr j" "0 \<le> j" "j < ?n - 1"
      using find_interval_ok [OF assms, of 0 "nat (?n - 1)" 0 s] n2 by auto
    obtain p h c where "CalculatePosition (cp_spline cp) s j = Inr p" "CalculateHeading (cp_spline cp) s j = Inr h"
      "CalculateCurvature (cp_spline cp) s j = Inr c"
      using access(5,6,7) [of j s] j by metis
    then show ?thesis using mid j by (simp add: ReferencePointAt_def)
  qed
qed

lemma global_points_ok:
  assumes "path_ok gp"
  shows "0 \<le> j \<Longrightarrow> j + int (length ss) \<le> int (length ds) \<Longrightarrow> \<exists>ps. global_points gp ds ss j = Inr ps"
proof (induction ss arbitrary: j)
  case (Cons s ss)
  obtain r where "ReferencePointAt s gp = Inr r" using ReferencePointAt_ok [OF assms] by blast
  moreover obtain d where "vec_at ds j = Inr d" using Cons.prems by (simp add: vec_at_def)
  ultimately show ?case using Cons.IH [of "j + 1"] Cons.prems by auto
qed simp

lemma to_global_ok:
  assumes "path_ok gp" and "candidate_ok fp"
  shows "\<exists>fp'. to_global gp fp = Inr fp'"
  using global_points_ok [OF assms(1), of 0 "f_s fp" "f_d fp"] assms(2)
  by (auto simp: to_global_def candidate_ok_def Let_def)

lemma CalculateGlobalPaths_ok:
  assumes "path_ok gp" and "\<forall>fp\<in>set cands. candidate_ok fp"
  shows "\<exists>fps. CalculateGlobalPaths gp cands = Inr fps"
  using assms(2) unfolding CalculateGlobalPaths_def
  by (induction cands) (auto dest!: to_global_ok [OF assms(1)])

lemma ComputeCurrentFrenetState_ok:
  assumes "path_ok gp"
  obtains gp' fs where "ComputeCurrentFrenetState gp st = Inr (gp', fs)" and "path_ok gp'" and "cp_path gp' = cp_path gp"
proof -
  obtain gp' r where "ReferencePoint (v3_x (st_pos st), v3_y (st_pos st)) gp = Inr (gp', r)" "path_ok gp'" "cp_path gp' = cp_path gp"
    by (rule ReferencePoint_ok [OF assms])
  then show ?thesis using that by (simp add: ComputeCurrentFrenetState_def Let_def)
qed

section \<open>The path that is kept\<close>

lemma cheapest_in: "cheapest best fps \<in> insert best (set fps)"
  by (induction best fps rule: cheapest.induct) auto

lemma cheapest_least: "fp \<in> insert best (set fps) \<Longrightarrow> f_cf (cheapest best fps) \<le> f_cf fp"
proof (induction best fps arbitrary: fp rule: cheapest.induct)
  case (2 best g gs)
  show ?case
  proof (cases "f_cf best \<ge> f_cf g")
    case True
    then show ?thesis using 2(1) [OF True, of fp] 2(1) [OF True, of g] 2(3) by auto
  next
    case False
    then show ?thesis using 2(2) [OF False, of fp] 2(2) [OF False, of best] 2(3) by auto
  qed
qed simp

text \<open>What \<open>CheckPaths\<close> asks of a path.\<close>

definition admissible :: "FrenetParameters \<Rightarrow> PlanBox list \<Rightarrow> FrenetPath \<Rightarrow> bool" where
  "admissible ps boxes fp \<longleftrightarrow> 2 \<le> length (f_path fp) \<and> (\<forall>v\<in>set (f_d_s fp). v \<le> fr_max_speed ps)
     \<and> (\<forall>a\<in>set (f_dd_s fp). \<bar>a\<bar> \<le> fr_max_accel ps) \<and> (\<forall>c\<in>set (f_c fp). \<bar>c\<bar> \<le> fr_max_curvature ps)
     \<and> \<not> CheckPathCollision ps (f_path fp) boxes"

lemma no_boxes_no_collision: "\<not> CheckPathCollision ps path []"
  by (auto simp: CheckPathCollision_def list_ex_iff)

lemma CheckPaths_admissible: "CheckPaths ps boxes fps = filter (admissible ps boxes) fps"
proof (cases boxes)
  case Nil
  then show ?thesis
    unfolding CheckPaths_def CheckCollision_def Let_def filter_filter
    by (auto simp: admissible_def list_ex_iff no_boxes_no_collision not_less not_le intro!: filter_cong)
next
  case (Cons b bs)
  then show ?thesis
    unfolding CheckPaths_def CheckCollision_def Let_def
    by (auto simp: admissible_def list_ex_iff not_less not_le intro!: filter_cong)
qed

lemma Planning_eq_Inr:
  assumes "Planning E st gp fo = Some (Inr (gp', fo'))"
  obtains fs cands fps where "ComputeCurrentFrenetState gp st = Inr (gp', fs)"
    and "CalculateFrenetPaths E (fo_parameters fo) fs = Some (Inr cands)" and "CalculateGlobalPaths gp' cands = Inr fps"
    and "fo' = choose_path (CheckPaths (fo_parameters fo) (fo_boxes fo) fps) fo"
  using assms by (auto simp: Planning_def rbind_eq_Inr)

lemma Planning_returns:
  assumes "path_ok gp" and "sampling_ok (fo_parameters fo)"
  obtains gp' fo' where "Planning E st gp fo = Some (Inr (gp', fo'))" and "path_ok gp'" and "cp_path gp' = cp_path gp"
proof -
  obtain gp' fs where 1: "ComputeCurrentFrenetState gp st = Inr (gp', fs)" "path_ok gp'" "cp_path gp' = cp_path gp"
    by (rule ComputeCurrentFrenetState_ok [OF assms(1)])
  obtain cands where 2: "CalculateFrenetPaths E (fo_parameters fo) fs = Some (Inr cands)" "\<forall>fp\<in>set cands. candidate_ok fp"
    by (rule CalculateFrenetPaths_returns [OF assms(2)])
  obtain fps where 3: "CalculateGlobalPaths gp' cands = Inr fps" using CalculateGlobalPaths_ok [OF 1(2) 2(2)] by blast
  show ?thesis using that 1 2 3 by (simp add: Planning_def)
qed


definition example_sampling :: FrenetParameters where
  "example_sampling = frenet_defaults\<lparr>fr_max_speed := 3, fr_max_accel := 2, fr_max_curvature := 1,
     fr_max_road_width := 1, fr_d_road_width := 1, fr_dt := 1 / 5, fr_max_t := 5, fr_min_t := 4,
     fr_target_speed := 2, fr_d_target_speed := 1 / 2, fr_n_speed_sample := 1\<rparr>"

lemma example_sampling_ok: "sampling_ok example_sampling"
  by (simp add: sampling_ok_def example_sampling_def frenet_defaults_def)

definition example_state :: State where
  "example_state = \<lparr>st_timestamp = 0, st_pos = \<lparr>v3_x = 0, v3_y = 0, v3_z = 0\<rparr>, st_vel = \<lparr>v3_x = 1, v3_y = 0, v3_z = 0\<rparr>,
     st_quat = \<lparr>q_w = 1, q_x = 0, q_y = 0, q_z = 0\<rparr>, st_accel = \<lparr>v3_x = 0, v3_y = 0, v3_z = 0\<rparr>,
     st_ang_vel = \<lparr>v3_x = 0, v3_y = 0, v3_z = 0\<rparr>\<rparr>"


section \<open>The collision test\<close>

definition point_on :: "Point \<Rightarrow> Point \<Rightarrow> real \<Rightarrow> Point" where
  "point_on p q t = (fst p + t * (fst q - fst p), snd p + t * (snd q - snd p))"

lemma two_by_two:
  assumes "a * d - b * c \<noteq> (0 :: real)"
  shows "(x * a - y * c = m \<and> x * b - y * d = n) \<longleftrightarrow>
    x = (d * m - c * n) / (a * d - b * c) \<and> y = (b * m - a * n) / (a * d - b * c)"
proof -
  let ?D = "a * d - b * c"
  have "(x = (d * m - c * n) / ?D \<and> y = (b * m - a * n) / ?D) \<longleftrightarrow> x * ?D = d * m - c * n \<and> y * ?D = b * m - a * n"
    using assms by (simp add: eq_divide_eq)
  also have "\<dots> \<longleftrightarrow> x * a - y * c = m \<and> x * b - y * d = n"
  proof
    assume h: "x * ?D = d * m - c * n \<and> y * ?D = b * m - a * n"
    have "?D * (x * a - y * c - m) = a * (x * ?D) - c * (y * ?D) - ?D * m" by (simp add: algebra_simps)
    also have "\<dots> = 0" unfolding h [THEN conjunct1] h [THEN conjunct2] by (simp add: algebra_simps)
    finally have 1: "x * a - y * c = m" using assms by simp
    have "?D * (x * b - y * d - n) = b * (x * ?D) - d * (y * ?D) - ?D * n" by (simp add: algebra_simps)
    also have "\<dots> = 0" unfolding h [THEN conjunct1] h [THEN conjunct2] by (simp add: algebra_simps)
    finally have "x * b - y * d = n" using assms by simp
    with 1 show "x * a - y * c = m \<and> x * b - y * d = n" ..
  next
    assume "x * a - y * c = m \<and> x * b - y * d = n"
    then have m: "m = x * a - y * c" and n: "n = x * b - y * d" by simp_all
    show "x * ?D = d * m - c * n \<and> y * ?D = b * m - a * n" unfolding m n by (simp add: algebra_simps)
  qed
  finally show ?thesis ..
qed

lemma point_on_eq_iff:
  assumes "Cross (minus_pt p1 p0) (minus_pt q1 q0) \<noteq> 0"
  shows "point_on p0 p1 x = point_on q0 q1 y \<longleftrightarrow>
    x = Cross (minus_pt q0 p0) (minus_pt q1 q0) / Cross (minus_pt p1 p0) (minus_pt q1 q0)
    \<and> y = Cross (minus_pt q0 p0) (minus_pt p1 p0) / Cross (minus_pt p1 p0) (minus_pt q1 q0)"
proof -
  define a b c d m n where "a = fst p1 - fst p0" and "b = snd p1 - snd p0" and "c = fst q1 - fst q0" and "d = snd q1 - snd q0"
    and "m = fst q0 - fst p0" and "n = snd q0 - snd p0"
  have D: "a * d - b * c \<noteq> 0" using assms by (simp add: Cross_def minus_pt_def a_def b_def c_def d_def)
  have "point_on p0 p1 x = point_on q0 q1 y \<longleftrightarrow> x * a - y * c = m \<and> x * b - y * d = n"
    by (auto simp: point_on_def a_def b_def c_def d_def m_def n_def)
  also have "\<dots> \<longleftrightarrow> x = (d * m - c * n) / (a * d - b * c) \<and> y = (b * m - a * n) / (a * d - b * c)"
    by (rule two_by_two [OF D])
  finally show ?thesis by (simp add: Cross_def minus_pt_def a_def b_def c_def d_def m_def n_def mult.commute)
qed

lemma zip_tl_set: "(p, q) \<in> set (zip ps (tl ps)) \<Longrightarrow> p \<in> set ps \<and> q \<in> set ps"
  by (cases ps) (auto dest: set_zip_leftD set_zip_rightD)

lemma DoIntersect_iff:
  "DoIntersect p0 p1 q0 q1 \<longleftrightarrow> 1 / 10 ^ 9 \<le> \<bar>Cross (minus_pt p1 p0) (minus_pt q1 q0)\<bar>
     \<and> (\<exists>x y. 0 \<le> x \<and> x \<le> 1 \<and> 0 \<le> y \<and> y \<le> 1 \<and> point_on p0 p1 x = point_on q0 q1 y)"
proof (cases "\<bar>Cross (minus_pt p1 p0) (minus_pt q1 q0)\<bar> < 1 / 10 ^ 9")
  case False
  then have "Cross (minus_pt p1 p0) (minus_pt q1 q0) \<noteq> 0" by auto
  from point_on_eq_iff [OF this] False show ?thesis
    by (auto simp: DoIntersect_def Let_def)
qed (simp add: DoIntersect_def)

text \<open>
  The segment test answers yes exactly when the two segments share a point and are not
  almost parallel (a cross product below 1e-9).  As the collision test compares the path with
  the edges of the inflated boxes only, a path that lies inside a box, with the obstacle all
  around it, is not a collision.
\<close>

theorem collision_is_edge_crossing:
  assumes "1 / 10 ^ 9 \<le> \<bar>Cross (minus_pt p1 p0) (minus_pt q1 q0)\<bar>"
    and "\<forall>p\<in>set path. x_min (with_margin ps b) < fst p \<and> fst p < x_max (with_margin ps b)
      \<and> y_min (with_margin ps b) < snd p \<and> snd p < y_max (with_margin ps b)"
  shows "(DoIntersect p0 p1 q0 q1 \<longleftrightarrow>
      (\<exists>x y. 0 \<le> x \<and> x \<le> 1 \<and> 0 \<le> y \<and> y \<le> 1
        \<and> fst p0 + x * (fst p1 - fst p0) = fst q0 + y * (fst q1 - fst q0)
        \<and> snd p0 + x * (snd p1 - snd p0) = snd q0 + y * (snd q1 - snd q0)))
    \<and> \<not> CheckPathCollision ps path [b]"
proof
  show "DoIntersect p0 p1 q0 q1 \<longleftrightarrow>
      (\<exists>x y. 0 \<le> x \<and> x \<le> 1 \<and> 0 \<le> y \<and> y \<le> 1
        \<and> fst p0 + x * (fst p1 - fst p0) = fst q0 + y * (fst q1 - fst q0)
        \<and> snd p0 + x * (snd p1 - snd p0) = snd q0 + y * (snd q1 - snd q0))"
    using assms(1) by (simp add: DoIntersect_iff point_on_def)
  let ?b = "with_margin ps b"
  have between: "l < u + t * (v - u) \<and> u + t * (v - u) < h"
    if "l < u" "u < h" "l < v" "v < h" "0 \<le> t" "t \<le> 1" for l h u v t :: real
  proof -
    have "(1 - t) * l + t * l < (1 - t) * u + t * v" "(1 - t) * u + t * v < (1 - t) * h + t * h"
      using that by (cases "t = 0"; cases "t = 1"; intro add_less_le_mono add_le_less_mono mult_strict_left_mono mult_left_mono; simp)+
    then show ?thesis by (simp add: algebra_simps)
  qed
  have "\<not> DoIntersect p q e f" if "p \<in> set path" "q \<in> set path" "(e, f) \<in> set (GetBoxEdges ?b)" for p q e f
  proof
    assume "DoIntersect p q e f"
    then obtain x y where xy: "0 \<le> x" "x \<le> 1" "0 \<le> y" "y \<le> 1" "point_on p q x = point_on e f y"
      by (auto simp: DoIntersect_iff)
    have 1: "x_min ?b < fst (point_on p q x) \<and> fst (point_on p q x) < x_max ?b"
      using between [of "x_min ?b" "fst p" "x_max ?b" "fst q" x] assms(2) that xy by (simp add: point_on_def)
    have 2: "y_min ?b < snd (point_on p q x) \<and> snd (point_on p q x) < y_max ?b"
      using between [of "y_min ?b" "snd p" "y_max ?b" "snd q" x] assms(2) that xy by (simp add: point_on_def)
    have "fst (point_on e f y) = x_min ?b \<or> fst (point_on e f y) = x_max ?b
        \<or> snd (point_on e f y) = y_min ?b \<or> snd (point_on e f y) = y_max ?b"
      using that(3) by (auto simp: GetBoxEdges_def point_on_def)
    then show False using 1 2 xy(5) by auto
  qed
  then show "\<not> CheckPathCollision ps path [b]"
    by (auto simp: CheckPathCollision_def list_ex_iff dest: zip_tl_set)
qed

theorem collision_is_edge_crossing_witness:
  "\<not> CheckPathCollision frenet_defaults [(1, 1), (2, 1)] [\<lparr>x_min = 0, x_max = 4, y_min = 0, y_max = 4\<rparr>]
   \<and> DoIntersect (0, 0) (2, 2) (0, 2) (2, 0)"
proof -
  have a: "1 / 10 ^ 9 \<le> \<bar>Cross (minus_pt (2, 2) (0, 0)) (minus_pt (2, 0) (0, 2))\<bar>"
    by (simp add: Cross_def minus_pt_def)
  have b: "\<forall>p\<in>set [(1, 1), (2, 1)]. x_min (with_margin frenet_defaults \<lparr>x_min = 0, x_max = 4, y_min = 0, y_max = 4\<rparr>) < fst p
      \<and> fst p < x_max (with_margin frenet_defaults \<lparr>x_min = 0, x_max = 4, y_min = 0, y_max = 4\<rparr>)
      \<and> y_min (with_margin frenet_defaults \<lparr>x_min = 0, x_max = 4, y_min = 0, y_max = 4\<rparr>) < snd p
      \<and> snd p < y_max (with_margin frenet_defaults \<lparr>x_min = 0, x_max = 4, y_min = 0, y_max = 4\<rparr>)"
    by (simp add: with_margin_def frenet_defaults_def)
  have "\<exists>x y. 0 \<le> x \<and> x \<le> 1 \<and> 0 \<le> y \<and> y \<le> (1 :: real) \<and> 0 + x * (2 - 0) = 0 + y * (2 - 0) \<and> 0 + x * (2 - 0) = 2 + y * (0 - 2)"
    by (rule exI [of _ "1 / 2"], rule exI [of _ "1 / 2"]) simp
  then show ?thesis
    using collision_is_edge_crossing [OF a b] by simp
qed

end
