(* ===== verification/Planning.thy ===== *)
theory Planning
  imports FrenetPlanning
begin

text \<open>
  The motion controller (\<open>planning_control.cpp\<close>): it owns the global path and the local planner,
  and turns the vehicle's state into a speed and a steering command by following the local
  path with a pure-pursuit law and a braking profile towards the end of the global path.
\<close>

section \<open>The controller\<close>

record PurePursuitParameters =
  min_look_ahead_distance :: real
  look_ahead_distance :: real

record ControlParameters =
  goal_reach_threshold :: real
  accel :: real
  decel :: real
  control_dt :: real
  pure_pursuit :: PurePursuitParameters

record PlanParameters =
  wheelbase :: real
  max_steering :: real
  target_speed :: real
  control :: ControlParameters
  frenet :: FrenetParameters

text \<open>The default member initialisers.\<close>

definition plan_defaults :: PlanParameters where
  "plan_defaults =
     \<lparr>wheelbase = 0, max_steering = 0, target_speed = 0,
      control = \<lparr>goal_reach_threshold = 3 / 10, accel = 0, decel = 0, control_dt = 0,
        pure_pursuit = \<lparr>min_look_ahead_distance = 3 / 10, look_ahead_distance = 3 / 10\<rparr>\<rparr>,
      frenet = frenet_defaults\<rparr>"

record MotionCommand =
  cc_speed :: real
  cc_steering_angle :: real

definition zero_command :: MotionCommand where
  "zero_command = \<lparr>cc_speed = 0, cc_steering_angle = 0\<rparr>"

record PlanningControl =
  pc_parameters :: PlanParameters
  look_ahead_distance_squared :: real
  goal_reach_threshold_squared :: real
  current_target_speed :: real
  goal :: Point
  look_ahead_point :: Point
  got_global_path :: bool
  current_state :: State
  global_path :: "CubicSplinePath option"
  local_path :: "CubicSplinePath option"
  frenet_optimal_path :: FrenetOptimalPath
  pc_frenet_path :: FrenetPath

text \<open>\<open>goal_\<close> and \<open>current_state_\<close> are not initialised: their first values are arguments.\<close>

definition PlanningControl_ctor :: "Point \<Rightarrow> State \<Rightarrow> PlanParameters \<Rightarrow> PlanningControl" where
  "PlanningControl_ctor g0 st0 ps =
     (let ps' = ps\<lparr>frenet := frenet ps\<lparr>fr_target_speed := target_speed ps\<rparr>\<rparr>
      in \<lparr>pc_parameters = ps',
          look_ahead_distance_squared = look_ahead_distance (pure_pursuit (control ps)) * look_ahead_distance (pure_pursuit (control ps)),
          goal_reach_threshold_squared = goal_reach_threshold (control ps) * goal_reach_threshold (control ps),
          current_target_speed = 0, goal = g0, look_ahead_point = (0, 0), got_global_path = False, current_state = st0,
          global_path = None, local_path = None,
          frenet_optimal_path = FrenetOptimalPath_ctor (frenet ps'), pc_frenet_path = empty_path\<rparr>)"

text \<open>Following a null pointer is undefined behaviour.\<close>

definition deref :: "'a option \<Rightarrow> exn + 'a" where
  "deref p = (case p of None \<Rightarrow> Inl Bad_index | Some x \<Rightarrow> Inr x)"

definition SetGlobalPath :: "EigenOps \<Rightarrow> Point list \<Rightarrow> PlanningControl \<Rightarrow> exn + PlanningControl" where
  "SetGlobalPath E path pc0 =
     (let pc = pc0\<lparr>global_path := None, got_global_path := False\<rparr>
      in if length path < 2 then Inr pc
         else sbind (CubicSplinePath_ctor E path) (\<lambda>gp.
           Inr (pc\<lparr>goal := last path, global_path := Some gp, got_global_path := IsPathGenerated gp\<rparr>)))"

definition SetCurrentTargetSpeed :: "real \<Rightarrow> PlanningControl \<Rightarrow> PlanningControl" where
  "SetCurrentTargetSpeed speed pc = pc\<lparr>current_target_speed := speed\<rparr>"

definition SetCurrentState :: "State \<Rightarrow> PlanningControl \<Rightarrow> PlanningControl" where
  "SetCurrentState st pc = pc\<lparr>current_state := st\<rparr>"

definition SetBoundingBoxes :: "PlanBox list \<Rightarrow> PlanningControl \<Rightarrow> PlanningControl" where
  "SetBoundingBoxes bs pc = pc\<lparr>frenet_optimal_path := fo_SetBoundingBoxes bs (frenet_optimal_path pc)\<rparr>"

definition PlanOnce :: "EigenOps \<Rightarrow> PlanningControl \<Rightarrow> PlanningControl run" where
  "PlanOnce E pc =
     (if \<not> got_global_path pc then Some (Inr pc)
      else rbind (Some (deref (global_path pc))) (\<lambda>gp.
           rbind (Planning E (current_state pc) gp (frenet_optimal_path pc)) (\<lambda>(gp', fo).
             Some (Inr (pc\<lparr>global_path := Some gp', frenet_optimal_path := fo\<rparr>)))))"

definition st_xy :: "State \<Rightarrow> Point" where
  "st_xy st = (v3_x (st_pos st), v3_y (st_pos st))"

definition GoalReached :: "State \<Rightarrow> PlanningControl \<Rightarrow> bool" where
  "GoalReached st pc \<longleftrightarrow> squaredNorm (minus_pt (st_xy st) (goal pc)) < goal_reach_threshold_squared pc"

definition CalcSpeedCommand :: "State \<Rightarrow> real \<Rightarrow> PlanningControl \<Rightarrow> exn + PlanningControl \<times> real" where
  "CalcSpeedCommand st target pc =
     sbind (deref (global_path pc)) (\<lambda>gp. sbind (GetRemainDistance (st_xy st) gp) (\<lambda>d.
       let cp = control (pc_parameters pc);
           remain_distance = max 0 d;
           stop_distance = (target * target) / (2 * decel cp);
           v = current_target_speed pc;
           v' = (if remain_distance < stop_distance then sqrt (2 * decel cp * remain_distance)
                 else if v < target then
                   (let w = v + accel cp * control_dt cp in if w > target then target else w)
                 else if v > target then
                   (let w = v - decel cp * control_dt cp in if w < 0 then 0 else w)
                 else v)
       in Inr (pc\<lparr>current_target_speed := v'\<rparr>, v')))"

definition FindLookAheadPoint :: "State \<Rightarrow> PlanningControl \<Rightarrow> exn + PlanningControl \<times> bool" where
  "FindLookAheadPoint st pc =
     sbind (deref (local_path pc)) (\<lambda>lp.
     sbind (ReferencePoint (st_xy st) lp) (\<lambda>(lp1, ref).
       let L = look_ahead_distance (pure_pursuit (control (pc_parameters pc)));
           ahead = (fst (rf_point ref) + cos (rf_heading ref) * L, snd (rf_point ref) + sin (rf_heading ref) * L)
       in sbind (ReferencePoint ahead lp1) (\<lambda>(lp2, ref_ahead).
          Inr (pc\<lparr>local_path := Some lp2, look_ahead_point := rf_point ref_ahead\<rparr>, True))))"

definition GetCurrentHeading :: "EigenOps \<Rightarrow> State \<Rightarrow> real" where
  "GetCurrentHeading E st =
     (let direction = eg_rotate E (st_quat st) \<lparr>v3_x = 1, v3_y = 0, v3_z = 0\<rparr>
      in atan2 (v3_y direction) (v3_x direction))"

definition CalcHeadingError :: "EigenOps \<Rightarrow> State \<Rightarrow> PlanningControl \<Rightarrow> real" where
  "CalcHeadingError E st pc =
     (let target_vec = minus_pt (look_ahead_point pc) (st_xy st)
      in atan2 (snd target_vec) (fst target_vec) - GetCurrentHeading E st)"

definition CalcSteeringAngle :: "real \<Rightarrow> PlanningControl \<Rightarrow> real" where
  "CalcSteeringAngle heading_error pc =
     (let ps = pc_parameters pc;
          steering_angle = atan2 (2 * wheelbase ps * sin heading_error) (look_ahead_distance (pure_pursuit (control ps)))
      in std_clamp steering_angle (- max_steering ps) (max_steering ps))"

definition CalculateSteeringCommand :: "EigenOps \<Rightarrow> State \<Rightarrow> PlanningControl \<Rightarrow> exn + PlanningControl \<times> (bool \<times> real)" where
  "CalculateSteeringCommand E st pc =
     sbind (FindLookAheadPoint st pc) (\<lambda>(pc', found).
       Inr (pc', if \<not> found then (False, 0) else (True, CalcSteeringAngle (CalcHeadingError E st pc') pc')))"

definition GenerateMotionCommand :: "EigenOps \<Rightarrow> PlanningControl \<Rightarrow> exn + PlanningControl \<times> MotionCommand" where
  "GenerateMotionCommand E pc =
     (if \<not> got_global_path pc then Inr (pc, zero_command)
      else if GoalReached (current_state pc) pc then Inr (pc, zero_command)
      else
        let pc1 = pc\<lparr>pc_frenet_path := GetCurrentFrenetPath (frenet_optimal_path pc)\<rparr>
        in if \<not> fo_IsPathGenerated (frenet_optimal_path pc1) then Inr (pc1, zero_command)
        else sbind (CubicSplinePath_ctor E (f_path (pc_frenet_path pc1))) (\<lambda>lp.
          let pc2 = pc1\<lparr>local_path := Some lp\<rparr>
          in if \<not> IsPathGenerated lp then Inr (pc2, zero_command)
          else if length (f_d_s (pc_frenet_path pc2)) < 2 then Inr (pc2, zero_command)
          else sbind (vec_at (f_d_s (pc_frenet_path pc2)) 1) (\<lambda>target.
            sbind (CalcSpeedCommand (current_state pc2) target pc2) (\<lambda>(pc3, speed).
            if speed = 0 then Inr (pc3, zero_command)
            else sbind (CalculateSteeringCommand E (current_state pc3) pc3) (\<lambda>(pc4, (valid, angle)).
              if \<not> valid then Inr (pc4, zero_command)
              else Inr (pc4, \<lparr>cc_speed = speed, cc_steering_angle = angle\<rparr>))))))"

definition GetLookAheadPoint :: "PlanningControl \<Rightarrow> Point" where
  "GetLookAheadPoint pc = look_ahead_point pc"

definition GetCurrentLocalPath :: "PlanningControl \<Rightarrow> Point list" where
  "GetCurrentLocalPath pc = f_path (pc_frenet_path pc)"

section \<open>The speed command\<close>

lemma GetRemainDistance_ok:
  assumes "path_ok cp"
  shows "\<exists>d. GetRemainDistance position cp = Inr d"
proof -
  let ?n = "int (length (cp_path cp))"
  have i: "-1 \<le> current_path_idx cp" "current_path_idx cp < ?n" "2 \<le> length (cp_path cp)"
    using assms by (auto simp: path_ok_def)
  obtain j t where f: "FindPathIndexAndDeltaDistance cp position (current_path_idx cp) = Inr (j, t)"
    and "is_foot cp position j t" using search_ok [OF assms i(1,2), of position] by blast
  then have j: "-1 \<le> j" "j < ?n" using is_foot_range i(3) by blast+
  define k where "k = (if j = ?n - 1 then j - 1 else if j = -1 then 0 else j)"
  have k: "0 \<le> k" "k < ?n" using j i(3) by (auto simp: k_def)
  show ?thesis using f path_ok_access(1) [OF assms k] by (simp add: GetRemainDistance_def k_def [symmetric] Let_def)
qed

definition next_speed :: "ControlParameters \<Rightarrow> real \<Rightarrow> real \<Rightarrow> real \<Rightarrow> real" where
  "next_speed cp v target d =
     (if max 0 d < (target * target) / (2 * decel cp) then sqrt (2 * decel cp * max 0 d)
      else if v < target then min target (v + accel cp * control_dt cp)
      else if v > target then max 0 (v - decel cp * control_dt cp)
      else v)"

lemma CalcSpeedCommand_next:
  assumes "global_path pc = Some gp" and "GetRemainDistance (st_xy st) gp = Inr d"
  shows "CalcSpeedCommand st target pc =
    (let w = next_speed (control (pc_parameters pc)) (current_target_speed pc) target d
     in Inr (pc\<lparr>current_target_speed := w\<rparr>, w))"
  using assms by (simp add: CalcSpeedCommand_def deref_def Let_def next_speed_def min_def max_def not_less)

lemma next_speed_bounds:
  assumes "0 < decel cp" and "0 \<le> accel cp" and "0 \<le> control_dt cp" and "0 \<le> v"
  shows "0 \<le> next_speed cp v target d" and "next_speed cp v target d \<le> max v \<bar>target\<bar>"
    and "max 0 d < (target * target) / (2 * decel cp) \<Longrightarrow> (next_speed cp v target d)\<^sup>2 = 2 * decel cp * max 0 d"
    and "v \<le> target \<Longrightarrow> next_speed cp v target d \<le> target \<and> (next_speed cp v target d)\<^sup>2 \<le> 2 * decel cp * max 0 d"
proof -
  let ?w = "next_speed cp v target d" and ?r = "max 0 d"
  have a: "0 \<le> accel cp * control_dt cp" "0 \<le> decel cp * control_dt cp" "0 \<le> 2 * decel cp * ?r" using assms by simp_all
  show "max 0 d < (target * target) / (2 * decel cp) \<Longrightarrow> ?w\<^sup>2 = 2 * decel cp * ?r"
    using a(3) by (simp add: next_speed_def)
  have brake: "sqrt (2 * decel cp * r) \<le> \<bar>target\<bar>" if "r < (target * target) / (2 * decel cp)" for r
  proof -
    have "2 * decel cp * r \<le> target\<^sup>2" using that assms(1) by (simp add: pos_less_divide_eq power2_eq_square mult.commute)
    then show ?thesis using real_sqrt_le_mono by fastforce
  qed
  have coast: "target\<^sup>2 \<le> 2 * decel cp * r" if "\<not> r < (target * target) / (2 * decel cp)" for r
    using that assms(1) by (simp add: pos_divide_le_eq not_less power2_eq_square mult.commute)
  show "0 \<le> ?w" using a assms(4) by (auto simp: next_speed_def intro!: real_sqrt_ge_zero)
  show "?w \<le> max v \<bar>target\<bar>" using a assms(4) brake by (auto simp: next_speed_def le_max_iff_disj)
  assume v: "v \<le> target"
  have "?w \<le> target" using a assms(4) v brake by (auto simp: next_speed_def)
  moreover have "?w\<^sup>2 \<le> 2 * decel cp * ?r"
  proof (cases "?r < (target * target) / (2 * decel cp)")
    case True
    then show ?thesis using a(3) by (simp add: next_speed_def)
  next
    case False
    then have "target\<^sup>2 \<le> 2 * decel cp * ?r" by (rule coast)
    moreover have "?w\<^sup>2 \<le> target\<^sup>2" using \<open>0 \<le> ?w\<close> \<open>?w \<le> target\<close> by (simp add: power_mono)
    ultimately show ?thesis by simp
  qed
  ultimately show "?w \<le> target \<and> ?w\<^sup>2 \<le> 2 * decel cp * ?r" ..
qed

text \<open>
  The speed command is never negative and never above both the last command and the target's
  size.  Inside the stopping distance it is the speed from which the deceleration stops the
  car exactly at the end of the global path; as long as the last command is not above the
  target it is at most the target and always allows stopping before the end.  Above the
  target it falls by one deceleration step, which may take it below the target: only 0
  stops it there.
\<close>

theorem speed_command_profile:
  assumes "global_path pc = Some gp" and "GetRemainDistance (st_xy st) gp = Inr d"
    and "0 < decel (control (pc_parameters pc))" and "0 \<le> accel (control (pc_parameters pc))"
    and "0 \<le> control_dt (control (pc_parameters pc))" and "0 \<le> current_target_speed pc"
  shows "\<exists>w. CalcSpeedCommand st target pc = Inr (pc\<lparr>current_target_speed := w\<rparr>, w)
    \<and> 0 \<le> w \<and> w \<le> max (current_target_speed pc) \<bar>target\<bar>
    \<and> (max 0 d < (target * target) / (2 * decel (control (pc_parameters pc))) \<longrightarrow>
         w\<^sup>2 = 2 * decel (control (pc_parameters pc)) * max 0 d)
    \<and> (current_target_speed pc \<le> target \<longrightarrow> w \<le> target \<and> w\<^sup>2 \<le> 2 * decel (control (pc_parameters pc)) * max 0 d)
    \<and> (target < current_target_speed pc \<and> (target * target) / (2 * decel (control (pc_parameters pc))) \<le> max 0 d \<longrightarrow>
         w = max 0 (current_target_speed pc - decel (control (pc_parameters pc)) * control_dt (control (pc_parameters pc))))"
proof -
  let ?cp = "control (pc_parameters pc)" and ?v = "current_target_speed pc"
  let ?w = "next_speed ?cp ?v target d"
  have "CalcSpeedCommand st target pc = Inr (pc\<lparr>current_target_speed := ?w\<rparr>, ?w)"
    using CalcSpeedCommand_next [OF assms(1,2)] by (simp add: Let_def)
  moreover have "target < ?v \<and> (target * target) / (2 * decel ?cp) \<le> max 0 d \<longrightarrow> ?w = max 0 (?v - decel ?cp * control_dt ?cp)"
    by (auto simp: next_speed_def)
  ultimately show ?thesis using next_speed_bounds [OF assms(3-6)] by blast
qed

section \<open>The motion command\<close>

definition pc_ok :: "PlanningControl \<Rightarrow> bool" where
  "pc_ok pc \<longleftrightarrow> 0 < decel (control (pc_parameters pc)) \<and> 0 \<le> accel (control (pc_parameters pc))
     \<and> 0 \<le> control_dt (control (pc_parameters pc)) \<and> 0 \<le> max_steering (pc_parameters pc)
     \<and> sampling_ok (fo_parameters (frenet_optimal_path pc)) \<and> 0 \<le> current_target_speed pc
     \<and> (got_global_path pc \<longrightarrow> (\<exists>gp. global_path pc = Some gp \<and> path_ok gp))"

lemma FindLookAheadPoint_ok:
  assumes "local_path pc = Some lp" and "path_ok lp"
  obtains lp' pt where "FindLookAheadPoint st pc = Inr (pc\<lparr>local_path := Some lp', look_ahead_point := pt\<rparr>, True)"
proof -
  obtain lp1 r where 1: "ReferencePoint (st_xy st) lp = Inr (lp1, r)" "path_ok lp1" by (rule ReferencePoint_ok [OF assms(2)])
  let ?L = "look_ahead_distance (pure_pursuit (control (pc_parameters pc)))"
  obtain lp2 r2 where "ReferencePoint (fst (rf_point r) + cos (rf_heading r) * ?L, snd (rf_point r) + sin (rf_heading r) * ?L) lp1 = Inr (lp2, r2)"
    by (rule ReferencePoint_ok [OF 1(2)])
  then show ?thesis using that assms(1) 1(1) by (simp add: FindLookAheadPoint_def deref_def Let_def)
qed

lemma steering_angle_bounds:
  "0 \<le> max_steering (pc_parameters pc) \<Longrightarrow> \<bar>CalcSteeringAngle e pc\<bar> \<le> max_steering (pc_parameters pc)"
  by (simp add: CalcSteeringAngle_def Let_def abs_le_iff minus_le_iff clamp_facts)

lemma CalculateSteeringCommand_ok:
  assumes "local_path pc = Some lp" and "path_ok lp" and "0 \<le> max_steering (pc_parameters pc)"
  obtains lp' pt a where "CalculateSteeringCommand E st pc = Inr (pc\<lparr>local_path := Some lp', look_ahead_point := pt\<rparr>, (True, a))"
    and "\<bar>a\<bar> \<le> max_steering (pc_parameters pc)"
proof -
  obtain lp' pt where f: "FindLookAheadPoint st pc = Inr (pc\<lparr>local_path := Some lp', look_ahead_point := pt\<rparr>, True)"
    by (rule FindLookAheadPoint_ok [OF assms(1,2)])
  let ?pc = "pc\<lparr>local_path := Some lp', look_ahead_point := pt\<rparr>"
  have "\<bar>CalcSteeringAngle (CalcHeadingError E st ?pc) ?pc\<bar> \<le> max_steering (pc_parameters pc)"
    using steering_angle_bounds [of ?pc] assms(3) by simp
  then show ?thesis using that f by (simp add: CalculateSteeringCommand_def)
qed

text \<open>The steering command is a function of the local path, the parameters and the state.\<close>

lemma steering_cong:
  assumes "CalculateSteeringCommand E st pc = Inr (x, v)" and "local_path pc' = local_path pc" and "pc_parameters pc' = pc_parameters pc"
  shows "\<exists>y. CalculateSteeringCommand E st pc' = Inr (y, v)"
proof -
  let ?L = "look_ahead_distance (pure_pursuit (control (pc_parameters pc)))"
  obtain lp lp1 r lp2 r2 where lp: "local_path pc = Some lp" and 1: "ReferencePoint (st_xy st) lp = Inr (lp1, r)"
    and 2: "ReferencePoint (fst (rf_point r) + cos (rf_heading r) * ?L, snd (rf_point r) + sin (rf_heading r) * ?L) lp1 = Inr (lp2, r2)"
    and x: "x = pc\<lparr>local_path := Some lp2, look_ahead_point := rf_point r2\<rparr>"
    and v: "v = (True, CalcSteeringAngle (CalcHeadingError E st x) x)"
    using assms(1) by (auto simp: CalculateSteeringCommand_def FindLookAheadPoint_def deref_def sbind_eq_Inr Let_def split: option.splits)
  show ?thesis unfolding v x
    using lp 1 2 assms(2,3)
    by (simp add: CalculateSteeringCommand_def FindLookAheadPoint_def deref_def Let_def CalcSteeringAngle_def CalcHeadingError_def)
qed

lemma motion_command_cases:
  assumes "pc_ok pc"
  obtains (idle) pc' where "GenerateMotionCommand E pc = Inr (pc', zero_command)" and "pc_ok pc'"
      and "frenet_optimal_path pc' = frenet_optimal_path pc" and "got_global_path pc' = got_global_path pc \<and> pc_parameters pc' = pc_parameters pc"
      and "\<not> got_global_path pc \<or> GoalReached (current_state pc) pc \<or> \<not> fo_IsPathGenerated (frenet_optimal_path pc)
           \<or> length (f_d_s (current_frenet_path (frenet_optimal_path pc))) < 2
           \<or> (\<exists>gp d. global_path pc = Some gp \<and> GetRemainDistance (st_xy (current_state pc)) gp = Inr d
                \<and> next_speed (control (pc_parameters pc)) (current_target_speed pc)
                     (f_d_s (current_frenet_path (frenet_optimal_path pc)) ! 1) d = 0)"
    | (drive) pc' lp gp d a where "got_global_path pc" and "\<not> GoalReached (current_state pc) pc"
      and "fo_IsPathGenerated (frenet_optimal_path pc)" and "pc_ok pc'"
      and "frenet_optimal_path pc' = frenet_optimal_path pc" and "got_global_path pc' = got_global_path pc \<and> pc_parameters pc' = pc_parameters pc"
      and "global_path pc = Some gp" and "GetRemainDistance (st_xy (current_state pc)) gp = Inr d"
      and "CubicSplinePath_ctor E (f_path (current_frenet_path (frenet_optimal_path pc))) = Inr lp"
      and "current_target_speed pc' = next_speed (control (pc_parameters pc)) (current_target_speed pc)
             (f_d_s (current_frenet_path (frenet_optimal_path pc)) ! 1) d"
      and "current_target_speed pc' \<noteq> 0" and "2 \<le> length (f_d_s (current_frenet_path (frenet_optimal_path pc)))"
      and "\<exists>x. CalculateSteeringCommand E (current_state pc) (pc\<lparr>local_path := Some lp\<rparr>) = Inr (x, (True, a))"
      and "\<bar>a\<bar> \<le> max_steering (pc_parameters pc)"
      and "GenerateMotionCommand E pc = Inr (pc', \<lparr>cc_speed = current_target_speed pc', cc_steering_angle = a\<rparr>)"
proof -
  let ?fo = "frenet_optimal_path pc" and ?fp = "current_frenet_path (frenet_optimal_path pc)" and ?st = "current_state pc"
  note ok = assms [unfolded pc_ok_def]
  consider (stop) "\<not> got_global_path pc \<or> GoalReached ?st pc" | (none) "got_global_path pc" "\<not> GoalReached ?st pc" "\<not> fo_IsPathGenerated ?fo"
    | (go) "got_global_path pc" "\<not> GoalReached ?st pc" "fo_IsPathGenerated ?fo" by blast
  then show ?thesis
  proof cases
    case stop
    then show ?thesis using idle [of pc] assms by (auto simp: GenerateMotionCommand_def)
  next
    case none
    let ?pc1 = "pc\<lparr>pc_frenet_path := GetCurrentFrenetPath ?fo\<rparr>"
    have "pc_ok ?pc1" using ok by (simp add: pc_ok_def)
    then show ?thesis using idle [of ?pc1] none by (simp add: GenerateMotionCommand_def Let_def)
  next
    case go
    then have l2: "2 \<le> length (f_path ?fp)" by (simp add: fo_IsPathGenerated_def)
    then have fp: "GetCurrentFrenetPath ?fo = ?fp" by (simp add: GetCurrentFrenetPath_def)
    obtain lp where lp: "CubicSplinePath_ctor E (f_path ?fp) = Inr lp" "path_ok lp" by (rule ctor_path_ok [OF l2])
    then have gen: "IsPathGenerated lp" by (simp add: IsPathGenerated_def path_ok_def)
    let ?pc2 = "pc\<lparr>pc_frenet_path := ?fp, local_path := Some lp\<rparr>"
    show ?thesis
    proof (cases "length (f_d_s ?fp) < 2")
      case True
      have "pc_ok ?pc2" using ok by (simp add: pc_ok_def)
      then show ?thesis using idle [of ?pc2] go fp lp gen True by (simp add: GenerateMotionCommand_def Let_def)
    next
      case False
      then have at1: "vec_at (f_d_s ?fp) 1 = Inr (f_d_s ?fp ! 1)" by (simp add: vec_at_def)
      obtain gp where gp: "global_path pc = Some gp" "path_ok gp" using ok go(1) by blast
      obtain d where d: "GetRemainDistance (st_xy ?st) gp = Inr d" using GetRemainDistance_ok [OF gp(2)] by blast
      define w where "w = next_speed (control (pc_parameters pc)) (current_target_speed pc) (f_d_s ?fp ! 1) d"
      let ?pc3 = "?pc2\<lparr>current_target_speed := w\<rparr>"
      have sp: "CalcSpeedCommand ?st (f_d_s ?fp ! 1) ?pc2 = Inr (?pc3, w)"
        using CalcSpeedCommand_next [of ?pc2 gp ?st d] gp d by (simp add: w_def Let_def)
      have "0 \<le> w" unfolding w_def using ok by (intro next_speed_bounds(1)) auto
      then have ok3: "pc_ok ?pc3" using ok by (simp add: pc_ok_def)
      show ?thesis
      proof (cases "w = 0")
        case True
        then show ?thesis using idle [of ?pc3] ok3 go fp lp gen False at1 sp gp d w_def by (simp add: GenerateMotionCommand_def Let_def)
      next
        case nz: False
        have l3: "local_path ?pc3 = Some lp" "0 \<le> max_steering (pc_parameters ?pc3)" using ok by simp_all
        obtain lp' pt a where s: "CalculateSteeringCommand E ?st ?pc3 = Inr (?pc3\<lparr>local_path := Some lp', look_ahead_point := pt\<rparr>, (True, a))"
          and a: "\<bar>a\<bar> \<le> max_steering (pc_parameters ?pc3)"
          by (rule CalculateSteeringCommand_ok [OF l3(1) lp(2) l3(2)])
        let ?pc4 = "?pc3\<lparr>local_path := Some lp', look_ahead_point := pt\<rparr>"
        have "pc_ok ?pc4" using ok3 by (simp add: pc_ok_def)
        moreover have "\<exists>x. CalculateSteeringCommand E ?st (pc\<lparr>local_path := Some lp\<rparr>) = Inr (x, (True, a))"
          by (rule steering_cong [OF s]) simp_all
        ultimately show ?thesis
          using drive [of ?pc4 gp d lp a] go fp lp gen False at1 sp s a nz gp d
          by (simp add: GenerateMotionCommand_def Let_def w_def)
      qed
    qed
  qed
qed

lemma SetGlobalPath_ok:
  assumes "pc_ok pc"
  obtains pc' where "SetGlobalPath E path pc = Inr pc'" and "pc_ok pc'" and "frenet_optimal_path pc' = frenet_optimal_path pc"
    and "pc_parameters pc' = pc_parameters pc" and "got_global_path pc' \<longleftrightarrow> 2 \<le> length path"
    and "current_state pc' = current_state pc" and "current_target_speed pc' = current_target_speed pc"
proof (cases "length path < 2")
  case True
  then show ?thesis using that [of "pc\<lparr>global_path := None, got_global_path := False\<rparr>"] assms
    by (simp add: SetGlobalPath_def pc_ok_def)
next
  case False
  then obtain gp where gp: "CubicSplinePath_ctor E path = Inr gp" "path_ok gp" using ctor_path_ok [of path E] by force
  then have "IsPathGenerated gp" by (simp add: IsPathGenerated_def path_ok_def)
  then show ?thesis
    using that [of "pc\<lparr>global_path := Some gp, got_global_path := True, goal := last path\<rparr>"] assms gp False
    by (simp add: SetGlobalPath_def pc_ok_def)
qed

lemma PlanOnce_ok:
  assumes "pc_ok pc"
  obtains pc' where "PlanOnce E pc = Some (Inr pc')" and "pc_ok pc'" and "pc_parameters pc' = pc_parameters pc"
    and "got_global_path pc' = got_global_path pc"
proof (cases "got_global_path pc")
  case True
  then obtain gp where gp: "global_path pc = Some gp" "path_ok gp" using assms by (auto simp: pc_ok_def)
  have s: "sampling_ok (fo_parameters (frenet_optimal_path pc))" using assms by (simp add: pc_ok_def)
  obtain gp' fo' where p: "Planning E (current_state pc) gp (frenet_optimal_path pc) = Some (Inr (gp', fo'))" "path_ok gp'"
    by (rule Planning_returns [OF gp(2) s])
  have "fo_parameters fo' = fo_parameters (frenet_optimal_path pc)"
    by (rule Planning_eq_Inr [OF p(1)]) (simp add: choose_path_def)
  then show ?thesis
    using that [of "pc\<lparr>global_path := Some gp', frenet_optimal_path := fo'\<rparr>"] assms True gp p
    by (simp add: PlanOnce_def deref_def pc_ok_def)
next
  case False
  then show ?thesis using that [of pc] assms by (simp add: PlanOnce_def)
qed


section \<open>Concrete controllers\<close>

definition example_plan :: PlanParameters where
  "example_plan = plan_defaults\<lparr>wheelbase := 3 / 10, max_steering := 1 / 2, target_speed := 2,
     control := control plan_defaults\<lparr>accel := 1, decel := 1, control_dt := 1 / 50\<rparr>, frenet := example_sampling\<rparr>"

text \<open>A car at the origin that drives 1 m/s, with a plan one metre along the x axis.\<close>

definition example_pc :: "Point list \<Rightarrow> CubicSplinePath \<Rightarrow> PlanningControl" where
  "example_pc path gp =
     (PlanningControl_ctor (last path) example_state example_plan)\<lparr>current_target_speed := 1, global_path := Some gp,
        got_global_path := True,
        frenet_optimal_path := (FrenetOptimalPath_ctor example_sampling)\<lparr>
          current_frenet_path := empty_path\<lparr>f_path := [(0, 0), (1, 0)], f_d_s := [1, 1]\<rparr>\<rparr>\<rparr>"

lemma example_pc_ok: "path_ok gp \<Longrightarrow> pc_ok (example_pc path gp)"
  by (simp add: pc_ok_def example_pc_def PlanningControl_ctor_def Let_def example_plan_def plan_defaults_def
      FrenetOptimalPath_ctor_def example_sampling_ok)

lemma remain_from_start:
  assumes "path_ok cp" and "cp_path cp = [(0, 0), q]" and "current_path_idx cp = 0"
  shows "GetRemainDistance (0, 0) cp = Inr (total_distance cp)"
proof -
  note access = path_ok_access [OF assms(1)]
  have a: "along cp (0, 0) 0 = Inr 0"
    using assms(2) by (simp add: along_def vec_at_def minus_pt_def dot_def)
  have "GetDeltaDistance (cp_spline cp) 0 = Inr (seg_len (0, 0) q)"
    using access(2) [of 0] assms(2) by simp
  moreover have "0 \<le> seg_len (0, 0) q" by (simp add: seg_len_def)
  ultimately have "FindPathIndexAndDeltaDistance cp (0, 0) 0 = Inr (0, 0)"
    using a assms(2) by (subst FindPathIndexAndDeltaDistance.simps) simp
  moreover have "GetDistance (cp_spline cp) 0 = Inr 0"
    using access(1) [of 0] assms(2) by (simp add: distances_0)
  ultimately show ?thesis using assms(2,3) by (simp add: GetRemainDistance_def Let_def)
qed

lemma long_path:
  obtains gp where "CubicSplinePath_ctor E [(0, 0), (10, 0)] = Inr gp" and "path_ok gp"
    and "GetRemainDistance (0, 0) gp = Inr 10"
proof -
  obtain gp where gp: "CubicSplinePath_ctor E [(0, 0), (10, 0)] = Inr gp" "path_ok gp" "cp_path gp = [(0, 0), (10, 0)]"
    using ctor_path_ok [of "[(0, 0), (10, 0)]" E] by auto
  have "current_path_idx gp = 0" using gp(1) by (auto simp: CubicSplinePath_ctor_def sbind_eq_Inr)
  moreover have "total_distance gp = 10" using gp(2,3) by (simp add: path_ok_def seg_len_def)
  ultimately show ?thesis using that gp remain_from_start by metis
qed

theorem speed_command_profile_witness:
  "\<exists>gp w. CubicSplinePath_ctor test_eigen [(0, 0), (10, 0)] = Inr gp \<and> w \<le> 5
     \<and> CalcSpeedCommand example_state 5 (example_pc [(10, 0)] gp) = Inr (example_pc [(10, 0)] gp\<lparr>current_target_speed := w\<rparr>, w)"
proof -
  obtain gp where gp: "CubicSplinePath_ctor test_eigen [(0, 0), (10, 0)] = Inr gp" "path_ok gp" "GetRemainDistance (0, 0) gp = Inr 10"
    by (rule long_path)
  let ?pc = "example_pc [(10, 0)] gp"
  have g: "global_path ?pc = Some gp" "current_target_speed ?pc = 1" by (simp_all add: example_pc_def)
  have r: "GetRemainDistance (st_xy example_state) gp = Inr 10" using gp(3) by (simp add: st_xy_def example_state_def)
  have ok: "0 < decel (control (pc_parameters ?pc))" "0 \<le> accel (control (pc_parameters ?pc))"
    "0 \<le> control_dt (control (pc_parameters ?pc))" "0 \<le> current_target_speed ?pc"
    using example_pc_ok [OF gp(2), of "[(10, 0)]"] by (simp_all add: pc_ok_def)
  from speed_command_profile [OF g(1) r ok, of 5] gp(1) g(2) show ?thesis by auto
qed

lemma example_moves_aux:
  assumes "pc_ok pc" and "GenerateMotionCommand E pc = Inr (pc', c)" and "got_global_path pc" and "\<not> GoalReached (current_state pc) pc"
    and "fo_IsPathGenerated (frenet_optimal_path pc)" and "\<not> length (f_d_s (current_frenet_path (frenet_optimal_path pc))) < 2"
    and "\<And>gp d. global_path pc = Some gp \<Longrightarrow> GetRemainDistance (st_xy (current_state pc)) gp = Inr d \<Longrightarrow>
      next_speed (control (pc_parameters pc)) (current_target_speed pc)
        (f_d_s (current_frenet_path (frenet_optimal_path pc)) ! 1) d = w"
    and "0 < w"
  shows "0 < cc_speed c"
proof (cases rule: motion_command_cases [OF assms(1), of E, case_names idle drive])
  case (idle q)
  then obtain gp d where "global_path pc = Some gp" "GetRemainDistance (st_xy (current_state pc)) gp = Inr d"
    "next_speed (control (pc_parameters pc)) (current_target_speed pc)
        (f_d_s (current_frenet_path (frenet_optimal_path pc)) ! 1) d = 0"
    using assms(3-6) by blast
  then show ?thesis using assms(7,8) by fastforce
next
  case (drive q lp gp d a)
  have "cc_speed c = w" using drive(14) drive(10) assms(2) assms(7) [OF drive(7,8)] drive(15) by auto
  then show ?thesis using assms(8) by simp
qed

text \<open>The car of the example is not at its goal, and its speed profile keeps 1 m/s.\<close>

lemma example_moves:
  assumes "path_ok gp" and "GetRemainDistance (0, 0) gp = Inr 10" and "GenerateMotionCommand E (example_pc [(10, 0)] gp) = Inr (pc', c)"
  shows "0 < cc_speed c"
proof -
  let ?pc = "example_pc [(10, 0)] gp"
  have "\<not> GoalReached (current_state ?pc) ?pc"
    by (simp add: GoalReached_def example_pc_def PlanningControl_ctor_def Let_def st_xy_def example_state_def minus_pt_def
        squaredNorm_def example_plan_def plan_defaults_def)
  moreover have "fo_IsPathGenerated (frenet_optimal_path ?pc)" by (simp add: example_pc_def fo_IsPathGenerated_def)
  moreover have "\<not> length (f_d_s (current_frenet_path (frenet_optimal_path ?pc))) < 2" "got_global_path ?pc"
    by (simp_all add: example_pc_def)
  moreover have "next_speed (control (pc_parameters ?pc)) (current_target_speed ?pc) (f_d_s (current_frenet_path (frenet_optimal_path ?pc)) ! 1) d = 1"
    if "global_path ?pc = Some gp'" "GetRemainDistance (st_xy (current_state ?pc)) gp' = Inr d" for gp' d
  proof -
    have "gp' = gp" "st_xy (current_state ?pc) = (0, 0)"
      using that(1) by (simp_all add: example_pc_def PlanningControl_ctor_def Let_def st_xy_def example_state_def)
    then have "d = 10" using that(2) assms(2) by simp
    then show ?thesis
      by (simp add: example_pc_def PlanningControl_ctor_def Let_def example_plan_def plan_defaults_def next_speed_def)
  qed
  ultimately show ?thesis
    using example_moves_aux [OF example_pc_ok [OF assms(1)] assms(3), of 1] by simp
qed


section \<open>A new path and the old plan\<close>

lemma command_from_plan:
  assumes "pc_ok pc" and "GenerateMotionCommand E pc = Inr (a, c)" and "cc_speed c \<noteq> 0"
  obtains lp x where "CubicSplinePath_ctor E (f_path (current_frenet_path (frenet_optimal_path pc))) = Inr lp"
    and "CalculateSteeringCommand E (current_state pc) (pc\<lparr>local_path := Some lp\<rparr>) = Inr (x, (True, cc_steering_angle c))"
proof (cases rule: motion_command_cases [OF assms(1), of E, case_names idle drive])
  case (idle pc')
  then show ?thesis using assms(2,3) by (simp add: zero_command_def)
next
  case (drive pc' lp gp d w)
  then have "w = cc_steering_angle c" using assms(2) by auto
  then show ?thesis using drive(9,13) that by blast
qed

lemma steering_from_plan:
  assumes "pc_ok pc" and "pc_ok pc'" and "frenet_optimal_path pc' = frenet_optimal_path pc" and "pc_parameters pc' = pc_parameters pc"
    and "current_state pc' = current_state pc"
    and "GenerateMotionCommand E pc = Inr (a, c)" "cc_speed c \<noteq> 0" and "GenerateMotionCommand E pc' = Inr (b, c')" "cc_speed c' \<noteq> 0"
  shows "cc_steering_angle c' = cc_steering_angle c"
proof -
  obtain lp x where 1: "CubicSplinePath_ctor E (f_path (current_frenet_path (frenet_optimal_path pc))) = Inr lp"
    "CalculateSteeringCommand E (current_state pc) (pc\<lparr>local_path := Some lp\<rparr>) = Inr (x, (True, cc_steering_angle c))"
    by (rule command_from_plan [OF assms(1,6,7)])
  obtain lp' y where 2: "CubicSplinePath_ctor E (f_path (current_frenet_path (frenet_optimal_path pc'))) = Inr lp'"
    "CalculateSteeringCommand E (current_state pc') (pc'\<lparr>local_path := Some lp'\<rparr>) = Inr (y, (True, cc_steering_angle c'))"
    by (rule command_from_plan [OF assms(2,8,9)])
  have "lp' = lp" using 1(1) 2(1) assms(3) by simp
  moreover obtain z where "CalculateSteeringCommand E (current_state pc) (pc'\<lparr>local_path := Some lp\<rparr>) = Inr (z, (True, cc_steering_angle c))"
    using steering_cong [OF 1(2), of "pc'\<lparr>local_path := Some lp\<rparr>"] assms(4) by auto
  ultimately show ?thesis using 2(2) assms(5) by simp
qed

text \<open>
  A new global path replaces the old one at once, but the local plan stays: until the next set
  of obstacle boxes starts the planner, the car is steered along the plan made for the old path,
  with the steering angle it would have had without the new one.
\<close>

theorem new_path_keeps_old_plan:
  assumes "pc_ok pc"
  shows "\<exists>pc'. SetGlobalPath E path pc = Inr pc' \<and> pc_ok pc' \<and> (got_global_path pc' \<longleftrightarrow> 2 \<le> length path)
    \<and> frenet_optimal_path pc' = frenet_optimal_path pc
    \<and> (\<forall>a b c c'. GenerateMotionCommand E pc = Inr (a, c) \<and> cc_speed c \<noteq> 0
         \<and> GenerateMotionCommand E pc' = Inr (b, c') \<and> cc_speed c' \<noteq> 0 \<longrightarrow> cc_steering_angle c' = cc_steering_angle c)"
proof -
  obtain pc' where p: "SetGlobalPath E path pc = Inr pc'" "pc_ok pc'" "frenet_optimal_path pc' = frenet_optimal_path pc"
    "pc_parameters pc' = pc_parameters pc" "got_global_path pc' \<longleftrightarrow> 2 \<le> length path" "current_state pc' = current_state pc"
    by (rule SetGlobalPath_ok [OF assms])
  then show ?thesis using steering_from_plan [OF assms p(2,3,4,6)] by blast
qed

theorem new_path_keeps_old_plan_witness:
  "\<exists>gp pc'. CubicSplinePath_ctor test_eigen [(0, 0), (10, 0)] = Inr gp
     \<and> SetGlobalPath test_eigen [(0, 0), (0, 10)] (example_pc [(10, 0)] gp) = Inr pc' \<and> got_global_path pc'
     \<and> f_path (current_frenet_path (frenet_optimal_path pc')) = [(0, 0), (1, 0)]"
proof -
  obtain gp where gp: "CubicSplinePath_ctor test_eigen [(0, 0), (10, 0)] = Inr gp" "path_ok gp" by (rule long_path)
  have "f_path (current_frenet_path (frenet_optimal_path (example_pc [(10, 0)] gp))) = [(0, 0), (1, 0)]"
    by (simp add: example_pc_def)
  then show ?thesis
    using new_path_keeps_old_plan [OF example_pc_ok [OF gp(2)], of test_eigen "[(0, 0), (0, 10)]" "[(10, 0)]"] gp(1) by auto
qed

end
