(* ===== verification/PlanningNode.thy ===== *)
theory PlanningNode
  imports Planning Messages
begin

text \<open>
  The ROS node of the planner (\<open>planning_control_node.cpp\<close>): navigation states, obstacle boxes and
  global paths in; control commands and the displays of rviz out.  Colours, sizes and time
  stamps of the displays are left out.
\<close>

section \<open>The node\<close>

record PlanningControlNode =
  planning_controller :: PlanningControl
  nav_hz :: int
  control_hz :: int
  nav_sample_count :: int
  nav_sampling_period :: int
  control_command_deadline :: int

datatype PnOut =
    CommandOut ControlCommandMsg
  | GlobalPathMarker "Point list" "Point list"
  | CurrentPosMarker real real
  | LookAheadMarker real real
  | HeadingOdometry real real quat
  | LocalPathMarker "Point list"

datatype PnEvent = PnNav NavStateMsg | PnBoxes BoundingBoxesMsg | PnPath "PathPointMsg list"

text \<open>The numbers the node reads; the parameters are looked up by name.\<close>

definition ReadRates :: "(string \<Rightarrow> int option) \<Rightarrow> int \<times> int" where
  "ReadRates ip =
     (let nh = get_parameter_or (ip ''controller.nav_hz'') 100; ch = get_parameter_or (ip ''controller.control_hz'') 50
      in if nh \<le> 0 \<or> ch \<le> 0 \<or> ch > nh then (100, 50) else (nh, ch))"

definition ReadFrenetParameters :: "(string \<Rightarrow> real option) \<Rightarrow> (string \<Rightarrow> int option) \<Rightarrow> FrenetParameters" where
  "ReadFrenetParameters rp ip =
     \<lparr>fr_max_speed = get_parameter_or (rp ''frenet_optimal.max_speed'') 0,
      fr_max_accel = get_parameter_or (rp ''frenet_optimal.max_accel'') 0,
      fr_max_curvature = get_parameter_or (rp ''frenet_optimal.max_curvature'') 0,
      fr_max_road_width = get_parameter_or (rp ''frenet_optimal.max_road_width'') 0,
      fr_d_road_width = get_parameter_or (rp ''frenet_optimal.d_road_width'') 0,
      fr_dt = get_parameter_or (rp ''frenet_optimal.dt'') 0,
      fr_max_t = get_parameter_or (rp ''frenet_optimal.max_t'') 0,
      fr_min_t = get_parameter_or (rp ''frenet_optimal.min_t'') 0,
      fr_target_speed = 0,
      fr_d_target_speed = get_parameter_or (rp ''frenet_optimal.d_target_speed'') 0,
      fr_n_speed_sample = get_parameter_or (ip ''frenet_optimal.n_speed_sample'') 0,
      fr_robot_radius = get_parameter_or (rp ''frenet_optimal.robot_radius'') 0,
      fr_k_j = get_parameter_or (rp ''frenet_optimal.k_j'') 0,
      fr_k_t = get_parameter_or (rp ''frenet_optimal.k_t'') 0,
      fr_k_d = get_parameter_or (rp ''frenet_optimal.k_d'') 0,
      fr_k_lat = get_parameter_or (rp ''frenet_optimal.k_lat'') 0,
      fr_k_lon = get_parameter_or (rp ''frenet_optimal.k_lon'') 0\<rparr>"

definition pn_ReadParameters :: "(string \<Rightarrow> real option) \<Rightarrow> (string \<Rightarrow> int option) \<Rightarrow> PlanParameters" where
  "pn_ReadParameters rp ip =
     (let (nh, ch) = ReadRates ip
      in \<lparr>wheelbase = get_parameter_or (rp ''rccar_config.wheelbase'') 0,
          max_steering = get_parameter_or (rp ''rccar_config.max_steering_angle'') 0,
          target_speed = get_parameter_or (rp ''controller.target_speed'') 0,
          control = \<lparr>goal_reach_threshold = get_parameter_or (rp ''controller.goal_reach_threshold'') (3 / 10),
            accel = get_parameter_or (rp ''controller.accel'') 0,
            decel = get_parameter_or (rp ''controller.decel'') 0,
            control_dt = of_int (nh div ch) / of_int nh,
            pure_pursuit = \<lparr>min_look_ahead_distance = 3 / 10,
              look_ahead_distance = get_parameter_or (rp ''controller.pure_pursuiter.look_ahead_distance'') (3 / 10)\<rparr>\<rparr>,
          frenet = ReadFrenetParameters rp ip\<rparr>)"

definition PlanningControlNode_ctor ::
    "Point \<Rightarrow> State \<Rightarrow> (string \<Rightarrow> real option) \<Rightarrow> (string \<Rightarrow> int option) \<Rightarrow> PlanningControlNode" where
  "PlanningControlNode_ctor g0 st0 rp ip =
     (let (nh, ch) = ReadRates ip
      in \<lparr>planning_controller = PlanningControl_ctor g0 st0 (pn_ReadParameters rp ip),
          nav_hz = nh, control_hz = ch, nav_sample_count = 0, nav_sampling_period = nh div ch,
          control_command_deadline = get_parameter_or (ip ''hardware_control.control_command_deadline'') 1000\<rparr>)"

definition VisualizeNavState :: "PlanningControlNode \<Rightarrow> NavStateMsg \<Rightarrow> PnOut list" where
  "VisualizeNavState n msg =
     (let p = nv_position msg; lap = GetLookAheadPoint (planning_controller n)
      in [CurrentPosMarker (v3_x p) (v3_y p), LookAheadMarker (fst lap) (snd lap),
          HeadingOdometry (v3_x p) (v3_y p) (nv_quaternion msg)])"

definition nav_to_state :: "NavStateMsg \<Rightarrow> State" where
  "nav_to_state msg =
     \<lparr>st_timestamp = of_int (tm_sec (nv_timestamp msg)) + of_int (tm_nanosec (nv_timestamp msg)) * (1 / 10 ^ 9),
      st_pos = nv_position msg, st_vel = nv_velocity msg, st_quat = nv_quaternion msg,
      st_accel = nv_acceleration msg, st_ang_vel = nv_angular_velocity msg\<rparr>"

definition GenerateControlCommand :: "EigenOps \<Rightarrow> PlanningControlNode \<Rightarrow> NavStateMsg \<Rightarrow> exn + PlanningControlNode \<times> PnOut list" where
  "GenerateControlCommand E n msg =
     sbind (GenerateMotionCommand E (SetCurrentState (nav_to_state msg) (planning_controller n))) (\<lambda>(pc, c).
       Inr (n\<lparr>planning_controller := pc\<rparr>,
            [CommandOut \<lparr>cm_speed = cc_speed c, cm_steering_angle = cc_steering_angle c\<rparr>]))"

definition NavStateCallback :: "EigenOps \<Rightarrow> PlanningControlNode \<Rightarrow> NavStateMsg \<Rightarrow> exn + PlanningControlNode \<times> PnOut list" where
  "NavStateCallback E n0 msg =
     (let n = n0\<lparr>nav_sample_count := nav_sample_count n0 + 1\<rparr>
      in if nav_sample_count n < nav_sampling_period n then Inr (n, [])
         else let n1 = n\<lparr>nav_sample_count := 0\<rparr>; os = VisualizeNavState n1 msg
              in sbind (GenerateControlCommand E n1 msg) (\<lambda>(n2, cs).
                   Inr (n2, os @ cs @ [LocalPathMarker (GetCurrentLocalPath (planning_controller n2))])))"

definition plan_box :: "BoundingBox2D \<Rightarrow> PlanBox" where
  "plan_box b =
     \<lparr>x_min = bb_center_x b - bb_size_x b / 2, x_max = bb_center_x b + bb_size_x b / 2,
      y_min = bb_center_y b - bb_size_y b / 2, y_max = bb_center_y b + bb_size_y b / 2\<rparr>"

definition BoundingBoxesCallback :: "EigenOps \<Rightarrow> PlanningControlNode \<Rightarrow> BoundingBoxesMsg \<Rightarrow> (PlanningControlNode \<times> PnOut list) run" where
  "BoundingBoxesCallback E n msg =
     rbind (PlanOnce E (SetBoundingBoxes (map plan_box (bbs_boxes msg)) (planning_controller n))) (\<lambda>pc.
       Some (Inr (n\<lparr>planning_controller := pc\<rparr>, [])))"

text \<open>The display of a path: its points, and the two ends of every edge.\<close>

fun path_markers :: "Point list \<Rightarrow> Point list \<times> Point list" where
  "path_markers [] = ([], [])"
| "path_markers [p] = ([p], [])"
| "path_markers (p # q # ps) = (let (ns, es) = path_markers (q # ps) in (p # ns, p # q # es))"

definition GlobalPathCallback :: "EigenOps \<Rightarrow> PlanningControlNode \<Rightarrow> PathPointMsg list \<Rightarrow> exn + PlanningControlNode \<times> PnOut list" where
  "GlobalPathCallback E n msg =
     (if length msg < 2 then Inr (n, [])
      else let path = map (\<lambda>p. (pp_x p, pp_y p)) msg; (nodes, edges) = path_markers path
           in sbind (SetGlobalPath E path (planning_controller n)) (\<lambda>pc.
                Inr (n\<lparr>planning_controller := pc\<rparr>, [GlobalPathMarker nodes edges])))"

fun pn_handle :: "EigenOps \<Rightarrow> PlanningControlNode \<Rightarrow> PnEvent \<Rightarrow> (PlanningControlNode \<times> PnOut list) run" where
  "pn_handle E n (PnNav msg) = Some (NavStateCallback E n msg)"
| "pn_handle E n (PnBoxes msg) = BoundingBoxesCallback E n msg"
| "pn_handle E n (PnPath msg) = Some (GlobalPathCallback E n msg)"

section \<open>The node never stops\<close>

text \<open>A controller and a count that fit the next message.\<close>

definition pn_inv :: "real \<Rightarrow> PlanningControlNode \<Rightarrow> bool" where
  "pn_inv m n \<longleftrightarrow> pc_ok (planning_controller n) \<and> max_steering (pc_parameters (planning_controller n)) = m
     \<and> 0 \<le> nav_sample_count n \<and> nav_sample_count n < nav_sampling_period n"

fun pn_out_ok :: "real \<Rightarrow> PnOut \<Rightarrow> bool" where
  "pn_out_ok m (CommandOut c) \<longleftrightarrow> 0 \<le> cm_speed c \<and> \<bar>cm_steering_angle c\<bar> \<le> m"
| "pn_out_ok m (GlobalPathMarker ns es) \<longleftrightarrow> length es = 2 * (length ns - 1)"
| "pn_out_ok m x \<longleftrightarrow> True"

lemma GenerateMotionCommand_ok:
  assumes "pc_ok pc"
  obtains pc' c where "GenerateMotionCommand E pc = Inr (pc', c)" and "pc_ok pc'" and "0 \<le> cc_speed c"
    and "\<bar>cc_steering_angle c\<bar> \<le> max_steering (pc_parameters pc)" and "pc_parameters pc' = pc_parameters pc"
proof (cases rule: motion_command_cases [OF assms, of E, case_names idle drive])
  case (idle pc')
  then show ?thesis using that [of pc' zero_command] assms by (simp add: zero_command_def pc_ok_def)
next
  case (drive pc' lp gp d a)
  then show ?thesis using that [OF drive(15) drive(4)] by (simp add: pc_ok_def)
qed

lemma NavStateCallback_ok:
  assumes "pn_inv m n"
  obtains (quiet) n' where "NavStateCallback E n msg = Inr (n', [])" and "pn_inv m n'"
      and "nav_sample_count n' = nav_sample_count n + 1" and "nav_sampling_period n' = nav_sampling_period n"
    | (command) n' c x y z w where "NavStateCallback E n msg = Inr (n', [x, y, z, CommandOut c, w])" and "pn_inv m n'"
      and "\<forall>o'\<in>{x, y, z, w}. (\<forall>d. o' \<noteq> CommandOut d) \<and> pn_out_ok m o'" and "pn_out_ok m (CommandOut c)"
      and "nav_sample_count n + 1 = nav_sampling_period n" and "nav_sample_count n' = 0"
      and "nav_sampling_period n' = nav_sampling_period n"
proof (cases "nav_sample_count n + 1 < nav_sampling_period n")
  case True
  then show ?thesis
    using quiet [of "n\<lparr>nav_sample_count := nav_sample_count n + 1\<rparr>"] assms by (simp add: NavStateCallback_def pn_inv_def)
next
  case False
  let ?pc = "SetCurrentState (nav_to_state msg) (planning_controller n)"
  have "pc_ok ?pc" using assms by (simp add: pn_inv_def pc_ok_def SetCurrentState_def)
  then obtain pc' c where g: "GenerateMotionCommand E ?pc = Inr (pc', c)" "pc_ok pc'" "0 \<le> cc_speed c"
    "\<bar>cc_steering_angle c\<bar> \<le> max_steering (pc_parameters ?pc)" "pc_parameters pc' = pc_parameters ?pc"
    by (rule GenerateMotionCommand_ok)
  have ps: "pc_parameters ?pc = pc_parameters (planning_controller n)" by (simp add: SetCurrentState_def)
  let ?n = "n\<lparr>nav_sample_count := 0, planning_controller := pc'\<rparr>"
  have "pn_inv m ?n" using assms g(2,5) ps by (simp add: pn_inv_def)
  then show ?thesis
    using command [of ?n] False assms g ps
    by (simp add: NavStateCallback_def GenerateControlCommand_def VisualizeNavState_def Let_def pn_inv_def)
qed

lemma path_markers_shape: "path_markers ps = (ns, es) \<Longrightarrow> ns = ps \<and> length es = 2 * (length ps - 1)"
  by (induction ps arbitrary: ns es rule: path_markers.induct) (auto simp: Let_def split: prod.splits)

lemma other_callbacks_ok:
  assumes "pn_inv m n"
  shows "\<exists>n'. BoundingBoxesCallback E n b = Some (Inr (n', [])) \<and> pn_inv m n'
      \<and> nav_sample_count n' = nav_sample_count n \<and> nav_sampling_period n' = nav_sampling_period n"
    and "\<exists>n' os. GlobalPathCallback E n p = Inr (n', os) \<and> pn_inv m n' \<and> list_all (pn_out_ok m) os
      \<and> (\<forall>o'\<in>set os. \<forall>d. o' \<noteq> CommandOut d)
      \<and> nav_sample_count n' = nav_sample_count n \<and> nav_sampling_period n' = nav_sampling_period n"
proof -
  have ok: "pc_ok (planning_controller n)" using assms by (simp add: pn_inv_def)
  let ?pc = "SetBoundingBoxes (map plan_box (bbs_boxes b)) (planning_controller n)"
  have "pc_ok ?pc" "pc_parameters ?pc = pc_parameters (planning_controller n)"
    using ok by (simp_all add: SetBoundingBoxes_def fo_SetBoundingBoxes_def pc_ok_def)
  then obtain pc' where "PlanOnce E ?pc = Some (Inr pc')" "pc_ok pc'" "pc_parameters pc' = pc_parameters (planning_controller n)"
    by (metis PlanOnce_ok)
  then show "\<exists>n'. BoundingBoxesCallback E n b = Some (Inr (n', [])) \<and> pn_inv m n'
      \<and> nav_sample_count n' = nav_sample_count n \<and> nav_sampling_period n' = nav_sampling_period n"
    using assms by (simp add: BoundingBoxesCallback_def pn_inv_def)
  show "\<exists>n' os. GlobalPathCallback E n p = Inr (n', os) \<and> pn_inv m n' \<and> list_all (pn_out_ok m) os
      \<and> (\<forall>o'\<in>set os. \<forall>d. o' \<noteq> CommandOut d)
      \<and> nav_sample_count n' = nav_sample_count n \<and> nav_sampling_period n' = nav_sampling_period n"
  proof (cases "length p < 2")
    case True
    then show ?thesis using assms by (simp add: GlobalPathCallback_def)
  next
    case False
    let ?path = "map (\<lambda>p. (pp_x p, pp_y p)) p"
    obtain pc' where pc': "SetGlobalPath E ?path (planning_controller n) = Inr pc'" "pc_ok pc'"
      "pc_parameters pc' = pc_parameters (planning_controller n)" by (rule SetGlobalPath_ok [OF ok])
    obtain ns es where m: "path_markers ?path = (ns, es)" by fastforce
    then have "length es = 2 * (length ns - 1)" using path_markers_shape by blast
    then show ?thesis using False pc' m assms by (simp add: GlobalPathCallback_def pn_inv_def)
  qed
qed

lemma pn_step:
  assumes "pn_inv m n"
  shows "\<exists>n' os. pn_handle E n e = Some (Inr (n', os)) \<and> pn_inv m n' \<and> list_all (pn_out_ok m) os"
proof (cases e)
  case (PnNav msg)
  show ?thesis
  proof (cases rule: NavStateCallback_ok [OF assms, of E msg, case_names quiet command])
    case (quiet n')
    then show ?thesis using PnNav by simp
  next
    case (command n' c x y z w)
    then show ?thesis using PnNav by simp
  qed
next
  case (PnBoxes b)
  then show ?thesis using other_callbacks_ok(1) [OF assms, of E b] by auto
next
  case (PnPath p)
  then show ?thesis using other_callbacks_ok(2) [OF assms, of E p] by auto
qed

interpretation planner: run_system "pn_handle E" "pn_inv m" "pn_out_ok m" for E m
  by unfold_locales (rule pn_step)

section \<open>Commands per navigation state\<close>

definition navs :: "PnEvent list \<Rightarrow> nat" where
  "navs es = length (filter (\<lambda>e. case e of PnNav msg \<Rightarrow> True | _ \<Rightarrow> False) es)"

definition commands :: "PnOut list \<Rightarrow> nat" where
  "commands os = length (filter (\<lambda>x. case x of CommandOut c \<Rightarrow> True | _ \<Rightarrow> False) os)"

lemma commands_append [simp]: "commands (xs @ ys) = commands xs + commands ys"
  by (simp add: commands_def)

lemma commands_none: "(\<forall>x\<in>set os. \<forall>d. x \<noteq> CommandOut d) \<Longrightarrow> commands os = 0"
  by (induction os) (auto simp: commands_def split: PnOut.splits)

lemma pn_step_count:
  assumes "pn_inv m n" and "pn_handle E n e = Some (Inr (n', os))"
  shows "nav_sampling_period n' = nav_sampling_period n
    \<and> nav_sample_count n + int (navs [e]) = int (commands os) * nav_sampling_period n + nav_sample_count n'"
proof (cases e)
  case (PnNav msg)
  have n1: "navs [e] = 1" by (simp add: navs_def PnNav)
  show ?thesis
  proof (cases rule: NavStateCallback_ok [OF assms(1), of E msg, case_names quiet command])
    case (quiet k)
    then show ?thesis using PnNav assms(2) n1 by (simp add: commands_def)
  next
    case (command k c x y z w)
    have "commands [x, y, z] = 0" "commands [w] = 0" using command(3) by (intro commands_none, simp)+
    then have "commands ([x, y, z] @ CommandOut c # [w]) = 1" unfolding commands_append by (simp add: commands_def)
    then show ?thesis using PnNav assms(2) n1 command by simp
  qed
next
  case (PnBoxes b)
  then show ?thesis using other_callbacks_ok(1) [OF assms(1), of E b] assms(2) by (auto simp: navs_def commands_def)
next
  case (PnPath p)
  then show ?thesis using other_callbacks_ok(2) [OF assms(1), of E p] assms(2) commands_none by (auto simp: navs_def)
qed

lemma pn_run_count:
  assumes "pn_inv m n" and "run_all (pn_handle E) n es = Some (Inr (n', os))"
  shows "pn_inv m n' \<and> nav_sampling_period n' = nav_sampling_period n
    \<and> nav_sample_count n + int (navs es) = int (commands os) * nav_sampling_period n + nav_sample_count n'"
  using assms
proof (induction es arbitrary: n n' os)
  case Nil
  then show ?case by (simp add: navs_def commands_def)
next
  case (Cons e es)
  obtain n1 o1 where 1: "pn_handle E n e = Some (Inr (n1, o1))" "pn_inv m n1" using pn_step [OF Cons.prems(1)] by blast
  obtain n2 o2 where 2: "run_all (pn_handle E) n1 es = Some (Inr (n2, o2))" and r: "n' = n2" "os = o1 @ o2"
    using Cons.prems(2) 1(1) by (auto simp: rbind_eq_Inr)
  have "navs (e # es) = navs [e] + navs es" by (simp add: navs_def)
  then show ?case using pn_step_count [OF Cons.prems(1) 1(1)] Cons.IH [OF 1(2) 2] r by (simp add: algebra_simps)
qed

lemma ReadRates_range: "ReadRates ip = (nh, ch) \<Longrightarrow> 0 < ch \<and> ch \<le> nh"
  by (auto simp: ReadRates_def Let_def split: if_splits)

text \<open>Limits and rates of the car with which the planner can work; \<open>decel\<close> must not be 0.\<close>

definition params_fit :: "PlanParameters \<Rightarrow> bool" where
  "params_fit ps \<longleftrightarrow> 0 < decel (control ps) \<and> 0 \<le> accel (control ps) \<and> 0 \<le> max_steering ps \<and> sampling_ok (frenet ps)"

lemma pn_ctor_inv:
  assumes "params_fit (pn_ReadParameters rp ip)"
  shows "pn_inv (max_steering (pn_ReadParameters rp ip)) (PlanningControlNode_ctor g0 st0 rp ip)"
    and "nav_sample_count (PlanningControlNode_ctor g0 st0 rp ip) = 0"
    and "0 < nav_sampling_period (PlanningControlNode_ctor g0 st0 rp ip)"
proof -
  obtain nh ch where r: "ReadRates ip = (nh, ch)" by fastforce
  have ch: "0 < ch" "ch \<le> nh" using ReadRates_range [OF r] by auto
  have d: "0 < nh div ch" using ch by (simp add: pos_imp_zdiv_pos_iff)
  have dt: "control_dt (control (pn_ReadParameters rp ip)) = of_int (nh div ch) / of_int nh"
    by (simp add: pn_ReadParameters_def r)
  have "0 \<le> control_dt (control (pn_ReadParameters rp ip))" unfolding dt using d ch by simp
  moreover have "sampling_ok (frenet (pn_ReadParameters rp ip)\<lparr>fr_target_speed := t\<rparr>)" for t
    using assms by (simp add: params_fit_def sampling_ok_def)
  ultimately show "pn_inv (max_steering (pn_ReadParameters rp ip)) (PlanningControlNode_ctor g0 st0 rp ip)"
    using assms d by (simp add: pn_inv_def pc_ok_def PlanningControlNode_ctor_def PlanningControl_ctor_def Let_def r
        params_fit_def FrenetOptimalPath_ctor_def)
  show "nav_sample_count (PlanningControlNode_ctor g0 st0 rp ip) = 0"
    "0 < nav_sampling_period (PlanningControlNode_ctor g0 st0 rp ip)"
    using d by (simp_all add: PlanningControlNode_ctor_def r)
qed

lemma planner_run:
  assumes "params_fit (pn_ReadParameters rp ip)"
  shows "\<exists>n' os. run_all (pn_handle E) (PlanningControlNode_ctor g0 st0 rp ip) es = Some (Inr (n', os))
    \<and> (\<forall>c. CommandOut c \<in> set os \<longrightarrow>
         0 \<le> cm_speed c \<and> \<bar>cm_steering_angle c\<bar> \<le> max_steering (pn_ReadParameters rp ip))
    \<and> int (commands os) = int (navs es) div nav_sampling_period (PlanningControlNode_ctor g0 st0 rp ip)"
proof -
  let ?n = "PlanningControlNode_ctor g0 st0 rp ip" and ?m = "max_steering (pn_ReadParameters rp ip)"
  note i = pn_ctor_inv [OF assms]
  obtain n' os where r: "run_all (pn_handle E) ?n es = Some (Inr (n', os))" "list_all (pn_out_ok ?m) os"
    using planner.always_returns [OF i(1)] by blast
  have c: "pn_inv ?m n'" "int (navs es) = nav_sample_count n' + int (commands os) * nav_sampling_period ?n"
    "nav_sampling_period n' = nav_sampling_period ?n"
    using pn_run_count [OF i(1) r(1)] i(2) by simp_all
  then have "0 \<le> nav_sample_count n'" "nav_sample_count n' < nav_sampling_period ?n" by (simp_all add: pn_inv_def)
  then have "int (commands os) = int (navs es) div nav_sampling_period ?n"
    unfolding c(2) using i(3) by simp
  moreover have "0 \<le> cm_speed c \<and> \<bar>cm_steering_angle c\<bar> \<le> ?m" if "CommandOut c \<in> set os" for c
    using r(2) that by (auto simp: list_all_iff)
  ultimately show ?thesis using r(1) by blast
qed


definition example_rp :: "string \<Rightarrow> real option" where
  "example_rp k = map_of [(''rccar_config.wheelbase'', 3 / 10), (''rccar_config.max_steering_angle'', 1 / 2),
     (''controller.accel'', 1), (''controller.decel'', 1), (''frenet_optimal.max_road_width'', 1),
     (''frenet_optimal.d_road_width'', 1), (''frenet_optimal.dt'', 1 / 5), (''frenet_optimal.max_t'', 5),
     (''frenet_optimal.min_t'', 4), (''frenet_optimal.d_target_speed'', 1 / 2)] k"

definition example_ip :: "string \<Rightarrow> int option" where
  "example_ip k = map_of [(''controller.nav_hz'', 100), (''controller.control_hz'', 50), (''frenet_optimal.n_speed_sample'', 1)] k"

lemma example_fit: "params_fit (pn_ReadParameters example_rp example_ip)"
  by (simp add: params_fit_def pn_ReadParameters_def ReadRates_def get_parameter_or_def example_rp_def example_ip_def Let_def
      ReadFrenetParameters_def sampling_ok_def)

definition example_nav :: NavStateMsg where
  "example_nav = \<lparr>nv_timestamp = \<lparr>tm_sec = 0, tm_nanosec = 0\<rparr>, nv_origin = \<lparr>v3_x = 0, v3_y = 0, v3_z = 0\<rparr>,
     nv_position = \<lparr>v3_x = 0, v3_y = 0, v3_z = 0\<rparr>, nv_velocity = \<lparr>v3_x = 0, v3_y = 0, v3_z = 0\<rparr>,
     nv_quaternion = \<lparr>q_w = 1, q_x = 0, q_y = 0, q_z = 0\<rparr>, nv_acceleration = \<lparr>v3_x = 0, v3_y = 0, v3_z = 0\<rparr>,
     nv_angular_velocity = \<lparr>v3_x = 0, v3_y = 0, v3_z = 0\<rparr>\<rparr>"


text \<open>
  The rates are always usable: whatever the parameters, the sampling period is at least 1, the
  time step of the controller is the time between two commands at the navigation rate, and
  commands come at least as often as the control rate asks.
\<close>

theorem rates_are_usable:
  "let n = PlanningControlNode_ctor g0 st0 rp ip in
     1 \<le> nav_sampling_period n \<and> 1 \<le> control_hz n
     \<and> control_dt (control (pc_parameters (planning_controller n))) * of_int (nav_hz n) = of_int (nav_sampling_period n)
     \<and> control_hz n * nav_sampling_period n \<le> nav_hz n"
proof -
  obtain nh ch where r: "ReadRates ip = (nh, ch)" by fastforce
  have ch: "0 < ch" "ch \<le> nh" using ReadRates_range [OF r] by auto
  then have "1 \<le> nh div ch" by (simp add: int_one_le_iff_zero_less pos_imp_zdiv_pos_iff)
  moreover have "ch * (nh div ch) \<le> nh" using ch by (simp flip: minus_mod_eq_mult_div)
  ultimately show ?thesis
    using ch by (simp add: PlanningControlNode_ctor_def r PlanningControl_ctor_def Let_def pn_ReadParameters_def)
qed

end
