(* ===== verification/Vehicle.thy ===== *)
theory Vehicle
  imports HardwareNode Firmware PlanningNode
begin

text \<open>
  The components connected: the bytes the hardware node writes are what the firmware receives,
  and the planner's commands are what the hardware node takes in its autonomous mode.
\<close>

section \<open>Connections\<close>

fun frames_of :: "HwOut list \<Rightarrow> byte list list" where
  "frames_of [] = []"
| "frames_of (Serial bs # os) = bs # frames_of os"
| "frames_of (_ # os) = frames_of os"

definition wire :: "HwOut list \<Rightarrow> byte list" where
  "wire os = concat (frames_of os)"

fun commands_of :: "PnOut list \<Rightarrow> ControlCommandMsg list" where
  "commands_of [] = []"
| "commands_of (CommandOut c # os) = c # commands_of os"
| "commands_of (_ # os) = commands_of os"

lemma frames_of_append [simp]: "frames_of (xs @ ys) = frames_of xs @ frames_of ys"
  by (induction xs rule: frames_of.induct) simp_all

lemma set_frames_of: "bs \<in> set (frames_of os) \<longleftrightarrow> Serial bs \<in> set os"
  by (induction os rule: frames_of.induct) auto

lemma set_commands_of: "c \<in> set (commands_of os) \<longleftrightarrow> CommandOut c \<in> set os"
  by (induction os rule: commands_of.induct) auto

lemma commands_of_length: "length (commands_of os) = commands os"
  by (induction os rule: commands_of.induct) (simp_all add: commands_def)

section \<open>From the node to the pins\<close>

lemma safe_in_range: "pwm_safe p \<Longrightarrow> pwm_in_range p"
  by (simp add: pwm_safe_def pwm_in_range_def pwm_consts)

lemma safe_frames_split:
  assumes "\<forall>bs \<in> set fs. safe_frame bs"
  shows "\<exists>ms. fs = map (\<lambda>(cmd, pwm). frame cmd pwm) ms \<and> (\<forall>(cmd, pwm) \<in> set ms. pwm_safe pwm \<and> (cmd = kStop \<longrightarrow> pwm = neutral_pwm))"
  using assms
proof (induction fs)
  case Nil
  then show ?case by simp
next
  case (Cons bs fs)
  then obtain ms cmd pwm where "fs = map (\<lambda>(cmd, pwm). frame cmd pwm) ms" "\<forall>(cmd, pwm) \<in> set ms. pwm_safe pwm \<and> (cmd = kStop \<longrightarrow> pwm = neutral_pwm)"
      "bs = frame cmd pwm" "pwm_safe pwm" "cmd = kStop \<longrightarrow> pwm = neutral_pwm"
    by (auto simp: safe_frame_def)
  then show ?case by (intro exI [of _ "(cmd, pwm) # ms"]) auto
qed

text \<open>Duties the hardware limits allow, the pins neutral where the lamp says stopped.\<close>

definition safe_pins :: "actuation \<Rightarrow> bool" where
  "safe_pins a \<longleftrightarrow> kEscPwmN \<le> ac_esc_duty a \<and> ac_esc_duty a \<le> kEscPwmMax
     \<and> servoWrite kSteerPwmMin \<le> ac_servo_duty a \<and> ac_servo_duty a \<le> servoWrite kSteerPwmMax
     \<and> (\<not> ac_gled a \<longrightarrow> ac_esc_duty a = kEscPwmN \<and> ac_servo_duty a = servoWrite kSteerPwmN)"

lemma servoWrite_mono: "x \<le> y \<Longrightarrow> servoWrite x \<le> servoWrite y"
  by (simp add: servoWrite_def c_trunc_mono)

lemma expected_safe: "pwm_safe pwm \<Longrightarrow> (cmd = kStop \<longrightarrow> pwm = neutral_pwm) \<Longrightarrow> safe_pins (expected (cmd, pwm))"
  by (auto simp: safe_pins_def expected_def pwm_safe_def neutral_pwm_def servoWrite_mono)

lemma wire_is_safe:
  assumes "\<forall>bs. Serial bs \<in> set os \<longrightarrow> safe_frame bs" and "rx_idle r"
  shows "\<exists>r' as. rx_run r (wire os) = (r', as) \<and> rx_idle r' \<and> length as = length (frames_of os) \<and> list_all safe_pins as"
proof -
  have "\<forall>bs \<in> set (frames_of os). safe_frame bs" using assms(1) by (simp add: set_frames_of)
  then obtain ms where ms: "frames_of os = map (\<lambda>(cmd, pwm). frame cmd pwm) ms"
      "\<forall>(cmd, pwm) \<in> set ms. pwm_safe pwm \<and> (cmd = kStop \<longrightarrow> pwm = neutral_pwm)"
    using safe_frames_split by blast
  have "list_all (\<lambda>(cmd, pwm). pwm_in_range pwm) ms" using ms(2) by (auto simp: list_all_iff safe_in_range)
  from link.stream [OF assms(2) this] obtain r' where "rx_idle r'" "rx_run r (wire os) = (r', map expected ms)"
    by (auto simp: wire_def ms(1))
  moreover have "list_all safe_pins (map expected ms)" using ms(2) by (auto simp: list_all_iff intro: expected_safe)
  ultimately show ?thesis by (simp add: ms(1))
qed

section \<open>From the planner to the pins\<close>

definition limited :: "Parameters \<Rightarrow> ControlCommandMsg \<Rightarrow> ControlCommand" where
  "limited ps c = \<lparr>speed = min (cm_speed c) (max_speed ps), steering_angle = cm_steering_angle c\<rparr>"

definition pwm_of :: "Parameters \<Rightarrow> ControlCommandMsg \<Rightarrow> Pwm" where
  "pwm_of ps c = clamp_pwm (ConvertCommandToPwm (limited ps c))"

text \<open>A hardware node that drives autonomously through an open port.\<close>

definition driving :: "HwNode \<Rightarrow> bool" where
  "driving n \<longleftrightarrow> hc_drive_command (hn_hc n) = kAuto \<and> \<not> hn_teleop n \<and> hc_serial (hn_hc n) \<noteq> None"

lemma driving_step:
  assumes "driving n" and "\<forall>fd bs. 0 \<le> wr fd bs" and "0 \<le> cm_speed c" and "0 \<le> max_speed (hc_parameters (hn_hc n))"
    and "\<bar>cm_steering_angle c\<bar> \<le> max_steering_angle (hc_parameters (hn_hc n))"
  shows "\<exists>os. hw_step n (wr, EvControl c) = Inr (n, os) \<and> frames_of os = [frame kAuto (pwm_of (hc_parameters (hn_hc n)) c)]"
proof -
  let ?ps = "hc_parameters (hn_hc n)"
  have "clamp_command ?ps \<lparr>speed = cm_speed c, steering_angle = cm_steering_angle c\<rparr> = limited ?ps c"
    using assms(3-5) by (auto simp: clamp_command_def limited_def std_clamp_def min_def abs_le_iff)
  then show ?thesis
    using assms(1,2) by (auto simp: driving_def hw_callbacks send_and_publish_def SendControlCommand_def GotStopCommand_def
        SerializeAndSendMessage_def SerialPort_Write_def pwm_of_def Let_def not_less)
qed

lemma driving_run:
  assumes "driving n" and "\<forall>fd bs. 0 \<le> wr fd bs" and "0 \<le> max_speed (hc_parameters (hn_hc n))"
    and "\<forall>c \<in> set cs. 0 \<le> cm_speed c \<and> \<bar>cm_steering_angle c\<bar> \<le> max_steering_angle (hc_parameters (hn_hc n))"
  shows "\<exists>os. run_handlers hw_step n (map (\<lambda>c. (wr, EvControl c)) cs) = Inr (n, os)
    \<and> frames_of os = map (\<lambda>c. frame kAuto (pwm_of (hc_parameters (hn_hc n)) c)) cs"
  using assms(4)
proof (induction cs)
  case Nil
  then show ?case by simp
next
  case (Cons c cs)
  obtain o1 where "hw_step n (wr, EvControl c) = Inr (n, o1)" "frames_of o1 = [frame kAuto (pwm_of (hc_parameters (hn_hc n)) c)]"
    using driving_step [of n wr c] assms(1-3) Cons.prems by auto
  moreover obtain o2 where "run_handlers hw_step n (map (\<lambda>c. (wr, EvControl c)) cs) = Inr (n, o2)"
      "frames_of o2 = map (\<lambda>c. frame kAuto (pwm_of (hc_parameters (hn_hc n)) c)) cs"
    using Cons by auto
  ultimately show ?case by (simp del: hw_step.simps)
qed

lemma pwm_of_safe: "0 \<le> cm_speed c \<Longrightarrow> 0 \<le> max_speed ps \<Longrightarrow> pwm_safe (pwm_of ps c)"
  unfolding pwm_of_def by (intro clamp_pwm_safe Convert_speed_ge) (simp add: limited_def)

lemma driving_pins:
  assumes "rx_idle r" and "\<forall>c \<in> set cs. 0 \<le> cm_speed c" and "0 \<le> max_speed ps"
  shows "\<exists>r'. rx_idle r' \<and> rx_run r (concat (map (\<lambda>c. frame kAuto (pwm_of ps c)) cs)) = (r', map (\<lambda>c. expected (kAuto, pwm_of ps c)) cs)"
proof -
  have "list_all (\<lambda>(cmd, pwm). pwm_in_range pwm) (map (\<lambda>c. (kAuto, pwm_of ps c)) cs)"
    using assms(2,3) by (auto simp: list_all_iff intro: safe_in_range pwm_of_safe)
  from link.stream [OF assms(1) this] show ?thesis by (simp add: comp_def)
qed

lemma planner_runs:
  assumes "params_fit (pn_ReadParameters rp ip)"
  shows "\<exists>n' os. run_all (pn_handle E) (PlanningControlNode_ctor g0 st0 rp ip) es = Some (Inr (n', os))
    \<and> (\<forall>c \<in> set (commands_of os). 0 \<le> cm_speed c \<and> \<bar>cm_steering_angle c\<bar> \<le> max_steering (pn_ReadParameters rp ip))
    \<and> int (length (commands_of os)) = int (navs es) div nav_sampling_period (PlanningControlNode_ctor g0 st0 rp ip)"
  using planner_run [OF assms] by (fastforce simp: set_commands_of commands_of_length)

end
