(* ===== verification/Gamepad.thy ===== *)
theory Gamepad
  imports Messages
begin

text \<open>
  Package \<open>autorccar_gamepad\<close> (\<open>gamepad_control_node.cpp\<close>): the node that turns joystick
  messages into teleoperation commands, with its mode buttons, its arrow keys and stick,
  and its watchdog timer.  Times are seconds; \<open>this->now()\<close> is an argument of each callback.
\<close>

section \<open>State and messages\<close>

record Joy =
  axes :: "real list"
  buttons :: "int list"

record GpParams =
  accel_arw :: int
  steer_arw :: int
  steer_axis :: int
  stop_btn :: int
  manual_btn :: int
  auto_btn :: int
  tbd_btn :: int
  reset_btn :: int
  reset2_btn :: int
  accel_scale :: real
  steer_scale :: real
  deadzone :: real

text \<open>The declared defaults of the parameters.\<close>

definition gp_defaults :: GpParams where
  "gp_defaults = \<lparr>accel_arw = 7, steer_arw = 6, steer_axis = 2, stop_btn = 0, manual_btn = 1,
     auto_btn = 2, tbd_btn = 3, reset_btn = 4, reset2_btn = 5,
     accel_scale = 1, steer_scale = 1, deadzone = 0.05\<rparr>"

record Gamepad =
  gp_params :: GpParams
  cmd_mode :: int
  accel_val :: real
  steer_val :: real
  prev_joy :: Joy
  last_joy_time :: real
  joy_connected :: bool

datatype GpOut = TeleopControl ControlCommandMsg | TeleopCommand int8

datatype GpEvent = JoyMsg real Joy | SafetyTimer real

definition GamepadControlNode_ctor :: "GpParams \<Rightarrow> real \<Rightarrow> Gamepad" where
  "GamepadControlNode_ctor ps now =
     \<lparr>gp_params = ps, cmd_mode = 0, accel_val = 0, steer_val = 0,
      prev_joy = \<lparr>axes = replicate 20 0, buttons = replicate 20 0\<rparr>,
      last_joy_time = now, joy_connected = False\<rparr>"

section \<open>Callbacks\<close>

definition safetyCheck :: "real \<Rightarrow> Gamepad \<Rightarrow> Gamepad" where
  "safetyCheck now g =
     (if now - last_joy_time g > 2 \<and> joy_connected g then
        g\<lparr>joy_connected := False, accel_val := 0, steer_val := 90, cmd_mode := 0\<rparr>
      else g)"

definition rising :: "Joy \<Rightarrow> Joy \<Rightarrow> int \<Rightarrow> exn + bool" where
  "rising msg prev btn =
     sbind (idx (buttons msg) btn) (\<lambda>b.
       if b = 1 then sbind (idx (buttons prev) btn) (\<lambda>p. Inr (p = 0)) else Inr False)"

text \<open>One mode button: its effect happens when it has just been pressed.\<close>

definition on_rising :: "Joy \<Rightarrow> int \<Rightarrow> (Gamepad \<Rightarrow> Gamepad) \<Rightarrow> Gamepad \<Rightarrow> exn + Gamepad" where
  "on_rising msg btn f g = sbind (rising msg (prev_joy g) btn) (\<lambda>r. Inr (if r then f g else g))"

definition mode_check :: "Joy \<Rightarrow> Gamepad \<Rightarrow> exn + Gamepad" where
  "mode_check msg g =
     (let ps = gp_params g in
      sbind (on_rising msg (stop_btn ps) (\<lambda>g. g\<lparr>cmd_mode := 0, accel_val := 0, steer_val := 0\<rparr>) g) (\<lambda>g.
      sbind (on_rising msg (manual_btn ps) (\<lambda>g. g\<lparr>cmd_mode := 1\<rparr>) g) (\<lambda>g.
      sbind (on_rising msg (auto_btn ps) (\<lambda>g. g\<lparr>cmd_mode := 2\<rparr>) g) (\<lambda>g.
      sbind (on_rising msg (tbd_btn ps) (\<lambda>g. g\<lparr>cmd_mode := 3\<rparr>) g) (\<lambda>g.
      sbind (on_rising msg (reset_btn ps) (\<lambda>g. g\<lparr>accel_val := 0, steer_val := 0, cmd_mode := 0\<rparr>) g) (\<lambda>g.
      on_rising msg (reset2_btn ps) (\<lambda>g. g\<lparr>accel_val := 0, steer_val := 0\<rparr>) g))))))"

text \<open>An arrow key: one step per press, when the axis was 0 in the previous message.\<close>

definition arrow :: "int \<Rightarrow> int \<Rightarrow> real \<Rightarrow> Joy \<Rightarrow> real \<Rightarrow> exn + real" where
  "arrow raw axis scale prev v =
     (if raw = 1 then sbind (idx (axes prev) axis) (\<lambda>p. Inr (if p = 0 then v + scale else v))
      else if raw = -1 then sbind (idx (axes prev) axis) (\<lambda>p. Inr (if p = 0 then v - scale else v))
      else Inr v)"

definition control_data :: "int \<Rightarrow> int \<Rightarrow> real \<Rightarrow> Gamepad \<Rightarrow> exn + Gamepad" where
  "control_data raw_accel raw_steer raw_steer_joy g =
     (let ps = gp_params g in
      if cmd_mode g = 1 then
        sbind (arrow raw_accel (accel_arw ps) (accel_scale ps) (prev_joy g) (accel_val g)) (\<lambda>a.
        if \<bar>raw_steer_joy\<bar> > deadzone ps then
          Inr (g\<lparr>accel_val := a, steer_val := of_int (c_round (raw_steer_joy * 45))\<rparr>)
        else
          sbind (arrow raw_steer (steer_arw ps) (steer_scale ps) (prev_joy g) (steer_val g)) (\<lambda>s.
          Inr (g\<lparr>accel_val := a, steer_val := s\<rparr>)))
      else Inr (g\<lparr>accel_val := 0, steer_val := 0\<rparr>))"

definition clamp_values :: "Gamepad \<Rightarrow> Gamepad" where
  "clamp_values g = g\<lparr>accel_val := max (accel_val g) 0, steer_val := std_clamp (steer_val g) (-45) 45\<rparr>"

definition publish_values :: "Gamepad \<Rightarrow> GpOut list" where
  "publish_values g =
     [TeleopControl \<lparr>cm_speed = accel_val g, cm_steering_angle = steer_val g * pi / 180\<rparr>,
      TeleopCommand (word_of_int (cmd_mode g))]"

definition joyCallback :: "real \<Rightarrow> Joy \<Rightarrow> Gamepad \<Rightarrow> exn + (Gamepad \<times> GpOut list)" where
  "joyCallback now msg g0 =
     (let g = g0\<lparr>last_joy_time := now, joy_connected := True\<rparr>;
          ps = gp_params g;
          axes_size = int (length (axes msg))
      in if accel_arw ps \<ge> axes_size \<or> steer_arw ps \<ge> axes_size \<or> steer_axis ps \<ge> axes_size
         then Inr (g, [])
         else
           sbind (idx (axes msg) (accel_arw ps)) (\<lambda>xa.
           sbind (idx (axes msg) (steer_arw ps)) (\<lambda>xs.
           sbind (idx (axes msg) (steer_axis ps)) (\<lambda>xj.
           sbind (mode_check msg g) (\<lambda>g1.
           sbind (control_data (c_trunc xa) (c_trunc xs) xj g1) (\<lambda>g2.
             let g3 = (clamp_values g2)\<lparr>prev_joy := msg\<rparr>
             in Inr (g3, publish_values g3)))))))"

fun gp_step :: "Gamepad \<Rightarrow> GpEvent \<Rightarrow> exn + (Gamepad \<times> GpOut list)" where
  "gp_step g (JoyMsg now msg) = joyCallback now msg g"
| "gp_step g (SafetyTimer now) = Inr (safetyCheck now g, [])"

section \<open>Invariant\<close>

definition gp_inv :: "Gamepad \<Rightarrow> bool" where
  "gp_inv g \<longleftrightarrow> cmd_mode g \<in> {0, 1, 2, 3} \<and> 0 \<le> accel_val g"

fun gp_ok :: "GpOut \<Rightarrow> bool" where
  "gp_ok (TeleopControl m) = (0 \<le> cm_speed m \<and> \<bar>cm_steering_angle m\<bar> \<le> pi / 4)"
| "gp_ok (TeleopCommand d) = (d \<in> {0, 1, 2, 3})"

lemma on_rising_inv:
  "on_rising msg btn f g = Inr g' \<Longrightarrow> P g \<Longrightarrow> (\<And>x. P x \<Longrightarrow> P (f x)) \<Longrightarrow> P g'"
  by (auto simp: on_rising_def sbind_eq_Inr split: if_splits)

lemma on_rising_gp_inv:
  "on_rising msg btn f g = Inr g' \<Longrightarrow> gp_inv g \<Longrightarrow> (\<And>x. gp_inv x \<Longrightarrow> gp_inv (f x)) \<Longrightarrow> gp_inv g'"
  by (rule on_rising_inv)

lemma mode_effects_inv:
  "gp_inv g \<Longrightarrow> gp_inv (g\<lparr>cmd_mode := 0, accel_val := 0, steer_val := 0\<rparr>)"
  "gp_inv g \<Longrightarrow> gp_inv (g\<lparr>cmd_mode := 1\<rparr>)"
  "gp_inv g \<Longrightarrow> gp_inv (g\<lparr>cmd_mode := 2\<rparr>)"
  "gp_inv g \<Longrightarrow> gp_inv (g\<lparr>cmd_mode := 3\<rparr>)"
  "gp_inv g \<Longrightarrow> gp_inv (g\<lparr>accel_val := 0, steer_val := 0, cmd_mode := 0\<rparr>)"
  "gp_inv g \<Longrightarrow> gp_inv (g\<lparr>accel_val := 0, steer_val := 0\<rparr>)"
  by (simp_all add: gp_inv_def)

lemma mode_check_inv:
  assumes "mode_check msg g = Inr g'" and "gp_inv g"
  shows "gp_inv g'"
proof -
  let ?ps = "gp_params g"
  obtain g1 g2 g3 g4 g5 where
    1: "on_rising msg (stop_btn ?ps) (\<lambda>g. g\<lparr>cmd_mode := 0, accel_val := 0, steer_val := 0\<rparr>) g = Inr g1" and
    2: "on_rising msg (manual_btn ?ps) (\<lambda>g. g\<lparr>cmd_mode := 1\<rparr>) g1 = Inr g2" and
    3: "on_rising msg (auto_btn ?ps) (\<lambda>g. g\<lparr>cmd_mode := 2\<rparr>) g2 = Inr g3" and
    4: "on_rising msg (tbd_btn ?ps) (\<lambda>g. g\<lparr>cmd_mode := 3\<rparr>) g3 = Inr g4" and
    5: "on_rising msg (reset_btn ?ps) (\<lambda>g. g\<lparr>accel_val := 0, steer_val := 0, cmd_mode := 0\<rparr>) g4 = Inr g5" and
    6: "on_rising msg (reset2_btn ?ps) (\<lambda>g. g\<lparr>accel_val := 0, steer_val := 0\<rparr>) g5 = Inr g'"
    using assms(1) unfolding mode_check_def Let_def sbind_eq_Inr by (elim exE conjE) rule
  have "gp_inv g1" by (rule on_rising_gp_inv [OF 1 assms(2) mode_effects_inv(1)])
  then have "gp_inv g2" by (rule on_rising_gp_inv [OF 2 _ mode_effects_inv(2)])
  then have "gp_inv g3" by (rule on_rising_gp_inv [OF 3 _ mode_effects_inv(3)])
  then have "gp_inv g4" by (rule on_rising_gp_inv [OF 4 _ mode_effects_inv(4)])
  then have "gp_inv g5" by (rule on_rising_gp_inv [OF 5 _ mode_effects_inv(5)])
  then show ?thesis by (rule on_rising_gp_inv [OF 6 _ mode_effects_inv(6)])
qed

lemma control_data_inv:
  "control_data a s j g = Inr g' \<Longrightarrow> gp_inv g \<Longrightarrow> gp_inv (clamp_values g')"
  by (auto simp: control_data_def gp_inv_def clamp_values_def Let_def sbind_eq_Inr split: if_splits)

lemma clamp_values_steer: "\<bar>steer_val (clamp_values g)\<bar> \<le> 45"
  by (auto simp: clamp_values_def std_clamp_def)

lemma publish_values_ok:
  assumes "gp_inv g" and "\<bar>steer_val g\<bar> \<le> 45"
  shows "list_all gp_ok (publish_values g)"
proof -
  have "\<bar>steer_val g * pi / 180\<bar> = \<bar>steer_val g\<bar> * (pi / 180)"
    by (simp add: abs_mult)
  also have "\<dots> \<le> 45 * (pi / 180)"
    using assms(2) by (intro mult_right_mono) simp_all
  finally have "\<bar>steer_val g * pi / 180\<bar> \<le> pi / 4" by simp
  then show ?thesis
    using assms(1) by (auto simp: publish_values_def gp_inv_def)
qed

lemma gp_step_ok:
  assumes "gp_inv g" and "gp_step g e = Inr (g', os)"
  shows "gp_inv g' \<and> list_all gp_ok os"
proof (cases e)
  case (SafetyTimer now)
  with assms show ?thesis by (auto simp: safetyCheck_def gp_inv_def split: if_splits)
next
  case (JoyMsg now msg)
  have inv0: "gp_inv (g\<lparr>last_joy_time := now, joy_connected := True\<rparr>)"
    using assms(1) by (simp add: gp_inv_def)
  from assms(2) have "(g' = g\<lparr>last_joy_time := now, joy_connected := True\<rparr> \<and> os = []) \<or>
     (\<exists>g1 g2 a s j. mode_check msg (g\<lparr>last_joy_time := now, joy_connected := True\<rparr>) = Inr g1
        \<and> control_data a s j g1 = Inr g2 \<and> g' = clamp_values g2\<lparr>prev_joy := msg\<rparr> \<and> os = publish_values g')"
    unfolding JoyMsg by (auto simp: joyCallback_def Let_def sbind_eq_Inr split: if_splits) blast+
  then show ?thesis
  proof (elim disjE exE conjE)
    assume "g' = g\<lparr>last_joy_time := now, joy_connected := True\<rparr>" and "os = []"
    with inv0 show ?thesis by simp
  next
    fix g1 g2 a s j
    assume "mode_check msg (g\<lparr>last_joy_time := now, joy_connected := True\<rparr>) = Inr g1"
      and "control_data a s j g1 = Inr g2"
      and r: "g' = clamp_values g2\<lparr>prev_joy := msg\<rparr>" "os = publish_values g'"
    then have "gp_inv (clamp_values g2)"
      using inv0 mode_check_inv control_data_inv by blast
    then have "gp_inv g'" by (simp add: r gp_inv_def)
    moreover have "\<bar>steer_val g'\<bar> \<le> 45"
      using clamp_values_steer [of g2] by (simp add: r)
    ultimately show ?thesis
      using r publish_values_ok by blast
  qed
qed

interpretation gp: handler_system gp_step gp_inv gp_ok
  by unfold_locales (blast dest: gp_step_ok)+

section \<open>When a message is handled at all\<close>

definition btn_fits :: "Joy \<Rightarrow> int \<Rightarrow> bool" where
  "btn_fits j b \<longleftrightarrow> 0 \<le> b \<and> b < int (length (buttons j))"

definition axis_fits :: "Joy \<Rightarrow> int \<Rightarrow> bool" where
  "axis_fits j a \<longleftrightarrow> 0 \<le> a \<and> a < int (length (axes j))"

definition joy_fits :: "GpParams \<Rightarrow> Joy \<Rightarrow> bool" where
  "joy_fits ps j \<longleftrightarrow>
     axis_fits j (accel_arw ps) \<and> axis_fits j (steer_arw ps) \<and> axis_fits j (steer_axis ps)
     \<and> btn_fits j (stop_btn ps) \<and> btn_fits j (manual_btn ps) \<and> btn_fits j (auto_btn ps)
     \<and> btn_fits j (tbd_btn ps) \<and> btn_fits j (reset_btn ps) \<and> btn_fits j (reset2_btn ps)"

definition pressed :: "Joy \<Rightarrow> Joy \<Rightarrow> int \<Rightarrow> bool" where
  "pressed msg prev b \<longleftrightarrow> buttons msg ! nat b = 1 \<and> buttons prev ! nat b = 0"

lemma on_rising_fits:
  "btn_fits msg b \<Longrightarrow> btn_fits (prev_joy g) b \<Longrightarrow>
   on_rising msg b f g = Inr (if pressed msg (prev_joy g) b then f g else g)"
  by (simp add: on_rising_def rising_def btn_fits_def pressed_def)

text \<open>What the mode buttons do when all of them exist: later ones in the chain win.\<close>

definition mode_after :: "GpParams \<Rightarrow> Joy \<Rightarrow> Joy \<Rightarrow> int \<Rightarrow> int" where
  "mode_after ps msg prev m =
     (if pressed msg prev (reset_btn ps) then 0
      else if pressed msg prev (tbd_btn ps) then 3
      else if pressed msg prev (auto_btn ps) then 2
      else if pressed msg prev (manual_btn ps) then 1
      else if pressed msg prev (stop_btn ps) then 0 else m)"

lemma mode_check_fits:
  assumes "joy_fits (gp_params g) msg" and "joy_fits (gp_params g) (prev_joy g)"
  shows "\<exists>g'. mode_check msg g = Inr g' \<and> cmd_mode g' = mode_after (gp_params g) msg (prev_joy g) (cmd_mode g)
     \<and> gp_params g' = gp_params g \<and> prev_joy g' = prev_joy g"
proof -
  let ?ps = "gp_params g" and ?p = "prev_joy g"
  have fits: "btn_fits msg b" "btn_fits ?p b"
    if "b \<in> {stop_btn ?ps, manual_btn ?ps, auto_btn ?ps, tbd_btn ?ps, reset_btn ?ps, reset2_btn ?ps}" for b
    using that assms by (auto simp: joy_fits_def)
  obtain g1 where 1: "on_rising msg (stop_btn ?ps) (\<lambda>g. g\<lparr>cmd_mode := 0, accel_val := 0, steer_val := 0\<rparr>) g = Inr g1"
    "prev_joy g1 = ?p" "gp_params g1 = ?ps" "cmd_mode g1 = (if pressed msg ?p (stop_btn ?ps) then 0 else cmd_mode g)"
    using fits by (simp add: on_rising_fits)
  obtain g2 where 2: "on_rising msg (manual_btn ?ps) (\<lambda>g. g\<lparr>cmd_mode := 1\<rparr>) g1 = Inr g2"
    "prev_joy g2 = ?p" "gp_params g2 = ?ps" "cmd_mode g2 = (if pressed msg ?p (manual_btn ?ps) then 1 else cmd_mode g1)"
    using fits by (simp add: on_rising_fits 1(2,3))
  obtain g3 where 3: "on_rising msg (auto_btn ?ps) (\<lambda>g. g\<lparr>cmd_mode := 2\<rparr>) g2 = Inr g3"
    "prev_joy g3 = ?p" "gp_params g3 = ?ps" "cmd_mode g3 = (if pressed msg ?p (auto_btn ?ps) then 2 else cmd_mode g2)"
    using fits by (simp add: on_rising_fits 2(2,3))
  obtain g4 where 4: "on_rising msg (tbd_btn ?ps) (\<lambda>g. g\<lparr>cmd_mode := 3\<rparr>) g3 = Inr g4"
    "prev_joy g4 = ?p" "gp_params g4 = ?ps" "cmd_mode g4 = (if pressed msg ?p (tbd_btn ?ps) then 3 else cmd_mode g3)"
    using fits by (simp add: on_rising_fits 3(2,3))
  obtain g5 where 5: "on_rising msg (reset_btn ?ps) (\<lambda>g. g\<lparr>accel_val := 0, steer_val := 0, cmd_mode := 0\<rparr>) g4 = Inr g5"
    "prev_joy g5 = ?p" "gp_params g5 = ?ps" "cmd_mode g5 = (if pressed msg ?p (reset_btn ?ps) then 0 else cmd_mode g4)"
    using fits by (simp add: on_rising_fits 4(2,3))
  obtain g6 where 6: "on_rising msg (reset2_btn ?ps) (\<lambda>g. g\<lparr>accel_val := 0, steer_val := 0\<rparr>) g5 = Inr g6"
    "prev_joy g6 = ?p" "gp_params g6 = ?ps" "cmd_mode g6 = cmd_mode g5"
    using fits by (simp add: on_rising_fits 5(2,3))
  show ?thesis
    using 1 2 3 4 5 6 by (simp add: mode_check_def Let_def mode_after_def)
qed

lemma arrow_fits: "axis_fits prev a \<Longrightarrow> \<exists>v'. arrow raw a k prev v = Inr v'"
  by (auto simp: arrow_def axis_fits_def)

lemma control_data_fits:
  assumes "joy_fits (gp_params g) (prev_joy g)"
  shows "\<exists>g'. control_data a s j g = Inr g' \<and> cmd_mode g' = cmd_mode g \<and> gp_params g' = gp_params g
     \<and> (cmd_mode g \<noteq> 1 \<longrightarrow> accel_val g' = 0 \<and> steer_val g' = 0)"
proof -
  obtain va where "arrow a (accel_arw (gp_params g)) (accel_scale (gp_params g)) (prev_joy g) (accel_val g) = Inr va"
    using assms arrow_fits by (fastforce simp: joy_fits_def)
  moreover obtain vs where "arrow s (steer_arw (gp_params g)) (steer_scale (gp_params g)) (prev_joy g) (steer_val g) = Inr vs"
    using assms arrow_fits by (fastforce simp: joy_fits_def)
  ultimately show ?thesis
    by (simp add: control_data_def Let_def)
qed

lemma joyCallback_fits:
  assumes "joy_fits (gp_params g) msg" and "joy_fits (gp_params g) (prev_joy g)"
  shows "\<exists>g' v s. joyCallback now msg g = Inr (g', [TeleopControl \<lparr>cm_speed = v, cm_steering_angle = s\<rparr>,
        TeleopCommand (word_of_int (cmd_mode g'))])
     \<and> cmd_mode g' = mode_after (gp_params g) msg (prev_joy g) (cmd_mode g)
     \<and> (cmd_mode g' \<noteq> 1 \<longrightarrow> v = 0 \<and> s = 0)
     \<and> gp_params g' = gp_params g \<and> joy_fits (gp_params g') (prev_joy g')"
proof -
  let ?g = "g\<lparr>last_joy_time := now, joy_connected := True\<rparr>" and ?ps = "gp_params g"
  obtain g1 where 1: "mode_check msg ?g = Inr g1"
    "cmd_mode g1 = mode_after ?ps msg (prev_joy g) (cmd_mode g)"
    "gp_params g1 = ?ps" "prev_joy g1 = prev_joy g"
    using mode_check_fits [of ?g msg] assms by auto
  let ?a = "c_trunc (axes msg ! nat (accel_arw ?ps))" and ?s = "c_trunc (axes msg ! nat (steer_arw ?ps))"
    and ?j = "axes msg ! nat (steer_axis ?ps)"
  obtain g2 where 2: "control_data ?a ?s ?j g1 = Inr g2" "cmd_mode g2 = cmd_mode g1"
    "gp_params g2 = ?ps" "cmd_mode g1 \<noteq> 1 \<longrightarrow> accel_val g2 = 0 \<and> steer_val g2 = 0"
    using control_data_fits [of g1 ?a ?s ?j] assms(2) 1(3,4) by auto
  have ax: "axis_fits msg (accel_arw ?ps)" "axis_fits msg (steer_arw ?ps)" "axis_fits msg (steer_axis ?ps)"
    using assms(1) by (simp_all add: joy_fits_def)
  let ?g3 = "clamp_values g2\<lparr>prev_joy := msg\<rparr>"
  have "joyCallback now msg g = Inr (?g3, publish_values ?g3)"
    using 1(1) 1(3) 2(1) ax by (simp add: joyCallback_def Let_def axis_fits_def)
  moreover have "cmd_mode ?g3 = cmd_mode g1" "gp_params ?g3 = ?ps" "prev_joy ?g3 = msg"
    using 2(2,3) by (simp_all add: clamp_values_def)
  moreover have "cmd_mode g1 \<noteq> 1 \<longrightarrow> accel_val ?g3 = 0 \<and> steer_val ?g3 = 0"
    using 2(4) by (simp add: clamp_values_def std_clamp_def)
  ultimately show ?thesis
    using 1(2) assms(1)
    by (intro exI [of _ ?g3] exI [of _ "accel_val ?g3"] exI [of _ "steer_val ?g3 * pi / 180"])
      (simp add: publish_values_def)
qed

lemma on_rising_same: "on_rising (prev_joy g) b f g = Inr g' \<Longrightarrow> g' = g"
  by (auto simp: on_rising_def rising_def sbind_eq_Inr split: if_splits)

lemma mode_check_same: "mode_check (prev_joy g) g = Inr g' \<Longrightarrow> g' = g"
  unfolding mode_check_def Let_def sbind_eq_Inr by (auto dest!: on_rising_same)

section \<open>Properties of the node\<close>

lemma ctor_gp_inv: "gp_inv (GamepadControlNode_ctor ps now)"
  by (simp add: gp_inv_def GamepadControlNode_ctor_def)

text \<open>
  C33.  In every run of the node, whatever the joystick sends and the timer does: a published
  speed is never negative, a published steering angle is at most 45 degrees to either side,
  and the published mode is one of the four the node knows.
\<close>

theorem gp_published_bounds:
  assumes "run_handlers gp_step (GamepadControlNode_ctor ps now) es = Inr (g, outs)"
  shows "(\<forall>m. TeleopControl m \<in> set outs \<longrightarrow> 0 \<le> cm_speed m \<and> \<bar>cm_steering_angle m\<bar> \<le> pi / 4)
    \<and> (\<forall>d. TeleopCommand d \<in> set outs \<longrightarrow> d \<in> {0, 1, 2, 3})"
  using gp.run_out [OF assms ctor_gp_inv] by fastforce

definition joy_of :: "int list \<Rightarrow> real list \<Rightarrow> Joy" where
  "joy_of bs xs = \<lparr>axes = xs, buttons = bs\<rparr>"

text \<open>A message of the default pad: six buttons, eight axes.\<close>

definition idle_joy :: Joy where
  "idle_joy = joy_of [0, 0, 0, 0, 0, 0] [0, 0, 0, 0, 0, 0, 0, 0]"

definition manual_joy :: Joy where
  "manual_joy = joy_of [0, 1, 0, 0, 0, 0] [0, 0, 0, 0, 0, 0, 0, 0]"

lemmas joy_consts = joy_of_def idle_joy_def manual_joy_def gp_defaults_def

lemma joy_fits_examples: "joy_fits gp_defaults idle_joy" "joy_fits gp_defaults manual_joy"
  by (simp_all add: joy_fits_def axis_fits_def btn_fits_def joy_consts)

definition released :: "Joy \<Rightarrow> bool" where
  "released j \<longleftrightarrow> 6 \<le> length (buttons j) \<and> (\<forall>b < 6. buttons j ! b = 0)"

lemma released_idle: "released idle_joy" "released \<lparr>axes = xs, buttons = replicate 20 0\<rparr>"
  by (auto simp: released_def joy_consts less_Suc_eq eval_nat_numeral)

lemma mode_check_manual:
  assumes "gp_params g = gp_defaults" and "released (prev_joy g)"
  shows "mode_check manual_joy g = Inr (g\<lparr>cmd_mode := 1\<rparr>)"
proof -
  have [simp]: "on_rising manual_joy b f h = Inr (if b = 1 then f h else h)"
    if "0 \<le> b" "b < 6" "released (prev_joy h)" for b f h
  proof -
    have "buttons (prev_joy h) ! nat b = 0" "btn_fits (prev_joy h) b"
      using that by (auto simp: released_def btn_fits_def)
    moreover have "b \<in> {0, 1, 2, 3, 4, 5}" using that(1,2) by auto
    then have "buttons manual_joy ! nat b = 1 \<longleftrightarrow> b = 1" and "btn_fits manual_joy b"
      by (auto simp: joy_consts btn_fits_def)
    ultimately show ?thesis
      by (simp add: on_rising_fits pressed_def)
  qed
  show ?thesis
    using assms by (simp add: mode_check_def Let_def gp_defaults_def)
qed

lemma joyCallback_manual:
  assumes "gp_params g = gp_defaults" and "released (prev_joy g)" and "0 \<le> accel_val g"
  shows "map_sum id snd (joyCallback now manual_joy g) =
     Inr [TeleopControl \<lparr>cm_speed = accel_val g, cm_steering_angle = std_clamp (steer_val g) (- 45) 45 * pi / 180\<rparr>,
          TeleopCommand 1]"
proof -
  let ?g = "g\<lparr>last_joy_time := now, joy_connected := True\<rparr>"
  have "mode_check manual_joy ?g = Inr (?g\<lparr>cmd_mode := 1\<rparr>)"
    using assms by (intro mode_check_manual) simp_all
  moreover have "control_data 0 0 0 (?g\<lparr>cmd_mode := 1\<rparr>) = Inr (?g\<lparr>cmd_mode := 1\<rparr>)"
    using assms(1) by (simp add: control_data_def arrow_def gp_defaults_def)
  ultimately show ?thesis
    using assms by (simp add: joyCallback_def Let_def gp_defaults_def manual_joy_def joy_of_def
        publish_values_def clamp_values_def)
qed

lemma manual_run:
  "\<exists>g. run_handlers gp_step (GamepadControlNode_ctor gp_defaults 0) [JoyMsg 1 manual_joy] =
     Inr (g, [TeleopControl \<lparr>cm_speed = 0, cm_steering_angle = 0\<rparr>, TeleopCommand 1])"
proof -
  have "map_sum id snd (joyCallback 1 manual_joy (GamepadControlNode_ctor gp_defaults 0)) =
      Inr [TeleopControl \<lparr>cm_speed = 0, cm_steering_angle = 0\<rparr>, TeleopCommand 1]"
    by (subst joyCallback_manual) (simp_all add: GamepadControlNode_ctor_def released_idle std_clamp_def)
  then show ?thesis
    by (cases "joyCallback 1 manual_joy (GamepadControlNode_ctor gp_defaults 0)") auto
qed

theorem gp_published_bounds_witness:
  "(\<exists>g. run_handlers gp_step (GamepadControlNode_ctor gp_defaults 0) [JoyMsg 1 manual_joy] =
     Inr (g, [TeleopControl \<lparr>cm_speed = 0, cm_steering_angle = 0\<rparr>, TeleopCommand 1]))
   \<and> (1 :: int8) \<in> {0, 1, 2, 3}"
proof -
  obtain g where r: "run_handlers gp_step (GamepadControlNode_ctor gp_defaults 0) [JoyMsg 1 manual_joy] =
     Inr (g, [TeleopControl \<lparr>cm_speed = 0, cm_steering_angle = 0\<rparr>, TeleopCommand 1])"
    using manual_run by blast
  show ?thesis using gp_published_bounds [OF r] r by auto
qed

text \<open>
  A message that has every configured axis and button is always handled: the node
  publishes one control command and one mode; the mode is that of the last of the buttons
  stop, manual, auto, tbd, reset that has just been pressed (in this order), else the old
  one; outside manual mode the command is zero.  And the next such message is handled too.
\<close>

theorem joy_message_semantics:
  assumes "joy_fits (gp_params g) msg" and "joy_fits (gp_params g) (prev_joy g)"
  shows "\<exists>g' v s. joyCallback now msg g = Inr (g', [TeleopControl \<lparr>cm_speed = v, cm_steering_angle = s\<rparr>,
        TeleopCommand (word_of_int (mode_after (gp_params g) msg (prev_joy g) (cmd_mode g)))])
     \<and> cmd_mode g' = mode_after (gp_params g) msg (prev_joy g) (cmd_mode g)
     \<and> (cmd_mode g' \<noteq> 1 \<longrightarrow> v = 0 \<and> s = 0)
     \<and> gp_params g' = gp_params g \<and> joy_fits (gp_params g') (prev_joy g')"
  using joyCallback_fits [OF assms, of now] by metis

definition idle_pad :: "int \<Rightarrow> Gamepad" where
  "idle_pad m = \<lparr>gp_params = gp_defaults, cmd_mode = m, accel_val = 0, steer_val = 0,
     prev_joy = idle_joy, last_joy_time = 0, joy_connected = True\<rparr>"

theorem joy_message_semantics_witness:
  "\<exists>g' v s. joyCallback 1 manual_joy (idle_pad 2) = Inr (g', [TeleopControl \<lparr>cm_speed = v, cm_steering_angle = s\<rparr>, TeleopCommand 1])
     \<and> cmd_mode g' = 1"
proof -
  have "joy_fits (gp_params (idle_pad 2)) manual_joy" "joy_fits (gp_params (idle_pad 2)) (prev_joy (idle_pad 2))"
    by (simp_all add: idle_pad_def joy_fits_examples)
  moreover have "mode_after (gp_params (idle_pad 2)) manual_joy (prev_joy (idle_pad 2)) (cmd_mode (idle_pad 2)) = 1"
    by (simp add: mode_after_def pressed_def idle_pad_def joy_consts)
  ultimately show ?thesis
    using joy_message_semantics [of "idle_pad 2" manual_joy 1] by auto
qed

lemma on_rising_short: "\<not> btn_fits msg b \<Longrightarrow> on_rising msg b f g = Inl Bad_index"
  by (auto simp: on_rising_def rising_def btn_fits_def idx_def)

lemma mode_check_short:
  "\<not> btn_fits msg (stop_btn (gp_params g)) \<Longrightarrow> mode_check msg g = Inl Bad_index"
  by (simp add: mode_check_def Let_def on_rising_short)

text \<open>
  The buttons are not checked against the size of the message as the axes are: a message
  with enough axes but without the configured stop button makes the callback read outside
  the button vector.
\<close>

theorem missing_button_is_read:
  assumes "axis_fits msg (accel_arw (gp_params g))" and "axis_fits msg (steer_arw (gp_params g))"
    and "axis_fits msg (steer_axis (gp_params g))" and "\<not> btn_fits msg (stop_btn (gp_params g))"
  shows "joyCallback now msg g = Inl Bad_index"
  using assms mode_check_short [of msg "g\<lparr>last_joy_time := now, joy_connected := True\<rparr>"]
  by (simp add: joyCallback_def Let_def axis_fits_def)

theorem missing_button_is_read_witness:
  "joyCallback 1 (joy_of [] [0, 0, 0, 0, 0, 0, 0, 0]) (idle_pad 0) = Inl Bad_index"
  by (rule missing_button_is_read) (simp_all add: axis_fits_def btn_fits_def idle_pad_def joy_consts)

text \<open>
  The watchdog publishes nothing, and it leaves the steering value at 90, which is the
  servo's centre but not one of this variable, whose unit is degrees from centre: when the
  pad comes back with the manual button pressed and the stick centred, the node commands
  full lock (45 degrees).
\<close>

theorem watchdog_then_manual_is_full_lock:
  assumes "gp_params g = gp_defaults" and "prev_joy g = idle_joy"
    and "joy_connected g" and "now - last_joy_time g > 2"
  shows "gp_step g (SafetyTimer now) = Inr (safetyCheck now g, [])
    \<and> steer_val (safetyCheck now g) = 90
    \<and> map_sum id snd (joyCallback now' manual_joy (safetyCheck now g)) =
        Inr [TeleopControl \<lparr>cm_speed = 0, cm_steering_angle = pi / 4\<rparr>, TeleopCommand 1]"
proof -
  let ?g = "g\<lparr>joy_connected := False, accel_val := 0, steer_val := 90, cmd_mode := 0\<rparr>"
  have "safetyCheck now g = ?g"
    using assms(3,4) by (simp add: safetyCheck_def)
  moreover have "map_sum id snd (joyCallback now' manual_joy ?g) =
      Inr [TeleopControl \<lparr>cm_speed = 0, cm_steering_angle = pi / 4\<rparr>, TeleopCommand 1]"
    using assms(1,2) joyCallback_manual [of ?g now'] by (simp add: std_clamp_def released_idle)
  ultimately show ?thesis by simp
qed

theorem watchdog_then_manual_is_full_lock_witness:
  "steer_val (safetyCheck 3 (idle_pad 1)) = 90"
  using watchdog_then_manual_is_full_lock [of "idle_pad 1" 3] by (simp add: idle_pad_def)

end
