(* ===== verification/Text.thy ===== *)
theory Text
  imports Prelude
begin

text \<open>
  Numbers as the output streams and \<open>printf\<close> print them: unsigned decimal numbers and
  fixed-point numbers with a given count of decimals.
\<close>

fun show_nat :: "nat \<Rightarrow> string" where
  "show_nat n = (if n < 10 then [char_of (48 + n)] else show_nat (n div 10) @ [char_of (48 + n mod 10)])"

declare show_nat.simps [simp del]

definition show_int :: "int \<Rightarrow> string" where
  "show_int k = (if k < 0 then ''-'' @ show_nat (nat (- k)) else show_nat (nat k))"

text \<open>The \<open>d\<close> lowest decimal digits.\<close>

definition low_digits :: "nat \<Rightarrow> nat \<Rightarrow> string" where
  "low_digits d n = map (\<lambda>i. char_of (48 + n div 10 ^ i mod 10)) (rev [0..<d])"

text \<open>A value in units of its last printed decimal: to nearest, ties to even.\<close>

definition scaled :: "nat \<Rightarrow> real \<Rightarrow> int" where
  "scaled d x =
     (let y = 10 ^ d * \<bar>x\<bar>; k = \<lfloor>y\<rfloor>; r = y - of_int k
      in if r < 1 / 2 then k else if r > 1 / 2 then k + 1 else if even k then k else k + 1)"

definition show_fixed :: "nat \<Rightarrow> real \<Rightarrow> string" where
  "show_fixed d x =
     (if x < 0 then ''-'' else []) @ show_nat (nat (scaled d x) div 10 ^ d) @ ''.''
       @ low_digits d (nat (scaled d x) mod 10 ^ d)"

lemma length_low_digits [simp]: "length (low_digits d n) = d"
  by (simp add: low_digits_def)

end
