(* ===== verification/ProcessManager.thy ===== *)
theory ProcessManager
  imports Messages Text "HOL-Library.List_Lexorder" "HOL-Library.Char_ord" "HOL-Library.Sublist"
begin

text \<open>
  Package \<open>autorccar_utils\<close> (\<open>process_manager_node.cpp\<close>): the node that starts and stops the
  other packages as child processes, reports which of them run, samples the machine's load
  and reboots it on request.  The kernel's view of the children (running, or exited and not
  yet waited for) is part of the modelled state, so that \<open>fork\<close>, \<open>waitpid\<close> and \<open>killpg\<close> have
  their meaning; the file contents, the clock and the environment are arguments.
\<close>

section \<open>Strings\<close>

abbreviation DQ :: char where "DQ \<equiv> CHR 0x22"

definition quoted :: "string \<Rightarrow> string" where
  "quoted s = DQ # s @ [DQ]"

text \<open>\<open>std::string::find\<close>: the first position at or after \<open>pos\<close> where the pattern begins.\<close>

fun find_sub :: "string \<Rightarrow> string \<Rightarrow> nat option" where
  "find_sub pat [] = (if pat = [] then Some 0 else None)"
| "find_sub pat (c # s) = (if prefix pat (c # s) then Some 0 else map_option Suc (find_sub pat s))"

definition str_find :: "string \<Rightarrow> string \<Rightarrow> nat \<Rightarrow> nat option" where
  "str_find s pat pos = (if pos \<le> length s then map_option ((+) pos) (find_sub pat (drop pos s)) else None)"

definition ParseField :: "string \<Rightarrow> string \<Rightarrow> string option" where
  "ParseField json key =
     Option.bind (str_find json (quoted key) 0) (\<lambda>p1.
     Option.bind (str_find json '':'' p1) (\<lambda>p2.
     Option.bind (str_find json [DQ] p2) (\<lambda>p3.
     Option.bind (str_find json [DQ] (p3 + 1)) (\<lambda>e.
     Some (take (e - p3 - 1) (drop (p3 + 1) json))))))"

text \<open>Extraction of a word and of a \<open>long\<close> from an input stream; \<open>None\<close> is the failed stream.\<close>

definition is_space :: "char \<Rightarrow> bool" where
  "is_space c \<longleftrightarrow> c \<in> {CHR 0x20, CHR 0x09, CHR 0x0A, CHR 0x0B, CHR 0x0C, CHR 0x0D}"

definition is_digit :: "char \<Rightarrow> bool" where
  "is_digit c \<longleftrightarrow> 48 \<le> (of_char c :: nat) \<and> (of_char c :: nat) \<le> 57"

definition skip_ws :: "string \<Rightarrow> string" where
  "skip_ws s = dropWhile is_space s"

definition get_word :: "string \<Rightarrow> (string \<times> string) option" where
  "get_word s =
     (let t = skip_ws s
      in if t = [] then None else Some (takeWhile (Not \<circ> is_space) t, dropWhile (Not \<circ> is_space) t))"

definition digits_val :: "string \<Rightarrow> int" where
  "digits_val ds = foldl (\<lambda>a c. 10 * a + (of_char c - 48)) 0 ds"

definition get_long :: "string \<Rightarrow> (int \<times> string) option" where
  "get_long s =
     (let t = skip_ws s;
          neg = (t \<noteq> [] \<and> hd t = CHR ''-'');
          u = (if t \<noteq> [] \<and> hd t \<in> {CHR ''-'', CHR ''+''} then tl t else t);
          ds = takeWhile is_digit u
      in if ds = [] then None
         else Some (if neg then - digits_val ds else digits_val ds, dropWhile is_digit u))"

section \<open>State\<close>

record CpuTimes =
  ct_user :: int
  ct_nice :: int
  ct_sys :: int
  ct_idle :: int
  ct_iowait :: int
  ct_irq :: int
  ct_softirq :: int
  ct_steal :: int

definition Total :: "CpuTimes \<Rightarrow> int" where
  "Total t = ct_user t + ct_nice t + ct_sys t + ct_idle t + ct_iowait t + ct_irq t + ct_softirq t + ct_steal t"

text \<open>\<open>map<string, pid_t>\<close> as an association list in key order.\<close>

type_synonym pids = "(string \<times> int) list"

fun map_set :: "string \<Rightarrow> 'a \<Rightarrow> (string \<times> 'a) list \<Rightarrow> (string \<times> 'a) list" where
  "map_set k v [] = [(k, v)]"
| "map_set k v ((k', v') # m) =
     (if k = k' then (k, v) # m
      else if k < k' then (k, v) # (k', v') # m
      else (k', v') # map_set k v m)"

record ProcMgr =
  pm_pids :: pids
  pm_prev_cpu :: CpuTimes

definition configs :: "(string \<times> string list) list" where
  "configs =
     map_set ''costmap'' [''ros2'', ''launch'', ''autorccar_costmap'', ''costmap.launch.py'']
    (map_set ''hardware_control'' [''ros2'', ''launch'', ''autorccar_hardware_control'', ''hardware_control.launch.py'']
    (map_set ''planning_control'' [''ros2'', ''launch'', ''autorccar_planning_control'', ''planning_control.launch.py'']
    (map_set ''ins_gnss'' [''ros2'', ''launch'', ''autorccar_ins_gnss'', ''ins_gnss_nav.launch.py'']
    (map_set ''lio_sam'' [''ros2'', ''launch'', ''lio_sam'', ''run.launch.py'']
    (map_set ''ublox'' [''ros2'', ''run'', ''autorccar_ubloxf9r'', ''ubloxf9r'']
    (map_set ''livox'' [''ros2'', ''launch'', ''livox_ros_driver2'', ''msg_MID360_launch.py'']
    (map_set ''gscam'' [''ros2'', ''run'', ''gscam'', ''gscam_node''] [])))))))"

text \<open>The children of the process: running, and exited but not yet waited for.\<close>

record OsProcs =
  os_live :: "int set"
  os_zombie :: "int set"

datatype PmOut =
    Started string int "string list"
  | Killpg int
  | ProcessStatus string
  | SystemStatus string
  | RunShell string

text \<open>Broken-down local time and the environment variable \<open>HOME\<close>.\<close>

record PmEnv =
  tm_year :: nat
  tm_mon :: nat
  tm_mday :: nat
  tm_hour :: nat
  tm_min :: nat
  tm_second :: nat
  env_home :: "string option"

section \<open>Process management\<close>

definition waitpid_nohang :: "int \<Rightarrow> OsProcs \<Rightarrow> int \<times> OsProcs" where
  "waitpid_nohang pid os =
     (if pid \<in> os_zombie os then (pid, os\<lparr>os_zombie := os_zombie os - {pid}\<rparr>)
      else if pid \<in> os_live os then (0, os)
      else (-1, os))"

fun ReapFinished :: "OsProcs \<Rightarrow> pids \<Rightarrow> OsProcs \<times> pids" where
  "ReapFinished os [] = (os, [])"
| "ReapFinished os ((n, pid) # m) =
     (if pid \<le> 0 then let (os', m') = ReapFinished os m in (os', (n, pid) # m')
      else let (res, os1) = waitpid_nohang pid os;
               (os', m') = ReapFinished os1 m
           in (os', (n, if res = pid then -1 else pid) # m'))"

definition BuildRosbagCommand :: "PmEnv \<Rightarrow> string list" where
  "BuildRosbagCommand env =
     (let name_oss = ''rosbag2_'' @ show_nat (tm_year env) @ low_digits 2 (tm_mon env) @ low_digits 2 (tm_mday env)
            @ ''_'' @ low_digits 2 (tm_hour env) @ low_digits 2 (tm_min env) @ low_digits 2 (tm_second env);
          home = (case env_home env of None \<Rightarrow> ''/tmp'' | Some h \<Rightarrow> h);
          outdir = home @ ''/bags/'' @ name_oss
      in [''ros2'', ''bag'', ''record'', ''-a'', ''-o'', outdir])"

definition proc_running :: "pids \<Rightarrow> string \<Rightarrow> bool" where
  "proc_running m name = (case map_of m name of None \<Rightarrow> False | Some pid \<Rightarrow> pid > 0)"

definition command_of :: "PmEnv \<Rightarrow> string \<Rightarrow> string list option" where
  "command_of env name = (if name = ''rosbag'' then Some (BuildRosbagCommand env) else map_of configs name)"

text \<open>\<open>pid\<close> is what \<open>fork\<close> returns to the parent; the child runs the command line or exits with 127.\<close>

definition StartProcess ::
    "PmEnv \<Rightarrow> int \<Rightarrow> string \<Rightarrow> OsProcs \<Rightarrow> ProcMgr \<Rightarrow> OsProcs \<times> ProcMgr \<times> PmOut list" where
  "StartProcess env pid name os0 pm0 =
     (let (os, m) = ReapFinished os0 (pm_pids pm0); pm = pm0\<lparr>pm_pids := m\<rparr>
      in if proc_running m name then (os, pm, [])
         else case command_of env name of
                None \<Rightarrow> (os, pm, [])
              | Some argv \<Rightarrow>
                  if pid < 0 then (os, pm, [])
                  else (os\<lparr>os_live := insert pid (os_live os)\<rparr>,
                        pm\<lparr>pm_pids := map_set name pid m\<rparr>, [Started name pid argv]))"

definition StopProcessByPid :: "int \<Rightarrow> PmOut list" where
  "StopProcessByPid pid = (if pid > 0 then [Killpg pid] else [])"

definition StopProcess :: "string \<Rightarrow> OsProcs \<Rightarrow> ProcMgr \<Rightarrow> OsProcs \<times> ProcMgr \<times> PmOut list" where
  "StopProcess name os0 pm0 =
     (let (os, m) = ReapFinished os0 (pm_pids pm0); pm = pm0\<lparr>pm_pids := m\<rparr>
      in case map_of m name of
           None \<Rightarrow> (os, pm, [])
         | Some pid \<Rightarrow> if pid \<le> 0 then (os, pm, []) else (os, pm, StopProcessByPid pid))"

definition OnProcessCommand ::
    "PmEnv \<Rightarrow> int \<Rightarrow> string \<Rightarrow> OsProcs \<Rightarrow> ProcMgr \<Rightarrow> OsProcs \<times> ProcMgr \<times> PmOut list" where
  "OnProcessCommand env pid msg os pm =
     (case (ParseField msg ''name'', ParseField msg ''action'') of
        (Some name, Some action) \<Rightarrow>
          if action = ''start'' then StartProcess env pid name os pm
          else if action = ''stop'' then StopProcess name os pm
          else (os, pm, [])
      | _ \<Rightarrow> (os, pm, []))"

definition ProcMgr_dtor :: "ProcMgr \<Rightarrow> PmOut list" where
  "ProcMgr_dtor pm = concat (map (\<lambda>(n, pid). StopProcessByPid pid) (pm_pids pm))"

fun append_status :: "pids \<Rightarrow> string \<Rightarrow> bool \<times> string \<Rightarrow> bool \<times> string" where
  "append_status m name (first, oss) =
     (False, oss @ (if first then [] else '','') @ quoted name @ '':''
        @ quoted (if proc_running m name then ''running'' else ''stopped''))"

definition status_json :: "pids \<Rightarrow> string" where
  "status_json m = snd (fold (append_status m) (map fst configs @ [''rosbag'']) (True, ''{'')) @ ''}''"

definition PublishProcessStatus :: "OsProcs \<Rightarrow> ProcMgr \<Rightarrow> OsProcs \<times> ProcMgr \<times> PmOut list" where
  "PublishProcessStatus os0 pm0 =
     (let (os, m) = ReapFinished os0 (pm_pids pm0)
      in (os, pm0\<lparr>pm_pids := m\<rparr>, [ProcessStatus (status_json m)]))"

section \<open>System monitoring\<close>

text \<open>Up to \<open>n\<close> numbers; after a failed extraction the remaining fields keep their initial 0.\<close>

fun get_longs :: "nat \<Rightarrow> string \<Rightarrow> int list" where
  "get_longs 0 s = []"
| "get_longs (Suc n) s = (case get_long s of None \<Rightarrow> replicate (Suc n) 0 | Some (v, r) \<Rightarrow> v # get_longs n r)"

definition cpu_of :: "int list \<Rightarrow> CpuTimes" where
  "cpu_of v = \<lparr>ct_user = v ! 0, ct_nice = v ! 1, ct_sys = v ! 2, ct_idle = v ! 3,
     ct_iowait = v ! 4, ct_irq = v ! 5, ct_softirq = v ! 6, ct_steal = v ! 7\<rparr>"

definition first_line :: "string \<Rightarrow> string" where
  "first_line s = takeWhile (\<lambda>c. c \<noteq> CHR 0x0A) s"

text \<open>The argument is the content of \<open>/proc/stat\<close>, \<open>None\<close> when it cannot be opened.\<close>

definition ReadCpuTimes :: "string option \<Rightarrow> CpuTimes" where
  "ReadCpuTimes file =
     (case file of
        None \<Rightarrow> cpu_of (replicate 8 0)
      | Some s \<Rightarrow>
          (case get_word (first_line s) of
             None \<Rightarrow> cpu_of (replicate 8 0)
           | Some (label, r) \<Rightarrow> cpu_of (get_longs 8 r)))"

definition ComputeCpuUsage :: "string option \<Rightarrow> ProcMgr \<Rightarrow> real \<times> ProcMgr" where
  "ComputeCpuUsage file pm =
     (let cur = ReadCpuTimes file;
          prev = pm_prev_cpu pm;
          prev_idle = ct_idle prev + ct_iowait prev;
          cur_idle = ct_idle cur + ct_iowait cur;
          total_diff = Total cur - Total prev;
          idle_diff = cur_idle - prev_idle;
          usage = (if total_diff > 0 then 100 * of_int (total_diff - idle_diff) / of_int total_diff else 0)
      in (usage, pm\<lparr>pm_prev_cpu := cur\<rparr>))"

text \<open>
  One line of \<open>/proc/meminfo\<close>.  A line that ends after its key leaves \<open>value\<close> uninitialised:
  \<open>junk\<close> is what it holds then.
\<close>

definition mem_line :: "int \<Rightarrow> int \<times> int \<Rightarrow> string \<Rightarrow> int \<times> int" where
  "mem_line junk acc line =
     (case get_word line of
        None \<Rightarrow> acc
      | Some (key, r) \<Rightarrow>
          let v = (case get_long r of Some (v, _) \<Rightarrow> v | None \<Rightarrow> if skip_ws r = [] then junk else 0)
          in if key = ''MemTotal:'' then (v, snd acc)
             else if key = ''MemAvailable:'' then (fst acc, v) else acc)"

definition ReadMemInfo :: "int \<Rightarrow> string list option \<Rightarrow> real \<times> real \<times> real" where
  "ReadMemInfo junk file =
     (case file of
        None \<Rightarrow> (0, 0, 0)
      | Some ls \<Rightarrow>
          let (total, avail) = foldl (mem_line junk) (0, 0) ls;
              used_mb = of_int (total - avail) / 1024;
              percent = (if total > 0 then 100 * of_int (total - avail) / of_int total else 0)
          in (percent, used_mb, of_int total / 1024))"

record StatVfs =
  f_frsize :: nat
  f_blocks :: nat
  f_bfree :: nat

definition ReadDiskInfo :: "StatVfs option \<Rightarrow> real \<times> real \<times> real" where
  "ReadDiskInfo st =
     (case st of
        None \<Rightarrow> (0, 0, 0)
      | Some st \<Rightarrow>
          let GB = 1024 * 1024 * 1024;
              total = of_nat (f_blocks st) * of_nat (f_frsize st);
              free = of_nat (f_bfree st) * of_nat (f_frsize st);
              used = total - free;
              percent = (if total > 0 then 100 * used / total else 0)
          in (percent, used / GB, total / GB))"

definition ReadTemperature :: "string option \<Rightarrow> real" where
  "ReadTemperature file =
     (case file of
        None \<Rightarrow> -1
      | Some s \<Rightarrow> (case get_long s of None \<Rightarrow> 0 | Some (milli_c, _) \<Rightarrow> of_int milli_c / 1000))"

record SysFiles =
  fl_stat :: "string option"
  fl_meminfo :: "string list option"
  fl_junk :: int
  fl_statvfs :: "StatVfs option"
  fl_temp :: "string option"

definition PublishSystemStatus :: "SysFiles \<Rightarrow> ProcMgr \<Rightarrow> ProcMgr \<times> PmOut list" where
  "PublishSystemStatus fl pm =
     (let (cpu, pm') = ComputeCpuUsage (fl_stat fl) pm;
          (mem_percent, mem_used_mb, mem_total_mb) = ReadMemInfo (fl_junk fl) (fl_meminfo fl);
          (disk_percent, disk_used_gb, disk_total_gb) = ReadDiskInfo (fl_statvfs fl);
          temp = ReadTemperature (fl_temp fl)
      in (pm', [SystemStatus (''{''
            @ quoted ''cpu_percent'' @ '':'' @ show_fixed 1 cpu @ '',''
            @ quoted ''mem_percent'' @ '':'' @ show_fixed 1 mem_percent @ '',''
            @ quoted ''mem_used_mb'' @ '':'' @ show_fixed 1 mem_used_mb @ '',''
            @ quoted ''mem_total_mb'' @ '':'' @ show_fixed 1 mem_total_mb @ '',''
            @ quoted ''disk_percent'' @ '':'' @ show_fixed 1 disk_percent @ '',''
            @ quoted ''disk_used_gb'' @ '':'' @ show_fixed 1 disk_used_gb @ '',''
            @ quoted ''disk_total_gb'' @ '':'' @ show_fixed 1 disk_total_gb @ '',''
            @ quoted ''temp_celsius'' @ '':'' @ show_fixed 1 temp @ ''}'')]))"

definition OnTimer :: "SysFiles \<Rightarrow> OsProcs \<Rightarrow> ProcMgr \<Rightarrow> OsProcs \<times> ProcMgr \<times> PmOut list" where
  "OnTimer fl os pm =
     (let (os', pm', out1) = PublishProcessStatus os pm;
          (pm'', out2) = PublishSystemStatus fl pm'
      in (os', pm'', out1 @ out2))"

definition OnSystemCommand :: "string \<Rightarrow> PmOut list" where
  "OnSystemCommand msg =
     (case ParseField msg ''action'' of
        None \<Rightarrow> []
      | Some action \<Rightarrow>
          if action = ''restart'' then [RunShell ''sudo reboot'']
          else if action = ''shutdown'' then [RunShell ''sudo shutdown -h now'']
          else [])"

definition ProcessManagerNode_ctor :: "string option \<Rightarrow> ProcMgr" where
  "ProcessManagerNode_ctor file = \<lparr>pm_pids = [], pm_prev_cpu = ReadCpuTimes file\<rparr>"

section \<open>Steps of the node and the kernel\<close>

text \<open>
  The kernel hands out a process id only when no child, running or not yet waited for, has it;
  a child may exit at any time.
\<close>

inductive pm_step :: "OsProcs \<times> ProcMgr \<Rightarrow> PmOut list \<Rightarrow> OsProcs \<times> ProcMgr \<Rightarrow> bool" where
  cmd: "pid < 0 \<or> 0 < pid \<and> pid \<notin> os_live os \<union> os_zombie os \<Longrightarrow>
    OnProcessCommand env pid msg os pm = (os', pm', outs) \<Longrightarrow> pm_step (os, pm) outs (os', pm')"
| timer: "OnTimer fl os pm = (os', pm', outs) \<Longrightarrow> pm_step (os, pm) outs (os', pm')"
| power: "pm_step (os, pm) (OnSystemCommand msg) (os, pm)"
| exit: "pid \<in> os_live os \<Longrightarrow>
    pm_step (os, pm) [] (os\<lparr>os_live := os_live os - {pid}, os_zombie := insert pid (os_zombie os)\<rparr>, pm)"

inductive pm_reach :: "OsProcs \<times> ProcMgr \<Rightarrow> bool" where
  start: "pm_reach (\<lparr>os_live = {}, os_zombie = {}\<rparr>, ProcessManagerNode_ctor file)"
| step: "pm_reach s \<Longrightarrow> pm_step s outs s' \<Longrightarrow> pm_reach s'"

inductive_cases pm_stepE: "pm_step (os, pm) outs (os', pm')"

section \<open>What the parser of the flat JSON finds\<close>

text \<open>The suffix that begins at the first occurrence of a pattern.\<close>

fun seek :: "string \<Rightarrow> string \<Rightarrow> string option" where
  "seek pat [] = (if pat = [] then Some [] else None)"
| "seek pat (c # s) = (if prefix pat (c # s) then Some (c # s) else seek pat s)"

lemma find_sub_seek: "seek pat s = map_option (\<lambda>i. drop i s) (find_sub pat s)"
  by (induction s) (auto simp: option.map_comp comp_def)

lemma find_sub_le: "find_sub pat s = Some i \<Longrightarrow> i \<le> length s"
  by (induction s arbitrary: i) (auto split: if_splits)

lemma seek_skip: "c \<notin> set xs \<Longrightarrow> seek (c # p) (xs @ ys) = seek (c # p) ys"
  by (induction xs) auto

lemma seek_char: "c \<in> set s \<Longrightarrow> seek [c] s = Some (dropWhile (\<lambda>x. x \<noteq> c) s)"
  by (induction s) auto

lemma find_sub_char: "c \<notin> set xs \<Longrightarrow> find_sub [c] (xs @ c # ys) = Some (length xs)"
  by (induction xs) auto

lemma str_find_char:
  assumes "drop p s = xs @ c # ys" and "p \<le> length s" and "c \<notin> set xs"
  shows "str_find s [c] p = Some (p + length xs)"
  using assms by (simp add: str_find_def find_sub_char)

text \<open>A field is found when the quoted key is followed, before any other colon, by its value.\<close>

lemma ParseField_found:
  assumes "seek (quoted key) json = Some (xs @ CHR '':'' # ys @ DQ # v @ DQ # rest)"
    and "CHR '':'' \<notin> set xs" and "DQ \<notin> set ys" and "DQ \<notin> set v"
  shows "ParseField json key = Some v"
proof -
  let ?t = "xs @ CHR '':'' # ys @ DQ # v @ DQ # rest"
  obtain p1 where p1: "find_sub (quoted key) json = Some p1" and d1: "drop p1 json = ?t"
    using assms(1) by (auto simp: find_sub_seek)
  have l1: "p1 + length ?t = length json"
    using arg_cong [OF d1, of length] find_sub_le [OF p1] by simp
  have f1: "str_find json (quoted key) 0 = Some p1"
    by (simp add: str_find_def p1)
  have f2: "str_find json [CHR '':''] p1 = Some (p1 + length xs)"
    using l1 by (intro str_find_char [OF d1]) (simp_all add: assms(2))
  let ?p2 = "p1 + length xs"
  have "drop ?p2 json = drop (length xs) (drop p1 json)" by (simp add: add.commute)
  then have d2: "drop ?p2 json = (CHR '':'' # ys) @ DQ # v @ DQ # rest" by (simp add: d1)
  have f3: "str_find json [DQ] ?p2 = Some (?p2 + length (CHR '':'' # ys))"
    using l1 by (intro str_find_char [OF d2]) (simp_all add: assms(3))
  let ?p3 = "?p2 + length (CHR '':'' # ys)"
  have "drop (?p3 + 1) json = drop (length (CHR '':'' # ys) + 1) (drop ?p2 json)"
    unfolding drop_drop by (simp add: add_ac)
  then have d3: "drop (?p3 + 1) json = v @ DQ # rest" by (simp add: d2)
  have f4: "str_find json [DQ] (?p3 + 1) = Some (?p3 + 1 + length v)"
    using l1 by (intro str_find_char [OF d3]) (simp_all add: assms(4))
  have "take (?p3 + 1 + length v - ?p3 - 1) (drop (?p3 + 1) json) = v"
    unfolding d3 by simp
  then show ?thesis
    unfolding ParseField_def f1 f2 f3 f4 bind.bind_lunit f2 f3 f4 by simp
qed

text \<open>Walking over one quoted word.\<close>

lemma prefix_quoted:
  assumes "DQ \<notin> set w" and "DQ \<notin> set k"
  shows "prefix (quoted k) (DQ # w @ DQ # r) \<longleftrightarrow> w = k"
proof
  assume "prefix (quoted k) (DQ # w @ DQ # r)"
  then obtain t where "k @ DQ # t = w @ DQ # r"
    by (auto simp: quoted_def prefix_def)
  then show "w = k"
    using assms by (auto simp: append_eq_append_conv2 append_eq_Cons_conv Cons_eq_append_conv)
qed (simp add: quoted_def)

lemma seek_word:
  assumes "DQ \<notin> set w" and "DQ \<notin> set k"
  shows "seek (quoted k) (DQ # w @ DQ # r) =
    (if w = k then Some (DQ # w @ DQ # r) else seek (quoted k) (DQ # r))"
proof -
  have "seek (quoted k) (w @ DQ # r) = seek (quoted k) (DQ # r)"
    unfolding quoted_def by (rule seek_skip [OF assms(1)])
  then show ?thesis
    using prefix_quoted [OF assms] by simp
qed

lemma seek_sep:
  assumes "c \<noteq> DQ" and "DQ \<notin> set k" and "k \<noteq> [c]"
  shows "seek (quoted k) (DQ # c # DQ # r) = seek (quoted k) (DQ # r)"
  using seek_word [of "[c]" k r] assms by simp

lemma seek_at: "seek (quoted k) (quoted k @ r) = Some (quoted k @ r)"
  by (simp add: quoted_def)

text \<open>The command message of the protocol, as the node's description gives it.\<close>

definition command_json :: "string \<Rightarrow> string \<Rightarrow> string" where
  "command_json name action =
     ''{'' @ quoted ''name'' @ '': '' @ quoted name @ '', '' @ quoted ''action'' @ '': '' @ quoted action @ ''}''"

lemma command_name:
  assumes "DQ \<notin> set name"
  shows "ParseField (command_json name action) ''name'' = Some name"
proof (rule ParseField_found)
  show "seek (quoted ''name'') (command_json name action) =
    Some (quoted ''name'' @ CHR '':'' # '' '' @ DQ # name @ DQ # '', '' @ quoted ''action'' @ '': '' @ quoted action @ ''}'')"
    by (simp add: command_json_def quoted_def)
qed (use assms in \<open>simp_all add: quoted_def\<close>)

lemma command_action:
  assumes "DQ \<notin> set name" and "DQ \<notin> set action"
  shows "ParseField (command_json name action) ''action'' = Some action"
proof (rule ParseField_found)
  let ?r = "DQ # '', '' @ quoted ''action'' @ '': '' @ quoted action @ ''}''"
  let ?v = "'': '' @ DQ # action @ DQ # ''}''"
  have "seek (quoted ''action'') (command_json name action) = seek (quoted ''action'') (DQ # name @ ?r)"
    by (simp add: command_json_def quoted_def)
  also have "\<dots> = Some ((if name = ''action'' then quoted name @ '', '' else []) @ quoted ''action'' @ ?v)"
    using seek_word [OF assms(1), of "''action''" "tl ?r"] by (simp add: quoted_def)
  finally show "seek (quoted ''action'') (command_json name action) =
     Some (((if name = ''action'' then quoted name @ '', '' else []) @ quoted ''action'') @ CHR '':'' # '' '' @ DQ # action @ DQ # ''}'')"
    by simp
qed (use assms in \<open>simp_all add: quoted_def\<close>)

section \<open>What waiting for the children does\<close>

definition reaped :: "int set \<Rightarrow> pids \<Rightarrow> pids" where
  "reaped Z m = map (\<lambda>(n, pid). (n, if 0 < pid \<and> pid \<in> Z then -1 else pid)) m"

definition live_pids :: "pids \<Rightarrow> int list" where
  "live_pids m = filter (\<lambda>p. 0 < p) (map snd m)"

text \<open>
  Every child is recorded under exactly one name, and every positive process id of the map
  is a child: nothing is lost, and no id of a foreign process is kept.
\<close>

definition pm_inv :: "OsProcs \<Rightarrow> pids \<Rightarrow> bool" where
  "pm_inv os m \<longleftrightarrow> sorted_wrt (<) (map fst m) \<and> distinct (live_pids m)
     \<and> set (live_pids m) = os_live os \<union> os_zombie os \<and> os_live os \<inter> os_zombie os = {}"

lemma reaped_notin: "set (live_pids m) \<inter> Z = {} \<Longrightarrow> reaped Z m = m"
  by (induction m) (auto simp: reaped_def live_pids_def split: if_splits)

lemma reaped_remove: "pid \<notin> set (live_pids m) \<Longrightarrow> reaped (Z - {pid}) m = reaped Z m"
  by (induction m) (auto simp: reaped_def live_pids_def split: if_splits)

lemma map_fst_reaped [simp]: "map fst (reaped Z m) = map fst m"
  by (induction m) (auto simp: reaped_def)

lemma ReapFinished_eq:
  assumes "distinct (live_pids m)" and "set (live_pids m) \<subseteq> os_live os \<union> os_zombie os"
    and "os_live os \<inter> os_zombie os = {}"
  shows "ReapFinished os m =
     (os\<lparr>os_zombie := os_zombie os - set (live_pids m)\<rparr>, reaped (os_zombie os) m)"
  using assms
proof (induction m arbitrary: os)
  case Nil
  then show ?case by (simp add: reaped_def live_pids_def)
next
  case (Cons e m)
  obtain n pid where e: "e = (n, pid)" by fastforce
  show ?case
  proof (cases "pid \<le> 0")
    case True
    then have "live_pids (e # m) = live_pids m" "reaped Z (e # m) = (n, pid) # reaped Z m" for Z
      by (simp_all add: e live_pids_def reaped_def)
    then show ?thesis
      using Cons.IH [of os] Cons.prems True by (simp add: e)
  next
    case False
    then have lp: "live_pids (e # m) = pid # live_pids m" by (simp add: e live_pids_def)
    have notin: "pid \<notin> set (live_pids m)" and d: "distinct (live_pids m)"
      using Cons.prems(1) unfolding lp by auto
    show ?thesis
    proof (cases "pid \<in> os_zombie os")
      case True
      let ?os = "os\<lparr>os_zombie := os_zombie os - {pid}\<rparr>"
      have "ReapFinished ?os m = (?os\<lparr>os_zombie := os_zombie ?os - set (live_pids m)\<rparr>, reaped (os_zombie ?os) m)"
        using Cons.prems notin unfolding lp by (intro Cons.IH d) auto
      moreover have "os_zombie os - {pid} - set (live_pids m) = os_zombie os - set (live_pids (e # m))"
        unfolding lp by auto
      ultimately show ?thesis
        using False True notin
        by (simp add: e waitpid_nohang_def Let_def reaped_remove) (simp add: reaped_def)
    next
      case nz: False
      then have "pid \<in> os_live os" using Cons.prems(2) unfolding lp by auto
      moreover have "ReapFinished os m = (os\<lparr>os_zombie := os_zombie os - set (live_pids m)\<rparr>, reaped (os_zombie os) m)"
        using Cons.prems unfolding lp by (intro Cons.IH d) auto
      moreover have "os_zombie os - set (live_pids (e # m)) = os_zombie os - set (live_pids m)"
        using nz unfolding lp by auto
      ultimately show ?thesis
        using False nz by (simp add: e waitpid_nohang_def Let_def) (simp add: reaped_def)
    qed
  qed
qed

lemma live_pids_reaped: "live_pids (reaped Z m) = filter (\<lambda>p. p \<notin> Z) (live_pids m)"
  by (induction m) (auto simp: reaped_def live_pids_def split: if_splits)

text \<open>After waiting, no exited child is left, and the map names exactly the running ones.\<close>

lemma ReapFinished_inv:
  assumes "pm_inv os m"
  shows "\<exists>m'. ReapFinished os m = (os\<lparr>os_zombie := {}\<rparr>, m') \<and> pm_inv (os\<lparr>os_zombie := {}\<rparr>) m'
    \<and> set (live_pids m') = os_live os \<and> map fst m' = map fst m"
proof -
  have "ReapFinished os m = (os\<lparr>os_zombie := os_zombie os - set (live_pids m)\<rparr>, reaped (os_zombie os) m)"
    using assms by (intro ReapFinished_eq) (auto simp: pm_inv_def)
  moreover have "os_zombie os - set (live_pids m) = {}"
    using assms by (auto simp: pm_inv_def)
  moreover have "pm_inv (os\<lparr>os_zombie := {}\<rparr>) (reaped (os_zombie os) m)"
    using assms by (auto simp: pm_inv_def live_pids_reaped)
  ultimately show ?thesis
    by (intro exI [of _ "reaped (os_zombie os) m"]) (auto simp: pm_inv_def)
qed

text \<open>Recording a new child under a name that has no running one.\<close>

lemma map_of_map_set: "map_of (map_set k v m) = (map_of m)(k \<mapsto> v)"
  by (induction k v m rule: map_set.induct) (auto simp: fun_eq_iff)

lemma set_map_set_fst: "set (map fst (map_set k v m)) = insert k (set (map fst m))"
  by (induction k v m rule: map_set.induct) auto

lemma sorted_map_set:
  "sorted_wrt (<) (map fst m) \<Longrightarrow> sorted_wrt (<) (map fst (map_set k v m))"
proof (induction k v m rule: map_set.induct)
  case (1 k v)
  then show ?case by simp
next
  case (2 k v k' v' m)
  have "set (map fst (map_set k v m)) = insert k (set (map fst m))" by (rule set_map_set_fst)
  then have "\<forall>x \<in> set (map fst (map_set k v m)). k' < x" if "k' < k"
    using 2(2) that by auto
  then show ?case
    using 2 by (auto simp del: set_map)
qed

lemma live_pids_map_set:
  "sorted_wrt (<) (map fst m) \<Longrightarrow> \<not> proc_running m k \<Longrightarrow> 0 < pid \<Longrightarrow>
     \<exists>xs ys. live_pids m = xs @ ys \<and> live_pids (map_set k pid m) = xs @ pid # ys"
proof (induction m)
  case Nil
  then show ?case by (simp add: live_pids_def)
next
  case (Cons e m)
  obtain n q where e: "e = (n, q)" by fastforce
  consider "k = n" | "k < n" | "n < k" by (meson linorder_cases)
  then show ?case
  proof cases
    case 1
    then have "live_pids (e # m) = [] @ live_pids m"
      using Cons.prems(2) by (simp add: e live_pids_def proc_running_def)
    moreover have "live_pids (map_set k pid (e # m)) = [] @ pid # live_pids m"
      using 1 Cons.prems(3) by (simp add: e live_pids_def)
    ultimately show ?thesis by blast
  next
    case 2
    then have "live_pids (map_set k pid (e # m)) = [] @ pid # live_pids (e # m)"
      using Cons.prems(3) by (auto simp: e live_pids_def)
    then show ?thesis by (metis append_Nil)
  next
    case 3
    then have "k \<noteq> n" by simp
    then have "\<not> proc_running m k"
      using Cons.prems(2) by (simp add: e proc_running_def)
    then obtain xs ys where "live_pids m = xs @ ys" "live_pids (map_set k pid m) = xs @ pid # ys"
      using Cons by auto
    then have "live_pids (e # m) = (if 0 < q then q # xs else xs) @ ys"
      "live_pids (map_set k pid (e # m)) = (if 0 < q then q # xs else xs) @ pid # ys"
      using 3 by (auto simp: e live_pids_def)
    then show ?thesis by blast
  qed
qed

lemma pm_inv_start:
  assumes "pm_inv os m" and "os_zombie os = {}" and "\<not> proc_running m name"
    and "0 < pid" and "pid \<notin> os_live os"
  shows "pm_inv (os\<lparr>os_live := insert pid (os_live os)\<rparr>) (map_set name pid m)"
proof -
  obtain xs ys where "live_pids m = xs @ ys" "live_pids (map_set name pid m) = xs @ pid # ys"
    using live_pids_map_set [of m name pid] assms by (auto simp: pm_inv_def)
  then show ?thesis
    using assms by (auto simp: pm_inv_def sorted_map_set)
qed

lemma pm_inv_exit:
  "pm_inv os m \<Longrightarrow> pid \<in> os_live os \<Longrightarrow>
     pm_inv (os\<lparr>os_live := os_live os - {pid}, os_zombie := insert pid (os_zombie os)\<rparr>) m"
  by (auto simp: pm_inv_def)

lemma live_pids_map_of:
  assumes "sorted_wrt (<) (map fst m)"
  shows "pid \<in> set (live_pids m) \<longleftrightarrow> 0 < pid \<and> (\<exists>n. map_of m n = Some pid)"
proof -
  have "distinct (map fst m)" using assms by (simp add: strict_sorted_iff)
  then have "map_of m n = Some pid \<longleftrightarrow> (n, pid) \<in> set m" for n by simp
  then show ?thesis by (force simp: live_pids_def)
qed

lemma proc_running_live:
  assumes "pm_inv os m" and "os_zombie os = {}"
  shows "proc_running m n \<longleftrightarrow> (\<exists>pid \<in> os_live os. map_of m n = Some pid)"
proof -
  have "sorted_wrt (<) (map fst m)" "set (live_pids m) = os_live os"
    using assms by (auto simp: pm_inv_def)
  then show ?thesis
    using live_pids_map_of [of m] by (auto simp: proc_running_def split: option.splits)
qed

text \<open>Waiting does not change which name a running child has.\<close>

lemma reaped_map_of_live:
  "pid \<notin> Z \<Longrightarrow> 0 < pid \<Longrightarrow> map_of (reaped Z m) n = Some pid \<longleftrightarrow> map_of m n = Some pid"
  by (induction m) (auto simp: reaped_def)

lemma reap_step:
  assumes "pm_inv os (pm_pids pm)"
  obtains m where "ReapFinished os (pm_pids pm) = (os\<lparr>os_zombie := {}\<rparr>, m)"
    and "pm_inv (os\<lparr>os_zombie := {}\<rparr>) m"
    and "\<And>n pid. pid \<in> os_live os \<Longrightarrow> map_of m n = Some pid \<longleftrightarrow> map_of (pm_pids pm) n = Some pid"
    and "\<And>n. proc_running m n \<longleftrightarrow> (\<exists>pid \<in> os_live os. map_of (pm_pids pm) n = Some pid)"
proof -
  obtain m where m: "ReapFinished os (pm_pids pm) = (os\<lparr>os_zombie := {}\<rparr>, m)"
    and inv: "pm_inv (os\<lparr>os_zombie := {}\<rparr>) m"
    using ReapFinished_inv [OF assms] by blast
  have "m = reaped (os_zombie os) (pm_pids pm)"
    using ReapFinished_eq [of "pm_pids pm" os] m assms by (auto simp: pm_inv_def)
  then have same: "map_of m n = Some pid \<longleftrightarrow> map_of (pm_pids pm) n = Some pid"
    if "pid \<in> os_live os" for n pid
    using that assms reaped_map_of_live [of pid "os_zombie os" "pm_pids pm" n] live_pids_map_of
    by (auto simp: pm_inv_def)
  have "proc_running m n \<longleftrightarrow> (\<exists>pid \<in> os_live os. map_of (pm_pids pm) n = Some pid)" for n
    using proc_running_live [OF inv] same by auto
  with m inv same show ?thesis by (rule that)
qed

text \<open>The callbacks keep the invariant.\<close>

lemma StartProcess_inv:
  assumes "pm_inv os (pm_pids pm)" and "pid < 0 \<or> 0 < pid \<and> pid \<notin> os_live os \<union> os_zombie os"
    and "StartProcess env pid name os pm = (os', pm', outs)"
  shows "pm_inv os' (pm_pids pm') \<and>
    (\<forall>x \<in> set outs. \<exists>argv. x = Started name pid argv \<and> \<not> (\<exists>q \<in> os_live os. map_of (pm_pids pm) name = Some q))"
proof -
  obtain m where m: "ReapFinished os (pm_pids pm) = (os\<lparr>os_zombie := {}\<rparr>, m)"
    and inv: "pm_inv (os\<lparr>os_zombie := {}\<rparr>) m"
    and run: "\<And>n. proc_running m n \<longleftrightarrow> (\<exists>pid \<in> os_live os. map_of (pm_pids pm) n = Some pid)"
    using reap_step [OF assms(1)] by metis
  show ?thesis
  proof (cases "proc_running m name \<or> command_of env name = None \<or> pid < 0")
    case True
    then show ?thesis
      using assms(3) inv by (auto simp: StartProcess_def m Let_def split: if_splits option.splits)
  next
    case False
    then have "pm_inv (os\<lparr>os_zombie := {}, os_live := insert pid (os_live os)\<rparr>) (map_set name pid m)"
      using pm_inv_start [OF inv, of name pid] assms(2) by auto
    then show ?thesis
      using assms(3) False run by (auto simp: StartProcess_def m Let_def)
  qed
qed

lemma StopProcess_inv:
  assumes "pm_inv os (pm_pids pm)" and "StopProcess name os pm = (os', pm', outs)"
  shows "pm_inv os' (pm_pids pm') \<and>
    (\<forall>x \<in> set outs. \<exists>q \<in> os_live os. x = Killpg q \<and> map_of (pm_pids pm) name = Some q)"
proof -
  obtain m where m: "ReapFinished os (pm_pids pm) = (os\<lparr>os_zombie := {}\<rparr>, m)"
    and inv: "pm_inv (os\<lparr>os_zombie := {}\<rparr>) m"
    and same: "\<And>n pid. pid \<in> os_live os \<Longrightarrow> map_of m n = Some pid \<longleftrightarrow> map_of (pm_pids pm) n = Some pid"
    using reap_step [OF assms(1)] by metis
  have "q \<in> os_live os" if "map_of m name = Some q" "0 < q" for q
    using that inv live_pids_map_of [of m q] by (auto simp: pm_inv_def)
  then show ?thesis
    using assms(2) inv same
    by (auto simp: StopProcess_def m StopProcessByPid_def Let_def split: option.splits if_splits)
qed

lemma PublishProcessStatus_inv:
  "pm_inv os (pm_pids pm) \<Longrightarrow> PublishProcessStatus os pm = (os', pm', outs) \<Longrightarrow> pm_inv os' (pm_pids pm')"
  by (auto simp: PublishProcessStatus_def elim!: reap_step)

lemma PublishSystemStatus_pids:
  "PublishSystemStatus fl pm = (pm', outs) \<Longrightarrow> pm_pids pm' = pm_pids pm \<and> (\<exists>j. outs = [SystemStatus j])"
  by (auto simp: PublishSystemStatus_def ComputeCpuUsage_def Let_def split: prod.splits)

lemma OnTimer_split:
  assumes "OnTimer fl os pm = (os', pm', outs)"
  obtains pm1 js j where "PublishProcessStatus os pm = (os', pm1, [ProcessStatus js])"
    and "pm_pids pm' = pm_pids pm1" and "outs = [ProcessStatus js, SystemStatus j]"
proof -
  obtain pm1 js where a: "PublishProcessStatus os pm = (os', pm1, [ProcessStatus js])"
    and b: "PublishSystemStatus fl pm1 = (pm', tl outs)" "outs = [ProcessStatus js] @ tl outs"
    using assms by (auto simp: OnTimer_def PublishProcessStatus_def split: prod.splits)
  from PublishSystemStatus_pids [OF b(1)] obtain j where "pm_pids pm' = pm_pids pm1" "tl outs = [SystemStatus j]"
    by blast
  with a b show ?thesis using that by simp
qed

lemma pm_step_inv:
  assumes "pm_step s outs s'" and "pm_inv (fst s) (pm_pids (snd s))"
  shows "pm_inv (fst s') (pm_pids (snd s'))"
  using assms
proof (induction rule: pm_step.induct)
  case (cmd pid os env msg pm os' pm' outs)
  then show ?case
    by (auto simp: OnProcessCommand_def split: option.splits if_splits
        dest: StartProcess_inv StopProcess_inv)
next
  case (timer fl os pm os' pm' outs)
  then show ?case
    by (auto elim!: OnTimer_split dest: PublishProcessStatus_inv)
next
  case (power os pm msg)
  then show ?case by simp
next
  case (exit pid os pm)
  then show ?case by (simp add: pm_inv_exit)
qed

lemma pm_reach_inv: "pm_reach s \<Longrightarrow> pm_inv (fst s) (pm_pids (snd s))"
proof (induction rule: pm_reach.induct)
  case (start f)
  then show ?case by (simp add: pm_inv_def ProcessManagerNode_ctor_def live_pids_def)
next
  case (step s outs s')
  then show ?case using pm_step_inv by blast
qed

section \<open>The status report\<close>

definition status_of :: "pids \<Rightarrow> string \<Rightarrow> string" where
  "status_of m n = (if proc_running m n then ''running'' else ''stopped'')"

definition status_entry :: "pids \<Rightarrow> string \<Rightarrow> string" where
  "status_entry m n = quoted n @ '':'' @ quoted (status_of m n)"

lemma fold_append_status:
  "fold (append_status m) ns (False, acc) = (False, acc @ concat (map (\<lambda>n. '','' @ status_entry m n) ns))"
  by (induction ns arbitrary: acc) (simp_all add: status_entry_def status_of_def)

lemma fold_append_status_first:
  "snd (fold (append_status m) (n # ns) (True, acc)) =
     acc @ status_entry m n @ concat (map (\<lambda>n. '','' @ status_entry m n) ns)"
  by (simp add: fold_append_status status_entry_def status_of_def)

lemma status_of_no_quote: "DQ \<notin> set (status_of m n)"
  by (simp add: status_of_def)

text \<open>Names that cannot be mistaken for another part of the report.\<close>

definition plain_name :: "string \<Rightarrow> bool" where
  "plain_name k \<longleftrightarrow> DQ \<notin> set k \<and> CHR '':'' \<notin> set k \<and> k \<notin> {''running'', ''stopped'', '',''}"

lemma seek_entry_tail:
  assumes "plain_name k" and "plain_name n" and "n \<noteq> k"
  shows "seek (quoted k) (DQ # n @ DQ # CHR '':'' # DQ # status_of m n @ DQ # r) = seek (quoted k) (DQ # r)"
proof -
  have ne: "status_of m n \<noteq> k" using assms(1) by (auto simp: plain_name_def status_of_def)
  have q: "DQ \<notin> set k" "DQ \<notin> set n" "k \<noteq> '':''" using assms by (auto simp: plain_name_def)
  have "seek (quoted k) (DQ # n @ DQ # CHR '':'' # DQ # status_of m n @ DQ # r) =
      seek (quoted k) (DQ # CHR '':'' # DQ # status_of m n @ DQ # r)"
    by (simp only: seek_word [OF q(2,1)] assms(3) if_False)
  also have "\<dots> = seek (quoted k) (DQ # status_of m n @ DQ # r)"
    by (rule seek_sep) (simp_all add: q)
  also have "\<dots> = seek (quoted k) (DQ # r)"
    by (simp only: seek_word [OF status_of_no_quote q(1)] ne if_False)
  finally show ?thesis .
qed

lemma seek_entries:
  assumes "plain_name k" and "\<forall>n \<in> set ns. plain_name n \<and> n \<noteq> k"
  shows "seek (quoted k) (DQ # concat (map (\<lambda>n. '','' @ status_entry m n) ns) @ '','' @ quoted k @ r) =
    Some (quoted k @ r)"
  using assms(2)
proof (induction ns)
  case Nil
  have "seek (quoted k) (DQ # CHR '','' # DQ # k @ [DQ] @ r) = seek (quoted k) (quoted k @ r)"
    using seek_sep [of "CHR '',''" k "k @ [DQ] @ r"] assms(1) by (simp add: plain_name_def quoted_def)
  then show ?case
    unfolding seek_at by (simp add: quoted_def)
next
  case (Cons n ns)
  let ?rest = "concat (map (\<lambda>n. '','' @ status_entry m n) ns) @ '','' @ quoted k @ r"
  have "seek (quoted k) (DQ # CHR '','' # DQ # n @ DQ # CHR '':'' # DQ # status_of m n @ DQ # ?rest)
      = seek (quoted k) (DQ # n @ DQ # CHR '':'' # DQ # status_of m n @ DQ # ?rest)"
    using assms(1) by (intro seek_sep) (simp_all add: plain_name_def)
  also have "\<dots> = seek (quoted k) (DQ # ?rest)"
    using Cons.prems assms(1) by (intro seek_entry_tail) simp_all
  also have "\<dots> = Some (quoted k @ r)"
    using Cons by simp
  finally show ?case
    by (simp add: status_entry_def quoted_def)
qed

lemma status_parse:
  assumes "distinct (n0 # ns)" and "\<forall>n \<in> set (n0 # ns). plain_name n" and "k \<in> set (n0 # ns)"
  shows "ParseField (snd (fold (append_status m) (n0 # ns) (True, ''{'')) @ ''}'') k = Some (status_of m k)"
proof -
  define json where "json = snd (fold (append_status m) (n0 # ns) (True, ''{'')) @ ''}''"
  have json: "json = CHR ''{'' # status_entry m n0 @ concat (map (\<lambda>n. '','' @ status_entry m n) ns) @ ''}''"
    unfolding json_def fold_append_status_first by simp
  have pk: "plain_name k" using assms by blast
  have "\<exists>r. seek (quoted k) json = Some (quoted k @ CHR '':'' # [] @ DQ # status_of m k @ DQ # r)"
  proof (cases "k = n0")
    case True
    have "seek (quoted k) json = seek (quoted k) (quoted n0 @ CHR '':'' # [] @ DQ # status_of m n0 @ DQ # concat (map (\<lambda>n. '','' @ status_entry m n) ns) @ ''}'')"
      unfolding json by (simp add: status_entry_def quoted_def)
    then show ?thesis unfolding True seek_at by blast
  next
    case False
    then obtain as bs where ns: "ns = as @ k # bs" using assms(3) by (auto dest: split_list)
    let ?r = "CHR '':'' # [] @ DQ # status_of m k @ DQ # concat (map (\<lambda>n. '','' @ status_entry m n) bs) @ ''}''"
    let ?rest = "concat (map (\<lambda>n. '','' @ status_entry m n) as) @ '','' @ quoted k @ ?r"
    have "seek (quoted k) json = seek (quoted k) (DQ # n0 @ DQ # CHR '':'' # DQ # status_of m n0 @ DQ # ?rest)"
      unfolding json ns by (simp add: status_entry_def quoted_def)
    also have "\<dots> = seek (quoted k) (DQ # ?rest)"
      using False assms(2) pk by (intro seek_entry_tail) auto
    also have "\<dots> = Some (quoted k @ ?r)"
      using assms(1,2) pk unfolding ns by (intro seek_entries) auto
    finally show ?thesis by blast
  qed
  then obtain r where "seek (quoted k) json = Some (quoted k @ CHR '':'' # [] @ DQ # status_of m k @ DQ # r)" ..
  moreover have "CHR '':'' \<notin> set (quoted k)"
    using pk by (simp add: plain_name_def quoted_def)
  ultimately show ?thesis
    unfolding json_def [symmetric] by (rule ParseField_found) (simp_all add: status_of_no_quote)
qed

definition status_names :: "string list" where
  "status_names = map fst configs @ [''rosbag'']"

lemma status_names_eq:
  "status_names = [''costmap'', ''gscam'', ''hardware_control'', ''ins_gnss'', ''lio_sam'', ''livox'',
     ''planning_control'', ''ublox'', ''rosbag'']"
  by (simp add: status_names_def configs_def)

lemma plain_status_names: "list_all plain_name status_names" "distinct status_names"
  unfolding status_names_eq by (simp_all add: plain_name_def)

lemma status_json_parse:
  assumes "k \<in> set status_names"
  shows "ParseField (status_json m) k = Some (status_of m k)"
proof -
  obtain n0 ns where ns: "status_names = n0 # ns" by (simp add: status_names_eq)
  have "status_json m = snd (fold (append_status m) (n0 # ns) (True, ''{'')) @ ''}''"
    unfolding status_json_def status_names_def [symmetric] ns ..
  then show ?thesis
    using status_parse [of n0 ns k m] assms plain_status_names unfolding ns list_all_iff by simp
qed

section \<open>Properties of the process manager\<close>

text \<open>
  C10.  In every reachable state of the node and the kernel, each child that runs or has not
  been waited for is recorded under exactly one name, and every positive process id recorded
  is such a child: starting and stopping never loses a process and never keeps a stale id.
\<close>

theorem every_child_is_recorded:
  assumes "pm_reach (os, pm)"
  shows "(\<forall>pid \<in> os_live os \<union> os_zombie os. \<exists>!name. map_of (pm_pids pm) name = Some pid)
    \<and> (\<forall>name pid. map_of (pm_pids pm) name = Some pid \<and> 0 < pid \<longrightarrow> pid \<in> os_live os \<union> os_zombie os)"
proof -
  have inv: "pm_inv os (pm_pids pm)" using pm_reach_inv [OF assms] by simp
  have sorted: "sorted_wrt (<) (map fst (pm_pids pm))" and live: "set (live_pids (pm_pids pm)) = os_live os \<union> os_zombie os"
    and d: "distinct (live_pids (pm_pids pm))"
    using inv by (auto simp: pm_inv_def)
  have "n = n'" if "map_of m n = Some pid" "map_of m n' = Some pid" "0 < pid" "distinct (live_pids m)"
    for n n' pid and m :: pids
    using that by (induction m) (auto simp: live_pids_def split: if_splits dest!: map_of_SomeD, force+)
  then show ?thesis
    using live_pids_map_of [OF sorted] live d by blast
qed

text \<open>A first start command, in the format of the protocol.\<close>

definition test_env :: PmEnv where
  "test_env = \<lparr>tm_year = 2025, tm_mon = 1, tm_mday = 2, tm_hour = 3, tm_min = 4, tm_second = 5, env_home = None\<rparr>"

definition fresh_pm :: ProcMgr where
  "fresh_pm = ProcessManagerNode_ctor None"

definition no_procs :: OsProcs where
  "no_procs = \<lparr>os_live = {}, os_zombie = {}\<rparr>"

lemma start_ublox:
  "OnProcessCommand env 42 (command_json ''ublox'' ''start'') no_procs fresh_pm =
     (\<lparr>os_live = {42}, os_zombie = {}\<rparr>, fresh_pm\<lparr>pm_pids := [(''ublox'', 42)]\<rparr>,
      [Started ''ublox'' 42 [''ros2'', ''run'', ''autorccar_ubloxf9r'', ''ubloxf9r'']])"
  by (simp add: OnProcessCommand_def command_name command_action StartProcess_def no_procs_def fresh_pm_def
      ProcessManagerNode_ctor_def proc_running_def command_of_def configs_def)

lemma reach_ublox:
  "pm_reach (\<lparr>os_live = {42}, os_zombie = {}\<rparr>, fresh_pm\<lparr>pm_pids := [(''ublox'', 42)]\<rparr>)"
proof (rule pm_reach.step)
  show "pm_reach (no_procs, fresh_pm)"
    unfolding no_procs_def fresh_pm_def by (rule pm_reach.start)
  show "pm_step (no_procs, fresh_pm) [Started ''ublox'' 42 [''ros2'', ''run'', ''autorccar_ubloxf9r'', ''ubloxf9r'']]
      (\<lparr>os_live = {42}, os_zombie = {}\<rparr>, fresh_pm\<lparr>pm_pids := [(''ublox'', 42)]\<rparr>)"
    by (rule pm_step.cmd [OF _ start_ublox]) (simp add: no_procs_def)
qed

theorem every_child_is_recorded_witness:
  "\<exists>!name. map_of [(''ublox'', 42 :: int)] name = Some 42"
  using every_child_is_recorded [OF reach_ublox] by simp

text \<open>
  C34.  A start request runs a command only when no child of that name is running, and a
  signal goes only to the process group of a running child, never to an arbitrary id (such
  as 0 or -1, which would hit the manager's own group or every process).
\<close>

theorem signals_reach_only_children:
  assumes "pm_reach (os, pm)" and "pm_step (os, pm) outs s'"
  shows "(\<forall>pid. Killpg pid \<in> set outs \<longrightarrow> 0 < pid \<and> pid \<in> os_live os)
    \<and> (\<forall>name pid argv. Started name pid argv \<in> set outs \<longrightarrow>
          \<not> (\<exists>q \<in> os_live os. map_of (pm_pids pm) name = Some q))"
proof -
  have inv: "pm_inv os (pm_pids pm)" using pm_reach_inv [OF assms(1)] by simp
  have pos: "0 < pid" if "pid \<in> os_live os" for pid
  proof -
    have "pid \<in> set (live_pids (pm_pids pm))" using inv that by (auto simp: pm_inv_def)
    then show ?thesis by (auto simp: live_pids_def)
  qed
  show ?thesis
    using assms(2)
  proof (cases rule: pm_step.cases)
    case (cmd pid env msg os' pm')
    then consider (start) name where "StartProcess env pid name os pm = (os', pm', outs)"
      | (stop) name where "StopProcess name os pm = (os', pm', outs)" | (none) "outs = []"
      by (auto simp: OnProcessCommand_def split: option.splits if_splits)
    then show ?thesis
    proof cases
      case start
      then show ?thesis using StartProcess_inv [OF inv cmd(2)] by fastforce
    next
      case stop
      then show ?thesis using StopProcess_inv [OF inv] pos by fastforce
    qed simp
  next
    case (timer fl os' pm')
    then show ?thesis by (auto elim!: OnTimer_split)
  next
    case (power msg)
    then show ?thesis by (auto simp: OnSystemCommand_def split: option.splits)
  next
    case (exit pid)
    then show ?thesis by simp
  qed
qed

lemma stop_ublox:
  "OnProcessCommand env 43 (command_json ''ublox'' ''stop'') \<lparr>os_live = {42}, os_zombie = {}\<rparr>
      (fresh_pm\<lparr>pm_pids := [(''ublox'', 42)]\<rparr>) =
     (\<lparr>os_live = {42}, os_zombie = {}\<rparr>, fresh_pm\<lparr>pm_pids := [(''ublox'', 42)]\<rparr>, [Killpg 42])"
  by (simp add: OnProcessCommand_def command_name command_action StopProcess_def fresh_pm_def
      ProcessManagerNode_ctor_def waitpid_nohang_def StopProcessByPid_def Let_def)

theorem signals_reach_only_children_witness:
  "pm_step (\<lparr>os_live = {42}, os_zombie = {}\<rparr>, fresh_pm\<lparr>pm_pids := [(''ublox'', 42)]\<rparr>) [Killpg 42]
      (\<lparr>os_live = {42}, os_zombie = {}\<rparr>, fresh_pm\<lparr>pm_pids := [(''ublox'', 42)]\<rparr>)
    \<and> (42 :: int) \<in> {42}"
proof -
  have s: "pm_step (\<lparr>os_live = {42}, os_zombie = {}\<rparr>, fresh_pm\<lparr>pm_pids := [(''ublox'', 42)]\<rparr>) [Killpg 42]
      (\<lparr>os_live = {42}, os_zombie = {}\<rparr>, fresh_pm\<lparr>pm_pids := [(''ublox'', 42)]\<rparr>)"
    by (rule pm_step.cmd [OF _ stop_ublox [of test_env]]) simp
  from signals_reach_only_children [OF reach_ublox s] s show ?thesis by simp
qed

text \<open>
  The once-a-second report tells the truth: at each timer tick the published text, read
  back with the node's own field parser, gives for every managed name \<open>running\<close> exactly when
  a running child is recorded under it; and no exited child is left unwaited for.
\<close>

theorem status_report_is_exact:
  assumes "pm_reach (os, pm)" and "OnTimer fl os pm = (os', pm', outs)"
  shows "os_live os' = os_live os \<and> os_zombie os' = {} \<and>
    (\<exists>js j. outs = [ProcessStatus js, SystemStatus j] \<and>
       (\<forall>name \<in> set status_names. ParseField js name =
          Some (if \<exists>pid \<in> os_live os. map_of (pm_pids pm) name = Some pid then ''running'' else ''stopped'')))"
proof -
  have inv: "pm_inv os (pm_pids pm)" using pm_reach_inv [OF assms(1)] by simp
  obtain m where m: "ReapFinished os (pm_pids pm) = (os\<lparr>os_zombie := {}\<rparr>, m)"
    and run: "\<And>n. proc_running m n \<longleftrightarrow> (\<exists>pid \<in> os_live os. map_of (pm_pids pm) n = Some pid)"
    using reap_step [OF inv] by metis
  obtain pm1 js j where p: "PublishProcessStatus os pm = (os', pm1, [ProcessStatus js])"
    and outs: "outs = [ProcessStatus js, SystemStatus j]"
    using assms(2) by (rule OnTimer_split)
  have os': "os' = os\<lparr>os_zombie := {}\<rparr>" and js: "js = status_json m"
    using p by (simp_all add: PublishProcessStatus_def m)
  have "\<forall>name \<in> set status_names. ParseField js name =
      Some (if \<exists>pid \<in> os_live os. map_of (pm_pids pm) name = Some pid then ''running'' else ''stopped'')"
    unfolding js run [symmetric] status_of_def [symmetric] by (simp add: status_json_parse)
  moreover have "os_live os' = os_live os" "os_zombie os' = {}"
    by (simp_all add: os')
  ultimately show ?thesis
    using outs by blast
qed

definition no_files :: SysFiles where
  "no_files = \<lparr>fl_stat = None, fl_meminfo = None, fl_junk = 0, fl_statvfs = None, fl_temp = None\<rparr>"

theorem status_report_is_exact_witness:
  "\<exists>os' pm' js j. OnTimer no_files \<lparr>os_live = {42}, os_zombie = {}\<rparr> (fresh_pm\<lparr>pm_pids := [(''ublox'', 42)]\<rparr>) =
      (os', pm', [ProcessStatus js, SystemStatus j])
    \<and> ParseField js ''ublox'' = Some ''running'' \<and> ParseField js ''rosbag'' = Some ''stopped''"
proof -
  obtain os' pm' outs where o: "OnTimer no_files \<lparr>os_live = {42}, os_zombie = {}\<rparr> (fresh_pm\<lparr>pm_pids := [(''ublox'', 42)]\<rparr>) = (os', pm', outs)"
    using prod_cases3 by blast
  have in_names: "''ublox'' \<in> set status_names" "''rosbag'' \<in> set status_names"
    by (simp_all add: status_names_eq)
  from status_report_is_exact [OF reach_ublox o] obtain js j where outs: "outs = [ProcessStatus js, SystemStatus j]"
    and all: "\<And>name. name \<in> set status_names \<Longrightarrow> ParseField js name =
      Some (if \<exists>pid \<in> {42}. map_of [(''ublox'', 42 :: int)] name = Some pid then ''running'' else ''stopped'')"
    by auto
  have "ParseField js ''ublox'' = Some ''running''" "ParseField js ''rosbag'' = Some ''stopped''"
    using all [OF in_names(1)] all [OF in_names(2)] by simp_all
  with o outs show ?thesis by blast
qed

text \<open>
  Commands in the documented format, for any name and action without quotation marks, are
  understood as they are written: \<open>start\<close> and \<open>stop\<close> act on that name, every other action
  changes nothing; and a message without the two fields changes nothing.
\<close>

theorem command_protocol:
  assumes "DQ \<notin> set name" and "DQ \<notin> set action"
  shows "OnProcessCommand env pid (command_json name action) os pm =
      (if action = ''start'' then StartProcess env pid name os pm
       else if action = ''stop'' then StopProcess name os pm else (os, pm, []))
    \<and> (ParseField msg ''name'' = None \<or> ParseField msg ''action'' = None \<longrightarrow>
         OnProcessCommand env pid msg os pm = (os, pm, []))"
  using command_name [OF assms(1), of action] command_action [OF assms]
  by (auto simp: OnProcessCommand_def split: option.splits)

theorem command_protocol_witness:
  "OnProcessCommand test_env 7 (command_json ''action'' ''restart'') no_procs fresh_pm = (no_procs, fresh_pm, [])
   \<and> OnProcessCommand test_env 7 ''start'' no_procs fresh_pm = (no_procs, fresh_pm, [])"
proof -
  have "ParseField ''start'' ''name'' = None"
    by (simp add: ParseField_def str_find_def quoted_def)
  then show ?thesis
    using command_protocol [of "''action''" "''restart''" test_env 7 no_procs fresh_pm "''start''"] by simp
qed

definition percent_of :: "int \<Rightarrow> int \<Rightarrow> real" where
  "percent_of part whole = (if whole > 0 then 100 * of_int part / of_int whole else 0)"

lemma percent_of_bounds:
  "0 \<le> part \<Longrightarrow> 0 \<le> percent_of part whole" "part \<le> whole \<Longrightarrow> percent_of part whole \<le> 100"
  by (simp_all add: percent_of_def divide_le_eq)

text \<open>
  The load figures are percentages: when no counter of the kernel has gone back since the
  last sample, the reported CPU load is between 0 and 100, and so is the disk usage when the
  file system reports no more free blocks than it has; the new sample becomes the reference
  of the next one.
\<close>

theorem load_is_percentage:
  assumes "\<forall>c \<in> {ct_user, ct_nice, ct_sys, ct_idle, ct_iowait, ct_irq, ct_softirq, ct_steal}.
      c (pm_prev_cpu pm) \<le> c (ReadCpuTimes file)"
    and "f_bfree st \<le> f_blocks st"
  shows "0 \<le> fst (ComputeCpuUsage file pm) \<and> fst (ComputeCpuUsage file pm) \<le> 100
    \<and> pm_prev_cpu (snd (ComputeCpuUsage file pm)) = ReadCpuTimes file
    \<and> 0 \<le> fst (ReadDiskInfo (Some st)) \<and> fst (ReadDiskInfo (Some st)) \<le> 100"
proof -
  let ?p = "pm_prev_cpu pm" and ?c = "ReadCpuTimes file"
  let ?t = "Total ?c - Total ?p" and ?i = "(ct_idle ?c + ct_iowait ?c) - (ct_idle ?p + ct_iowait ?p)"
  have "0 \<le> ?i" "?i \<le> ?t" using assms(1) by (simp_all add: Total_def)
  then have "0 \<le> percent_of (?t - ?i) ?t" "percent_of (?t - ?i) ?t \<le> 100"
    by (simp_all add: percent_of_bounds)
  then have cpu: "0 \<le> fst (ComputeCpuUsage file pm)" "fst (ComputeCpuUsage file pm) \<le> 100"
    by (simp_all only: ComputeCpuUsage_def Let_def percent_of_def fst_conv)
  let ?total = "real (f_blocks st) * real (f_frsize st)" and ?free = "real (f_bfree st) * real (f_frsize st)"
  have "?free \<le> ?total" "0 \<le> ?free" using assms(2) by (simp_all add: mult_right_mono)
  then have "0 \<le> fst (ReadDiskInfo (Some st))" "fst (ReadDiskInfo (Some st)) \<le> 100"
    by (simp_all add: ReadDiskInfo_def Let_def divide_le_eq)
  then show ?thesis
    using cpu by (simp add: ComputeCpuUsage_def Let_def)
qed

definition cpu_sample :: string where
  "cpu_sample = ''cpu 10 0 0 30 0 0 0 0''"

lemma ReadCpuTimes_sample:
  "ReadCpuTimes (Some cpu_sample) = cpu_of [10, 0, 0, 30, 0, 0, 0, 0]"
  by code_simp

theorem load_is_percentage_witness:
  "fst (ComputeCpuUsage (Some cpu_sample) fresh_pm) = 25
   \<and> fst (ReadDiskInfo (Some \<lparr>f_frsize = 4096, f_blocks = 8, f_bfree = 2\<rparr>)) = 75
   \<and> fst (ComputeCpuUsage (Some cpu_sample) fresh_pm) \<le> 100"
proof -
  have pm: "pm_prev_cpu fresh_pm = cpu_of (replicate 8 0)"
    by (simp add: fresh_pm_def ProcessManagerNode_ctor_def ReadCpuTimes_def)
  have "\<forall>c \<in> {ct_user, ct_nice, ct_sys, ct_idle, ct_iowait, ct_irq, ct_softirq, ct_steal}.
      c (pm_prev_cpu fresh_pm) \<le> c (ReadCpuTimes (Some cpu_sample))"
    unfolding pm ReadCpuTimes_sample by (simp add: cpu_of_def)
  then have "fst (ComputeCpuUsage (Some cpu_sample) fresh_pm) \<le> 100"
    using load_is_percentage [of fresh_pm "Some cpu_sample" "\<lparr>f_frsize = 4096, f_blocks = 8, f_bfree = 2\<rparr>"] by simp
  then show ?thesis
    by (simp add: ComputeCpuUsage_def ReadCpuTimes_sample pm cpu_of_def Total_def ReadDiskInfo_def Let_def)
qed

end
