(* ===== verification/Costmap.thy ===== *)
theory Costmap
  imports Messages
begin

text \<open>
  Package \<open>autorccar_costmap\<close>, the map itself (\<open>costmap.cpp\<close>, \<open>config_reader.cpp\<close>): a global
  occupancy grid of log-odds updated by ray casting from lidar clouds, the local window cut
  out of it, and the bounding boxes of its occupied cells.  What the point cloud library does
  (transforming, filtering, clustering, extreme points) is an argument, the record \<open>PclOps\<close>;
  \<open>int\<close> cell indices are unbounded here, the lidar counter has its 32 bits.
\<close>

section \<open>Configuration and state\<close>

record Config =
  global_resolution :: real
  global_width :: int
  global_height :: int
  global_update_per_lidar :: int
  local_width :: int
  local_height :: int
  dbscan_eps :: real
  dbscan_min_samples :: int
  publish_global_costmap :: bool
  publish_local_costmap :: bool
  publish_object_detection :: bool
  visualize_object_detection :: bool

text \<open>The values found in the configuration file; a missing or ill-typed one makes \<open>as<T>()\<close> throw.\<close>

record YamlNode =
  y_resolution :: "real option"
  y_width :: "int option"
  y_height :: "int option"
  y_every_nth :: "32 word option"
  y_local_width :: "int option"
  y_local_height :: "int option"
  y_eps :: "real option"
  y_min_samples :: "int option"
  y_publish_global :: "bool option"
  y_publish_local :: "bool option"
  y_publish_object :: "bool option"
  y_visualize :: "bool option"

definition as_value :: "'a option \<Rightarrow> exn + 'a" where
  "as_value v = (case v of None \<Rightarrow> Inl (Runtime_error ''bad conversion'') | Some x \<Rightarrow> Inr x)"

text \<open>\<open>None\<close> is a file that cannot be opened: the process exits.\<close>

definition ConfigReader_ctor :: "YamlNode option \<Rightarrow> exn + Config" where
  "ConfigReader_ctor node =
     (case node of
        None \<Rightarrow> Inl (Runtime_error ''exit'')
      | Some y \<Rightarrow>
          sbind (as_value (y_resolution y)) (\<lambda>res.
          sbind (as_value (y_width y)) (\<lambda>gw.
          sbind (as_value (y_height y)) (\<lambda>gh.
          sbind (as_value (y_every_nth y)) (\<lambda>nth.
          sbind (as_value (y_local_width y)) (\<lambda>lw.
          sbind (as_value (y_local_height y)) (\<lambda>lh.
          sbind (as_value (y_eps y)) (\<lambda>eps.
          sbind (as_value (y_min_samples y)) (\<lambda>ms.
          sbind (as_value (y_publish_global y)) (\<lambda>pg.
          sbind (as_value (y_publish_local y)) (\<lambda>pl.
          sbind (as_value (y_publish_object y)) (\<lambda>po.
          sbind (as_value (y_visualize y)) (\<lambda>vis.
            Inr \<lparr>global_resolution = res, global_width = gw, global_height = gh,
                 global_update_per_lidar = sint nth, local_width = lw, local_height = lh,
                 dbscan_eps = eps, dbscan_min_samples = ms, publish_global_costmap = pg,
                 publish_local_costmap = pl, publish_object_detection = po,
                 visualize_object_detection = vis\<rparr>)))))))))))))"

text \<open>\<open>Eigen::MatrixXd\<close>: its sizes and its coefficients; \<open>data()\<close> is column-major.\<close>

record Mat =
  mrows :: int
  mcols :: int
  coeff :: "int \<Rightarrow> int \<Rightarrow> real"

definition mat_data :: "Mat \<Rightarrow> int \<Rightarrow> real" where
  "mat_data m i = coeff m (i mod mrows m) (i div mrows m)"

definition mat_set :: "Mat \<Rightarrow> int \<Rightarrow> int \<Rightarrow> real \<Rightarrow> Mat" where
  "mat_set m x y v = m\<lparr>coeff := (coeff m)(x := (coeff m x)(y := v))\<rparr>"

text \<open>\<open>block(i, j, rows, cols)\<close> checks that the block lies inside the matrix.\<close>

definition mat_block :: "Mat \<Rightarrow> int \<Rightarrow> int \<Rightarrow> int \<Rightarrow> int \<Rightarrow> exn + Mat" where
  "mat_block m i j r c =
     (if 0 \<le> i \<and> 0 \<le> r \<and> i + r \<le> mrows m \<and> 0 \<le> j \<and> 0 \<le> c \<and> j + c \<le> mcols m
      then Inr \<lparr>mrows = r, mcols = c, coeff = (\<lambda>x y. coeff m (i + x) (j + y))\<rparr>
      else Inl Bad_index)"

record PointXYZI =
  pt_x :: real
  pt_y :: real
  pt_z :: real
  intensity :: real

text \<open>A 4 by 4 transformation, row and column from 0.\<close>

type_synonym mat4 = "nat \<Rightarrow> nat \<Rightarrow> real"

record CostmapInfo =
  ci_resolution :: real
  size_x :: int
  size_y :: int
  origin_pos_x :: real
  origin_pos_y :: real

record BoundingBox =
  box_size_x :: real
  box_size_y :: real
  box_center_x :: real
  box_center_y :: real

record Costmap =
  config :: Config
  costmap_flag :: bool
  cnt_iter :: "32 word"
  cnt_limit :: "32 word"
  global_costmap_info :: CostmapInfo
  global_costmap :: Mat
  global_size :: "int \<times> int"
  global_center :: "int \<times> int"
  resolution :: real
  local_costmap_info :: CostmapInfo
  local_costmap :: Mat
  local_size :: "int \<times> int"
  local_center :: "int \<times> int"
  cur_point_cloud :: "PointXYZI list"
  cur_pose :: mat4
  bounding_boxes :: "BoundingBox list"

text \<open>
  The point cloud library: the cloud under a transformation, the points whose z lies between
  two limits, the index lists of the clusters for a tolerance and a least size, and the
  points of least and greatest coordinates.
\<close>

record PclOps =
  pcl_transform :: "mat4 \<Rightarrow> PointXYZI list \<Rightarrow> PointXYZI list"
  pcl_pass_z :: "real \<Rightarrow> real \<Rightarrow> PointXYZI list \<Rightarrow> PointXYZI list"
  pcl_extract :: "real \<Rightarrow> int \<Rightarrow> PointXYZI list \<Rightarrow> int list list"
  pcl_minmax :: "PointXYZI list \<Rightarrow> PointXYZI \<times> PointXYZI"

definition P_UNKNOWN :: real where "P_UNKNOWN = 0.5"
definition P_FREE :: real where "P_FREE = 0.3"
definition P_OCCUPIED :: real where "P_OCCUPIED = 0.7"
definition P_MIN :: real where "P_MIN = 0.05"
definition P_MAX :: real where "P_MAX = 0.95"

definition ProbabilityToLogOdds :: "real \<Rightarrow> real" where
  "ProbabilityToLogOdds p = ln (p / (1 - p))"

definition LogOddsToProbability :: "real \<Rightarrow> real" where
  "LogOddsToProbability l = exp l / (1 + exp l)"

definition log_odds_unknown :: real where "log_odds_unknown = ProbabilityToLogOdds P_UNKNOWN"
definition log_odds_min :: real where "log_odds_min = ProbabilityToLogOdds P_MIN"
definition log_odds_max :: real where "log_odds_max = ProbabilityToLogOdds P_MAX"

definition InitCostmap :: "int \<Rightarrow> int \<Rightarrow> Mat" where
  "InitCostmap sx sy = \<lparr>mrows = sx, mcols = sy, coeff = (\<lambda>_ _. log_odds_unknown)\<rparr>"

text \<open>The C++ division of an \<open>int\<close> by 2 truncates.\<close>

definition half :: "int \<Rightarrow> int" where
  "half k = (if 0 \<le> k then k div 2 else - (- k div 2))"

definition Costmap_ctor :: "Config \<Rightarrow> Costmap" where
  "Costmap_ctor c =
     (let res = global_resolution c;
          gs = (c_trunc (of_int (global_width c) / res), c_trunc (of_int (global_height c) / res));
          gc = (half (fst gs), half (snd gs));
          ls = (c_trunc (of_int (local_width c) / res), c_trunc (of_int (local_height c) / res));
          lc = (half (fst ls), half (snd ls));
          pose = (\<lambda>_ _. 0);
          px = \<lfloor>pose 0 3 / res\<rfloor> + fst gc;
          py = \<lfloor>pose 1 3 / res\<rfloor> + snd gc
      in \<lparr>config = c, costmap_flag = False, cnt_iter = 0, cnt_limit = word_of_int (global_update_per_lidar c),
          global_costmap_info = \<lparr>ci_resolution = res, size_x = fst gs, size_y = snd gs,
            origin_pos_x = of_int (fst gc) * res * (-1), origin_pos_y = of_int (snd gc) * res * (-1)\<rparr>,
          global_costmap = InitCostmap (fst gs) (snd gs), global_size = gs, global_center = gc, resolution = res,
          local_costmap_info = \<lparr>ci_resolution = res, size_x = fst ls, size_y = snd ls,
            origin_pos_x = of_int (px - fst gc - fst lc) * res,
            origin_pos_y = of_int (py - snd gc - snd lc) * res\<rparr>,
          local_costmap = InitCostmap (fst ls) (snd ls), local_size = ls, local_center = lc,
          cur_point_cloud = [], cur_pose = pose, bounding_boxes = []\<rparr>)"

section \<open>Operations\<close>

definition UpdateCostmapFlag :: "Costmap \<Rightarrow> Costmap" where
  "UpdateCostmapFlag m =
     (let old = cnt_iter m; m = m\<lparr>cnt_iter := old + 1\<rparr>
      in if cnt_limit m \<le> old then m\<lparr>costmap_flag := True, cnt_iter := 0\<rparr> else m)"

definition UpdatePointCloud :: "PointXYZI list \<Rightarrow> Costmap \<Rightarrow> Costmap" where
  "UpdatePointCloud pcl m = UpdateCostmapFlag (m\<lparr>cur_point_cloud := pcl\<rparr>)"

definition UpdatePose :: "mat4 \<Rightarrow> Costmap \<Rightarrow> Costmap" where
  "UpdatePose tf m = m\<lparr>cur_pose := tf\<rparr>"

definition IsInBounds :: "Costmap \<Rightarrow> int \<Rightarrow> int \<Rightarrow> bool" where
  "IsInBounds m x y \<longleftrightarrow> (0 \<le> x \<and> x < fst (global_size m)) \<and> (0 \<le> y \<and> y < snd (global_size m))"

definition new_odds :: "real \<Rightarrow> real \<Rightarrow> real" where
  "new_odds old p = std_clamp (old + ProbabilityToLogOdds p - log_odds_unknown) log_odds_min log_odds_max"

definition UpdateCell :: "int \<Rightarrow> int \<Rightarrow> real \<Rightarrow> Costmap \<Rightarrow> Costmap" where
  "UpdateCell x y p m =
     (if IsInBounds m x y
      then m\<lparr>global_costmap := mat_set (global_costmap m) x y (new_odds (coeff (global_costmap m) x y) p)\<rparr>
      else m)"

text \<open>
  The loop of the line: \<open>n\<close> steps left, \<open>du\<close> and \<open>dv\<close> the extents along the driving and the
  other axis, \<open>su\<close> and \<open>sv\<close> the signs of the two steps, \<open>d\<close> the discriminant.
\<close>

fun bresenham :: "nat \<Rightarrow> int \<Rightarrow> int \<Rightarrow> int \<Rightarrow> int \<Rightarrow> int \<Rightarrow> int \<Rightarrow> int \<Rightarrow> (int \<times> int) list" where
  "bresenham 0 du dv su sv d u v = []"
| "bresenham (Suc n) du dv su sv d u v =
     (let v' = (if d < 0 then v else v + sv);
          d' = (if d < 0 then d + 2 * dv else d + 2 * (dv - du))
      in (u, v') # bresenham n du dv su sv d' (u + su) v')"

definition line_cells :: "int \<Rightarrow> int \<Rightarrow> int \<Rightarrow> int \<Rightarrow> (int \<times> int) list" where
  "line_cells sx sy ex ey =
     (let dx = \<bar>ex - sx\<bar>; dy = \<bar>ey - sy\<bar>;
          stx = (if ex > sx then 1 else -1); sty = (if ey > sy then 1 else -1)
      in if dx > dy then bresenham (nat dx) dx dy stx sty (2 * dy - dx) sx sy
         else map (\<lambda>(v, u). (u, v)) (bresenham (nat dy) dy dx sty stx (2 * dx - dy) sy sx))"

definition UpdateCellsOnBresenhamLine :: "int \<Rightarrow> int \<Rightarrow> int \<Rightarrow> int \<Rightarrow> Costmap \<Rightarrow> Costmap" where
  "UpdateCellsOnBresenhamLine sx sy ex ey m =
     fold (\<lambda>(x, y). UpdateCell x y P_FREE) (line_cells sx sy ex ey) m"

definition UpdateLocalCostmap :: "Costmap \<Rightarrow> exn + Costmap" where
  "UpdateLocalCostmap m =
     (let lm = (local_costmap m)\<lparr>coeff := (\<lambda>_ _. log_odds_unknown)\<rparr>;
          px = \<lfloor>cur_pose m 0 3 / resolution m\<rfloor> + fst (global_center m);
          py = \<lfloor>cur_pose m 1 3 / resolution m\<rfloor> + snd (global_center m);
          (lcx, lcy) = local_center m
      in sbind (if IsInBounds m (px - lcx) (py - lcy) \<and> IsInBounds m (px + lcx) (py + lcy)
                then mat_block (global_costmap m) (px - lcx) (py - lcy) (fst (local_size m)) (snd (local_size m))
                else Inr lm) (\<lambda>lm'.
           Inr (m\<lparr>local_costmap := lm',
                  local_costmap_info := (local_costmap_info m)
                    \<lparr>origin_pos_x := of_int (px - fst (global_center m) - lcx) * resolution m,
                     origin_pos_y := of_int (py - snd (global_center m) - lcy) * resolution m\<rparr>\<rparr>)))"

definition cluster_points :: "Costmap \<Rightarrow> PointXYZI list" where
  "cluster_points m =
     concat (map (\<lambda>i. concat (map (\<lambda>j.
       if coeff (local_costmap m) i j \<ge> P_OCCUPIED
       then [\<lparr>pt_x = origin_pos_x (local_costmap_info m) + resolution m * of_int i,
              pt_y = origin_pos_y (local_costmap_info m) + resolution m * of_int j,
              pt_z = 0, intensity = 0\<rparr>]
       else []) [0..mcols (local_costmap m) - 1])) [0..mrows (local_costmap m) - 1])"

definition box_of :: "PointXYZI \<Rightarrow> PointXYZI \<Rightarrow> BoundingBox" where
  "box_of minPt maxPt =
     \<lparr>box_size_x = pt_x maxPt - pt_x minPt, box_size_y = pt_y maxPt - pt_y minPt,
      box_center_x = (pt_x minPt + pt_x maxPt) / 2, box_center_y = (pt_y minPt + pt_y maxPt) / 2\<rparr>"

fun those_idx :: "'a list \<Rightarrow> int list \<Rightarrow> exn + 'a list" where
  "those_idx xs [] = Inr []"
| "those_idx xs (i # ks) = sbind (idx xs i) (\<lambda>x. sbind (those_idx xs ks) (\<lambda>ys. Inr (x # ys)))"

fun cluster_boxes :: "PclOps \<Rightarrow> PointXYZI list \<Rightarrow> int list list \<Rightarrow> exn + BoundingBox list" where
  "cluster_boxes P pts [] = Inr []"
| "cluster_boxes P pts (ids # rest) =
     sbind (those_idx pts ids) (\<lambda>cluster.
     sbind (cluster_boxes P pts rest) (\<lambda>boxes.
       Inr (box_of (fst (pcl_minmax P cluster)) (snd (pcl_minmax P cluster)) # boxes)))"

definition CalculateBoundingBoxes :: "PclOps \<Rightarrow> Costmap \<Rightarrow> exn + Costmap" where
  "CalculateBoundingBoxes P m =
     (let pts = cluster_points m;
          clusters = (if length pts > 0
                      then pcl_extract P (dbscan_eps (config m)) (dbscan_min_samples (config m)) pts else [])
      in sbind (cluster_boxes P pts clusters) (\<lambda>boxes. Inr (m\<lparr>bounding_boxes := boxes\<rparr>)))"

text \<open>One lidar return: its cell is occupied, the cells of the ray to it are free.\<close>

definition update_point :: "int \<Rightarrow> int \<Rightarrow> PointXYZI \<Rightarrow> Costmap \<Rightarrow> Costmap" where
  "update_point sx sy pt m =
     (let x = \<lfloor>pt_x pt / resolution m\<rfloor> + fst (global_center m);
          y = \<lfloor>pt_y pt / resolution m\<rfloor> + snd (global_center m)
      in UpdateCellsOnBresenhamLine sx sy x y (UpdateCell x y P_OCCUPIED m))"

definition UpdateCostmap :: "PclOps \<Rightarrow> Costmap \<Rightarrow> exn + Costmap" where
  "UpdateCostmap P m =
     (let sx = \<lfloor>cur_pose m 0 3 / resolution m\<rfloor> + fst (global_center m);
          sy = \<lfloor>cur_pose m 1 3 / resolution m\<rfloor> + snd (global_center m);
          pts = pcl_pass_z P 0 1 (pcl_transform P (cur_pose m) (cur_point_cloud m))
      in sbind (UpdateLocalCostmap (fold (update_point sx sy) pts m)) (\<lambda>m1.
         sbind (CalculateBoundingBoxes P m1) (\<lambda>m2.
         Inr (m2\<lparr>costmap_flag := False\<rparr>))))"

section \<open>The line\<close>

text \<open>
  The discriminant decides between the two candidate cells by the ray's position at the next
  column: cell \<open>i\<close> has the offset nearest to the ray there.
\<close>

lemma bresenham_nth:
  assumes "0 \<le> dv" and "dv \<le> du" and "i < n"
    and "d = 2 * (dv * c) + 2 * dv - du - 2 * (du * k)" and "\<bar>2 * (du * k) - 2 * (dv * c)\<bar> \<le> du"
  shows "\<exists>k'. bresenham n du dv su sv d u v ! i = (u + int i * su, v + sv * (k' - k))
    \<and> \<bar>2 * (du * k') - 2 * (dv * (c + int i + 1))\<bar> \<le> du \<and> k \<le> k'"
  using assms(3-)
proof (induction n arbitrary: i d u v c k)
  case 0
  then show ?case by simp
next
  case (Suc n)
  define k1 where "k1 = (if d < 0 then k else k + 1)"
  have ub: "\<bar>2 * (du * k1) - 2 * (dv * (c + 1))\<bar> \<le> du"
    using Suc.prems assms(1,2) by (auto simp: k1_def algebra_simps abs_le_iff)
  show ?case
  proof (cases i)
    case 0
    then show ?thesis
      using ub by (intro exI [of _ k1]) (auto simp: k1_def Let_def algebra_simps)
  next
    case (Suc i')
    let ?v = "if d < 0 then v else v + sv" and ?d = "if d < 0 then d + 2 * dv else d + 2 * (dv - du)"
    have "?d = 2 * (dv * (c + 1)) + 2 * dv - du - 2 * (du * k1)"
      using Suc.prems(2) by (simp add: k1_def algebra_simps)
    from Suc.IH [OF _ this ub, of i' "u + su" ?v] obtain k' where
      "bresenham n du dv su sv ?d (u + su) ?v ! i' = (u + su + int i' * su, ?v + sv * (k' - k1))"
      "\<bar>2 * (du * k') - 2 * (dv * (c + 1 + int i' + 1))\<bar> \<le> du" "k1 \<le> k'"
      using Suc.prems(1) Suc by auto
    moreover have "?v + sv * (k' - k1) = v + sv * (k' - k)" "k \<le> k1"
      by (simp_all add: k1_def algebra_simps)
    ultimately show ?thesis
      using Suc by (intro exI [of _ k']) (auto simp: Let_def algebra_simps)
  qed
qed

lemma length_bresenham [simp]: "length (bresenham n du dv su sv d u v) = n"
  by (induction n arbitrary: d u v) (simp_all add: Let_def)

text \<open>The step count \<open>k\<close> along the other axis at index \<open>i\<close>, rounded to nearest.\<close>

definition near :: "int \<Rightarrow> int \<Rightarrow> nat \<Rightarrow> int \<Rightarrow> bool" where
  "near du dv i k \<longleftrightarrow> \<bar>2 * (du * k) - 2 * (dv * (int i + 1))\<bar> \<le> du \<and> 0 \<le> k"

lemma near_bounded:
  assumes "near du dv i k" and "0 \<le> dv" and "dv \<le> du" and "int i < du"
  shows "k \<le> dv"
proof (rule ccontr)
  assume "\<not> k \<le> dv"
  then have "du * (dv + 1) \<le> du * k" using assms by (intro mult_left_mono) auto
  moreover have "dv * (int i + 1) \<le> dv * du" using assms by (intro mult_left_mono) auto
  moreover have "0 < du" using assms(4) by linarith
  ultimately show False
    using assms(1) by (auto simp: near_def algebra_simps)
qed

lemma bresenham_cell:
  assumes "0 \<le> dv" and "dv \<le> du" and "i < nat du"
  obtains k where "bresenham (nat du) du dv su sv (2 * dv - du) u v ! i = (u + int i * su, v + sv * k)"
    and "near du dv i k"
proof -
  from bresenham_nth [OF assms, where c = 0 and k = 0 and su = su and sv = sv and u = u and v = v] assms
  obtain k where "bresenham (nat du) du dv su sv (2 * dv - du) u v ! i = (u + int i * su, v + sv * k)"
    "\<bar>2 * (du * k) - 2 * (dv * (0 + int i + 1))\<bar> \<le> du" "0 \<le> k"
    by auto
  moreover from this have "near du dv i k" by (simp add: near_def)
  ultimately show ?thesis using that by blast
qed

abbreviation sgn1 :: "int \<Rightarrow> int \<Rightarrow> int" where
  "sgn1 a b \<equiv> (if b > a then 1 else -1)"

lemma length_line_cells: "int (length (line_cells sx sy ex ey)) = max \<bar>ex - sx\<bar> \<bar>ey - sy\<bar>"
  by (auto simp: line_cells_def Let_def)

lemma line_cell_x:
  assumes "\<bar>ey - sy\<bar> < \<bar>ex - sx\<bar>" and "i < length (line_cells sx sy ex ey)"
  obtains k where "line_cells sx sy ex ey ! i = (sx + int i * sgn1 sx ex, sy + sgn1 sy ey * k)"
    and "near \<bar>ex - sx\<bar> \<bar>ey - sy\<bar> i k"
proof -
  have "i < nat \<bar>ex - sx\<bar>" using assms by (simp add: line_cells_def Let_def)
  from bresenham_cell [OF _ _ this, of "\<bar>ey - sy\<bar>" "sgn1 sx ex" "sgn1 sy ey" sx sy] assms(1)
  obtain k where "bresenham (nat \<bar>ex - sx\<bar>) \<bar>ex - sx\<bar> \<bar>ey - sy\<bar> (sgn1 sx ex) (sgn1 sy ey) (2 * \<bar>ey - sy\<bar> - \<bar>ex - sx\<bar>) sx sy ! i =
      (sx + int i * sgn1 sx ex, sy + sgn1 sy ey * k)" "near \<bar>ex - sx\<bar> \<bar>ey - sy\<bar> i k"
    by (metis abs_ge_zero less_imp_le)
  then show ?thesis
    using that assms(1) by (simp add: line_cells_def Let_def)
qed

lemma line_cell_y:
  assumes "\<bar>ex - sx\<bar> \<le> \<bar>ey - sy\<bar>" and "i < length (line_cells sx sy ex ey)"
  obtains k where "line_cells sx sy ex ey ! i = (sx + sgn1 sx ex * k, sy + int i * sgn1 sy ey)"
    and "near \<bar>ey - sy\<bar> \<bar>ex - sx\<bar> i k"
proof -
  have i: "i < nat \<bar>ey - sy\<bar>" using assms by (simp add: line_cells_def Let_def)
  from bresenham_cell [OF _ assms(1) i, of "sgn1 sy ey" "sgn1 sx ex" sy sx]
  obtain k where "bresenham (nat \<bar>ey - sy\<bar>) \<bar>ey - sy\<bar> \<bar>ex - sx\<bar> (sgn1 sy ey) (sgn1 sx ex) (2 * \<bar>ex - sx\<bar> - \<bar>ey - sy\<bar>) sy sx ! i =
      (sy + int i * sgn1 sy ey, sx + sgn1 sx ex * k)" "near \<bar>ey - sy\<bar> \<bar>ex - sx\<bar> i k"
    by (metis abs_ge_zero)
  then show ?thesis
    using that assms(1) i by (simp add: line_cells_def Let_def)
qed

text \<open>Every cell of the line lies in the rectangle of its ends, and none is the end.\<close>

lemma step_between:
  fixes a b k :: int
  assumes "0 \<le> k" and "k \<le> \<bar>b - a\<bar>"
  shows "min a b \<le> a + sgn1 a b * k" and "a + sgn1 a b * k \<le> max a b"
    and "a + sgn1 a b * k = b \<longleftrightarrow> k = \<bar>b - a\<bar>"
  using assms by (auto split: if_splits)

lemma line_cell_bounds:
  assumes "(x, y) \<in> set (line_cells sx sy ex ey)"
  shows "min sx ex \<le> x \<and> x \<le> max sx ex \<and> min sy ey \<le> y \<and> y \<le> max sy ey \<and> (x, y) \<noteq> (ex, ey)"
proof -
  let ?l = "line_cells sx sy ex ey"
  obtain i where i: "i < length ?l" "?l ! i = (x, y)" using assms by (auto simp: in_set_conv_nth)
  have il: "int i < max \<bar>ex - sx\<bar> \<bar>ey - sy\<bar>" using i(1) length_line_cells [of sx sy ex ey] by linarith
  show ?thesis
  proof (cases "\<bar>ey - sy\<bar> < \<bar>ex - sx\<bar>")
    case True
    from line_cell_x [OF this i(1)] i(2) obtain k where
      xy: "x = sx + sgn1 sx ex * int i" "y = sy + sgn1 sy ey * k" and "near \<bar>ex - sx\<bar> \<bar>ey - sy\<bar> i k"
      by (metis mult.commute prod.inject)
    then have "0 \<le> k" "k \<le> \<bar>ey - sy\<bar>" using near_bounded [of "\<bar>ex - sx\<bar>" "\<bar>ey - sy\<bar>" i k] True il by (auto simp: near_def)
    moreover have "int i < \<bar>ex - sx\<bar>" using il True by simp
    ultimately show ?thesis
      using step_between [of "int i" ex sx] step_between [of k ey sy] unfolding xy by simp
  next
    case False
    then have le: "\<bar>ex - sx\<bar> \<le> \<bar>ey - sy\<bar>" by simp
    from line_cell_y [OF le i(1)] i(2) obtain k where
      xy: "x = sx + sgn1 sx ex * k" "y = sy + sgn1 sy ey * int i" and "near \<bar>ey - sy\<bar> \<bar>ex - sx\<bar> i k"
      by (metis mult.commute prod.inject)
    then have "0 \<le> k" "k \<le> \<bar>ex - sx\<bar>" using near_bounded [of "\<bar>ey - sy\<bar>" "\<bar>ex - sx\<bar>" i k] le il by (auto simp: near_def)
    moreover have "int i < \<bar>ey - sy\<bar>" using il le by simp
    ultimately show ?thesis
      using step_between [of "int i" ey sy] step_between [of k ex sx] unfolding xy by simp
  qed
qed

lemma distinct_line_cells: "distinct (line_cells sx sy ex ey)"
proof (cases "\<bar>ey - sy\<bar> < \<bar>ex - sx\<bar>")
  case True
  show ?thesis
    unfolding distinct_conv_nth
  proof (intro allI impI)
    fix i j assume "i < length (line_cells sx sy ex ey)" "j < length (line_cells sx sy ex ey)" "i \<noteq> j"
    then show "line_cells sx sy ex ey ! i \<noteq> line_cells sx sy ex ey ! j"
      by (elim line_cell_x [OF True]) auto
  qed
next
  case False
  then have le: "\<bar>ex - sx\<bar> \<le> \<bar>ey - sy\<bar>" by simp
  show ?thesis
    unfolding distinct_conv_nth
  proof (intro allI impI)
    fix i j assume "i < length (line_cells sx sy ex ey)" "j < length (line_cells sx sy ex ey)" "i \<noteq> j"
    then show "line_cells sx sy ex ey ! i \<noteq> line_cells sx sy ex ey ! j"
      by (elim line_cell_y [OF le]) auto
  qed
qed

section \<open>Updating cells\<close>

text \<open>What an update of the global map leaves alone: everything but the cells.\<close>

definition only_cells :: "Costmap \<Rightarrow> Costmap \<Rightarrow> bool" where
  "only_cells m m' \<longleftrightarrow> (\<exists>f. m' = m\<lparr>global_costmap := (global_costmap m)\<lparr>coeff := f\<rparr>\<rparr>)"

lemma only_cells_refl [simp]: "only_cells m m"
  by (auto simp: only_cells_def intro!: exI [of _ "coeff (global_costmap m)"])

lemma only_cells_trans: "only_cells m m' \<Longrightarrow> only_cells m' m'' \<Longrightarrow> only_cells m m''"
  by (auto simp: only_cells_def)

lemma only_cells_UpdateCell [simp]: "only_cells m (UpdateCell x y p m)"
  by (cases "IsInBounds m x y") (auto simp: UpdateCell_def mat_set_def only_cells_def intro: exI [of _ "coeff (global_costmap m)"])

lemma only_cellsD:
  assumes "only_cells m m'"
  shows "IsInBounds m' = IsInBounds m" "resolution m' = resolution m" "global_center m' = global_center m"
    "cur_pose m' = cur_pose m" "config m' = config m" "global_size m' = global_size m"
    "local_size m' = local_size m" "local_center m' = local_center m"
    "mrows (global_costmap m') = mrows (global_costmap m)" "mcols (global_costmap m') = mcols (global_costmap m)"
    "global_costmap_info m' = global_costmap_info m" "local_costmap_info m' = local_costmap_info m"
    "local_costmap m' = local_costmap m" "cnt_iter m' = cnt_iter m" "cnt_limit m' = cnt_limit m"
  using assms by (auto simp: only_cells_def IsInBounds_def fun_eq_iff)

abbreviation cell :: "Costmap \<Rightarrow> int \<Rightarrow> int \<Rightarrow> real" where
  "cell m x y \<equiv> coeff (global_costmap m) x y"

lemma cell_UpdateCell:
  "cell (UpdateCell x y p m) i j = (if IsInBounds m i j \<and> (i, j) = (x, y) then new_odds (cell m i j) p else cell m i j)"
  by (auto simp: UpdateCell_def mat_set_def)

lemma only_cells_fold:
  "(\<And>c m. only_cells m (f c m)) \<Longrightarrow> only_cells m (fold f cs m)"
  by (induction cs arbitrary: m) (auto intro: only_cells_trans)

lemma only_cells_line [simp]: "only_cells m (UpdateCellsOnBresenhamLine sx sy ex ey m)"
  unfolding UpdateCellsOnBresenhamLine_def by (rule only_cells_fold) (auto split: prod.split)

lemma cell_fold_free:
  "distinct cs \<Longrightarrow> cell (fold (\<lambda>(x, y). UpdateCell x y p) cs m) i j =
     (if IsInBounds m i j \<and> (i, j) \<in> set cs then new_odds (cell m i j) p else cell m i j)"
proof (induction cs arbitrary: m)
  case Nil
  then show ?case by simp
next
  case (Cons c cs)
  obtain x y where c: "c = (x, y)" by fastforce
  show ?case
    using Cons by (auto simp: c cell_UpdateCell only_cellsD(1) [OF only_cells_UpdateCell])
qed

lemma only_cells_update_point [simp]: "only_cells m (update_point sx sy pt m)"
  unfolding update_point_def Let_def by (meson only_cells_UpdateCell only_cells_line only_cells_trans)

abbreviation hit_cell :: "Costmap \<Rightarrow> PointXYZI \<Rightarrow> int \<times> int" where
  "hit_cell m pt \<equiv> (\<lfloor>pt_x pt / resolution m\<rfloor> + fst (global_center m), \<lfloor>pt_y pt / resolution m\<rfloor> + snd (global_center m))"

lemma cell_update_point:
  "cell (update_point sx sy pt m) i j =
     (if \<not> IsInBounds m i j then cell m i j
      else if (i, j) = hit_cell m pt then new_odds (cell m i j) P_OCCUPIED
      else if (i, j) \<in> set (line_cells sx sy (fst (hit_cell m pt)) (snd (hit_cell m pt))) then new_odds (cell m i j) P_FREE
      else cell m i j)"
proof -
  let ?x = "fst (hit_cell m pt)" and ?y = "snd (hit_cell m pt)"
  let ?m = "UpdateCell ?x ?y P_OCCUPIED m" and ?l = "line_cells sx sy ?x ?y"
  have "cell (update_point sx sy pt m) i j =
      (if IsInBounds ?m i j \<and> (i, j) \<in> set ?l then new_odds (cell ?m i j) P_FREE else cell ?m i j)"
    unfolding update_point_def UpdateCellsOnBresenhamLine_def Let_def fst_conv snd_conv
    by (rule cell_fold_free [OF distinct_line_cells])
  moreover have "(?x, ?y) \<notin> set ?l" using line_cell_bounds by blast
  moreover have "IsInBounds ?m = IsInBounds m" by (rule only_cellsD(1) [OF only_cells_UpdateCell])
  ultimately show ?thesis
    by (auto simp: cell_UpdateCell)
qed

section \<open>The values of the cells\<close>

definition lo_hit :: real where "lo_hit = ln (7 / 3)"
definition lo_lim :: real where "lo_lim = ln 19"

lemma log_odds_consts:
  "log_odds_unknown = 0" "ProbabilityToLogOdds P_OCCUPIED = lo_hit" "ProbabilityToLogOdds P_FREE = - lo_hit"
  "log_odds_max = lo_lim" "log_odds_min = - lo_lim"
proof -
  have "ln (3 / 7 :: real) = - ln (7 / 3)" using ln_inverse [of "7 / 3 :: real"] by simp
  moreover have "ln (1 / 19 :: real) = - ln 19" using ln_inverse [of "19 :: real"] by (simp add: inverse_eq_divide)
  ultimately show "log_odds_unknown = 0" "ProbabilityToLogOdds P_OCCUPIED = lo_hit" "ProbabilityToLogOdds P_FREE = - lo_hit"
    "log_odds_max = lo_lim" "log_odds_min = - lo_lim"
    by (simp_all add: log_odds_unknown_def log_odds_max_def log_odds_min_def ProbabilityToLogOdds_def
        P_UNKNOWN_def P_OCCUPIED_def P_FREE_def P_MAX_def P_MIN_def lo_hit_def lo_lim_def)
qed

lemma new_odds_eq:
  "new_odds l P_OCCUPIED = std_clamp (l + lo_hit) (- lo_lim) lo_lim"
  "new_odds l P_FREE = std_clamp (l - lo_hit) (- lo_lim) lo_lim"
  by (simp_all add: new_odds_def log_odds_consts)

text \<open>Where the limit lies among the multiples of one hit, and where the number 0.7 does.\<close>

lemma lo_facts:
  "3 * lo_hit < lo_lim" "lo_lim < 4 * lo_hit" "2 * lo_lim < 7 * lo_hit" "6 * lo_hit < 2 * lo_lim" "0 < lo_hit"
proof -
  have p: "of_nat n * lo_hit = ln ((7 / 3) ^ n)" for n by (simp add: lo_hit_def ln_realpow)
  have q: "of_nat n * lo_lim = ln (19 ^ n)" for n by (simp add: lo_lim_def ln_realpow)
  show "3 * lo_hit < lo_lim" using p [of 3] by (simp add: power_divide lo_lim_def)
  show "lo_lim < 4 * lo_hit" using p [of 4] by (simp add: power_divide lo_lim_def)
  show "2 * lo_lim < 7 * lo_hit" using p [of 7] q [of 2] by (simp add: power_divide)
  show "6 * lo_hit < 2 * lo_lim" using p [of 6] q [of 2] by (simp add: power_divide)
  show "0 < lo_hit" by (simp add: lo_hit_def)
qed

lemma lo_hit_bounds: "P_OCCUPIED < lo_hit" "lo_lim - 3 * lo_hit < P_OCCUPIED" "4 * lo_hit - lo_lim < P_OCCUPIED"
proof -
  have p: "of_nat n * lo_hit = ln ((7 / 3) ^ n)" for n by (simp add: lo_hit_def ln_realpow)
  have "exp 7 \<le> (3 :: real) ^ 7"
    using exp_le power_mono [of "exp 1 :: real" 3 7] by (simp flip: exp_of_nat_mult)
  also have "(3 :: real) ^ 7 < (7 / 3) ^ 10" by (simp add: power_divide)
  finally have "7 < 10 * lo_hit"
    using p [of 10] ln_less_cancel_iff [of "exp 7" "(7 / 3) ^ 10 :: real"] by simp
  then show "P_OCCUPIED < lo_hit" by (simp add: P_OCCUPIED_def)
  have e: "1 + 7 / 10 \<le> exp (7 / 10 :: real)" by (rule exp_ge_add_one_self)
  have less: "ln z < 7 / 10" if "z < 1 + 7 / 10" "0 < z" for z :: real
    using ln_less_cancel_iff [of z "exp (7 / 10)"] that e by simp
  have "lo_lim - 3 * lo_hit = ln (19 / (7 / 3) ^ 3)"
    using p [of 3] ln_div [of 19 "(7 / 3) ^ 3 :: real"] by (simp add: lo_lim_def)
  then show "lo_lim - 3 * lo_hit < P_OCCUPIED"
    using less [of "19 / (7 / 3) ^ 3"] by (simp add: P_OCCUPIED_def power_divide)
  have "4 * lo_hit - lo_lim = ln ((7 / 3) ^ 4 / 19)"
    using p [of 4] ln_div [of "(7 / 3) ^ 4 :: real" 19] by (simp add: lo_lim_def)
  then show "4 * lo_hit - lo_lim < P_OCCUPIED"
    using less [of "(7 / 3) ^ 4 / 19"] by (simp add: P_OCCUPIED_def power_divide)
qed

text \<open>The values a cell can take: multiples of one hit, counted from 0 or from one of the limits.\<close>

definition hits :: "int \<Rightarrow> real" where
  "hits k = of_int k * lo_hit"

lemma hits_simps [simp]: "hits 0 = 0" "hits 1 = lo_hit" "hits (numeral n) = numeral n * lo_hit"
  "hits (- k) = - hits k" "hits (k + 1) = hits k + lo_hit" "hits (k - 1) = hits k - lo_hit"
  by (simp_all add: hits_def algebra_simps)

lemma hits_mono: "i \<le> j \<Longrightarrow> hits i \<le> hits j"
  unfolding hits_def using lo_facts(5) by (intro mult_right_mono) simp_all

definition reach_odds :: "real \<Rightarrow> bool" where
  "reach_odds l \<longleftrightarrow> (\<exists>k. \<bar>k\<bar> \<le> 3 \<and> l = hits k) \<or> (\<exists>k. 0 \<le> k \<and> k \<le> 6 \<and> l = lo_lim - hits k)
     \<or> (\<exists>k. 0 \<le> k \<and> k \<le> 6 \<and> l = hits k - lo_lim)"

lemma reach_oddsE:
  assumes "reach_odds l"
  obtains (mid) k where "\<bar>k\<bar> \<le> 3" "l = hits k"
    | (high) k where "0 \<le> k" "k \<le> 6" "l = lo_lim - hits k"
    | (low) k where "0 \<le> k" "k \<le> 6" "l = hits k - lo_lim"
  using assms unfolding reach_odds_def by blast

lemma reach_oddsI:
  "\<bar>k\<bar> \<le> 3 \<Longrightarrow> reach_odds (hits k)"
  "0 \<le> k \<Longrightarrow> k \<le> 6 \<Longrightarrow> reach_odds (lo_lim - hits k)"
  "0 \<le> k \<Longrightarrow> k \<le> 6 \<Longrightarrow> reach_odds (hits k - lo_lim)"
  unfolding reach_odds_def by blast+

lemma reach_odds_minus: "reach_odds l \<Longrightarrow> reach_odds (- l)"
proof (elim reach_oddsE)
  fix k assume "\<bar>k\<bar> \<le> 3" "l = hits k"
  then show ?thesis using reach_oddsI(1) [of "- k"] by simp
qed (simp_all add: reach_oddsI)

lemma reach_odds_0: "reach_odds 0"
  using reach_oddsI(1) [of 0] by simp

lemma reach_clamp:
  "reach_odds x \<Longrightarrow> - lo_lim \<le> x \<Longrightarrow> x \<le> lo_lim \<Longrightarrow> reach_odds (std_clamp x (- lo_lim) lo_lim)"
  by (simp add: std_clamp_id)

lemma clamp_hi: "lo \<le> hi \<Longrightarrow> hi \<le> x \<Longrightarrow> std_clamp x lo hi = (hi :: real)"
  by (auto simp: std_clamp_def)

lemma reach_odds_hit:
  assumes "reach_odds l"
  shows "reach_odds (std_clamp (l + lo_hit) (- lo_lim) lo_lim)"
proof -
  have pos: "0 \<le> lo_lim" using lo_facts by linarith
  have top: "reach_odds (std_clamp x (- lo_lim) lo_lim)" if "lo_lim \<le> x" for x
    using that reach_oddsI(2) [of 0] pos by (simp add: clamp_hi)
  show ?thesis
    using assms
  proof (cases rule: reach_oddsE)
    case (mid k)
    show ?thesis
    proof (cases "k \<le> 2")
      case True
      have "reach_odds (hits (k + 1))" using mid True by (intro reach_oddsI) simp
      then have "reach_odds (hits k + lo_hit)" by simp
      moreover have "hits k \<le> 2 * lo_hit" "- 3 * lo_hit \<le> hits k"
        using hits_mono [of k 2] hits_mono [of "- 3" k] mid(1) True by simp_all
      ultimately show ?thesis
        unfolding mid(2) using lo_facts by (intro reach_clamp) linarith+
    next
      case False
      then have "3 * lo_hit \<le> hits k" using hits_mono [of 3 k] by simp
      then show ?thesis unfolding mid(2) using lo_facts mid(1) False hits_simps(3) by (intro top) (auto simp: numeral_eq_iff)
    qed
  next
    case (high k)
    show ?thesis
    proof (cases "k = 0")
      case True
      then show ?thesis unfolding high using lo_facts by (intro top) simp
    next
      case False
      have "reach_odds (lo_lim - hits (k - 1))" using high False by (intro reach_oddsI) simp_all
      then have "reach_odds (lo_lim - hits k + lo_hit)" by (simp add: algebra_simps)
      moreover have "lo_hit \<le> hits k" "hits k \<le> 6 * lo_hit"
        using hits_mono [of 1 k] hits_mono [of k 6] high(1,2) False by simp_all
      ultimately show ?thesis
        unfolding high(3) using lo_facts by (intro reach_clamp) linarith+
    qed
  next
    case (low k)
    show ?thesis
    proof (cases "k = 6")
      case True
      then show ?thesis unfolding low using lo_facts by (intro top) simp
    next
      case False
      have "reach_odds (hits (k + 1) - lo_lim)" using low False by (intro reach_oddsI) simp_all
      moreover have "hits (k + 1) - lo_lim = hits k - lo_lim + lo_hit" by simp
      ultimately have "reach_odds (hits k - lo_lim + lo_hit)" by (simp only:)
      moreover have "0 \<le> hits k" "hits k \<le> 5 * lo_hit"
        using hits_mono [of 0 k] hits_mono [of k 5] low(1,2) False by simp_all
      ultimately show ?thesis
        unfolding low(3) using lo_facts by (intro reach_clamp) linarith+
    qed
  qed
qed

lemma clamp_minus: "0 \<le> (b :: real) \<Longrightarrow> std_clamp (- x) (- b) b = - std_clamp x (- b) b"
  by (auto simp: std_clamp_def)

lemma reach_odds_new:
  assumes "reach_odds l"
  shows "reach_odds (new_odds l P_OCCUPIED)" and "reach_odds (new_odds l P_FREE)"
proof -
  show "reach_odds (new_odds l P_OCCUPIED)"
    unfolding new_odds_eq by (rule reach_odds_hit [OF assms])
  have "std_clamp (l - lo_hit) (- lo_lim) lo_lim = - std_clamp (- l + lo_hit) (- lo_lim) lo_lim"
    using clamp_minus [of lo_lim "- l + lo_hit"] lo_facts by simp
  then show "reach_odds (new_odds l P_FREE)"
    unfolding new_odds_eq using reach_odds_minus reach_odds_hit assms by metis
qed

text \<open>
  Comparing log-odds with 0.7, as the box extraction does, decides as comparing the
  probability with it would: no cell value lies between 0.7 and one hit.
\<close>

lemma reach_odds_threshold:
  assumes "reach_odds l"
  shows "P_OCCUPIED \<le> l \<longleftrightarrow> lo_hit \<le> l"
  using assms
proof (cases rule: reach_oddsE)
  case (mid k)
  have "0 < P_OCCUPIED" by (simp add: P_OCCUPIED_def)
  then show ?thesis
    unfolding mid(2) using hits_mono [of k 0] hits_mono [of 1 k] lo_hit_bounds by (cases "k \<le> 0") auto
next
  case (high k)
  show ?thesis
    unfolding high(3) using hits_mono [of k 2] hits_mono [of 3 k] lo_hit_bounds lo_facts by (cases "k \<le> 2") auto
next
  case (low k)
  show ?thesis
    unfolding low(3) using hits_mono [of k 4] hits_mono [of 5 k] lo_hit_bounds lo_facts by (cases "k \<le> 4") auto
qed

lemma reach_odds_bounds:
  assumes "reach_odds l"
  shows "- lo_lim \<le> l" and "l \<le> lo_lim"
proof -
  have "- lo_lim \<le> l \<and> l \<le> lo_lim"
    using assms
  proof (cases rule: reach_oddsE)
    case (mid k)
    have "hits k \<le> 3 * lo_hit" "- 3 * lo_hit \<le> hits k"
      using hits_mono [of k 3] hits_mono [of "- 3" k] mid(1) by simp_all
    then show ?thesis unfolding mid(2) using lo_facts by linarith
  next
    case (high k)
    have "hits k \<le> 6 * lo_hit" "0 \<le> hits k"
      using hits_mono [of k 6] hits_mono [of 0 k] high(1,2) by simp_all
    then show ?thesis unfolding high(3) using lo_facts by linarith
  next
    case (low k)
    have "hits k \<le> 6 * lo_hit" "0 \<le> hits k"
      using hits_mono [of k 6] hits_mono [of 0 k] low(1,2) by simp_all
    then show ?thesis unfolding low(3) using lo_facts by linarith
  qed
  then show "- lo_lim \<le> l" and "l \<le> lo_lim" by simp_all
qed

lemma probability_threshold: "P_OCCUPIED \<le> LogOddsToProbability l \<longleftrightarrow> lo_hit \<le> l"
proof -
  have pos: "0 < 1 + exp l" by (simp add: add_pos_pos)
  have "P_OCCUPIED \<le> LogOddsToProbability l \<longleftrightarrow> 7 / 3 \<le> exp l"
    using pos by (auto simp: P_OCCUPIED_def LogOddsToProbability_def le_divide_eq)
  also have "\<dots> \<longleftrightarrow> exp lo_hit \<le> exp l" by (simp add: lo_hit_def)
  finally show ?thesis by simp
qed

section \<open>The invariant of the map\<close>

definition map_ok :: "Costmap \<Rightarrow> bool" where
  "map_ok m \<longleftrightarrow>
     0 \<le> fst (local_size m) \<and> 0 \<le> snd (local_size m)
     \<and> mrows (global_costmap m) = fst (global_size m) \<and> mcols (global_costmap m) = snd (global_size m)
     \<and> mrows (local_costmap m) = fst (local_size m) \<and> mcols (local_costmap m) = snd (local_size m)
     \<and> local_center m = (half (fst (local_size m)), half (snd (local_size m)))
     \<and> size_x (global_costmap_info m) = fst (global_size m) \<and> size_y (global_costmap_info m) = snd (global_size m)
     \<and> size_x (local_costmap_info m) = fst (local_size m) \<and> size_y (local_costmap_info m) = snd (local_size m)
     \<and> (\<forall>i j. reach_odds (cell m i j)) \<and> (\<forall>i j. reach_odds (coeff (local_costmap m) i j))
     \<and> cnt_iter m \<le> cnt_limit m"

definition config_ok :: "Config \<Rightarrow> bool" where
  "config_ok c \<longleftrightarrow> 0 < global_resolution c \<and> 0 \<le> global_width c \<and> 0 \<le> global_height c
     \<and> 0 \<le> local_width c \<and> 0 \<le> local_height c"

lemma map_ok_ctor: "config_ok c \<Longrightarrow> map_ok (Costmap_ctor c)"
  unfolding map_ok_def config_ok_def Costmap_ctor_def Let_def InitCostmap_def
  by (simp add: log_odds_consts reach_odds_0 c_trunc_def)

lemma map_ok_flag: "map_ok m \<Longrightarrow> map_ok (UpdateCostmapFlag m)"
  by (auto simp: map_ok_def UpdateCostmapFlag_def Let_def not_le intro: inc_le)

lemma map_ok_cloud: "map_ok m \<Longrightarrow> map_ok (UpdatePointCloud pcl m)"
  unfolding UpdatePointCloud_def by (rule map_ok_flag) (simp add: map_ok_def)

lemma map_ok_pose: "map_ok m \<Longrightarrow> map_ok (UpdatePose tf m)"
  by (simp add: map_ok_def UpdatePose_def)

lemma map_ok_point:
  assumes "map_ok m"
  shows "map_ok (update_point sx sy pt m)"
proof -
  have "reach_odds (cell (update_point sx sy pt m) i j)" for i j
    using assms by (simp add: cell_update_point map_ok_def reach_odds_new)
  then show ?thesis
    using assms unfolding map_ok_def by (simp add: only_cellsD [OF only_cells_update_point])
qed

lemma map_ok_points: "map_ok m \<Longrightarrow> map_ok (fold (update_point sx sy) pts m)"
  by (induction pts arbitrary: m) (simp_all add: map_ok_point)

text \<open>The window is cut out of the global map, which it never leaves.\<close>

definition window_fits :: "Costmap \<Rightarrow> int \<Rightarrow> int \<Rightarrow> bool" where
  "window_fits m px py \<longleftrightarrow> IsInBounds m (px - fst (local_center m)) (py - snd (local_center m))
     \<and> IsInBounds m (px + fst (local_center m)) (py + snd (local_center m))"

lemma half_window: "0 \<le> k \<Longrightarrow> 0 \<le> p - half k \<Longrightarrow> p + half k < n \<Longrightarrow> p - half k + k \<le> n"
  by (auto simp: half_def)

lemma UpdateLocalCostmap_ok:
  assumes "map_ok m"
  defines "px \<equiv> \<lfloor>cur_pose m 0 3 / resolution m\<rfloor> + fst (global_center m)"
    and "py \<equiv> \<lfloor>cur_pose m 1 3 / resolution m\<rfloor> + snd (global_center m)"
  shows "\<exists>m'. UpdateLocalCostmap m = Inr m' \<and> map_ok m' \<and> global_costmap m' = global_costmap m \<and> config m' = config m
    \<and> resolution m' = resolution m \<and> bounding_boxes m' = bounding_boxes m
    \<and> cnt_iter m' = cnt_iter m \<and> cnt_limit m' = cnt_limit m
    \<and> coeff (local_costmap m') = (\<lambda>i j. if window_fits m px py
         then cell m (px - fst (local_center m) + i) (py - snd (local_center m) + j) else log_odds_unknown)
    \<and> origin_pos_x (local_costmap_info m') = of_int (px - fst (global_center m) - fst (local_center m)) * resolution m
    \<and> origin_pos_y (local_costmap_info m') = of_int (py - snd (global_center m) - snd (local_center m)) * resolution m"
proof -
  obtain lcx lcy where lc: "local_center m = (lcx, lcy)" by fastforce
  let ?info = "(local_costmap_info m)\<lparr>origin_pos_x := of_int (px - fst (global_center m) - lcx) * resolution m,
                 origin_pos_y := of_int (py - snd (global_center m) - lcy) * resolution m\<rparr>"
  define lm where "lm = \<lparr>mrows = fst (local_size m), mcols = snd (local_size m),
     coeff = (\<lambda>i j. if window_fits m px py then cell m (px - lcx + i) (py - lcy + j) else log_odds_unknown)\<rparr>"
  have "(local_costmap m)\<lparr>coeff := (\<lambda>_ _. log_odds_unknown)\<rparr> = lm" if "\<not> window_fits m px py"
    using assms(1) that by (simp add: lm_def map_ok_def)
  moreover have "mat_block (global_costmap m) (px - lcx) (py - lcy) (fst (local_size m)) (snd (local_size m)) = Inr lm"
    if "window_fits m px py"
    using that assms(1) half_window [of "fst (local_size m)" px] half_window [of "snd (local_size m)" py] lc
    by (auto simp: mat_block_def lm_def map_ok_def window_fits_def IsInBounds_def)
  ultimately have "UpdateLocalCostmap m = Inr (m\<lparr>local_costmap := lm, local_costmap_info := ?info\<rparr>)"
    unfolding UpdateLocalCostmap_def px_def [symmetric] py_def [symmetric] Let_def lc prod.case
    by (cases "window_fits m px py") (simp_all add: window_fits_def lc)
  moreover have "map_ok (m\<lparr>local_costmap := lm, local_costmap_info := ?info\<rparr>)"
    using assms(1) by (simp add: map_ok_def lm_def log_odds_consts reach_odds_0)
  ultimately show ?thesis
    unfolding lc fst_conv snd_conv
    by (intro exI [of _ "m\<lparr>local_costmap := lm, local_costmap_info := ?info\<rparr>"]) (simp add: lm_def lc)
qed

text \<open>
  What the point cloud library documents: a cluster is a non-empty list of indices into the
  cloud, and the extreme points have the least and greatest coordinates of their cloud.
\<close>

definition pcl_ok :: "PclOps \<Rightarrow> bool" where
  "pcl_ok P \<longleftrightarrow>
     (\<forall>eps n pts. \<forall>ids \<in> set (pcl_extract P eps n pts). ids \<noteq> [] \<and> (\<forall>k \<in> set ids. 0 \<le> k \<and> k < int (length pts)))
     \<and> (\<forall>c. c \<noteq> [] \<longrightarrow>
          pt_x (fst (pcl_minmax P c)) \<in> pt_x ` set c \<and> pt_x (snd (pcl_minmax P c)) \<in> pt_x ` set c
          \<and> pt_y (fst (pcl_minmax P c)) \<in> pt_y ` set c \<and> pt_y (snd (pcl_minmax P c)) \<in> pt_y ` set c
          \<and> (\<forall>p \<in> set c. pt_x (fst (pcl_minmax P c)) \<le> pt_x p \<and> pt_x p \<le> pt_x (snd (pcl_minmax P c))
               \<and> pt_y (fst (pcl_minmax P c)) \<le> pt_y p \<and> pt_y p \<le> pt_y (snd (pcl_minmax P c))))"

lemma those_idx_ok:
  "\<forall>k \<in> set ids. 0 \<le> k \<and> k < int (length xs) \<Longrightarrow> those_idx xs ids = Inr (map (\<lambda>k. xs ! nat k) ids)"
  by (induction ids) simp_all

lemma cluster_boxes_ok:
  "\<forall>ids \<in> set cs. \<forall>k \<in> set ids. 0 \<le> k \<and> k < int (length pts) \<Longrightarrow>
   cluster_boxes P pts cs =
     Inr (map (\<lambda>ids. let c = map (\<lambda>k. pts ! nat k) ids in box_of (fst (pcl_minmax P c)) (snd (pcl_minmax P c))) cs)"
  by (induction cs) (simp_all add: those_idx_ok Let_def)

lemma CalculateBoundingBoxes_ok:
  assumes "pcl_ok P"
  shows "\<exists>boxes. CalculateBoundingBoxes P m = Inr (m\<lparr>bounding_boxes := boxes\<rparr>)
    \<and> (\<forall>b \<in> set boxes. \<exists>c. c \<noteq> [] \<and> set c \<subseteq> set (cluster_points m) \<and> b = box_of (fst (pcl_minmax P c)) (snd (pcl_minmax P c)))"
proof -
  let ?pts = "cluster_points m"
  define cs where "cs = (if length ?pts > 0
      then pcl_extract P (dbscan_eps (config m)) (dbscan_min_samples (config m)) ?pts else [])"
  have ok: "\<forall>ids \<in> set cs. ids \<noteq> [] \<and> (\<forall>k \<in> set ids. 0 \<le> k \<and> k < int (length ?pts))"
    using assms unfolding pcl_ok_def cs_def by auto
  let ?boxes = "map (\<lambda>ids. let c = map (\<lambda>k. ?pts ! nat k) ids in box_of (fst (pcl_minmax P c)) (snd (pcl_minmax P c))) cs"
  have "CalculateBoundingBoxes P m = Inr (m\<lparr>bounding_boxes := ?boxes\<rparr>)"
    unfolding CalculateBoundingBoxes_def Let_def cs_def [unfolded Let_def, symmetric]
    using cluster_boxes_ok [of cs ?pts P] ok by (simp add: Let_def)
  moreover have "\<exists>c. c \<noteq> [] \<and> set c \<subseteq> set ?pts \<and> b = box_of (fst (pcl_minmax P c)) (snd (pcl_minmax P c))"
    if box: "b \<in> set ?boxes" for b
  proof -
    obtain ids where "ids \<in> set cs" and b: "b = box_of (fst (pcl_minmax P (map (\<lambda>k. ?pts ! nat k) ids)))
        (snd (pcl_minmax P (map (\<lambda>k. ?pts ! nat k) ids)))"
      using box by (auto simp: Let_def)
    with ok have "ids \<noteq> []" "set (map (\<lambda>k. ?pts ! nat k) ids) \<subseteq> set ?pts"
      by (auto intro!: nth_mem simp: nat_less_iff)
    with b show ?thesis by (intro exI [of _ "map (\<lambda>k. ?pts ! nat k) ids"]) simp
  qed
  ultimately show ?thesis by blast
qed

lemma UpdateCostmap_ok:
  assumes "map_ok m" and "pcl_ok P"
  shows "\<exists>m'. UpdateCostmap P m = Inr m' \<and> map_ok m' \<and> config m' = config m \<and> \<not> costmap_flag m'
    \<and> cnt_iter m' = cnt_iter m \<and> cnt_limit m' = cnt_limit m \<and> resolution m' = resolution m
    \<and> (\<forall>b \<in> set (bounding_boxes m'). \<exists>c. c \<noteq> [] \<and> set c \<subseteq> set (cluster_points m')
         \<and> b = box_of (fst (pcl_minmax P c)) (snd (pcl_minmax P c)))"
proof -
  let ?sx = "\<lfloor>cur_pose m 0 3 / resolution m\<rfloor> + fst (global_center m)"
    and ?sy = "\<lfloor>cur_pose m 1 3 / resolution m\<rfloor> + snd (global_center m)"
    and ?pts = "pcl_pass_z P 0 1 (pcl_transform P (cur_pose m) (cur_point_cloud m))"
  let ?m1 = "fold (update_point ?sx ?sy) ?pts m"
  have oc: "only_cells m ?m1" by (rule only_cells_fold) simp
  obtain m2 where 2: "UpdateLocalCostmap ?m1 = Inr m2" "map_ok m2" "config m2 = config ?m1"
    "cnt_iter m2 = cnt_iter ?m1" "cnt_limit m2 = cnt_limit ?m1" "resolution m2 = resolution ?m1"
    using UpdateLocalCostmap_ok [OF map_ok_points [OF assms(1)]] by blast
  obtain boxes where 3: "CalculateBoundingBoxes P m2 = Inr (m2\<lparr>bounding_boxes := boxes\<rparr>)"
    "\<forall>b \<in> set boxes. \<exists>c. c \<noteq> [] \<and> set c \<subseteq> set (cluster_points m2) \<and> b = box_of (fst (pcl_minmax P c)) (snd (pcl_minmax P c))"
    using CalculateBoundingBoxes_ok [OF assms(2)] by blast
  note frame = 2(3-6) [unfolded only_cellsD [OF oc]]
  let ?m' = "m2\<lparr>bounding_boxes := boxes, costmap_flag := False\<rparr>"
  have "UpdateCostmap P m = Inr ?m'"
    unfolding UpdateCostmap_def Let_def 2(1) sbind_simps 3(1) by simp
  moreover have "map_ok ?m'" using 2(2) by (simp add: map_ok_def)
  moreover have "cluster_points ?m' = cluster_points m2" by (simp add: cluster_points_def cong: if_cong)
  ultimately show ?thesis
    using frame 3(2) by (intro exI [of _ ?m']) simp
qed

section \<open>Properties of the map\<close>

definition ray_cells :: "int \<Rightarrow> int \<Rightarrow> Costmap \<Rightarrow> PointXYZI \<Rightarrow> (int \<times> int) list" where
  "ray_cells sx sy m pt = line_cells sx sy (fst (hit_cell m pt)) (snd (hit_cell m pt))"

text \<open>
  C35.  One lidar return updates the map as intended: the cell it hits moves one step towards
  occupied, each cell of the ray moves one step towards free exactly once, no other cell
  changes, and the ray, which stays in the rectangle between the vehicle and the hit, never
  frees the cell that it hits.
\<close>

theorem one_return_updates_its_ray:
  "(\<forall>i j. cell (update_point sx sy pt m) i j =
       (if \<not> IsInBounds m i j then cell m i j
        else if (i, j) = hit_cell m pt then std_clamp (cell m i j + ln (7 / 3)) (- ln 19) (ln 19)
        else if (i, j) \<in> set (ray_cells sx sy m pt) then std_clamp (cell m i j - ln (7 / 3)) (- ln 19) (ln 19)
        else cell m i j))
    \<and> distinct (ray_cells sx sy m pt) \<and> hit_cell m pt \<notin> set (ray_cells sx sy m pt)
    \<and> set (ray_cells sx sy m pt) \<subseteq> {min sx (fst (hit_cell m pt))..max sx (fst (hit_cell m pt))}
         \<times> {min sy (snd (hit_cell m pt))..max sy (snd (hit_cell m pt))}"
proof -
  have "set (ray_cells sx sy m pt) \<subseteq> {min sx (fst (hit_cell m pt))..max sx (fst (hit_cell m pt))}
         \<times> {min sy (snd (hit_cell m pt))..max sy (snd (hit_cell m pt))}" and "hit_cell m pt \<notin> set (ray_cells sx sy m pt)"
    using line_cell_bounds [of _ _ sx sy "fst (hit_cell m pt)" "snd (hit_cell m pt)"]
    unfolding ray_cells_def by (auto simp del: fst_conv snd_conv)
  then show ?thesis
    unfolding cell_update_point new_odds_eq lo_hit_def lo_lim_def ray_cells_def
    using distinct_line_cells by blast
qed

text \<open>
  The line is the midpoint line of the ray, read one column late: with the longer extent
  along x, cell \<open>i\<close> lies in column \<open>i\<close> and has the offset nearest to the ray in column \<open>i + 1\<close>,
  so at most half a cell from the ray there.  On a ray of slope one half or more the cell of
  the vehicle itself is not freed: the first cell freed is its neighbour.
\<close>

theorem line_is_midpoint_line:
  assumes "\<bar>ey - sy\<bar> < \<bar>ex - sx\<bar>" and "i < nat \<bar>ex - sx\<bar>"
  shows "length (line_cells sx sy ex ey) = nat \<bar>ex - sx\<bar>
    \<and> (\<exists>k. line_cells sx sy ex ey ! i = (sx + int i * sgn1 sx ex, sy + sgn1 sy ey * k)
        \<and> 0 \<le> k \<and> \<bar>2 * \<bar>ex - sx\<bar> * k - 2 * \<bar>ey - sy\<bar> * (int i + 1)\<bar> \<le> \<bar>ex - sx\<bar>)
    \<and> (\<bar>ex - sx\<bar> \<le> 2 * \<bar>ey - sy\<bar> \<longrightarrow> line_cells sx sy ex ey ! 0 = (sx, sy + sgn1 sy ey))"
proof -
  have len: "length (line_cells sx sy ex ey) = nat \<bar>ex - sx\<bar>"
    using assms(1) length_line_cells [of sx sy ex ey] by linarith
  obtain k where "line_cells sx sy ex ey ! i = (sx + int i * sgn1 sx ex, sy + sgn1 sy ey * k)"
    "near \<bar>ex - sx\<bar> \<bar>ey - sy\<bar> i k"
    using line_cell_x [OF assms(1), of i] assms(2) len by auto
  moreover have "line_cells sx sy ex ey ! 0 = (sx, sy + sgn1 sy ey)" if "\<bar>ex - sx\<bar> \<le> 2 * \<bar>ey - sy\<bar>"
  proof -
    obtain n where "nat \<bar>ex - sx\<bar> = Suc n" using assms(2) by (cases "nat \<bar>ex - sx\<bar>") auto
    then show ?thesis using that assms(1) by (simp add: line_cells_def Let_def)
  qed
  ultimately show ?thesis
    using len by (auto simp: near_def mult.assoc)
qed

theorem line_is_midpoint_line_witness:
  "line_cells 0 0 4 2 = [(0, 1), (1, 1), (2, 2), (3, 2)] \<and> line_cells 0 0 4 2 ! 0 = (0, 1)"
  using line_is_midpoint_line [of 2 0 4 0 0] by (simp add: line_cells_def Let_def numeral_nat)

text \<open>
  The local map is a window into the global one: cutting it out never fails; when the
  window around the vehicle lies inside the global map, each of its cells is the global cell
  at the same place in the world; otherwise all of it is unknown.
\<close>

theorem local_map_is_window:
  assumes "map_ok m" and "px = \<lfloor>cur_pose m 0 3 / resolution m\<rfloor> + fst (global_center m)"
    and "py = \<lfloor>cur_pose m 1 3 / resolution m\<rfloor> + snd (global_center m)"
  shows "\<exists>m'. UpdateLocalCostmap m = Inr m' \<and> global_costmap m' = global_costmap m
    \<and> (\<forall>i j. 0 \<le> i \<longrightarrow> i < fst (local_size m) \<longrightarrow> 0 \<le> j \<longrightarrow> j < snd (local_size m) \<longrightarrow>
         (if window_fits m px py
          then (\<exists>gi gj. IsInBounds m gi gj \<and> coeff (local_costmap m') i j = cell m gi gj
             \<and> origin_pos_x (local_costmap_info m') + of_int i * resolution m = of_int (gi - fst (global_center m)) * resolution m
             \<and> origin_pos_y (local_costmap_info m') + of_int j * resolution m = of_int (gj - snd (global_center m)) * resolution m)
          else coeff (local_costmap m') i j = log_odds_unknown))"
proof -
  let ?lx = "fst (local_center m)" and ?ly = "snd (local_center m)"
  obtain m' where m': "UpdateLocalCostmap m = Inr m'" "global_costmap m' = global_costmap m"
    "coeff (local_costmap m') = (\<lambda>i j. if window_fits m px py then cell m (px - ?lx + i) (py - ?ly + j) else log_odds_unknown)"
    "origin_pos_x (local_costmap_info m') = of_int (px - fst (global_center m) - ?lx) * resolution m"
    "origin_pos_y (local_costmap_info m') = of_int (py - snd (global_center m) - ?ly) * resolution m"
    using UpdateLocalCostmap_ok [OF assms(1)] unfolding assms(2,3) by blast
  have "IsInBounds m (px - ?lx + i) (py - ?ly + j)"
    if "window_fits m px py" "0 \<le> i" "i < fst (local_size m)" "0 \<le> j" "j < snd (local_size m)" for i j
    using that assms(1) half_window [of "fst (local_size m)" px "fst (global_size m)"]
      half_window [of "snd (local_size m)" py "snd (global_size m)"]
    by (auto simp: window_fits_def IsInBounds_def map_ok_def)
  then have "\<exists>gi gj. IsInBounds m gi gj \<and> coeff (local_costmap m') i j = cell m gi gj
      \<and> origin_pos_x (local_costmap_info m') + of_int i * resolution m = of_int (gi - fst (global_center m)) * resolution m
      \<and> origin_pos_y (local_costmap_info m') + of_int j * resolution m = of_int (gj - snd (global_center m)) * resolution m"
    if "window_fits m px py" "0 \<le> i" "i < fst (local_size m)" "0 \<le> j" "j < snd (local_size m)" for i j
    using that by (intro exI [of _ "px - ?lx + i"] exI [of _ "py - ?ly + j"]) (simp add: m' algebra_simps)
  then show ?thesis
    using m' by (intro exI [of _ m']) auto
qed

text \<open>A map of four metres by four, with a window of two by two, at one metre per cell.\<close>

definition small_config :: Config where
  "small_config = \<lparr>global_resolution = 1, global_width = 4, global_height = 4, global_update_per_lidar = 2,
     local_width = 2, local_height = 2, dbscan_eps = 1, dbscan_min_samples = 1, publish_global_costmap = True,
     publish_local_costmap = True, publish_object_detection = True, visualize_object_detection = True\<rparr>"

lemma small_config_ok: "config_ok small_config"
  by (simp add: config_ok_def small_config_def)

lemma small_map: "global_center (Costmap_ctor small_config) = (2, 2)" "local_center (Costmap_ctor small_config) = (1, 1)"
  "global_size (Costmap_ctor small_config) = (4, 4)" "local_size (Costmap_ctor small_config) = (2, 2)"
  "cur_pose (Costmap_ctor small_config) = (\<lambda>_ _. 0)" "resolution (Costmap_ctor small_config) = 1"
  by (simp_all add: Costmap_ctor_def Let_def small_config_def half_def)

theorem local_map_is_window_witness:
  "\<exists>m'. UpdateLocalCostmap (Costmap_ctor small_config) = Inr m'
     \<and> global_costmap m' = global_costmap (Costmap_ctor small_config)"
proof -
  have "(2 :: int) = \<lfloor>cur_pose (Costmap_ctor small_config) 0 3 / resolution (Costmap_ctor small_config)\<rfloor>
      + fst (global_center (Costmap_ctor small_config))"
    "(2 :: int) = \<lfloor>cur_pose (Costmap_ctor small_config) 1 3 / resolution (Costmap_ctor small_config)\<rfloor>
      + snd (global_center (Costmap_ctor small_config))"
    by (simp_all add: small_map)
  from local_map_is_window [OF map_ok_ctor [OF small_config_ok] this] show ?thesis by blast
qed

end
