(* ===== verification/CostmapNode.thy ===== *)
theory CostmapNode
  imports Costmap Text
begin

text \<open>
  The ROS node of the costmap (\<open>costmap_ros_wrapper.cpp\<close>): lidar clouds and navigation states
  in; occupancy grids, bounding boxes, display markers and the map file out.  Time stamps and
  log output are left out; \<open>float\<close> fields of messages are real numbers.
\<close>

record LivoxPoint =
  lx :: real
  ly :: real
  lz :: real
  reflectivity :: real

record CustomMsg =
  point_num :: "32 word"
  points :: "LivoxPoint list"

record OccupancyGrid =
  og_width :: int
  og_height :: int
  og_resolution :: real
  og_origin_x :: real
  og_origin_y :: real
  og_data :: "int list"

datatype MarkerAction = AddMarker int "(real \<times> real) list" | DeleteMarker int

datatype CmOut =
    GlobalGrid OccupancyGrid
  | LocalGrid OccupancyGrid
  | BoxesOut BoundingBoxesMsg
  | MarkersOut "MarkerAction list"
  | PgmFile string

datatype CmEvent = EvCloud CustomMsg | EvNav NavStateMsg | EvSave bool

record CostmapWrapper =
  mpCostmap :: Costmap
  last_marker_id :: int
  marker_id :: int
  transformation :: mat4

definition CostmapWrapper_ctor :: "Costmap \<Rightarrow> CostmapWrapper" where
  "CostmapWrapper_ctor m =
     \<lparr>mpCostmap = m, last_marker_id = 0, marker_id = 0, transformation = (\<lambda>i j. if i = j then 1 else 0)\<rparr>"

text \<open>The value of one cell in a published grid: a percentage, or -1 for unknown.\<close>

definition cell_value :: "real \<Rightarrow> int" where
  "cell_value logOdds =
     (let prob = exp logOdds / (1 + exp logOdds) in if prob = 0.5 then -1 else c_trunc (prob * 100))"

definition grid_of :: "CostmapInfo \<Rightarrow> Mat \<Rightarrow> OccupancyGrid" where
  "grid_of info m =
     \<lparr>og_width = size_x info, og_height = size_y info, og_resolution = ci_resolution info,
      og_origin_x = origin_pos_x info, og_origin_y = origin_pos_y info,
      og_data = map (\<lambda>i. cell_value (mat_data m i)) [0..size_x info * size_y info - 1]\<rparr>"

definition pgm_pixel :: "int \<Rightarrow> char" where
  "pgm_pixel v = (if 0 \<le> v \<and> v \<le> 25 then char_of (254 :: nat)
                  else if 65 \<le> v then char_of (0 :: nat) else char_of (205 :: nat))"

text \<open>The rows are written from the top of the map; \<open>data[i]\<close> outside the vector is an error.\<close>

definition pgm_row :: "OccupancyGrid \<Rightarrow> int \<Rightarrow> exn + string" where
  "pgm_row g y =
     foldr (\<lambda>x acc. sbind (idx (og_data g) (x + (og_height g - y - 1) * og_width g))
              (\<lambda>v. sbind acc (\<lambda>cs. Inr (pgm_pixel v # cs)))) [0..og_width g - 1] (Inr [])"

definition SaveCostmapAsPgm :: "OccupancyGrid \<Rightarrow> exn + string" where
  "SaveCostmapAsPgm g =
     sbind (foldr (\<lambda>y acc. sbind (pgm_row g y) (\<lambda>r. sbind acc (\<lambda>rs. Inr (r @ rs)))) [0..og_height g - 1] (Inr []))
       (\<lambda>body. Inr (''P5'' @ [CHR 0x0A] @ ''# CREATOR: map_saver.cpp '' @ show_fixed 3 (og_resolution g) @ '' m/pix''
          @ [CHR 0x0A] @ show_int (og_width g) @ '' '' @ show_int (og_height g) @ [CHR 0x0A] @ ''255'' @ [CHR 0x0A] @ body))"

text \<open>\<open>can_open\<close>: whether the map file can be created.\<close>

definition PublishGlobalOccupancyGrid :: "bool \<Rightarrow> bool \<Rightarrow> CostmapWrapper \<Rightarrow> exn + CmOut list" where
  "PublishGlobalOccupancyGrid can_open save_pgm w =
     (let g = grid_of (global_costmap_info (mpCostmap w)) (global_costmap (mpCostmap w))
      in if save_pgm \<and> can_open
         then sbind (SaveCostmapAsPgm g) (\<lambda>f. Inr [GlobalGrid g, PgmFile f])
         else Inr [GlobalGrid g])"

definition PublishLocalOccupancyGrid :: "CostmapWrapper \<Rightarrow> CmOut list" where
  "PublishLocalOccupancyGrid w =
     [LocalGrid (grid_of (local_costmap_info (mpCostmap w)) (local_costmap (mpCostmap w)))]"

definition box_corners :: "BoundingBox \<Rightarrow> (real \<times> real) list" where
  "box_corners box =
     (let cx = box_center_x box; cy = box_center_y box; hx = box_size_x box / 2; hy = box_size_y box / 2;
          p1 = (cx - hx, cy - hy); p2 = (cx + hx, cy - hy); p3 = (cx + hx, cy + hy); p4 = (cx - hx, cy + hy)
      in [p1, p2, p3, p4, p1])"

fun add_markers :: "int \<Rightarrow> BoundingBox list \<Rightarrow> MarkerAction list" where
  "add_markers k [] = []"
| "add_markers k (b # bs) = AddMarker k (box_corners b) # add_markers (k + 1) bs"

definition PublishBoundingBoxes :: "bool \<Rightarrow> CostmapWrapper \<Rightarrow> CostmapWrapper \<times> CmOut list" where
  "PublishBoundingBoxes show_marker w =
     (let bs = bounding_boxes (mpCostmap w);
          msg = \<lparr>bbs_num = int (length bs),
                 bbs_boxes = map (\<lambda>b. \<lparr>bb_center_x = box_center_x b, bb_center_y = box_center_y b,
                                        bb_size_x = box_size_x b, bb_size_y = box_size_y b\<rparr>) bs\<rparr>
      in if show_marker then
           let mid = int (length bs);
               ms = add_markers 0 bs @ map DeleteMarker [mid..last_marker_id w - 1]
           in (w\<lparr>marker_id := mid, last_marker_id := mid\<rparr>, [BoxesOut msg, MarkersOut ms])
         else (w\<lparr>marker_id := 0\<rparr>, [BoxesOut msg]))"

text \<open>The copy loop, from index \<open>i\<close>, \<open>n\<close> iterations left.\<close>

fun copy_points :: "LivoxPoint list \<Rightarrow> int \<Rightarrow> nat \<Rightarrow> exn + PointXYZI list" where
  "copy_points ps i 0 = Inr []"
| "copy_points ps i (Suc n) =
     sbind (idx ps i) (\<lambda>p. sbind (copy_points ps (i + 1) n) (\<lambda>qs.
       Inr (\<lparr>pt_x = lx p, pt_y = ly p, pt_z = lz p, intensity = reflectivity p\<rparr> # qs)))"

definition PointCloudCallback :: "PclOps \<Rightarrow> CustomMsg \<Rightarrow> CostmapWrapper \<Rightarrow> exn + (CostmapWrapper \<times> CmOut list)" where
  "PointCloudCallback P msg w =
     sbind (copy_points (points msg) 0 (unat (point_num msg - 1))) (\<lambda>cloud.
       let m = UpdatePointCloud cloud (mpCostmap w); cfg = config m
       in if costmap_flag m then
            sbind (UpdateCostmap P m) (\<lambda>m'.
              let w1 = w\<lparr>mpCostmap := m'\<rparr> in
              sbind (if publish_global_costmap cfg then PublishGlobalOccupancyGrid False False w1 else Inr []) (\<lambda>o1.
                let o2 = (if publish_local_costmap cfg then PublishLocalOccupancyGrid w1 else []);
                    (w2, o3) = (if publish_object_detection cfg
                                then PublishBoundingBoxes (visualize_object_detection cfg) w1 else (w1, []))
                in Inr (w2, o1 @ o2 @ o3)))
          else Inr (w\<lparr>mpCostmap := m\<rparr>, []))"

text \<open>\<open>rot\<close> is \<open>Eigen::Quaterniond::toRotationMatrix\<close>.\<close>

definition cm_NavStateCallback :: "(quat \<Rightarrow> mat4) \<Rightarrow> NavStateMsg \<Rightarrow> CostmapWrapper \<Rightarrow> CostmapWrapper" where
  "cm_NavStateCallback rot msg w =
     (let t = (\<lambda>i j. if i < 3 \<and> j < 3 then rot (nv_quaternion msg) i j
                      else if i = 0 \<and> j = 3 then v3_x (nv_position msg)
                      else if i = 1 \<and> j = 3 then v3_y (nv_position msg)
                      else if i = 2 \<and> j = 3 then v3_z (nv_position msg)
                      else transformation w i j)
      in w\<lparr>transformation := t, mpCostmap := UpdatePose t (mpCostmap w)\<rparr>)"

definition CostmapSaveCmdCallback :: "bool \<Rightarrow> bool \<Rightarrow> CostmapWrapper \<Rightarrow> exn + CmOut list" where
  "CostmapSaveCmdCallback can_open data w =
     (if data then PublishGlobalOccupancyGrid can_open True w else Inr [])"

fun cm_step :: "PclOps \<Rightarrow> (quat \<Rightarrow> mat4) \<Rightarrow> CostmapWrapper \<Rightarrow> bool \<times> CmEvent \<Rightarrow> exn + (CostmapWrapper \<times> CmOut list)" where
  "cm_step P rot w (can_open, EvCloud msg) = PointCloudCallback P msg w"
| "cm_step P rot w (can_open, EvNav msg) = Inr (cm_NavStateCallback rot msg w, [])"
| "cm_step P rot w (can_open, EvSave d) = sbind (CostmapSaveCmdCallback can_open d w) (\<lambda>os. Inr (w, os))"

section \<open>Published cell values\<close>

lemma cell_value_unknown: "cell_value l = -1 \<longleftrightarrow> l = 0" if "reach_odds l"
proof -
  have p: "0 < 1 + exp l" by (simp add: add_pos_pos)
  have half: "exp l / (1 + exp l) = 0.5 \<longleftrightarrow> l = 0"
    using p by (auto simp: field_simps)
  have "0 \<le> c_trunc (exp l / (1 + exp l) * 100)"
    using p by (intro c_trunc_ge) simp
  then show ?thesis
    using half by (auto simp: cell_value_def Let_def)
qed

lemma probability_bounds:
  assumes "reach_odds l"
  shows "0.05 \<le> exp l / (1 + exp l)" and "exp l / (1 + exp l) \<le> 0.95"
proof -
  have p: "0 < 1 + exp l" by (simp add: add_pos_pos)
  have e: "exp lo_lim = 19" "exp (- lo_lim) = 1 / 19" by (simp_all add: lo_lim_def exp_minus inverse_eq_divide)
  have "exp (- lo_lim) \<le> exp l" "exp l \<le> exp lo_lim"
    using reach_odds_bounds [OF assms] by simp_all
  then have "1 / 19 \<le> exp l" "exp l \<le> 19" by (simp_all only: e)
  then show "0.05 \<le> exp l / (1 + exp l)" and "exp l / (1 + exp l) \<le> 0.95"
    using p by (simp_all add: field_simps)
qed

lemma cell_value_range:
  assumes "reach_odds l"
  shows "cell_value l = -1 \<or> 5 \<le> cell_value l \<and> cell_value l \<le> 95"
proof -
  define p where "p = exp l / (1 + exp l)"
  have "0.05 \<le> p" "p \<le> 0.95"
    using probability_bounds [OF assms] by (simp_all only: p_def)
  then have "5 \<le> c_trunc (p * 100)" "c_trunc (p * 100) \<le> 95"
    by (auto intro!: c_trunc_ge c_trunc_le)
  then show ?thesis unfolding cell_value_def Let_def p_def [symmetric] by simp
qed

text \<open>An acceptable grid message: as many values as cells, each unknown or a percentage.\<close>

definition grid_ok :: "OccupancyGrid \<Rightarrow> bool" where
  "grid_ok g \<longleftrightarrow> length (og_data g) = nat (og_width g * og_height g)
     \<and> (\<forall>v \<in> set (og_data g). v = -1 \<or> 5 \<le> v \<and> v \<le> 95)"

lemma grid_of_ok: "(\<And>i j. reach_odds (coeff m i j)) \<Longrightarrow> grid_ok (grid_of info m)"
  by (auto simp: grid_ok_def grid_of_def mat_data_def cell_value_range)

lemma grid_of_cell:
  assumes "0 \<le> x" and "x < size_x info" and "0 \<le> y" and "y < size_y info" and "mrows m = size_x info"
  shows "idx (og_data (grid_of info m)) (x + y * size_x info) = Inr (cell_value (coeff m x y))"
proof -
  let ?w = "size_x info" and ?h = "size_y info"
  have "(y + 1) * ?w \<le> ?h * ?w" using assms by (intro mult_right_mono) auto
  then have lt: "x + y * ?w < ?w * ?h" using assms by (simp add: algebra_simps)
  have ge: "0 \<le> x + y * ?w" using assms by simp
  have "(x + y * ?w) mod ?w = x" "(x + y * ?w) div ?w = y" using assms by simp_all
  then have "mat_data m (x + y * ?w) = coeff m x y" using assms(5) by (simp add: mat_data_def)
  moreover have "nat (x + y * ?w) < nat (?w * ?h)" using lt ge by linarith
  ultimately show ?thesis
    using lt ge by (simp add: grid_of_def nth_upto)
qed

section \<open>The map file\<close>

lemma foldr_sbind_cons:
  "(\<And>x. x \<in> set xs \<Longrightarrow> f x = Inr (v x)) \<Longrightarrow>
   foldr (\<lambda>x acc. sbind (f x) (\<lambda>a. sbind acc (\<lambda>as. Inr (g a # as)))) xs (Inr []) = Inr (map (\<lambda>x. g (v x)) xs)"
  by (induction xs) simp_all

lemma foldr_sbind_append:
  "(\<And>x. x \<in> set xs \<Longrightarrow> f x = Inr (v x)) \<Longrightarrow>
   foldr (\<lambda>x acc. sbind (f x) (\<lambda>a. sbind acc (\<lambda>as. Inr (a @ as)))) xs (Inr []) = Inr (concat (map v xs))"
  by (induction xs) simp_all

definition pgm_body :: "CostmapInfo \<Rightarrow> Mat \<Rightarrow> string" where
  "pgm_body info m = concat (map (\<lambda>y. map (\<lambda>x. pgm_pixel (cell_value (coeff m x (size_y info - y - 1))))
     [0..size_x info - 1]) [0..size_y info - 1])"

definition pgm_header :: "CostmapInfo \<Rightarrow> string" where
  "pgm_header info = ''P5'' @ [CHR 0x0A] @ ''# CREATOR: map_saver.cpp '' @ show_fixed 3 (ci_resolution info) @ '' m/pix''
     @ [CHR 0x0A] @ show_int (size_x info) @ '' '' @ show_int (size_y info) @ [CHR 0x0A] @ ''255'' @ [CHR 0x0A]"

lemma SaveCostmapAsPgm_grid:
  assumes "mrows m = size_x info"
  shows "SaveCostmapAsPgm (grid_of info m) = Inr (pgm_header info @ pgm_body info m)"
proof -
  let ?g = "grid_of info m"
  have wh: "og_width ?g = size_x info" "og_height ?g = size_y info" "og_resolution ?g = ci_resolution info"
    by (simp_all add: grid_of_def)
  have row: "pgm_row ?g y = Inr (map (\<lambda>x. pgm_pixel (cell_value (coeff m x (size_y info - y - 1)))) [0..size_x info - 1])"
    if "y \<in> set [0..size_y info - 1]" for y
    unfolding pgm_row_def wh using that assms
    by (intro foldr_sbind_cons grid_of_cell) auto
  have "foldr (\<lambda>y acc. sbind (pgm_row ?g y) (\<lambda>r. sbind acc (\<lambda>rs. Inr (r @ rs)))) [0..size_y info - 1] (Inr []) =
      Inr (pgm_body info m)"
    unfolding pgm_body_def by (rule foldr_sbind_append) (rule row)
  then show ?thesis
    unfolding SaveCostmapAsPgm_def wh by (simp add: pgm_header_def)
qed

lemma pgm_body_nth:
  assumes "r < nat (size_y info)" and "x < nat (size_x info)"
  shows "pgm_body info m ! (r * nat (size_x info) + x) =
    pgm_pixel (cell_value (coeff m (int x) (size_y info - 1 - int r)))"
proof -
  let ?w = "nat (size_x info)"
  let ?row = "\<lambda>y. map (\<lambda>x. pgm_pixel (cell_value (coeff m x (size_y info - y - 1)))) [0..size_x info - 1]"
  have "concat (map ?row ys) ! (r * ?w + x) = ?row (ys ! r) ! x" if "r < length ys" for ys
    using that
  proof (induction ys arbitrary: r)
    case Nil
    then show ?case by simp
  next
    case (Cons y ys)
    show ?case
    proof (cases r)
      case 0
      then show ?thesis using assms(2) by (simp add: nth_append)
    next
      case (Suc r')
      then have "concat (map ?row (y # ys)) ! (r * ?w + x) = concat (map ?row ys) ! (r' * ?w + x)"
        by (simp add: nth_append)
      then show ?thesis using Cons Suc by simp
    qed
  qed
  from this [of "[0..size_y info - 1]"] show ?thesis
    using assms by (simp add: pgm_body_def nth_upto nat_less_iff algebra_simps)
qed

section \<open>The lidar callback\<close>

definition publish_all :: "CostmapWrapper \<Rightarrow> CostmapWrapper \<times> CmOut list" where
  "publish_all w =
     (let cfg = config (mpCostmap w);
          o1 = (if publish_global_costmap cfg
                then [GlobalGrid (grid_of (global_costmap_info (mpCostmap w)) (global_costmap (mpCostmap w)))] else []);
          o2 = (if publish_local_costmap cfg then PublishLocalOccupancyGrid w else []);
          (w2, o3) = (if publish_object_detection cfg then PublishBoundingBoxes (visualize_object_detection cfg) w else (w, []))
      in (w2, o1 @ o2 @ o3))"

lemma PublishGlobal_unsaved:
  "PublishGlobalOccupancyGrid c False w = Inr [GlobalGrid (grid_of (global_costmap_info (mpCostmap w)) (global_costmap (mpCostmap w)))]"
  by (simp add: PublishGlobalOccupancyGrid_def Let_def)

lemma copy_points_ok:
  "int n \<le> int (length ps) - i \<Longrightarrow> 0 \<le> i \<Longrightarrow>
   copy_points ps i n = Inr (map (\<lambda>p. \<lparr>pt_x = lx p, pt_y = ly p, pt_z = lz p, intensity = reflectivity p\<rparr>)
     (take n (drop (nat i) ps)))"
proof (induction n arbitrary: i)
  case 0
  then show ?case by simp
next
  case (Suc n)
  then have "nat i < length ps" by linarith
  then have "drop (nat i) ps = ps ! nat i # drop (nat (i + 1)) ps"
    using Suc.prems(2) by (simp add: nat_add_distrib Cons_nth_drop_Suc)
  then show ?case using Suc by (simp add: nat_less_iff)
qed

lemma UpdatePointCloud_facts:
  "config (UpdatePointCloud c m) = config m" "cnt_limit (UpdatePointCloud c m) = cnt_limit m"
  by (simp_all add: UpdatePointCloud_def UpdateCostmapFlag_def Let_def)

lemma UpdatePointCloud_flag:
  assumes "map_ok m" and "\<not> costmap_flag m"
  shows "costmap_flag (UpdatePointCloud c m) \<longleftrightarrow> cnt_iter m = cnt_limit m"
    and "cnt_iter (UpdatePointCloud c m) = (if cnt_iter m = cnt_limit m then 0 else cnt_iter m + 1)"
  using assms by (auto simp: UpdatePointCloud_def UpdateCostmapFlag_def Let_def map_ok_def)

definition cm_inv :: "CostmapWrapper \<Rightarrow> bool" where
  "cm_inv w \<longleftrightarrow> map_ok (mpCostmap w) \<and> \<not> costmap_flag (mpCostmap w)"

lemma publish_all_map: "mpCostmap (fst (publish_all w)) = mpCostmap w"
  by (simp add: publish_all_def PublishBoundingBoxes_def Let_def)

text \<open>A cloud is either just counted, or it also updates and publishes the map.\<close>

lemma PointCloudCallback_run:
  assumes "cm_inv w" and "pcl_ok P" and "copy_points (points msg) 0 (unat (point_num msg - 1)) = Inr cloud"
  defines "m \<equiv> UpdatePointCloud cloud (mpCostmap w)"
  shows "PointCloudCallback P msg w =
      (if cnt_iter (mpCostmap w) = cnt_limit (mpCostmap w)
       then sbind (UpdateCostmap P m) (\<lambda>m'. Inr (publish_all (w\<lparr>mpCostmap := m'\<rparr>)))
       else Inr (w\<lparr>mpCostmap := m\<rparr>, []))"
proof -
  have "costmap_flag m \<longleftrightarrow> cnt_iter (mpCostmap w) = cnt_limit (mpCostmap w)"
    using assms(1) unfolding m_def by (intro UpdatePointCloud_flag) (simp_all add: cm_inv_def)
  moreover have "map_ok m" using assms(1) by (simp add: cm_inv_def m_def map_ok_cloud)
  then obtain m' where "UpdateCostmap P m = Inr m'" "config m' = config m"
    using UpdateCostmap_ok [OF _ assms(2)] by blast
  ultimately show ?thesis
    by (simp add: PointCloudCallback_def assms(3) m_def [symmetric] Let_def publish_all_def PublishGlobal_unsaved
        split: prod.split)
qed

lemma PointCloudCallback_next:
  assumes "cm_inv w" and "pcl_ok P" and "copy_points (points msg) 0 (unat (point_num msg - 1)) = Inr cloud"
  obtains w' os where "PointCloudCallback P msg w = Inr (w', os)" and "cm_inv w'"
    and "config (mpCostmap w') = config (mpCostmap w)" and "cnt_limit (mpCostmap w') = cnt_limit (mpCostmap w)"
    and "cnt_iter (mpCostmap w') = (if cnt_iter (mpCostmap w) = cnt_limit (mpCostmap w) then 0 else cnt_iter (mpCostmap w) + 1)"
    and "os = (if cnt_iter (mpCostmap w) = cnt_limit (mpCostmap w)
               then snd (publish_all (w\<lparr>mpCostmap := mpCostmap w'\<rparr>)) else [])"
proof -
  let ?m = "UpdatePointCloud cloud (mpCostmap w)"
  note run = PointCloudCallback_run [OF assms]
  have inv: "map_ok (mpCostmap w)" "\<not> costmap_flag (mpCostmap w)" using assms(1) by (simp_all add: cm_inv_def)
  note flag = UpdatePointCloud_flag [OF inv, of cloud]
  show ?thesis
  proof (cases "cnt_iter (mpCostmap w) = cnt_limit (mpCostmap w)")
    case True
    obtain m' where m': "UpdateCostmap P ?m = Inr m'" "map_ok m'" "config m' = config ?m" "\<not> costmap_flag m'"
      "cnt_iter m' = cnt_iter ?m" "cnt_limit m' = cnt_limit ?m"
      using UpdateCostmap_ok [OF map_ok_cloud [OF inv(1)] assms(2), of cloud] by blast
    let ?w = "fst (publish_all (w\<lparr>mpCostmap := m'\<rparr>))"
    have mp: "mpCostmap ?w = m'" by (simp add: publish_all_map)
    show ?thesis
    proof (rule that)
      show "PointCloudCallback P msg w = Inr (?w, snd (publish_all (w\<lparr>mpCostmap := m'\<rparr>)))"
        using True by (simp add: run m'(1))
    qed (use True m' flag in \<open>simp_all add: mp cm_inv_def UpdatePointCloud_facts\<close>)
  next
    case False
    show ?thesis
    proof (rule that)
      show "PointCloudCallback P msg w = Inr (w\<lparr>mpCostmap := ?m\<rparr>, [])"
        using False by (simp add: run)
    qed (use False flag map_ok_cloud [OF inv(1)] in \<open>simp_all add: cm_inv_def UpdatePointCloud_facts\<close>)
  qed
qed

section \<open>Runs of the node\<close>

fun cm_ok :: "CmOut \<Rightarrow> bool" where
  "cm_ok (GlobalGrid g) = grid_ok g"
| "cm_ok (LocalGrid g) = grid_ok g"
| "cm_ok (BoxesOut b) = (bbs_num b = int (length (bbs_boxes b)))"
| "cm_ok _ = True"

lemma map_ok_grids:
  "map_ok m \<Longrightarrow> grid_ok (grid_of (global_costmap_info m) (global_costmap m))"
  "map_ok m \<Longrightarrow> grid_ok (grid_of (local_costmap_info m) (local_costmap m))"
  by (simp_all add: grid_of_ok map_ok_def)

lemma publish_all_ok: "map_ok (mpCostmap w) \<Longrightarrow> list_all cm_ok (snd (publish_all w))"
  by (simp add: publish_all_def PublishLocalOccupancyGrid_def PublishBoundingBoxes_def map_ok_grids Let_def)

lemma PointCloudCallback_copies:
  "PointCloudCallback P msg w = Inr r \<Longrightarrow> \<exists>cloud. copy_points (points msg) 0 (unat (point_num msg - 1)) = Inr cloud"
  by (auto simp: PointCloudCallback_def sbind_eq_Inr)

lemma NavState_inv: "cm_inv w \<Longrightarrow> cm_inv (cm_NavStateCallback rot msg w)"
  by (simp add: cm_NavStateCallback_def Let_def cm_inv_def map_ok_pose) (simp add: UpdatePose_def)

lemma cm_step_ok:
  assumes "pcl_ok P" and "cm_inv w" and "cm_step P rot w e = Inr (w', os)"
  shows "cm_inv w' \<and> list_all cm_ok os"
proof -
  obtain c ev where e: "e = (c, ev)" by fastforce
  show ?thesis
  proof (cases ev)
    case (EvCloud msg)
    then have r: "PointCloudCallback P msg w = Inr (w', os)" using assms(3) by (simp add: e)
    then obtain cloud where "copy_points (points msg) 0 (unat (point_num msg - 1)) = Inr cloud"
      using PointCloudCallback_copies by blast
    then obtain w1 o1 where n: "PointCloudCallback P msg w = Inr (w1, o1)" "cm_inv w1"
      "o1 = (if cnt_iter (mpCostmap w) = cnt_limit (mpCostmap w) then snd (publish_all (w\<lparr>mpCostmap := mpCostmap w1\<rparr>)) else [])"
      by (rule PointCloudCallback_next [OF assms(2,1)])
    have "list_all cm_ok (snd (publish_all (w\<lparr>mpCostmap := mpCostmap w1\<rparr>)))"
      using n(2) by (intro publish_all_ok) (simp add: cm_inv_def)
    then have "list_all cm_ok o1" unfolding n(3) by simp
    moreover have "w1 = w'" "o1 = os" using n(1) r by simp_all
    ultimately show ?thesis using n(2) by simp
  next
    case (EvNav msg)
    then show ?thesis
      using assms(2,3) by (auto simp: e NavState_inv)
  next
    case (EvSave d)
    then show ?thesis
      using assms(2,3) by (auto simp: e CostmapSaveCmdCallback_def PublishGlobalOccupancyGrid_def Let_def sbind_eq_Inr
          map_ok_grids cm_inv_def split: if_splits)
  qed
qed

interpretation cmn: handler_system "cm_step P rot" "\<lambda>w. pcl_ok P \<and> cm_inv w" cm_ok for P rot
  by unfold_locales (blast dest: cm_step_ok)+

lemma ctor_cm_inv: "config_ok c \<Longrightarrow> cm_inv (CostmapWrapper_ctor (Costmap_ctor c))"
  by (simp add: cm_inv_def CostmapWrapper_ctor_def map_ok_ctor) (simp add: Costmap_ctor_def Let_def)

text \<open>A library for the examples: every point is a cluster of its own.\<close>

definition test_pcl :: PclOps where
  "test_pcl = \<lparr>pcl_transform = (\<lambda>_ ps. ps), pcl_pass_z = (\<lambda>lo hi. filter (\<lambda>p. lo \<le> pt_z p \<and> pt_z p \<le> hi)),
     pcl_extract = (\<lambda>_ _ ps. map (\<lambda>i. [i]) [0..int (length ps) - 1]),
     pcl_minmax = (\<lambda>ps. (\<lparr>pt_x = Min (pt_x ` set ps), pt_y = Min (pt_y ` set ps), pt_z = 0, intensity = 0\<rparr>,
                         \<lparr>pt_x = Max (pt_x ` set ps), pt_y = Max (pt_y ` set ps), pt_z = 0, intensity = 0\<rparr>))\<rparr>"

lemma test_pcl_ok: "pcl_ok test_pcl"
  by (auto simp: pcl_ok_def test_pcl_def)

definition test_rot :: "quat \<Rightarrow> mat4" where
  "test_rot q = (\<lambda>i j. if i = j then 1 else 0)"

text \<open>
  C9.  In every run of the node, every published grid has exactly one value per cell, each of
  them -1 for unknown or a percentage from 5 to 95; every cell of the map holds a probability
  between 0.05 and 0.95; and the box extraction, which compares log-odds with 0.7, selects
  exactly the local cells whose probability is at least 0.7.
\<close>

theorem published_grids_are_valid:
  assumes "config_ok c" and "pcl_ok P"
    and "run_handlers (cm_step P rot) (CostmapWrapper_ctor (Costmap_ctor c)) es = Inr (w, outs)"
  shows "(\<forall>g. GlobalGrid g \<in> set outs \<or> LocalGrid g \<in> set outs \<longrightarrow>
        length (og_data g) = nat (og_width g * og_height g) \<and> (\<forall>v \<in> set (og_data g). v = -1 \<or> 5 \<le> v \<and> v \<le> 95))
    \<and> (\<forall>i j. P_MIN \<le> LogOddsToProbability (cell (mpCostmap w) i j) \<and> LogOddsToProbability (cell (mpCostmap w) i j) \<le> P_MAX)
    \<and> (\<forall>i j. P_OCCUPIED \<le> coeff (local_costmap (mpCostmap w)) i j
          \<longleftrightarrow> P_OCCUPIED \<le> LogOddsToProbability (coeff (local_costmap (mpCostmap w)) i j))"
proof -
  have inv0: "pcl_ok P \<and> cm_inv (CostmapWrapper_ctor (Costmap_ctor c))" using assms(1,2) ctor_cm_inv by blast
  have ok: "cm_ok x" if "x \<in> set outs" for x by (rule cmn.run_out [OF assms(3) inv0 that])
  have inv: "map_ok (mpCostmap w)" using cmn.run_inv [OF assms(3) inv0] by (simp add: cm_inv_def)
  then have "reach_odds (coeff (local_costmap (mpCostmap w)) i j)" for i j
    by (simp add: map_ok_def)
  then have "P_OCCUPIED \<le> coeff (local_costmap (mpCostmap w)) i j
      \<longleftrightarrow> P_OCCUPIED \<le> LogOddsToProbability (coeff (local_costmap (mpCostmap w)) i j)" for i j
    unfolding probability_threshold by (rule reach_odds_threshold)
  moreover have "P_MIN \<le> LogOddsToProbability (cell (mpCostmap w) i j) \<and> LogOddsToProbability (cell (mpCostmap w) i j) \<le> P_MAX" for i j
  proof -
    have "reach_odds (cell (mpCostmap w) i j)" using inv by (simp add: map_ok_def)
    from probability_bounds [OF this] show ?thesis
      unfolding P_MIN_def P_MAX_def LogOddsToProbability_def by blast
  qed
  moreover have "length (og_data g) = nat (og_width g * og_height g) \<and> (\<forall>v \<in> set (og_data g). v = -1 \<or> 5 \<le> v \<and> v \<le> 95)"
    if "GlobalGrid g \<in> set outs \<or> LocalGrid g \<in> set outs" for g
    using that ok by (fastforce simp: grid_ok_def)
  ultimately show ?thesis by blast
qed

abbreviation small_node :: CostmapWrapper where
  "small_node \<equiv> CostmapWrapper_ctor (Costmap_ctor small_config)"

theorem published_grids_are_valid_witness:
  "\<exists>g. run_handlers (cm_step test_pcl test_rot) small_node [(False, EvSave True)] = Inr (small_node, [GlobalGrid g])
     \<and> og_width g = 4 \<and> length (og_data g) = 16"
proof -
  let ?m = "Costmap_ctor small_config"
  let ?g = "grid_of (global_costmap_info ?m) (global_costmap ?m)"
  have r: "run_handlers (cm_step test_pcl test_rot) small_node [(False, EvSave True)] = Inr (small_node, [GlobalGrid ?g])"
    by (simp add: CostmapSaveCmdCallback_def PublishGlobalOccupancyGrid_def CostmapWrapper_ctor_def Let_def)
  have "og_width ?g = 4" "og_height ?g = 4"
    by (simp_all add: grid_of_def Costmap_ctor_def small_config_def Let_def)
  moreover have "length (og_data ?g) = nat (og_width ?g * og_height ?g)"
    using published_grids_are_valid [OF small_config_ok test_pcl_ok r] by simp
  ultimately show ?thesis using r by auto
qed

fun is_global :: "CmOut \<Rightarrow> bool" where
  "is_global (GlobalGrid g) = True"
| "is_global _ = False"

lemma publish_all_global:
  "publish_global_costmap (config (mpCostmap w)) \<Longrightarrow> length (filter is_global (snd (publish_all w))) = 1"
  by (simp add: publish_all_def PublishLocalOccupancyGrid_def PublishBoundingBoxes_def Let_def)

definition cloud_fits :: "CustomMsg \<Rightarrow> bool" where
  "cloud_fits msg \<longleftrightarrow> unat (point_num msg) = length (points msg) \<and> points msg \<noteq> []"

lemma cloud_fits_copy:
  assumes "cloud_fits msg"
  shows "copy_points (points msg) 0 (unat (point_num msg - 1)) =
    Inr (map (\<lambda>p. \<lparr>pt_x = lx p, pt_y = ly p, pt_z = lz p, intensity = reflectivity p\<rparr>) (butlast (points msg)))"
proof -
  have "point_num msg \<noteq> 0" using assms by (auto simp: cloud_fits_def)
  then have "unat (point_num msg - 1) = length (points msg) - 1"
    using assms by (simp add: unat_minus_one cloud_fits_def)
  then show ?thesis
    using copy_points_ok [of "length (points msg) - 1" "points msg" 0] by (simp add: butlast_conv_take)
qed

lemma count_step:
  assumes "c \<le> (n :: nat)"
  shows "(if c = n then 1 else 0) + ((if c = n then 0 else c + 1) + k) div (n + 1) = (c + (k + 1)) div (n + 1)"
  using assms div_add_self1 [of "n + 1" k] by (auto simp: algebra_simps)

lemma global_count:
  assumes "cm_inv w" and "pcl_ok P" and "publish_global_costmap (config (mpCostmap w))" and "list_all cloud_fits msgs"
  shows "\<exists>w' outs. run_handlers (cm_step P rot) w (map (\<lambda>m. (False, EvCloud m)) msgs) = Inr (w', outs)
    \<and> length (filter is_global outs) =
        (unat (cnt_iter (mpCostmap w)) + length msgs) div (unat (cnt_limit (mpCostmap w)) + 1)"
  using assms
proof (induction msgs arbitrary: w)
  case Nil
  then have "cnt_iter (mpCostmap w) \<le> cnt_limit (mpCostmap w)" by (simp add: cm_inv_def map_ok_def)
  then show ?case by (simp add: word_le_nat_alt)
next
  case (Cons msg msgs)
  let ?c = "cnt_iter (mpCostmap w)" and ?n = "cnt_limit (mpCostmap w)"
  have "cloud_fits msg" using Cons.prems by simp
  from PointCloudCallback_next [OF Cons.prems(1,2) cloud_fits_copy [OF this]]
  obtain w1 o1 where 1: "PointCloudCallback P msg w = Inr (w1, o1)" "cm_inv w1" "config (mpCostmap w1) = config (mpCostmap w)"
    "cnt_limit (mpCostmap w1) = ?n" "cnt_iter (mpCostmap w1) = (if ?c = ?n then 0 else ?c + 1)"
    "o1 = (if ?c = ?n then snd (publish_all (w\<lparr>mpCostmap := mpCostmap w1\<rparr>)) else [])"
    by metis
  obtain w2 o2 where 2: "run_handlers (cm_step P rot) w1 (map (\<lambda>m. (False, EvCloud m)) msgs) = Inr (w2, o2)"
    "length (filter is_global o2) = (unat (cnt_iter (mpCostmap w1)) + length msgs) div (unat ?n + 1)"
    using Cons.IH [OF 1(2)] Cons.prems 1(3,4) by auto
  have le: "unat ?c \<le> unat ?n"
    using Cons.prems(1) by (simp add: cm_inv_def map_ok_def word_le_nat_alt)
  have "unat (cnt_iter (mpCostmap w1)) = (if unat ?c = unat ?n then 0 else unat ?c + 1)"
  proof (cases "?c = ?n")
    case False
    then have "unat (?c + 1) = unat ?c + 1" using le by unat_arith
    then show ?thesis using False 1(5) by (simp add: word_unat_eq_iff)
  qed (simp add: 1(5))
  moreover have "length (filter is_global o1) = (if unat ?c = unat ?n then 1 else 0)"
    using publish_all_global [of "w\<lparr>mpCostmap := mpCostmap w1\<rparr>"] Cons.prems(3) 1(3,6) by (simp add: word_unat_eq_iff)
  ultimately have "length (filter is_global (o1 @ o2)) = (unat ?c + length (msg # msgs)) div (unat ?n + 1)"
    using 2(2) count_step [OF le, of "length msgs"] by simp
  then show ?case using 1(1) 2(1) by simp
qed

text \<open>
  The map is updated and published on every (N+1)-th lidar cloud, where N is the
  configured \<open>update_every_Nth_lidar\<close>: after k clouds the global grid has been published
  k div (N+1) times.  (The configuration and the README say: every N-th.)
\<close>

theorem map_updates_every_nth_plus_one:
  assumes "cm_inv w" and "pcl_ok P" and "publish_global_costmap (config (mpCostmap w))"
    and "list_all cloud_fits msgs" and "cnt_iter (mpCostmap w) = 0"
  shows "\<exists>w' outs. run_handlers (cm_step P rot) w (map (\<lambda>m. (False, EvCloud m)) msgs) = Inr (w', outs)
    \<and> length (filter is_global outs) = length msgs div (unat (cnt_limit (mpCostmap w)) + 1)"
  using global_count [OF assms(1-4)] assms(5) by simp

definition one_point :: CustomMsg where
  "one_point = \<lparr>point_num = 1, points = [\<lparr>lx = 1, ly = 0, lz = 0, reflectivity = 7\<rparr>]\<rparr>"

theorem map_updates_every_nth_plus_one_witness:
  "\<exists>w' outs. run_handlers (cm_step test_pcl test_rot) small_node (map (\<lambda>m. (False, EvCloud m)) [one_point, one_point]) = Inr (w', outs)
    \<and> filter is_global outs = []"
proof -
  have w: "publish_global_costmap (config (mpCostmap small_node))" "cnt_iter (mpCostmap small_node) = 0"
    "cnt_limit (mpCostmap small_node) = 2"
    by (simp_all add: CostmapWrapper_ctor_def Costmap_ctor_def small_config_def Let_def)
  have f: "list_all cloud_fits [one_point, one_point]" by (simp add: cloud_fits_def one_point_def)
  from map_updates_every_nth_plus_one [OF ctor_cm_inv [OF small_config_ok] test_pcl_ok w(1) f w(2), of test_rot]
  show ?thesis by (simp add: w(3))
qed

text \<open>
  The conversion of a cloud loses its last point, and on an empty cloud its unsigned loop
  bound wraps to 2^32 - 1, so that the callback reads outside the point array.
\<close>

theorem cloud_loses_last_point:
  assumes "unat (point_num msg) = length (points msg)"
  shows "copy_points (points msg) 0 (unat (point_num msg - 1)) =
      (if points msg = [] then Inl Bad_index
       else Inr (map (\<lambda>p. \<lparr>pt_x = lx p, pt_y = ly p, pt_z = lz p, intensity = reflectivity p\<rparr>) (butlast (points msg))))
    \<and> (points msg = [] \<longrightarrow> PointCloudCallback P msg w = Inl Bad_index)"
proof (cases "points msg = []")
  case True
  then have "point_num msg = 0" using assms by (simp add: unat_eq_0)
  then have "unat (point_num msg - 1) = Suc (2 ^ 32 - 2)"
    by (simp add: unsigned_minus_1_eq_mask mask_eq_exp_minus_1)
  then have "copy_points (points msg) 0 (unat (point_num msg - 1)) = Inl Bad_index"
    unfolding True by (simp only: copy_points.simps) (simp add: idx_def)
  then show ?thesis using True by (simp add: PointCloudCallback_def)
next
  case False
  then show ?thesis using cloud_fits_copy [of msg] assms by (simp add: cloud_fits_def)
qed

theorem cloud_loses_last_point_witness:
  "copy_points (points one_point) 0 (unat (point_num one_point - 1)) = Inr []
   \<and> PointCloudCallback P \<lparr>point_num = 0, points = []\<rparr> w = Inl Bad_index"
  using cloud_loses_last_point [of one_point] cloud_loses_last_point [of "\<lparr>point_num = 0, points = []\<rparr>" P w]
  by (simp add: one_point_def)

text \<open>
  Saving the map writes a file with one pixel per cell, the top row of the file being the
  row of the map with the greatest y: white for a free cell (at most 25 percent), black for
  an occupied one (at least 65), grey otherwise, unknown included.
\<close>

theorem map_file_shows_map:
  assumes "map_ok (mpCostmap w)"
  defines "info \<equiv> global_costmap_info (mpCostmap w)"
  shows "\<exists>g body. CostmapSaveCmdCallback True True w = Inr [GlobalGrid g, PgmFile (pgm_header info @ body)]
    \<and> (\<forall>r x. r < nat (size_y info) \<longrightarrow> x < nat (size_x info) \<longrightarrow>
         body ! (r * nat (size_x info) + x) =
           (let v = cell_value (cell (mpCostmap w) (int x) (size_y info - 1 - int r))
            in if 0 \<le> v \<and> v \<le> 25 then char_of (254 :: nat) else if 65 \<le> v then char_of (0 :: nat) else char_of (205 :: nat)))"
proof -
  let ?gm = "global_costmap (mpCostmap w)"
  have "mrows ?gm = size_x info" using assms(1) by (simp add: map_ok_def info_def)
  from SaveCostmapAsPgm_grid [OF this]
  have "CostmapSaveCmdCallback True True w = Inr [GlobalGrid (grid_of info ?gm), PgmFile (pgm_header info @ pgm_body info ?gm)]"
    by (simp add: CostmapSaveCmdCallback_def PublishGlobalOccupancyGrid_def Let_def info_def)
  then show ?thesis
    using pgm_body_nth by (fastforce simp: pgm_pixel_def Let_def)
qed

theorem map_file_shows_map_witness:
  "\<exists>g body. CostmapSaveCmdCallback True True small_node = Inr [GlobalGrid g, PgmFile body]"
proof -
  have "map_ok (mpCostmap small_node)"
    using ctor_cm_inv [OF small_config_ok] by (simp add: cm_inv_def)
  from map_file_shows_map [OF this] show ?thesis by blast
qed

section \<open>Markers and boxes\<close>

text \<open>The identifiers the display shows after a list of marker actions.\<close>

fun shown :: "int set \<Rightarrow> MarkerAction list \<Rightarrow> int set" where
  "shown S [] = S"
| "shown S (AddMarker k c # ms) = shown (insert k S) ms"
| "shown S (DeleteMarker k # ms) = shown (S - {k}) ms"

lemma shown_append: "shown S (xs @ ys) = shown (shown S xs) ys"
proof (induction xs arbitrary: S)
  case (Cons a xs)
  then show ?case by (cases a) simp_all
qed simp

lemma shown_add: "shown S (add_markers k bs) = S \<union> {k..<k + int (length bs)}"
proof (induction bs arbitrary: k S)
  case (Cons b bs)
  have "insert k (S \<union> {k + 1..<k + 1 + int (length bs)}) = S \<union> {k..<k + int (length (b # bs))}" by auto
  then show ?case using Cons by simp
qed simp

lemma shown_delete: "shown S (map DeleteMarker ks) = S - set ks"
  by (induction ks arbitrary: S) auto

fun publish_boxes_run :: "BoundingBox list list \<Rightarrow> CostmapWrapper \<Rightarrow> int set \<Rightarrow> CostmapWrapper \<times> int set" where
  "publish_boxes_run [] w S = (w, S)"
| "publish_boxes_run (bs # rest) w S =
     (case PublishBoundingBoxes True (w\<lparr>mpCostmap := (mpCostmap w)\<lparr>bounding_boxes := bs\<rparr>\<rparr>) of
        (w', [BoxesOut msg, MarkersOut ms]) \<Rightarrow> publish_boxes_run rest w' (shown S ms)
      | (w', _) \<Rightarrow> publish_boxes_run rest w' S)"

lemma publish_boxes_shown:
  "0 \<le> last_marker_id w \<Longrightarrow>
   snd (publish_boxes_run (bss @ [bs]) w {0..<last_marker_id w}) = {0..<int (length bs)}"
proof (induction bss arbitrary: w)
  case Nil
  then show ?case
    by (auto simp: PublishBoundingBoxes_def Let_def shown_append shown_add shown_delete)
next
  case (Cons b bss)
  have "shown {0..<last_marker_id w} (add_markers 0 b @ map DeleteMarker [int (length b)..last_marker_id w - 1])
      = {0..<int (length b)}"
    by (auto simp: shown_append shown_add shown_delete)
  then show ?case
    using Cons.IH [of "w\<lparr>mpCostmap := (mpCostmap w)\<lparr>bounding_boxes := b\<rparr>, marker_id := int (length b),
        last_marker_id := int (length b)\<rparr>"]
    by (simp add: PublishBoundingBoxes_def Let_def)
qed

text \<open>
  The display never keeps a box that is gone: whatever boxes were shown before, after
  publishing n boxes exactly the markers 0 to n - 1 are shown.
\<close>

theorem markers_follow_boxes:
  "snd (publish_boxes_run (bss @ [bs]) (CostmapWrapper_ctor m) {}) = {0..<int (length bs)}"
  using publish_boxes_shown [of "CostmapWrapper_ctor m" bss bs] by (simp add: CostmapWrapper_ctor_def)

definition occupied_at :: "Costmap \<Rightarrow> real \<times> real \<Rightarrow> bool" where
  "occupied_at m p \<longleftrightarrow> (\<exists>i j. 0 \<le> i \<and> i < mrows (local_costmap m) \<and> 0 \<le> j \<and> j < mcols (local_costmap m)
     \<and> P_OCCUPIED \<le> LogOddsToProbability (coeff (local_costmap m) i j)
     \<and> p = (origin_pos_x (local_costmap_info m) + resolution m * of_int i,
             origin_pos_y (local_costmap_info m) + resolution m * of_int j))"

lemma cluster_point_occupied:
  assumes "map_ok m" and "q \<in> set (cluster_points m)"
  shows "occupied_at m (pt_x q, pt_y q)"
proof -
  obtain i j where ij: "0 \<le> i" "i < mrows (local_costmap m)" "0 \<le> j" "j < mcols (local_costmap m)"
    and hit: "P_OCCUPIED \<le> coeff (local_costmap m) i j"
    and q: "pt_x q = origin_pos_x (local_costmap_info m) + resolution m * of_int i"
      "pt_y q = origin_pos_y (local_costmap_info m) + resolution m * of_int j"
    using assms(2) unfolding cluster_points_def by (auto split: if_splits)
  have "reach_odds (coeff (local_costmap m) i j)" using assms(1) by (simp add: map_ok_def)
  then have "P_OCCUPIED \<le> LogOddsToProbability (coeff (local_costmap m) i j)"
    using hit probability_threshold reach_odds_threshold by blast
  then show ?thesis using ij q unfolding occupied_at_def by auto
qed

text \<open>
  After an update each bounding box is tight around occupied cells: its left, right,
  lower and upper edges each run through a local cell whose probability of being occupied is
  at least 0.7, and its sizes are not negative.
\<close>

theorem boxes_are_tight:
  assumes "map_ok m" and "pcl_ok P" and "UpdateCostmap P m = Inr m'" and "b \<in> set (bounding_boxes m')"
  shows "0 \<le> box_size_x b \<and> 0 \<le> box_size_y b
    \<and> (\<exists>y. occupied_at m' (box_center_x b - box_size_x b / 2, y)) \<and> (\<exists>y. occupied_at m' (box_center_x b + box_size_x b / 2, y))
    \<and> (\<exists>x. occupied_at m' (x, box_center_y b - box_size_y b / 2)) \<and> (\<exists>x. occupied_at m' (x, box_center_y b + box_size_y b / 2))"
proof -
  have inv: "map_ok m'" and "\<exists>c. c \<noteq> [] \<and> set c \<subseteq> set (cluster_points m') \<and> b = box_of (fst (pcl_minmax P c)) (snd (pcl_minmax P c))"
    using UpdateCostmap_ok [OF assms(1,2)] assms(3,4) by auto
  then obtain c where c: "c \<noteq> []" "set c \<subseteq> set (cluster_points m')"
    and b: "b = box_of (fst (pcl_minmax P c)) (snd (pcl_minmax P c))" by blast
  let ?lo = "fst (pcl_minmax P c)" and ?hi = "snd (pcl_minmax P c)"
  have mm: "pt_x ?lo \<in> pt_x ` set c" "pt_x ?hi \<in> pt_x ` set c" "pt_y ?lo \<in> pt_y ` set c" "pt_y ?hi \<in> pt_y ` set c"
    and order: "\<forall>p \<in> set c. pt_x ?lo \<le> pt_x p \<and> pt_x p \<le> pt_x ?hi \<and> pt_y ?lo \<le> pt_y p \<and> pt_y p \<le> pt_y ?hi"
    using assms(2) c(1) unfolding pcl_ok_def by blast+
  have occ: "occupied_at m' (pt_x p, pt_y p)" if "p \<in> set c" for p
    using that c(2) cluster_point_occupied [OF inv] by blast
  have edges: "box_center_x b - box_size_x b / 2 = pt_x ?lo" "box_center_x b + box_size_x b / 2 = pt_x ?hi"
    "box_center_y b - box_size_y b / 2 = pt_y ?lo" "box_center_y b + box_size_y b / 2 = pt_y ?hi"
    by (simp_all add: b box_of_def field_simps)
  have "\<exists>y. occupied_at m' (pt_x ?lo, y)" "\<exists>y. occupied_at m' (pt_x ?hi, y)"
    "\<exists>x. occupied_at m' (x, pt_y ?lo)" "\<exists>x. occupied_at m' (x, pt_y ?hi)"
    using mm occ by (metis imageE)+
  moreover have "0 \<le> box_size_x b" "0 \<le> box_size_y b"
    using order mm(1,3) by (auto simp: b box_of_def)
  ultimately show ?thesis unfolding edges by blast
qed

text \<open>One return on the vehicle's own cell: one occupied cell, one box of size 0 on it.\<close>

definition hit_map :: Costmap where
  "hit_map = (Costmap_ctor small_config)\<lparr>cur_point_cloud := [\<lparr>pt_x = 1 / 2, pt_y = 0, pt_z = 0, intensity = 0\<rparr>]\<rparr>"

lemma hit_map_ok: "map_ok hit_map"
  using map_ok_ctor [OF small_config_ok] by (simp add: hit_map_def map_ok_def)

lemma hit_map_facts: "global_center hit_map = (2, 2)" "local_center hit_map = (1, 1)"
  "global_size hit_map = (4, 4)" "local_size hit_map = (2, 2)" "cur_pose hit_map = (\<lambda>_ _. 0)" "resolution hit_map = 1"
  "cell hit_map i j = 0"
  by (simp_all add: hit_map_def small_map) (simp add: Costmap_ctor_def Let_def InitCostmap_def log_odds_consts)

lemma hit_map_update:
  "\<exists>m'. UpdateCostmap test_pcl hit_map = Inr m' \<and> bounding_boxes m' =
     [\<lparr>box_size_x = 0, box_size_y = 0, box_center_x = 0, box_center_y = 0\<rparr>]"
proof -
  let ?pt = "\<lparr>pt_x = 1 / 2, pt_y = 0, pt_z = 0, intensity = 0\<rparr>"
  define m1 where "m1 = update_point 2 2 ?pt hit_map"
  note f = only_cellsD [OF only_cells_update_point [of hit_map 2 2 ?pt], folded m1_def]
  have c1: "cell m1 i j = (if (i, j) = (2, 2) then lo_hit else 0)" for i j
  proof -
    have "std_clamp lo_hit (- lo_lim) lo_lim = lo_hit" using lo_facts by (intro std_clamp_id) auto
    then show ?thesis
      unfolding m1_def cell_update_point by (simp add: hit_map_facts IsInBounds_def line_cells_def new_odds_eq)
  qed
  have dims: "mrows (global_costmap hit_map) = 4" "mcols (global_costmap hit_map) = 4"
    using hit_map_ok by (simp_all add: map_ok_def hit_map_facts)
  let ?m2 = "m1\<lparr>local_costmap := \<lparr>mrows = 2, mcols = 2, coeff = (\<lambda>i j. cell m1 (1 + i) (1 + j))\<rparr>,
     local_costmap_info := (local_costmap_info m1)\<lparr>origin_pos_x := -1, origin_pos_y := -1\<rparr>\<rparr>"
  have 2: "UpdateLocalCostmap m1 = Inr ?m2"
    by (simp add: UpdateLocalCostmap_def Let_def f hit_map_facts dims IsInBounds_def mat_block_def)
  have sel: "(P_OCCUPIED \<le> cell m1 i j) = ((i, j) = (2, 2))" for i j
    using lo_hit_bounds by (simp add: c1 P_OCCUPIED_def)
  have two: "[0..1 :: int] = [0, 1]" by (simp add: upto.simps)
  have pts: "cluster_points ?m2 = [\<lparr>pt_x = 0, pt_y = 0, pt_z = 0, intensity = 0\<rparr>]"
    by (simp add: cluster_points_def f hit_map_facts sel two)
  have box: "CalculateBoundingBoxes test_pcl ?m2 =
      Inr (?m2\<lparr>bounding_boxes := [\<lparr>box_size_x = 0, box_size_y = 0, box_center_x = 0, box_center_y = 0\<rparr>]\<rparr>)"
    unfolding CalculateBoundingBoxes_def pts by (simp add: test_pcl_def box_of_def Let_def)
  have "UpdateCostmap test_pcl hit_map = sbind (UpdateLocalCostmap m1) (\<lambda>m. sbind (CalculateBoundingBoxes test_pcl m) (\<lambda>m. Inr (m\<lparr>costmap_flag := False\<rparr>)))"
    unfolding UpdateCostmap_def m1_def by (simp add: Let_def hit_map_facts test_pcl_def) (simp add: hit_map_def)
  then show ?thesis
    unfolding 2 sbind_simps box by simp
qed

theorem boxes_are_tight_witness:
  "\<exists>m' x y. UpdateCostmap test_pcl hit_map = Inr m' \<and> occupied_at m' (0, y) \<and> occupied_at m' (x, 0)"
proof -
  obtain m' where m': "UpdateCostmap test_pcl hit_map = Inr m'"
    "bounding_boxes m' = [\<lparr>box_size_x = 0, box_size_y = 0, box_center_x = 0, box_center_y = 0\<rparr>]"
    using hit_map_update by blast
  have "\<lparr>box_size_x = 0, box_size_y = 0, box_center_x = 0, box_center_y = 0\<rparr> \<in> set (bounding_boxes m')"
    by (simp add: m'(2))
  from boxes_are_tight [OF hit_map_ok test_pcl_ok m'(1) this] m'(1) show ?thesis by auto
qed

end
