(* ===== verification/Simulator.thy ===== *)
theory Simulator
  imports Spline Messages
begin

text \<open>
  The vehicle simulator (\<open>simulator.cpp\<close>, \<open>simulator_node.cpp\<close>): a bicycle model whose speed follows
  the command with a lag, and the node that replaces the sensors: it publishes navigation
  states and one obstacle box, and takes commands, an initial pose and a goal pose.
\<close>

section \<open>The model of the vehicle\<close>

record SimParameters =
  sp_wheelbase :: real
  sp_dt :: real

record SimulationState =
  timestamp :: real
  sx :: real
  sy :: real
  sspeed :: real
  yaw :: real
  yaw_rate :: real

record SimControlCommand =
  sc_speed :: real
  sc_steering_angle :: real

record Simulator =
  sim_state :: SimulationState
  sim_control_command :: SimControlCommand
  sim_parameters :: SimParameters

definition zero_state :: SimulationState where
  "zero_state = \<lparr>timestamp = 0, sx = 0, sy = 0, sspeed = 0, yaw = 0, yaw_rate = 0\<rparr>"

definition Simulator_ctor :: "SimParameters \<Rightarrow> Simulator" where
  "Simulator_ctor ps = \<lparr>sim_state = zero_state, sim_control_command = \<lparr>sc_speed = 0, sc_steering_angle = 0\<rparr>, sim_parameters = ps\<rparr>"

text \<open>The assignments in order: the position and the yaw move by the old speed and yaw rate.\<close>

definition UpdateBicycleModel :: "SimControlCommand \<Rightarrow> Simulator \<Rightarrow> Simulator" where
  "UpdateBicycleModel cc sim =
     (let dt = sp_dt (sim_parameters sim); l = sp_wheelbase (sim_parameters sim);
          s0 = sim_state sim;
          s1 = s0\<lparr>sx := sx s0 + sspeed s0 * cos (yaw s0) * dt\<rparr>;
          s2 = s1\<lparr>sy := sy s1 + sspeed s1 * sin (yaw s1) * dt\<rparr>;
          s3 = s2\<lparr>yaw := yaw s2 + yaw_rate s2 * dt\<rparr>;
          s4 = s3\<lparr>yaw_rate := (sspeed s3 / l) * tan (sc_steering_angle cc)\<rparr>;
          s5 = s4\<lparr>sspeed := sspeed s4 * (1 / 10) + sc_speed cc * (1 - 1 / 10)\<rparr>;
          s6 = s5\<lparr>timestamp := timestamp s5 + dt\<rparr>
      in sim\<lparr>sim_state := s6\<rparr>)"

definition UpdateModel :: "SimControlCommand \<Rightarrow> Simulator \<Rightarrow> Simulator" where
  "UpdateModel cc sim = UpdateBicycleModel cc sim"

definition SetInitialState :: "SimulationState \<Rightarrow> Simulator \<Rightarrow> Simulator" where
  "SetInitialState i sim = sim\<lparr>sim_state := (sim_state sim)\<lparr>timestamp := 0, sx := sx i, sy := sy i, yaw := yaw i\<rparr>\<rparr>"

definition GetCurrentState :: "Simulator \<Rightarrow> SimulationState" where
  "GetCurrentState sim = sim_state sim"

definition SetControlCommand :: "SimControlCommand \<Rightarrow> Simulator \<Rightarrow> Simulator" where
  "SetControlCommand cc sim = sim\<lparr>sim_control_command :=
     \<lparr>sc_speed = sc_speed cc, sc_steering_angle = sc_steering_angle cc\<rparr>\<rparr>"

definition GetControlCommand :: "Simulator \<Rightarrow> SimControlCommand" where
  "GetControlCommand sim = sim_control_command sim"

section \<open>The node\<close>

record SimulatorNode =
  simulator :: Simulator
  is_initialized :: bool
  goal_position :: "real \<times> real"

datatype SimEvent =
    SimulationTimer | NavPubTimer | BoundingBoxPubTimer
  | ControlCommandMsgIn ControlCommandMsg
  | InitialPose vec3 quat
  | GoalPose vec3

datatype SimOut = NavOut NavStateMsg | SimBoxesOut BoundingBoxesMsg | GoalMarker "(real \<times> real) list"

definition SimulatorNode_ctor :: "real option \<Rightarrow> int option \<Rightarrow> SimulatorNode" where
  "SimulatorNode_ctor wheelbase simulation_hz =
     \<lparr>simulator = Simulator_ctor \<lparr>sp_wheelbase = get_parameter_or wheelbase 0,
        sp_dt = 1 / of_int (get_parameter_or simulation_hz 500)\<rparr>,
      is_initialized = False, goal_position = (0, 0)\<rparr>"

text \<open>
  Eigen's product of the three axis rotations is a parameter of the model: \<open>yaw_quat\<close> gives the
  quaternion of a yaw.
\<close>

definition zero_vec :: vec3 where
  "zero_vec = \<lparr>v3_x = 0, v3_y = 0, v3_z = 0\<rparr>"

definition PublishNavState :: "(real \<Rightarrow> quat) \<Rightarrow> SimulatorNode \<Rightarrow> SimOut list" where
  "PublishNavState yaw_quat n =
     (if is_initialized n then
        let st = GetCurrentState (simulator n)
        in [NavOut \<lparr>nv_timestamp = \<lparr>tm_sec = c_trunc (timestamp st),
              tm_nanosec = c_trunc ((timestamp st - of_int (c_trunc (timestamp st))) * 10 ^ 9)\<rparr>,
            nv_origin = \<lparr>v3_x = 10000, v3_y = 10000, v3_z = 10000\<rparr>,
            nv_position = \<lparr>v3_x = sx st, v3_y = sy st, v3_z = 0\<rparr>,
            nv_velocity = \<lparr>v3_x = sspeed st, v3_y = 0, v3_z = 0\<rparr>,
            nv_quaternion = yaw_quat (yaw st),
            nv_acceleration = zero_vec,
            nv_angular_velocity = \<lparr>v3_x = 0, v3_y = 0, v3_z = yaw_rate st\<rparr>\<rparr>]
      else [])"

definition SimPublishBoundingBoxes :: "SimulatorNode \<Rightarrow> SimOut list" where
  "SimPublishBoundingBoxes n =
     [SimBoxesOut \<lparr>bbs_num = 1, bbs_boxes =
        [\<lparr>bb_center_x = fst (goal_position n), bb_center_y = snd (goal_position n), bb_size_x = 1 / 2, bb_size_y = 1 / 2\<rparr>]\<rparr>]"

definition SimControlCommandCallback :: "ControlCommandMsg \<Rightarrow> SimulatorNode \<Rightarrow> SimulatorNode" where
  "SimControlCommandCallback msg n =
     n\<lparr>simulator := SetControlCommand \<lparr>sc_speed = cm_speed msg, sc_steering_angle = cm_steering_angle msg\<rparr> (simulator n)\<rparr>"

definition InitialposeCallback :: "EigenOps \<Rightarrow> vec3 \<Rightarrow> quat \<Rightarrow> SimulatorNode \<Rightarrow> SimulatorNode" where
  "InitialposeCallback E position orientation n =
     (let f = eg_rotate E orientation \<lparr>v3_x = 1, v3_y = 0, v3_z = 0\<rparr>;
          i = zero_state\<lparr>sx := v3_x position, sy := v3_y position, yaw := atan2 (v3_y f) (v3_x f)\<rparr>
      in n\<lparr>simulator := SetInitialState i (simulator n), is_initialized := True\<rparr>)"

definition GoalPoseCallback :: "vec3 \<Rightarrow> SimulatorNode \<Rightarrow> SimulatorNode \<times> SimOut list" where
  "GoalPoseCallback position n0 =
     (let n = n0\<lparr>goal_position := (v3_x position, v3_y position)\<rparr>;
          gx = fst (goal_position n); gy = snd (goal_position n); h = 1 / 2 / 2;
          p1 = (gx - h, gy - h); p2 = (gx + h, gy - h); p3 = (gx + h, gy + h); p4 = (gx - h, gy + h)
      in (n, [GoalMarker [p1, p2, p3, p4, p1]]))"

fun sim_step :: "EigenOps \<Rightarrow> (real \<Rightarrow> quat) \<Rightarrow> SimulatorNode \<Rightarrow> SimEvent \<Rightarrow> SimulatorNode \<times> SimOut list" where
  "sim_step E yq n SimulationTimer = (n\<lparr>simulator := UpdateModel (GetControlCommand (simulator n)) (simulator n)\<rparr>, [])"
| "sim_step E yq n NavPubTimer = (n, PublishNavState yq n)"
| "sim_step E yq n BoundingBoxPubTimer = (n, SimPublishBoundingBoxes n)"
| "sim_step E yq n (ControlCommandMsgIn msg) = (SimControlCommandCallback msg n, [])"
| "sim_step E yq n (InitialPose p q) = (InitialposeCallback E p q n, [])"
| "sim_step E yq n (GoalPose p) = GoalPoseCallback p n"

section \<open>The lag of the speed\<close>

lemma Update_fields:
  "sspeed (sim_state (UpdateModel cc sim)) = sspeed (sim_state sim) / 10 + sc_speed cc * 9 / 10"
  "yaw (sim_state (UpdateModel cc sim)) = yaw (sim_state sim) + yaw_rate (sim_state sim) * sp_dt (sim_parameters sim)"
  "yaw_rate (sim_state (UpdateModel cc sim)) = sspeed (sim_state sim) / sp_wheelbase (sim_parameters sim) * tan (sc_steering_angle cc)"
  "sx (sim_state (UpdateModel cc sim)) = sx (sim_state sim) + sspeed (sim_state sim) * cos (yaw (sim_state sim)) * sp_dt (sim_parameters sim)"
  "sy (sim_state (UpdateModel cc sim)) = sy (sim_state sim) + sspeed (sim_state sim) * sin (yaw (sim_state sim)) * sp_dt (sim_parameters sim)"
  "timestamp (sim_state (UpdateModel cc sim)) = timestamp (sim_state sim) + sp_dt (sim_parameters sim)"
  "sim_parameters (UpdateModel cc sim) = sim_parameters sim"
  "sim_control_command (UpdateModel cc sim) = sim_control_command sim"
  by (simp_all add: UpdateModel_def UpdateBicycleModel_def Let_def)

text \<open>
  Under a constant command the simulated speed approaches the command tenfold per step, from
  every state, and time advances by the step; with the wheels straight and no yaw rate the
  vehicle keeps its heading and moves along it.
\<close>

theorem speed_follows_command:
  "sspeed (sim_state ((UpdateModel cc ^^ k) sim)) = sc_speed cc + (sspeed (sim_state sim) - sc_speed cc) / 10 ^ k
   \<and> timestamp (sim_state ((UpdateModel cc ^^ k) sim)) = timestamp (sim_state sim) + of_nat k * sp_dt (sim_parameters sim)
   \<and> (sc_steering_angle cc = 0 \<and> yaw_rate (sim_state sim) = 0 \<longrightarrow>
      yaw (sim_state ((UpdateModel cc ^^ k) sim)) = yaw (sim_state sim)
        \<and> (\<exists>r. sx (sim_state ((UpdateModel cc ^^ k) sim)) = sx (sim_state sim) + r * cos (yaw (sim_state sim))
             \<and> sy (sim_state ((UpdateModel cc ^^ k) sim)) = sy (sim_state sim) + r * sin (yaw (sim_state sim))))"
proof -
  have p: "sim_parameters ((UpdateModel cc ^^ k) sim) = sim_parameters sim" for k
    by (induction k) (simp_all add: Update_fields)
  have "sspeed (sim_state ((UpdateModel cc ^^ k) sim)) = sc_speed cc + (sspeed (sim_state sim) - sc_speed cc) / 10 ^ k"
    by (induction k) (simp_all add: Update_fields field_simps)
  moreover have "timestamp (sim_state ((UpdateModel cc ^^ k) sim)) = timestamp (sim_state sim) + of_nat k * sp_dt (sim_parameters sim)"
    by (induction k) (simp_all add: Update_fields p algebra_simps)
  moreover have "yaw (sim_state ((UpdateModel cc ^^ k) sim)) = yaw (sim_state sim) \<and> yaw_rate (sim_state ((UpdateModel cc ^^ k) sim)) = 0
        \<and> (\<exists>r. sx (sim_state ((UpdateModel cc ^^ k) sim)) = sx (sim_state sim) + r * cos (yaw (sim_state sim))
             \<and> sy (sim_state ((UpdateModel cc ^^ k) sim)) = sy (sim_state sim) + r * sin (yaw (sim_state sim)))"
    if "sc_steering_angle cc = 0" "yaw_rate (sim_state sim) = 0"
  proof (induction k)
    case 0
    then show ?case using that by (auto intro: exI [of _ 0])
  next
    case (Suc k)
    then obtain r where r: "sx (sim_state ((UpdateModel cc ^^ k) sim)) = sx (sim_state sim) + r * cos (yaw (sim_state sim))"
      "sy (sim_state ((UpdateModel cc ^^ k) sim)) = sy (sim_state sim) + r * sin (yaw (sim_state sim))" by blast
    then show ?case using Suc that
      by (auto simp: Update_fields p algebra_simps
          intro!: exI [of _ "r + sspeed (sim_state ((UpdateModel cc ^^ k) sim)) * sp_dt (sim_parameters sim)"])
  qed
  ultimately show ?thesis by simp
qed

theorem speed_follows_command_witness:
  "\<exists>r. sx (sim_state ((UpdateModel \<lparr>sc_speed = 2, sc_steering_angle = 0\<rparr> ^^ 3) (Simulator_ctor \<lparr>sp_wheelbase = 1, sp_dt = 1\<rparr>))) = r
     \<and> sy (sim_state ((UpdateModel \<lparr>sc_speed = 2, sc_steering_angle = 0\<rparr> ^^ 3) (Simulator_ctor \<lparr>sp_wheelbase = 1, sp_dt = 1\<rparr>))) = 0
     \<and> sspeed (sim_state ((UpdateModel \<lparr>sc_speed = 2, sc_steering_angle = 0\<rparr> ^^ 3) (Simulator_ctor \<lparr>sp_wheelbase = 1, sp_dt = 1\<rparr>))) = 2 - 2 / 1000"
  using speed_follows_command [of 3 "\<lparr>sc_speed = 2, sc_steering_angle = 0\<rparr>" "Simulator_ctor \<lparr>sp_wheelbase = 1, sp_dt = 1\<rparr>"]
  by (auto simp: Simulator_ctor_def zero_state_def)

section \<open>What the node publishes\<close>

text \<open>
  The invariant bounds the speed and the stored command by \<open>V\<close>; commands beyond it are
  outside the contract, so the events are restricted to the others.
\<close>

definition sim_inv :: "real \<Rightarrow> SimulatorNode \<Rightarrow> bool" where
  "sim_inv V n \<longleftrightarrow> 0 \<le> sp_dt (sim_parameters (simulator n)) \<and> 0 \<le> timestamp (sim_state (simulator n))
     \<and> \<bar>sspeed (sim_state (simulator n))\<bar> \<le> V \<and> \<bar>sc_speed (sim_control_command (simulator n))\<bar> \<le> V"

fun sim_out_ok :: "real \<Rightarrow> SimOut \<Rightarrow> bool" where
  "sim_out_ok V (NavOut m) \<longleftrightarrow> 0 \<le> tm_sec (nv_timestamp m) \<and> 0 \<le> tm_nanosec (nv_timestamp m)
     \<and> tm_nanosec (nv_timestamp m) < 10 ^ 9 \<and> \<bar>v3_x (nv_velocity m)\<bar> \<le> V"
| "sim_out_ok V (SimBoxesOut b) \<longleftrightarrow> bbs_num b = int (length (bbs_boxes b))"
| "sim_out_ok V (GoalMarker ps) \<longleftrightarrow> length ps = 5 \<and> hd ps = last ps"

text \<open>An event with its command limited to \<open>V\<close>, as the planner and the gamepad send them.\<close>

fun limit_event :: "real \<Rightarrow> SimEvent \<Rightarrow> SimEvent" where
  "limit_event V (ControlCommandMsgIn m) = ControlCommandMsgIn (m\<lparr>cm_speed := std_clamp (cm_speed m) (- V) V\<rparr>)"
| "limit_event V e = e"

lemma nanosec_range:
  assumes "0 \<le> t"
  shows "0 \<le> c_trunc ((t - of_int (c_trunc t)) * 10 ^ 9)" and "c_trunc ((t - of_int (c_trunc t)) * 10 ^ 9) < 10 ^ 9"
    and "0 \<le> c_trunc t"
proof -
  have "of_int (c_trunc t) \<le> t" "t < of_int (c_trunc t) + 1" using assms by (simp_all add: c_trunc_def)
  then have "0 \<le> (t - of_int (c_trunc t)) * 10 ^ 9" "(t - of_int (c_trunc t)) * 10 ^ 9 < 10 ^ 9" by simp_all
  then show "0 \<le> c_trunc ((t - of_int (c_trunc t)) * 10 ^ 9)" "c_trunc ((t - of_int (c_trunc t)) * 10 ^ 9) < 10 ^ 9"
    by (simp_all add: c_trunc_def floor_less_iff)
  show "0 \<le> c_trunc t" using assms by (simp add: c_trunc_def)
qed

lemma lag_bound: "\<bar>v\<bar> \<le> V \<Longrightarrow> \<bar>u\<bar> \<le> V \<Longrightarrow> \<bar>v / 10 + u * 9 / 10\<bar> \<le> (V :: real)"
  by (simp add: abs_le_iff)

lemma sim_step_ok:
  assumes "0 \<le> V" and "sim_inv V n" and "sim_step E yq n (limit_event V e) = (n', os)"
  shows "sim_inv V n' \<and> list_all (sim_out_ok V) os"
proof (cases e)
  case SimulationTimer
  then have "n' = n\<lparr>simulator := UpdateModel (GetControlCommand (simulator n)) (simulator n)\<rparr>" "os = []" using assms(3) by auto
  then show ?thesis using assms(2) lag_bound by (simp add: sim_inv_def GetControlCommand_def Update_fields)
next
  case NavPubTimer
  then show ?thesis
    using assms nanosec_range [of "timestamp (sim_state (simulator n))"]
    by (auto simp: PublishNavState_def Let_def GetCurrentState_def sim_inv_def split: if_splits)
next
  case BoundingBoxPubTimer
  then show ?thesis using assms by (auto simp: SimPublishBoundingBoxes_def)
next
  case (ControlCommandMsgIn m)
  have "\<bar>std_clamp (cm_speed m) (- V) V\<bar> \<le> V" using assms(1) by (simp add: abs_le_iff minus_le_iff clamp_facts)
  then show ?thesis using ControlCommandMsgIn assms by (auto simp: SimControlCommandCallback_def SetControlCommand_def sim_inv_def)
next
  case (InitialPose p q)
  then show ?thesis using assms by (auto simp: InitialposeCallback_def Let_def SetInitialState_def sim_inv_def)
next
  case (GoalPose p)
  then show ?thesis using assms by (auto simp: GoalPoseCallback_def Let_def sim_inv_def)
qed

interpretation sim: total_system "\<lambda>n e. sim_step E yq n (limit_event \<bar>V\<bar> e)" "sim_inv \<bar>V\<bar>" "sim_out_ok \<bar>V\<bar>" for E yq V
  by unfold_locales (rule sim_step_ok [OF abs_ge_zero])

lemma no_pose_no_nav:
  assumes "run_handlers (\<lambda>n e. Inr (sim_step E yq n (limit_event V e))) n es = Inr (n', os)"
    and "\<not> is_initialized n" and "\<forall>p q. InitialPose p q \<notin> set es"
  shows "NavOut m \<notin> set os"
  using assms
proof (induction es arbitrary: n n' os)
  case Nil
  then show ?case by simp
next
  case (Cons e es)
  obtain n1 o1 where 1: "sim_step E yq n (limit_event V e) = (n1, o1)" by fastforce
  obtain o2 where 2: "run_handlers (\<lambda>n e. Inr (sim_step E yq n (limit_event V e))) n1 es = Inr (n', o2)" and os: "os = o1 @ o2"
    using Cons.prems(1) 1 by (auto split: sum.splits)
  have "\<not> is_initialized n1 \<and> NavOut m \<notin> set o1"
    using 1 Cons.prems(2,3) by (cases e)
      (auto simp: PublishNavState_def SimPublishBoundingBoxes_def SimControlCommandCallback_def GoalPoseCallback_def Let_def)
  then show ?case using Cons.IH [OF 2] Cons.prems(3) os by auto
qed

text \<open>
  The simulator node never throws, and as long as the commands it gets keep within a limit, every
  navigation state it publishes has a valid time stamp and a speed within that limit; it
  publishes none before it has been given an initial pose.
\<close>

theorem simulated_states_are_valid:
  assumes "0 \<le> get_parameter_or simulation_hz 500"
  shows "\<exists>n' os. run_handlers (\<lambda>n e. Inr (sim_step E yq n (limit_event \<bar>V\<bar> e))) (SimulatorNode_ctor wheelbase simulation_hz) es = Inr (n', os)
    \<and> (\<forall>m. NavOut m \<in> set os \<longrightarrow> 0 \<le> tm_sec (nv_timestamp m) \<and> 0 \<le> tm_nanosec (nv_timestamp m)
         \<and> tm_nanosec (nv_timestamp m) < 10 ^ 9 \<and> \<bar>v3_x (nv_velocity m)\<bar> \<le> \<bar>V\<bar>)
    \<and> ((\<forall>p q. InitialPose p q \<notin> set es) \<longrightarrow> (\<forall>m. NavOut m \<notin> set os))"
proof -
  let ?n = "SimulatorNode_ctor wheelbase simulation_hz"
  have i: "sim_inv \<bar>V\<bar> ?n" "\<not> is_initialized ?n"
    using assms by (simp_all add: sim_inv_def SimulatorNode_ctor_def Simulator_ctor_def zero_state_def)
  obtain n' os where r: "run_handlers (\<lambda>n e. Inr (sim_step E yq n (limit_event \<bar>V\<bar> e))) ?n es = Inr (n', os)"
    using sim.never_throws by blast
  have "sim_out_ok \<bar>V\<bar> x" if "x \<in> set os" for x using sim.run_out [OF r i(1) that] .
  then have "0 \<le> tm_sec (nv_timestamp m) \<and> 0 \<le> tm_nanosec (nv_timestamp m)
         \<and> tm_nanosec (nv_timestamp m) < 10 ^ 9 \<and> \<bar>v3_x (nv_velocity m)\<bar> \<le> \<bar>V\<bar>" if "NavOut m \<in> set os" for m
    using that by fastforce
  then show ?thesis using r no_pose_no_nav [OF r i(2)] by blast
qed

theorem simulated_states_are_valid_witness:
  "\<exists>n' os. run_handlers (\<lambda>n e. Inr (sim_step test_eigen (\<lambda>y. \<lparr>q_w = 1, q_x = 0, q_y = 0, q_z = 0\<rparr>) n (limit_event \<bar>3\<bar> e)))
      (SimulatorNode_ctor (Some 1) None) [NavPubTimer, SimulationTimer, NavPubTimer] = Inr (n', os) \<and> (\<forall>m. NavOut m \<notin> set os)"
  using simulated_states_are_valid [of None test_eigen "\<lambda>y. \<lparr>q_w = 1, q_x = 0, q_y = 0, q_z = 0\<rparr>" 3 "Some 1"
      "[NavPubTimer, SimulationTimer, NavPubTimer]"] by (auto simp: get_parameter_or_def)

end
