(* ===== verification/Bytes.thy ===== *)
theory Bytes
  imports Prelude
begin

text \<open>
  Words in memory: their little-endian bytes and back, and reads and writes of a buffer that
  fail with \<open>Bad_index\<close> where C++ would leave the buffer.
\<close>

section \<open>Bytes of a word\<close>

lemma byte_bit: "bit (b :: byte) n \<Longrightarrow> n < 8"
  using bit_imp_le_length [of b n] by simp

lemma not_bit_byte: "8 \<le> n \<Longrightarrow> \<not> bit (b :: byte) n"
  using byte_bit by (metis linorder_not_le)

definition le32b :: "32 word \<Rightarrow> byte list" where
  "le32b w = [ucast w, ucast (drop_bit 8 w), ucast (drop_bit 16 w), ucast (drop_bit 24 w)]"

definition le16b :: "16 word \<Rightarrow> byte list" where
  "le16b w = [ucast w, ucast (drop_bit 8 w)]"

definition join16 :: "byte list \<Rightarrow> 16 word" where
  "join16 bs = push_bit 8 (ucast (bs ! 1)) OR ucast (bs ! 0)"

definition join32 :: "byte list \<Rightarrow> 32 word" where
  "join32 bs = push_bit 24 (ucast (bs ! 3)) OR push_bit 16 (ucast (bs ! 2)) OR push_bit 8 (ucast (bs ! 1)) OR ucast (bs ! 0)"

lemma byte_split:
  assumes "n < (32 :: nat)"
  obtains "n < 8" | m where "m < 8" "n = 8 + m" | m where "m < 8" "n = 16 + m" | m where "m < 8" "n = 24 + m"
proof -
  have "n < 8 \<or> (\<exists>m<8. n = 8 + m) \<or> (\<exists>m<8. n = 16 + m) \<or> (\<exists>m<8. n = 24 + m)" using assms by presburger
  then show ?thesis using that by blast
qed

lemma le32_bytes:
  "push_bit 24 (ucast (ucast (drop_bit 24 w) :: byte)) OR push_bit 16 (ucast (ucast (drop_bit 16 w) :: byte))
   OR push_bit 8 (ucast (ucast (drop_bit 8 w) :: byte)) OR ucast (ucast w :: byte) = (w :: 32 word)"
proof (rule bit_word_eqI)
  fix n assume "n < LENGTH(32)"
  then have "n < 32" by simp
  then show "bit (push_bit 24 (ucast (ucast (drop_bit 24 w) :: byte)) OR push_bit 16 (ucast (ucast (drop_bit 16 w) :: byte))
   OR push_bit 8 (ucast (ucast (drop_bit 8 w) :: byte)) OR ucast (ucast w :: byte) :: 32 word) n = bit w n"
    by (cases rule: byte_split) (simp_all add: bit_simps)
qed

lemma length_le [simp]: "length (le16b v) = 2" "length (le32b w) = 4"
  by (simp_all add: le16b_def le32b_def)

lemma join32_le32b [simp]: "join32 (le32b w) = w"
  by (simp add: join32_def le32b_def le32_bytes)

lemma join16_le16b [simp]: "join16 (le16b v) = v"
proof (rule bit_word_eqI)
  fix n assume "n < LENGTH(16)"
  then have "n < 8 \<or> (\<exists>m<8. n = 8 + m)" by simp presburger
  then show "bit (join16 (le16b v)) n = bit v n"
    by (auto simp: join16_def le16b_def bit_simps)
qed

lemma le16b_join16: assumes "length bs = 2" shows "le16b (join16 bs) = bs"
proof -
  obtain a b where bs: "bs = [a, b]" using assms by (auto simp: length_Suc_conv numeral_2_eq_2)
  show ?thesis
    unfolding bs by (auto simp: le16b_def join16_def bit_simps intro!: bit_word_eqI dest: byte_bit)
qed

lemma le32b_join32: assumes "length bs = 4" shows "le32b (join32 bs) = bs"
proof -
  obtain a b c d where bs: "bs = [a, b, c, d]" using assms by (auto simp: length_Suc_conv eval_nat_numeral)
  have n: "bs ! 0 = a" "bs ! 1 = b" "bs ! 2 = c" "bs ! 3 = d" by (simp_all add: bs)
  show ?thesis
    unfolding join32_def n unfolding bs le32b_def by (auto simp: bit_simps not_bit_byte intro!: bit_word_eqI)
qed

lemma join_append [simp]: "join16 (le16b v @ xs) = v" "join32 (le32b w @ xs) = w"
  using join16_le16b [of v] join32_le32b [of w] by (simp_all add: join16_def join32_def le16b_def le32b_def)

lemma le16b_inj: "le16b v = le16b w \<longleftrightarrow> v = w"
  using join16_le16b by metis

lemma le32b_inj: "le32b v = le32b w \<longleftrightarrow> v = w"
  using join32_le32b by metis

section \<open>Buffers\<close>

definition read_at :: "byte list \<Rightarrow> nat \<Rightarrow> nat \<Rightarrow> exn + byte list" where
  "read_at buf off n = (if off + n \<le> length buf then Inr (take n (drop off buf)) else Inl Bad_index)"

definition write_at :: "byte list \<Rightarrow> nat \<Rightarrow> byte list \<Rightarrow> exn + byte list" where
  "write_at buf off bs =
     (if off + length bs \<le> length buf then Inr (take off buf @ bs @ drop (off + length bs) buf) else Inl Bad_index)"

lemma read_at_Inr [simp]: "off + n \<le> length buf \<Longrightarrow> read_at buf off n = Inr (take n (drop off buf))"
  by (simp add: read_at_def)

lemma read_at_eq_Inr: "read_at buf off n = Inr bs \<longleftrightarrow> off + n \<le> length buf \<and> bs = take n (drop off buf)"
  by (auto simp: read_at_def)

lemma write_at_Inr [simp]:
  "off + length bs \<le> length buf \<Longrightarrow> write_at buf off bs = Inr (take off buf @ bs @ drop (off + length bs) buf)"
  by (simp add: write_at_def)

end
