(* ===== verification/Ublox.thy ===== *)
theory Ublox
  imports Bytes Messages
begin

text \<open>
  The GNSS receiver's driver (\<open>ublox_decode.cpp\<close>, \<open>sensor_data_pub.cpp\<close>): the decoder of UBX packets,
  the two nodes that publish what it decoded, and the loop that reads the serial port.  The
  signedness of the type \<open>char\<close>, which the compiler chooses, is an argument; a \<open>float\<close> is a
  real number rounded to 24 significant bits, the range of its exponent apart.
\<close>

section \<open>Bytes and floats\<close>

text \<open>The value of a \<open>char\<close> in an arithmetic expression.\<close>

definition char_int :: "bool \<Rightarrow> byte \<Rightarrow> int" where
  "char_int sg b = (if sg then sint b else uint b)"

definition round_even :: "real \<Rightarrow> int" where
  "round_even x =
     (let f = \<lfloor>x\<rfloor>; d = x - of_int f
      in if d < 1 / 2 then f else if 1 / 2 < d then f + 1 else if even f then f else f + 1)"

definition float_exponent :: "real \<Rightarrow> int" where
  "float_exponent x = \<lfloor>log 2 \<bar>x\<bar>\<rfloor> - 23"

definition fl32 :: "real \<Rightarrow> real" where
  "fl32 x = (if x = 0 then 0 else of_int (round_even (x / 2 powr of_int (float_exponent x))) * 2 powr of_int (float_exponent x))"

definition Intbit24Tofloat :: "bool \<Rightarrow> byte list \<Rightarrow> int \<Rightarrow> exn + real" where
  "Intbit24Tofloat sg data i =
     sbind (idx data (i + 2)) (\<lambda>d2. sbind (idx data (i + 1)) (\<lambda>d1. sbind (idx data (i + 0)) (\<lambda>d0.
       let value = (push_bit 24 (word_of_int (char_int sg d2)) AND 0xff000000 :: 32 word)
             OR (push_bit 16 (word_of_int (char_int sg d1)) AND 0x00ff0000)
             OR (push_bit 8 (word_of_int (char_int sg d0)) AND 0x0000ff00)
       in Inr (fl32 (of_int (c_trunc (1 / 2 ^ 8 * of_int (sint value))))))))"

definition Intbit32Tofloat :: "bool \<Rightarrow> byte list \<Rightarrow> int \<Rightarrow> exn + real" where
  "Intbit32Tofloat sg data i =
     sbind (idx data (i + 3)) (\<lambda>d3. sbind (idx data (i + 2)) (\<lambda>d2.
     sbind (idx data (i + 1)) (\<lambda>d1. sbind (idx data (i + 0)) (\<lambda>d0.
       let value = (push_bit 24 (word_of_int (char_int sg d3)) AND 0xff000000 :: 32 word)
             OR (push_bit 16 (word_of_int (char_int sg d2)) AND 0x00ff0000)
             OR (push_bit 8 (word_of_int (char_int sg d1)) AND 0x0000ff00)
             OR (word_of_int (char_int sg d0) AND 0x000000ff)
       in Inr (fl32 (of_int (sint value)))))))"

definition byteswap32 :: "32 word \<Rightarrow> 32 word" where
  "byteswap32 x =
     (drop_bit 24 x AND 0xff) OR push_bit 8 (drop_bit 16 x AND 0xff) OR push_bit 16 (drop_bit 8 x AND 0xff)
     OR push_bit 24 (x AND 0xff)"

text \<open>The sum of four shifted \<open>char\<close>s, as an \<open>unsigned int\<close>: negative \<open>char\<close>s borrow from the next byte.\<close>

definition char_sum :: "bool \<Rightarrow> byte list \<Rightarrow> int \<Rightarrow> exn + 32 word" where
  "char_sum sg p i =
     sbind (idx p (i + 3)) (\<lambda>d3. sbind (idx p (i + 2)) (\<lambda>d2. sbind (idx p (i + 1)) (\<lambda>d1. sbind (idx p (i + 0)) (\<lambda>d0.
       Inr (word_of_int (char_int sg d3 * 2 ^ 24 + char_int sg d2 * 2 ^ 16 + char_int sg d1 * 2 ^ 8 + char_int sg d0))))))"

section \<open>The decoder\<close>

record IMU =
  AccX :: real
  AccY :: real
  AccZ :: real
  GyroX :: real
  GyroY :: real
  GyroZ :: real
  temp :: real
  sTtag :: "32 word"

record GNSS_ECEF =
  PosX :: real
  PosY :: real
  PosZ :: real
  VelX :: real
  VelY :: real
  VelZ :: real
  pAcc :: real
  sAcc :: real
  iTow :: "32 word"

text \<open>The enumeration \<open>Ublox_Sensor_datatype\<close>, the values the decoder uses.\<close>

definition gyroZ :: int where "gyroZ = 5"

definition gyro_temp :: int where "gyro_temp = 12"

definition gyroY :: int where "gyroY = 13"

definition gyroX :: int where "gyroX = 14"

definition accX :: int where "accX = 16"

definition accY :: int where "accY = 17"

definition accZ :: int where "accZ = 18"

definition checksum :: "byte list \<Rightarrow> byte \<times> byte" where
  "checksum bs = foldl (\<lambda>(a, b) x. (a + x, b + (a + x))) (0, 0) bs"

text \<open>The check sum of a packet, over the bytes from the class to the end of the payload.\<close>

definition UBLOXDataCheckSum :: "byte list \<Rightarrow> int \<Rightarrow> exn + bool" where
  "UBLOXDataCheckSum packet Length =
     sbind (idx packet (6 + Length)) (\<lambda>a. sbind (idx packet (6 + Length + 1)) (\<lambda>b.
       let (ck_a, ck_b) = checksum (take (nat (4 + Length)) (drop 2 packet)) in Inr (a = ck_a \<and> b = ck_b)))"

text \<open>The conversion of a negative \<open>double\<close> to \<open>size_t\<close> is undefined.\<close>

definition packet_length :: "bool \<Rightarrow> byte list \<Rightarrow> int \<Rightarrow> exn + int" where
  "packet_length sg p i =
     sbind (idx p (i + 1)) (\<lambda>hi. sbind (idx p i) (\<lambda>lo.
       let n = char_int sg hi * 2 ^ 8 + char_int sg lo in if n < 0 then Inl Bad_index else Inr n))"

definition esf_field :: "bool \<Rightarrow> byte list \<Rightarrow> int \<Rightarrow> int \<Rightarrow> IMU \<Rightarrow> exn + IMU" where
  "esf_field sg p i data_type imu =
     (let gyro = (\<lambda>v. fl32 (1 / 2 ^ 12 * v * pi / 180)); acc = (\<lambda>v. fl32 (1 / 2 ^ 10 * v)) in
      if data_type = gyroX then sbind (Intbit24Tofloat sg p i) (\<lambda>v. Inr (imu\<lparr>GyroX := gyro v\<rparr>))
      else if data_type = gyroY then sbind (Intbit24Tofloat sg p i) (\<lambda>v. Inr (imu\<lparr>GyroY := gyro v\<rparr>))
      else if data_type = gyroZ then sbind (Intbit24Tofloat sg p i) (\<lambda>v. Inr (imu\<lparr>GyroZ := gyro v\<rparr>))
      else if data_type = accX then sbind (Intbit24Tofloat sg p i) (\<lambda>v. Inr (imu\<lparr>AccX := acc v\<rparr>))
      else if data_type = accY then sbind (Intbit24Tofloat sg p i) (\<lambda>v. Inr (imu\<lparr>AccY := acc v\<rparr>))
      else if data_type = accZ then sbind (Intbit24Tofloat sg p i) (\<lambda>v. Inr (imu\<lparr>AccZ := acc v\<rparr>))
      else if data_type = gyro_temp then sbind (Intbit24Tofloat sg p i) (\<lambda>v. Inr (imu\<lparr>temp := fl32 (1 / 100 * v)\<rparr>))
      else Inr imu)"

text \<open>The loop over the measurements, \<open>n\<close> of them left, the next at \<open>i\<close>.\<close>

fun esf_loop :: "bool \<Rightarrow> byte list \<Rightarrow> nat \<Rightarrow> int \<Rightarrow> IMU \<Rightarrow> exn + IMU" where
  "esf_loop sg p 0 i imu = Inr imu"
| "esf_loop sg p (Suc n) i imu =
     sbind (idx p (i + 3)) (\<lambda>ty.
     sbind (esf_field sg p i (uint (word_of_int (char_int sg ty) :: 32 word)) imu) (\<lambda>imu1.
     sbind (char_sum sg p (i + 4)) (\<lambda>tag.
       esf_loop sg p n (i + 8) (imu1\<lparr>sTtag := tag\<rparr>))))"

definition decode_esf :: "bool \<Rightarrow> byte list \<Rightarrow> IMU \<Rightarrow> exn + IMU" where
  "decode_esf sg p imu =
     sbind (packet_length sg p 4) (\<lambda>Length.
       let num = ((Length - 4) mod 2 ^ 64 div 8) mod 2 ^ 32
       in sbind (esf_loop sg p (nat num) 10 imu) (\<lambda>imu'. sbind (UBLOXDataCheckSum p Length) (\<lambda>_. Inr imu')))"

definition decode_pos :: "bool \<Rightarrow> byte list \<Rightarrow> GNSS_ECEF \<Rightarrow> exn + GNSS_ECEF" where
  "decode_pos sg p ecef =
     sbind (packet_length sg p 4) (\<lambda>Length.
     sbind (char_sum sg p 6) (\<lambda>tow. sbind (Intbit32Tofloat sg p 10) (\<lambda>x. sbind (Intbit32Tofloat sg p 14) (\<lambda>y.
     sbind (Intbit32Tofloat sg p 18) (\<lambda>z. sbind (char_sum sg p 22) (\<lambda>acc.
     sbind (UBLOXDataCheckSum p Length) (\<lambda>_.
       Inr (ecef\<lparr>iTow := tow, PosX := fl32 (1 / 100 * x), PosY := fl32 (1 / 100 * y), PosZ := fl32 (1 / 100 * z),
              pAcc := fl32 (1 / 100 * fl32 (of_int (uint acc)))\<rparr>))))))))"

definition decode_vel :: "bool \<Rightarrow> byte list \<Rightarrow> GNSS_ECEF \<Rightarrow> exn + GNSS_ECEF" where
  "decode_vel sg p ecef =
     sbind (packet_length sg p 4) (\<lambda>Length.
     sbind (char_sum sg p 6) (\<lambda>tow. sbind (Intbit32Tofloat sg p 10) (\<lambda>x. sbind (Intbit32Tofloat sg p 14) (\<lambda>y.
     sbind (Intbit32Tofloat sg p 18) (\<lambda>z. sbind (char_sum sg p 22) (\<lambda>acc.
     sbind (UBLOXDataCheckSum p Length) (\<lambda>_.
       Inr (ecef\<lparr>iTow := tow, VelX := fl32 (1 / 100 * x), VelY := fl32 (1 / 100 * y), VelZ := fl32 (1 / 100 * z),
              sAcc := fl32 (1 / 100 * fl32 (of_int (uint acc)))\<rparr>))))))))"

text \<open>
  \<open>Sz\<close> bytes of the read buffer are copied into a payload of 4 \<open>Sz\<close> bytes; the header is the
  first word of the buffer, whatever \<open>Sz\<close> is.
\<close>

definition packet_header :: "byte list \<Rightarrow> exn + 32 word" where
  "packet_header buf =
     sbind (idx buf 3) (\<lambda>b3. sbind (idx buf 2) (\<lambda>b2. sbind (idx buf 1) (\<lambda>b1. sbind (idx buf 0) (\<lambda>b0.
       Inr (push_bit 24 (ucast b3) OR push_bit 16 (ucast b2) OR push_bit 8 (ucast b1) OR ucast b0)))))"

definition Ublox_8_DEQUEUE ::
    "bool \<Rightarrow> byte list \<Rightarrow> nat \<Rightarrow> IMU \<times> GNSS_ECEF \<Rightarrow> exn + (IMU \<times> GNSS_ECEF) \<times> int" where
  "Ublox_8_DEQUEUE sg buf Sz g =
     (if Sz = 0 then Inl Bad_index
      else let p = take Sz buf @ replicate (3 * Sz) 0
      in sbind (packet_header buf) (\<lambda>h.
         if h = 0x031062b5 then sbind (decode_esf sg p (fst g)) (\<lambda>imu. Inr ((imu, snd g), 1))
         else if h = 0x010162b5 then sbind (decode_pos sg p (snd g)) (\<lambda>e. Inr ((fst g, e), 2))
         else if h = 0x110162b5 then sbind (decode_vel sg p (snd g)) (\<lambda>e. Inr ((fst g, e), 3))
         else Inr (g, 0)))"

section \<open>The driver\<close>

record UbloxDriver =
  imu :: IMU
  ECEF :: GNSS_ECEF
  Packet_Flag :: int
  Packet_Flag1 :: bool
  Packet_Flag2 :: bool
  Packet_Flag3 :: bool

datatype UbEvent = SerialRead "byte list" nat | ImuTimer | GnssTimer

datatype UbOut = ImuMsg vec3 vec3 | GnssMsg vec3 vec3

definition zero_imu :: IMU where
  "zero_imu = \<lparr>AccX = 0, AccY = 0, AccZ = 0, GyroX = 0, GyroY = 0, GyroZ = 0, temp = 0, sTtag = 0\<rparr>"

definition zero_ecef :: GNSS_ECEF where
  "zero_ecef = \<lparr>PosX = 0, PosY = 0, PosZ = 0, VelX = 0, VelY = 0, VelZ = 0, pAcc = 0, sAcc = 0, iTow = 0\<rparr>"

definition UbloxDriver_init :: UbloxDriver where
  "UbloxDriver_init = \<lparr>imu = zero_imu, ECEF = zero_ecef, Packet_Flag = 0, Packet_Flag1 = False, Packet_Flag2 = False, Packet_Flag3 = False\<rparr>"

definition readSerial :: "bool \<Rightarrow> byte list \<Rightarrow> nat \<Rightarrow> UbloxDriver \<Rightarrow> exn + UbloxDriver" where
  "readSerial sg buf n d =
     sbind (Ublox_8_DEQUEUE sg buf n (imu d, ECEF d)) (\<lambda>((i, e), flag).
       let d1 = d\<lparr>imu := i, ECEF := e, Packet_Flag := flag\<rparr>
       in Inr (if flag = 1 then d1\<lparr>Packet_Flag1 := True\<rparr> else if flag = 2 then d1\<lparr>Packet_Flag2 := True\<rparr>
               else if flag = 3 then d1\<lparr>Packet_Flag3 := True\<rparr> else d1))"

definition IMU_Pub_timer_callback :: "UbloxDriver \<Rightarrow> UbloxDriver \<times> UbOut list" where
  "IMU_Pub_timer_callback d =
     (if Packet_Flag1 d then
        (d\<lparr>Packet_Flag1 := False\<rparr>,
         [ImuMsg \<lparr>v3_x = AccX (imu d), v3_y = AccY (imu d), v3_z = AccZ (imu d)\<rparr>
                 \<lparr>v3_x = GyroX (imu d), v3_y = GyroY (imu d), v3_z = GyroZ (imu d)\<rparr>])
      else (d, []))"

definition GNSS_Pub_timer_callback :: "UbloxDriver \<Rightarrow> UbloxDriver \<times> UbOut list" where
  "GNSS_Pub_timer_callback d =
     (if Packet_Flag2 d \<and> Packet_Flag3 d then
        (d\<lparr>Packet_Flag2 := False, Packet_Flag3 := False\<rparr>,
         [GnssMsg \<lparr>v3_x = PosX (ECEF d), v3_y = PosY (ECEF d), v3_z = PosZ (ECEF d)\<rparr>
                  \<lparr>v3_x = VelX (ECEF d), v3_y = VelY (ECEF d), v3_z = VelZ (ECEF d)\<rparr>])
      else (d, []))"

fun ub_handle :: "bool \<Rightarrow> (UbloxDriver, UbEvent, UbOut) handler" where
  "ub_handle sg d (SerialRead buf n) = sbind (readSerial sg buf n d) (\<lambda>d'. Inr (d', []))"
| "ub_handle sg d ImuTimer = Inr (IMU_Pub_timer_callback d)"
| "ub_handle sg d GnssTimer = Inr (GNSS_Pub_timer_callback d)"

section \<open>Bytes of a word\<close>

lemma masks: "(0xff000000 :: 32 word) = push_bit 24 (mask 8)" "(0x00ff0000 :: 32 word) = push_bit 16 (mask 8)"
  "(0x0000ff00 :: 32 word) = push_bit 8 (mask 8)" "(0x000000ff :: 32 word) = mask 8"
  by (simp_all add: mask_eq_exp_minus_1 push_bit_eq_mult)

lemma char_low: "(word_of_int (char_int sg b) :: 32 word) AND mask 8 = ucast b"
proof (rule bit_word_eqI)
  fix n assume "n < LENGTH(32)"
  show "bit ((word_of_int (char_int sg b) :: 32 word) AND mask 8) n \<longleftrightarrow> bit (ucast b :: 32 word) n"
    by (cases "n = 7"; cases sg) (auto simp: char_int_def bit_simps min_def not_le dest: byte_bit)
qed

lemma char_byte: "push_bit k (word_of_int (char_int sg b) :: 32 word) AND push_bit k (mask 8) = push_bit k (ucast b)"
  by (simp flip: push_bit_and add: char_low)

lemma le32: "push_bit 24 (ucast (b3 :: byte)) OR push_bit 16 (ucast (b2 :: byte)) OR push_bit 8 (ucast (b1 :: byte)) OR ucast (b0 :: byte)
   = (word_of_int (uint b0 + 256 * uint b1 + 65536 * uint b2 + 16777216 * uint b3) :: 32 word)"
proof -
  let ?x0 = "ucast b0 :: 32 word" and ?x1 = "push_bit 8 (ucast b1) :: 32 word" and ?x2 = "push_bit 16 (ucast b2) :: 32 word"
    and ?x3 = "push_bit 24 (ucast b3) :: 32 word"
  have d0: "?x1 AND ?x0 = 0" by (rule bit_word_eqI) (auto simp: bit_simps dest: byte_bit)
  have d1: "?x2 AND (?x1 OR ?x0) = 0" by (rule bit_word_eqI) (auto simp: bit_simps dest: byte_bit)
  have d2: "?x3 AND (?x2 OR ?x1 OR ?x0) = 0" by (rule bit_word_eqI) (auto simp: bit_simps dest: byte_bit)
  have "?x3 OR ?x2 OR ?x1 OR ?x0 = ?x3 + (?x2 + (?x1 + ?x0))"
    using d0 d1 d2 by (simp add: disjunctive_add_eq_or or.assoc)
  also have "\<dots> = word_of_int (uint b0 + 256 * uint b1 + 65536 * uint b2 + 16777216 * uint b3)"
  proof -
    have "?x0 = word_of_int (uint b0)" by (rule ucast_eq)
    moreover have "?x1 = word_of_int (256 * uint b1)" "?x2 = word_of_int (65536 * uint b2)" "?x3 = word_of_int (16777216 * uint b3)"
      by (simp_all only: push_bit_eq_mult ucast_eq of_int_mult) simp_all
    ultimately show ?thesis by (simp only: of_int_add ac_simps)
  qed
  finally show ?thesis .
qed

text \<open>Little-endian bytes.\<close>

definition le24b :: "24 word \<Rightarrow> byte list" where
  "le24b v = [ucast v, ucast (drop_bit 8 v), ucast (drop_bit 16 v)]"

lemma le24_bytes:
  "push_bit 24 (ucast (ucast (drop_bit 16 v) :: byte)) OR push_bit 16 (ucast (ucast (drop_bit 8 v) :: byte))
   OR push_bit 8 (ucast (ucast v :: byte)) = (push_bit 8 (scast v) :: 32 word)" for v :: "24 word"
proof (rule bit_word_eqI)
  fix n assume "n < LENGTH(32)"
  then have "n < 32" by simp
  then show "bit (push_bit 24 (ucast (ucast (drop_bit 16 v) :: byte)) OR push_bit 16 (ucast (ucast (drop_bit 8 v) :: byte))
   OR push_bit 8 (ucast (ucast v :: byte)) :: 32 word) n = bit (push_bit 8 (scast v) :: 32 word) n"
  proof (cases rule: byte_split)
    case (4 m)
    then show ?thesis by (cases "m = 7") (simp_all add: bit_simps)
  qed (simp_all add: bit_simps)
qed

lemma sint_shift: "sint (push_bit 8 (scast v) :: 32 word) = 256 * sint (v :: 24 word)"
proof -
  have "(push_bit 8 (scast v) :: 32 word) = word_of_int (256 * sint v)"
    by (simp only: push_bit_eq_mult scast_eq of_int_mult) simp
  moreover have "- (2 ^ 31) \<le> 256 * sint v" "256 * sint v < 2 ^ 31"
    using sint_ge [of v] sint_lt [of v] by simp_all
  then have "signed_take_bit 31 (256 * sint v) = 256 * sint v" by (intro signed_take_bit_int_eq_self) simp_all
  moreover have "sint (word_of_int k :: 32 word) = signed_take_bit 31 k" for k
    using sint_sbintrunc' [where ?'a = 32] by simp
  ultimately show ?thesis by (simp only:)
qed

lemma byteswap32_bytes: "le32b (byteswap32 w) = rev (le32b w)"
proof -
  have m: "(0xff :: 32 word) = mask 8" by (simp add: mask_eq_exp_minus_1)
  have "ucast (byteswap32 w) = (ucast (drop_bit 24 w) :: byte)" "ucast (drop_bit 8 (byteswap32 w)) = (ucast (drop_bit 16 w) :: byte)"
    "ucast (drop_bit 16 (byteswap32 w)) = (ucast (drop_bit 8 w) :: byte)" "ucast (drop_bit 24 (byteswap32 w)) = (ucast w :: byte)"
    unfolding byteswap32_def m by (rule bit_word_eqI; simp add: bit_simps)+
  then show ?thesis by (simp add: le32b_def)
qed

section \<open>Rounding to float\<close>

lemma round_even_of_int [simp]: "round_even (of_int k) = k"
  by (simp add: round_even_def)

lemma round_even_err: "\<bar>of_int (round_even x) - x\<bar> \<le> 1 / 2"
  unfolding round_even_def Let_def by (auto simp: abs_le_iff; linarith)

lemma fl32_err: "\<bar>fl32 x - x\<bar> \<le> 2 powr of_int (float_exponent x) / 2"
proof (cases "x = 0")
  case False
  let ?u = "2 powr of_int (float_exponent x) :: real"
  have "fl32 x - x = (of_int (round_even (x / ?u)) - x / ?u) * ?u" using False by (simp add: fl32_def algebra_simps)
  then have "\<bar>fl32 x - x\<bar> = \<bar>of_int (round_even (x / ?u)) - x / ?u\<bar> * ?u" by (simp add: abs_mult)
  also have "\<dots> \<le> 1 / 2 * ?u" by (intro mult_right_mono round_even_err) simp
  finally show ?thesis by simp
qed (simp add: fl32_def)

lemma float_exponent_le:
  assumes "x \<noteq> 0" and "\<bar>x\<bar> < 2 ^ k"
  shows "float_exponent x \<le> int k - 24"
proof -
  have "log 2 \<bar>x\<bar> < real k" using assms by (simp add: log_less_iff powr_realpow)
  then have "\<lfloor>log 2 \<bar>x\<bar>\<rfloor> < int k" by (simp add: floor_less_iff)
  then show ?thesis by (simp add: float_exponent_def)
qed

lemma float_exponent_ge:
  assumes "2 ^ k \<le> \<bar>x\<bar>"
  shows "int k - 23 \<le> float_exponent x"
proof -
  have "0 < \<bar>x\<bar>" using assms less_le_trans [of 0 "2 ^ k" "\<bar>x\<bar>"] by simp
  then have "real k \<le> log 2 \<bar>x\<bar>" using assms by (simp add: le_log_iff powr_realpow)
  then have "int k \<le> \<lfloor>log 2 \<bar>x\<bar>\<rfloor>" by (simp add: le_floor_iff)
  then show ?thesis by (simp add: float_exponent_def)
qed

lemma fl32_int:
  assumes "\<bar>k\<bar> < 2 ^ 24"
  shows "fl32 (of_int k) = of_int k"
proof (cases "k = 0")
  case False
  have "\<bar>real_of_int k\<bar> < 2 ^ 24" using assms by (metis of_int_abs of_int_less_iff of_int_numeral of_int_power)
  then have "float_exponent (of_int k) \<le> 0" using float_exponent_le [of "of_int k" 24] False by simp
  then obtain m :: nat where m: "float_exponent (of_int k) = - int m" using nonpos_int_cases by blast
  have u: "2 powr of_int (float_exponent (real_of_int k)) = (1 / 2 ^ m :: real)"
    by (simp add: m powr_minus powr_realpow divide_inverse)
  have "round_even (real_of_int k / (1 / 2 ^ m)) = k * 2 ^ m" using round_even_of_int [of "k * 2 ^ m"] by simp
  then show ?thesis using False by (simp add: fl32_def u)
qed (simp add: fl32_def)

lemma fl32_grid:
  assumes "- int m \<le> float_exponent x"
  shows "2 ^ m * fl32 x \<in> \<int>"
proof (cases "x = 0")
  case False
  obtain j :: nat where "float_exponent x + int m = int j" using assms nonneg_int_cases [of "float_exponent x + int m"] by auto
  then have j: "float_exponent x = int j - int m" by simp
  have "2 powr of_int (float_exponent x) = (2 ^ j / 2 ^ m :: real)" by (simp add: j powr_diff powr_realpow)
  then have "2 ^ m * fl32 x = of_int (round_even (x / 2 powr of_int (float_exponent x)) * 2 ^ j)" using False by (simp add: fl32_def)
  then show ?thesis by (metis Ints_of_int)
qed (simp add: fl32_def)

section \<open>Reading fields\<close>

lemma idx_part:
  assumes "p = xs @ ys @ zs" and "k < length ys"
  shows "idx p (int (length xs) + int k) = Inr (ys ! k)"
proof -
  have "nat (int (length xs) + int k) = length xs + k" by simp
  then show ?thesis using assms by (simp add: idx_def nth_append)
qed

text \<open>The first byte of a field, and the next ones with the constant the code adds.\<close>

lemma idx_field:
  assumes "p = xs @ ys @ zs"
  shows "0 < length ys \<Longrightarrow> idx p (int (length xs)) = Inr (ys ! 0)"
    and "numeral k < length ys \<Longrightarrow> idx p (int (length xs) + numeral k) = Inr (ys ! numeral k)"
    and "1 < length ys \<Longrightarrow> idx p (int (length xs) + 1) = Inr (ys ! 1)"
  using idx_part [OF assms, of 0] idx_part [OF assms, of "numeral k"] idx_part [OF assms, of 1] by simp_all

lemma Intbit24_le:
  assumes "p = xs @ le24b v @ zs"
  shows "Intbit24Tofloat sg p (int (length xs)) = Inr (of_int (sint v))"
proof -
  note f = idx_field [OF assms, unfolded le24b_def]
  have "- (2 ^ 23) \<le> sint v" "sint v < 2 ^ 23" using sint_ge [of v] sint_lt [of v] by simp_all
  then have r: "fl32 (of_int (sint v)) = of_int (sint v)" by (intro fl32_int) simp
  have d: "c_trunc (of_int (256 * k) / 256) = k" for k by simp
  have "(push_bit 24 (word_of_int (char_int sg (ucast (drop_bit 16 v)))) AND 0xff000000 :: 32 word)
      OR (push_bit 16 (word_of_int (char_int sg (ucast (drop_bit 8 v)))) AND 0x00ff0000)
      OR (push_bit 8 (word_of_int (char_int sg (ucast v))) AND 0x0000ff00) = push_bit 8 (scast v)"
    unfolding masks char_byte by (rule le24_bytes)
  then show ?thesis using f by (simp add: Intbit24Tofloat_def sint_shift d r del: of_int_sint of_int_mult)
qed

lemma Intbit32_le:
  assumes "p = xs @ le32b w @ zs"
  shows "Intbit32Tofloat sg p (int (length xs)) = Inr (fl32 (of_int (sint w)))"
proof -
  note f = idx_field [OF assms, unfolded le32b_def]
  have "(push_bit 24 (word_of_int (char_int sg (ucast (drop_bit 24 w)))) AND 0xff000000 :: 32 word)
      OR (push_bit 16 (word_of_int (char_int sg (ucast (drop_bit 16 w)))) AND 0x00ff0000)
      OR (push_bit 8 (word_of_int (char_int sg (ucast (drop_bit 8 w)))) AND 0x0000ff00)
      OR (word_of_int (char_int sg (ucast w)) AND 0x000000ff) = w"
    unfolding masks char_byte char_low by (rule le32_bytes)
  then show ?thesis using f by (simp add: Intbit32Tofloat_def)
qed

text \<open>What the sum of shifted \<open>char\<close>s makes of a number.\<close>

definition tag_of :: "bool \<Rightarrow> 32 word \<Rightarrow> 32 word" where
  "tag_of sg w =
     word_of_int (char_int sg (ucast (drop_bit 24 w)) * 2 ^ 24 + char_int sg (ucast (drop_bit 16 w)) * 2 ^ 16
       + char_int sg (ucast (drop_bit 8 w)) * 2 ^ 8 + char_int sg (ucast w))"

lemma char_sum_le:
  assumes "p = xs @ le32b w @ zs"
  shows "char_sum sg p (int (length xs)) = Inr (tag_of sg w)"
  using idx_field [OF assms, unfolded le32b_def] by (simp add: char_sum_def tag_of_def)

lemma tag_of_unsigned: "tag_of False w = w"
proof -
  have "tag_of False w = word_of_int (uint (ucast w :: byte) + 256 * uint (ucast (drop_bit 8 w) :: byte)
      + 65536 * uint (ucast (drop_bit 16 w) :: byte) + 16777216 * uint (ucast (drop_bit 24 w) :: byte))"
    unfolding tag_of_def char_int_def by (rule arg_cong [where f = word_of_int]) simp
  then show ?thesis unfolding le32 [symmetric] le32_bytes .
qed

section \<open>Frames\<close>

text \<open>A frame of the receiver: header, length, payload and two check bytes.\<close>

definition ubx_frame :: "byte \<Rightarrow> byte \<Rightarrow> byte list \<Rightarrow> byte \<times> byte \<Rightarrow> byte list" where
  "ubx_frame cls mid payload ck =
     [0xb5, 0x62, cls, mid, word_of_nat (length payload mod 256), word_of_nat (length payload div 256)]
     @ payload @ [fst ck, snd ck]"

lemma packet_header_frame:
  "packet_header (ubx_frame cls mid pl ck @ rest) =
     Inr (push_bit 24 (ucast mid) OR push_bit 16 (ucast cls) OR push_bit 8 0x62 OR 0xb5)"
  by (simp add: packet_header_def ubx_frame_def idx_def)

lemma packet_length_frame:
  assumes "length pl < 128"
  shows "packet_length sg (ubx_frame cls mid pl ck @ rest) 4 = Inr (int (length pl))"
proof -
  have "char_int sg (word_of_nat (length pl mod 256)) = int (length pl)"
    using assms by (simp add: char_int_def sint_uint uint_nat unat_of_nat signed_take_bit_int_eq_self)
  moreover have "length pl div 256 = 0" using assms by simp
  ultimately show ?thesis by (simp add: packet_length_def ubx_frame_def idx_def char_int_def)
qed

lemma UBLOXDataCheckSum_frame:
  "UBLOXDataCheckSum (ubx_frame cls mid pl ck @ rest) (int (length pl)) =
     Inr (ck = checksum ([cls, mid, word_of_nat (length pl mod 256), word_of_nat (length pl div 256)] @ pl))"
proof -
  have i: "idx (ubx_frame cls mid pl ck @ rest) (6 + int (length pl)) = Inr (fst ck)"
    "idx (ubx_frame cls mid pl ck @ rest) (6 + int (length pl) + 1) = Inr (snd ck)"
    using idx_part [of "ubx_frame cls mid pl ck @ rest" "[0xb5, 0x62, cls, mid, word_of_nat (length pl mod 256), word_of_nat (length pl div 256)] @ pl"
        "[fst ck, snd ck]" rest 0] idx_part [of "ubx_frame cls mid pl ck @ rest" "[0xb5, 0x62, cls, mid, word_of_nat (length pl mod 256), word_of_nat (length pl div 256)] @ pl"
        "[fst ck, snd ck]" rest 1] by (simp_all add: ubx_frame_def algebra_simps)
  have "take (nat (4 + int (length pl))) (drop 2 (ubx_frame cls mid pl ck @ rest)) =
      [cls, mid, word_of_nat (length pl mod 256), word_of_nat (length pl div 256)] @ pl"
  proof -
    have "nat (4 + int (length pl)) = Suc (Suc (Suc (Suc (length pl))))" by simp
    then show ?thesis by (simp add: ubx_frame_def numeral_2_eq_2)
  qed
  then show ?thesis unfolding UBLOXDataCheckSum_def i by (cases ck) (simp split: prod.splits)
qed

section \<open>Inertial measurements\<close>

text \<open>A measurement as the receiver sends it: 24 bits of value, its type, and a time tag.\<close>

type_synonym measurement = "byte \<times> 24 word \<times> 32 word"

definition meas_bytes :: "measurement \<Rightarrow> byte list" where
  "meas_bytes m = (case m of (ty, v, tag) \<Rightarrow> le24b v @ [ty] @ le32b tag)"

text \<open>What a measurement means: rates in degrees per second by 2^-12, accelerations in m/s^2 by 2^-10.\<close>

definition meas_effect :: "bool \<Rightarrow> IMU \<Rightarrow> measurement \<Rightarrow> IMU" where
  "meas_effect sg i m = (case m of (ty, v, tag) \<Rightarrow>
     let rate = fl32 (of_int (sint v) / 2 ^ 12 * pi / 180); acc = fl32 (of_int (sint v) / 2 ^ 10);
         i' = (if ty = 14 then i\<lparr>GyroX := rate\<rparr> else if ty = 13 then i\<lparr>GyroY := rate\<rparr> else if ty = 5 then i\<lparr>GyroZ := rate\<rparr>
               else if ty = 16 then i\<lparr>AccX := acc\<rparr> else if ty = 17 then i\<lparr>AccY := acc\<rparr> else if ty = 18 then i\<lparr>AccZ := acc\<rparr>
               else if ty = 12 then i\<lparr>temp := fl32 (of_int (sint v) / 100)\<rparr> else i)
     in i'\<lparr>sTtag := tag_of sg tag\<rparr>)"

lemma type_of_char: "uint (word_of_int (char_int sg ty) :: 32 word) = int k \<longleftrightarrow> ty = word_of_nat k" if "k < 128" for ty :: byte
proof
  assume a: "uint (word_of_int (char_int sg ty) :: 32 word) = int k"
  have "(ucast ty :: 32 word) = word_of_int (char_int sg ty) AND mask 8" by (simp add: char_low)
  also have "\<dots> = take_bit 8 (word_of_int (char_int sg ty))" by (simp add: take_bit_eq_mask)
  also have "uint \<dots> = int k"
    using a that by (simp add: unsigned_take_bit_eq take_bit_int_eq_self)
  finally have "uint (ucast ty :: 32 word) = int k" .
  moreover have "uint ty < 2 ^ 32" using uint_lt2p [of ty] by simp
  ultimately have "uint ty = int k" by (simp add: unsigned_ucast_eq take_bit_int_eq_self)
  then have "word_of_int (uint ty) = (word_of_int (int k) :: byte)" by simp
  then show "ty = word_of_nat k" by simp
next
  assume "ty = word_of_nat k"
  then have u: "uint ty = int k" using that by (simp add: uint_nat unat_of_nat)
  then have "char_int sg ty = int k" using that by (simp add: char_int_def sint_uint signed_take_bit_int_eq_self)
  then show "uint (word_of_int (char_int sg ty) :: 32 word) = int k" using that by (simp add: uint_nat unat_of_nat)
qed

lemmas type_consts = type_of_char [of 14 sg ty, simplified] type_of_char [of 13 sg ty, simplified] type_of_char [of 5 sg ty, simplified]
  type_of_char [of 16 sg ty, simplified] type_of_char [of 17 sg ty, simplified] type_of_char [of 18 sg ty, simplified]
  type_of_char [of 12 sg ty, simplified] for sg ty

lemma esf_field_effect:
  assumes "Intbit24Tofloat sg p k = Inr (of_int (sint v))"
  shows "\<exists>i'. esf_field sg p k (uint (word_of_int (char_int sg ty) :: 32 word)) i = Inr i'
    \<and> i'\<lparr>sTtag := tag_of sg tag\<rparr> = meas_effect sg i (ty, v, tag)"
  unfolding esf_field_def assms meas_effect_def
  by (simp add: Let_def gyroX_def gyroY_def gyroZ_def accX_def accY_def accZ_def gyro_temp_def type_consts)

lemma esf_loop_frame:
  "esf_loop sg (pre @ concat (map meas_bytes ms) @ post) (length ms) (int (length pre)) i = Inr (foldl (meas_effect sg) i ms)"
proof (induction ms arbitrary: pre i)
  case (Cons m ms)
  obtain ty v tag where m: "m = (ty, v, tag)" by (cases m) auto
  let ?p = "pre @ concat (map meas_bytes (m # ms)) @ post"
  have b: "meas_bytes m = le24b v @ [ty] @ le32b tag" by (simp add: meas_bytes_def m)
  have l: "length (le24b v) = 3" "length (le32b tag) = 4" by (simp_all add: le24b_def le32b_def)
  have 1: "idx ?p (int (length pre) + 3) = Inr ty"
    using idx_part [of ?p "pre @ le24b v" "[ty]" "le32b tag @ concat (map meas_bytes ms) @ post" 0] by (simp add: b l)
  have 2: "Intbit24Tofloat sg ?p (int (length pre)) = Inr (of_int (sint v))"
    using Intbit24_le [of ?p pre v "[ty] @ le32b tag @ concat (map meas_bytes ms) @ post" sg] by (simp add: b)
  have 3: "char_sum sg ?p (int (length pre) + 4) = Inr (tag_of sg tag)"
    using char_sum_le [of ?p "pre @ le24b v @ [ty]" tag "concat (map meas_bytes ms) @ post" sg] by (simp add: b l add.assoc)
  obtain i' where 4: "esf_field sg ?p (int (length pre)) (uint (word_of_int (char_int sg ty) :: 32 word)) i = Inr i'"
    "i'\<lparr>sTtag := tag_of sg tag\<rparr> = meas_effect sg i m"
    using esf_field_effect [OF 2, of ty i tag] unfolding m by blast
  have "esf_loop sg ?p (length ms) (int (length pre) + 8) (meas_effect sg i m) = Inr (foldl (meas_effect sg) (meas_effect sg i m) ms)"
    using Cons.IH [of "pre @ meas_bytes m" "meas_effect sg i m"] by (simp add: b l add.assoc)
  then show ?case using 1 3 4 by simp
qed simp

lemma payload_shape:
  assumes "n = length f"
  shows "take n (f @ rest) @ replicate (3 * n) 0 = f @ replicate (3 * n) 0"
  using assms by simp

lemma decode_esf_frame:
  assumes "length ms \<le> 15" and "length r4 = 4"
  shows "decode_esf sg (ubx_frame 0x10 0x03 (r4 @ concat (map meas_bytes ms)) ck @ rest) i = Inr (foldl (meas_effect sg) i ms)"
proof -
  let ?pl = "r4 @ concat (map meas_bytes ms)"
  let ?hd = "[0xb5, 0x62, 0x10, 0x03, word_of_nat (length ?pl mod 256), word_of_nat (length ?pl div 256)] :: byte list"
  have lm: "length (meas_bytes m) = 8" for m by (simp add: meas_bytes_def le24b_def le32b_def split: prod.splits)
  have "length (concat (map meas_bytes ms)) = 8 * length ms" by (induction ms) (simp_all add: lm)
  then have len: "length ?pl = 4 + 8 * length ms" using assms(2) by simp
  then have "int (length ?pl) - 4 = 8 * int (length ms)" by simp
  then have num: "nat (((int (length ?pl) - 4) mod 2 ^ 64 div 8) mod 2 ^ 32) = length ms" using assms(1) by simp
  have p: "ubx_frame 0x10 0x03 ?pl ck @ rest = (?hd @ r4) @ concat (map meas_bytes ms) @ ([fst ck, snd ck] @ rest)"
    by (simp add: ubx_frame_def)
  have l10: "int (length (?hd @ r4)) = 10" using assms(2) by simp
  have loop: "esf_loop sg (ubx_frame 0x10 0x03 ?pl ck @ rest) (length ms) 10 i = Inr (foldl (meas_effect sg) i ms)"
    unfolding p using esf_loop_frame [of sg "?hd @ r4" ms "[fst ck, snd ck] @ rest" i] unfolding l10 .
  have "packet_length sg (ubx_frame 0x10 0x03 ?pl ck @ rest) 4 = Inr (int (length ?pl))"
    using packet_length_frame [of ?pl] len assms(1) by simp
  then show ?thesis
    by (simp only: decode_esf_def Let_def sbind_simps num loop UBLOXDataCheckSum_frame)
qed



section \<open>Positions\<close>

definition nav_payload :: "32 word \<Rightarrow> 32 word \<Rightarrow> 32 word \<Rightarrow> 32 word \<Rightarrow> 32 word \<Rightarrow> byte list" where
  "nav_payload tow x y z acc = le32b tow @ le32b x @ le32b y @ le32b z @ le32b acc"

lemma decode_pos_frame:
  "decode_pos sg (ubx_frame 0x01 0x01 (nav_payload tow x y z acc) ck @ rest) e =
     Inr (e\<lparr>iTow := tag_of sg tow, PosX := fl32 (1 / 100 * fl32 (of_int (sint x))), PosY := fl32 (1 / 100 * fl32 (of_int (sint y))),
       PosZ := fl32 (1 / 100 * fl32 (of_int (sint z))), pAcc := fl32 (1 / 100 * fl32 (of_int (uint (tag_of sg acc))))\<rparr>)"
proof -
  let ?pl = "nav_payload tow x y z acc"
  let ?hd = "[0xb5, 0x62, 0x01, 0x01, word_of_nat (length ?pl mod 256), word_of_nat (length ?pl div 256)] :: byte list"
  let ?p = "ubx_frame 0x01 0x01 ?pl ck @ rest" and ?t = "[fst ck, snd ck] @ rest"
  have l4: "length (le32b w) = 4" for w by (simp add: le32b_def)
  have len: "length ?pl = 20" by (simp add: nav_payload_def l4)
  have p: "?p = ?hd @ ?pl @ ?t" by (simp add: ubx_frame_def)
  have f: "?p = ?hd @ le32b tow @ (le32b x @ le32b y @ le32b z @ le32b acc @ ?t)"
    "?p = (?hd @ le32b tow) @ le32b x @ (le32b y @ le32b z @ le32b acc @ ?t)"
    "?p = (?hd @ le32b tow @ le32b x) @ le32b y @ (le32b z @ le32b acc @ ?t)"
    "?p = (?hd @ le32b tow @ le32b x @ le32b y) @ le32b z @ (le32b acc @ ?t)"
    "?p = (?hd @ le32b tow @ le32b x @ le32b y @ le32b z) @ le32b acc @ ?t"
    by (simp_all add: ubx_frame_def nav_payload_def)
  have r: "char_sum sg ?p 6 = Inr (tag_of sg tow)" "Intbit32Tofloat sg ?p 10 = Inr (fl32 (of_int (sint x)))"
    "Intbit32Tofloat sg ?p 14 = Inr (fl32 (of_int (sint y)))" "Intbit32Tofloat sg ?p 18 = Inr (fl32 (of_int (sint z)))"
    "char_sum sg ?p 22 = Inr (tag_of sg acc)"
    using char_sum_le [OF f(1), of sg] Intbit32_le [OF f(2), of sg] Intbit32_le [OF f(3), of sg] Intbit32_le [OF f(4), of sg]
      char_sum_le [OF f(5), of sg] by (simp_all add: l4)
  have "packet_length sg ?p 4 = Inr (int (length ?pl))" using packet_length_frame [of ?pl] len by simp
  then show ?thesis by (simp only: decode_pos_def sbind_simps r UBLOXDataCheckSum_frame)
qed

lemma fl32_cm:
  assumes "210000000 \<le> \<bar>k\<bar>" and "\<bar>k\<bar> \<le> 830000000"
  shows "4 * fl32 (1 / 100 * fl32 (of_int k)) \<in> \<int>"
    and "\<bar>fl32 (1 / 100 * fl32 (of_int k)) - of_int k / 100\<bar> \<le> 57 / 100"
proof -
  have k: "\<bar>real_of_int k\<bar> \<le> 830000000" "210000000 \<le> \<bar>real_of_int k\<bar>" using assms by linarith+
  have "float_exponent (of_int k) \<le> 6" using float_exponent_le [of "of_int k" 30] k by auto
  then have "2 powr of_int (float_exponent (real_of_int k)) \<le> 2 powr (6 :: real)" by (intro powr_mono) simp_all
  then have "2 powr of_int (float_exponent (real_of_int k)) \<le> (64 :: real)" by simp
  then have e1: "\<bar>fl32 (of_int k) - of_int k\<bar> \<le> 32" using fl32_err [of "of_int k"] by linarith
  define q where "q = 1 / 100 * fl32 (of_int k)"
  have q: "2097152 \<le> \<bar>q\<bar>" "\<bar>q\<bar> < 8388608" using e1 k unfolding q_def by linarith+
  have "- int 2 \<le> float_exponent q" using float_exponent_ge [of 21 q] q(1) by simp
  then have "2 ^ 2 * fl32 q \<in> \<int>" by (rule fl32_grid)
  then show "4 * fl32 (1 / 100 * fl32 (of_int k)) \<in> \<int>" by (simp add: q_def)
  have "float_exponent q \<le> -1" using float_exponent_le [of q 23] q by auto
  then have "2 powr of_int (float_exponent q) \<le> 2 powr (- 1 :: real)" by (intro powr_mono) simp_all
  then have "\<bar>fl32 q - q\<bar> \<le> 1 / 4" using fl32_err [of q] by (simp add: powr_minus)
  moreover have "\<bar>q - of_int k / 100\<bar> \<le> 32 / 100" using e1 unfolding q_def by linarith
  ultimately show "\<bar>fl32 (1 / 100 * fl32 (of_int k)) - of_int k / 100\<bar> \<le> 57 / 100" unfolding q_def [symmetric] by linarith
qed

text \<open>
  A position packet is decoded to within 57 cm: at the surface of the earth (a coordinate
  between 2100 and 8300 km) the decoded coordinate is a multiple of 25 cm, because the centimetres
  the receiver sends are kept in two roundings to \<open>float\<close>.
\<close>

theorem position_is_quantised:
  assumes "210000000 \<le> \<bar>sint x\<bar>" and "\<bar>sint x\<bar> \<le> 830000000"
    and "frame = ubx_frame 0x01 0x01 (nav_payload tow x y z acc) ck"
  shows "\<exists>e'. Ublox_8_DEQUEUE sg (frame @ rest) (length frame) (i, e) = Inr ((i, e'), 2)
    \<and> 4 * PosX e' \<in> \<int> \<and> \<bar>PosX e' - of_int (sint x) / 100\<bar> \<le> 57 / 100"
proof -
  have "packet_header (frame @ rest) = Inr 0x010162b5" unfolding assms(3) packet_header_frame by (simp add: push_bit_eq_mult)
  moreover have "frame \<noteq> []" by (simp add: assms(3) ubx_frame_def)
  moreover have "take (length frame) (frame @ rest) @ replicate (3 * length frame) 0 = frame @ replicate (3 * length frame) 0" by simp
  ultimately show ?thesis
    using decode_pos_frame [of sg tow x y z acc ck "replicate (3 * length frame) 0" e] fl32_cm [OF assms(1,2)]
    unfolding Ublox_8_DEQUEUE_def by (simp add: assms(3))
qed

theorem position_is_quantised_witness:
  "\<exists>f e'. Ublox_8_DEQUEUE True f (length f) (zero_imu, zero_ecef) = Inr ((zero_imu, e'), 2) \<and> 4 * PosX e' \<in> \<int>"
  using position_is_quantised [of 400000007 _ 0 0 0 0 "(0, 0)" True "[]" zero_imu zero_ecef, OF _ _ refl]
  by (auto intro!: exI [of _ "ubx_frame 0x01 0x01 (nav_payload 0 400000007 0 0 0) (0, 0)"])

section \<open>Every message is fresh\<close>

definition packets :: "32 word \<Rightarrow> UbEvent list \<Rightarrow> nat" where
  "packets h es = length (filter (\<lambda>e. case e of SerialRead buf n \<Rightarrow> packet_header buf = Inr h | _ \<Rightarrow> False) es)"

definition imu_msgs :: "UbOut list \<Rightarrow> nat" where
  "imu_msgs os = length (filter (\<lambda>x. case x of ImuMsg a g \<Rightarrow> True | _ \<Rightarrow> False) os)"

definition gnss_msgs :: "UbOut list \<Rightarrow> nat" where
  "gnss_msgs os = length (filter (\<lambda>x. case x of GnssMsg a g \<Rightarrow> True | _ \<Rightarrow> False) os)"

lemma DEQUEUE_flag:
  assumes "Ublox_8_DEQUEUE sg buf n g = Inr (g', k)"
  shows "(k = 1 \<longleftrightarrow> packet_header buf = Inr 0x031062b5) \<and> (k = 2 \<longleftrightarrow> packet_header buf = Inr 0x010162b5)
    \<and> (k = 3 \<longleftrightarrow> packet_header buf = Inr 0x110162b5)"
  using assms by (auto simp: Ublox_8_DEQUEUE_def Let_def sbind_eq_Inr split: if_splits)

lemma ub_step_count:
  assumes "ub_handle sg d e = Inr (d', os)"
  shows "imu_msgs os + of_bool (Packet_Flag1 d') \<le> packets 0x031062b5 [e] + of_bool (Packet_Flag1 d)"
    and "gnss_msgs os + of_bool (Packet_Flag2 d') \<le> packets 0x010162b5 [e] + of_bool (Packet_Flag2 d)"
    and "gnss_msgs os + of_bool (Packet_Flag3 d') \<le> packets 0x110162b5 [e] + of_bool (Packet_Flag3 d)"
proof -
  have "imu_msgs os + of_bool (Packet_Flag1 d') \<le> packets 0x031062b5 [e] + of_bool (Packet_Flag1 d)
    \<and> gnss_msgs os + of_bool (Packet_Flag2 d') \<le> packets 0x010162b5 [e] + of_bool (Packet_Flag2 d)
    \<and> gnss_msgs os + of_bool (Packet_Flag3 d') \<le> packets 0x110162b5 [e] + of_bool (Packet_Flag3 d)"
  proof (cases e)
    case (SerialRead buf n)
    then obtain i e1 k where r: "Ublox_8_DEQUEUE sg buf n (imu d, ECEF d) = Inr ((i, e1), k)" and os: "os = []"
      and d': "readSerial sg buf n d = Inr d'" using assms by (auto simp: sbind_eq_Inr readSerial_def)
    show ?thesis
      using d' DEQUEUE_flag [OF r] by (auto simp: SerialRead readSerial_def r os Let_def imu_msgs_def gnss_msgs_def packets_def split: if_splits)
  next
    case ImuTimer
    then show ?thesis using assms by (auto simp: IMU_Pub_timer_callback_def imu_msgs_def gnss_msgs_def packets_def split: if_splits)
  next
    case GnssTimer
    then show ?thesis using assms by (auto simp: GNSS_Pub_timer_callback_def imu_msgs_def gnss_msgs_def packets_def split: if_splits)
  qed
  then show "imu_msgs os + of_bool (Packet_Flag1 d') \<le> packets 0x031062b5 [e] + of_bool (Packet_Flag1 d)"
    and "gnss_msgs os + of_bool (Packet_Flag2 d') \<le> packets 0x010162b5 [e] + of_bool (Packet_Flag2 d)"
    and "gnss_msgs os + of_bool (Packet_Flag3 d') \<le> packets 0x110162b5 [e] + of_bool (Packet_Flag3 d)" by auto
qed

lemma ub_run_count:
  "run_handlers (ub_handle sg) d es = Inr (d', os) \<Longrightarrow>
    imu_msgs os + of_bool (Packet_Flag1 d') \<le> packets 0x031062b5 es + of_bool (Packet_Flag1 d)
    \<and> gnss_msgs os + of_bool (Packet_Flag2 d') \<le> packets 0x010162b5 es + of_bool (Packet_Flag2 d)
    \<and> gnss_msgs os + of_bool (Packet_Flag3 d') \<le> packets 0x110162b5 es + of_bool (Packet_Flag3 d)"
proof (induction es arbitrary: d os)
  case Nil
  then show ?case by (simp add: imu_msgs_def gnss_msgs_def)
next
  case (Cons e es)
  obtain d1 o1 o2 where 1: "ub_handle sg d e = Inr (d1, o1)" and 2: "run_handlers (ub_handle sg) d1 es = Inr (d', o2)"
    and os: "os = o1 @ o2" using Cons.prems by (auto split: sum.splits)
  have "imu_msgs os = imu_msgs o1 + imu_msgs o2" "gnss_msgs os = gnss_msgs o1 + gnss_msgs o2"
    by (simp_all add: os imu_msgs_def gnss_msgs_def)
  moreover have "packets h (e # es) = packets h [e] + packets h es" for h by (simp add: packets_def)
  ultimately show ?case using ub_step_count [OF 1] Cons.IH [OF 2] by (simp only:) linarith
qed

text \<open>
  Nothing is published twice: in every run of the driver there are at most as many inertial
  messages as inertial packets were read, and at most as many GNSS messages as position packets
  and as velocity packets, however often the timers fire.
\<close>

theorem publications_are_fresh:
  assumes "run_handlers (ub_handle sg) UbloxDriver_init es = Inr (d, os)"
  shows "imu_msgs os \<le> packets 0x031062b5 es \<and> gnss_msgs os \<le> packets 0x010162b5 es \<and> gnss_msgs os \<le> packets 0x110162b5 es"
  using ub_run_count [OF assms] by (simp add: UbloxDriver_init_def)

theorem publications_are_fresh_witness:
  "run_handlers (ub_handle True) UbloxDriver_init [ImuTimer, GnssTimer] = Inr (UbloxDriver_init, []) \<and> imu_msgs [] \<le> 0"
proof -
  have r: "run_handlers (ub_handle True) UbloxDriver_init [ImuTimer, GnssTimer] = Inr (UbloxDriver_init, [])"
    by (simp add: UbloxDriver_init_def IMU_Pub_timer_callback_def GNSS_Pub_timer_callback_def)
  then show ?thesis using publications_are_fresh [OF r] by (simp add: packets_def)
qed

end
