(* ===== verification/InsToolbox.thy ===== *)
theory InsToolbox
  imports Spline
begin

text \<open>
  The geometry of the navigation filter (\<open>ins_toolbox.cpp\<close>): direction cosine matrices, Euler
  angles, products of quaternions, and geodetic coordinates.  Matrices are functions of two
  indices; their sizes are those the code gives them.
\<close>

section \<open>Vectors and quaternions\<close>

definition vec :: "real \<Rightarrow> real \<Rightarrow> real \<Rightarrow> vec3" where
  "vec x y z = \<lparr>v3_x = x, v3_y = y, v3_z = z\<rparr>"

definition quat_of :: "real \<Rightarrow> real \<Rightarrow> real \<Rightarrow> real \<Rightarrow> quat" where
  "quat_of w x y z = \<lparr>q_w = w, q_x = x, q_y = y, q_z = z\<rparr>"

lemma vec_simps [simp]: "v3_x (vec x y z) = x" "v3_y (vec x y z) = y" "v3_z (vec x y z) = z"
  by (simp_all add: vec_def)

lemma quat_simps [simp]: "q_w (quat_of w x y z) = w" "q_x (quat_of w x y z) = x" "q_y (quat_of w x y z) = y" "q_z (quat_of w x y z) = z"
  by (simp_all add: quat_of_def)

lemma vec3_eqI: "v3_x u = v3_x v \<Longrightarrow> v3_y u = v3_y v \<Longrightarrow> v3_z u = v3_z v \<Longrightarrow> u = (v :: vec3)"
  by simp

lemma quat_eqI: "q_w p = q_w q \<Longrightarrow> q_x p = q_x q \<Longrightarrow> q_y p = q_y q \<Longrightarrow> q_z p = q_z q \<Longrightarrow> p = (q :: quat)"
  by simp

definition vadd :: "vec3 \<Rightarrow> vec3 \<Rightarrow> vec3" where
  "vadd u v = vec (v3_x u + v3_x v) (v3_y u + v3_y v) (v3_z u + v3_z v)"

definition vsub :: "vec3 \<Rightarrow> vec3 \<Rightarrow> vec3" where
  "vsub u v = vec (v3_x u - v3_x v) (v3_y u - v3_y v) (v3_z u - v3_z v)"

definition vscale :: "real \<Rightarrow> vec3 \<Rightarrow> vec3" where
  "vscale a v = vec (a * v3_x v) (a * v3_y v) (a * v3_z v)"

definition vdot :: "vec3 \<Rightarrow> vec3 \<Rightarrow> real" where
  "vdot u v = v3_x u * v3_x v + v3_y u * v3_y v + v3_z u * v3_z v"

definition vcross :: "vec3 \<Rightarrow> vec3 \<Rightarrow> vec3" where
  "vcross u v = vec (v3_y u * v3_z v - v3_z u * v3_y v) (v3_z u * v3_x v - v3_x u * v3_z v) (v3_x u * v3_y v - v3_y u * v3_x v)"

definition vnorm :: "vec3 \<Rightarrow> real" where
  "vnorm v = sqrt (vdot v v)"

definition qnorm2 :: "quat \<Rightarrow> real" where
  "qnorm2 q = q_w q * q_w q + q_x q * q_x q + q_y q * q_y q + q_z q * q_z q"

text \<open>Eigen's \<open>normalized()\<close>: the zero quaternion is left as it is.\<close>

definition q_normalized :: "quat \<Rightarrow> quat" where
  "q_normalized q =
     (if qnorm2 q > 0
      then let n = sqrt (qnorm2 q) in quat_of (q_w q / n) (q_x q / n) (q_y q / n) (q_z q / n) else q)"

text \<open>A matrix filled row by row, and its product with a vector.\<close>

definition mat3 :: "real list \<Rightarrow> matrix" where
  "mat3 xs i j = xs ! (3 * i + j)"

definition mv3 :: "matrix \<Rightarrow> vec3 \<Rightarrow> vec3" where
  "mv3 A v = vec (A 0 0 * v3_x v + A 0 1 * v3_y v + A 0 2 * v3_z v) (A 1 0 * v3_x v + A 1 1 * v3_y v + A 1 2 * v3_z v)
     (A 2 0 * v3_x v + A 2 1 * v3_y v + A 2 2 * v3_z v)"

definition transpose_of :: "matrix \<Rightarrow> matrix" where
  "transpose_of A i j = A j i"

section \<open>The toolbox\<close>

definition Quat2DCM :: "quat \<Rightarrow> matrix" where
  "Quat2DCM quat =
     (let a = q_w quat; b = q_x quat; c = q_y quat; d = q_z quat;
          dcm11 = a * a + b * b - c * c - d * d; dcm12 = 2 * (a * d + b * c); dcm13 = 2 * (b * d - a * c);
          dcm21 = 2 * (b * c - a * d); dcm22 = a * a - b * b + c * c - d * d; dcm23 = 2 * (a * b + c * d);
          dcm31 = 2 * (a * c + b * d); dcm32 = 2 * (c * d - a * b); dcm33 = a * a - b * b - c * c + d * d
      in mat3 [dcm11, dcm12, dcm13, dcm21, dcm22, dcm23, dcm31, dcm32, dcm33])"

definition Quat2Euler :: "quat \<Rightarrow> vec3" where
  "Quat2Euler quat =
     (let a = q_w quat; b = q_x quat; c = q_y quat; d = q_z quat;
          A = 2 * (a * b + c * d); B = a * a - b * b - c * c + d * d; C = 2 * (b * d - a * c);
          D = 2 * (a * d + b * c); E = a * a + b * b - c * c - d * d
      in vec (atan2 A B) (arcsin (- C)) (atan2 D E))"

definition Euler2Quat :: "vec3 \<Rightarrow> quat" where
  "Euler2Quat eulr =
     (let phi = v3_x eulr; the = v3_y eulr; psi = v3_z eulr;
          a = cos (phi / 2) * cos (the / 2) * cos (psi / 2) + sin (phi / 2) * sin (the / 2) * sin (psi / 2);
          b = sin (phi / 2) * cos (the / 2) * cos (psi / 2) - cos (phi / 2) * sin (the / 2) * sin (psi / 2);
          c = cos (phi / 2) * sin (the / 2) * cos (psi / 2) + sin (phi / 2) * cos (the / 2) * sin (psi / 2);
          d = cos (phi / 2) * cos (the / 2) * sin (psi / 2) - sin (phi / 2) * sin (the / 2) * cos (psi / 2)
      in q_normalized (quat_of a b c d))"

definition QuatProduct :: "quat \<Rightarrow> quat \<Rightarrow> quat" where
  "QuatProduct quat1 quat2 =
     (let a = q_w quat1 * q_w quat2 - q_x quat1 * q_x quat2 - q_y quat1 * q_y quat2 - q_z quat1 * q_z quat2;
          b = q_x quat1 * q_w quat2 + q_w quat1 * q_x quat2 - q_z quat1 * q_y quat2 + q_y quat1 * q_z quat2;
          c = q_y quat1 * q_w quat2 + q_z quat1 * q_x quat2 + q_w quat1 * q_y quat2 - q_x quat1 * q_z quat2;
          d = q_z quat1 * q_w quat2 - q_y quat1 * q_x quat2 + q_x quat1 * q_y quat2 + q_w quat1 * q_z quat2
      in q_normalized (quat_of a b c d))"

text \<open>
  \<open>atan\<close> of a quotient: a nonzero value divided by zero is an infinity, whose arc tangent is a right
  angle.  (\<open>0 / 0\<close>, a NaN in C++, is 0 here.)
\<close>

definition atan_quot :: "real \<Rightarrow> real \<Rightarrow> real" where
  "atan_quot y x = (if x = 0 then sgn y * (pi / 2) else arctan (y / x))"

text \<open>The exponent \<open>(1 / 3)\<close> of the code is a quotient of integers, 0.\<close>

definition ECEF2LLH :: "vec3 \<Rightarrow> vec3" where
  "ECEF2LLH pos_ecef =
     (let pi' = 3.14159265358979; x = v3_x pos_ecef; y = v3_y pos_ecef; z = v3_z pos_ecef;
          x2 = x\<^sup>2; y2 = y\<^sup>2; z2 = z\<^sup>2; a = 6378137.0; b = 6356752.3142;
          e = sqrt (1 - (b / a)\<^sup>2); b2 = b * b; e2 = e\<^sup>2; ep = e * (a / b);
          r = sqrt (x2 + y2); r2 = r * r; E2 = a\<^sup>2 - b\<^sup>2; F = 54 * b2 * z2; G = r2 + (1 - e2) * z2 - e2 * E2;
          c = (e2 * e2 * F * r2) / (G * G * G);
          s = (1 + c + sqrt (c * c + 2 * c)) ^ (1 div 3);
          P = F / (3 * (s + 1 / s + 1)\<^sup>2 * G * G);
          Q = sqrt (1 + 2 * e2 * e2 * P);
          ro = - (P * e2 * r) / (1 + Q)
               + sqrt ((a * a / 2) * (1 + 1 / Q) - (P * (1 - e2) * z2) / (Q * (1 + Q)) - P * r2 / 2);
          tmp = (r - e2 * ro)\<^sup>2; U = sqrt (tmp + z2); V = sqrt (tmp + (1 - e2) * z2); zo = (b2 * z) / (a * V);
          height = U * (1 - b2 / (a * V)); lat = atan_quot (z + ep * ep * zo) r; temp = atan_quot y x;
          lon = (if x \<ge> 0 then temp else if x < 0 \<and> y \<ge> 0 then pi' + temp else temp - pi')
      in vec lat lon height)"

section \<open>Rotations\<close>

lemma mat3_at [simp]:
  "mat3 [a, b, c, d, e, f, g, h, k] 0 0 = a" "mat3 [a, b, c, d, e, f, g, h, k] 0 (Suc 0) = b" "mat3 [a, b, c, d, e, f, g, h, k] 0 2 = c"
  "mat3 [a, b, c, d, e, f, g, h, k] (Suc 0) 0 = d" "mat3 [a, b, c, d, e, f, g, h, k] (Suc 0) (Suc 0) = e" "mat3 [a, b, c, d, e, f, g, h, k] (Suc 0) 2 = f"
  "mat3 [a, b, c, d, e, f, g, h, k] 2 0 = g" "mat3 [a, b, c, d, e, f, g, h, k] 2 (Suc 0) = h" "mat3 [a, b, c, d, e, f, g, h, k] 2 2 = k"
  by (simp_all add: mat3_def eval_nat_numeral)

lemma q_normalized_unit: "qnorm2 q = 1 \<Longrightarrow> q_normalized q = q"
  by (simp add: q_normalized_def quat_of_def)

lemma qnorm2_nonneg: "0 \<le> qnorm2 q"
  by (simp add: qnorm2_def)

lemma qnorm2_normalized: "qnorm2 (q_normalized q) = (if qnorm2 q > 0 then 1 else 0)"
proof (cases "qnorm2 q > 0")
  case True
  then have "qnorm2 (q_normalized q) = qnorm2 q / (sqrt (qnorm2 q) * sqrt (qnorm2 q))"
    by (simp add: q_normalized_def Let_def qnorm2_def flip: add_divide_distrib)
  then show ?thesis using True by simp
next
  case False
  then show ?thesis using qnorm2_nonneg [of q] by (simp add: q_normalized_def)
qed

definition quat_mult :: "quat \<Rightarrow> quat \<Rightarrow> quat" where
  "quat_mult p q = quat_of
     (q_w p * q_w q - q_x p * q_x q - q_y p * q_y q - q_z p * q_z q)
     (q_x p * q_w q + q_w p * q_x q - q_z p * q_y q + q_y p * q_z q)
     (q_y p * q_w q + q_z p * q_x q + q_w p * q_y q - q_x p * q_z q)
     (q_z p * q_w q - q_y p * q_x q + q_x p * q_y q + q_w p * q_z q)"

lemma QuatProduct_mult: "QuatProduct p q = q_normalized (quat_mult p q)"
  by (simp add: QuatProduct_def quat_mult_def)

lemma qnorm2_mult: "qnorm2 (quat_mult p q) = qnorm2 p * qnorm2 q"
  unfolding qnorm2_def quat_mult_def quat_simps by algebra

lemma QuatProduct_unit: "qnorm2 p = 1 \<Longrightarrow> qnorm2 q = 1 \<Longrightarrow> QuatProduct p q = quat_mult p q \<and> qnorm2 (QuatProduct p q) = 1"
  by (simp add: QuatProduct_mult q_normalized_unit qnorm2_mult)

lemma dcm_at:
  "Quat2DCM q 0 0 = q_w q * q_w q + q_x q * q_x q - q_y q * q_y q - q_z q * q_z q"
  "Quat2DCM q 0 (Suc 0) = 2 * (q_w q * q_z q + q_x q * q_y q)"
  "Quat2DCM q 0 2 = 2 * (q_x q * q_z q - q_w q * q_y q)"
  "Quat2DCM q (Suc 0) 0 = 2 * (q_x q * q_y q - q_w q * q_z q)"
  "Quat2DCM q (Suc 0) (Suc 0) = q_w q * q_w q - q_x q * q_x q + q_y q * q_y q - q_z q * q_z q"
  "Quat2DCM q (Suc 0) 2 = 2 * (q_w q * q_x q + q_y q * q_z q)"
  "Quat2DCM q 2 0 = 2 * (q_w q * q_y q + q_x q * q_z q)"
  "Quat2DCM q 2 (Suc 0) = 2 * (q_y q * q_z q - q_w q * q_x q)"
  "Quat2DCM q 2 2 = q_w q * q_w q - q_x q * q_x q - q_y q * q_y q + q_z q * q_z q"
  by (simp_all add: Quat2DCM_def Let_def)

lemma all_less_3': "(\<forall>i<3. P i) \<longleftrightarrow> P 0 \<and> P (Suc 0) \<and> P (2 :: nat)"
  by (auto simp: less_Suc_eq eval_nat_numeral)

lemma sum_less_3': "(\<Sum>k<(3 :: nat). f k) = f 0 + f (Suc 0) + (f 2 :: real)"
  by (simp add: eval_nat_numeral)

lemma dcm_orthogonal:
  assumes "qnorm2 q = 1" and "i < 3" and "j < 3"
  shows "(\<Sum>k<3. Quat2DCM q i k * Quat2DCM q j k) = (if i = j then 1 else 0)"
proof -
  have "\<forall>i<3. \<forall>j<3. (\<Sum>k<3. Quat2DCM q i k * Quat2DCM q j k) = (if i = j then qnorm2 q * qnorm2 q else 0)"
    unfolding all_less_3' sum_less_3' dcm_at qnorm2_def
    by (simp only: if_True if_False refl nat.distinct zero_neq_numeral numeral_2_eq_2 nat.inject simp_thms) (intro conjI; algebra)
  then show ?thesis using assms by simp
qed

lemma dcm_mult:
  assumes "i < 3" and "j < 3"
  shows "Quat2DCM (quat_mult p q) i j = (\<Sum>k<3. Quat2DCM q i k * Quat2DCM p k j)"
proof -
  have "\<forall>i<3. \<forall>j<3. Quat2DCM (quat_mult p q) i j = (\<Sum>k<3. Quat2DCM q i k * Quat2DCM p k j)"
    unfolding all_less_3' sum_less_3' dcm_at quat_mult_def quat_simps by (intro conjI; algebra)
  then show ?thesis using assms by blast
qed

text \<open>
  The attitude algebra is sound: the direction cosine matrix of a unit quaternion is
  orthogonal, the product of unit quaternions is a unit quaternion, and its matrix is the product
  of theirs.
\<close>

theorem attitude_algebra:
  assumes "qnorm2 p = 1" and "qnorm2 q = 1" and "i < 3" and "j < 3"
  shows "(\<Sum>k<3. Quat2DCM q i k * Quat2DCM q j k) = (if i = j then 1 else 0)
    \<and> qnorm2 (QuatProduct p q) = 1
    \<and> Quat2DCM (QuatProduct p q) i j = (\<Sum>k<3. Quat2DCM q i k * Quat2DCM p k j)"
proof -
  have "QuatProduct p q = quat_mult p q" and n: "qnorm2 (QuatProduct p q) = 1"
    using QuatProduct_unit [OF assms(1,2)] by blast+
  then show ?thesis using dcm_orthogonal [OF assms(2-4)] dcm_mult [OF assms(3,4), of p q] n by metis
qed

theorem attitude_algebra_witness:
  "qnorm2 (QuatProduct (quat_of 0 1 0 0) (quat_of 0 0 1 0)) = 1
   \<and> Quat2DCM (QuatProduct (quat_of 0 1 0 0) (quat_of 0 0 1 0)) 2 2
     = (\<Sum>k<3. Quat2DCM (quat_of 0 0 1 0) 2 k * Quat2DCM (quat_of 0 1 0 0) k 2)"
  using attitude_algebra [of "quat_of 0 1 0 0" "quat_of 0 0 1 0" 2 2] by (simp add: qnorm2_def)

section \<open>Euler angles\<close>

lemma atan2_polar:
  assumes "0 < r" and "- pi < t" and "t \<le> pi"
  shows "atan2 (r * sin t) (r * cos t) = t"
proof -
  have "Complex (r * cos t) (r * sin t) = rcis r t" by (simp add: complex_eq_iff)
  moreover have "norm (rcis r t) = r" using assms(1) by simp
  ultimately have "sgn (Complex (r * cos t) (r * sin t)) = cis t"
    using assms(1) by (simp add: sgn_div_norm rcis_def scaleR_conv_of_real)
  then show ?thesis unfolding atan2_def using assms by (intro cis_Arg_unique) auto
qed

lemma Euler2Quat_unit:
  "qnorm2 (quat_of
     (cos (f / 2) * cos (t / 2) * cos (p / 2) + sin (f / 2) * sin (t / 2) * sin (p / 2))
     (sin (f / 2) * cos (t / 2) * cos (p / 2) - cos (f / 2) * sin (t / 2) * sin (p / 2))
     (cos (f / 2) * sin (t / 2) * cos (p / 2) + sin (f / 2) * cos (t / 2) * sin (p / 2))
     (cos (f / 2) * cos (t / 2) * sin (p / 2) - sin (f / 2) * sin (t / 2) * cos (p / 2))) = 1"
proof -
  have n: "(cos x)\<^sup>2 + (sin x)\<^sup>2 = 1" for x :: real by simp
  have "qnorm2 (quat_of (cf * ct * cp + sf * st * sp) (sf * ct * cp - cf * st * sp) (cf * st * cp + sf * ct * sp) (cf * ct * sp - sf * st * cp))
      = (cf\<^sup>2 + sf\<^sup>2) * (ct\<^sup>2 + st\<^sup>2) * (cp\<^sup>2 + sp\<^sup>2)" for cf ct cp sf st sp
    unfolding qnorm2_def quat_simps by algebra
  then show ?thesis by (simp add: n)
qed

lemma half_angle: "sin x = 2 * sin (x / 2) * cos (x / 2)" "cos x = (cos (x / 2))\<^sup>2 - (sin (x / 2))\<^sup>2" for x :: real
  using sin_double [of "x / 2"] cos_double [of "x / 2"] by simp_all

lemma Quat2Euler_at:
  "Quat2Euler (quat_of a b c d) = vec (atan2 (2 * (a * b + c * d)) (a * a - b * b - c * c + d * d))
     (arcsin (- (2 * (b * d - a * c)))) (atan2 (2 * (a * d + b * c)) (a * a + b * b - c * c - d * d))"
  by (simp add: Quat2Euler_def Let_def)

text \<open>
  Converting Euler angles to a quaternion and back gives the angles again, for every roll and
  yaw in the range of \<open>atan2\<close> and every pitch away from the two poles.
\<close>

theorem euler_roundtrip:
  assumes "- pi < f" and "f \<le> pi" and "- (pi / 2) < t" and "t < pi / 2" and "- pi < p" and "p \<le> pi"
  shows "Quat2Euler (Euler2Quat (vec f t p)) = vec f t p \<and> qnorm2 (Euler2Quat (vec f t p)) = 1"
proof -
  define cf ct cp sf st sp where "cf = cos (f / 2)" and "ct = cos (t / 2)" and "cp = cos (p / 2)"
    and "sf = sin (f / 2)" and "st = sin (t / 2)" and "sp = sin (p / 2)"
  let ?a = "cf * ct * cp + sf * st * sp" and ?b = "sf * ct * cp - cf * st * sp"
    and ?c = "cf * st * cp + sf * ct * sp" and ?d = "cf * ct * sp - sf * st * cp"
  have q: "Euler2Quat (vec f t p) = quat_of ?a ?b ?c ?d"
    using Euler2Quat_unit [of f t p]
    by (simp add: Euler2Quat_def Let_def q_normalized_unit cf_def ct_def cp_def sf_def st_def sp_def)
  have n: "cf\<^sup>2 + sf\<^sup>2 = 1" "ct\<^sup>2 + st\<^sup>2 = 1" "cp\<^sup>2 + sp\<^sup>2 = 1"
    by (simp_all add: cf_def sf_def ct_def st_def cp_def sp_def)
  have h: "sin f = 2 * sf * cf" "cos f = cf\<^sup>2 - sf\<^sup>2" "sin t = 2 * st * ct" "cos t = ct\<^sup>2 - st\<^sup>2" "sin p = 2 * sp * cp" "cos p = cp\<^sup>2 - sp\<^sup>2"
    using half_angle [of f] half_angle [of t] half_angle [of p] by (simp_all add: cf_def ct_def cp_def sf_def st_def sp_def)
  have A: "2 * (?a * ?b + ?c * ?d) = cos t * sin f" unfolding h using n(3) by algebra
  have B: "?a * ?a - ?b * ?b - ?c * ?c + ?d * ?d = cos t * cos f" unfolding h using n(3) by algebra
  have C: "2 * (?b * ?d - ?a * ?c) = - sin t" unfolding h using n(1,3) by algebra
  have D: "2 * (?a * ?d + ?b * ?c) = cos t * sin p" unfolding h using n(1) by algebra
  have E: "?a * ?a + ?b * ?b - ?c * ?c - ?d * ?d = cos t * cos p" unfolding h using n(1) by algebra
  have ct: "0 < cos t" using assms(3,4) by (intro cos_gt_zero_pi)
  have "arcsin (sin t) = t" using assms(3,4) by (intro arcsin_sin) simp_all
  then have "Quat2Euler (quat_of ?a ?b ?c ?d) = vec f t p"
    unfolding Quat2Euler_at A B C D E
    using atan2_polar [OF ct assms(1,2)] atan2_polar [OF ct assms(5,6)] by simp
  then show ?thesis using q Euler2Quat_unit [of f t p] by (simp add: cf_def ct_def cp_def sf_def st_def sp_def)
qed

theorem euler_roundtrip_witness:
  "Quat2Euler (Euler2Quat (vec 1 0 (- 1))) = vec 1 0 (- 1)"
  using euler_roundtrip [of 1 0 "- 1"] pi_ge_two by simp

section \<open>Geodetic coordinates\<close>

lemma equator_height:
  assumes "0 < a" and "0 < b" and "b < a" and "a \<le> r" and "e2 = 1 - (b / a)\<^sup>2"
  shows "0 < r - e2 * a" and "(r - e2 * a) * (1 - b * b / (a * (r - e2 * a))) = r - (a :: real)"
proof -
  have "0 < (b / a)\<^sup>2" using assms(1,2) by simp
  then have "e2 * a < 1 * a" using assms(1,5) by (intro mult_strict_right_mono) simp_all
  then show 1: "0 < r - e2 * a" using assms(4) by simp
  have "(r - e2 * a) * (1 - b * b / (a * (r - e2 * a))) = (r - e2 * a) - b * b / a"
    using 1 assms(1) by (simp add: field_simps)
  also have "e2 * a + b * b / a = a" unfolding assms(5) using assms(1) by (simp add: field_simps power2_eq_square)
  then have "(r - e2 * a) - b * b / a = r - a" by linarith
  finally show "(r - e2 * a) * (1 - b * b / (a * (r - e2 * a))) = r - a" .
qed

text \<open>
  On the plane of the equator, from the ellipsoid outwards, the geodetic coordinates are
  exact: latitude 0, height the distance to the ellipsoid, and the longitude of the point, up to
  the 15-digit constant that stands for pi on the western half.
\<close>

theorem equator_is_exact:
  assumes "x \<noteq> 0" and "6378137 \<le> sqrt (x\<^sup>2 + y\<^sup>2)"
  shows "ECEF2LLH (vec x y 0) =
    vec 0 (if x > 0 then arctan (y / x) else if y \<ge> 0 then 3.14159265358979 + arctan (y / x) else arctan (y / x) - 3.14159265358979)
      (sqrt (x\<^sup>2 + y\<^sup>2) - 6378137)"
proof -
  define a b r p where "a = (6378137.0 :: real)" and "b = (6356752.3142 :: real)" and "r = sqrt (x\<^sup>2 + y\<^sup>2)"
    and "p = (3.14159265358979 :: real)"
  have ab: "0 < a" "0 < b" "b < a" by (simp_all add: a_def b_def)
  define e where "e = sqrt (1 - (b / a)\<^sup>2)"
  have "(b / a)\<^sup>2 \<le> 1" using ab by (simp add: power_le_one)
  then have e2: "e\<^sup>2 = 1 - (b / a)\<^sup>2" by (simp add: e_def)
  have "a \<le> r" using assms(2) by (simp add: a_def r_def)
  note h = equator_height [OF ab this e2]
  have "sqrt (a * a) = a" using ab(1) by simp
  moreover have "sqrt ((r - e\<^sup>2 * a)\<^sup>2) = r - e\<^sup>2 * a" using h(1) by simp
  moreover have "r \<noteq> 0" using \<open>a \<le> r\<close> ab(1) by linarith
  ultimately have "ECEF2LLH (vec x y 0) = vec 0 (if x \<ge> 0 then arctan (y / x) else if x < 0 \<and> y \<ge> 0 then p + arctan (y / x) else arctan (y / x) - p) (r - a)"
    unfolding ECEF2LLH_def Let_def vec_simps atan_quot_def a_def [symmetric] b_def [symmetric] e_def [symmetric] p_def [symmetric]
    using h(2) assms(1) by (simp add: r_def [symmetric])
  then show ?thesis using assms(1) by (auto simp: a_def r_def p_def)
qed

theorem equator_is_exact_witness:
  "ECEF2LLH (vec 6378137 0 0) = vec 0 0 0"
  using equator_is_exact [of 6378137 0] by simp

end
