(* ===== verification/Ekf.thy ===== *)
theory Ekf
  imports InsToolbox
begin

text \<open>
  The navigation filter (\<open>ekf.cpp\<close>) and its ROS wrapper (\<open>ekf_ros_wrapper.cpp\<close>): alignment of the
  attitude on the first inertial measurements, prediction on each inertial measurement,
  correction on each GNSS fix, and the navigation states that are published.  The inverse of
  Eigen is an argument, with its documented behaviour as a hypothesis.  What the filter reads of its
  configuration file is an argument too.
\<close>

section \<open>Matrices\<close>

definition identity :: matrix where
  "identity i j = (if i = j then 1 else 0)"

definition zero_mat :: matrix where
  "zero_mat i j = 0"

definition madd :: "matrix \<Rightarrow> matrix \<Rightarrow> matrix" where
  "madd A B i j = A i j + B i j"

definition msub :: "matrix \<Rightarrow> matrix \<Rightarrow> matrix" where
  "msub A B i j = A i j - B i j"

definition mscale :: "real \<Rightarrow> matrix \<Rightarrow> matrix" where
  "mscale c A i j = c * A i j"

text \<open>The product of matrices whose inner dimension is \<open>n\<close>.\<close>

definition mmul :: "nat \<Rightarrow> matrix \<Rightarrow> matrix \<Rightarrow> matrix" where
  "mmul n A B i j = (\<Sum>k<n. A i k * B k j)"

text \<open>Reading and assigning a block of \<open>h\<close> rows and \<open>w\<close> columns at \<open>(r, c)\<close>.\<close>

definition get_block :: "nat \<Rightarrow> nat \<Rightarrow> matrix \<Rightarrow> matrix" where
  "get_block r c A i j = A (r + i) (c + j)"

definition set_block :: "nat \<Rightarrow> nat \<Rightarrow> nat \<Rightarrow> nat \<Rightarrow> matrix \<Rightarrow> matrix \<Rightarrow> matrix" where
  "set_block h w r c M A i j = (if r \<le> i \<and> i < r + h \<and> c \<le> j \<and> j < c + w then M (i - r) (j - c) else A i j)"

text \<open>A matrix of three columns, row by row, times a vector, as a column.\<close>

definition column :: "(nat \<Rightarrow> real) \<Rightarrow> matrix" where
  "column f i j = f i"

definition mvn :: "matrix \<Rightarrow> vec3 \<Rightarrow> nat \<Rightarrow> real" where
  "mvn A v i = A i 0 * v3_x v + A i 1 * v3_y v + A i 2 * v3_z v"

definition vzero :: vec3 where
  "vzero = vec 0 0 0"

section \<open>The navigation solution\<close>

record NavSol =
  ns_timestamp :: real
  ns_origin :: vec3
  ns_position :: vec3
  ns_velocity :: vec3
  ns_attitude :: quat
  ns_bias_acc :: vec3
  ns_bias_gyro :: vec3
  ns_acceleration :: vec3
  ns_angular_velocity :: vec3

definition SetNavSol :: "real \<Rightarrow> vec3 \<Rightarrow> vec3 \<Rightarrow> vec3 \<Rightarrow> quat \<Rightarrow> vec3 \<Rightarrow> vec3 \<Rightarrow> NavSol \<Rightarrow> NavSol" where
  "SetNavSol t orig pos vel att ba bg n =
     n\<lparr>ns_timestamp := t, ns_origin := orig, ns_position := pos, ns_velocity := vel, ns_attitude := att,
       ns_bias_acc := ba, ns_bias_gyro := bg\<rparr>"

definition SetImu :: "vec3 \<Rightarrow> vec3 \<Rightarrow> NavSol \<Rightarrow> NavSol" where
  "SetImu acc gyro n = n\<lparr>ns_acceleration := acc, ns_angular_velocity := gyro\<rparr>"

definition vlist :: "vec3 \<Rightarrow> real list" where
  "vlist v = [v3_x v, v3_y v, v3_z v]"

definition qlist :: "quat \<Rightarrow> real list" where
  "qlist q = [q_w q, q_x q, q_y q, q_z q]"

text \<open>The state vectors, and the blocks of three the code cuts out of them.\<close>

definition GetNavSolState :: "NavSol \<Rightarrow> real list" where
  "GetNavSolState n = vlist (ns_position n) @ vlist (ns_velocity n) @ qlist (ns_attitude n) @ vlist (ns_bias_acc n) @ vlist (ns_bias_gyro n)"

definition GetNavRosMsg :: "NavSol \<Rightarrow> real list" where
  "GetNavRosMsg n = ns_timestamp n # vlist (ns_origin n) @ vlist (ns_position n) @ vlist (ns_velocity n) @ qlist (ns_attitude n)
     @ vlist (ns_acceleration n) @ vlist (ns_angular_velocity n)"

definition block3 :: "real list \<Rightarrow> nat \<Rightarrow> vec3" where
  "block3 x i = vec (x ! i) (x ! (i + 1)) (x ! (i + 2))"

definition block4 :: "real list \<Rightarrow> nat \<Rightarrow> quat" where
  "block4 x i = quat_of (x ! i) (x ! (i + 1)) (x ! (i + 2)) (x ! (i + 3))"

section \<open>The filter\<close>

text \<open>The scalar entries of the configuration file; \<open>None\<close> is an entry that is missing or does not convert.\<close>

record EkfConfig =
  cfg_string :: "string \<Rightarrow> string option"
  cfg_double :: "string \<Rightarrow> real option"

record EKF =
  is_time_set :: bool
  is_aligned :: bool
  imu_flag :: bool
  gps_flag :: bool
  time_init :: real
  nav_frame :: string
  alignment_cnt :: int
  alignment_time :: real
  yaw_init :: real
  gravity :: vec3
  g_body :: vec3
  pos_origin :: vec3
  LLH :: vec3
  Ce2n :: matrix
  sum_acc :: vec3
  sum_gyro :: vec3
  imu_time_now :: real
  imu_time_prev :: real
  imu_dt :: real
  imu_acc :: vec3
  imu_gyro :: vec3
  gps_time_now :: real
  gps_time_prev :: real
  gps_dt :: real
  gps_pos_ecef :: vec3
  gps_vel_ecef :: vec3
  nav_sol :: NavSol
  cov_P :: matrix
  cov_Q :: matrix
  cov_R :: matrix
  gain_K :: matrix
  cov_S :: matrix
  mat_F :: matrix
  mat_B :: matrix
  mat_H :: matrix

definition as_value :: "'a option \<Rightarrow> exn + 'a" where
  "as_value v = (case v of None \<Rightarrow> Inl (Runtime_error ''bad conversion'') | Some x \<Rightarrow> Inr x)"

text \<open>Without the file the process exits; the entries are read in the code's order.\<close>

definition LoadSettings :: "EkfConfig option \<Rightarrow> EKF \<Rightarrow> exn + EKF" where
  "LoadSettings fin s =
     (case fin of None \<Rightarrow> Inl (Exit (- 1)) | Some cfg \<Rightarrow>
        let num = \<lambda>k. as_value (cfg_double cfg k) in
        sbind (as_value (cfg_string cfg ''navigation_frame'')) (\<lambda>frame.
        sbind (num ''alignment_time_sec'') (\<lambda>atime.
        sbind (num ''initial_yaw_deg'') (\<lambda>yaw.
        sbind (num ''covP.pos'') (\<lambda>p1. sbind (num ''covP.vel'') (\<lambda>p2. sbind (num ''covP.quat'') (\<lambda>p3.
        sbind (num ''covP.b_acc'') (\<lambda>p4. sbind (num ''covP.b_gyro'') (\<lambda>p5.
        sbind (num ''covQ.n_acc'') (\<lambda>q1. sbind (num ''covQ.bi_acc'') (\<lambda>q2. sbind (num ''covQ.n_gyro'') (\<lambda>q3.
        sbind (num ''covQ.bi_gyro'') (\<lambda>q4. sbind (num ''covR.pos'') (\<lambda>r1. sbind (num ''covR.vel'') (\<lambda>r2.
        Inr (s\<lparr>nav_frame := frame, alignment_time := atime, yaw_init := yaw,
          cov_P := set_block 3 3 13 13 (mscale p5 identity) (set_block 3 3 10 10 (mscale p4 identity)
            (set_block 1 1 9 9 (mscale (p3 * 10) identity) (set_block 2 2 7 7 (mscale p3 identity)
            (set_block 1 1 6 6 (mscale (p3 * 10) identity) (set_block 1 1 5 5 (mscale (p2 * 1) identity)
            (set_block 2 2 3 3 (mscale p2 identity) (set_block 3 3 0 0 (mscale p1 identity) (cov_P s)))))))),
          cov_Q := set_block 3 3 9 9 (mscale q4 identity) (set_block 3 3 6 6 (mscale q3 identity)
            (set_block 3 3 3 3 (mscale q2 identity) (set_block 3 3 0 0 (mscale q1 identity) (cov_Q s)))),
          cov_R := set_block 3 3 3 3 (mscale r2 identity) (set_block 3 3 0 0 (mscale r1 identity) (cov_R s))\<rparr>))))))))))))))))"

text \<open>\<open>Reset\<close>: its assignments, then the settings.\<close>

definition cleared :: "EKF \<Rightarrow> EKF" where
  "cleared s =
     s\<lparr>is_aligned := False, is_time_set := False, imu_flag := False, gps_flag := False, time_init := 0,
       alignment_cnt := 0, g_body := vzero, pos_origin := vzero, LLH := vzero, Ce2n := zero_mat, sum_acc := vzero,
       sum_gyro := vzero, imu_time_now := 0, imu_time_prev := 0, imu_dt := 0, imu_acc := vzero, imu_gyro := vzero,
       gps_time_now := 0, gps_time_prev := 0, gps_dt := 0, gps_pos_ecef := vzero, gps_vel_ecef := vzero,
       cov_P := identity, cov_Q := identity, cov_R := identity, gain_K := zero_mat, cov_S := zero_mat,
       mat_F := zero_mat, mat_B := zero_mat, mat_H := zero_mat\<rparr>"

definition EKF_Reset :: "EkfConfig option \<Rightarrow> EKF \<Rightarrow> exn + EKF" where
  "EKF_Reset fin s = LoadSettings fin (cleared s)"

text \<open>The constructor; \<open>raw\<close> is what the members hold before it assigns them.\<close>

definition EKF_ctor :: "EkfConfig option \<Rightarrow> EKF \<Rightarrow> exn + EKF" where
  "EKF_ctor fin raw = sbind (EKF_Reset fin raw) (\<lambda>s. Inr (s\<lparr>gravity := vec 0 0 (- 9.80665)\<rparr>))"

definition SetTimeInit :: "real \<Rightarrow> EKF \<Rightarrow> EKF" where
  "SetTimeInit t s = s\<lparr>time_init := t, is_time_set := True\<rparr>"

definition SetYawInit :: "EkfConfig option \<Rightarrow> real \<Rightarrow> EKF \<Rightarrow> exn + EKF" where
  "SetYawInit fin y s = sbind (EKF_Reset fin s) (\<lambda>s'. Inr (s'\<lparr>yaw_init := y\<rparr>))"

definition UpdateInputVector :: "real \<Rightarrow> vec3 \<Rightarrow> vec3 \<Rightarrow> EKF \<Rightarrow> EKF" where
  "UpdateInputVector t acc gyro s =
     s\<lparr>imu_time_prev := imu_time_now s, imu_time_now := t, imu_acc := acc, imu_gyro := gyro, imu_flag := True\<rparr>"

definition UpdateMeasurementVector :: "real \<Rightarrow> vec3 \<Rightarrow> vec3 \<Rightarrow> EKF \<Rightarrow> EKF" where
  "UpdateMeasurementVector t pos vel s =
     s\<lparr>gps_time_prev := gps_time_now s, gps_time_now := t, gps_pos_ecef := pos, gps_vel_ecef := vel, gps_flag := True\<rparr>"

text \<open>The rotation from the earth's frame to north, east, down.\<close>

definition ned_matrix :: "real \<Rightarrow> real \<Rightarrow> matrix" where
  "ned_matrix lat lon = mat3
     [- sin lat * cos lon, - sin lat * sin lon, cos lat,
      - sin lon, cos lon, 0,
      - cos lat * cos lon, - cos lat * sin lon, - sin lat]"

definition Alignment :: "EKF \<Rightarrow> EKF" where
  "Alignment s0 =
     (let s = s0\<lparr>alignment_cnt := alignment_cnt s0 + 1, sum_gyro := vadd (sum_gyro s0) (imu_gyro s0),
            sum_acc := vadd (sum_acc s0) (imu_acc s0), imu_flag := False\<rparr>
      in if imu_time_now s - time_init s < alignment_time s then s
      else let cnt = of_int (alignment_cnt s);
             bias_gyro = vscale (1 / cnt) (sum_gyro s); bias_acc = vzero;
             gb1 = vscale (1 / cnt) (sum_acc s); gb = vscale (1 / vnorm gb1) gb1;
             g_navi = vec 0 0 (- 1); mid = vadd gb g_navi; g_mid = vscale (1 / vnorm mid) mid;
             c = vcross gb g_mid; att1 = quat_of (vdot gb g_mid) (v3_x c) (v3_y c) (v3_z c);
             att = QuatProduct (Euler2Quat (vec 0 0 (yaw_init s * pi / 180))) att1;
             orig = gps_pos_ecef s; llh = ECEF2LLH (gps_pos_ecef s); C = ned_matrix (v3_x llh) (v3_y llh);
             pos_ned = mv3 C (vsub (gps_pos_ecef s) orig); vel_ned = mv3 C (gps_vel_ecef s)
        in s\<lparr>g_body := gb, pos_origin := orig, LLH := llh, Ce2n := C,
             nav_sol := SetImu (imu_acc s) (imu_gyro s) (SetNavSol (imu_time_now s) orig pos_ned vel_ned att bias_acc bias_gyro (nav_sol s)),
             is_aligned := True, imu_flag := False\<rparr>)"

text \<open>The matrices of \<open>Predict\<close>: \<open>F\<close> and \<open>B\<close> are assigned block by block.\<close>

definition dCbn :: "quat \<Rightarrow> matrix list" where
  "dCbn q =
     (let q0 = q_w q; q1 = q_x q; q2 = q_y q; q3 = q_z q in
      [mat3 [2 * q0, -2 * q3, 2 * q2, 2 * q3, 2 * q0, -2 * q1, -2 * q2, 2 * q1, 2 * q0],
       mat3 [2 * q1, 2 * q2, 2 * q3, 2 * q2, -2 * q1, -2 * q0, 2 * q3, 2 * q0, -2 * q1],
       mat3 [-2 * q2, 2 * q1, 2 * q0, 2 * q1, 2 * q2, 2 * q3, -2 * q0, 2 * q3, -2 * q2],
       mat3 [-2 * q3, -2 * q0, 2 * q1, 2 * q0, -2 * q3, 2 * q2, 2 * q1, 2 * q2, 2 * q3]])"

definition dQ :: "matrix list" where
  "dQ = [mat3 [0, 0, 0, 1, 0, 0, 0, 1, 0, 0, 0, 1],
         mat3 [-1, 0, 0, 0, 0, 0, 0, 0, -1, 0, 1, 0],
         mat3 [0, -1, 0, 0, 0, 1, 0, 0, 0, -1, 0, 0],
         mat3 [0, 0, -1, 0, -1, 0, 1, 0, 0, 0, 0, 0]]"

definition F_matrix :: "quat \<Rightarrow> vec3 \<Rightarrow> vec3 \<Rightarrow> real \<Rightarrow> matrix" where
  "F_matrix q a w dt =
     (let Cb2n = transpose_of (Quat2DCM q); h = 5 / 10 * dt * dt;
          ca = \<lambda>k. column (mvn (dCbn q ! k) a); cw = \<lambda>k. column (mvn (dQ ! k) w);
          f1 = set_block 3 3 0 0 identity zero_mat;
          f2 = set_block 3 3 0 3 (mscale dt identity) f1;
          f3 = set_block 3 1 0 6 (mscale h (ca 0)) f2;
          f4 = set_block 3 1 0 7 (mscale h (ca 1)) f3;
          f5 = set_block 3 1 0 8 (mscale h (ca 2)) f4;
          f6 = set_block 3 1 0 9 (mscale h (ca 3)) f5;
          f7 = set_block 3 3 0 10 (mscale (- h) Cb2n) f6;
          f8 = set_block 3 3 3 3 identity f7;
          f9 = set_block 3 1 3 6 (mscale dt (ca 0)) f8;
          f10 = set_block 3 1 3 7 (mscale dt (ca 1)) f9;
          f11 = set_block 3 1 3 8 (mscale dt (ca 2)) f10;
          f12 = set_block 3 1 3 9 (mscale dt (ca 3)) f11;
          f13 = set_block 3 3 3 10 (mscale (- dt) Cb2n) f12;
          f14 = set_block 4 1 6 6 (mscale (5 / 10 * dt) (cw 0)) f13;
          f15 = set_block 4 1 6 7 (mscale (5 / 10 * dt) (cw 1)) f14;
          f16 = set_block 4 1 6 8 (mscale (5 / 10 * dt) (cw 2)) f15;
          f17 = set_block 4 1 6 9 (mscale (5 / 10 * dt) (cw 3)) f16;
          f18 = set_block 4 4 6 6 (madd (get_block 6 6 f17) identity) f17;
          f19 = set_block 4 3 6 13 (mat3 [- q_x q, - q_y q, - q_z q, q_w q, - q_z q, q_y q, q_z q, q_w q, - q_x q, - q_y q, q_x q, q_w q]) f18;
          f20 = set_block 4 3 6 13 (mscale ((- 1) * (5 / 10) * dt) (get_block 6 13 f19)) f19;
          f21 = set_block 3 3 10 10 identity f20
      in set_block 3 3 13 13 identity f21)"

definition B_matrix :: "matrix \<Rightarrow> matrix" where
  "B_matrix F =
     set_block 3 3 13 9 identity (set_block 3 3 10 3 identity (set_block 4 3 6 6 (get_block 6 13 F)
       (set_block 3 3 3 0 (get_block 3 10 F) (set_block 3 3 0 0 (get_block 0 10 F) zero_mat))))"

definition propagated :: "matrix \<Rightarrow> matrix \<Rightarrow> matrix \<Rightarrow> matrix \<Rightarrow> matrix" where
  "propagated F B P Q =
     madd (mmul 16 (mmul 16 F P) (transpose_of F)) (mmul 12 (mmul 12 B Q) (transpose_of B))"

definition Predict :: "EKF \<Rightarrow> EKF" where
  "Predict s0 =
     (let x = GetNavSolState (nav_sol s0);
          pos_ned = block3 x 0; vel_ned = block3 x 3; att_quat = block4 x 6; bias_acc = block3 x 10; bias_gyro = block3 x 13;
          Cb2n = transpose_of (Quat2DCM att_quat);
          s = s0\<lparr>imu_dt := imu_time_now s0 - imu_time_prev s0, imu_flag := False\<rparr>; dt = imu_dt s;
          F = F_matrix att_quat (vsub (imu_acc s) bias_acc) (vsub (imu_gyro s) bias_gyro) dt;
          B = B_matrix F;
          P = propagated F B (cov_P s) (cov_Q s);
          a = vsub (mv3 Cb2n (vsub (imu_acc s) bias_acc)) (gravity s);
          pos = vadd (vadd pos_ned (vscale dt vel_ned)) (vscale (dt * dt * (5 / 10)) a);
          vel = vadd vel_ned (vscale dt a);
          att = QuatProduct att_quat (Euler2Quat (vscale dt (vsub (imu_gyro s) bias_gyro)))
      in s\<lparr>mat_F := F, mat_B := B, cov_P := P,
           nav_sol := SetImu (imu_acc s) (imu_gyro s) (SetNavSol (imu_time_now s) (pos_origin s) pos vel att bias_acc bias_gyro (nav_sol s))\<rparr>)"

text \<open>The matrices of \<open>Correct\<close>.\<close>

definition H_matrix :: matrix where
  "H_matrix = set_block 3 3 3 3 identity (set_block 3 3 0 0 identity zero_mat)"

definition innovation :: "matrix \<Rightarrow> matrix \<Rightarrow> matrix" where
  "innovation P R = madd (mmul 16 (mmul 16 H_matrix P) (transpose_of H_matrix)) R"

definition kalman_gain :: "EigenOps \<Rightarrow> matrix \<Rightarrow> matrix \<Rightarrow> matrix" where
  "kalman_gain E P S = mmul 6 (mmul 16 P (transpose_of H_matrix)) (eg_inverse E 6 S)"

definition corrected :: "matrix \<Rightarrow> matrix \<Rightarrow> matrix" where
  "corrected K P = msub P (mmul 16 (mmul 6 K H_matrix) P)"

definition Correct :: "EigenOps \<Rightarrow> EKF \<Rightarrow> EKF" where
  "Correct E s0 =
     (let x = GetNavSolState (nav_sol s0);
          pos_ned = block3 x 0; vel_ned = block3 x 3; att_quat = block4 x 6; bias_acc = block3 x 10; bias_gyro = block3 x 13;
          s = s0\<lparr>gps_dt := gps_time_now s0 - gps_time_prev s0, LLH := ECEF2LLH (pos_origin s0), gps_flag := False\<rparr>;
          C = ned_matrix (v3_x (LLH s)) (v3_y (LLH s));
          gps_pos_ned = mv3 C (vsub (gps_pos_ecef s) (pos_origin s)); gps_vel_ned = mv3 C (gps_vel_ecef s);
          S = innovation (cov_P s) (cov_R s); K = kalman_gain E (cov_P s) S;
          del_z = vlist (vsub gps_pos_ned pos_ned) @ vlist (vsub gps_vel_ned vel_ned);
          err_x = map (\<lambda>i. \<Sum>k<6. K i k * del_z ! k) [0..<16];
          pos = vadd pos_ned (block3 err_x 0); vel = vadd vel_ned (block3 err_x 3);
          att = q_normalized (quat_of (q_w att_quat + err_x ! 6) (q_x att_quat + err_x ! 7)
                  (q_y att_quat + err_x ! 8) (q_z att_quat + err_x ! 9));
          ba = vadd bias_acc (block3 err_x 10); bg = vadd bias_gyro (block3 err_x 13)
      in s\<lparr>Ce2n := C, mat_H := H_matrix, cov_S := S, gain_K := K, cov_P := corrected K (cov_P s),
           nav_sol := SetNavSol (gps_time_now s) (pos_origin s) pos vel att ba bg (nav_sol s)\<rparr>)"

section \<open>The node\<close>

text \<open>The messages; with the one that sets the yaw comes what the configuration file holds then.\<close>

datatype EkfEvent =
    ImuIn TimeMsg vec3 vec3
  | GnssIn TimeMsg vec3 vec3
  | SetYawIn real "EkfConfig option"

definition msg_time :: "TimeMsg \<Rightarrow> real" where
  "msg_time t = of_int (tm_sec t) + of_int (tm_nanosec t) * (1 / 10 ^ 9)"

definition Tn2e :: matrix where
  "Tn2e = mat3 [0, 1, 0, 1, 0, 0, 0, 0, -1]"

definition PublishNavSol :: "EKF \<Rightarrow> NavStateMsg" where
  "PublishNavSol s =
     (let x = GetNavRosMsg (nav_sol s);
          y = (if nav_frame s = ''ENU''
               then let p = mv3 Tn2e (block3 x 4); v = mv3 Tn2e (block3 x 7); att_ned = block4 x 10
                    in take 4 x @ vlist p @ vlist v @ [q_w att_ned, q_x att_ned, - q_y att_ned, - q_z att_ned] @ drop 14 x
               else x)
      in \<lparr>nv_timestamp = \<lparr>tm_sec = c_trunc (y ! 0), tm_nanosec = c_trunc ((y ! 0 - of_int (c_trunc (y ! 0))) * 10 ^ 9)\<rparr>,
          nv_origin = block3 y 1, nv_position = block3 y 4, nv_velocity = block3 y 7, nv_quaternion = block4 y 10,
          nv_acceleration = block3 y 14, nv_angular_velocity = block3 y 17\<rparr>)"

definition ImuCallback :: "TimeMsg \<Rightarrow> vec3 \<Rightarrow> vec3 \<Rightarrow> EKF \<Rightarrow> EKF \<times> NavStateMsg list" where
  "ImuCallback t acc gyro s0 =
     (let s1 = (if \<not> is_time_set s0 then SetTimeInit (msg_time t) s0 else s0);
          s2 = UpdateInputVector (msg_time t) acc gyro s1
      in if is_aligned s2 then let s3 = Predict s2 in (s3, [PublishNavSol s3]) else (Alignment s2, []))"

definition GpsCallback :: "EigenOps \<Rightarrow> TimeMsg \<Rightarrow> vec3 \<Rightarrow> vec3 \<Rightarrow> EKF \<Rightarrow> EKF \<times> NavStateMsg list" where
  "GpsCallback E t pos vel s0 =
     (let s1 = UpdateMeasurementVector (msg_time t) pos vel s0
      in if is_aligned s1 then let s2 = Correct E s1 in (s2, [PublishNavSol s2]) else (s1, []))"

definition InitYawCallback :: "EkfConfig option \<Rightarrow> real \<Rightarrow> EKF \<Rightarrow> exn + EKF" where
  "InitYawCallback fin data s = SetYawInit fin (- data) s"

fun ekf_step :: "EigenOps \<Rightarrow> EKF \<Rightarrow> EkfEvent \<Rightarrow> exn + (EKF \<times> NavStateMsg list)" where
  "ekf_step E s (ImuIn t acc gyro) = Inr (ImuCallback t acc gyro s)"
| "ekf_step E s (GnssIn t pos vel) = Inr (GpsCallback E t pos vel s)"
| "ekf_step E s (SetYawIn data fin) = sbind (InitYawCallback fin data s) (\<lambda>s'. Inr (s', []))"

end
