(* ===== verification/Covariance.thy ===== *)
theory Covariance
  imports Ekf
begin

text \<open>
  The covariance of the filter: prediction and correction keep it symmetric and positive
  semidefinite, and the innovation matrix the correction inverts has no kernel.  The argument of
  the correction is Joseph's: the corrected form at \<open>x\<close> is the old form at another vector plus the
  noise's form.
\<close>

section \<open>Quadratic forms\<close>

definition dot :: "nat \<Rightarrow> (nat \<Rightarrow> real) \<Rightarrow> (nat \<Rightarrow> real) \<Rightarrow> real" where
  "dot n u v = (\<Sum>i<n. u i * v i)"

definition quad :: "nat \<Rightarrow> matrix \<Rightarrow> (nat \<Rightarrow> real) \<Rightarrow> real" where
  "quad n M x = dot n x (mat_vec n M x)"

definition symmetric :: "nat \<Rightarrow> matrix \<Rightarrow> bool" where
  "symmetric n M \<longleftrightarrow> (\<forall>i<n. \<forall>j<n. M i j = M j i)"

definition psd :: "nat \<Rightarrow> matrix \<Rightarrow> bool" where
  "psd n M \<longleftrightarrow> symmetric n M \<and> (\<forall>x. 0 \<le> quad n M x)"

definition positive :: "nat \<Rightarrow> matrix \<Rightarrow> bool" where
  "positive n M \<longleftrightarrow> symmetric n M \<and> (\<forall>x. (\<exists>i<n. x i \<noteq> 0) \<longrightarrow> 0 < quad n M x)"

lemma dot_cong: "(\<And>i. i < n \<Longrightarrow> u i = u' i) \<Longrightarrow> (\<And>i. i < n \<Longrightarrow> v i = v' i) \<Longrightarrow> dot n u v = dot n u' v'"
  by (simp add: dot_def)

lemma dot_add: "dot n u (\<lambda>i. v i + w i) = dot n u v + dot n u w"
  by (simp add: dot_def distrib_left sum.distrib)

lemma dot_sub: "dot n (\<lambda>i. v i - w i) u = dot n v u - dot n w u" "dot n u (\<lambda>i. v i - w i) = dot n u v - dot n u w"
  by (simp_all add: dot_def algebra_simps sum_subtractf)

lemma dot_comm: "dot n u v = dot n v u"
  by (simp add: dot_def mult.commute)

lemma dot_transpose: "dot m x (mat_vec n A v) = dot n (mat_vec m (transpose_of A) x) v"
proof -
  have "dot m x (mat_vec n A v) = (\<Sum>i<m. \<Sum>j<n. x i * A i j * v j)"
    by (simp add: dot_def mat_vec_def sum_distrib_left mult.assoc)
  also have "\<dots> = (\<Sum>j<n. \<Sum>i<m. x i * A i j * v j)" by (rule sum.swap)
  also have "\<dots> = dot n (mat_vec m (transpose_of A) x) v"
    by (simp add: dot_def mat_vec_def transpose_of_def sum_distrib_right mult.commute [of "A _ _"])
  finally show ?thesis .
qed

lemma mat_vec_mmul: "mat_vec m (mmul n A B) v i = mat_vec n A (mat_vec m B v) i"
proof -
  have "mat_vec m (mmul n A B) v i = (\<Sum>j<m. \<Sum>k<n. A i k * B k j * v j)"
    by (simp add: mat_vec_def mmul_def sum_distrib_right)
  also have "\<dots> = (\<Sum>k<n. \<Sum>j<m. A i k * B k j * v j)" by (rule sum.swap)
  also have "\<dots> = mat_vec n A (mat_vec m B v) i"
    by (simp add: mat_vec_def sum_distrib_left mult.assoc)
  finally show ?thesis .
qed

lemma mat_vec_madd: "mat_vec n (madd A B) v = (\<lambda>i. mat_vec n A v i + mat_vec n B v i)"
  by (rule ext) (simp add: mat_vec_def madd_def distrib_right sum.distrib)

lemma quad_madd: "quad n (madd A B) x = quad n A x + quad n B x"
  by (simp add: quad_def mat_vec_madd dot_add)

lemma symmetric_dot: "symmetric n M \<Longrightarrow> dot n u (mat_vec n M v) = dot n (mat_vec n M u) v"
  unfolding dot_transpose
  by (rule dot_cong) (auto simp: mat_vec_def transpose_of_def symmetric_def intro!: sum.cong)

lemma quad_sub:
  assumes "symmetric n M"
  shows "quad n M (\<lambda>i. x i - y i) = quad n M x - 2 * dot n y (mat_vec n M x) + quad n M y"
proof -
  have "mat_vec n M (\<lambda>i. x i - y i) = (\<lambda>i. mat_vec n M x i - mat_vec n M y i)"
    by (rule ext) (simp add: mat_vec_def algebra_simps sum_subtractf)
  moreover have "dot n x (mat_vec n M y) = dot n y (mat_vec n M x)"
    using symmetric_dot [OF assms, of x y] by (simp add: dot_comm)
  ultimately show ?thesis by (simp add: quad_def dot_sub)
qed

section \<open>Prediction\<close>

lemma psd_congruence:
  assumes "psd n P"
  shows "psd m (mmul n (mmul n A P) (transpose_of A))"
proof -
  let ?M = "mmul n (mmul n A P) (transpose_of A)"
  have s: "P k l = P l k" if "k < n" "l < n" for k l using assms that by (simp add: psd_def symmetric_def)
  have "?M i j = ?M j i" for i j
  proof -
    have "?M i j = (\<Sum>l<n. \<Sum>k<n. A i k * P k l * A j l)"
      by (simp add: mmul_def transpose_of_def sum_distrib_right)
    also have "\<dots> = (\<Sum>k<n. \<Sum>l<n. A i k * P k l * A j l)" by (rule sum.swap)
    also have "\<dots> = (\<Sum>k<n. \<Sum>l<n. A j l * P l k * A i k)" by (intro sum.cong refl) (simp add: s)
    also have "\<dots> = ?M j i" by (simp add: mmul_def transpose_of_def sum_distrib_right)
    finally show ?thesis .
  qed
  moreover have "quad m ?M x = quad n P (mat_vec m (transpose_of A) x)" for x
    unfolding quad_def dot_transpose [symmetric] by (rule dot_cong) (simp_all add: mat_vec_mmul cong: mat_vec_cong)
  ultimately show ?thesis using assms by (simp add: psd_def symmetric_def)
qed

lemma psd_madd: "psd n A \<Longrightarrow> psd n B \<Longrightarrow> psd n (madd A B)"
  by (simp add: psd_def symmetric_def quad_madd) (simp add: madd_def)

lemma propagated_psd: "psd 16 P \<Longrightarrow> psd 12 Q \<Longrightarrow> psd 16 (propagated F B P Q)"
  unfolding propagated_def by (intro psd_madd psd_congruence)

section \<open>Correction\<close>

lemma H_matrix_at: "H_matrix i j = (if i = j \<and> i < 6 then 1 else 0)"
  by (auto simp: H_matrix_def set_block_def identity_def zero_mat_def)

lemma sum_16_6: "(\<Sum>k<16. if k < 6 then f k else 0) = (\<Sum>k<(6 :: nat). (f k :: real))"
proof -
  have "{..<16} \<inter> {k. k < 6} = {..<(6 :: nat)}" by auto
  then show ?thesis by (simp add: sum.If_cases)
qed

lemma mmul_H_left: "i < 6 \<Longrightarrow> mmul 16 H_matrix P i j = P i j"
  by (simp add: mmul_def H_matrix_at if_distrib [of "\<lambda>x. x * _"] cong: if_cong)

lemma mmul_H_right: "j < 6 \<Longrightarrow> mmul 16 A (transpose_of H_matrix) i j = A i j"
  by (simp add: mmul_def H_matrix_at transpose_of_def if_distrib [of "\<lambda>x. _ * x"] cong: if_cong)

lemma mmul_K_H: "mmul 6 K H_matrix i k = (if k < 6 then K i k else 0)"
  by (auto simp: mmul_def H_matrix_at if_distrib [of "\<lambda>x. _ * x"] cong: if_cong)

lemma innovation_at: "i < 6 \<Longrightarrow> j < 6 \<Longrightarrow> innovation P R i j = P i j + R i j"
  by (simp add: innovation_def madd_def mmul_H_left mmul_H_right)

lemma gain_at: "kalman_gain E P S i j = (\<Sum>k<6. P i k * eg_inverse E 6 S k j)"
  unfolding kalman_gain_def mmul_def [of 6] by (intro sum.cong refl) (simp add: mmul_H_right)

lemma corrected_at: "corrected K P i j = P i j - (\<Sum>k<6. K i k * P k j)"
proof -
  have "mmul 16 (mmul 6 K H_matrix) P i j = (\<Sum>k<16. if k < 6 then K i k * P k j else 0)"
    unfolding mmul_def [of 16] by (intro sum.cong refl) (simp add: mmul_K_H)
  then show ?thesis by (simp add: corrected_def msub_def sum_16_6)
qed

lemma right_inverse_symmetric:
  assumes "symmetric n S" and "is_right_inverse n S G"
  shows "symmetric n G"
proof -
  have "G i j = G j i" if "i < n" "j < n" for i j
  proof -
    have c: "(\<Sum>a<n. G a i * (\<Sum>b<n. S a b * G b j)) = G j i" if "i < n" "j < n" for i j
    proof -
      have "(\<Sum>a<n. G a i * (\<Sum>b<n. S a b * G b j)) = (\<Sum>a<n. if a = j then G a i else 0)"
        using assms(2) that by (intro sum.cong) (auto simp: is_right_inverse_def)
      then show ?thesis using that by simp
    qed
    have "(\<Sum>a<n. G a i * (\<Sum>b<n. S a b * G b j)) = (\<Sum>a<n. \<Sum>b<n. G a i * S a b * G b j)"
      by (simp add: sum_distrib_left mult.assoc)
    also have "\<dots> = (\<Sum>b<n. \<Sum>a<n. G a i * S a b * G b j)" by (rule sum.swap)
    also have "\<dots> = (\<Sum>b<n. G b j * (\<Sum>a<n. S b a * G a i))"
      using assms(1) by (auto simp: symmetric_def sum_distrib_left mult_ac intro!: sum.cong)
    finally show ?thesis using c [OF that] c [OF that(2,1)] by simp
  qed
  then show ?thesis by (simp add: symmetric_def)
qed

lemma quad_cong: "(\<And>i j. i < n \<Longrightarrow> j < n \<Longrightarrow> A i j = B i j) \<Longrightarrow> quad n A x = quad n B x"
  unfolding quad_def by (rule dot_cong) (simp_all add: mat_vec_def)

text \<open>A vector of six entries, seen as one of sixteen.\<close>

definition pad :: "(nat \<Rightarrow> real) \<Rightarrow> nat \<Rightarrow> real" where
  "pad u i = (if i < 6 then u i else 0)"

lemma dot_pad: "dot 16 (pad u) v = dot 6 u v"
proof -
  have "dot 16 (pad u) v = (\<Sum>k<16. if k < 6 then u k * v k else 0)"
    unfolding dot_def by (intro sum.cong refl) (simp add: pad_def)
  then show ?thesis by (simp add: sum_16_6 dot_def)
qed

lemma mat_vec_pad: "mat_vec 16 P (pad u) i = mat_vec 6 P u i"
  using dot_pad [of u "P i"] by (simp add: dot_def mat_vec_def mult.commute)

lemma quad_pad: "quad 16 P (pad u) = quad 6 P u"
  by (simp add: quad_def dot_pad) (simp add: dot_def mat_vec_pad)

lemma psd_top: "psd 16 P \<Longrightarrow> psd 6 P"
  unfolding psd_def symmetric_def quad_pad [symmetric] by simp

lemma innovation_quad: "quad 6 (innovation P R) x = quad 6 P x + quad 6 R x"
  unfolding quad_madd [symmetric] by (rule quad_cong) (simp add: innovation_at madd_def)

lemma innovation_symmetric: "psd 16 P \<Longrightarrow> symmetric 6 R \<Longrightarrow> symmetric 6 (innovation P R)"
  using psd_top [of P] by (simp add: psd_def symmetric_def innovation_at)

lemma innovation_no_kernel:
  assumes "psd 16 P" and "positive 6 R"
  shows "no_kernel 6 (innovation P R)"
  unfolding no_kernel_def
proof (rule allI, rule impI, rule ccontr)
  fix v
  assume "\<forall>i<6. mat_vec 6 (innovation P R) v i = 0" and "\<not> (\<forall>i<6. v i = 0)"
  then have "quad 6 (innovation P R) v = 0" and "0 < quad 6 R v"
    using assms(2) by (simp_all add: quad_def dot_def positive_def)
  moreover have "0 \<le> quad 6 P v" using psd_top [OF assms(1)] by (simp add: psd_def)
  ultimately show False by (simp add: innovation_quad)
qed

lemma corrected_psd:
  assumes "psd 16 P" and "positive 6 R" and "eigen_inverts E 6 (innovation P R)"
  shows "psd 16 (corrected (kalman_gain E P (innovation P R)) P)"
proof -
  define S G where "S = innovation P R" and "G = eg_inverse E 6 S"
  have ri: "is_right_inverse 6 S G"
    using assms innovation_no_kernel [OF assms(1,2)] by (simp add: eigen_inverts_def S_def G_def)
  have symP: "symmetric 16 P" and symR: "symmetric 6 R" using assms(1,2) by (simp_all add: psd_def positive_def)
  have symG: "symmetric 6 G"
    using right_inverse_symmetric [OF _ ri] innovation_symmetric [OF assms(1) symR] by (simp add: S_def)
  let ?C = "corrected (kalman_gain E P S) P"
  have C: "?C i j = P i j - (\<Sum>k<6. \<Sum>l<6. P i l * G l k * P k j)" for i j
    unfolding corrected_at gain_at G_def [symmetric] by (simp add: sum_distrib_right)
  have "?C i j = ?C j i" if "i < 16" "j < 16" for i j
  proof -
    have p: "P a b = P b a" if "a < 16" "b < 16" for a b using symP that by (simp add: symmetric_def)
    have "(\<Sum>k<6. \<Sum>l<6. P i l * G l k * P k j) = (\<Sum>k<6. \<Sum>l<6. P j k * G k l * P l i)"
      using symG that by (intro sum.cong refl) (simp add: p symmetric_def)
    also have "\<dots> = (\<Sum>k<6. \<Sum>l<6. P j l * G l k * P k i)" by (rule sum.swap)
    finally show ?thesis using that by (simp add: C p)
  qed
  moreover have "0 \<le> quad 16 ?C x" for x
  proof -
    define h u where "h = mat_vec 16 P x" and "u = mat_vec 6 G h"
    have Cx: "mat_vec 16 ?C x i = mat_vec 16 P x i - mat_vec 6 P u i" for i
    proof -
      have "(\<Sum>j<16. (\<Sum>k<6. \<Sum>l<6. P i l * G l k * P k j) * x j) = (\<Sum>k<6. \<Sum>l<6. P i l * G l k * h k)"
        unfolding h_def mat_vec_def sum_distrib_right sum_distrib_left mult.assoc
        by (subst sum.swap) (intro sum.cong refl sum.swap)
      also have "\<dots> = (\<Sum>l<6. \<Sum>k<6. P i l * G l k * h k)" by (rule sum.swap)
      also have "\<dots> = mat_vec 6 P u i" by (simp add: mat_vec_def u_def sum_distrib_left mult.assoc)
      finally show ?thesis by (simp add: mat_vec_def [of 16] C left_diff_distrib sum_subtractf)
    qed
    have "dot 16 x (mat_vec 6 P u) = dot 16 x (mat_vec 16 P (pad u))" by (simp add: mat_vec_pad dot_def)
    also have "\<dots> = dot 6 u h"
      using symmetric_dot [OF symP, of x "pad u"] by (simp add: h_def dot_comm [of 16 "mat_vec 16 P x"] dot_pad)
    finally have q: "quad 16 ?C x = quad 16 P x - dot 6 u h"
      by (simp add: quad_def dot_def Cx right_diff_distrib sum_subtractf)
    have "dot 6 u h = dot 6 u (mat_vec 6 S u)"
      using right_inverse_solves [OF ri] by (intro dot_cong) (simp_all add: u_def)
    then have d: "dot 6 u h = quad 6 P u + quad 6 R u"
      using innovation_quad [of P R u] by (simp add: quad_def S_def)
    have "quad 16 P (\<lambda>i. x i - pad u i) = quad 16 P x - 2 * dot 6 u h + quad 6 P u"
      using quad_sub [OF symP, of x "pad u"] by (simp add: dot_pad quad_pad h_def)
    moreover have "0 \<le> quad 16 P (\<lambda>i. x i - pad u i)" using assms(1) by (simp add: psd_def)
    moreover have "0 \<le> quad 6 R u"
    proof (cases "\<exists>i<6. u i \<noteq> 0")
      case True
      then show ?thesis using assms(2) by (simp add: positive_def less_imp_le)
    next
      case False
      then show ?thesis by (simp add: quad_def dot_def)
    qed
    ultimately show ?thesis using q d by simp
  qed
  ultimately show ?thesis by (simp add: psd_def symmetric_def S_def)
qed

end
