(* ===== verification/EkfNode.thy ===== *)
theory EkfNode
  imports Covariance
begin

text \<open>
  What the navigation node does over runs: its covariance, its attitude, when it publishes, what
  it publishes of a vehicle at rest, and the frames of its output.
\<close>

section \<open>Fields the operations keep\<close>

lemma Predict_keeps:
  "is_aligned (Predict s) = is_aligned s" "cov_Q (Predict s) = cov_Q s" "cov_R (Predict s) = cov_R s"
  "nav_frame (Predict s) = nav_frame s" "gravity (Predict s) = gravity s" "pos_origin (Predict s) = pos_origin s"
  "gps_pos_ecef (Predict s) = gps_pos_ecef s" "gps_vel_ecef (Predict s) = gps_vel_ecef s" "yaw_init (Predict s) = yaw_init s"
  by (simp_all add: Predict_def Let_def)

lemma Correct_keeps:
  "is_aligned (Correct E s) = is_aligned s" "cov_Q (Correct E s) = cov_Q s" "cov_R (Correct E s) = cov_R s"
  "nav_frame (Correct E s) = nav_frame s" "gravity (Correct E s) = gravity s" "pos_origin (Correct E s) = pos_origin s"
  "gps_pos_ecef (Correct E s) = gps_pos_ecef s" "gps_vel_ecef (Correct E s) = gps_vel_ecef s" "yaw_init (Correct E s) = yaw_init s"
  by (simp_all add: Correct_def Let_def)

lemma Alignment_keeps:
  "cov_P (Alignment s) = cov_P s" "cov_Q (Alignment s) = cov_Q s" "cov_R (Alignment s) = cov_R s"
  "nav_frame (Alignment s) = nav_frame s" "gravity (Alignment s) = gravity s" "alignment_time (Alignment s) = alignment_time s"
  "gps_pos_ecef (Alignment s) = gps_pos_ecef s" "gps_vel_ecef (Alignment s) = gps_vel_ecef s" "yaw_init (Alignment s) = yaw_init s"
  "time_init (Alignment s) = time_init s" "is_time_set (Alignment s) = is_time_set s"
  by (simp_all add: Alignment_def Let_def)

lemma Alignment_aligned: "\<not> is_aligned s \<Longrightarrow> is_aligned (Alignment s) \<longleftrightarrow> alignment_time s \<le> imu_time_now s - time_init s"
  by (simp add: Alignment_def Let_def)

text \<open>A message enters the state, and then the filter takes its step.\<close>

definition entered :: "TimeMsg \<Rightarrow> vec3 \<Rightarrow> vec3 \<Rightarrow> EKF \<Rightarrow> EKF" where
  "entered t acc gyro s = UpdateInputVector (msg_time t) acc gyro (if \<not> is_time_set s then SetTimeInit (msg_time t) s else s)"

definition measured :: "TimeMsg \<Rightarrow> vec3 \<Rightarrow> vec3 \<Rightarrow> EKF \<Rightarrow> EKF" where
  "measured t pos vel s = UpdateMeasurementVector (msg_time t) pos vel s"

lemma entered_fields [simp]:
  "is_aligned (entered t a w s) = is_aligned s" "is_time_set (entered t a w s)" "imu_time_now (entered t a w s) = msg_time t"
  "imu_acc (entered t a w s) = a" "imu_gyro (entered t a w s) = w" "alignment_time (entered t a w s) = alignment_time s"
  "time_init (entered t a w s) = (if is_time_set s then time_init s else msg_time t)"
  "gps_pos_ecef (entered t a w s) = gps_pos_ecef s" "gps_vel_ecef (entered t a w s) = gps_vel_ecef s" "pos_origin (entered t a w s) = pos_origin s"
  "cov_P (entered t a w s) = cov_P s" "cov_Q (entered t a w s) = cov_Q s" "cov_R (entered t a w s) = cov_R s"
  "nav_sol (entered t a w s) = nav_sol s" "gravity (entered t a w s) = gravity s" "yaw_init (entered t a w s) = yaw_init s"
  "nav_frame (entered t a w s) = nav_frame s" "alignment_cnt (entered t a w s) = alignment_cnt s"
  "sum_acc (entered t a w s) = sum_acc s" "sum_gyro (entered t a w s) = sum_gyro s"
  by (simp_all add: entered_def UpdateInputVector_def SetTimeInit_def)

lemma measured_fields [simp]:
  "is_aligned (measured t p v s) = is_aligned s" "is_time_set (measured t p v s) = is_time_set s" "time_init (measured t p v s) = time_init s"
  "alignment_time (measured t p v s) = alignment_time s" "gps_pos_ecef (measured t p v s) = p" "gps_vel_ecef (measured t p v s) = v"
  "pos_origin (measured t p v s) = pos_origin s" "cov_P (measured t p v s) = cov_P s" "cov_Q (measured t p v s) = cov_Q s"
  "cov_R (measured t p v s) = cov_R s" "nav_sol (measured t p v s) = nav_sol s" "gravity (measured t p v s) = gravity s"
  "yaw_init (measured t p v s) = yaw_init s" "nav_frame (measured t p v s) = nav_frame s"
  "alignment_cnt (measured t p v s) = alignment_cnt s" "sum_acc (measured t p v s) = sum_acc s" "sum_gyro (measured t p v s) = sum_gyro s"
  by (simp_all add: measured_def UpdateMeasurementVector_def)

lemma step_imu: "ekf_step E s (ImuIn t a w) =
    Inr (if is_aligned s then (Predict (entered t a w s), [PublishNavSol (Predict (entered t a w s))]) else (Alignment (entered t a w s), []))"
  using entered_fields(1) [of t a w s] by (simp add: ImuCallback_def Let_def entered_def)

lemma step_gnss: "ekf_step E s (GnssIn t p v) =
    Inr (if is_aligned s then (Correct E (measured t p v s), [PublishNavSol (Correct E (measured t p v s))]) else (measured t p v s, []))"
  using measured_fields(1) [of t p v s] by (simp add: GpsCallback_def Let_def measured_def)

declare ekf_step.simps(1,2) [simp del] step_imu [simp] step_gnss [simp]

section \<open>The covariance\<close>

definition nonneg_diag :: "matrix \<Rightarrow> bool" where
  "nonneg_diag A \<longleftrightarrow> (\<forall>i j. i \<noteq> j \<longrightarrow> A i j = 0) \<and> (\<forall>i. 0 \<le> A i i)"

definition pos_diag :: "matrix \<Rightarrow> bool" where
  "pos_diag A \<longleftrightarrow> (\<forall>i j. i \<noteq> j \<longrightarrow> A i j = 0) \<and> (\<forall>i. 0 < A i i)"

lemma diag_identity [simp]: "nonneg_diag identity" "pos_diag identity"
  by (auto simp: nonneg_diag_def pos_diag_def identity_def)

lemma diag_set_block:
  "nonneg_diag A \<Longrightarrow> 0 \<le> c \<Longrightarrow> nonneg_diag (set_block k k r r (mscale c identity) A)"
  "pos_diag A \<Longrightarrow> 0 < c \<Longrightarrow> pos_diag (set_block k k r r (mscale c identity) A)"
  by (auto simp: nonneg_diag_def pos_diag_def set_block_def mscale_def identity_def)

lemma quad_diag:
  assumes "\<forall>i j. i \<noteq> j \<longrightarrow> A i j = 0"
  shows "quad n A x = (\<Sum>i<n. A i i * (x i)\<^sup>2)"
proof -
  have "mat_vec n A x i = A i i * x i" if "i < n" for i
  proof -
    have "mat_vec n A x i = (\<Sum>j<n. if j = i then A i i * x i else 0)"
      unfolding mat_vec_def using assms by (intro sum.cong) auto
    then show ?thesis using that by simp
  qed
  then show ?thesis by (simp add: quad_def dot_def power2_eq_square mult_ac)
qed

lemma diag_psd: "nonneg_diag A \<Longrightarrow> psd n A"
  unfolding nonneg_diag_def psd_def symmetric_def
  by (auto simp: quad_diag intro!: sum_nonneg) (metis)

lemma diag_positive: "pos_diag A \<Longrightarrow> positive n A"
  unfolding pos_diag_def positive_def symmetric_def
proof (intro conjI allI impI)
  fix x :: "nat \<Rightarrow> real"
  assume a: "(\<forall>i j. i \<noteq> j \<longrightarrow> A i j = 0) \<and> (\<forall>i. 0 < A i i)" and "\<exists>i<n. x i \<noteq> 0"
  then obtain k where "k < n" "x k \<noteq> 0" by blast
  then have "0 < (\<Sum>i<n. A i i * (x i)\<^sup>2)" using a by (intro sum_pos2 [of _ k]) (auto simp: less_imp_le)
  then show "0 < quad n A x" using a by (simp add: quad_diag)
qed metis

definition valid_config :: "EkfConfig \<Rightarrow> bool" where
  "valid_config cfg \<longleftrightarrow>
     (\<forall>k \<in> {''covP.pos'', ''covP.vel'', ''covP.quat'', ''covP.b_acc'', ''covP.b_gyro'', ''covQ.n_acc'', ''covQ.bi_acc'', ''covQ.n_gyro'', ''covQ.bi_gyro''}.
        \<forall>v. cfg_double cfg k = Some v \<longrightarrow> 0 \<le> v)
   \<and> (\<forall>k \<in> {''covR.pos'', ''covR.vel''}. \<forall>v. cfg_double cfg k = Some v \<longrightarrow> 0 < v)"

lemma as_value_Inr: "as_value v = Inr x \<longleftrightarrow> v = Some x"
  by (simp add: as_value_def split: option.splits)

lemma LoadSettings_Inr:
  assumes "LoadSettings fin s = Inr s'"
  shows "\<exists>frame atime yaw P Q R. s' = s\<lparr>nav_frame := frame, alignment_time := atime, yaw_init := yaw, cov_P := P, cov_Q := Q, cov_R := R\<rparr>"
proof -
  obtain cfg where c: "fin = Some cfg" using assms by (cases fin) (simp_all add: LoadSettings_def)
  note d = assms [unfolded c LoadSettings_def option.case Let_def sbind_eq_Inr as_value_Inr sum.inject]
  show ?thesis using d by (elim exE conjE) ((rule exI)+, erule sym)
qed

lemma cleared_fields:
  "\<not> is_aligned (cleared s)" "\<not> is_time_set (cleared s)" "alignment_cnt (cleared s) = 0" "sum_acc (cleared s) = vzero"
  "sum_gyro (cleared s) = vzero" "gps_vel_ecef (cleared s) = vzero" "gps_pos_ecef (cleared s) = vzero"
  "gravity (cleared s) = gravity s" "cov_P (cleared s) = identity" "cov_Q (cleared s) = identity" "cov_R (cleared s) = identity"
  by (simp_all add: cleared_def)

lemma Reset_fields:
  assumes "EKF_Reset fin s = Inr s'"
  shows "\<not> is_aligned s'" "\<not> is_time_set s'" "alignment_cnt s' = 0" "sum_acc s' = vzero" "sum_gyro s' = vzero"
    "gps_vel_ecef s' = vzero" "gps_pos_ecef s' = vzero" "gravity s' = gravity s"
  using LoadSettings_Inr [OF assms [unfolded EKF_Reset_def]] by (auto simp: cleared_fields)

definition cov_inv :: "EKF \<Rightarrow> bool" where
  "cov_inv s \<longleftrightarrow> psd 16 (cov_P s) \<and> psd 12 (cov_Q s) \<and> positive 6 (cov_R s)"

lemma Reset_diag:
  assumes "EKF_Reset (Some cfg) s = Inr s'" and "valid_config cfg"
  shows "nonneg_diag (cov_P s')" and "nonneg_diag (cov_Q s')" and "pos_diag (cov_R s')"
proof -
  note v = assms(2) [unfolded valid_config_def ball_simps ball_empty simp_thms]
  note d = assms(1) [unfolded EKF_Reset_def LoadSettings_def option.case Let_def sbind_eq_Inr as_value_Inr]
  show "nonneg_diag (cov_P s')" and "nonneg_diag (cov_Q s')" and "pos_diag (cov_R s')"
    using d v by (auto simp: cleared_fields intro!: diag_set_block)
qed

lemma Reset_cov: "EKF_Reset (Some cfg) s = Inr s' \<Longrightarrow> valid_config cfg \<Longrightarrow> cov_inv s'"
  by (simp add: cov_inv_def Reset_diag diag_psd diag_positive)

text \<open>
  What the covariance rests on: configurations with sensible entries, and Eigen's inverse on the
  innovation matrices of the run.
\<close>

fun cov_guard :: "EigenOps \<Rightarrow> EKF \<Rightarrow> EkfEvent \<Rightarrow> bool" where
  "cov_guard E s (ImuIn t acc gyro) = True"
| "cov_guard E s (GnssIn t pos vel) = (is_aligned s \<longrightarrow> eigen_inverts E 6 (innovation (cov_P s) (cov_R s)))"
| "cov_guard E s (SetYawIn y fin) = (\<forall>cfg. fin = Some cfg \<longrightarrow> valid_config cfg)"

lemma cov_Predict: "cov_inv s \<Longrightarrow> cov_inv (Predict s)"
  by (auto simp: cov_inv_def Predict_keeps) (simp add: Predict_def Let_def propagated_psd)

lemma cov_Correct: "cov_inv s \<Longrightarrow> eigen_inverts E 6 (innovation (cov_P s) (cov_R s)) \<Longrightarrow> cov_inv (Correct E s)"
  by (auto simp: cov_inv_def Correct_keeps) (simp add: Correct_def Let_def corrected_psd)

lemma cov_step:
  assumes "cov_inv s" and "cov_guard E s e" and "ekf_step E s e = Inr (s', os)"
  shows "cov_inv s'"
proof (cases e)
  case (ImuIn t acc gyro)
  have "cov_inv (entered t acc gyro s)" using assms(1) by (simp add: cov_inv_def)
  then have "cov_inv (Predict (entered t acc gyro s))" and "cov_inv (Alignment (entered t acc gyro s))"
    by (rule cov_Predict) (use assms(1) in \<open>simp add: cov_inv_def Alignment_keeps\<close>)
  then show ?thesis using assms(3) by (auto simp: ImuIn split: if_splits)
next
  case (GnssIn t pos vel)
  have "cov_inv (measured t pos vel s)" using assms(1) by (simp add: cov_inv_def)
  then show ?thesis using assms(2,3) cov_Correct [of "measured t pos vel s" E] by (auto simp: GnssIn split: if_splits)
next
  case (SetYawIn y fin)
  show ?thesis
  proof (cases fin)
    case None
    then show ?thesis using assms(3) by (simp add: SetYawIn InitYawCallback_def SetYawInit_def EKF_Reset_def LoadSettings_def)
  next
    case (Some cfg)
    then show ?thesis using assms(2,3)
      by (auto simp: SetYawIn InitYawCallback_def SetYawInit_def sbind_eq_Inr cov_inv_def dest!: Reset_cov)
  qed
qed

interpretation cov: guarded_system "ekf_step E" "cov_guard E" cov_inv "\<lambda>_. True" for E
  by unfold_locales (auto dest: cov_step simp: list_all_iff)

lemma ctor_Reset: "EKF_ctor fin raw = Inr s \<longleftrightarrow> (\<exists>s'. EKF_Reset fin raw = Inr s' \<and> s = s'\<lparr>gravity := vec 0 0 (- 9.80665)\<rparr>)"
  by (auto simp: EKF_ctor_def sbind_eq_Inr)


text \<open>The entries of the repository's \<open>config.yaml\<close>, and an inverse for diagonal matrices.\<close>

definition example_config :: EkfConfig where
  "example_config = \<lparr>cfg_string = map_of [(''navigation_frame'', ''ENU'')],
     cfg_double = map_of [(''alignment_time_sec'', 10), (''initial_yaw_deg'', 0),
       (''covP.pos'', 2 / 10 ^ 2), (''covP.vel'', 1 / 10 ^ 3), (''covP.quat'', 1 / 10 ^ 8), (''covP.b_acc'', 2 / 10 ^ 7), (''covP.b_gyro'', 2 / 10 ^ 10),
       (''covQ.n_acc'', 1 / 10 ^ 1), (''covQ.bi_acc'', 1 / 10 ^ 10), (''covQ.n_gyro'', 1 / 10 ^ 5), (''covQ.bi_gyro'', 1 / 10 ^ 10),
       (''covR.pos'', 10000), (''covR.vel'', 1 / 10 ^ 2)]\<rparr>"

definition diag_eigen :: EigenOps where
  "diag_eigen = \<lparr>eg_inverse = (\<lambda>n M i j. if i = j then 1 / M i i else 0), eg_rotate = (\<lambda>q v. v)\<rparr>"

lemma example_values:
  "cfg_string example_config ''navigation_frame'' = Some ''ENU''" "cfg_double example_config ''alignment_time_sec'' = Some 10"
  "cfg_double example_config ''initial_yaw_deg'' = Some 0" "cfg_double example_config ''covP.pos'' = Some (2 / 10 ^ 2)"
  "cfg_double example_config ''covP.vel'' = Some (1 / 10 ^ 3)" "cfg_double example_config ''covP.quat'' = Some (1 / 10 ^ 8)"
  "cfg_double example_config ''covP.b_acc'' = Some (2 / 10 ^ 7)" "cfg_double example_config ''covP.b_gyro'' = Some (2 / 10 ^ 10)"
  "cfg_double example_config ''covQ.n_acc'' = Some (1 / 10 ^ 1)" "cfg_double example_config ''covQ.bi_acc'' = Some (1 / 10 ^ 10)"
  "cfg_double example_config ''covQ.n_gyro'' = Some (1 / 10 ^ 5)" "cfg_double example_config ''covQ.bi_gyro'' = Some (1 / 10 ^ 10)"
  "cfg_double example_config ''covR.pos'' = Some 10000" "cfg_double example_config ''covR.vel'' = Some (1 / 10 ^ 2)"
  by (simp_all add: example_config_def)

lemma example_valid: "valid_config example_config"
  by (simp add: valid_config_def example_values)

lemma example_loads:
  obtains s where "EKF_ctor (Some example_config) raw = Inr s" and "alignment_time s = 10" and "nav_frame s = ''ENU''"
  by (simp add: EKF_ctor_def EKF_Reset_def LoadSettings_def example_values as_value_def)

lemma diag_inverts:
  assumes "nonneg_diag P" and "pos_diag R"
  shows "eigen_inverts diag_eigen 6 (innovation P R)"
proof -
  have "innovation P R i k = (if i = k then P i i + R i i else 0)" "0 < P i i + R i i" if "i < 6" "k < 6" for i k
    using assms that by (auto simp: innovation_at pos_diag_def nonneg_diag_def add_nonneg_pos)
  then have "(\<Sum>j<6. innovation P R i j * eg_inverse diag_eigen 6 (innovation P R) j k) = (\<Sum>j<6. if j = k then (if i = k then 1 else 0) else 0)"
    if "i < 6" "k < 6" for i k
    using that by (intro sum.cong refl) (auto simp: diag_eigen_def less_imp_neq [THEN not_sym])
  then show ?thesis by (simp add: eigen_inverts_def is_right_inverse_def)
qed

section \<open>When the node publishes\<close>

fun imu_times :: "EkfEvent list \<Rightarrow> real list" where
  "imu_times [] = []"
| "imu_times (ImuIn t acc gyro # es) = msg_time t # imu_times es"
| "imu_times (_ # es) = imu_times es"

fun last_fix :: "vec3 \<Rightarrow> EkfEvent list \<Rightarrow> vec3" where
  "last_fix p [] = p"
| "last_fix p (GnssIn t pos vel # es) = last_fix pos es"
| "last_fix p (_ # es) = last_fix p es"

fun is_restart :: "EkfEvent \<Rightarrow> bool" where
  "is_restart (SetYawIn y fin) = True"
| "is_restart _ = False"

lemma waiting:
  assumes "\<not> is_aligned s" and "\<forall>e \<in> set es. \<not> is_restart e" and "\<forall>u \<in> set (imu_times es). u - t1 < alignment_time s"
    and "is_time_set s \<longrightarrow> time_init s = t1" and "\<not> is_time_set s \<and> imu_times es \<noteq> [] \<longrightarrow> hd (imu_times es) = t1"
  shows "\<exists>s'. run_handlers (ekf_step E) s es = Inr (s', []) \<and> \<not> is_aligned s' \<and> alignment_time s' = alignment_time s
    \<and> (is_time_set s' \<longleftrightarrow> is_time_set s \<or> imu_times es \<noteq> []) \<and> (is_time_set s' \<longrightarrow> time_init s' = t1)
    \<and> gps_pos_ecef s' = last_fix (gps_pos_ecef s) es \<and> cov_P s' = cov_P s \<and> cov_R s' = cov_R s"
  using assms
proof (induction es arbitrary: s)
  case Nil
  then show ?case by simp
next
  case (Cons e es)
  show ?case
  proof (cases e)
    case (ImuIn t acc gyro)
    have "\<not> is_aligned (Alignment (entered t acc gyro s))" using Cons.prems by (auto simp: Alignment_aligned ImuIn)
    then show ?thesis using Cons.IH [of "Alignment (entered t acc gyro s)"] Cons.prems
      by (cases "is_time_set s") (auto simp: ImuIn Alignment_keeps)
  next
    case (GnssIn t pos vel)
    then show ?thesis using Cons.IH [of "measured t pos vel s"] Cons.prems by auto
  next
    case (SetYawIn y fin)
    then show ?thesis using Cons.prems(2) by simp
  qed
qed

lemma aligned_step:
  assumes "is_aligned s" and "\<not> is_restart e"
  shows "\<exists>s' m. ekf_step E s e = Inr (s', [m]) \<and> is_aligned s' \<and> pos_origin s' = pos_origin s"
  using assms by (cases e) (simp_all add: Predict_keeps Correct_keeps)

lemma publishing:
  assumes "is_aligned s" and "\<forall>e \<in> set es. \<not> is_restart e"
  shows "\<exists>s' os. run_handlers (ekf_step E) s es = Inr (s', os) \<and> is_aligned s' \<and> length os = length es \<and> pos_origin s' = pos_origin s"
  using assms
proof (induction es arbitrary: s)
  case Nil
  then show ?case by simp
next
  case (Cons e es)
  obtain s1 m where 1: "ekf_step E s e = Inr (s1, [m])" "is_aligned s1" "pos_origin s1 = pos_origin s"
    using aligned_step Cons.prems by (metis list.set_intros(1))
  obtain s2 os where "run_handlers (ekf_step E) s1 es = Inr (s2, os)" "is_aligned s2" "length os = length es" "pos_origin s2 = pos_origin s1"
    using Cons.IH [OF 1(2)] Cons.prems by auto
  then show ?case using 1 by simp
qed

text \<open>
  The node publishes nothing until the alignment completes, which is with the first inertial
  message that is at least the alignment time later than the first one, and from then on answers
  every inertial and every GNSS message with exactly one navigation state.  GNSS fixes play no part
  in when that is: the origin is the last fix received by then, or the earth's centre without one.
\<close>

theorem output_waits_for_alignment:
  assumes "EKF_ctor (Some cfg) raw = Inr s0" and "\<forall>e \<in> set (es1 @ es2). \<not> is_restart e"
    and "\<forall>u \<in> set (imu_times es1). u - hd (imu_times es1 @ [msg_time t]) < alignment_time s0"
    and "alignment_time s0 \<le> msg_time t - hd (imu_times es1 @ [msg_time t])"
  shows "\<exists>s1 s os. run_handlers (ekf_step E) s0 es1 = Inr (s1, []) \<and> \<not> is_aligned s1
    \<and> run_handlers (ekf_step E) s0 (es1 @ ImuIn t acc gyro # es2) = Inr (s, os) \<and> is_aligned s
    \<and> length os = length es2 \<and> pos_origin s = last_fix vzero es1"
proof -
  let ?t1 = "hd (imu_times es1 @ [msg_time t])"
  have 0: "\<not> is_aligned s0" "\<not> is_time_set s0" "gps_pos_ecef s0 = vzero"
    using assms(1) by (auto simp: ctor_Reset dest: Reset_fields)
  have t: "is_time_set s0 \<longrightarrow> time_init s0 = ?t1" "\<not> is_time_set s0 \<and> imu_times es1 \<noteq> [] \<longrightarrow> hd (imu_times es1) = ?t1"
    using 0(2) by (cases "imu_times es1", simp_all)
  have "\<forall>e \<in> set es1. \<not> is_restart e" using assms(2) by simp
  from waiting [OF 0(1) this assms(3) t, of E] obtain s1 where
      1: "run_handlers (ekf_step E) s0 es1 = Inr (s1, [])" "\<not> is_aligned s1" "alignment_time s1 = alignment_time s0"
      "is_time_set s1 \<longleftrightarrow> is_time_set s0 \<or> imu_times es1 \<noteq> []" "is_time_set s1 \<longrightarrow> time_init s1 = ?t1" "gps_pos_ecef s1 = last_fix (gps_pos_ecef s0) es1"
    by blast
  define u where "u = entered t acc gyro s1"
  have u: "\<not> is_aligned u" "imu_time_now u = msg_time t" "time_init u = ?t1" "alignment_time u = alignment_time s0" "gps_pos_ecef u = last_fix vzero es1"
    using 1 0 by (simp_all add: u_def)
  have step: "ekf_step E s1 (ImuIn t acc gyro) = Inr (Alignment u, [])" using 1(2) by (simp add: u_def)
  have al: "is_aligned (Alignment u)" using u assms(4) by (simp add: Alignment_aligned)
  have "pos_origin (Alignment u) = last_fix vzero es1" using u assms(4) by (simp add: Alignment_def Let_def)
  then obtain s os where "run_handlers (ekf_step E) (Alignment u) es2 = Inr (s, os)" "is_aligned s" "length os = length es2" "pos_origin s = last_fix vzero es1"
    using publishing [OF al, of es2 E] assms(2) by auto
  then have "run_handlers (ekf_step E) s1 (ImuIn t acc gyro # es2) = Inr (s, os)" using step by simp
  from run_handlers_append [OF 1(1) this] show ?thesis
    using 1(1,2) \<open>is_aligned s\<close> \<open>length os = length es2\<close> \<open>pos_origin s = last_fix vzero es1\<close> by auto
qed

definition at_sec :: "int \<Rightarrow> TimeMsg" where
  "at_sec k = \<lparr>tm_sec = k, tm_nanosec = 0\<rparr>"

lemma msg_time_at_sec [simp]: "msg_time (at_sec k) = of_int k"
  by (simp add: msg_time_def at_sec_def)

theorem output_waits_for_alignment_witness:
  "\<forall>raw. \<exists>s0 s os. EKF_ctor (Some example_config) raw = Inr s0
     \<and> run_handlers (ekf_step diag_eigen) s0
          ([ImuIn (at_sec 0) (vec 0 0 (- 9.8)) vzero] @ ImuIn (at_sec 10) (vec 0 0 (- 9.8)) vzero # [GnssIn (at_sec 11) vzero vzero]) = Inr (s, os)
     \<and> is_aligned s \<and> length os = 1 \<and> pos_origin s = vzero"
proof
  fix raw
  obtain s0 where 0: "EKF_ctor (Some example_config) raw = Inr s0" "alignment_time s0 = 10" by (rule example_loads)
  have "\<exists>s1 s os. run_handlers (ekf_step diag_eigen) s0 [ImuIn (at_sec 0) (vec 0 0 (- 9.8)) vzero] = Inr (s1, []) \<and> \<not> is_aligned s1
     \<and> run_handlers (ekf_step diag_eigen) s0
          ([ImuIn (at_sec 0) (vec 0 0 (- 9.8)) vzero] @ ImuIn (at_sec 10) (vec 0 0 (- 9.8)) vzero # [GnssIn (at_sec 11) vzero vzero]) = Inr (s, os)
     \<and> is_aligned s \<and> length os = length [GnssIn (at_sec 11) vzero vzero] \<and> pos_origin s = last_fix vzero [ImuIn (at_sec 0) (vec 0 0 (- 9.8)) vzero]"
    by (rule output_waits_for_alignment [OF 0(1)]) (simp_all add: 0(2))
  then show "\<exists>s0 s os. EKF_ctor (Some example_config) raw = Inr s0
     \<and> run_handlers (ekf_step diag_eigen) s0
          ([ImuIn (at_sec 0) (vec 0 0 (- 9.8)) vzero] @ ImuIn (at_sec 10) (vec 0 0 (- 9.8)) vzero # [GnssIn (at_sec 11) vzero vzero]) = Inr (s, os)
     \<and> is_aligned s \<and> length os = 1 \<and> pos_origin s = vzero"
    using 0(1) by (simp del: step_imu step_gnss run_handlers.simps append.simps) blast
qed


end
