(* ===== verification/EkfRest.thy ===== *)
theory EkfRest
  imports EkfNode
begin

text \<open>
  What the navigation node publishes: normalised attitudes, frames, and the state of a vehicle at
  rest.  The last rests on the alignment: the attitude it computes turns the measured gravity
  to the vertical.
\<close>

section \<open>States read back\<close>

lemma vec_eta [simp]: "vec (v3_x v) (v3_y v) (v3_z v) = v" "quat_of (q_w q) (q_x q) (q_y q) (q_z q) = q"
  by (simp_all add: vec_def quat_of_def)

lemma state_blocks [simp]:
  "block3 (GetNavSolState n) 0 = ns_position n" "block3 (GetNavSolState n) 3 = ns_velocity n" "block4 (GetNavSolState n) 6 = ns_attitude n"
  "block3 (GetNavSolState n) 10 = ns_bias_acc n" "block3 (GetNavSolState n) 13 = ns_bias_gyro n"
  by (simp_all add: GetNavSolState_def block3_def block4_def vlist_def qlist_def)

lemma SetNavSol_fields [simp]:
  "ns_position (SetNavSol t r p v q ba bg n) = p" "ns_velocity (SetNavSol t r p v q ba bg n) = v" "ns_attitude (SetNavSol t r p v q ba bg n) = q"
  "ns_bias_acc (SetNavSol t r p v q ba bg n) = ba" "ns_bias_gyro (SetNavSol t r p v q ba bg n) = bg"
  by (simp_all add: SetNavSol_def)

lemma SetImu_fields [simp]:
  "ns_position (SetImu a w n) = ns_position n" "ns_velocity (SetImu a w n) = ns_velocity n" "ns_attitude (SetImu a w n) = ns_attitude n"
  "ns_bias_acc (SetImu a w n) = ns_bias_acc n" "ns_bias_gyro (SetImu a w n) = ns_bias_gyro n"
  by (simp_all add: SetImu_def)

text \<open>What a message carries of the state, in the two frames.\<close>

definition flip_yz :: "vec3 \<Rightarrow> vec3" where
  "flip_yz v = vec (v3_x v) (- v3_y v) (- v3_z v)"

lemma published:
  "nv_position (PublishNavSol s) = (if nav_frame s = ''ENU'' then mv3 Tn2e (ns_position (nav_sol s)) else ns_position (nav_sol s))"
  "nv_velocity (PublishNavSol s) = (if nav_frame s = ''ENU'' then mv3 Tn2e (ns_velocity (nav_sol s)) else ns_velocity (nav_sol s))"
  "nv_quaternion (PublishNavSol s) = (let q = ns_attitude (nav_sol s) in if nav_frame s = ''ENU'' then quat_of (q_w q) (q_x q) (- q_y q) (- q_z q) else q)"
  "nv_origin (PublishNavSol s) = ns_origin (nav_sol s)"
  "nv_acceleration (PublishNavSol s) = ns_acceleration (nav_sol s)"
  "nv_angular_velocity (PublishNavSol s) = ns_angular_velocity (nav_sol s)"
  by (simp_all add: PublishNavSol_def GetNavRosMsg_def block3_def block4_def vlist_def qlist_def Let_def)

section \<open>Frames\<close>

text \<open>
  With the frame ENU the published position and velocity are east, north, up of the
  filter's north, east, down, while the published attitude turns body vectors (forward, left, up)
  to north, west, up: heading north is published as yaw 0 beside a position whose first
  coordinate points east.
\<close>

theorem enu_output:
  assumes "nav_frame s = ''ENU''"
  shows "nv_position (PublishNavSol s) = vec (v3_y (ns_position (nav_sol s))) (v3_x (ns_position (nav_sol s))) (- v3_z (ns_position (nav_sol s)))
    \<and> nv_velocity (PublishNavSol s) = vec (v3_y (ns_velocity (nav_sol s))) (v3_x (ns_velocity (nav_sol s))) (- v3_z (ns_velocity (nav_sol s)))
    \<and> mv3 (transpose_of (Quat2DCM (nv_quaternion (PublishNavSol s)))) v
      = flip_yz (mv3 (transpose_of (Quat2DCM (ns_attitude (nav_sol s)))) (flip_yz v))
    \<and> nv_acceleration (PublishNavSol s) = ns_acceleration (nav_sol s)"
  using assms
  by (simp add: published mv3_def Tn2e_def flip_yz_def transpose_of_def dcm_at Let_def algebra_simps)

theorem enu_output_witness:
  "nv_position (PublishNavSol \<lparr>is_time_set = True, is_aligned = True, imu_flag = False, gps_flag = False, time_init = 0, nav_frame = ''ENU'',
     alignment_cnt = 1, alignment_time = 0, yaw_init = 0, gravity = vzero, g_body = vzero, pos_origin = vzero, LLH = vzero, Ce2n = zero_mat,
     sum_acc = vzero, sum_gyro = vzero, imu_time_now = 0, imu_time_prev = 0, imu_dt = 0, imu_acc = vzero, imu_gyro = vzero, gps_time_now = 0,
     gps_time_prev = 0, gps_dt = 0, gps_pos_ecef = vzero, gps_vel_ecef = vzero,
     nav_sol = \<lparr>ns_timestamp = 0, ns_origin = vzero, ns_position = vec 1 2 3, ns_velocity = vzero, ns_attitude = quat_of 1 0 0 0,
       ns_bias_acc = vzero, ns_bias_gyro = vzero, ns_acceleration = vzero, ns_angular_velocity = vzero\<rparr>,
     cov_P = identity, cov_Q = identity, cov_R = identity, gain_K = zero_mat, cov_S = zero_mat, mat_F = zero_mat, mat_B = zero_mat, mat_H = zero_mat\<rparr>)
   = vec 2 1 (- 3)"
  by (subst enu_output [THEN conjunct1]) simp_all

section \<open>Attitudes\<close>

definition normalised :: "quat \<Rightarrow> bool" where
  "normalised q \<longleftrightarrow> qnorm2 q = 1 \<or> qnorm2 q = 0"

lemma normalised_normalized [simp]: "normalised (q_normalized q)"
  by (simp add: normalised_def qnorm2_normalized)

lemma QuatProduct_normalised [simp]: "normalised (QuatProduct p q)"
  by (simp add: QuatProduct_mult)

definition att_inv :: "EKF \<Rightarrow> bool" where
  "att_inv s \<longleftrightarrow> (is_aligned s \<longrightarrow> normalised (ns_attitude (nav_sol s)))"

lemma att_Predict: "normalised (ns_attitude (nav_sol (Predict s)))"
  by (simp add: Predict_def Let_def)

lemma att_Correct: "normalised (ns_attitude (nav_sol (Correct E s)))"
  by (simp add: Correct_def Let_def)

lemma att_Alignment: "is_aligned (Alignment s) \<Longrightarrow> \<not> is_aligned s \<Longrightarrow> normalised (ns_attitude (nav_sol (Alignment s)))"
  by (auto simp: Alignment_def Let_def split: if_splits)

lemma published_normalised: "normalised (ns_attitude (nav_sol s)) \<Longrightarrow> normalised (nv_quaternion (PublishNavSol s))"
  by (simp add: published Let_def normalised_def qnorm2_def)

interpretation att: handler_system "ekf_step E" att_inv "\<lambda>m. normalised (nv_quaternion m)" for E
proof unfold_locales
  fix s e s' os
  assume h: "ekf_step E s e = Inr (s', os)"
  show "att_inv s'"
  proof (cases e)
    case (SetYawIn y fin)
    then show ?thesis using h by (auto simp: InitYawCallback_def SetYawInit_def sbind_eq_Inr att_inv_def dest: Reset_fields)
  qed (use h in \<open>auto simp: att_inv_def att_Predict att_Correct att_Alignment split: if_splits\<close>)
  show "list_all (\<lambda>m. normalised (nv_quaternion m)) os"
    using h by (cases e) (auto simp: sbind_eq_Inr published_normalised att_Predict att_Correct split: if_splits)
qed



section \<open>A vehicle at rest\<close>

lemma mv3_scale: "mv3 A (vscale c v) = vscale c (mv3 A v)"
  by (simp add: mv3_def vscale_def algebra_simps)

lemma mv3_zero [simp]: "mv3 A (vec 0 0 0) = vec 0 0 0"
  by (simp add: mv3_def)

lemma mv3_mult:
  "mv3 (transpose_of (Quat2DCM (quat_mult p q))) v = mv3 (transpose_of (Quat2DCM p)) (mv3 (transpose_of (Quat2DCM q)) v)"
proof -
  have "Quat2DCM (quat_mult p q) j i = (\<Sum>k<3. Quat2DCM q j k * Quat2DCM p k i)" if "i < 3" "j < 3" for i j
    using dcm_mult that by blast
  then show ?thesis
    by (simp add: mv3_def transpose_of_def sum_less_3' algebra_simps del: mat3_at)
qed

text \<open>The attitude the alignment computes from the direction of the measured gravity.\<close>

definition gravity_attitude :: "vec3 \<Rightarrow> quat" where
  "gravity_attitude gb =
     (let mid = vadd gb (vec 0 0 (- 1)); g_mid = vscale (1 / vnorm mid) mid; c = vcross gb g_mid
      in quat_of (vdot gb g_mid) (v3_x c) (v3_y c) (v3_z c))"

definition aligned_attitude :: "vec3 \<Rightarrow> real \<Rightarrow> quat" where
  "aligned_attitude gb yaw = QuatProduct (Euler2Quat (vec 0 0 (yaw * pi / 180))) (gravity_attitude gb)"

lemma gravity_attitude_levels:
  assumes "vdot g g = 1" and "v3_z g \<noteq> 1"
  shows "qnorm2 (gravity_attitude g) = 1 \<and> mv3 (transpose_of (Quat2DCM (gravity_attitude g))) g = vec 0 0 (- 1)"
proof -
  define x y z s where "x = v3_x g" and "y = v3_y g" and "z = v3_z g" and "s = vnorm (vadd g (vec 0 0 (- 1)))"
  have u: "x * x + y * y + z * z = 1" using assms(1) by (simp add: vdot_def x_def y_def z_def)
  have "x * x + y * y + (z - 1) * (z - 1) = 2 * (1 - z)" using u by algebra
  then have "vdot (vadd g (vec 0 0 (- 1))) (vadd g (vec 0 0 (- 1))) = 2 * (1 - z)"
    by (simp add: vdot_def vadd_def x_def y_def z_def)
  moreover have "0 < 1 - z"
  proof -
    have "z * z \<le> 1" using u by (smt (verit) zero_le_square)
    then have "z \<le> 1" by (smt (verit) mult_less_cancel_right2 mult_le_cancel_left1)
    then show ?thesis using assms(2) by (simp add: z_def)
  qed
  ultimately have s: "s * s = 2 * (1 - z)" "0 < s" by (simp_all add: s_def vnorm_def)
  have q: "gravity_attitude g = quat_of (s / 2) (- y / s) (x / s) 0"
  proof -
    have "(x * x + y * y + z * (z - 1)) / s = s / 2" using s u by (simp add: field_simps)
    then show ?thesis
      unfolding gravity_attitude_def Let_def s_def [symmetric]
      by (simp add: vdot_def vcross_def vadd_def vscale_def x_def [symmetric] y_def [symmetric] z_def [symmetric] add_divide_distrib [symmetric]
            algebra_simps diff_divide_distrib [symmetric])
  qed
  define b c h where "b = - y / s" and "c = x / s" and "h = s / 2"
  have xy: "x = 2 * (c * h)" "y = - 2 * (b * h)" "z = 1 - 2 * (h * h)" using s by (simp_all add: b_def c_def h_def field_simps)
  have "h * h * (b * b + c * c + h * h - 1) = 0" using u unfolding xy by algebra
  then have n: "b * b + c * c + h * h = 1" using s(2) by (simp add: h_def)
  have g: "g = vec x y z" by (simp add: x_def y_def z_def)
  have "qnorm2 (quat_of h b c 0) = 1" using n by (simp add: qnorm2_def algebra_simps)
  moreover have "(h * h + b * b - c * c) * x + 2 * (b * c) * y + 2 * (h * c) * z = 0" unfolding xy using n by algebra
  moreover have "2 * (b * c) * x + (h * h - b * b + c * c) * y + 2 * (- (h * b)) * z = 0" unfolding xy using n by algebra
  moreover have "2 * (- (h * c)) * x + 2 * (h * b) * y + (h * h - b * b - c * c) * z = - 1" unfolding xy using n by algebra
  ultimately show ?thesis
    unfolding q b_def [symmetric] c_def [symmetric] h_def [symmetric] unfolding g mv3_def transpose_of_def by (simp add: dcm_at)
qed

lemma yaw_keeps_down:
  "qnorm2 (Euler2Quat (vec 0 0 psi)) = 1 \<and> mv3 (transpose_of (Quat2DCM (Euler2Quat (vec 0 0 psi)))) (vec 0 0 (- 1)) = vec 0 0 (- 1)"
proof -
  have n: "(cos (psi / 2))\<^sup>2 + (sin (psi / 2))\<^sup>2 = 1" by simp
  have "qnorm2 (quat_of (cos (psi / 2)) 0 0 (sin (psi / 2))) = 1" using n by (simp add: qnorm2_def power2_eq_square)
  then have "Euler2Quat (vec 0 0 psi) = quat_of (cos (psi / 2)) 0 0 (sin (psi / 2))"
    by (simp add: Euler2Quat_def q_normalized_unit)
  then show ?thesis using n by (simp add: mv3_def transpose_of_def dcm_at qnorm2_def power2_eq_square)
qed

lemma aligned_attitude_levels:
  assumes "vdot g g = 1" and "v3_z g \<noteq> 1"
  shows "qnorm2 (aligned_attitude g yaw) = 1 \<and> mv3 (transpose_of (Quat2DCM (aligned_attitude g yaw))) g = vec 0 0 (- 1)"
proof -
  note 1 = gravity_attitude_levels [OF assms] and 2 = yaw_keeps_down [of "yaw * pi / 180"]
  then have "aligned_attitude g yaw = quat_mult (Euler2Quat (vec 0 0 (yaw * pi / 180))) (gravity_attitude g)" and "qnorm2 (aligned_attitude g yaw) = 1"
    using QuatProduct_unit unfolding aligned_attitude_def by blast+
  then show ?thesis using 1 2 by (simp add: mv3_mult)
qed

definition standard_gravity :: real where
  "standard_gravity = 9.80665"

definition still :: "vec3 \<Rightarrow> bool" where
  "still a \<longleftrightarrow> vnorm a = standard_gravity \<and> v3_z a \<noteq> standard_gravity"

definition rest_attitude :: "vec3 \<Rightarrow> real \<Rightarrow> quat" where
  "rest_attitude a yaw = aligned_attitude (vscale (1 / standard_gravity) a) yaw"

definition at_rest :: "vec3 \<Rightarrow> vec3 \<Rightarrow> vec3 \<Rightarrow> real \<Rightarrow> string \<Rightarrow> EKF \<Rightarrow> bool" where
  "at_rest a w p yaw fr s \<longleftrightarrow>
     still a \<and> gravity s = vec 0 0 (- 9.80665) \<and> yaw_init s = yaw \<and> nav_frame s = fr \<and> gps_pos_ecef s = p \<and> gps_vel_ecef s = vzero
     \<and> (if is_aligned s
         then ns_position (nav_sol s) = vzero \<and> ns_velocity (nav_sol s) = vzero \<and> ns_attitude (nav_sol s) = rest_attitude a yaw
            \<and> ns_bias_acc (nav_sol s) = vzero \<and> ns_bias_gyro (nav_sol s) = w \<and> pos_origin s = p
         else 0 \<le> alignment_cnt s \<and> sum_acc s = vscale (of_int (alignment_cnt s)) a \<and> sum_gyro s = vscale (of_int (alignment_cnt s)) w)"

definition rest_message :: "vec3 \<Rightarrow> real \<Rightarrow> string \<Rightarrow> NavStateMsg \<Rightarrow> bool" where
  "rest_message a yaw fr m \<longleftrightarrow> nv_position m = vzero \<and> nv_velocity m = vzero
     \<and> nv_quaternion m = (let q = rest_attitude a yaw in if fr = ''ENU'' then quat_of (q_w q) (q_x q) (- q_y q) (- q_z q) else q)"

text \<open>The same measurement every time.\<close>

fun rest_guard :: "vec3 \<Rightarrow> vec3 \<Rightarrow> vec3 \<Rightarrow> EKF \<Rightarrow> EkfEvent \<Rightarrow> bool" where
  "rest_guard a w p s (ImuIn t a' w') = (a' = a \<and> w' = w)"
| "rest_guard a w p s (GnssIn t p' v) = (p' = p \<and> v = vzero)"
| "rest_guard a w p s (SetYawIn y fin) = False"

lemma vec_algebra [simp]:
  "vsub v v = vzero" "vsub v vzero = v" "vadd v vzero = v" "vscale c vzero = vzero" "mv3 A vzero = vzero" "vscale 1 v = v"
  "vscale c (vscale d v) = vscale (c * d) v"
  by (simp_all add: vsub_def vadd_def vscale_def vzero_def)

lemma vadd_vscale: "vadd (vscale c v) v = vscale (c + 1) v"
  by (simp add: vadd_def vscale_def algebra_simps)

lemma rest_levels:
  assumes "still a"
  shows "qnorm2 (rest_attitude a yaw) = 1 \<and> mv3 (transpose_of (Quat2DCM (rest_attitude a yaw))) a = vec 0 0 (- 9.80665)"
proof -
  let ?g = "vscale (1 / standard_gravity) a"
  have p: "0 < standard_gravity" by (simp add: standard_gravity_def)
  have "vdot a a = standard_gravity * standard_gravity"
    using assms p by (simp add: still_def vnorm_def real_sqrt_eq_iff) (metis less_imp_le real_sqrt_pow2_iff power2_eq_square real_sqrt_ge_0_iff)
  then have "vdot ?g ?g = 1" using p by (simp add: vdot_def vscale_def field_simps)
  moreover have "v3_z ?g \<noteq> 1" using assms p by (simp add: still_def vscale_def)
  ultimately have l: "qnorm2 (rest_attitude a yaw) = 1" "mv3 (transpose_of (Quat2DCM (rest_attitude a yaw))) ?g = vec 0 0 (- 1)"
    using aligned_attitude_levels unfolding rest_attitude_def by blast+
  have "a = vscale standard_gravity ?g" using p by simp
  then have "mv3 (transpose_of (Quat2DCM (rest_attitude a yaw))) a = vscale standard_gravity (vec 0 0 (- 1))"
    using l(2) mv3_scale by metis
  then show ?thesis using l(1) by (simp add: vscale_def standard_gravity_def)
qed

lemma quat_mult_identity [simp]: "quat_mult q (quat_of 1 0 0 0) = q"
  by (simp add: quat_mult_def)

lemma Euler2Quat_zero [simp]: "Euler2Quat vzero = quat_of 1 0 0 0"
  by (simp add: Euler2Quat_def vzero_def q_normalized_unit qnorm2_def)

lemma rest_Predict:
  assumes "at_rest a w p yaw fr s" and "is_aligned s" and "imu_acc s = a" and "imu_gyro s = w"
  shows "at_rest a w p yaw fr (Predict s)"
proof -
  have st: "still a" using assms(1) by (simp add: at_rest_def)
  note q = rest_levels [OF st, of yaw]
  have "QuatProduct (rest_attitude a yaw) (quat_of 1 0 0 0) = rest_attitude a yaw"
    using q by (simp add: QuatProduct_mult q_normalized_unit)
  moreover have "vsub (mv3 (transpose_of (Quat2DCM (rest_attitude a yaw))) a) (gravity s) = vzero"
    using q assms(1) by (simp add: at_rest_def)
  ultimately have "ns_position (nav_sol (Predict s)) = vzero" "ns_velocity (nav_sol (Predict s)) = vzero"
      "ns_attitude (nav_sol (Predict s)) = rest_attitude a yaw" "ns_bias_acc (nav_sol (Predict s)) = vzero" "ns_bias_gyro (nav_sol (Predict s)) = w"
    using assms by (simp_all add: at_rest_def Predict_def Let_def)
  then show ?thesis using assms by (simp add: at_rest_def Predict_keeps)
qed

lemma rest_Correct:
  assumes "at_rest a w p yaw fr s" and "is_aligned s"
  shows "at_rest a w p yaw fr (Correct E s)"
proof -
  have st: "still a" using assms(1) by (simp add: at_rest_def)
  have z: "vlist vzero @ vlist vzero = replicate 6 0" by (simp add: vlist_def vzero_def eval_nat_numeral)
  have b: "block3 (map (\<lambda>i. 0) [0..<16]) k = vzero" if "k + 2 < 16" for k
    using that by (simp add: block3_def vzero_def del: upt_Suc)
  have "q_normalized (rest_attitude a yaw) = rest_attitude a yaw"
    using rest_levels [OF st] by (simp add: q_normalized_unit)
  then have "ns_position (nav_sol (Correct E s)) = vzero" "ns_velocity (nav_sol (Correct E s)) = vzero"
      "ns_attitude (nav_sol (Correct E s)) = rest_attitude a yaw" "ns_bias_acc (nav_sol (Correct E s)) = vzero" "ns_bias_gyro (nav_sol (Correct E s)) = w"
    using assms by (simp_all add: at_rest_def Correct_def Let_def z b del: upt_Suc)
  then show ?thesis using assms by (simp add: at_rest_def Correct_keeps)
qed

lemma rest_Alignment:
  assumes "at_rest a w p yaw fr s" and "\<not> is_aligned s" and "imu_acc s = a" and "imu_gyro s = w"
  shows "at_rest a w p yaw fr (Alignment s)"
proof -
  define c where "c = (of_int (alignment_cnt s) + 1 :: real)"
  have c: "c > 0" using assms(1,2) by (simp add: at_rest_def c_def)
  have n: "vnorm a = standard_gravity" using assms(1) by (simp add: at_rest_def still_def)
  show ?thesis
    using assms(1,2) c
    by (simp add: at_rest_def Alignment_def Let_def assms(3,4) vadd_vscale c_def [symmetric] n rest_attitude_def aligned_attitude_def gravity_attitude_def)
qed

lemma rest_entered: "at_rest a w p yaw fr s \<Longrightarrow> at_rest a w p yaw fr (entered t a w s)"
  by (simp add: at_rest_def)

lemma rest_measured: "at_rest a w p yaw fr s \<Longrightarrow> at_rest a w p yaw fr (measured t p vzero s)"
  by (simp add: at_rest_def)

lemma rest_published: "at_rest a w p yaw fr s \<Longrightarrow> is_aligned s \<Longrightarrow> rest_message a yaw fr (PublishNavSol s)"
  by (simp add: at_rest_def rest_message_def published)

interpretation rest: guarded_system "ekf_step E" "rest_guard a w p" "at_rest a w p yaw fr" "rest_message a yaw fr" for E a w p yaw fr
proof unfold_locales
  fix s e s' os
  assume i: "at_rest a w p yaw fr s" and g: "rest_guard a w p s e" and h: "ekf_step E s e = Inr (s', os)"
  show "at_rest a w p yaw fr s' \<and> list_all (rest_message a yaw fr) os"
  proof (cases e)
    case (ImuIn t a' w')
    then show ?thesis using h g rest_entered [OF i, of t] rest_Predict [of a w p yaw fr "entered t a w s"] rest_Alignment [of a w p yaw fr "entered t a w s"]
      by (auto simp: rest_published Predict_keeps split: if_splits)
  next
    case (GnssIn t p' v)
    then show ?thesis using h g rest_measured [OF i, of t] rest_Correct [of a w p yaw fr "measured t p vzero s" E]
      by (auto simp: rest_published Correct_keeps split: if_splits)
  qed (use g in simp)
qed

lemma non_restart_returns:
  assumes "\<forall>e \<in> set es. \<not> is_restart e"
  shows "\<exists>s' os. run_handlers (ekf_step E) s es = Inr (s', os)"
  using assms
proof (induction es arbitrary: s)
  case Nil
  then show ?case by simp
next
  case (Cons e es)
  obtain s1 o1 where "ekf_step E s e = Inr (s1, o1)"
  proof -
    have "\<exists>r. ekf_step E s e = Inr r" using Cons.prems by (cases e) simp_all
    then show ?thesis using that by (metis surj_pair)
  qed
  moreover obtain s2 o2 where "run_handlers (ekf_step E) s1 es = Inr (s2, o2)" using Cons by fastforce
  ultimately show ?case by simp
qed

fun same_measurement :: "vec3 \<Rightarrow> vec3 \<Rightarrow> vec3 \<Rightarrow> EkfEvent \<Rightarrow> bool" where
  "same_measurement a w p (ImuIn t a' w') = (a' = a \<and> w' = w)"
| "same_measurement a w p (GnssIn t p' v) = (p' = p \<and> v = vzero)"
| "same_measurement a w p (SetYawIn y fin) = False"

lemma same_guarded:
  assumes "\<forall>e \<in> set es. same_measurement a w p e"
  shows "guarded (rest_guard a w p) h s es"
  using assms
proof (induction es arbitrary: s)
  case (Cons e es)
  then have "rest_guard a w p s e" by (cases e) auto
  then show ?case using Cons by (auto split: sum.splits)
qed simp



end
