(* ===== verification/Crc.thy ===== *)
theory Crc
  imports CrcTables Bytes
begin

text \<open>
  The check sums of the lidar protocol, FastCRC's \<open>ccitt\<close> and \<open>crc32\<close> (\<open>FastCRCsw.cpp\<close>): table-driven,
  four bytes at a time where the data is long enough and aligned.  Both are shown to be the
  bit-by-bit remainders of their polynomials, with every entry of the tables; and to detect
  every change of as many consecutive bytes as the check sum has.  Words are read from
  memory on a little-endian machine.
\<close>

section \<open>The code\<close>

definition REV16 :: "32 word \<Rightarrow> 32 word" where
  "REV16 v = drop_bit 8 v OR push_bit 8 (v AND 0xff)"

text \<open>One byte.\<close>

definition table_step :: "'a::len word list \<Rightarrow> 'a word \<Rightarrow> byte \<Rightarrow> 'a word" where
  "table_step T crc b = drop_bit 8 crc XOR T ! unat ((crc AND 0xff) XOR ucast b)"

text \<open>Four bytes: into a register of 16 bits, and of 32 bits.\<close>

definition crc_n4 :: "16 word list \<Rightarrow> 16 word \<Rightarrow> 32 word \<Rightarrow> 16 word" where
  "crc_n4 T crc0 d =
     (let crc = crc0 XOR ucast d in
      T ! (unat (crc AND 0xff) + 0x300) XOR T ! (unat (drop_bit 8 crc AND 0xff) + 0x200)
      XOR T ! (unat (drop_bit 16 d AND 0xff) + 0x100) XOR T ! unat (drop_bit 24 d))"

definition crc_n4d :: "32 word list \<Rightarrow> 32 word \<Rightarrow> 32 word \<Rightarrow> 32 word" where
  "crc_n4d T crc0 d =
     (let crc = crc0 XOR d in
      T ! (unat (crc AND 0xff) + 0x300) XOR T ! (unat (drop_bit 8 crc AND 0xff) + 0x200)
      XOR T ! (unat (drop_bit 16 crc AND 0xff) + 0x100) XOR T ! unat (drop_bit 24 crc AND 0xff))"

text \<open>The three loops: up to an aligned address, by 16 bytes, the rest.\<close>

fun align_loop :: "('s \<Rightarrow> byte \<Rightarrow> 's) \<Rightarrow> nat \<Rightarrow> 's \<Rightarrow> byte list \<Rightarrow> 's \<times> byte list" where
  "align_loop f a s [] = (s, [])"
| "align_loop f a s (b # bs) = (if a mod 4 \<noteq> 0 then align_loop f (a + 1) (f s b) bs else (s, b # bs))"

definition word_of :: "byte list \<Rightarrow> nat \<Rightarrow> 32 word" where
  "word_of bs i = join32 (take 4 (drop (4 * i) bs))"

function block_loop :: "('s \<Rightarrow> 32 word \<Rightarrow> 's) \<Rightarrow> 's \<Rightarrow> byte list \<Rightarrow> 's \<times> byte list" where
  "block_loop g s bs =
     (if length bs \<ge> 16
      then block_loop g (g (g (g (g s (word_of bs 0)) (word_of bs 1)) (word_of bs 2)) (word_of bs 3)) (drop 16 bs)
      else (s, bs))"
  by pat_completeness auto
termination by (relation "measure (\<lambda>(_, _, bs). length bs)") auto

declare block_loop.simps [simp del]

definition crc_upd :: "('s \<Rightarrow> byte \<Rightarrow> 's) \<Rightarrow> ('s \<Rightarrow> 32 word \<Rightarrow> 's) \<Rightarrow> nat \<Rightarrow> 's \<Rightarrow> byte list \<Rightarrow> 's" where
  "crc_upd f g a s bs =
     (let (s1, bs1) = align_loop f a s bs; (s2, bs2) = block_loop g s1 bs1 in foldl f s2 bs2)"

text \<open>The new seed and the result; \<open>a\<close> is the address of the data.\<close>

definition ccitt_upd :: "nat \<Rightarrow> 16 word \<Rightarrow> byte list \<Rightarrow> 16 word \<times> 16 word" where
  "ccitt_upd a seed bs =
     (let crc = crc_upd (table_step crc_table_ccitt) (crc_n4 crc_table_ccitt) a seed bs
      in (crc, ucast (REV16 (ucast crc))))"

definition ccitt :: "nat \<Rightarrow> byte list \<Rightarrow> 16 word" where
  "ccitt a bs = snd (ccitt_upd a 0xffff bs)"

definition crc32_upd :: "nat \<Rightarrow> 32 word \<Rightarrow> byte list \<Rightarrow> 32 word \<times> 32 word" where
  "crc32_upd a seed bs =
     (let crc = crc_upd (table_step crc_table_crc32_big) (crc_n4d crc_table_crc32_big) a seed bs
      in (crc, NOT crc))"

definition crc32 :: "nat \<Rightarrow> byte list \<Rightarrow> 32 word" where
  "crc32 a bs = snd (crc32_upd a 0xffffffff bs)"

section \<open>Linear registers\<close>

text \<open>The bytes of a register, the first one lowest.\<close>

fun join :: "byte list \<Rightarrow> 'a::len word" where
  "join [] = 0"
| "join (b # bs) = ucast b XOR push_bit 8 (join bs)"

text \<open>All sums of a list of words, in the order of the binary numbers that select them.\<close>

fun span :: "'a::len word list \<Rightarrow> 'a word list" where
  "span [] = [0]"
| "span (b # bs) = (let r = span bs in r @ map (\<lambda>x. b XOR x) r)"

lemma power_bits: "i < 2 ^ n \<Longrightarrow> 2 ^ n + word_of_nat i = (2 ^ n XOR word_of_nat i :: 'a::len word)"
proof -
  assume i: "i < 2 ^ n"
  have "\<not> bit i n" using i by (metis bit_take_bit_iff less_irrefl take_bit_nat_eq_self)
  then have "(2 ^ n :: 'a word) AND word_of_nat i = 0"
    by (intro bit_word_eqI) (auto simp: bit_simps)
  then show ?thesis by (metis disjunctive_add_eq_xor)
qed

lemma byte_mask: "(0xff :: 'a::len word) = mask 8"
  by (simp add: mask_eq_exp_minus_1)

lemma bit_join: "bit (join bs :: 'a::len word) n \<Longrightarrow> n < 8 * length bs"
  by (induction bs arbitrary: n) (fastforce simp: bit_simps dest: byte_bit)+

lemma drop_push_join:
  assumes "8 + 8 * length bs \<le> LENGTH('a)"
  shows "drop_bit 8 (push_bit 8 (join bs)) = (join bs :: 'a::len word)"
proof (rule bit_word_eqI)
  fix n
  have "8 + n < LENGTH('a)" if "bit (join bs :: 'a word) n" using bit_join [OF that] assms by linarith
  then show "bit (drop_bit 8 (push_bit 8 (join bs) :: 'a word)) n \<longleftrightarrow> bit (join bs :: 'a word) n"
    by (auto simp: bit_simps)
qed

lemma join_inj:
  "join bs = (join cs :: 'a::len word) \<Longrightarrow> length bs = length cs \<Longrightarrow> 8 * length bs \<le> LENGTH('a) \<Longrightarrow> bs = cs"
proof (induction bs arbitrary: cs)
  case (Cons b bs)
  then obtain c cs' where cs: "cs = c # cs'" by (cases cs) auto
  have head: "ucast (join (x # xs) :: 'a word) = x" for x and xs :: "byte list"
    using Cons.prems(3) by (auto simp: bit_simps intro!: bit_word_eqI dest: byte_bit)
  have tail: "drop_bit 8 (join (x # xs) :: 'a word) = join xs" if "length xs = length bs" for x xs
    
    using Cons.prems(3) that drop_push_join [of xs, where ?'a = 'a] byte_bit [of x]
    by (simp add: drop_bit_xor) (auto simp: bit_simps not_bit_byte intro!: bit_word_eqI)
  have "length cs' = length bs" using Cons.prems(2) by (simp add: cs)
  then have "join bs = (join cs' :: 'a word)" using tail [of bs b] tail [of cs' c] Cons.prems(1) by (simp only: cs)
  then have "bs = cs'" using Cons by (simp add: cs)
  moreover have "b = c" using head [of b bs] head [of c cs'] Cons.prems(1) by (simp only: cs)
  ultimately show ?case by (simp add: cs)
qed simp

text \<open>
  What a register does with one more byte of zeros.  It is linear and loses nothing, and a
  register whose low byte is empty is shifted by a byte.
\<close>

locale linear_register =
  fixes F :: "'a::len word \<Rightarrow> 'a word"
  assumes lin: "F (x XOR y) = F x XOR F y"
    and inj: "F x = F y \<Longrightarrow> x = y"
    and shift: "x AND 0xff = 0 \<Longrightarrow> F x = drop_bit 8 x"
    and wide: "16 \<le> LENGTH('a)"
begin

definition feed :: "'a word \<Rightarrow> byte \<Rightarrow> 'a word" where
  "feed s b = F (s XOR ucast b)"

lemma F_0: "F 0 = 0"
  using lin [of 0 0] by simp

lemma power_lin: "(F ^^ k) (x XOR y) = (F ^^ k) x XOR (F ^^ k) y"
  by (induction k) (simp_all add: lin)

lemma power_inj: "(F ^^ k) x = (F ^^ k) y \<Longrightarrow> x = y"
  by (induction k) (auto dest: inj)

lemma span_lin: "span (map (\<lambda>j. (F ^^ k) (2 ^ j)) (rev [0..<n])) = map (\<lambda>i. (F ^^ k) (word_of_nat i)) [0..<2 ^ n]"
proof (induction n)
  case 0
  have "(F ^^ k) 0 = 0" by (induction k) (simp_all add: F_0)
  then show ?case by simp
next
  case (Suc n)
  have u: "[0..<2 ^ Suc n] = [0..<2 ^ n] @ map (\<lambda>i. 2 ^ n + i) [0..<2 ^ n]"
    using upt_add_eq_append [of 0 "2 ^ n" "2 ^ n"] map_add_upt [of "2 ^ n" "2 ^ n"]
    by (simp add: mult_2 add.commute)
  show ?case
    by (simp add: Suc Let_def u upt_Suc_append comp_def del: power_Suc upt_Suc)
      (simp add: power_bits power_lin del: upt_Suc cong: map_cong)
qed

lemma F_push: "length bs * 8 + 8 \<le> LENGTH('a) \<Longrightarrow> F (push_bit 8 (join bs)) = join bs"
proof -
  assume l: "length bs * 8 + 8 \<le> LENGTH('a)"
  have "push_bit 8 (join bs :: 'a word) AND 0xff = 0"
    by (subst byte_mask, rule bit_word_eqI) (auto simp: bit_simps)
  then have "F (push_bit 8 (join bs)) = drop_bit 8 (push_bit 8 (join bs))" by (rule shift)
  also have "\<dots> = join bs" using l by (intro drop_push_join) simp
  finally show ?thesis .
qed

lemma feed_join: "8 * length bs \<le> LENGTH('a) \<Longrightarrow> foldl feed s bs = (F ^^ length bs) (s XOR join bs)"
proof (induction bs arbitrary: s)
  case (Cons b bs)
  then have "F (push_bit 8 (join bs)) = join bs" by (intro F_push) simp
  then have "feed s b XOR join bs = F (s XOR join (b # bs))"
    by (simp add: feed_def lin flip: xor.assoc)
  with Cons show ?case by (simp add: funpow_swap1)
qed simp

lemma feed_inj: "foldl feed s xs = foldl feed t xs \<Longrightarrow> s = t"
proof (induction xs arbitrary: s t)
  case (Cons x xs)
  then have "s XOR ucast x = t XOR ucast x" by (auto simp: feed_def dest: inj)
  then have "(s XOR ucast x) XOR ucast x = (t XOR ucast x) XOR ucast x" by simp
  then show ?case by (simp add: xor.assoc)
qed simp

text \<open>Two streams that differ in as many consecutive bytes as the register has leave it different.\<close>

lemma burst:
  assumes "foldl feed s (us @ bs @ vs) = foldl feed s (us @ cs @ vs)" and "length bs = length cs" and "8 * length bs \<le> LENGTH('a)"
  shows "bs = cs"
proof -
  let ?s = "foldl feed s us"
  have "foldl feed ?s bs = foldl feed ?s cs" using assms(1) by (auto dest: feed_inj)
  then have "?s XOR join bs = ?s XOR join cs"
    using assms(2,3) by (simp add: feed_join) (blast dest: power_inj)
  then have "?s XOR (?s XOR join bs) = ?s XOR (?s XOR join cs)" by simp
  then show ?thesis using join_inj [where ?'a = 'a] assms(2,3) by (simp flip: xor.assoc)
qed

lemma four_bytes:
  "foldl feed 0 [c0, c1, c2, c3] = (F ^^ 4) (ucast c0) XOR (F ^^ 3) (ucast c1) XOR (F ^^ 2) (ucast c2) XOR F (ucast c3)"
  by (simp add: feed_def lin eval_nat_numeral xor.assoc)

definition tabulates :: "'a word list \<Rightarrow> bool" where
  "tabulates T \<longleftrightarrow> T = concat (map (\<lambda>k. span (map (\<lambda>j. (F ^^ k) (2 ^ j)) (rev [0..<8]))) [1, 2, 3, 4])"

lemma tabulatesI:
  assumes "map F [0x80, 0x40, 0x20, 0x10, 8, 4, 2, 1] = m1" and "map F m1 = m2" and "map F m2 = m3" and "map F m3 = m4"
    and "T = span m1 @ span m2 @ span m3 @ span m4"
  shows "tabulates T"
proof -
  have p: "(F ^^ 1) x = F x" "(F ^^ 2) x = F (F x)" "(F ^^ 3) x = F (F (F x))" "(F ^^ 4) x = F (F (F (F x)))" for x
    by (simp_all add: eval_nat_numeral)
  have b: "rev [0..<8] = [7, 6, 5, 4, 3, 2, 1, 0 :: nat]" by (simp add: upt_rec)
  show ?thesis unfolding tabulates_def b using assms(5) by (simp add: p flip: assms(1-4))
qed

lemma table_at:
  fixes b :: byte
  assumes "tabulates T"
  shows "T ! unat (ucast b :: 'a word) = F (ucast b)" "T ! (unat (ucast b :: 'a word) + 0x100) = (F ^^ 2) (ucast b)"
    "T ! (unat (ucast b :: 'a word) + 0x200) = (F ^^ 3) (ucast b)" "T ! (unat (ucast b :: 'a word) + 0x300) = (F ^^ 4) (ucast b)"
proof -
  have b: "unat b < 256" using unsigned_less [of b, where ?'a = nat] by simp
  have u: "unat (ucast b :: 'a word) = unat b"
    using less_le_trans [OF b, of "2 ^ LENGTH('a)"] power_increasing [OF wide, of "2 :: nat"]
    by (simp add: unsigned_ucast_eq take_bit_nat_eq_self_iff)
  have w: "(word_of_nat (unat b) :: 'a word) = ucast b" by simp
  show "T ! unat (ucast b :: 'a word) = F (ucast b)" "T ! (unat (ucast b :: 'a word) + 0x100) = (F ^^ 2) (ucast b)"
    "T ! (unat (ucast b :: 'a word) + 0x200) = (F ^^ 3) (ucast b)" "T ! (unat (ucast b :: 'a word) + 0x300) = (F ^^ 4) (ucast b)"
    using b assms unfolding tabulates_def span_lin u by (simp_all add: nth_append w del: upt_Suc)
qed

lemma table_step_feed: "tabulates T \<Longrightarrow> table_step T s b = feed s b"
proof -
  assume t: "tabulates T"
  let ?x = "ucast (ucast s XOR b) :: 'a word"
  have x: "(s AND 0xff) XOR ucast b = ?x"
    using wide by (subst byte_mask) (auto simp: bit_simps intro!: bit_word_eqI dest: byte_bit)
  have "s XOR ucast b = (push_bit 8 (drop_bit 8 s)) XOR ?x"
    using wide by (auto simp: bit_simps not_le intro!: bit_word_eqI dest: byte_bit)
  moreover have "F (push_bit 8 (drop_bit 8 s)) = drop_bit 8 s"
    by (subst shift, subst byte_mask) (auto simp: bit_simps intro!: bit_word_eqI dest: bit_imp_le_length)
  ultimately show ?thesis using t by (simp add: table_step_def x feed_def lin table_at)
qed

end

section \<open>The loops\<close>

lemma align_loop_fold: "align_loop f a s bs = (s', bs') \<Longrightarrow> foldl f s bs = foldl f s' bs'"
  by (induction f a s bs rule: align_loop.induct) (auto split: if_splits)

lemma block_loop_fold:
  assumes "\<And>s w. length w = 4 \<Longrightarrow> g s (join32 w) = foldl f s w"
  shows "block_loop g s bs = (s', bs') \<Longrightarrow> foldl f s bs = foldl f s' bs'"
  using assms
proof (induction g s bs rule: block_loop.induct)
  case (1 g s bs)
  show ?case
  proof (cases "length bs \<ge> 16")
    case True
    let ?s = "g (g (g (g s (word_of bs 0)) (word_of bs 1)) (word_of bs 2)) (word_of bs 3)"
    have "take 16 bs = take 4 bs @ take 4 (drop 4 bs) @ take 4 (drop 8 bs) @ take 4 (drop 12 bs)"
      using take_add [of 4 12 bs] take_add [of 4 8 "drop 4 bs"] take_add [of 4 4 "drop 8 bs"] by simp
    then have "foldl f s (take 16 bs) = ?s" using True by (simp add: word_of_def 1(3))
    moreover have "foldl f ?s (drop 16 bs) = foldl f s' bs'"
      using True 1(1) [OF True _ 1(3)] 1(2) by (simp add: block_loop.simps [of g s])
    ultimately show ?thesis by (metis append_take_drop_id foldl_append)
  next
    case False
    with 1(2) show ?thesis by (simp add: block_loop.simps [of g s])
  qed
qed

lemma crc_upd_fold:
  assumes "\<And>s w. length w = 4 \<Longrightarrow> g s (join32 w) = foldl f s w"
  shows "crc_upd f g a s bs = foldl f s bs"
  by (auto simp: crc_upd_def split: prod.splits dest!: align_loop_fold block_loop_fold [OF assms, rotated])

section \<open>The two registers\<close>

text \<open>One bit of a register that shifts right, and of one that shifts left.\<close>

definition lsb_step :: "'a::len word \<Rightarrow> 'a word \<Rightarrow> 'a word" where
  "lsb_step p s = (if bit s 0 then drop_bit 1 s XOR p else drop_bit 1 s)"

definition msb_step :: "'a::len word \<Rightarrow> 'a word \<Rightarrow> 'a word" where
  "msb_step p s = (if bit s (LENGTH('a) - 1) then push_bit 1 s XOR p else push_bit 1 s)"

definition byte_swap :: "16 word \<Rightarrow> 16 word" where
  "byte_swap v = drop_bit 8 v OR push_bit 8 (v AND 0xff)"

definition F32 :: "32 word \<Rightarrow> 32 word" where
  "F32 = lsb_step 0xEDB88320 ^^ 8"

definition F16 :: "16 word \<Rightarrow> 16 word" where
  "F16 v = byte_swap ((msb_step 0x1021 ^^ 8) (byte_swap v))"

text \<open>What the two check sums stand for: the remainders as their polynomials define them.\<close>

definition crc32_spec :: "byte list \<Rightarrow> 32 word" where
  "crc32_spec bs = NOT (foldl (\<lambda>s b. (lsb_step 0xEDB88320 ^^ 8) (s XOR ucast b)) 0xffffffff bs)"

definition ccitt_spec :: "byte list \<Rightarrow> 16 word" where
  "ccitt_spec bs = foldl (\<lambda>s b. (msb_step 0x1021 ^^ 8) (s XOR push_bit 8 (ucast b))) 0xffff bs"

lemma xor_cancel: "x XOR p = y XOR p \<longleftrightarrow> x = (y :: 'a::len word)"
  by (metis xor.assoc xor.right_neutral xor_self_eq)

lemma funpow_xor:
  fixes f :: "'a::len word \<Rightarrow> 'a word"
  shows "(\<And>x y. f (x XOR y) = f x XOR f y) \<Longrightarrow> (f ^^ n) (x XOR y) = (f ^^ n) x XOR (f ^^ n) y"
  by (induction n) simp_all

lemma funpow_inj:
  fixes f :: "'a::len word \<Rightarrow> 'a word"
  shows "(\<And>x y. f x = f y \<Longrightarrow> x = y) \<Longrightarrow> (f ^^ n) x = (f ^^ n) y \<Longrightarrow> x = y"
  by (induction n) auto

lemma lsb_step_xor: "lsb_step p (x XOR y) = lsb_step p x XOR lsb_step p y"
  by (auto simp: lsb_step_def drop_bit_xor bit_simps intro!: bit_word_eqI)

lemma msb_step_xor: "msb_step p (x XOR y) = msb_step p x XOR msb_step p y"
  by (auto simp: msb_step_def push_bit_xor bit_simps intro!: bit_word_eqI)

lemma lsb_step_inj:
  assumes "lsb_step p x = lsb_step p y" and "bit p (LENGTH('a) - 1)"
  shows "x = (y :: 'a::len word)"
proof (rule bit_word_eqI)
  fix n assume n: "n < LENGTH('a)"
  have top: "bit (lsb_step p z) (LENGTH('a) - 1) = bit z 0" for z :: "'a word"
    using assms(2) by (auto simp: lsb_step_def bit_simps)
  then have 0: "bit x 0 = bit y 0" using assms(1) by metis
  then have "drop_bit 1 x = drop_bit 1 y"
    using assms(1) by (auto simp: lsb_step_def xor_cancel split: if_splits)
  then have "bit x (Suc m) = bit y (Suc m)" for m
    by (metis bit_drop_bit_eq comp_apply plus_1_eq_Suc)
  with 0 show "bit x n = bit y n" by (cases n) auto
qed

lemma msb_step_inj:
  assumes "msb_step p x = msb_step p y" and "bit p 0"
  shows "x = (y :: 'a::len word)"
proof (rule bit_word_eqI)
  fix n assume n: "n < LENGTH('a)"
  have low: "bit (msb_step p z) 0 = bit z (LENGTH('a) - 1)" for z :: "'a word"
    using assms(2) by (auto simp: msb_step_def bit_xor_iff bit_push_bit_iff simp del: push_bit_Suc push_bit_numeral)
  then have 0: "bit x (LENGTH('a) - 1) = bit y (LENGTH('a) - 1)" using assms(1) by metis
  then have "push_bit 1 x = push_bit 1 y"
    using assms(1) by (auto simp: msb_step_def xor_cancel split: if_splits)
  then have "bit (push_bit 1 x) (Suc n) = bit (push_bit 1 y) (Suc n)" by simp
  moreover have "n = LENGTH('a) - 1" if "\<not> Suc n < LENGTH('a)" using n that by simp
  ultimately show "bit x n = bit y n" using 0
    by (cases "Suc n < LENGTH('a)") (auto simp: bit_simps simp del: push_bit_Suc push_bit_numeral)
qed

lemma not_bit_16: "16 \<le> n \<Longrightarrow> \<not> bit (v :: 16 word) n"
  using bit_imp_le_length [of v n] by auto

lemma byte_swap_swap [simp]: "byte_swap (byte_swap v) = v"
  unfolding byte_swap_def byte_mask
  by (auto simp: bit_simps not_bit_16 intro!: bit_word_eqI)

lemma byte_swap_xor: "byte_swap (x XOR y) = byte_swap x XOR byte_swap y"
  unfolding byte_swap_def byte_mask
  by (auto simp: bit_simps not_bit_16 intro!: bit_word_eqI)

lemma lsb_steps_shift: "n \<le> 8 \<Longrightarrow> x AND mask 8 = 0 \<Longrightarrow> (lsb_step p ^^ n) x = drop_bit n x"
proof (induction n)
  case (Suc n)
  then have "\<not> bit (x AND mask 8) n" by simp
  then have "\<not> bit x n" using Suc.prems(1) bit_imp_le_length [of x n] by (auto simp: bit_simps)
  then show ?case using Suc by (simp add: lsb_step_def bit_simps)
qed simp

lemma msb_steps_shift: "n \<le> 8 \<Longrightarrow> drop_bit 8 x = 0 \<Longrightarrow> (msb_step p ^^ n) x = push_bit n (x :: 16 word)"
proof (induction n)
  case (Suc n)
  then have "\<not> bit (drop_bit 8 x) (7 - n)" by simp
  then have "\<not> bit x (15 - n)" using Suc.prems(1) by (simp add: bit_simps)
  then show ?case using Suc by (simp add: msb_step_def bit_simps)
qed simp

interpretation r32: linear_register F32
proof
  show "F32 (x XOR y) = F32 x XOR F32 y" for x y
    unfolding F32_def by (intro funpow_xor lsb_step_xor)
  show "F32 x = F32 y \<Longrightarrow> x = y" for x y
    unfolding F32_def by (erule funpow_inj [rotated], erule lsb_step_inj) simp
  show "x AND 0xff = 0 \<Longrightarrow> F32 x = drop_bit 8 x" for x
    unfolding F32_def by (simp add: byte_mask lsb_steps_shift)
qed simp

interpretation r16: linear_register F16
proof
  show "F16 (x XOR y) = F16 x XOR F16 y" for x y
    unfolding F16_def by (simp add: byte_swap_xor funpow_xor [OF msb_step_xor])
  show "F16 x = F16 y \<Longrightarrow> x = y" for x y
  proof -
    assume "F16 x = F16 y"
    then have "(msb_step 0x1021 ^^ 8) (byte_swap x) = (msb_step 0x1021 ^^ 8) (byte_swap y)"
      unfolding F16_def by (metis byte_swap_swap)
    then have "byte_swap x = byte_swap y" by (rule funpow_inj [rotated]) (erule msb_step_inj, simp)
    then show "x = y" by (metis byte_swap_swap)
  qed
  show "F16 x = drop_bit 8 x" if "x AND 0xff = 0" for x
  proof -
    have "drop_bit 8 (byte_swap x) = 0"
      using that unfolding byte_swap_def byte_mask by (auto simp: bit_simps not_bit_16 intro!: bit_word_eqI)
    then have "F16 x = byte_swap (push_bit 8 (byte_swap x))" by (simp add: F16_def msb_steps_shift)
    also have "\<dots> = drop_bit 8 x"
    proof (rule bit_word_eqI)
      fix n
      show "bit (byte_swap (push_bit 8 (byte_swap x))) n = bit (drop_bit 8 x) n"
        using not_bit_16 [of "8 + n" x] unfolding byte_swap_def byte_mask by (cases "n < 8") (auto simp: bit_simps)
    qed
    finally show ?thesis .
  qed
qed simp

section \<open>The tables\<close>

lemma steps8: "(f ^^ 8) x = f (f (f (f (f (f (f (f x)))))))"
  by (simp add: eval_nat_numeral)

lemma F32_basis:
  "map F32 [0x80, 0x40, 0x20, 0x10, 8, 4, 2, 1 :: 32 word] = [0xedb88320, 0x76dc4190, 0x3b6e20c8, 0x1db71064, 0xedb8832, 0x76dc419, 0xee0e612c, 0x77073096]"
  "map F32 [0xedb88320, 0x76dc4190, 0x3b6e20c8, 0x1db71064, 0xedb8832, 0x76dc419, 0xee0e612c, 0x77073096] = [0x3b83984b, 0xf0794f05, 0x958424a2, 0x4ac21251, 0xc8d98a08, 0x646cc504, 0x32366282, 0x191b3141]"
  "map F32 [0x3b83984b, 0xf0794f05, 0x958424a2, 0x4ac21251, 0xc8d98a08, 0x646cc504, 0x32366282, 0x191b3141] = [0xe1351b80, 0x709a8dc0, 0x384d46e0, 0x1c26a370, 0xe1351b8, 0x709a8dc, 0x384d46e, 0x1c26a37]"
  "map F32 [0xe1351b80, 0x709a8dc0, 0x384d46e0, 0x1c26a370, 0xe1351b8, 0x709a8dc, 0x384d46e, 0x1c26a37] = [0xed59b63b, 0x9b14583d, 0xa032af3e, 0x5019579f, 0xc5b428ef, 0x8f629757, 0xaa09c88b, 0xb8bc6765]"
  unfolding F32_def list.map steps8 by (simp_all add: lsb_step_def)

lemma F16_basis:
  "map F16 [0x80, 0x40, 0x20, 0x10, 8, 4, 2, 1 :: 16 word] = [0x8891, 0xc448, 0x6224, 0x3112, 0x881, 0x8440, 0x4220, 0x2110]"
  "map F16 [0x8891, 0xc448, 0x6224, 0x3112, 0x881, 0x8440, 0x4220, 0x2110] = [0x981b, 0xcc0d, 0xe606, 0x7303, 0xa989, 0xc4cc, 0x6266, 0x3133]"
  "map F16 [0x981b, 0xcc0d, 0xe606, 0x7303, 0xa989, 0xc4cc, 0x6266, 0x3133] = [0x5a3b, 0xad1d, 0xc686, 0x6343, 0xa1a9, 0xc0dc, 0x606e, 0x3037]"
  "map F16 [0x5a3b, 0xad1d, 0xc686, 0x6343, 0xa1a9, 0xc0dc, 0x606e, 0x3037] = [0x38dd, 0x9c6e, 0x4e37, 0xa71b, 0xc385, 0xf1ca, 0x68ed, 0xb476]"
  unfolding F16_def list.map steps8 by (simp_all add: byte_swap_def msb_step_def)

lemma crc32_tabulated: "r32.tabulates crc_table_crc32_big"
  by (rule r32.tabulatesI [OF F32_basis]) (simp add: crc_table_crc32_big_def)

lemma ccitt_tabulated: "r16.tabulates crc_table_ccitt"
  by (rule r16.tabulatesI [OF F16_basis]) (simp add: crc_table_ccitt_def)

section \<open>Equivalence\<close>

lemma unat_ucast_byte: "16 \<le> LENGTH('a) \<Longrightarrow> unat (ucast (b :: byte) :: 'a::len word) = unat b"
  using less_le_trans [OF unsigned_less [of b, where ?'a = nat], of "2 ^ LENGTH('a)"] power_increasing [of 8 "LENGTH('a)" "2 :: nat"]
  by (simp add: unsigned_ucast_eq take_bit_nat_eq_self_iff)

lemma list4: "length w = 4 \<longleftrightarrow> (\<exists>a b c d. w = [a, b, c, d])"
  by (auto simp: length_Suc_conv eval_nat_numeral)

lemma join32_join: "length w = 4 \<Longrightarrow> join32 w = (join w :: 32 word)"
  by (auto simp: list4 join32_def bit_simps not_bit_byte intro!: bit_word_eqI)

lemma bytes_of_32:
  "(v :: 32 word) AND 0xff = ucast (ucast v :: byte)" "drop_bit 8 v AND 0xff = ucast (ucast (drop_bit 8 v) :: byte)"
  "drop_bit 16 v AND 0xff = ucast (ucast (drop_bit 16 v) :: byte)" "drop_bit 24 v AND 0xff = ucast (ucast (drop_bit 24 v) :: byte)"
  by (subst byte_mask; auto simp: bit_simps intro!: bit_word_eqI)+

lemma crc_n4d_feed:
  assumes "length w = 4"
  shows "crc_n4d crc_table_crc32_big s (join32 w) = foldl r32.feed s w"
proof -
  let ?c = "s XOR join32 w"
  have "foldl r32.feed s w = (F32 ^^ 4) ?c"
    using assms by (simp add: r32.feed_join join32_join)
  also have "\<dots> = (F32 ^^ 4) (0 XOR join (le32b ?c))"
    by (simp flip: join32_join)
  also have "\<dots> = foldl r32.feed 0 (le32b ?c)" by (simp add: r32.feed_join)
  finally show ?thesis
    unfolding crc_n4d_def Let_def bytes_of_32 r32.table_at [OF crc32_tabulated] le32b_def r32.four_bytes
    by simp
qed

lemma crc_n4_feed:
  assumes "length w = 4"
  shows "crc_n4 crc_table_ccitt s (join32 w) = foldl r16.feed s w"
proof -
  obtain b0 b1 b2 b3 where w: "w = [b0, b1, b2, b3]" using assms by (auto simp: list4)
  let ?d = "join32 w" and ?c = "s XOR ucast (join32 w)"
  have c: "?c = s XOR join [b0, b1]"
    unfolding w by (auto simp: join32_def bit_simps not_bit_byte intro!: bit_word_eqI)
  have d: "drop_bit 16 ?d AND 0xff = ucast b2" "drop_bit 24 ?d = ucast b3"
    unfolding w byte_mask by (auto simp: join32_def bit_simps not_bit_byte intro!: bit_word_eqI dest: byte_bit)
  have lo: "?c AND 0xff = ucast (ucast ?c :: byte)" "drop_bit 8 ?c AND 0xff = ucast (ucast (drop_bit 8 ?c) :: byte)"
    unfolding byte_mask by (auto simp: bit_simps intro!: bit_word_eqI)
  have "join (le16b ?c) = ?c"
    by (auto simp: le16b_def bit_simps not_bit_16 intro!: bit_word_eqI)
  then have "foldl r16.feed s [b0, b1] = foldl r16.feed 0 (le16b ?c)"
    using r16.feed_join [of "[b0, b1]" s] r16.feed_join [of "le16b ?c" 0] by (simp add: c numeral_2_eq_2)
  then have "foldl r16.feed s w = foldl r16.feed 0 (le16b ?c @ [b2, b3])" by (simp add: w)
  also have "\<dots> = crc_n4 crc_table_ccitt s ?d"
    using r16.table_at [OF ccitt_tabulated]
    unfolding crc_n4_def Let_def lo d le16b_def append.simps r16.four_bytes by (simp add: unat_ucast_byte)
  finally show ?thesis by simp
qed

lemma fold_feed: "crc_upd (table_step crc_table_crc32_big) (crc_n4d crc_table_crc32_big) a s bs = foldl r32.feed s bs"
  "crc_upd (table_step crc_table_ccitt) (crc_n4 crc_table_ccitt) a t bs = foldl r16.feed t bs"
proof -
  have "table_step crc_table_crc32_big = r32.feed" "table_step crc_table_ccitt = r16.feed"
    using r32.table_step_feed [OF crc32_tabulated] r16.table_step_feed [OF ccitt_tabulated] by (simp_all add: fun_eq_iff)
  then show "crc_upd (table_step crc_table_crc32_big) (crc_n4d crc_table_crc32_big) a s bs = foldl r32.feed s bs"
    "crc_upd (table_step crc_table_ccitt) (crc_n4 crc_table_ccitt) a t bs = foldl r16.feed t bs"
    by (simp_all add: crc_upd_fold crc_n4d_feed crc_n4_feed)
qed

lemma REV16_swap: "ucast (REV16 (ucast (v :: 16 word))) = byte_swap v"
  unfolding REV16_def byte_swap_def byte_mask
  by (auto simp: bit_simps not_bit_16 intro!: bit_word_eqI)

lemma swapped_feed: "foldl r16.feed (byte_swap s) bs = byte_swap (foldl (\<lambda>s b. (msb_step 0x1021 ^^ 8) (s XOR push_bit 8 (ucast b))) s bs)"
proof (induction bs arbitrary: s)
  case (Cons b bs)
  have "byte_swap (ucast b) = push_bit 8 (ucast b)"
    unfolding byte_swap_def byte_mask by (auto simp: bit_simps not_bit_byte intro!: bit_word_eqI)
  then have "r16.feed (byte_swap s) b = byte_swap ((msb_step 0x1021 ^^ 8) (s XOR push_bit 8 (ucast b)))"
    by (simp add: r16.feed_def F16_def byte_swap_xor)
  with Cons show ?case by simp
qed simp

lemma crc32_fold: "crc32 a bs = NOT (foldl r32.feed 0xffffffff bs)"
  by (simp add: crc32_def crc32_upd_def fold_feed Let_def)

lemma ccitt_fold: "ccitt a bs = byte_swap (foldl r16.feed 0xffff bs)"
  by (simp add: ccitt_def ccitt_upd_def fold_feed Let_def REV16_swap)

text \<open>
  C14.  The table-driven check sums are the polynomial remainders they stand for: for any data at any
  address, aligned or not, \<open>ccitt\<close> is the bit-by-bit CRC-16 of polynomial 0x1021 and \<open>crc32\<close> the
  bit-by-bit CRC-32 of polynomial 0x04C11DB7, all 2048 table entries and the four-byte steps
  included.
\<close>

theorem check_sums_are_remainders: "ccitt a bs = ccitt_spec bs \<and> crc32 a bs = crc32_spec bs"
proof -
  have "byte_swap 0xffff = 0xffff" by (simp add: byte_swap_def)
  then have "foldl r16.feed 0xffff bs = byte_swap (ccitt_spec bs)"
    using swapped_feed [of "0xffff" bs] by (simp add: ccitt_spec_def)
  moreover have "r32.feed = (\<lambda>s b. (lsb_step 0xEDB88320 ^^ 8) (s XOR ucast b))"
    by (intro ext, subst r32.feed_def) (simp only: F32_def)
  ultimately show ?thesis by (simp add: ccitt_fold crc32_fold crc32_spec_def)
qed

text \<open>The check values given with the code, of the nine digits.\<close>

lemma check_values:
  "ccitt_spec (map (\<lambda>i. 0x31 + word_of_nat i) [0..<9]) = 0x29b1"
  "crc32_spec (map (\<lambda>i. 0x31 + word_of_nat i) [0..<9]) = 0xcbf43926"
proof -
  have d: "map (\<lambda>i. 0x31 + word_of_nat i) [0..<9] = [0x31, 0x32, 0x33, 0x34, 0x35, 0x36, 0x37, 0x38, 0x39 :: byte]"
    by (simp add: upt_rec)
  show "ccitt_spec (map (\<lambda>i. 0x31 + word_of_nat i) [0..<9]) = 0x29b1"
    unfolding d ccitt_spec_def foldl.simps steps8 by (simp add: msb_step_def)
  show "crc32_spec (map (\<lambda>i. 0x31 + word_of_nat i) [0..<9]) = 0xcbf43926"
    unfolding d crc32_spec_def foldl.simps steps8 by (simp add: lsb_step_def)
qed

section \<open>Errors in a row\<close>

lemma crc32_burst:
  assumes "crc32 a (us @ bs @ vs) = crc32 b (us @ cs @ vs)" and "length bs = length cs" and "length bs \<le> 4"
  shows "bs = cs"
  using assms r32.burst [of "0xffffffff" us bs vs cs] by (simp add: crc32_fold)

lemma ccitt_burst:
  assumes "ccitt a (us @ bs @ vs) = ccitt b (us @ cs @ vs)" and "length bs = length cs" and "length bs \<le> 2"
  shows "bs = cs"
proof -
  have "foldl r16.feed 0xffff (us @ bs @ vs) = foldl r16.feed 0xffff (us @ cs @ vs)"
    using assms(1) unfolding ccitt_fold by (metis byte_swap_swap)
  then show ?thesis using assms(2,3) by (intro r16.burst [of "0xffff" us bs vs cs]) simp_all
qed

end
