(* ===== verification/SdkProtocol.thy ===== *)
theory SdkProtocol
  imports Crc
begin

text \<open>
  The packets of the lidar protocol (\<open>sdk_protocol.cpp\<close>, \<open>comm_port.cpp\<close>): a header of 18 bytes with its
  CRC-16, the CRC-32 of the data, the data.  Buffers are lists of bytes as long as the
  memory they have, so that a length field that points behind them is seen; the address of a
  buffer, on which the check sums' code depends but not their value, is an argument.
\<close>

section \<open>Packets\<close>

record CommPacket =
  protocol :: byte
  version :: byte
  seq_num :: "32 word"
  cmd_id :: "16 word"
  cmd_type :: byte
  sender_type :: byte
  cp_data :: "byte list"
  data_len :: "16 word"

definition kLidarSdk :: byte where
  "kLidarSdk = 0"

definition kSdkProtocolSof :: byte where
  "kSdkProtocolSof = 0xAA"

definition kSdkVer :: byte where
  "kSdkVer = 0"

definition GetPreambleLen :: "32 word" where
  "GetPreambleLen = 24"

definition GetPacketWrapperLen :: "32 word" where
  "GetPacketWrapperLen = 24"

text \<open>
  The new contents of the buffer and the length stored for the caller.  The six reserved bytes
  keep what the buffer had.
\<close>

definition Pack :: "nat \<Rightarrow> nat \<Rightarrow> byte list \<Rightarrow> 32 word \<Rightarrow> CommPacket \<Rightarrow> exn + (int \<times> byte list \<times> 32 word option)" where
  "Pack a b o_buf o_buf_size p =
     (if protocol p \<noteq> kLidarSdk then Inr (- 1, o_buf, None)
      else let len = ucast (ucast (data_len p) + GetPacketWrapperLen) :: 16 word; n = unat (data_len p) in
      sbind (write_at o_buf 0 ([kSdkProtocolSof, kSdkVer] @ le16b len)) (\<lambda>b1.
        if ucast len > o_buf_size then Inr (- 1, b1, None)
        else sbind (write_at b1 4 (le32b (seq_num p AND 0xFFFF) @ le16b (cmd_id p) @ [cmd_type p, sender_type p])) (\<lambda>b2.
             sbind (read_at b2 0 18) (\<lambda>h.
             sbind (write_at b2 18 (le16b (ccitt a h))) (\<lambda>b3.
             sbind (if data_len p = 0 then Inr 0 else sbind (read_at (cp_data p) 0 n) (\<lambda>d. Inr (crc32 b d))) (\<lambda>c.
             sbind (write_at b3 20 (le32b c)) (\<lambda>b4.
             sbind (read_at (cp_data p) 0 n) (\<lambda>d.
             sbind (write_at b4 24 d) (\<lambda>b5.
               Inr (0, b5, Some (ucast len)))))))))))"

text \<open>The fields of a header.\<close>

definition hdr_length :: "byte list \<Rightarrow> 16 word" where
  "hdr_length buf = join16 (drop 2 buf)"

definition hdr_crc16 :: "byte list \<Rightarrow> 16 word" where
  "hdr_crc16 buf = join16 (drop 18 buf)"

definition hdr_crc32 :: "byte list \<Rightarrow> 32 word" where
  "hdr_crc32 buf = join32 (drop 20 buf)"

definition CheckPreamble :: "nat \<Rightarrow> byte list \<Rightarrow> 32 word \<Rightarrow> exn + bool" where
  "CheckPreamble a buf buf_size =
     (if buf_size < GetPreambleLen then Inr False
      else sbind (read_at buf 0 24) (\<lambda>h.
        if h ! 0 \<noteq> kSdkProtocolSof then Inr False
        else if h ! 1 \<noteq> kSdkVer then Inr False
        else if ucast (hdr_length h) < GetPreambleLen then Inr False
        else if hdr_crc16 h \<noteq> ccitt a (take 18 h) then Inr False
        else let n = ucast (hdr_length h) - GetPacketWrapperLen in
          sbind (if n = 0 then Inr 0 else sbind (read_at buf 24 (unat n)) (\<lambda>d. Inr (crc32 (a + 24) d))) (\<lambda>c.
            Inr (hdr_crc32 h = c))))"

text \<open>The data of a parsed packet is what the buffer has behind the header.\<close>

definition ParsePacket :: "byte list \<Rightarrow> 32 word \<Rightarrow> exn + CommPacket option" where
  "ParsePacket buf buf_size =
     (if buf_size < GetPacketWrapperLen then Inr None
      else sbind (read_at buf 0 24) (\<lambda>h.
        Inr (Some \<lparr>protocol = kLidarSdk, version = h ! 1, seq_num = join32 (drop 4 h), cmd_id = join16 (drop 8 h),
                   cmd_type = h ! 10, sender_type = h ! 11, cp_data = drop 24 buf,
                   data_len = ucast (ucast (hdr_length h) - GetPacketWrapperLen)\<rparr>)))"

definition ParseCommStream :: "nat \<Rightarrow> byte list \<Rightarrow> 32 word \<Rightarrow> exn + CommPacket option" where
  "ParseCommStream a buf buf_size =
     sbind (CheckPreamble a buf buf_size) (\<lambda>ok. if \<not> ok then Inr None else ParsePacket buf buf_size)"

section \<open>A packet in memory\<close>

definition header :: "16 word \<Rightarrow> 32 word \<Rightarrow> 16 word \<Rightarrow> byte \<Rightarrow> byte \<Rightarrow> byte list \<Rightarrow> byte list" where
  "header len sq cid ty se rsvd = [kSdkProtocolSof, kSdkVer] @ le16b len @ le32b sq @ le16b cid @ [ty, se] @ rsvd"

lemma length_header [simp]: "length rsvd = 6 \<Longrightarrow> length (header len sq cid ty se rsvd) = 18"
  by (simp add: header_def)

text \<open>The words read from a packet in memory.\<close>

lemma header_fields:
  assumes "length rsvd = 6" and p: "p = header len sq cid ty se rsvd @ le16b c16 @ le32b c32 @ rest"
  shows "p ! 0 = kSdkProtocolSof" "p ! 1 = kSdkVer" "hdr_length p = len" "join32 (drop 4 p) = sq" "join16 (drop 8 p) = cid"
    "p ! 10 = ty" "p ! 11 = se" "hdr_crc16 p = c16" "hdr_crc32 p = c32" "take 18 p = header len sq cid ty se rsvd" "drop 24 p = rest"
proof -
  have d: "drop 2 p = le16b len @ drop 4 p" "drop 4 p = le32b sq @ drop 8 p" "drop 8 p = le16b cid @ drop 10 p"
    "drop 18 p = le16b c16 @ drop 20 p" "drop 20 p = le32b c32 @ drop 24 p"
    using assms(1) by (simp_all add: p header_def)
  then show "hdr_length p = len" "join32 (drop 4 p) = sq" "join16 (drop 8 p) = cid" "hdr_crc16 p = c16" "hdr_crc32 p = c32"
    by (simp_all only: hdr_length_def hdr_crc16_def hdr_crc32_def join_append)
  show "p ! 0 = kSdkProtocolSof" "p ! 1 = kSdkVer" "p ! 10 = ty" "p ! 11 = se"
    "take 18 p = header len sq cid ty se rsvd" "drop 24 p = rest"
    using assms(1) by (simp_all add: p header_def nth_append)
qed

lemma unat_length [simp]: "unat (ucast (l :: 16 word) :: 32 word) = unat l"
  using less_le_trans [OF unsigned_less [of l, where ?'a = nat], of "2 ^ 32"]
  by (simp add: unsigned_ucast_eq take_bit_nat_eq_self_iff)

lemma length_minus: "24 \<le> unat l \<Longrightarrow> unat (ucast (l :: 16 word) - 24 :: 32 word) = unat l - 24"
  by (subst unat_sub) (simp_all add: word_le_nat_alt)

text \<open>The check of a packet that is in memory as far as its length field says.\<close>

lemma CheckPreamble_eq:
  assumes "24 \<le> unat buf_size" and "24 \<le> length buf"
    and "24 \<le> unat (hdr_length buf)" and "unat (hdr_length buf) \<le> length buf"
  shows "CheckPreamble a buf buf_size = Inr (buf ! 0 = kSdkProtocolSof \<and> buf ! 1 = kSdkVer \<and> hdr_crc16 buf = ccitt a (take 18 buf)
    \<and> hdr_crc32 buf = (if unat (hdr_length buf) = 24 then 0 else crc32 (a + 24) (take (unat (hdr_length buf) - 24) (drop 24 buf))))"
proof -
  let ?h = "take 24 buf"
  have h: "hdr_length ?h = hdr_length buf" "hdr_crc16 ?h = hdr_crc16 buf" "hdr_crc32 ?h = hdr_crc32 buf"
    "?h ! 0 = buf ! 0" "?h ! 1 = buf ! 1" "take 18 ?h = take 18 buf"
    using assms(2) by (simp_all add: hdr_length_def hdr_crc16_def hdr_crc32_def join16_def join32_def)
  have n: "unat (ucast (hdr_length buf) - 24 :: 32 word) = unat (hdr_length buf) - 24"
    by (rule length_minus [OF assms(3)])
  have z: "ucast (hdr_length buf) = (24 :: 32 word) \<longleftrightarrow> unat (hdr_length buf) = 24"
    by (simp add: word_unat_eq_iff)
  have l: "\<not> buf_size < 24" "\<not> ucast (hdr_length buf) < (24 :: 32 word)"
    using assms(1,3) by (simp_all add: word_less_nat_alt)
  show ?thesis
    using assms(2,4) l unfolding CheckPreamble_def GetPreambleLen_def GetPacketWrapperLen_def Let_def
    by (simp add: h n z assms(3))
qed

section \<open>Writing and reading back\<close>

lemma write_at_block: "length us = off \<Longrightarrow> length bs = length ds \<Longrightarrow> write_at (us @ ds @ vs) off bs = Inr (us @ bs @ vs)"
  by simp

lemma packet_length:
  fixes l :: "16 word"
  assumes "24 + unat l < 65536"
  shows "(ucast (ucast l + 24 :: 32 word) :: 16 word) = word_of_nat (24 + unat l)"
    "unat (word_of_nat (24 + unat l) :: 16 word) = 24 + unat l"
proof -
  have "unat (ucast l + 24 :: 32 word) = 24 + unat l" using assms by (simp add: unat_word_ariths)
  then have "unat (ucast (ucast l + 24 :: 32 word) :: 16 word) = 24 + unat l"
    using assms by (simp add: unsigned_ucast_eq take_bit_nat_eq_self_iff)
  moreover show "unat (word_of_nat (24 + unat l) :: 16 word) = 24 + unat l"
    using assms by (simp add: unat_of_nat del: of_nat_add)
  ultimately show "(ucast (ucast l + 24 :: 32 word) :: 16 word) = word_of_nat (24 + unat l)"
    by (metis word_unat_eq_iff)
qed

lemma split_buffer:
  assumes "24 + n \<le> length buf"
  obtains d0 d4 r d18 d20 d24 rest where "buf = d0 @ d4 @ r @ d18 @ d20 @ d24 @ rest"
    and "length d0 = 4" and "length d4 = 8" and "length r = 6" and "length d18 = 2" and "length d20 = 4" and "length d24 = n"
proof
  let ?b4 = "drop 4 buf" let ?b12 = "drop 8 ?b4" let ?b18 = "drop 6 ?b12" let ?b20 = "drop 2 ?b18" let ?b24 = "drop 4 ?b20"
  show "buf = take 4 buf @ take 8 ?b4 @ take 6 ?b12 @ take 2 ?b18 @ take 4 ?b20 @ take n ?b24 @ drop n ?b24"
    by (simp only: append_take_drop_id)
qed (use assms in simp_all)

lemma Pack_eq:
  fixes n p buf
  defines "n \<equiv> unat (data_len p)"
  defines "h \<equiv> header (word_of_nat (24 + n)) (seq_num p AND 0xFFFF) (cmd_id p) (cmd_type p) (sender_type p) (take 6 (drop 12 buf))"
  assumes "protocol p = kLidarSdk" and s: "24 + n \<le> unat sz" and b: "unat sz \<le> length buf"
    and w: "24 + n < 65536" and d: "n \<le> length (cp_data p)"
  shows "Pack a b buf sz p = Inr (0, h @ le16b (ccitt a h) @ le32b (if n = 0 then 0 else crc32 b (take n (cp_data p)))
      @ take n (cp_data p) @ drop (24 + n) buf, Some (word_of_nat (24 + n)))"
proof -
  have "24 + n \<le> length buf" using s b by simp
  then obtain d0 d4 r d18 d20 d24 rest where buf: "buf = d0 @ d4 @ r @ d18 @ d20 @ d24 @ rest"
    and l: "length d0 = 4" "length d4 = 8" "length r = 6" "length d18 = 2" "length d20 = 4" "length d24 = n"
    by (rule split_buffer)
  note len = packet_length [OF w [unfolded n_def], folded n_def]
  have nf: "\<not> ucast (word_of_nat (24 + n) :: 16 word) > sz"
    using s by (simp add: word_less_nat_alt len(2) del: of_nat_add)
  have o: "ucast (word_of_nat (24 + n) :: 16 word) = (word_of_nat (24 + n) :: 32 word)"
    using w by (simp only: word_unat_eq_iff unat_length len(2)) (simp add: unat_of_nat del: of_nat_add)
  define A where "A = [kSdkProtocolSof, kSdkVer] @ le16b (word_of_nat (24 + n))"
  define B where "B = le32b (seq_num p AND 0xFFFF) @ le16b (cmd_id p) @ [cmd_type p, sender_type p]"
  define c where "c = (if n = 0 then 0 else crc32 b (take n (cp_data p)))"
  have AB: "length A = 4" "length B = 8" by (simp_all add: A_def B_def del: of_nat_add)
  have h: "h = A @ B @ r" using l by (simp add: h_def header_def buf A_def B_def del: of_nat_add)
  have steps:
    "write_at buf 0 A = Inr (A @ d4 @ r @ d18 @ d20 @ d24 @ rest)"
    "write_at (A @ d4 @ r @ d18 @ d20 @ d24 @ rest) 4 B = Inr (h @ d18 @ d20 @ d24 @ rest)"
    "read_at (h @ d18 @ d20 @ d24 @ rest) 0 18 = Inr h"
    "write_at (h @ d18 @ d20 @ d24 @ rest) 18 (le16b (ccitt a h)) = Inr (h @ le16b (ccitt a h) @ d20 @ d24 @ rest)"
    "(if data_len p = 0 then Inr 0 else Inr (crc32 b (take n (cp_data p)))) = (Inr c :: exn + 32 word)"
    "write_at (h @ le16b (ccitt a h) @ d20 @ d24 @ rest) 20 (le32b c) = Inr (h @ le16b (ccitt a h) @ le32b c @ d24 @ rest)"
    "read_at (cp_data p) 0 n = Inr (take n (cp_data p))"
    "write_at (h @ le16b (ccitt a h) @ le32b c @ d24 @ rest) 24 (take n (cp_data p)) =
       Inr (h @ le16b (ccitt a h) @ le32b c @ take n (cp_data p) @ rest)"
    using l AB d by (simp_all add: h buf c_def n_def unat_eq_0)
  have rest: "drop (24 + n) buf = rest" using l by (simp add: buf)
  show ?thesis
    unfolding Pack_def Let_def GetPacketWrapperLen_def n_def [symmetric] len(1) A_def [symmetric] B_def [symmetric] rest
    using assms(3) nf by (simp only: steps sbind_simps if_False not_True_eq_False simp_thms) (simp add: c_def o del: of_nat_add)
qed

text \<open>A packet in memory is parsed wherever it lies, with anything behind it.\<close>

lemma parse_packet:
  fixes n sq cid ty se r b
  defines "h \<equiv> header (word_of_nat (24 + n)) sq cid ty se r"
  assumes r: "length r = 6" and d: "length d = n" and w: "24 + n < 65536"
    and p: "p = h @ le16b (ccitt a h) @ le32b (if n = 0 then 0 else crc32 b d) @ d @ rest"
  shows "ParseCommStream a' p (word_of_nat (24 + n)) = Inr (Some \<lparr>protocol = kLidarSdk, version = kSdkVer,
      seq_num = sq, cmd_id = cid, cmd_type = ty, sender_type = se, cp_data = d @ rest, data_len = word_of_nat n\<rparr>)"
proof -
  note f = header_fields [OF r, of p, unfolded p h_def, OF refl, folded h_def, folded p]
  have "unat (word_of_nat n :: 16 word) = n" using w by (simp add: unat_of_nat)
  then have len: "unat (word_of_nat (24 + n) :: 16 word) = 24 + n"
    using packet_length(2) [of "word_of_nat n"] w by (simp del: of_nat_add)
  have l: "24 + n \<le> length p" using r d by (simp add: p h_def del: of_nat_add)
  have n: "unat (word_of_nat (24 + n) :: 32 word) = 24 + n" using w by (simp add: unat_of_nat del: of_nat_add)
  have k: "unat (hdr_length p) = 24 + n" unfolding f(3) by (rule len)
  have cs: "hdr_crc32 p = (if n = 0 then 0 else crc32 (a' + 24) (take n (drop 24 p)))"
    unfolding f using d by (simp add: crc32_fold)
  have "CheckPreamble a' p (word_of_nat (24 + n)) = Inr True"
    using l f(2) by (subst CheckPreamble_eq) (simp_all add: n k f(1,8,10) cs ccitt_fold del: of_nat_add)
  moreover have "\<not> (word_of_nat (24 + n) :: 32 word) < 24" by (simp only: word_less_nat_alt n) simp
  moreover have "hdr_length (take 24 p) = hdr_length p" "join32 (drop 4 (take 24 p)) = join32 (drop 4 p)"
    "join16 (drop 8 (take 24 p)) = join16 (drop 8 p)"
    using l by (simp_all add: hdr_length_def join16_def join32_def)
  moreover have "ucast (ucast (hdr_length p) - 24 :: 32 word) = (word_of_nat n :: 16 word)"
    using k w by (simp add: word_unat_eq_iff unsigned_ucast_eq length_minus unat_of_nat take_bit_nat_eq_self_iff)
  ultimately show ?thesis
    using l f(2) by (simp add: ParseCommStream_def ParsePacket_def GetPacketWrapperLen_def f del: of_nat_add)
qed

text \<open>Packing and parsing the bytes that were packed, wherever the two buffers lie; \<open>rest\<close> is \<open>[]\<close> for the bytes that are sent.\<close>

lemma Pack_parses:
  assumes "protocol p = kLidarSdk" and "24 + unat (data_len p) \<le> unat sz" and "unat sz \<le> length buf"
    and "24 + unat (data_len p) < 65536" and "unat (data_len p) \<le> length (cp_data p)"
  obtains us where "Pack a b buf sz p = Inr (0, us @ drop (24 + unat (data_len p)) buf, Some (word_of_nat (24 + unat (data_len p))))"
    and "length us = 24 + unat (data_len p)"
    and "\<And>a' rest. ParseCommStream a' (us @ rest) (word_of_nat (24 + unat (data_len p))) = Inr (Some \<lparr>protocol = kLidarSdk, version = kSdkVer,
      seq_num = seq_num p AND 0xFFFF, cmd_id = cmd_id p, cmd_type = cmd_type p, sender_type = sender_type p,
      cp_data = take (unat (data_len p)) (cp_data p) @ rest, data_len = data_len p\<rparr>)"
proof
  let ?n = "unat (data_len p)" and ?r = "take 6 (drop 12 buf)" and ?d = "take (unat (data_len p)) (cp_data p)"
  define h where "h = header (word_of_nat (24 + ?n)) (seq_num p AND 0xFFFF) (cmd_id p) (cmd_type p) (sender_type p) ?r"
  define us where "us = h @ le16b (ccitt a h) @ le32b (if ?n = 0 then 0 else crc32 b ?d) @ ?d"
  have r: "length ?r = 6" using assms(2,3) by simp
  show "Pack a b buf sz p = Inr (0, us @ drop (24 + ?n) buf, Some (word_of_nat (24 + ?n)))"
    using Pack_eq [OF assms, of a b] by (simp add: us_def h_def del: of_nat_add)
  show "length us = 24 + ?n" using r assms(5) by (simp add: us_def h_def del: of_nat_add)
  show "ParseCommStream a' (us @ rest) (word_of_nat (24 + ?n)) = Inr (Some \<lparr>protocol = kLidarSdk, version = kSdkVer,
      seq_num = seq_num p AND 0xFFFF, cmd_id = cmd_id p, cmd_type = cmd_type p, sender_type = sender_type p,
      cp_data = ?d @ rest, data_len = data_len p\<rparr>)" for a' rest
    using parse_packet [OF r _ assms(4), of ?d "us @ rest" "seq_num p AND 0xFFFF" "cmd_id p" "cmd_type p" "sender_type p" a b rest a'] assms(5)
    by (simp add: us_def h_def del: of_nat_add)
qed

text \<open>
  C13.  What one side packs the other parses: a packet whose data fit the buffer is packed without
  error, the bytes pass the check wherever they come to lie, and parsing them gives back every
  field and the data, the sequence number cut to 16 bits.
\<close>

theorem packet_roundtrip:
  assumes "protocol p = kLidarSdk" and "24 + unat (data_len p) \<le> unat sz" and "unat sz \<le> length buf"
    and "24 + unat (data_len p) < 65536" and "unat (data_len p) \<le> length (cp_data p)"
  shows "\<exists>out n q. Pack a b buf sz p = Inr (0, out, Some n) \<and> length out = length buf \<and> unat n = 24 + unat (data_len p)
    \<and> ParseCommStream a' out n = Inr (Some q)
    \<and> protocol q = protocol p \<and> version q = kSdkVer \<and> seq_num q = seq_num p AND 0xFFFF \<and> cmd_id q = cmd_id p
    \<and> cmd_type q = cmd_type p \<and> sender_type q = sender_type p \<and> data_len q = data_len p
    \<and> take (unat (data_len q)) (cp_data q) = take (unat (data_len p)) (cp_data p)"
proof -
  let ?n = "unat (data_len p)"
  obtain us where us: "Pack a b buf sz p = Inr (0, us @ drop (24 + ?n) buf, Some (word_of_nat (24 + ?n)))" "length us = 24 + ?n"
    "\<And>a' rest. ParseCommStream a' (us @ rest) (word_of_nat (24 + ?n)) = Inr (Some \<lparr>protocol = kLidarSdk, version = kSdkVer,
      seq_num = seq_num p AND 0xFFFF, cmd_id = cmd_id p, cmd_type = cmd_type p, sender_type = sender_type p,
      cp_data = take ?n (cp_data p) @ rest, data_len = data_len p\<rparr>)"
    using Pack_parses [OF assms] by blast
  moreover have "unat (word_of_nat (24 + ?n) :: 32 word) = 24 + ?n" using assms(4) by (simp add: unat_of_nat del: of_nat_add)
  moreover have "length (us @ drop (24 + ?n) buf) = length buf" using us(2) assms(2,3) by simp
  ultimately show ?thesis using assms(1,5) by (simp del: of_nat_add)
qed

definition example_packet :: CommPacket where
  "example_packet = \<lparr>protocol = 0, version = 0, seq_num = 7, cmd_id = 0x0102, cmd_type = 0, sender_type = 1,
     cp_data = [1, 2, 3], data_len = 3\<rparr>"

theorem packet_roundtrip_witness:
  "\<exists>out n q. Pack 0 0 (replicate 40 0) 40 example_packet = Inr (0, out, Some n) \<and> ParseCommStream 1 out n = Inr (Some q)
     \<and> seq_num q = 7 \<and> cmd_id q = 0x0102 \<and> take 3 (cp_data q) = [1, 2, 3]"
proof -
  have "protocol example_packet = kLidarSdk" "24 + unat (data_len example_packet) \<le> unat (40 :: 32 word)"
    "unat (40 :: 32 word) \<le> length (replicate 40 (0 :: byte))" "24 + unat (data_len example_packet) < 65536"
    "unat (data_len example_packet) \<le> length (cp_data example_packet)"
    by (simp_all add: example_packet_def kLidarSdk_def)
  note r = packet_roundtrip [OF this, of 0 0 1]
  have "seq_num example_packet AND 0xFFFF = 7" "cmd_id example_packet = 0x0102" "unat (data_len example_packet) = 3"
    "take 3 (cp_data example_packet) = [1, 2, 3]"
    by (simp_all add: example_packet_def)
  then show ?thesis using r by auto
qed

section \<open>Corrupted packets\<close>

text \<open>The places where a change of neighbouring bytes cannot cancel out.\<close>

definition detectable :: "nat \<Rightarrow> nat \<Rightarrow> bool" where
  "detectable i m \<longleftrightarrow> (i + m \<le> 18 \<and> m \<le> 2) \<or> (18 \<le> i \<and> i + m \<le> 20) \<or> (20 \<le> i \<and> i + m \<le> 24) \<or> (24 \<le> i \<and> m \<le> 4)"

lemma CheckPreamble_header:
  assumes "24 \<le> length buf" and "hdr_crc16 buf \<noteq> ccitt a (take 18 buf)"
  shows "CheckPreamble a buf sz = Inr False"
proof -
  have c: "hdr_crc16 (take 24 buf) = hdr_crc16 buf" "take 18 (take 24 buf) = take 18 buf"
    using assms(1) by (simp_all add: hdr_crc16_def join16_def)
  have r: "read_at buf 0 24 = Inr (take 24 buf)" using assms(1) by simp
  show ?thesis
    by (simp only: CheckPreamble_def r sbind_simps c assms(2) not_False_eq_True if_True if_cancel)
qed

lemma CheckPreamble_data:
  assumes "24 \<le> unat sz" and "24 \<le> length buf" and "unat (hdr_length buf) = length buf"
    and "hdr_crc32 buf \<noteq> (if length buf = 24 then 0 else crc32 (a + 24) (drop 24 buf))"
  shows "CheckPreamble a buf sz = Inr False"
proof -
  have t: "take (length buf - 24) (drop 24 buf) = drop 24 buf" by simp
  show ?thesis
    by (subst CheckPreamble_eq) (use assms(1-3) in simp, use assms(2) in simp, use assms(2,3) in simp, use assms(3) in simp,
      simp only: t assms(3,4) simp_thms)
qed

lemma joined_eq:
  "join16 xs = join16 ys \<Longrightarrow> 2 \<le> length xs \<Longrightarrow> 2 \<le> length ys \<Longrightarrow> take 2 xs = take 2 ys"
  "join32 xs = join32 ys \<Longrightarrow> 4 \<le> length xs \<Longrightarrow> 4 \<le> length ys \<Longrightarrow> take 4 xs = take 4 ys"
proof -
  assume "join16 xs = join16 ys" "2 \<le> length xs" "2 \<le> length ys"
  then show "take 2 xs = take 2 ys"
    using le16b_join16 [of "take 2 xs"] le16b_join16 [of "take 2 ys"] by (simp add: join16_def)
next
  assume "join32 xs = join32 ys" "4 \<le> length xs" "4 \<le> length ys"
  then show "take 4 xs = take 4 ys"
    using le32b_join32 [of "take 4 xs"] le32b_join32 [of "take 4 ys"] by (simp add: join32_def)
qed

text \<open>What a changed header check sum, header and check sum of the data mean, one by one.\<close>

lemma header_differs:
  assumes "hdr_crc16 (us @ bs @ vs) = ccitt a (take 18 (us @ bs @ vs))" and "length cs = length bs" and "cs \<noteq> bs"
    and "24 \<le> length (us @ bs @ vs)"
    and "length us + length bs \<le> 18 \<and> length bs \<le> 2 \<or> 18 \<le> length us \<and> length us + length bs \<le> 20"
  shows "hdr_crc16 (us @ cs @ vs) \<noteq> ccitt a (take 18 (us @ cs @ vs))"
  using assms(5)
proof
  assume w: "length us + length bs \<le> 18 \<and> length bs \<le> 2"
  let ?v = "take (18 - (length us + length bs)) vs"
  have "drop 18 (us @ xs @ vs) = drop (18 - (length us + length bs)) vs" "take 18 (us @ xs @ vs) = us @ xs @ ?v"
    if "length xs = length bs" for xs using that w by auto
  moreover have "ccitt a (us @ cs @ ?v) \<noteq> ccitt a (us @ bs @ ?v)"
    using ccitt_burst [of a us cs ?v a bs] assms(2,3) w by auto
  ultimately show ?thesis using assms(1,2) by (simp add: hdr_crc16_def)
next
  assume w: "18 \<le> length us \<and> length us + length bs \<le> 20"
  then have t: "take 2 (drop 18 (us @ xs @ vs)) = drop 18 us @ xs @ take (20 - (length us + length bs)) vs" "take 18 (us @ xs @ vs) = take 18 us"
    if "length xs = length bs" for xs using that conjunct1 [OF w] conjunct2 [OF w] by simp_all
  show ?thesis
  proof
    assume "hdr_crc16 (us @ cs @ vs) = ccitt a (take 18 (us @ cs @ vs))"
    then have "hdr_crc16 (us @ cs @ vs) = hdr_crc16 (us @ bs @ vs)"
      using assms(1) unfolding t(2) [OF assms(2)] t(2) [OF refl] by (rule trans [OF _ sym])
    then have "take 2 (drop 18 (us @ cs @ vs)) = take 2 (drop 18 (us @ bs @ vs))"
      using assms(2,4) unfolding hdr_crc16_def by (intro joined_eq) simp_all
    then show False using t(1) [of cs] t(1) [of bs] assms(2,3) by simp
  qed
qed

text \<open>
  C15.  Corruption is noticed: of a packet that passes the check, change one or two neighbouring bytes
  of the header, or the check sum of the header, or that of the data, or up to four
  neighbouring bytes of the data; the packet is rejected, and without a read behind the buffer.
\<close>

theorem corruption_is_detected:
  assumes "CheckPreamble a p (word_of_nat (length p)) = Inr True" and "length p = unat (hdr_length p)"
    and "p = us @ bs @ vs" and "length cs = length bs" and "cs \<noteq> bs" and "detectable (length us) (length bs)"
  shows "CheckPreamble a (us @ cs @ vs) (word_of_nat (length p)) = Inr False"
proof -
  let ?n = "word_of_nat (length p) :: 32 word"
  define q where "q = us @ cs @ vs"
  have "length p < 2 ^ 16" using unsigned_less [of "hdr_length p", where ?'a = nat] by (simp add: assms(2))
  then have sz: "unat ?n = length p" by (simp add: unat_of_nat)
  have len: "24 \<le> length p"
    using assms(1) sz by (auto simp: CheckPreamble_def GetPreambleLen_def word_less_nat_alt not_less split: if_splits)
  have ok: "p ! 0 = kSdkProtocolSof" "p ! 1 = kSdkVer" "hdr_crc16 p = ccitt a (take 18 p)"
    "hdr_crc32 p = (if length p = 24 then 0 else crc32 (a + 24) (drop 24 p))"
    using assms(1) len sz by (simp_all add: CheckPreamble_eq flip: assms(2))
  have l': "length q = length p" by (simp add: assms(3,4) q_def)
  consider (front) "length us + length bs \<le> 18 \<and> length bs \<le> 2 \<or> 18 \<le> length us \<and> length us + length bs \<le> 20"
    | (crc) "20 \<le> length us" "length us + length bs \<le> 24" | (data) "24 \<le> length us" "length bs \<le> 4"
    using assms(6) by (auto simp: detectable_def)
  then have "CheckPreamble a q ?n = Inr False"
  proof cases
    case front
    then show ?thesis
      using header_differs [of us bs vs a cs] ok(3) assms(3-5) len l' by (intro CheckPreamble_header) (simp_all add: q_def)
  next
    case crc
    then have same: "hdr_length q = hdr_length p" "drop 24 q = drop 24 p"
      using assms(3,4) by (auto simp: q_def hdr_length_def join16_def nth_append)
    have t: "take 4 (drop 20 (us @ xs @ vs)) = drop 20 us @ xs @ take (24 - (length us + length bs)) vs" if "length xs = length bs" for xs
      using crc that by simp
    have "hdr_crc32 q \<noteq> hdr_crc32 p"
    proof
      assume "hdr_crc32 q = hdr_crc32 p"
      then have "take 4 (drop 20 q) = take 4 (drop 20 p)"
        using len l' unfolding hdr_crc32_def by (intro joined_eq) simp_all
      then show False using t [of cs] t [of bs] assms(3-5) by (simp add: q_def)
    qed
    then have "hdr_crc32 q \<noteq> (if length q = 24 then 0 else crc32 (a + 24) (drop 24 q))"
      by (simp only: l' same ok(4) [symmetric] not_False_eq_True)
    then show ?thesis using len sz l' assms(2) same by (intro CheckPreamble_data) simp_all
  next
    case data
    then have same: "hdr_length q = hdr_length p" "hdr_crc32 q = hdr_crc32 p"
      using assms(3,4) by (auto simp: q_def nth_append hdr_length_def hdr_crc32_def join16_def join32_def)
    have d: "drop 24 (us @ xs @ vs) = drop 24 us @ xs @ vs" for xs using data by simp
    have "0 < length bs" using assms(4,5) by auto
    with data(1) have "24 < length us + (length bs + length vs)" by linarith
    then have "length p \<noteq> 24" using assms(3) by simp
    moreover have "crc32 (a + 24) (drop 24 q) \<noteq> crc32 (a + 24) (drop 24 p)"
      using crc32_burst [of "a + 24" "drop 24 us" cs vs "a + 24" bs] data assms(3-5) d by (auto simp: q_def)
    ultimately show ?thesis using len sz l' ok(4) assms(2) same by (intro CheckPreamble_data) simp_all
  qed
  then show ?thesis by (simp only: q_def)
qed

definition example_front :: "byte list" where
  "example_front = header 27 7 0x0102 0 1 (replicate 6 0) @ le16b (ccitt 0 (header 27 7 0x0102 0 1 (replicate 6 0)))
     @ le32b (crc32 24 [1, 2, 3]) @ [1, 2]"

lemma example_front:
  "length example_front = 26" "CheckPreamble 0 (example_front @ [3]) 27 = Inr True" "hdr_length (example_front @ [3]) = 27"
proof -
  have p: "example_front @ [3] = header 27 7 0x0102 0 1 (replicate 6 0) @ le16b (ccitt 0 (header 27 7 0x0102 0 1 (replicate 6 0)))
     @ le32b (crc32 24 [1, 2, 3]) @ [1, 2, 3]"
    by (simp add: example_front_def)
  have r: "length (replicate 6 (0 :: byte)) = 6" by simp
  note f = header_fields [OF r p]
  show l: "length example_front = 26" by (simp add: example_front_def)
  show "hdr_length (example_front @ [3]) = 27" by (rule f(3))
  show "CheckPreamble 0 (example_front @ [3]) 27 = Inr True"
  proof (subst CheckPreamble_eq)
    show "unat (hdr_length (example_front @ [3])) \<le> length (example_front @ [3])" unfolding f(3) by (simp add: l)
    have "take (unat (27 :: 16 word) - 24) [1, 2, 3] = [1, 2, 3 :: byte]" "unat (27 :: 16 word) \<noteq> 24" by simp_all
    then show "Inr ((example_front @ [3]) ! 0 = kSdkProtocolSof \<and> (example_front @ [3]) ! 1 = kSdkVer
      \<and> hdr_crc16 (example_front @ [3]) = ccitt 0 (take 18 (example_front @ [3]))
      \<and> hdr_crc32 (example_front @ [3]) = (if unat (hdr_length (example_front @ [3])) = 24 then 0
          else crc32 (0 + 24) (take (unat (hdr_length (example_front @ [3])) - 24) (drop 24 (example_front @ [3]))))) = Inr True"
      unfolding f by (simp only: if_False simp_thms add_0)
  qed (simp_all add: l f(3))
qed

theorem corruption_is_detected_witness:
  "CheckPreamble 0 (example_front @ [3]) 27 = Inr True \<and> CheckPreamble 0 (example_front @ [4]) 27 = Inr False"
proof -
  have l: "length (example_front @ [3]) = 27" by (simp add: example_front(1))
  have w: "word_of_nat (length (example_front @ [3])) = (27 :: 32 word)" by (simp only: l) simp
  have "length (example_front @ [3]) = unat (hdr_length (example_front @ [3]))" unfolding l example_front(3) by simp
  moreover have "detectable (length example_front) (length [3 :: byte])" by (simp add: detectable_def example_front(1))
  ultimately have "CheckPreamble 0 (example_front @ [4] @ []) (word_of_nat (length (example_front @ [3]))) = Inr False"
    using example_front(2) unfolding w [symmetric] by (intro corruption_is_detected [where bs = "[3]"]) simp_all
  then show ?thesis using example_front(2) unfolding w by simp
qed

section \<open>The length field\<close>

text \<open>
  The check reads behind the received bytes exactly for a header that is itself in order and
  whose length field says more than there is; the size the caller gives is only used to see
  that a header is there.
\<close>

theorem check_reads_behind_the_buffer:
  "CheckPreamble a buf sz = Inl e \<longleftrightarrow> e = Bad_index \<and> 24 \<le> unat sz \<and>
     (length buf < 24 \<or> buf ! 0 = kSdkProtocolSof \<and> buf ! 1 = kSdkVer \<and> 24 \<le> unat (hdr_length buf)
        \<and> hdr_crc16 buf = ccitt a (take 18 buf) \<and> length buf < unat (hdr_length buf))"
proof -
  consider (small) "unat sz < 24" | (short) "24 \<le> unat sz" "length buf < 24" | (ok) "24 \<le> unat sz" "24 \<le> length buf" by linarith
  then show ?thesis
  proof cases
    case small
    then show ?thesis by (simp add: CheckPreamble_def GetPreambleLen_def word_less_nat_alt)
  next
    case short
    then show ?thesis by (auto simp: CheckPreamble_def GetPreambleLen_def word_less_nat_alt read_at_def)
  next
    case ok
    have c: "hdr_length (take 24 buf) = hdr_length buf" "hdr_crc16 (take 24 buf) = hdr_crc16 buf" "take 18 (take 24 buf) = take 18 buf"
      using ok(2) by (simp_all add: hdr_length_def hdr_crc16_def join16_def)
    have n: "24 \<le> unat (hdr_length buf) \<Longrightarrow> unat (ucast (hdr_length buf) - 24 :: 32 word) = unat (hdr_length buf) - 24"
      by (rule length_minus)
    have z: "ucast (hdr_length buf) = (24 :: 32 word) \<longleftrightarrow> unat (hdr_length buf) = 24" by (simp add: word_unat_eq_iff)
    show ?thesis
      using ok by (auto simp: CheckPreamble_def GetPreambleLen_def GetPacketWrapperLen_def word_less_nat_alt c n z read_at_def)
  qed
qed

end
