(* ===== verification/LidarState.thy ===== *)
theory LidarState
  imports SdkProtocol Text
begin

text \<open>
  The state reports of the lidar (\<open>parse_lidar_state_info.cpp\<close>): a list of keys and values in a
  packet is copied into the packed structure \<open>DirectLidarStateInfo\<close>, and the structure is written
  as JSON.  The structure is its bytes, so that a value which is longer than its
  member is seen to overwrite the members behind it.
\<close>

section \<open>Keys and the structure\<close>

datatype ParamKeyName =
    kKeyPclDataType | kKeyPatternMode | kKeyDualEmitEn | kKeyPointSendEn | kKeyLidarIpCfg | kKeyStateInfoHostIpCfg
  | kKeyLidarPointDataHostIpCfg | kKeyLidarImuHostIpCfg | kKeyCtlHostIpCfg | kKeyLogHostIpCfg | kKeyVehicleSpeed
  | kKeyEnvironmentTemp | kKeyInstallAttitude | kKeyBlindSpotSet | kKeyFrameRate | kKeyFovCfg0 | kKeyFovCfg1 | kKeyFovCfgEn
  | kKeyDetectMode | kKeyFuncIoCfg | kKeyWorkMode | kKeyGlassHeat | kKeyImuDataEn | kKeyFusaEn | kKeyForceHeatEn
  | kKeyLogParamSet | kKeySn | kKeyProductInfo | kKeyVersionApp | kKeyVersionLoader | kKeyVersionHardware | kKeyMac
  | kKeyCurWorkState | kKeyCoreTemp | kKeyPowerUpCnt | kKeyLocalTimeNow | kKeyLastSyncTime | kKeyTimeOffset
  | kKeyTimeSyncType | kKeyStatusCode | kKeyLidarDiagStatus | kKeyLidarFlashStatus | kKeyFwType | kKeyHmsCode | kKeyRoiMode
  | kKeyLidarDiagInfoQuery

definition key_codes :: "(ParamKeyName \<times> 16 word) list" where
  "key_codes =
    [(kKeyPclDataType, 0x0000), (kKeyPatternMode, 0x0001), (kKeyDualEmitEn, 0x0002), (kKeyPointSendEn, 0x0003),
     (kKeyLidarIpCfg, 0x0004), (kKeyStateInfoHostIpCfg, 0x0005), (kKeyLidarPointDataHostIpCfg, 0x0006),
     (kKeyLidarImuHostIpCfg, 0x0007), (kKeyCtlHostIpCfg, 0x0008), (kKeyLogHostIpCfg, 0x0009),
     (kKeyVehicleSpeed, 0x0010), (kKeyEnvironmentTemp, 0x0011), (kKeyInstallAttitude, 0x0012), (kKeyBlindSpotSet, 0x0013),
     (kKeyFrameRate, 0x0014), (kKeyFovCfg0, 0x0015), (kKeyFovCfg1, 0x0016), (kKeyFovCfgEn, 0x0017), (kKeyDetectMode, 0x0018),
     (kKeyFuncIoCfg, 0x0019), (kKeyWorkMode, 0x001A), (kKeyGlassHeat, 0x001B), (kKeyImuDataEn, 0x001C), (kKeyFusaEn, 0x001D),
     (kKeyForceHeatEn, 0x001E), (kKeyLogParamSet, 0x7FFF),
     (kKeySn, 0x8000), (kKeyProductInfo, 0x8001), (kKeyVersionApp, 0x8002), (kKeyVersionLoader, 0x8003),
     (kKeyVersionHardware, 0x8004), (kKeyMac, 0x8005), (kKeyCurWorkState, 0x8006), (kKeyCoreTemp, 0x8007),
     (kKeyPowerUpCnt, 0x8008), (kKeyLocalTimeNow, 0x8009), (kKeyLastSyncTime, 0x800A), (kKeyTimeOffset, 0x800B),
     (kKeyTimeSyncType, 0x800C), (kKeyStatusCode, 0x800D), (kKeyLidarDiagStatus, 0x800E), (kKeyLidarFlashStatus, 0x800F),
     (kKeyFwType, 0x8010), (kKeyHmsCode, 0x8011), (kKeyRoiMode, 0xFFFE), (kKeyLidarDiagInfoQuery, 0xFFFF)]"

definition key_code :: "ParamKeyName \<Rightarrow> 16 word" where
  "key_code k = the (map_of key_codes k)"

definition key_of :: "16 word \<Rightarrow> ParamKeyName option" where
  "key_of c = map_of (map (\<lambda>(k, c). (c, k)) key_codes) c"

text \<open>The members in their order, each named by the key it is for, with their sizes.\<close>

definition DirectLidarStateInfo :: "(ParamKeyName \<times> nat) list" where
  "DirectLidarStateInfo =
    [(kKeyPclDataType, 1), (kKeyPatternMode, 1), (kKeyDualEmitEn, 1), (kKeyPointSendEn, 1), (kKeyLidarIpCfg, 48),
     (kKeyStateInfoHostIpCfg, 20), (kKeyLidarPointDataHostIpCfg, 20), (kKeyLidarImuHostIpCfg, 20), (kKeyCtlHostIpCfg, 20),
     (kKeyLogHostIpCfg, 20), (kKeyVehicleSpeed, 4), (kKeyEnvironmentTemp, 4), (kKeyInstallAttitude, 24),
     (kKeyBlindSpotSet, 4), (kKeyFrameRate, 1), (kKeyFovCfg0, 20), (kKeyFovCfg1, 20), (kKeyFovCfgEn, 1), (kKeyDetectMode, 1),
     (kKeyFuncIoCfg, 4), (kKeyWorkMode, 1), (kKeyGlassHeat, 1), (kKeyImuDataEn, 1), (kKeyFusaEn, 1), (kKeySn, 16),
     (kKeyProductInfo, 64), (kKeyVersionApp, 4), (kKeyVersionLoader, 4), (kKeyVersionHardware, 4), (kKeyMac, 6),
     (kKeyCurWorkState, 1), (kKeyCoreTemp, 4), (kKeyPowerUpCnt, 4), (kKeyLocalTimeNow, 8), (kKeyLastSyncTime, 8),
     (kKeyTimeOffset, 8), (kKeyTimeSyncType, 1), (kKeyStatusCode, 32), (kKeyLidarDiagStatus, 2), (kKeyLidarFlashStatus, 1),
     (kKeyFwType, 1), (kKeyHmsCode, 32), (kKeyRoiMode, 1)]"

fun offset_in :: "('k \<times> nat) list \<Rightarrow> 'k \<Rightarrow> nat" where
  "offset_in [] k = 0"
| "offset_in ((k', n) # l) k = (if k' = k then 0 else n + offset_in l k)"

fun size_in :: "('k \<times> nat) list \<Rightarrow> 'k \<Rightarrow> nat" where
  "size_in [] k = 0"
| "size_in ((k', n) # l) k = (if k' = k then n else size_in l k)"

abbreviation off_of :: "ParamKeyName \<Rightarrow> nat" where
  "off_of \<equiv> offset_in DirectLidarStateInfo"

abbreviation size_of :: "ParamKeyName \<Rightarrow> nat" where
  "size_of \<equiv> size_in DirectLidarStateInfo"

definition info_size :: nat where
  "info_size = sum_list (map snd DirectLidarStateInfo)"

abbreviation member_of :: "byte list \<Rightarrow> ParamKeyName \<Rightarrow> byte list" where
  "member_of info k \<equiv> take (size_of k) (drop (off_of k) info)"

section \<open>Parsing\<close>

definition text_bytes :: "string \<Rightarrow> byte list" where
  "text_bytes s = map of_char s"

definition dotted :: "byte list \<Rightarrow> string" where
  "dotted v = show_nat (unat (v ! 0)) @ ''.'' @ show_nat (unat (v ! 1)) @ ''.'' @ show_nat (unat (v ! 2)) @ ''.''
     @ show_nat (unat (v ! 3))"

definition strcpy :: "byte list \<Rightarrow> nat \<Rightarrow> string \<Rightarrow> exn + byte list" where
  "strcpy info off s = write_at info off (text_bytes s @ [0])"

definition ParseLidarIpAddr :: "byte list \<Rightarrow> 16 word \<Rightarrow> byte list \<Rightarrow> exn + byte list" where
  "ParseLidarIpAddr d off info =
     sbind (read_at d (unat off) 4) (\<lambda>ip.
     sbind (strcpy info (off_of kKeyLidarIpCfg) (dotted ip)) (\<lambda>i1.
     sbind (read_at d (unat (off + 4)) 4) (\<lambda>mask.
     sbind (strcpy i1 (off_of kKeyLidarIpCfg + 16) (dotted mask)) (\<lambda>i2.
     sbind (read_at d (unat (off + 8)) 4) (\<lambda>gw.
     strcpy i2 (off_of kKeyLidarIpCfg + 32) (dotted gw))))))"

text \<open>An address and two ports, in the member of key \<open>k\<close>.\<close>

definition ParseIpCfg :: "ParamKeyName \<Rightarrow> byte list \<Rightarrow> 16 word \<Rightarrow> byte list \<Rightarrow> exn + byte list" where
  "ParseIpCfg k d off info =
     sbind (read_at d (unat off) 4) (\<lambda>ip.
     sbind (strcpy info (off_of k) (dotted ip)) (\<lambda>i1.
     sbind (read_at d (unat (off + 4)) 2) (\<lambda>p.
     sbind (write_at i1 (off_of k + 16) p) (\<lambda>i2.
     sbind (read_at d (unat (off + 6)) 2) (\<lambda>q.
     write_at i2 (off_of k + 18) q)))))"

definition ParseStateInfoHostIPCfg :: "byte list \<Rightarrow> 16 word \<Rightarrow> byte list \<Rightarrow> exn + byte list" where
  "ParseStateInfoHostIPCfg = ParseIpCfg kKeyStateInfoHostIpCfg"

definition ParsePointCloudHostIpCfg :: "byte list \<Rightarrow> 16 word \<Rightarrow> byte list \<Rightarrow> exn + byte list" where
  "ParsePointCloudHostIpCfg = ParseIpCfg kKeyLidarPointDataHostIpCfg"

definition ParseImuDataHostIpCfg :: "byte list \<Rightarrow> 16 word \<Rightarrow> byte list \<Rightarrow> exn + byte list" where
  "ParseImuDataHostIpCfg = ParseIpCfg kKeyLidarImuHostIpCfg"

text \<open>The branches of the switch for the keys that have a member.\<close>

definition store_value :: "ParamKeyName \<Rightarrow> byte list \<Rightarrow> 16 word \<Rightarrow> 16 word \<Rightarrow> byte list \<Rightarrow> exn + byte list" where
  "store_value k d off val_len info =
     (if k = kKeyLidarIpCfg then ParseLidarIpAddr d off info
      else if k = kKeyStateInfoHostIpCfg then ParseStateInfoHostIPCfg d off info
      else if k = kKeyLidarPointDataHostIpCfg then ParsePointCloudHostIpCfg d off info
      else if k = kKeyLidarImuHostIpCfg then ParseImuDataHostIpCfg d off info
      else if k = kKeyCtlHostIpCfg then ParseIpCfg kKeyCtlHostIpCfg d off info
      else if k = kKeyLogHostIpCfg then ParseIpCfg kKeyLogHostIpCfg d off info
      else sbind (read_at d (unat off) (unat val_len)) (\<lambda>v. write_at info (off_of k) v))"

definition has_member :: "ParamKeyName \<Rightarrow> bool" where
  "has_member k \<longleftrightarrow> k \<in> fst ` set DirectLidarStateInfo"

text \<open>The keys still to come, the data, its length, the offset; the structure and the keys seen.\<close>

fun kv_loop :: "nat \<Rightarrow> byte list \<Rightarrow> 16 word \<Rightarrow> 16 word \<Rightarrow> byte list \<times> ParamKeyName set
    \<Rightarrow> exn + (bool \<times> byte list \<times> ParamKeyName set)" where
  "kv_loop 0 d len off (info, key_mask) = Inr (True, info, key_mask)"
| "kv_loop (Suc n) d len off (info, key_mask) =
     (if unat off + 5 > unat len then Inr (False, info, key_mask)
      else sbind (read_at d (unat off) 2) (\<lambda>kb.
           sbind (read_at d (unat (off + 2)) 2) (\<lambda>lb.
             let val_len = join16 lb in
             case key_of (join16 kb) of
               None \<Rightarrow> kv_loop n d len (off + 4 + val_len) (info, key_mask)
             | Some k \<Rightarrow>
                 if has_member k
                 then sbind (store_value k d (off + 4) val_len info)
                        (\<lambda>info'. kv_loop n d len (off + 4 + val_len) (info', insert k key_mask))
                 else kv_loop n d len (off + 4 + val_len) (info, key_mask))))"

definition ParseStateInfo :: "CommPacket \<Rightarrow> byte list \<Rightarrow> exn + (bool \<times> byte list \<times> ParamKeyName set)" where
  "ParseStateInfo p info =
     sbind (read_at (cp_data p) 0 2) (\<lambda>nb. kv_loop (unat (join16 nb)) (cp_data p) (data_len p) 4 (info, {}))"

section \<open>Members of a packed structure\<close>

lemma offset_bound: "(k, n) \<in> set l \<Longrightarrow> offset_in l k + size_in l k \<le> sum_list (map snd l)"
  by (induction l) auto

lemma offsets_disjoint:
  "(k, n) \<in> set l \<Longrightarrow> (k', n') \<in> set l \<Longrightarrow> k \<noteq> k' \<Longrightarrow>
   offset_in l k + size_in l k \<le> offset_in l k' \<or> offset_in l k' + size_in l k' \<le> offset_in l k"
  by (induction l) auto

lemma member_bounds:
  assumes "has_member k" shows "off_of k + size_of k \<le> info_size"
  using assms offset_bound unfolding has_member_def info_size_def by fastforce

definition splice :: "nat \<Rightarrow> 'a list \<Rightarrow> 'a list \<Rightarrow> 'a list" where
  "splice j bs m = take j m @ bs @ drop (j + length bs) m"

lemma length_splice [simp]: "j + length bs \<le> length m \<Longrightarrow> length (splice j bs m) = length m"
  by (simp add: splice_def)

lemma nth_splice:
  "j + length bs \<le> length m \<Longrightarrow> i < length m \<Longrightarrow>
   splice j bs m ! i = (if j \<le> i \<and> i < j + length bs then bs ! (i - j) else m ! i)"
  by (auto simp: splice_def nth_append min_def)

lemma splice_parts:
  assumes "j + length bs \<le> length m"
  shows "take j (splice j bs m) = take j m" "drop j (splice j bs m) = bs @ drop (j + length bs) m"
    "j + length bs \<le> n \<Longrightarrow> drop n (splice j bs m) = drop n m"
  using assms by (simp_all add: splice_def min_def)

lemma write_at_splice: "off + length bs \<le> length buf \<Longrightarrow> write_at buf off bs = Inr (splice off bs buf)"
  by (simp add: splice_def)

lemma take_drop_splice:
  assumes "o1 + j + length bs \<le> o1 + n" and "o1 + n \<le> length buf"
  shows "take n (drop o1 (splice (o1 + j) bs buf)) = splice j bs (take n (drop o1 buf))"
  by (rule nth_equalityI) (use assms in \<open>auto simp: nth_splice\<close>)

lemma take_drop_splice_other:
  assumes "o2 + n \<le> o1 \<or> o1 + length bs \<le> o2" and "o1 + length bs \<le> length buf" and "o2 + n \<le> length buf"
  shows "take n (drop o2 (splice o1 bs buf)) = take n (drop o2 buf)"
  by (rule nth_equalityI) (use assms in \<open>auto simp: nth_splice\<close>)

text \<open>A write inside a member: that member changes, no other does.\<close>

definition only_changes :: "ParamKeyName \<Rightarrow> byte list \<Rightarrow> byte list \<Rightarrow> bool" where
  "only_changes k info info' \<longleftrightarrow> length info' = length info \<and> (\<forall>k'. has_member k' \<longrightarrow> k' \<noteq> k \<longrightarrow> member_of info' k' = member_of info k')"

lemma only_changes_trans: "only_changes k i j \<Longrightarrow> only_changes k j l \<Longrightarrow> only_changes k i l"
  by (simp add: only_changes_def)

lemma write_member:
  assumes "has_member k" and "j + length bs \<le> size_of k" and "length info = info_size"
  shows "write_at info (off_of k + j) bs = Inr (splice (off_of k + j) bs info)"
    "only_changes k info (splice (off_of k + j) bs info)"
    "member_of (splice (off_of k + j) bs info) k = splice j bs (member_of info k)"
proof -
  note b = member_bounds [OF assms(1)]
  show "write_at info (off_of k + j) bs = Inr (splice (off_of k + j) bs info)"
    using b assms by (intro write_at_splice) simp
  show "member_of (splice (off_of k + j) bs info) k = splice j bs (member_of info k)"
    using b assms by (intro take_drop_splice) simp_all
  show "only_changes k info (splice (off_of k + j) bs info)"
    unfolding only_changes_def
  proof (intro conjI allI impI)
    fix k' assume k': "has_member k'" "k' \<noteq> k"
    with assms(1) have "off_of k + size_of k \<le> off_of k' \<or> off_of k' + size_of k' \<le> off_of k"
      unfolding has_member_def using offsets_disjoint by fastforce
    then show "member_of (splice (off_of k + j) bs info) k' = member_of info k'"
      using b member_bounds [OF k'(1)] assms by (intro take_drop_splice_other) auto
  qed (use b assms in simp)
qed

section \<open>Text in a member\<close>

definition c_string :: "byte list \<Rightarrow> byte list" where
  "c_string m = takeWhile (\<lambda>b. b \<noteq> 0) m"

lemma byte_of_char: "(of_char (char_of (n :: nat) :: char) :: byte) = of_nat (n mod 256)"
  using of_nat_of_char [of "char_of n :: char", where ?'a = byte] by simp

lemma show_nat_bytes: "b \<in> set (text_bytes (show_nat n)) \<Longrightarrow> b \<noteq> 0"
proof (induction n rule: show_nat.induct)
  case (1 n)
  have d: "(of_char (char_of (48 + m) :: char) :: byte) \<noteq> 0" if "m < 10" for m :: nat
  proof -
    have "unat (of_nat (48 + m) :: byte) = 48 + m" using that by (simp add: unat_of_nat del: of_nat_add)
    then have "(of_nat (48 + m) :: byte) \<noteq> 0" by (metis add_is_0 unat_0 zero_neq_numeral)
    then show ?thesis using that by (simp add: byte_of_char del: of_nat_add)
  qed
  show ?case
    using 1 d [of n] d [of "n mod 10"] by (subst (asm) (2) show_nat.simps) (auto simp: text_bytes_def split: if_splits)
qed

lemma length_show_nat: "n < 1000 \<Longrightarrow> length (show_nat n) \<le> 3"
  by (subst show_nat.simps, clarsimp, subst show_nat.simps, clarsimp, subst show_nat.simps) auto

lemma length_dotted: "length (dotted v) < 16"
proof -
  have "length (show_nat (unat (x :: byte))) \<le> 3" for x
    using unsigned_less [of x, where ?'a = nat] by (intro length_show_nat) simp
  from this [of "v ! 0"] this [of "v ! 1"] this [of "v ! 2"] this [of "v ! 3"] show ?thesis by (simp add: dotted_def)
qed

lemma dotted_bytes: "b \<in> set (text_bytes (dotted v)) \<Longrightarrow> b \<noteq> 0"
  using show_nat_bytes [of b] by (auto simp: dotted_def text_bytes_def of_char_def)

lemma c_string_text: "(\<And>b. b \<in> set t \<Longrightarrow> b \<noteq> 0) \<Longrightarrow> c_string (t @ 0 # m) = t"
  unfolding c_string_def by (simp add: takeWhile_tail)

text \<open>A member that holds a text with its terminator.\<close>

definition holds :: "byte list \<Rightarrow> byte list \<Rightarrow> bool" where
  "holds v m \<longleftrightarrow> take (Suc (length (dotted v))) m = text_bytes (dotted v) @ [0]"

lemma holds_c_string:
  assumes "holds v m" shows "c_string m = text_bytes (dotted v)"
proof -
  let ?n = "Suc (length (dotted v))"
  have "m = take ?n m @ drop ?n m" by (rule append_take_drop_id [symmetric])
  also have "\<dots> = text_bytes (dotted v) @ 0 # drop ?n m" using assms by (simp add: holds_def)
  finally have "c_string m = c_string (text_bytes (dotted v) @ 0 # drop ?n m)" by (rule arg_cong)
  also have "\<dots> = text_bytes (dotted v)" by (rule c_string_text [OF dotted_bytes])
  finally show ?thesis .
qed

lemma take_drop_prefix: "take n m' = take n m \<Longrightarrow> j + l \<le> n \<Longrightarrow> take l (drop j m') = take l (drop j m)"
  by (metis drop_take le_add_diff_inverse min.absorb1 take_drop take_take add.commute)

lemma holds_prefix: "holds v (drop j m) \<Longrightarrow> take n m' = take n m \<Longrightarrow> j + 16 \<le> n \<Longrightarrow> holds v (drop j m')"
  using length_dotted [of v] take_drop_prefix [of n m' m j "Suc (length (dotted v))"] by (simp add: holds_def)

lemma length_text_bytes [simp]: "length (text_bytes s) = length s"
  by (simp add: text_bytes_def)

lemma strcpy_member:
  assumes "has_member k" and "j + 16 \<le> size_of k" and "length info = info_size"
  obtains i' where "strcpy info (off_of k + j) (dotted v) = Inr i'" and "only_changes k info i'"
    and "holds v (drop j (member_of i' k))" and "take j (member_of i' k) = take j (member_of info k)"
    and "drop (j + 16) (member_of i' k) = drop (j + 16) (member_of info k)"
proof
  let ?t = "text_bytes (dotted v) @ [0]" and ?m = "member_of info k"
  let ?i = "splice (off_of k + j) ?t info"
  have l: "length ?t \<le> 16" using length_dotted [of v] by simp
  note w = write_member [OF assms(1) _ assms(3), of j ?t]
  have m: "length ?m = size_of k" using member_bounds [OF assms(1)] assms(3) by simp
  have j: "j + length ?t \<le> size_of k" using l assms(2) by simp
  show "strcpy info (off_of k + j) (dotted v) = Inr ?i" unfolding strcpy_def by (rule w(1) [OF j])
  show "only_changes k info ?i" by (rule w(2) [OF j])
  have s: "member_of ?i k = splice j ?t ?m" by (rule w(3) [OF j])
  note parts = splice_parts [of j ?t ?m, unfolded m, OF j]
  have dr: "drop j (splice j ?t ?m) = text_bytes (dotted v) @ 0 # drop (j + length ?t) ?m" unfolding parts(2) by simp
  show "holds v (drop j (member_of ?i k))"
    by (simp only: holds_def s dr) simp
  show "take j (member_of ?i k) = take j ?m" unfolding s by (rule parts(1))
  show "drop (j + 16) (member_of ?i k) = drop (j + 16) ?m" unfolding s using l by (intro parts(3)) simp
qed

section \<open>What a report leaves in the structure\<close>

lemma key_of_code [simp]: "key_of (key_code k) = Some k"
  by (cases k) (simp_all add: key_of_def key_code_def key_codes_def)

definition is_ip_key :: "ParamKeyName \<Rightarrow> bool" where
  "is_ip_key k \<longleftrightarrow> k \<in> {kKeyStateInfoHostIpCfg, kKeyLidarPointDataHostIpCfg, kKeyLidarImuHostIpCfg, kKeyCtlHostIpCfg, kKeyLogHostIpCfg}"

text \<open>The size of the value a lidar sends for a key, and what the member then shows of it.\<close>

definition value_size :: "ParamKeyName \<Rightarrow> nat" where
  "value_size k = (if k = kKeyLidarIpCfg then 12 else if is_ip_key k then 8 else size_of k)"

definition reported :: "ParamKeyName \<Rightarrow> byte list \<Rightarrow> byte list \<Rightarrow> bool" where
  "reported k v m \<longleftrightarrow>
     (if k = kKeyLidarIpCfg
      then c_string m = text_bytes (dotted (take 4 v)) \<and> c_string (drop 16 m) = text_bytes (dotted (take 4 (drop 4 v)))
        \<and> c_string (drop 32 m) = text_bytes (dotted (take 4 (drop 8 v)))
      else if is_ip_key k then c_string m = text_bytes (dotted (take 4 v)) \<and> take 2 (drop 16 m) = take 2 (drop 4 v)
        \<and> take 2 (drop 18 m) = take 2 (drop 6 v)
      else m = v)"

lemma member_sizes:
  "is_ip_key k \<Longrightarrow> has_member k \<and> size_of k = 20" "has_member kKeyLidarIpCfg" "size_of kKeyLidarIpCfg = 48"
  by (auto simp: is_ip_key_def has_member_def DirectLidarStateInfo_def)

lemma value_size_bounds: "has_member k \<Longrightarrow> 1 \<le> value_size k \<and> value_size k \<le> 64"
  by (cases k) (simp_all add: value_size_def is_ip_key_def has_member_def DirectLidarStateInfo_def)

lemma only_changes_length: "only_changes k i j \<Longrightarrow> length j = length i"
  by (simp add: only_changes_def)

lemma ParseLidarIpAddr_ok:
  assumes "length info = info_size" and "unat off + 12 < 65536" and "unat off + 12 \<le> length d"
  obtains i' where "ParseLidarIpAddr d off info = Inr i'" and "only_changes kKeyLidarIpCfg info i'"
    and "reported kKeyLidarIpCfg (take 12 (drop (unat off) d)) (member_of i' kKeyLidarIpCfg)"
proof -
  let ?k = kKeyLidarIpCfg and ?v = "take 12 (drop (unat off) d)"
  have u: "unat (off + 4) = unat off + 4" "unat (off + 8) = unat off + 8" using assms(2) by (simp_all add: unat_word_ariths)
  have r: "read_at d (unat off) 4 = Inr (take 4 ?v)" "read_at d (unat (off + 4)) 4 = Inr (take 4 (drop 4 ?v))"
    "read_at d (unat (off + 8)) 4 = Inr (take 4 (drop 8 ?v))"
    using assms(3) by (simp_all add: u take_drop add.commute)
  note ms = member_sizes(2,3)
  obtain i1 where i1: "strcpy info (off_of ?k + 0) (dotted (take 4 ?v)) = Inr i1" "only_changes ?k info i1"
    "holds (take 4 ?v) (drop 0 (member_of i1 ?k))"
    by (rule strcpy_member [OF ms(1) _ assms(1), of 0 "take 4 ?v"]) (simp_all add: ms)
  have l1: "length i1 = info_size" using i1(2) assms(1) by (simp add: only_changes_length)
  obtain i2 where i2: "strcpy i1 (off_of ?k + 16) (dotted (take 4 (drop 4 ?v))) = Inr i2" "only_changes ?k i1 i2"
    "holds (take 4 (drop 4 ?v)) (drop 16 (member_of i2 ?k))"
    "take 16 (member_of i2 ?k) = take 16 (member_of i1 ?k)"
    by (rule strcpy_member [OF ms(1) _ l1, of 16 "take 4 (drop 4 ?v)"]) (simp_all add: ms)
  have l2: "length i2 = info_size" using i2(2) l1 by (simp add: only_changes_length)
  obtain i3 where i3: "strcpy i2 (off_of ?k + 32) (dotted (take 4 (drop 8 ?v))) = Inr i3" "only_changes ?k i2 i3"
    "holds (take 4 (drop 8 ?v)) (drop 32 (member_of i3 ?k))"
    "take 32 (member_of i3 ?k) = take 32 (member_of i2 ?k)"
    by (rule strcpy_member [OF ms(1) _ l2, of 32 "take 4 (drop 8 ?v)"]) (simp_all add: ms)
  show thesis
  proof (rule that)
    show "ParseLidarIpAddr d off info = Inr i3"
      unfolding ParseLidarIpAddr_def r sbind_simps using i1(1) i2(1) i3(1) by simp
    show "only_changes ?k info i3" using i1(2) i2(2) i3(2) by (blast intro: only_changes_trans)
    show "reported ?k ?v (member_of i3 ?k)"
      using holds_prefix [OF i1(3) i2(4)] holds_prefix [of _ 0 "member_of i2 ?k" 32 "member_of i3 ?k"] i3(4)
        holds_prefix [OF i2(3) i3(4)] i3(3)
      by (simp add: reported_def holds_c_string)
  qed
qed

lemma ParseIpCfg_ok:
  assumes "is_ip_key k" and "length info = info_size" and "unat off + 8 < 65536" and "unat off + 8 \<le> length d"
  obtains i' where "ParseIpCfg k d off info = Inr i'" and "only_changes k info i'"
    and "reported k (take 8 (drop (unat off) d)) (member_of i' k)"
proof -
  let ?v = "take 8 (drop (unat off) d)"
  let ?p = "take 2 (drop 4 ?v)" and ?q = "take 2 (drop 6 ?v)"
  have u: "unat (off + 4) = unat off + 4" "unat (off + 6) = unat off + 6" using assms(3) by (simp_all add: unat_word_ariths)
  have r: "read_at d (unat off) 4 = Inr (take 4 ?v)" "read_at d (unat (off + 4)) 2 = Inr ?p" "read_at d (unat (off + 6)) 2 = Inr ?q"
    using assms(4) by (simp_all add: u take_drop add.commute)
  have ms: "has_member k" "size_of k = 20" using member_sizes(1) [OF assms(1)] by simp_all
  obtain i1 where i1: "strcpy info (off_of k + 0) (dotted (take 4 ?v)) = Inr i1" "only_changes k info i1"
    "holds (take 4 ?v) (drop 0 (member_of i1 k))"
    by (rule strcpy_member [OF ms(1) _ assms(2), of 0 "take 4 ?v"]) (simp_all add: ms)
  have l1: "length i1 = info_size" using i1(2) assms(2) by (simp add: only_changes_length)
  have lpq: "length ?p = 2" "length ?q = 2" using assms(4) by simp_all
  let ?i2 = "splice (off_of k + 16) ?p i1"
  note w2 = write_member [OF ms(1) _ l1, of 16 ?p]
  have l2: "length ?i2 = info_size" using w2(2) l1 lpq ms by (simp add: only_changes_length)
  let ?i3 = "splice (off_of k + 18) ?q ?i2"
  note w3 = write_member [OF ms(1) _ l2, of 18 ?q]
  show thesis
  proof (rule that)
    show "ParseIpCfg k d off info = Inr ?i3"
      unfolding ParseIpCfg_def r sbind_simps using i1(1) w2(1) w3(1) lpq ms by simp
    show "only_changes k info ?i3"
      using i1(2) w2(2) w3(2) lpq ms by (auto intro: only_changes_trans)
    have m: "member_of ?i2 k = splice 16 ?p (member_of i1 k)" "member_of ?i3 k = splice 18 ?q (member_of ?i2 k)"
      by (rule w2(3) w3(3); use lpq ms in simp)+
    have lm: "length (member_of i1 k) = 20" "length (member_of ?i2 k) = 20"
      using member_bounds [OF ms(1)] l1 l2 ms(2) by simp_all
    note parts = splice_parts [of 18 ?q "member_of ?i2 k", folded m(2)] splice_parts [of 16 ?p "member_of i1 k", folded m(1)]
    have t18: "take 18 (member_of ?i3 k) = take 18 (member_of ?i2 k)" by (rule parts(1)) (use lm lpq in linarith)
    have t16: "take 16 (member_of ?i2 k) = take 16 (member_of i1 k)" by (rule parts(4)) (use lm lpq in linarith)
    have d18: "take 2 (drop 18 (member_of ?i3 k)) = ?q" 
      by (subst parts(2), use lm lpq in linarith, simp only: append_take_drop_id lpq take_append diff_self_eq_0 take_0 append_Nil2 order_refl take_all)
    have d16: "take 2 (drop 16 (member_of ?i2 k)) = ?p" 
      by (subst parts(5), use lm lpq in linarith, simp only: append_take_drop_id lpq take_append diff_self_eq_0 take_0 append_Nil2 order_refl take_all)
    have "holds (take 4 ?v) (drop 0 (member_of ?i2 k))" by (rule holds_prefix [OF i1(3) t16]) simp
    then have h: "holds (take 4 ?v) (drop 0 (member_of ?i3 k))" by (rule holds_prefix [OF _ t18]) simp
    have p: "take 2 (drop 16 (member_of ?i3 k)) = ?p" by (rule trans [OF take_drop_prefix [OF t18] d16]) simp
    have "k \<noteq> kKeyLidarIpCfg" using assms(1) by (auto simp: is_ip_key_def)
    then show "reported k ?v (member_of ?i3 k)"
      using assms(1) holds_c_string [OF h] p d18 unfolding reported_def by (simp only: drop_0 if_True if_False simp_thms)
  qed
qed

lemma store_value_cases:
  "store_value kKeyLidarIpCfg d off n info = ParseLidarIpAddr d off info"
  "is_ip_key k \<Longrightarrow> store_value k d off n info = ParseIpCfg k d off info"
  "k \<noteq> kKeyLidarIpCfg \<Longrightarrow> \<not> is_ip_key k \<Longrightarrow>
     store_value k d off n info = sbind (read_at d (unat off) (unat n)) (\<lambda>v. write_at info (off_of k) v)"
  by (auto simp: store_value_def is_ip_key_def ParseStateInfoHostIPCfg_def ParsePointCloudHostIpCfg_def ParseImuDataHostIpCfg_def)

lemma store_value_ok:
  assumes "has_member k" and "length info = info_size" and "length v = value_size k"
    and "unat off + length v < 65536" and "take (length v) (drop (unat off) d) = v" and "unat off + length v \<le> length d"
  obtains i' where "store_value k d off (of_nat (length v)) info = Inr i'" and "only_changes k info i'"
    and "reported k v (member_of i' k)"
proof -
  consider (lidar) "k = kKeyLidarIpCfg" | (host) "is_ip_key k" "k \<noteq> kKeyLidarIpCfg" | (plain) "k \<noteq> kKeyLidarIpCfg" "\<not> is_ip_key k" by blast
  then show thesis
  proof cases
    case lidar
    have n: "length v = 12" using assms(3) by (simp add: lidar value_size_def)
    obtain i' where "ParseLidarIpAddr d off info = Inr i'" "only_changes kKeyLidarIpCfg info i'"
      "reported kKeyLidarIpCfg (take 12 (drop (unat off) d)) (member_of i' kKeyLidarIpCfg)"
      using ParseLidarIpAddr_ok [OF assms(2), of off d] assms(4,6) unfolding n by blast
    then show thesis using that [of i'] assms(5) unfolding n lidar store_value_cases(1) by simp
  next
    case host
    have n: "length v = 8" using assms(3) host by (simp add: value_size_def)
    obtain i' where "ParseIpCfg k d off info = Inr i'" "only_changes k info i'" "reported k (take 8 (drop (unat off) d)) (member_of i' k)"
      using ParseIpCfg_ok [OF host(1) assms(2), of off d] assms(4,6) unfolding n by blast
    then show thesis using that [of i'] assms(5) unfolding n store_value_cases(2) [OF host(1)] by simp
  next
    case plain
    then have sz: "length v = size_of k" using assms(3) by (simp add: value_size_def)
    then have "unat (of_nat (length v) :: 16 word) = length v"
      using value_size_bounds [OF assms(1)] assms(3) by (simp add: unat_of_nat)
    then have r: "read_at d (unat off) (unat (of_nat (length v) :: 16 word)) = Inr v" using assms(5,6) by simp
    have z: "0 + length v \<le> size_of k" by (simp add: sz)
    note w = write_member [OF assms(1) z assms(2)]
    have "splice 0 v (member_of info k) = v"
      using sz member_bounds [OF assms(1)] assms(2) by (simp add: splice_def)
    then show thesis
      using that [of "splice (off_of k + 0) v info"] w r plain
      by (simp add: store_value_cases(3) [OF plain] reported_def)
  qed
qed

definition entry :: "ParamKeyName \<times> byte list \<Rightarrow> byte list" where
  "entry e = le16b (key_code (fst e)) @ le16b (of_nat (length (snd e))) @ snd e"

lemma entry_eq: "entry (k, v) = le16b (key_code k) @ le16b (of_nat (length v)) @ v"
  by (simp add: entry_def)

definition well_sized :: "ParamKeyName \<times> byte list \<Rightarrow> bool" where
  "well_sized e \<longleftrightarrow> has_member (fst e) \<and> length (snd e) = value_size (fst e)"

text \<open>The last value of each key counts; members without a value keep what they had.\<close>

definition shows_values :: "(ParamKeyName \<times> byte list) list \<Rightarrow> byte list \<Rightarrow> byte list \<Rightarrow> bool" where
  "shows_values es info info' \<longleftrightarrow> (\<forall>k. has_member k \<longrightarrow>
     (case map_of (rev es) k of None \<Rightarrow> member_of info' k = member_of info k | Some v \<Rightarrow> reported k v (member_of info' k)))"

lemma shows_values_Cons:
  assumes "only_changes (fst e) info i1" and "reported (fst e) (snd e) (member_of i1 (fst e))" and "shows_values es i1 info'"
  shows "shows_values (e # es) info info'"
  using assms unfolding shows_values_def only_changes_def
  by (auto simp: map_add_def split: option.splits)

lemma kv_loop_entries:
  assumes "list_all well_sized es" and "drop (unat off) d = concat (map entry es) @ rest"
    and "unat off + length (concat (map entry es)) = unat len" and "length info = info_size"
  shows "\<exists>info'. kv_loop (length es) d len off (info, ks) = Inr (True, info', ks \<union> fst ` set es) \<and> length info' = info_size
    \<and> shows_values es info info'"
  using assms
proof (induction es arbitrary: off info ks)
  case Nil
  then show ?case by (simp add: shows_values_def)
next
  case (Cons e es)
  obtain k v where e: "e = (k, v)" by (cases e)
  have sz: "has_member k" "length v = value_size k" "1 \<le> length v" "length v \<le> 64"
    using Cons.prems(1) value_size_bounds [of k] by (auto simp: well_sized_def e)
  let ?r = "concat (map entry es) @ rest"
  have dr: "drop (unat off) d = le16b (key_code k) @ le16b (of_nat (length v)) @ v @ ?r"
    using Cons.prems(2) by (simp add: e entry_eq)
  have lenB: "unat off + 4 + length v + length (concat (map entry es)) = unat len"
    using Cons.prems(3) by (simp add: e entry_eq)
  have lt: "unat off + 4 + length v < 65536" using lenB unsigned_less [of len, where ?'a = nat] by simp
  have u: "unat (off + 2) = unat off + 2" "unat (off + 4) = unat off + 4" "unat (off + 4 + of_nat (length v)) = unat off + 4 + length v"
    using lt sz(4) by (simp_all add: unat_word_ariths unat_of_nat)
  have ld: "length d = unat off + length (drop (unat off) d)"
    using arg_cong [OF dr, of length] by (simp add: algebra_simps)
  have d4: "drop (unat off + 2) d = le16b (of_nat (length v)) @ v @ ?r" "drop (unat off + 4) d = v @ ?r" "drop (unat off + 4 + length v) d = ?r"
    using arg_cong [OF dr, of "drop 2"] arg_cong [OF dr, of "drop 4"] arg_cong [OF dr, of "drop (4 + length v)"]
    by (simp_all add: add.commute add.left_commute)
  have r: "read_at d (unat off) 2 = Inr (le16b (key_code k))" "read_at d (unat (off + 2)) 2 = Inr (le16b (of_nat (length v)))"
    unfolding read_at_eq_Inr u dr d4 using ld dr by simp_all
  obtain i1 where i1: "store_value k d (off + 4) (of_nat (length v)) info = Inr i1" "only_changes k info i1"
    "reported k v (member_of i1 k)"
    by (rule store_value_ok [OF sz(1) Cons.prems(4) sz(2), of "off + 4" d]) (use lt ld dr d4 in \<open>simp_all add: u\<close>)
  have l1: "length i1 = info_size" using i1(2) Cons.prems(4) by (simp add: only_changes_length)
  obtain info' where f: "kv_loop (length es) d len (off + 4 + of_nat (length v)) (i1, insert k ks) = Inr (True, info', insert k ks \<union> fst ` set es)"
    "length info' = info_size" "shows_values es i1 info'"
    using Cons.IH [of "off + 4 + of_nat (length v)" i1 "insert k ks"] Cons.prems(1) d4 lenB l1 u by auto
  have "shows_values (e # es) info info'" by (rule shows_values_Cons) (use i1 f in \<open>simp_all add: e\<close>)
  moreover have "kv_loop (length (e # es)) d len off (info, ks) = Inr (True, info', ks \<union> fst ` set (e # es))"
    using lenB sz r i1 f(1) by (simp add: e join16_le16b)
  ultimately show ?case using f(2) by blast
qed

text \<open>A packet that carries a report: the number of entries, two reserved bytes, the entries.\<close>

definition carries :: "(ParamKeyName \<times> byte list) list \<Rightarrow> CommPacket \<Rightarrow> bool" where
  "carries es p \<longleftrightarrow> list_all well_sized es \<and> length es < 65536 \<and> unat (data_len p) = 4 + length (concat (map entry es))
     \<and> take (unat (data_len p)) (cp_data p) = le16b (of_nat (length es)) @ [0, 0] @ concat (map entry es)"

text \<open>
  The structure shows the last value of each key, members without a value keep what they had, and
  exactly the keys of the report are marked.
\<close>

lemma state_report_is_stored:
  assumes "carries es p" and "length info = info_size"
  shows "\<exists>info'. ParseStateInfo p info = Inr (True, info', fst ` set es) \<and> length info' = info_size \<and> shows_values es info info'"
proof -
  obtain rest where d: "cp_data p = le16b (of_nat (length es)) @ [0, 0] @ concat (map entry es) @ rest"
    using assms(1) append_take_drop_id [of "unat (data_len p)" "cp_data p"] unfolding carries_def by (metis append.assoc)
  have "drop (unat (4 :: 16 word)) (cp_data p) = concat (map entry es) @ rest" by (simp add: d)
  moreover have "unat (join16 (le16b (of_nat (length es)))) = length es"
    using assms(1) by (simp add: join16_le16b unat_of_nat carries_def)
  moreover have "read_at (cp_data p) 0 2 = Inr (le16b (of_nat (length es)))" by (simp add: d)
  ultimately show ?thesis
    using kv_loop_entries [of es 4 "cp_data p" rest "data_len p" info "{}"] assms by (simp add: carries_def ParseStateInfo_def)
qed

definition example_report :: "(ParamKeyName \<times> byte list) list" where
  "example_report = [(kKeyPclDataType, [1]), (kKeyLidarIpCfg, [192, 168, 1, 100, 255, 255, 255, 0, 192, 168, 1, 1]),
     (kKeyLidarPointDataHostIpCfg, [192, 168, 1, 5, 0xED, 0xDB, 0xEC, 0xDB]), (kKeyPclDataType, [2])]"

definition report_packet :: "(ParamKeyName \<times> byte list) list \<Rightarrow> CommPacket" where
  "report_packet es = \<lparr>protocol = kLidarSdk, version = kSdkVer, seq_num = 1, cmd_id = 0x0102, cmd_type = 0, sender_type = 1,
     cp_data = le16b (of_nat (length es)) @ [0, 0] @ concat (map entry es), data_len = of_nat (4 + length (concat (map entry es)))\<rparr>"

lemma carries_report_packet:
  "list_all well_sized es \<Longrightarrow> length es < 65536 \<Longrightarrow> 4 + length (concat (map entry es)) < 65536 \<Longrightarrow> carries es (report_packet es)"
  by (simp add: carries_def report_packet_def unat_of_nat del: of_nat_add)

lemma example_report_sized: "carries example_report (report_packet example_report)"
  by (rule carries_report_packet)
    (simp_all add: example_report_def well_sized_def value_size_def is_ip_key_def has_member_def DirectLidarStateInfo_def entry_def)

section \<open>Values that are too long\<close>

text \<open>
  C40.  A value is copied with the length the packet gives for it, whatever its member can hold and
  whatever the length of the packet: what is longer goes over the members behind it, and
  leaves the structure exactly when it is longer than what the structure has from there on.
\<close>

theorem long_values_overflow:
  assumes "has_member k" and "k \<noteq> kKeyLidarIpCfg" and "\<not> is_ip_key k" and "length info = info_size"
    and "cp_data p = le16b 1 @ [0, 0] @ le16b (key_code k) @ le16b n @ v @ rest" and "length v = unat n" and "9 \<le> unat (data_len p)"
  shows "ParseStateInfo p info =
    (if off_of k + unat n \<le> info_size then Inr (True, splice (off_of k) v info, {k}) else Inl Bad_index)"
proof -
  have nb: "read_at (cp_data p) 0 2 = Inr (le16b 1)" by (simp add: assms(5))
  have d: "drop 4 (cp_data p) = le16b (key_code k) @ le16b n @ v @ rest" "drop 6 (cp_data p) = le16b n @ v @ rest"
    "drop 8 (cp_data p) = v @ rest" "length (cp_data p) = 8 + length v + length rest"
    by (simp_all add: assms(5))
  have r: "read_at (cp_data p) 4 2 = Inr (le16b (key_code k))" "read_at (cp_data p) 6 2 = Inr (le16b n)"
    "read_at (cp_data p) 8 (unat n) = Inr v"
    unfolding read_at_eq_Inr d by (simp_all add: assms(6))
  have w: "write_at info (off_of k) v = (if off_of k + unat n \<le> info_size then Inr (splice (off_of k) v info) else Inl Bad_index)"
    by (simp add: write_at_def splice_def assms(4,6))
  show ?thesis
    using assms(1,7) store_value_cases(3) [OF assms(2,3), of "cp_data p" 8 n info]
    by (simp add: ParseStateInfo_def nb join16_le16b numeral_eq_Suc [of num.One] r w)
qed

theorem long_values_overflow_witness:
  "ParseStateInfo (report_packet [(kKeyFrameRate, [30, 1, 2])]) (replicate info_size 0) =
     Inr (True, splice (off_of kKeyFrameRate) [30, 1, 2] (replicate info_size 0), {kKeyFrameRate})
   \<and> ParseStateInfo (report_packet [(kKeyRoiMode, [1, 2])]) (replicate info_size 0) = Inl Bad_index"
  using long_values_overflow [of kKeyFrameRate "replicate info_size 0" "report_packet [(kKeyFrameRate, [30, 1, 2])]" 3 "[30, 1, 2]" "[]"]
    long_values_overflow [of kKeyRoiMode "replicate info_size 0" "report_packet [(kKeyRoiMode, [1, 2])]" 2 "[1, 2]" "[]"]
  by (simp add: has_member_def is_ip_key_def info_size_def DirectLidarStateInfo_def report_packet_def entry_def)

end
