(* ===== verification/LidarReport.thy ===== *)
theory LidarReport
  imports LidarState
begin

text \<open>
  The report of a lidar as JSON (\<open>LivoxLidarStateInfoToJson\<close> and \<open>Parse\<close> of
  \<open>parse_lidar_state_info.cpp\<close>): the calls the code makes to the JSON writer, in their order.  How
  the writer prints them is the business of the RapidJSON library.
\<close>

section \<open>Calls of the writer\<close>

datatype json_call =
    StartObject | EndObject | StartArray | EndArray | Key string
  | Uint nat | Int32 int | Uint64 nat | Int64 int | Double "32 word" | String "byte list"

definition le_nat :: "byte list \<Rightarrow> nat" where
  "le_nat bs = foldr (\<lambda>b n. unat b + 256 * n) bs 0"

text \<open>\<open>n\<close> bytes at an offset: unsigned, and as a signed number of \<open>n\<close> bytes.\<close>

definition nat_at :: "byte list \<Rightarrow> nat \<Rightarrow> nat \<Rightarrow> nat" where
  "nat_at info off n = le_nat (take n (drop off info))"

definition int_at :: "byte list \<Rightarrow> nat \<Rightarrow> nat \<Rightarrow> int" where
  "int_at info off n = (let u = nat_at info off n in if 2 * u < 256 ^ n then int u else int u - 256 ^ n)"

text \<open>A \<open>char\<close> array taken as a C string: it is read up to the first zero byte, wherever that is.\<close>

definition string_at :: "byte list \<Rightarrow> nat \<Rightarrow> exn + json_call" where
  "string_at info off = (if 0 \<in> set (drop off info) then Inr (String (c_string (drop off info))) else Inl Bad_index)"

definition write_uint :: "ParamKeyName \<Rightarrow> byte list \<Rightarrow> exn + json_call list" where
  "write_uint k info = Inr [Uint (nat_at info (off_of k) (size_of k))]"

definition write_int :: "ParamKeyName \<Rightarrow> byte list \<Rightarrow> exn + json_call list" where
  "write_int k info = Inr [Int32 (int_at info (off_of k) (size_of k))]"

definition write_bytes :: "ParamKeyName \<Rightarrow> nat \<Rightarrow> byte list \<Rightarrow> exn + json_call list" where
  "write_bytes k n info = Inr (StartArray # map (\<lambda>i. Uint (nat_at info (off_of k + i) 1)) [0..<n] @ [EndArray])"

definition write_lidar_ip :: "byte list \<Rightarrow> exn + json_call list" where
  "write_lidar_ip info =
     sbind (string_at info (off_of kKeyLidarIpCfg)) (\<lambda>ip.
     sbind (string_at info (off_of kKeyLidarIpCfg + 16)) (\<lambda>net.
     sbind (string_at info (off_of kKeyLidarIpCfg + 32)) (\<lambda>gw.
       Inr [StartObject, Key ''lidar_ip'', ip, Key ''lidar_subnet_mask'', net, Key ''lidar_gateway'', gw, EndObject])))"

definition write_ip :: "ParamKeyName \<Rightarrow> byte list \<Rightarrow> exn + json_call list" where
  "write_ip k info =
     sbind (string_at info (off_of k)) (\<lambda>ip.
       Inr [StartObject, Key ''ip'', ip, Key ''dst_port'', Uint (nat_at info (off_of k + 16) 2),
            Key ''src_port'', Uint (nat_at info (off_of k + 18) 2), EndObject])"

text \<open>The position is a signed number of millimetres, written by \<open>Uint\<close>.\<close>

definition write_attitude :: "byte list \<Rightarrow> exn + json_call list" where
  "write_attitude info = (let off = off_of kKeyInstallAttitude in
     Inr [StartObject, Key ''roll_deg'', Double (join32 (take 4 (drop off info))),
          Key ''pitch_deg'', Double (join32 (take 4 (drop (off + 4) info))),
          Key ''yaw_deg'', Double (join32 (take 4 (drop (off + 8) info))),
          Key ''x_mm'', Uint (nat_at info (off + 12) 4), Key ''y_mm'', Uint (nat_at info (off + 16) 4),
          Key ''z_mm'', Uint (nat_at info (off + 20) 4), EndObject])"

definition write_fov :: "ParamKeyName \<Rightarrow> byte list \<Rightarrow> exn + json_call list" where
  "write_fov k info =
     Inr [StartObject, Key ''yaw_start'', Int32 (int_at info (off_of k) 4), Key ''yaw_stop'', Int32 (int_at info (off_of k + 4) 4),
          Key ''pitch_start'', Int32 (int_at info (off_of k + 8) 4), Key ''pitch_stop'', Int32 (int_at info (off_of k + 12) 4), EndObject]"

definition write_func_io :: "byte list \<Rightarrow> exn + json_call list" where
  "write_func_io info = (let off = off_of kKeyFuncIoCfg in
     Inr [StartObject, Key ''IN0'', Uint (nat_at info off 1), Key ''IN1'', Uint (nat_at info (off + 1) 1),
          Key ''OUT0'', Uint (nat_at info (off + 2) 1), Key ''OUT1'', Uint (nat_at info (off + 3) 1), EndObject])"

definition write_text :: "ParamKeyName \<Rightarrow> byte list \<Rightarrow> exn + json_call list" where
  "write_text k info = sbind (string_at info (off_of k)) (\<lambda>s. Inr [s])"

definition write_uint64 :: "ParamKeyName \<Rightarrow> byte list \<Rightarrow> exn + json_call list" where
  "write_uint64 k info = Inr [Uint64 (nat_at info (off_of k) 8)]"

definition write_int64 :: "ParamKeyName \<Rightarrow> byte list \<Rightarrow> exn + json_call list" where
  "write_int64 k info = Inr [Int64 (int_at info (off_of k) 8)]"

text \<open>Bytes 31 to 0 in hexadecimal, separated by blanks.\<close>

definition show_hex :: "nat \<Rightarrow> string" where
  "show_hex n = (let digit = (\<lambda>d. ''0123456789abcdef'' ! d) in
     if n < 16 then [digit n] else [digit (n div 16), digit (n mod 16)])"

definition write_status_code :: "byte list \<Rightarrow> exn + json_call list" where
  "write_status_code info =
     Inr [String (text_bytes (concat (map (\<lambda>i. show_hex (nat_at info (off_of kKeyStatusCode + i) 1) @ (if i \<noteq> 0 then '' '' else []))
       (rev [0..<32]))))]"

definition write_hms :: "byte list \<Rightarrow> exn + json_call list" where
  "write_hms info = Inr (StartArray # map (\<lambda>i. Uint (nat_at info (off_of kKeyHmsCode + 4 * i) 4)) [0..<8] @ [EndArray])"

section \<open>The document\<close>

type_synonym json_field = "ParamKeyName \<times> string \<times> (byte list \<Rightarrow> exn + json_call list)"

definition json_network :: "json_field list" where
  "json_network =
    [(kKeyPclDataType, ''pcl_data_type'', write_uint kKeyPclDataType),
     (kKeyPatternMode, ''pattern_mode'', write_uint kKeyPatternMode),
     (kKeyDualEmitEn, ''dual_emit_en'', write_uint kKeyDualEmitEn),
     (kKeyPointSendEn, ''point_send_en'', write_uint kKeyPointSendEn),
     (kKeyLidarIpCfg, ''lidar_ipcfg'', write_lidar_ip),
     (kKeyStateInfoHostIpCfg, ''state_info_host_ipcfg'', write_ip kKeyStateInfoHostIpCfg),
     (kKeyLidarPointDataHostIpCfg, ''ponitcloud_host_ipcfg'', write_ip kKeyLidarPointDataHostIpCfg),
     (kKeyLidarImuHostIpCfg, ''imu_host_ipcfg'', write_ip kKeyLidarImuHostIpCfg),
     (kKeyCtlHostIpCfg, ''ctl_host_ipcfg'', write_ip kKeyCtlHostIpCfg),
     (kKeyLogHostIpCfg, ''log_host_ipcfg'', write_ip kKeyLogHostIpCfg)]"

definition json_settings :: "json_field list" where
  "json_settings =
    [(kKeyVehicleSpeed, ''vehicle_speed'', write_int kKeyVehicleSpeed),
     (kKeyEnvironmentTemp, ''environment_temp'', write_int kKeyEnvironmentTemp),
     (kKeyInstallAttitude, ''install_attitude'', write_attitude),
     (kKeyBlindSpotSet, ''blind_spot_set'', write_uint kKeyBlindSpotSet),
     (kKeyFrameRate, ''frame_rate'', write_uint kKeyFrameRate),
     (kKeyFovCfg0, ''fov_cfg0'', write_fov kKeyFovCfg0),
     (kKeyFovCfg1, ''fov_cfg1'', write_fov kKeyFovCfg1),
     (kKeyFovCfgEn, ''fov_cfg_en'', write_uint kKeyFovCfgEn),
     (kKeyDetectMode, ''detect_mode'', write_uint kKeyDetectMode),
     (kKeyFuncIoCfg, ''func_io_cfg'', write_func_io),
     (kKeyWorkMode, ''work_tgt_mode'', write_uint kKeyWorkMode),
     (kKeyGlassHeat, ''glass_heat'', write_uint kKeyGlassHeat),
     (kKeyImuDataEn, ''imu_data_en'', write_uint kKeyImuDataEn),
     (kKeyFusaEn, ''fusa_en'', write_uint kKeyFusaEn)]"

definition json_status :: "json_field list" where
  "json_status =
    [(kKeySn, ''sn'', write_text kKeySn),
     (kKeyProductInfo, ''product_info'', write_text kKeyProductInfo),
     (kKeyVersionApp, ''version_app'', write_bytes kKeyVersionApp 4),
     (kKeyVersionLoader, ''version_loader'', write_bytes kKeyVersionLoader 4),
     (kKeyVersionHardware, ''version_hardware'', write_bytes kKeyVersionHardware 4),
     (kKeyMac, ''mac'', write_bytes kKeyMac 6),
     (kKeyCurWorkState, ''cur_work_state'', write_uint kKeyCurWorkState),
     (kKeyCoreTemp, ''core_temp'', write_int kKeyCoreTemp),
     (kKeyPowerUpCnt, ''powerup_cnt'', write_uint kKeyPowerUpCnt),
     (kKeyLocalTimeNow, ''local_time_now'', write_uint64 kKeyLocalTimeNow),
     (kKeyLastSyncTime, ''last_sync_time'', write_uint64 kKeyLastSyncTime),
     (kKeyTimeOffset, ''time_offset'', write_int64 kKeyTimeOffset),
     (kKeyTimeSyncType, ''time_sync_type'', write_uint kKeyTimeSyncType),
     (kKeyStatusCode, ''status_code'', write_status_code),
     (kKeyLidarDiagStatus, ''lidar_diag_status'', write_uint kKeyLidarDiagStatus),
     (kKeyLidarFlashStatus, ''lidar_flash_status'', write_uint kKeyLidarFlashStatus),
     (kKeyFwType, ''FW_TYPE'', write_uint kKeyFwType),
     (kKeyHmsCode, ''hms_code'', write_hms),
     (kKeyRoiMode, ''ROI_Mode'', write_uint kKeyRoiMode)]"

definition json_fields :: "json_field list" where
  "json_fields = json_network @ json_settings @ json_status"

definition LivoxLidarStateInfoToJson :: "byte list \<Rightarrow> ParamKeyName set \<Rightarrow> exn + json_call list" where
  "LivoxLidarStateInfoToJson info key_mask =
     sbind (smap (\<lambda>(k, name, write). if k \<in> key_mask then sbind (write info) (\<lambda>cs. Inr (Key name # cs)) else Inr []) json_fields)
       (\<lambda>css. Inr (StartObject # concat css @ [EndObject]))"

definition Parse :: "CommPacket \<Rightarrow> byte list \<Rightarrow> exn + json_call list option" where
  "Parse p info =
     sbind (ParseStateInfo p info) (\<lambda>(ok, info', key_mask).
       if \<not> ok then Inr None else sbind (LivoxLidarStateInfoToJson info' key_mask) (\<lambda>cs. Inr (Some cs)))"

section \<open>Documents as trees\<close>

datatype json = Obj "(string \<times> json) list" | Arr "json list" | Atom json_call

fun calls :: "json \<Rightarrow> json_call list" where
  "calls (Obj ms) = StartObject # concat (map (\<lambda>(n, v). Key n # calls v) ms) @ [EndObject]"
| "calls (Arr vs) = StartArray # concat (map calls vs) @ [EndArray]"
| "calls (Atom c) = [c]"

section \<open>The document of a report\<close>

definition text_json :: "byte list \<Rightarrow> json" where
  "text_json ip = Atom (String (text_bytes (dotted ip)))"

definition uint_json :: "byte list \<Rightarrow> json" where
  "uint_json v = Atom (Uint (le_nat v))"

definition int_json :: "byte list \<Rightarrow> json" where
  "int_json v = Atom (Int32 (int_at v 0 (length v)))"

text \<open>What a report should show for a value.\<close>

definition value_json :: "ParamKeyName \<Rightarrow> byte list \<Rightarrow> json" where
  "value_json k v =
     (if k = kKeyLidarIpCfg
      then Obj [(''lidar_ip'', text_json (take 4 v)), (''lidar_subnet_mask'', text_json (take 4 (drop 4 v))),
                (''lidar_gateway'', text_json (take 4 (drop 8 v)))]
      else if is_ip_key k
      then Obj [(''ip'', text_json (take 4 v)), (''dst_port'', uint_json (take 2 (drop 4 v))), (''src_port'', uint_json (take 2 (drop 6 v)))]
      else if k \<in> {kKeyVehicleSpeed, kKeyEnvironmentTemp, kKeyCoreTemp} then int_json v
      else if k = kKeyInstallAttitude
      then Obj [(''roll_deg'', Atom (Double (join32 (take 4 v)))), (''pitch_deg'', Atom (Double (join32 (take 4 (drop 4 v))))),
                (''yaw_deg'', Atom (Double (join32 (take 4 (drop 8 v))))), (''x_mm'', uint_json (take 4 (drop 12 v))),
                (''y_mm'', uint_json (take 4 (drop 16 v))), (''z_mm'', uint_json (take 4 (drop 20 v)))]
      else if k \<in> {kKeyFovCfg0, kKeyFovCfg1}
      then Obj [(''yaw_start'', int_json (take 4 v)), (''yaw_stop'', int_json (take 4 (drop 4 v))),
                (''pitch_start'', int_json (take 4 (drop 8 v))), (''pitch_stop'', int_json (take 4 (drop 12 v)))]
      else if k = kKeyFuncIoCfg
      then Obj [(''IN0'', uint_json (take 1 v)), (''IN1'', uint_json (take 1 (drop 1 v))),
                (''OUT0'', uint_json (take 1 (drop 2 v))), (''OUT1'', uint_json (take 1 (drop 3 v)))]
      else if k \<in> {kKeySn, kKeyProductInfo} then Atom (String (c_string v))
      else if k \<in> {kKeyVersionApp, kKeyVersionLoader, kKeyVersionHardware, kKeyMac} then Arr (map (\<lambda>b. uint_json [b]) v)
      else if k \<in> {kKeyLocalTimeNow, kKeyLastSyncTime} then Atom (Uint64 (le_nat v))
      else if k = kKeyTimeOffset then Atom (Int64 (int_at v 0 8))
      else if k = kKeyStatusCode then Atom (String (text_bytes (concat (map (\<lambda>i. show_hex (unat (v ! i)) @ (if i \<noteq> 0 then '' '' else [])) (rev [0..<32])))))
      else if k = kKeyHmsCode then Arr (map (\<lambda>i. uint_json (take 4 (drop (4 * i) v))) [0..<8])
      else uint_json v)"

text \<open>Reads inside a member.\<close>

lemma take_drop_member:
  "i + n \<le> size_of k \<Longrightarrow> take n (drop (off_of k + i) info) = take n (drop i (member_of info k))"
  by (simp add: drop_take min_def add.commute)

lemma nat_at_member: "i + n \<le> size_of k \<Longrightarrow> nat_at info (off_of k + i) n = le_nat (take n (drop i (member_of info k)))"
  unfolding nat_at_def by (simp only: take_drop_member)

lemma int_at_member:
  "i + n \<le> size_of k \<Longrightarrow> int_at info (off_of k + i) n = int_at (take n (drop i (member_of info k))) 0 n"
  unfolding int_at_def nat_at_def Let_def by (simp only: take_drop_member) simp

lemma le_nat_one: "le_nat [b] = unat b"
  by (simp add: le_nat_def)

lemma byte_at_member:
  assumes "i < size_of k" and "length (member_of info k) = size_of k"
  shows "nat_at info (off_of k + i) 1 = le_nat [member_of info k ! i]"
proof -
  have "take 1 (drop i m) = [m ! i]" if "i < length m" for m :: "byte list"
    using that by (simp add: Cons_nth_drop_Suc [symmetric])
  then show ?thesis using assms nat_at_member [of i 1 k info] by simp
qed

text \<open>Strings: a text that ends inside its member is what is read.\<close>

lemma c_string_prefix:
  assumes "0 \<in> set m" shows "c_string (m @ xs) = c_string m" "0 \<in> set (m @ xs)"
  using assms by (auto simp: c_string_def takeWhile_append1)

lemma string_at_member:
  assumes "0 \<in> set (drop i (member_of info k))" and "i \<le> size_of k"
  shows "string_at info (off_of k + i) = Inr (String (c_string (drop i (member_of info k))))"
proof -
  let ?m = "drop i (member_of info k)"
  have m: "?m = take (size_of k - i) (drop (off_of k + i) info)" using assms(2) by (simp add: drop_take add.commute)
  have "drop (off_of k + i) info = ?m @ drop (size_of k - i) (drop (off_of k + i) info)"
    unfolding m by (simp only: append_take_drop_id)
  then show ?thesis using c_string_prefix [OF assms(1)] unfolding string_at_def by metis
qed

lemma c_string_less: "length (c_string m) < length m \<Longrightarrow> 0 \<in> set m"
  unfolding c_string_def by (metis (mono_tags, lifting) less_irrefl takeWhile_eq_all_conv)

lemmas json_fields_defs = json_fields_def json_network_def json_settings_def json_status_def

lemma json_keys: "map fst json_fields = map fst DirectLidarStateInfo" "distinct (map (fst \<circ> snd) json_fields)"
  by (simp_all add: json_fields_defs DirectLidarStateInfo_def)

lemma json_writers:
  assumes "(k, name, w) \<in> set json_fields"
  shows "k = kKeyLidarIpCfg \<and> w = write_lidar_ip \<or> is_ip_key k \<and> w = write_ip k
    \<or> k \<in> {kKeyVehicleSpeed, kKeyEnvironmentTemp, kKeyCoreTemp} \<and> w = write_int k
    \<or> k = kKeyInstallAttitude \<and> w = write_attitude \<or> k \<in> {kKeyFovCfg0, kKeyFovCfg1} \<and> w = write_fov k
    \<or> k = kKeyFuncIoCfg \<and> w = write_func_io \<or> k \<in> {kKeySn, kKeyProductInfo} \<and> w = write_text k
    \<or> k \<in> {kKeyVersionApp, kKeyVersionLoader, kKeyVersionHardware, kKeyMac} \<and> w = write_bytes k (size_of k)
    \<or> k \<in> {kKeyLocalTimeNow, kKeyLastSyncTime} \<and> w = write_uint64 k \<or> k = kKeyTimeOffset \<and> w = write_int64 k
    \<or> k = kKeyStatusCode \<and> w = write_status_code \<or> k = kKeyHmsCode \<and> w = write_hms
    \<or> w = write_uint k \<and> k \<noteq> kKeyLidarIpCfg \<and> \<not> is_ip_key k \<and> (\<forall>v. value_json k v = uint_json v)"
  using assms unfolding json_fields_defs
  by (auto simp: is_ip_key_def DirectLidarStateInfo_def value_json_def)

lemma ip_strings:
  assumes "is_ip_key k" and "length info = info_size" and "reported k v (member_of info k)"
  shows "string_at info (off_of k) = Inr (String (text_bytes (dotted (take 4 v))))"
proof -
  have sz: "has_member k" "size_of k = 20" "k \<noteq> kKeyLidarIpCfg"
    using member_sizes(1) [OF assms(1)] assms(1) by (auto simp: is_ip_key_def)
  have l: "length (member_of info k) = 20" using member_bounds [OF sz(1)] assms(2) sz(2) by simp
  have c: "c_string (member_of info k) = text_bytes (dotted (take 4 v))"
    using assms(1,3) sz(3) unfolding reported_def by (simp only: if_True if_False)
  have "0 \<in> set (member_of info k)" using length_dotted [of "take 4 v"] by (intro c_string_less) (simp only: c l length_text_bytes)
  then show ?thesis using string_at_member [of 0 k info] c by simp
qed

lemma write_ip_ok:
  assumes "is_ip_key k" and "length info = info_size" and "length v = value_size k" and "reported k v (member_of info k)"
  shows "write_ip k info = Inr (calls (value_json k v))"
proof -
  have k: "k \<noteq> kKeyLidarIpCfg" "size_of k = 20"
    using member_sizes(1) [OF assms(1)] assms(1) by (auto simp: is_ip_key_def)
  have p: "take 2 (drop 16 (member_of info k)) = take 2 (drop 4 v)" "take 2 (drop 18 (member_of info k)) = take 2 (drop 6 v)"
    using assms(1,4) k(1) unfolding reported_def by (simp_all only: if_True if_False)
  show ?thesis
    using ip_strings [OF assms(1,2,4)] nat_at_member [of 16 2 k info] nat_at_member [of 18 2 k info] k assms(1)
    unfolding p write_ip_def by (simp add: value_json_def text_json_def uint_json_def)
qed

lemma write_lidar_ip_ok:
  assumes "length info = info_size" and "reported kKeyLidarIpCfg v (member_of info kKeyLidarIpCfg)"
  shows "write_lidar_ip info = Inr (calls (value_json kKeyLidarIpCfg v))"
proof -
  let ?m = "member_of info kKeyLidarIpCfg"
  have l: "length ?m = 48" using member_bounds [OF member_sizes(2)] assms(1) member_sizes(3) by simp
  have c: "c_string (drop 0 ?m) = text_bytes (dotted (take 4 v))" "c_string (drop 16 ?m) = text_bytes (dotted (take 4 (drop 4 v)))"
    "c_string (drop 32 ?m) = text_bytes (dotted (take 4 (drop 8 v)))"
    using assms(2) unfolding reported_def by (simp_all only: if_True drop_0)
  have z: "0 \<in> set (drop j ?m)" if "c_string (drop j ?m) = text_bytes (dotted u)" "j \<le> 32" for j u
    by (rule c_string_less, unfold length_drop l that(1) length_text_bytes) (use length_dotted [of u] that(2) in linarith)
  have r: "string_at info (off_of kKeyLidarIpCfg + j) = Inr (String (text_bytes (dotted u)))"
    if "c_string (drop j ?m) = text_bytes (dotted u)" "j \<le> 32" for j u
    unfolding that(1) [symmetric] by (rule string_at_member [OF z [OF that]]) (use that(2) member_sizes(3) in linarith)
  show ?thesis
    using r [OF c(1)] r [OF c(2)] r [OF c(3)]
    by (simp add: write_lidar_ip_def value_json_def text_json_def)
qed

lemma plain_member:
  assumes "(k, name, w) \<in> set json_fields" and "length info = info_size" and "length v = value_size k"
    and "k \<noteq> kKeyLidarIpCfg" and "\<not> is_ip_key k" and "member_of info k = v" and "k \<in> {kKeySn, kKeyProductInfo} \<Longrightarrow> 0 \<in> set v"
  shows "w info = Inr (calls (value_json k v))"
proof -
  have lv: "length v = size_of k" using assms(3-5) by (simp add: value_size_def)
  have m: "length (member_of info k) = size_of k" using lv assms(6) by simp
  have n: "nat_at info (off_of k + i) n = le_nat (take n (drop i v))" if "i + n \<le> size_of k" for i n
    using nat_at_member [OF that, of info] unfolding assms(6) .
  have t: "take n (drop (off_of k + i) info) = take n (drop i v)" if "i + n \<le> size_of k" for i n
    using take_drop_member [OF that, of info] unfolding assms(6) .
  have i: "int_at info (off_of k + i) n = int_at (take n (drop i v)) 0 n" if "i + n \<le> size_of k" for i n
    using int_at_member [OF that, of info] unfolding assms(6) .
  have b: "nat_at info (off_of k + i) 1 = le_nat [v ! i]" if "i < size_of k" for i
    using byte_at_member [OF that m] unfolding assms(6) .
  note z = n [of 0, unfolded add_0_right drop_0] i [of 0, unfolded add_0_right drop_0] t [of 0, unfolded add_0_right drop_0]
  note tree = value_json_def uint_json_def int_json_def
  consider (int) "k \<in> {kKeyVehicleSpeed, kKeyEnvironmentTemp, kKeyCoreTemp}" "w = write_int k"
    | (attitude) "k = kKeyInstallAttitude" "w = write_attitude" | (fov) "k \<in> {kKeyFovCfg0, kKeyFovCfg1}" "w = write_fov k"
    | (io) "k = kKeyFuncIoCfg" "w = write_func_io" | (chars) "k \<in> {kKeySn, kKeyProductInfo}" "w = write_text k"
    | (bytes) "k \<in> {kKeyVersionApp, kKeyVersionLoader, kKeyVersionHardware, kKeyMac}" "w = write_bytes k (size_of k)"
    | (time) "k \<in> {kKeyLocalTimeNow, kKeyLastSyncTime}" "w = write_uint64 k" | (offset) "k = kKeyTimeOffset" "w = write_int64 k"
    | (status) "k = kKeyStatusCode" "w = write_status_code" | (hms) "k = kKeyHmsCode" "w = write_hms"
    | (uint) "w = write_uint k" "\<forall>v. value_json k v = uint_json v"
    using json_writers [OF assms(1)] assms(4,5) by metis
  then show ?thesis
  proof cases
    case int
    then have "size_of k = 4" by (auto simp: DirectLidarStateInfo_def)
    then show ?thesis using int z(2) [of 4] lv by (auto simp: write_int_def tree is_ip_key_def)
  next
    case attitude
    then have "size_of k = 24" by (auto simp: DirectLidarStateInfo_def)
    then show ?thesis
      using attitude z(3) [of 4] t [of 4 4] t [of 8 4] n [of 12 4] n [of 16 4] n [of 20 4]
      by (simp add: write_attitude_def Let_def tree is_ip_key_def)
  next
    case fov
    then have "size_of k = 20" by (auto simp: DirectLidarStateInfo_def)
    then show ?thesis
      using fov z(2) [of 4] i [of 4 4] i [of 8 4] i [of 12 4] lv by (auto simp: write_fov_def tree is_ip_key_def)
  next
    case io
    then have "size_of k = 4" by (auto simp: DirectLidarStateInfo_def)
    then show ?thesis
      using io z(1) [of 1] n [of 1 1] n [of 2 1] n [of 3 1] by (simp add: write_func_io_def Let_def tree is_ip_key_def)
  next
    case chars
    then have "string_at info (off_of k + 0) = Inr (String (c_string (drop 0 (member_of info k))))"
      using assms(6,7) by (intro string_at_member) simp_all
    then show ?thesis using chars assms(6) by (auto simp: write_text_def tree is_ip_key_def)
  next
    case bytes
    have "map (\<lambda>i. Uint (nat_at info (off_of k + i) 1)) [0..<size_of k] = map (\<lambda>b. Uint (le_nat [b])) v"
      using b lv by (intro nth_equalityI) simp_all
    then have "write_bytes k (size_of k) info = Inr (calls (Arr (map (\<lambda>b. uint_json [b]) v)))"
      by (simp add: write_bytes_def uint_json_def comp_def)
    moreover have "value_json k v = Arr (map (\<lambda>b. uint_json [b]) v)" using bytes(1) by (auto simp: value_json_def is_ip_key_def)
    ultimately show ?thesis using bytes(2) by simp
  next
    case time
    then have "size_of k = 8" by (auto simp: DirectLidarStateInfo_def)
    then show ?thesis using time z(1) [of 8] lv by (auto simp: write_uint64_def tree is_ip_key_def)
  next
    case offset
    then have "size_of k = 8" by (auto simp: DirectLidarStateInfo_def)
    then show ?thesis using offset z(2) [of 8] lv by (simp add: write_int64_def tree is_ip_key_def)
  next
    case status
    then have "size_of k = 32" by (auto simp: DirectLidarStateInfo_def)
    then have e: "map (\<lambda>i. show_hex (nat_at info (off_of kKeyStatusCode + i) 1) @ (if i \<noteq> 0 then '' '' else [])) (rev [0..<32]) =
        map (\<lambda>i. show_hex (unat (v ! i)) @ (if i \<noteq> 0 then '' '' else [])) (rev [0..<32])"
      using b status(1) by (intro map_cong) (simp_all add: le_nat_one)
    show ?thesis unfolding status write_status_code_def e by (simp add: value_json_def is_ip_key_def)
  next
    case hms
    then have "size_of k = 32" by (auto simp: DirectLidarStateInfo_def)
    then have "map (\<lambda>i. Uint (nat_at info (off_of kKeyHmsCode + 4 * i) 4)) [0..<8] = map (\<lambda>i. Uint (le_nat (take 4 (drop (4 * i) v)))) [0..<8]"
      using n hms(1) by (intro map_cong) simp_all
    then show ?thesis unfolding hms write_hms_def by (simp add: value_json_def is_ip_key_def uint_json_def comp_def)
  next
    case uint
    then show ?thesis using z(1) [of "size_of k"] lv by (simp add: write_uint_def uint_json_def)
  qed
qed

lemma writer_ok:
  assumes "(k, name, w) \<in> set json_fields" and "length info = info_size" and "length v = value_size k"
    and "reported k v (member_of info k)" and "k \<in> {kKeySn, kKeyProductInfo} \<Longrightarrow> 0 \<in> set v"
  shows "w info = Inr (calls (value_json k v))"
proof -
  consider "k = kKeyLidarIpCfg" "w = write_lidar_ip" | "is_ip_key k" "w = write_ip k" | "k \<noteq> kKeyLidarIpCfg" "\<not> is_ip_key k"
    using json_writers [OF assms(1)] by (auto simp: is_ip_key_def)
  then show ?thesis
  proof cases
    case 1
    then show ?thesis using write_lidar_ip_ok assms(2,4) by simp
  next
    case 2
    then show ?thesis using write_ip_ok assms(2-4) by simp
  next
    case 3
    moreover have "member_of info k = v" using assms(4) 3 unfolding reported_def by (simp only: if_False)
    ultimately show ?thesis using plain_member assms by blast
  qed
qed

text \<open>The document for a list of entries: the reported keys in the order of the code, each with its last value.\<close>

definition report_json :: "(ParamKeyName \<times> byte list) list \<Rightarrow> json" where
  "report_json es =
     Obj (concat (map (\<lambda>(k, name, w). case map_of (rev es) k of None \<Rightarrow> [] | Some v \<Rightarrow> [(name, value_json k v)]) json_fields))"

definition terminated :: "(ParamKeyName \<times> byte list) list \<Rightarrow> bool" where
  "terminated es \<longleftrightarrow> list_all (\<lambda>(k, v). k \<in> {kKeySn, kKeyProductInfo} \<longrightarrow> 0 \<in> set v) es"

lemma smap_map: "(\<And>x. x \<in> set xs \<Longrightarrow> f x = Inr (g x)) \<Longrightarrow> smap f xs = Inr (map g xs)"
  by (rule smap_Inr)

lemma report_shows:
  assumes "carries es p" and "length info = info_size" and "terminated es"
  shows "Parse p info = Inr (Some (calls (report_json es)))"
proof -
  obtain info' where P: "ParseStateInfo p info = Inr (True, info', fst ` set es)" "length info' = info_size" "shows_values es info info'"
    using state_report_is_stored [OF assms(1,2)] by blast
  have sized: "list_all well_sized es" using assms(1) by (simp add: carries_def)
  let ?g = "\<lambda>(k, name, w). case map_of (rev es) k of None \<Rightarrow> [] | Some v \<Rightarrow> Key name # calls (value_json k v)"
  have step: "(case f of (k, name, write) \<Rightarrow> if k \<in> fst ` set es then sbind (write info') (\<lambda>cs. Inr (Key name # cs)) else Inr []) = Inr (?g f)"
    if f: "f \<in> set json_fields" for f
  proof -
    obtain k name w where e: "f = (k, name, w)" by (cases f)
    show ?thesis
    proof (cases "map_of (rev es) k")
      case None
      then have "k \<notin> fst ` set es" by (simp add: map_of_eq_None_iff)
      then show ?thesis using None by (simp add: e)
    next
      case (Some v)
      then have kv: "(k, v) \<in> set es" using map_of_SomeD by fastforce
      have m: "has_member k" using f json_keys(1) unfolding e has_member_def by (metis fst_conv image_eqI set_map)
      have "w info' = Inr (calls (value_json k v))"
      proof (rule writer_ok)
        show "(k, name, w) \<in> set json_fields" "length info' = info_size" using f e P(2) by simp_all
        show "length v = value_size k" using sized kv by (auto simp: list_all_iff well_sized_def)
        show "reported k v (member_of info' k)" using P(3) m Some unfolding shows_values_def by auto
        show "0 \<in> set v" if "k \<in> {kKeySn, kKeyProductInfo}" using assms(3) kv that by (auto simp: terminated_def list_all_iff)
      qed
      then show ?thesis using Some kv by (force simp: e)
    qed
  qed
  have "LivoxLidarStateInfoToJson info' (fst ` set es) = Inr (StartObject # concat (map ?g json_fields) @ [EndObject])"
    unfolding LivoxLidarStateInfoToJson_def by (simp add: smap_map [OF step])
  moreover have "calls (report_json es) = StartObject # concat (map ?g json_fields) @ [EndObject]"
  proof -
    have "concat (map (\<lambda>(n, v). Key n # calls v) (concat (map (\<lambda>(k, name, w). case map_of (rev es) k of None \<Rightarrow> []
        | Some v \<Rightarrow> [(name, value_json k v)]) fs))) = concat (map ?g fs)" for fs :: "json_field list"
      by (induction fs) (auto split: option.splits)
    then show ?thesis by (simp add: report_json_def)
  qed
  ultimately show ?thesis by (simp add: Parse_def P(1))
qed

text \<open>
  What a lidar reports is what the application is given: the document is one well-formed object,
  with a member for each key of the report, in the order of the code, that shows the last
  value sent for it - numbers with their sign and width, addresses as dotted text, arrays element
  by element - provided that serial number and product text end inside their members.
\<close>

theorem report_is_published:
  assumes "carries es p" and "length info = info_size" and "terminated es"
  shows "Parse p info = Inr (Some (calls (report_json es)))"
  by (rule report_shows [OF assms])

theorem report_is_published_witness:
  "Parse (report_packet example_report) (replicate info_size 0) = Inr (Some (calls (Obj
     [(''pcl_data_type'', Atom (Uint 2)),
      (''lidar_ipcfg'', Obj [(''lidar_ip'', text_json [192, 168, 1, 100]), (''lidar_subnet_mask'', text_json [255, 255, 255, 0]),
        (''lidar_gateway'', text_json [192, 168, 1, 1])]),
      (''ponitcloud_host_ipcfg'', Obj [(''ip'', text_json [192, 168, 1, 5]), (''dst_port'', Atom (Uint 56301)), (''src_port'', Atom (Uint 56300))])])))"
proof -
  have "terminated example_report" by (simp add: terminated_def example_report_def)
  from report_is_published [OF example_report_sized _ this, of "replicate info_size 0"]
  show ?thesis
    by (simp add: report_json_def json_fields_defs example_report_def value_json_def uint_json_def le_nat_def is_ip_key_def)
qed

text \<open>A serial number that fills its member is read on into the product text behind it.\<close>

lemma full_serial_number_runs_on:
  assumes "length info = info_size" and "0 \<notin> set (member_of info kKeySn)" and "0 \<in> set (drop (off_of kKeyProductInfo) info)"
  shows "write_text kKeySn info = Inr [String (member_of info kKeySn @ c_string (drop (off_of kKeyProductInfo) info))]"
proof -
  have d: "drop (off_of kKeySn) info = member_of info kKeySn @ drop (off_of kKeyProductInfo) info"
  proof -
    have "off_of kKeyProductInfo = size_of kKeySn + off_of kKeySn" by (simp add: DirectLidarStateInfo_def)
    then show ?thesis by (simp only: drop_drop [symmetric] append_take_drop_id)
  qed
  have "c_string (drop (off_of kKeySn) info) = c_string (member_of info kKeySn @ drop (off_of kKeyProductInfo) info)"
    by (rule arg_cong [OF d])
  also have "\<dots> = member_of info kKeySn @ c_string (drop (off_of kKeyProductInfo) info)"
    unfolding c_string_def using assms(2) by (intro takeWhile_append2) auto
  finally have "c_string (drop (off_of kKeySn) info) = member_of info kKeySn @ c_string (drop (off_of kKeyProductInfo) info)" .
  moreover have "0 \<in> set (drop (off_of kKeySn) info)" by (subst d) (simp only: set_append Un_iff assms(3) simp_thms)
  ultimately show ?thesis by (simp add: write_text_def string_at_def)
qed

end
