(* ===== verification/BuildRequest.thy ===== *)
theory BuildRequest
  imports LidarReport
begin

text \<open>
  Requests to a lidar (\<open>build_request.cpp\<close>, \<open>command_impl.cpp\<close>): lists of keys and values, in the format
  of the reports, that set its addresses, ports and modes.  A builder that returns false
  leaves a buffer nobody reads: it is \<open>None\<close> here.  An exception of \<open>std::stoi\<close> leaves the builder.
\<close>

section \<open>Addresses\<close>

definition is_space :: "char \<Rightarrow> bool" where
  "is_space c \<longleftrightarrow> of_char c \<in> {9, 10, 11, 12, 13, 32 :: nat}"

definition is_digit :: "char \<Rightarrow> bool" where
  "is_digit c \<longleftrightarrow> 48 \<le> (of_char c :: nat) \<and> (of_char c :: nat) \<le> 57"

definition digits_value :: "string \<Rightarrow> nat" where
  "digits_value ds = foldl (\<lambda>n c. 10 * n + (of_char c - 48)) 0 ds"

text \<open>\<open>std::stoi\<close>: blanks, a sign, digits; what follows is ignored.\<close>

definition stoi :: "string \<Rightarrow> exn + int" where
  "stoi s =
     (let t = dropWhile is_space s;
          neg = (t \<noteq> [] \<and> hd t = CHR ''-'');
          u = (if t \<noteq> [] \<and> hd t \<in> {CHR ''-'', CHR ''+''} then tl t else t);
          ds = takeWhile is_digit u;
          v = (if neg then - int (digits_value ds) else int (digits_value ds))
      in if ds = [] then Inl Invalid_argument
         else if v < - (2 ^ 31) \<or> 2 ^ 31 \<le> v then Inl Out_of_range
         else Inr v)"

text \<open>The rest of the text, and the numbers found so far; \<open>None\<close> where the code returns false.\<close>

function ip_loop :: "string \<Rightarrow> byte list \<Rightarrow> exn + byte list option" where
  "ip_loop s result =
     (if CHR ''.'' \<in> set s
      then sbind (stoi (takeWhile (\<lambda>c. c \<noteq> CHR ''.'') s)) (\<lambda>val.
             if val < 0 \<or> val > 256 then Inr None
             else ip_loop (tl (dropWhile (\<lambda>c. c \<noteq> CHR ''.'') s)) (result @ [word_of_int val]))
      else if s \<noteq> []
      then sbind (stoi s) (\<lambda>val. if val < 0 \<or> val > 256 then Inr None else Inr (Some (result @ [word_of_int val])))
      else Inr (Some result))"
  by pat_completeness auto
termination
proof (relation "measure (length \<circ> fst)", simp_all)
  fix s :: string assume "CHR ''.'' \<in> set s"
  then have "dropWhile (\<lambda>c. c \<noteq> CHR ''.'') s \<noteq> []" by (simp add: dropWhile_eq_Nil_conv)
  then show "length (dropWhile (\<lambda>c. c \<noteq> CHR ''.'') s) - Suc 0 < length s"
    using length_dropWhile_le [of "\<lambda>c. c \<noteq> CHR ''.''" s] by (cases "dropWhile (\<lambda>c. c \<noteq> CHR ''.'') s") auto
qed

declare ip_loop.simps [simp del]

definition IpToU8 :: "string \<Rightarrow> exn + byte list option" where
  "IpToU8 src = sbind (ip_loop src []) (\<lambda>r. case r of
       None \<Rightarrow> Inr None
     | Some result \<Rightarrow> if length result \<noteq> 4 then Inr None else Inr (Some result))"

section \<open>Requests\<close>

text \<open>A step of a builder: it may throw, it may return false, else it goes on.\<close>

definition obind :: "exn + 'a option \<Rightarrow> ('a \<Rightarrow> exn + 'b option) \<Rightarrow> exn + 'b option" where
  "obind m f = sbind m (\<lambda>r. case r of None \<Rightarrow> Inr None | Some x \<Rightarrow> f x)"

definition kMaxCommandBufferSize :: nat where
  "kMaxCommandBufferSize = 1400"

definition req_buff :: "byte list" where
  "req_buff = replicate kMaxCommandBufferSize 0"

text \<open>\<open>InitHostIpAddr\<close> and \<open>InitMulticastHostIpAddr\<close>: the four bytes of the address at an offset.\<close>

definition InitHostIpAddr :: "string \<Rightarrow> nat \<Rightarrow> byte list \<Rightarrow> exn + byte list option" where
  "InitHostIpAddr host_ip off buf = obind (IpToU8 host_ip) (\<lambda>v. sbind (write_at buf off v) (\<lambda>b. Inr (Some b)))"

definition begin_request :: "16 word \<Rightarrow> byte list \<Rightarrow> exn + (byte list \<times> 16 word)" where
  "begin_request key_num buf = sbind (write_at buf 0 (le16b key_num)) (\<lambda>b. Inr (b, 4))"

definition put_head :: "ParamKeyName \<Rightarrow> 16 word \<Rightarrow> byte list \<times> 16 word \<Rightarrow> exn + byte list" where
  "put_head k n = (\<lambda>(buf, len).
     sbind (write_at buf (unat len) (le16b (key_code k))) (\<lambda>b. write_at b (unat len + 2) (le16b n)))"

text \<open>A key with an address and two ports; \<open>ips\<close> are the addresses written in turn.\<close>

fun put_ips :: "string list \<Rightarrow> nat \<Rightarrow> byte list \<Rightarrow> exn + byte list option" where
  "put_ips [] off buf = Inr (Some buf)"
| "put_ips (ip # ips) off buf = obind (InitHostIpAddr ip off buf) (put_ips ips off)"

definition put_host :: "ParamKeyName \<Rightarrow> string list \<Rightarrow> 16 word \<Rightarrow> 16 word \<Rightarrow> byte list \<times> 16 word \<Rightarrow> exn + (byte list \<times> 16 word) option" where
  "put_host k ips host_port lidar_port = (\<lambda>(buf, len).
     sbind (put_head k 8 (buf, len)) (\<lambda>b1.
     obind (put_ips ips (unat len + 4) b1) (\<lambda>b2.
     sbind (write_at b2 (unat len + 8) (le16b host_port)) (\<lambda>b3.
     sbind (write_at b3 (unat len + 10) (le16b lidar_port)) (\<lambda>b4. Inr (Some (b4, len + 12)))))))"

section \<open>Configurations\<close>

record HostNetInfo =
  host_ip :: string
  multicast_ip :: string
  push_msg_port :: "16 word"
  point_data_port :: "16 word"
  imu_data_port :: "16 word"

record LivoxLidarCfg =
  device_type :: byte
  host_net_info :: HostNetInfo

record ViewLidarIpInfo =
  vi_dev_type :: byte
  vi_host_ip :: string
  lidar_point_port :: "16 word"
  lidar_imu_data_port :: "16 word"
  host_point_port :: "16 word"
  host_imu_data_port :: "16 word"

record LivoxLidarIpInfo =
  ip_addr :: string
  net_mask :: string
  gw_addr :: string

text \<open>The argument of the three requests that set one host address.\<close>

record HostIpInfo =
  host_ip_addr :: string
  host_port :: "16 word"
  lidar_port :: "16 word"

definition kLivoxLidarTypeIndustrialHAP :: byte where "kLivoxLidarTypeIndustrialHAP = 10"
definition kLivoxLidarTypeMid360 :: byte where "kLivoxLidarTypeMid360 = 9"
definition kLivoxLidarTypePA :: byte where "kLivoxLidarTypePA = 16"
definition kHAPPointDataPort :: "16 word" where "kHAPPointDataPort = 57000"
definition kHAPIMUPort :: "16 word" where "kHAPIMUPort = 58000"
definition kMid360LidarPushMsgPort :: "16 word" where "kMid360LidarPushMsgPort = 56200"
definition kMid360LidarPointCloudPort :: "16 word" where "kMid360LidarPointCloudPort = 56300"
definition kMid360LidarImuDataPort :: "16 word" where "kMid360LidarImuDataPort = 56400"
definition kPaLidarPointCloudPort :: "16 word" where "kPaLidarPointCloudPort = 10000"

definition data_ip :: "HostNetInfo \<Rightarrow> string" where
  "data_ip h = (if multicast_ip h = [] then host_ip h else multicast_ip h)"

definition BuildUpdateViewLidarCfgRequest :: "ViewLidarIpInfo \<Rightarrow> byte list \<Rightarrow> exn + (byte list \<times> 16 word) option" where
  "BuildUpdateViewLidarCfgRequest v buf =
     sbind (begin_request (if vi_dev_type v = kLivoxLidarTypePA then 1 else 2) buf) (\<lambda>r.
     obind (put_host kKeyLidarPointDataHostIpCfg [vi_host_ip v] (host_point_port v) (lidar_point_port v) r) (\<lambda>r1.
       if vi_dev_type v = kLivoxLidarTypePA then Inr (Some r1)
       else put_host kKeyLidarImuHostIpCfg [vi_host_ip v] (host_imu_data_port v) (lidar_imu_data_port v) r1))"

definition BuildUpdateMid360LidarCfgRequest :: "LivoxLidarCfg \<Rightarrow> byte list \<Rightarrow> exn + (byte list \<times> 16 word) option" where
  "BuildUpdateMid360LidarCfgRequest cfg buf =
     (let h = host_net_info cfg in
      sbind (begin_request 3 buf) (\<lambda>r.
      obind (put_host kKeyStateInfoHostIpCfg [host_ip h, data_ip h] (push_msg_port h) kMid360LidarPushMsgPort r) (\<lambda>r1.
      obind (put_host kKeyLidarPointDataHostIpCfg [data_ip h] (point_data_port h) kMid360LidarPointCloudPort r1) (\<lambda>r2.
        put_host kKeyLidarImuHostIpCfg [data_ip h] (imu_data_port h) kMid360LidarImuDataPort r2))))"

definition point_port :: "byte \<Rightarrow> 16 word option" where
  "point_port t = (if t = kLivoxLidarTypeIndustrialHAP then Some kHAPPointDataPort
     else if t = kLivoxLidarTypeMid360 then Some kMid360LidarPointCloudPort
     else if t = kLivoxLidarTypePA then Some kPaLidarPointCloudPort else None)"

definition imu_port :: "byte \<Rightarrow> 16 word option" where
  "imu_port t = (if t = kLivoxLidarTypeIndustrialHAP then Some kHAPIMUPort
     else if t = kLivoxLidarTypeMid360 then Some kMid360LidarImuDataPort else None)"

text \<open>An unknown type of device is noticed after the address has been written.\<close>

definition put_data_host :: "ParamKeyName \<Rightarrow> string \<Rightarrow> 16 word \<Rightarrow> 16 word option \<Rightarrow> byte list \<times> 16 word
    \<Rightarrow> exn + (byte list \<times> 16 word) option" where
  "put_data_host k ip hp lp r = (case lp of Some p \<Rightarrow> put_host k [ip] hp p r | None \<Rightarrow> obind (put_host k [ip] hp 0 r) (\<lambda>_. Inr None))"

definition BuildUpdateLidarCfgRequest :: "LivoxLidarCfg \<Rightarrow> byte list \<Rightarrow> exn + (byte list \<times> 16 word) option" where
  "BuildUpdateLidarCfgRequest cfg buf =
     (let h = host_net_info cfg; t = device_type cfg in
      sbind (begin_request (if t = kLivoxLidarTypePA then 1 else 2) buf) (\<lambda>r.
      obind (put_data_host kKeyLidarPointDataHostIpCfg (data_ip h) (point_data_port h) (point_port t) r) (\<lambda>r1.
        if t = kLivoxLidarTypePA then Inr (Some r1)
        else put_data_host kKeyLidarImuHostIpCfg (data_ip h) (imu_data_port h) (imu_port t) r1)))"

definition BuildSetLidarIPInfoRequest :: "LivoxLidarIpInfo \<Rightarrow> byte list \<Rightarrow> exn + (byte list \<times> 16 word) option" where
  "BuildSetLidarIPInfoRequest c buf =
     sbind (begin_request 1 buf) (\<lambda>(b, len).
     sbind (put_head kKeyLidarIpCfg 12 (b, len)) (\<lambda>b1.
     obind (InitHostIpAddr (ip_addr c) (unat len + 4) b1) (\<lambda>b2.
     obind (InitHostIpAddr (net_mask c) (unat len + 8) b2) (\<lambda>b3.
     obind (InitHostIpAddr (gw_addr c) (unat len + 12) b3) (\<lambda>b4. Inr (Some (b4, len + 16)))))))"

definition BuildSetHostRequest :: "ParamKeyName \<Rightarrow> HostIpInfo \<Rightarrow> byte list \<Rightarrow> exn + (byte list \<times> 16 word) option" where
  "BuildSetHostRequest k c buf =
     sbind (begin_request 1 buf) (\<lambda>r. put_host k [host_ip_addr c] (host_port c) (lidar_port c) r)"

definition BuildSetHostStateInfoIPCfgRequest :: "HostIpInfo \<Rightarrow> byte list \<Rightarrow> exn + (byte list \<times> 16 word) option" where
  "BuildSetHostStateInfoIPCfgRequest = BuildSetHostRequest kKeyStateInfoHostIpCfg"

definition BuildSetHostPointDataIPInfoRequest :: "HostIpInfo \<Rightarrow> byte list \<Rightarrow> exn + (byte list \<times> 16 word) option" where
  "BuildSetHostPointDataIPInfoRequest = BuildSetHostRequest kKeyLidarPointDataHostIpCfg"

definition BuildSetHostImuDataIPInfoRequest :: "HostIpInfo \<Rightarrow> byte list \<Rightarrow> exn + (byte list \<times> 16 word) option" where
  "BuildSetHostImuDataIPInfoRequest = BuildSetHostRequest kKeyLidarImuHostIpCfg"

section \<open>The commands of the application\<close>

text \<open>What a command hands to \<open>SendCommand\<close>: its number and its data.\<close>

type_synonym request = "16 word \<times> byte list"

definition kCommandIDLidarWorkModeControl :: "16 word" where "kCommandIDLidarWorkModeControl = 0x0100"
definition kCommandIDLidarGetInternalInfo :: "16 word" where "kCommandIDLidarGetInternalInfo = 0x0101"
definition kCommandIDLidarRebootDevice :: "16 word" where "kCommandIDLidarRebootDevice = 0x0200"

definition send_request :: "16 word \<Rightarrow> byte list \<times> 16 word \<Rightarrow> exn + request option" where
  "send_request cid = (\<lambda>(buf, len). sbind (read_at buf 0 (unat len)) (\<lambda>d. Inr (Some (cid, d))))"

definition set_value :: "ParamKeyName \<Rightarrow> byte list \<Rightarrow> exn + request option" where
  "set_value k v =
     sbind (begin_request 1 req_buff) (\<lambda>(b, len).
     sbind (put_head k (of_nat (length v)) (b, len)) (\<lambda>b1.
     sbind (write_at b1 (unat len + 4) v) (\<lambda>b2.
       send_request kCommandIDLidarWorkModeControl (b2, len + 4 + of_nat (length v)))))"

definition SetLivoxLidarPclDataType :: "byte \<Rightarrow> exn + request option" where
  "SetLivoxLidarPclDataType data_type = set_value kKeyPclDataType [data_type]"

definition SetLivoxLidarScanPattern :: "byte \<Rightarrow> exn + request option" where
  "SetLivoxLidarScanPattern scan_pattern = set_value kKeyPatternMode [scan_pattern]"

definition SetLivoxLidarDualEmit :: "bool \<Rightarrow> exn + request option" where
  "SetLivoxLidarDualEmit enable = set_value kKeyDualEmitEn [if enable then 1 else 0]"

definition EnableLivoxLidarPointSend :: "exn + request option" where
  "EnableLivoxLidarPointSend = set_value kKeyPointSendEn [0]"

definition DisableLivoxLidarPointSend :: "exn + request option" where
  "DisableLivoxLidarPointSend = set_value kKeyPointSendEn [1]"

definition SetLivoxLidarIp :: "LivoxLidarIpInfo \<Rightarrow> exn + request option" where
  "SetLivoxLidarIp c = obind (BuildSetLidarIPInfoRequest c req_buff) (send_request kCommandIDLidarWorkModeControl)"

definition SetLivoxLidarStateInfoHostIPCfg :: "HostIpInfo \<Rightarrow> exn + request option" where
  "SetLivoxLidarStateInfoHostIPCfg c = obind (BuildSetHostStateInfoIPCfgRequest c req_buff) (send_request kCommandIDLidarWorkModeControl)"

definition SetLivoxLidarPointDataHostIPCfg :: "HostIpInfo \<Rightarrow> exn + request option" where
  "SetLivoxLidarPointDataHostIPCfg c = obind (BuildSetHostPointDataIPInfoRequest c req_buff) (send_request kCommandIDLidarWorkModeControl)"

definition SetLivoxLidarImuDataHostIPCfg :: "HostIpInfo \<Rightarrow> exn + request option" where
  "SetLivoxLidarImuDataHostIPCfg c = obind (BuildSetHostImuDataIPInfoRequest c req_buff) (send_request kCommandIDLidarWorkModeControl)"

text \<open>Structures are copied as they lie in memory: three floats and three positions; five numbers; four levels.\<close>

definition SetLivoxLidarInstallAttitude :: "32 word list \<Rightarrow> exn + request option" where
  "SetLivoxLidarInstallAttitude ws = set_value kKeyInstallAttitude (concat (map le32b ws))"

definition SetLivoxLidarFovCfg0 :: "32 word list \<Rightarrow> exn + request option" where
  "SetLivoxLidarFovCfg0 ws = set_value kKeyFovCfg0 (concat (map le32b ws))"

definition SetLivoxLidarFovCfg1 :: "32 word list \<Rightarrow> exn + request option" where
  "SetLivoxLidarFovCfg1 ws = set_value kKeyFovCfg1 (concat (map le32b ws))"

definition EnableLivoxLidarFov :: "byte \<Rightarrow> exn + request option" where
  "EnableLivoxLidarFov fov_en = set_value kKeyFovCfgEn [fov_en]"

definition DisableLivoxLidarFov :: "exn + request option" where
  "DisableLivoxLidarFov = set_value kKeyFovCfgEn [0]"

definition SetLivoxLidarDetectMode :: "byte \<Rightarrow> exn + request option" where
  "SetLivoxLidarDetectMode mode = set_value kKeyDetectMode [mode]"

definition SetLivoxLidarFuncIOCfg :: "byte list \<Rightarrow> exn + request option" where
  "SetLivoxLidarFuncIOCfg levels = set_value kKeyFuncIoCfg levels"

definition SetLivoxLidarBlindSpot :: "32 word \<Rightarrow> exn + request option" where
  "SetLivoxLidarBlindSpot blind_spot = set_value kKeyBlindSpotSet (le32b blind_spot)"

definition SetLivoxLidarWorkMode :: "byte \<Rightarrow> exn + request option" where
  "SetLivoxLidarWorkMode work_mode = set_value kKeyWorkMode [work_mode]"

definition EnableLivoxLidarGlassHeat :: "exn + request option" where
  "EnableLivoxLidarGlassHeat = set_value kKeyGlassHeat [1]"

definition DisableLivoxLidarGlassHeat :: "exn + request option" where
  "DisableLivoxLidarGlassHeat = set_value kKeyGlassHeat [0]"

definition SetLivoxLidarGlassHeat :: "byte \<Rightarrow> exn + request option" where
  "SetLivoxLidarGlassHeat glass_heat = set_value kKeyGlassHeat [glass_heat]"

definition EnableLivoxLidarImuData :: "exn + request option" where
  "EnableLivoxLidarImuData = set_value kKeyImuDataEn [1]"

definition DisableLivoxLidarImuData :: "exn + request option" where
  "DisableLivoxLidarImuData = set_value kKeyImuDataEn [0]"

definition EnableLivoxLidarFusaFunciont :: "exn + request option" where
  "EnableLivoxLidarFusaFunciont = set_value kKeyFusaEn [1]"

definition DisableLivoxLidarFusaFunciont :: "exn + request option" where
  "DisableLivoxLidarFusaFunciont = set_value kKeyFusaEn [0]"

definition SendSingleControlCommand :: "ParamKeyName \<Rightarrow> byte \<Rightarrow> exn + request option" where
  "SendSingleControlCommand k value = set_value k [value]"

definition StartForcedHeating :: "exn + request option" where
  "StartForcedHeating = SendSingleControlCommand kKeyForceHeatEn 1"

definition StopForcedHeating :: "exn + request option" where
  "StopForcedHeating = SendSingleControlCommand kKeyForceHeatEn 0"

definition LivoxLidarRequestReboot :: "exn + request option" where
  "LivoxLidarRequestReboot = Inr (Some (kCommandIDLidarRebootDevice, le16b 100))"

text \<open>Questions: a list of keys.\<close>

fun put_keys :: "ParamKeyName list \<Rightarrow> byte list \<times> 16 word \<Rightarrow> exn + (byte list \<times> 16 word)" where
  "put_keys [] r = Inr r"
| "put_keys (k # ks) (buf, len) = sbind (write_at buf (unat len) (le16b (key_code k))) (\<lambda>b. put_keys ks (b, len + 2))"

definition query_keys :: "ParamKeyName list \<Rightarrow> exn + request option" where
  "query_keys ks =
     sbind (begin_request (of_nat (length ks)) req_buff) (\<lambda>r. sbind (put_keys ks r) (send_request kCommandIDLidarGetInternalInfo))"

definition QueryLivoxLidarFwType :: "exn + request option" where
  "QueryLivoxLidarFwType = query_keys [kKeyFwType]"

definition QueryLivoxLidarFirmwareVer :: "exn + request option" where
  "QueryLivoxLidarFirmwareVer = query_keys [kKeyVersionApp]"

text \<open>The keys in the order of the set, which is that of their codes.\<close>

definition GetQueryLidarInternalInfoKeys :: "byte option \<Rightarrow> ParamKeyName list option" where
  "GetQueryLidarInternalInfoKeys dev_type =
     (if dev_type = Some kLivoxLidarTypeIndustrialHAP
      then Some [kKeyPclDataType, kKeyPatternMode, kKeyLidarIpCfg, kKeyLidarPointDataHostIpCfg, kKeyLidarImuHostIpCfg,
        kKeyInstallAttitude, kKeyWorkMode, kKeyImuDataEn, kKeySn, kKeyProductInfo, kKeyVersionApp, kKeyVersionLoader,
        kKeyVersionHardware, kKeyMac, kKeyCurWorkState]
      else if dev_type = Some kLivoxLidarTypeMid360
      then Some [kKeyPclDataType, kKeyPatternMode, kKeyLidarIpCfg, kKeyStateInfoHostIpCfg, kKeyLidarPointDataHostIpCfg,
        kKeyLidarImuHostIpCfg, kKeyInstallAttitude, kKeyFovCfg0, kKeyFovCfg1, kKeyFovCfgEn, kKeyDetectMode, kKeyFuncIoCfg,
        kKeyWorkMode, kKeyImuDataEn, kKeySn, kKeyProductInfo, kKeyVersionApp, kKeyVersionLoader, kKeyVersionHardware, kKeyMac,
        kKeyCurWorkState, kKeyCoreTemp, kKeyPowerUpCnt, kKeyLocalTimeNow, kKeyLastSyncTime, kKeyTimeOffset, kKeyTimeSyncType,
        kKeyLidarDiagStatus, kKeyFwType, kKeyHmsCode]
      else None)"

definition QueryLivoxLidarInternalInfo :: "byte option \<Rightarrow> exn + request option" where
  "QueryLivoxLidarInternalInfo dev_type =
     (case GetQueryLidarInternalInfoKeys dev_type of None \<Rightarrow> Inr None | Some ks \<Rightarrow> query_keys ks)"

section \<open>Addresses are read as they are shown\<close>

lemma digit_char [simp]: "d < 10 \<Longrightarrow> (of_char (char_of (48 + d)) :: nat) = 48 + d"
  by simp

lemma show_nat_digits: "c \<in> set (show_nat n) \<Longrightarrow> is_digit c"
proof (induction n rule: show_nat.induct)
  case (1 n)
  show ?case using 1 by (subst (asm) (2) show_nat.simps) (auto simp: is_digit_def split: if_splits)
qed

lemma show_nat_ne: "show_nat n \<noteq> []"
  by (subst show_nat.simps) simp

lemma digits_value_snoc: "digits_value (ds @ [c]) = 10 * digits_value ds + (of_char c - 48)"
  by (simp add: digits_value_def)

lemma digits_value_show: "digits_value (show_nat n) = n"
proof (induction n rule: show_nat.induct)
  case (1 n)
  show ?case
  proof (cases "n < 10")
    case True
    then show ?thesis by (subst show_nat.simps) (simp add: digits_value_def)
  next
    case False
    then show ?thesis using 1 by (subst show_nat.simps) (simp add: digits_value_snoc)
  qed
qed

lemma digit_not: "is_digit c \<Longrightarrow> \<not> is_space c \<and> c \<noteq> CHR ''-'' \<and> c \<noteq> CHR ''+'' \<and> c \<noteq> CHR ''.''"
  by (auto simp: is_digit_def is_space_def)

lemma stoi_show_nat: "n < 2 ^ 31 \<Longrightarrow> stoi (show_nat n) = Inr (int n)"
proof -
  assume n: "n < 2 ^ 31"
  obtain c cs where c: "show_nat n = c # cs" using show_nat_ne by (cases "show_nat n") auto
  have d: "is_digit x" if "x \<in> set (c # cs)" for x using show_nat_digits [of x n] that by (simp add: c)
  have t: "takeWhile is_digit (c # cs) = c # cs" using d by (simp add: takeWhile_eq_all_conv)
  show ?thesis
    using n digits_value_show [of n] digit_not [OF d [of c]] t unfolding c by (simp add: stoi_def Let_def)
qed

lemma ip_loop_number:
  assumes "n \<le> 256"
  shows "ip_loop (show_nat n @ CHR ''.'' # s) result = ip_loop s (result @ [of_nat n])"
    "ip_loop (show_nat n) result = Inr (Some (result @ [of_nat n]))"
proof -
  have nd: "CHR ''.'' \<notin> set (show_nat n)" using show_nat_digits digit_not by blast
  have tw: "takeWhile (\<lambda>c. c \<noteq> CHR ''.'') (show_nat n @ CHR ''.'' # s) = show_nat n"
    "dropWhile (\<lambda>c. c \<noteq> CHR ''.'') (show_nat n @ CHR ''.'' # s) = CHR ''.'' # s"
    using nd by (auto simp: takeWhile_append dropWhile_append)
  have v: "stoi (show_nat n) = Inr (int n)" using assms by (intro stoi_show_nat) simp
  show "ip_loop (show_nat n @ CHR ''.'' # s) result = ip_loop s (result @ [of_nat n])"
    by (subst ip_loop.simps) (use assms in \<open>simp add: tw v\<close>)
  show "ip_loop (show_nat n) result = Inr (Some (result @ [of_nat n]))"
    by (subst ip_loop.simps) (use assms nd show_nat_ne in \<open>simp add: v\<close>)
qed

lemma length_4: "length v = 4 \<Longrightarrow> \<exists>a b c d. v = [a, b, c, d]"
  by (auto simp: length_Suc_conv numeral_eq_Suc)

lemma IpToU8_dotted: "length v = 4 \<Longrightarrow> IpToU8 (dotted v) = Inr (Some v)"
proof -
  assume "length v = 4"
  then obtain a b c d where v: "v = [a, b, c, d]" using length_4 by blast
  have u: "unat x \<le> 256" for x :: byte using unsigned_less [of x, where ?'a = nat] by simp
  show ?thesis by (simp add: v IpToU8_def dotted_def ip_loop_number u)
qed

lemma IpToU8_length: "IpToU8 s = Inr (Some v) \<Longrightarrow> length v = 4"
  by (auto simp: IpToU8_def sbind_eq_Inr split: option.splits if_splits)

text \<open>The number 256 passes the test and becomes 0.\<close>

lemma octet_256_is_0: "a \<le> 256 \<Longrightarrow> b \<le> 256 \<Longrightarrow> c \<le> 256 \<Longrightarrow>
  IpToU8 (show_nat a @ ''.'' @ show_nat b @ ''.'' @ show_nat c @ ''.'' @ show_nat 256) = Inr (Some [of_nat a, of_nat b, of_nat c, 0])"
  by (simp add: IpToU8_def ip_loop_number)

section \<open>What a request says\<close>

text \<open>A buffer with its first bytes written, and the bytes of a request with \<open>n\<close> announced keys.\<close>

definition padded :: "byte list \<Rightarrow> byte list" where
  "padded pre = pre @ replicate (kMaxCommandBufferSize - length pre) 0"

definition rq :: "16 word \<Rightarrow> (ParamKeyName \<times> byte list) list \<Rightarrow> byte list" where
  "rq n es = le16b n @ [0, 0] @ concat (map entry es)"

lemma rq_snoc: "rq n (es @ [e]) = rq n es @ entry e"
  by (simp add: rq_def)

lemma write_padded:
  assumes "length us = length bs" and "length pre + length bs \<le> 1400" and "off = length pre"
  shows "write_at (padded (pre @ us)) off bs = Inr (padded (pre @ bs))"
  using assms by (simp add: padded_def kMaxCommandBufferSize_def)

lemma append_padded:
  assumes "length pre + length bs \<le> 1400" and "off = length pre"
  shows "write_at (padded pre) off bs = Inr (padded (pre @ bs))"
proof -
  have "padded pre = padded (pre @ replicate (length bs) 0)"
    using assms(1) by (simp add: padded_def kMaxCommandBufferSize_def flip: replicate_add)
  then show ?thesis using write_padded [of "replicate (length bs) 0" bs pre off] assms by simp
qed

lemma begin_request_eq: "begin_request n req_buff = Inr (padded (rq n []), 4)"
proof -
  have "req_buff = padded []" by (simp add: req_buff_def padded_def)
  then have "write_at req_buff 0 (le16b n) = Inr (padded (le16b n))" using append_padded [of "[]" "le16b n" 0] by simp
  moreover have "padded (le16b n) = padded (le16b n @ [0, 0])"
    by (simp add: padded_def kMaxCommandBufferSize_def numeral_eq_Suc)
  ultimately show ?thesis by (simp add: begin_request_def rq_def)
qed

lemma put_head_padded:
  assumes "unat len = length pre" and "length pre + 4 \<le> 1400"
  shows "put_head k n (padded pre, len) = Inr (padded (pre @ le16b (key_code k) @ le16b n))"
  using append_padded [of pre "le16b (key_code k)" "unat len"] append_padded [of "pre @ le16b (key_code k)" "le16b n" "unat len + 2"] assms
  by (simp add: put_head_def)

lemma InitHostIpAddr_padded:
  assumes "IpToU8 ip = Inr (Some v)" and "length us = 4" and "length pre + 4 \<le> 1400" and "off = length pre"
  shows "InitHostIpAddr ip off (padded (pre @ us)) = Inr (Some (padded (pre @ v)))" "InitHostIpAddr ip off (padded pre) = Inr (Some (padded (pre @ v)))"
  using write_padded [of us v pre off] append_padded [of pre v off] assms IpToU8_length [OF assms(1)]
  by (simp_all add: InitHostIpAddr_def obind_def)

definition valid_ip :: "string \<Rightarrow> bool" where
  "valid_ip ip \<longleftrightarrow> (\<exists>v. IpToU8 ip = Inr (Some v))"

definition ip_bytes :: "string \<Rightarrow> byte list" where
  "ip_bytes ip = (case IpToU8 ip of Inr (Some v) \<Rightarrow> v | _ \<Rightarrow> [])"

lemma valid_ip_bytes: "valid_ip ip \<Longrightarrow> IpToU8 ip = Inr (Some (ip_bytes ip)) \<and> length (ip_bytes ip) = 4"
  using IpToU8_length by (auto simp: valid_ip_def ip_bytes_def)

lemma put_ips_padded:
  assumes "list_all valid_ip ips" and "length pre + 4 \<le> 1400" and "off = length pre"
  shows "length us = 4 \<Longrightarrow> put_ips ips off (padded (pre @ us)) = Inr (Some (padded (pre @ (if ips = [] then us else ip_bytes (last ips)))))"
    "ips \<noteq> [] \<Longrightarrow> put_ips ips off (padded pre) = Inr (Some (padded (pre @ ip_bytes (last ips))))"
proof -
  have step: "put_ips ips off (padded (pre @ us)) = Inr (Some (padded (pre @ (if ips = [] then us else ip_bytes (last ips)))))"
    if "length us = 4" "list_all valid_ip ips" for us ips
    using that
  proof (induction ips arbitrary: us)
    case (Cons ip ips)
    then have v: "IpToU8 ip = Inr (Some (ip_bytes ip))" "length (ip_bytes ip) = 4" using valid_ip_bytes by simp_all
    show ?case
      using InitHostIpAddr_padded(1) [OF v(1) Cons.prems(1) assms(2,3)] Cons.IH [OF v(2)] Cons.prems(2) by (simp add: obind_def)
  qed simp
  show "length us = 4 \<Longrightarrow> put_ips ips off (padded (pre @ us)) = Inr (Some (padded (pre @ (if ips = [] then us else ip_bytes (last ips)))))"
    using step assms(1) by blast
  show "put_ips ips off (padded pre) = Inr (Some (padded (pre @ ip_bytes (last ips))))" if ne: "ips \<noteq> []"
  proof -
    obtain ip rest where e: "ips = ip # rest" using ne by (cases ips) auto
    then have v: "IpToU8 ip = Inr (Some (ip_bytes ip))" "length (ip_bytes ip) = 4" using assms(1) valid_ip_bytes by simp_all
    show ?thesis
      using InitHostIpAddr_padded(2) [OF v(1) v(2) assms(2,3)] step [OF v(2)] assms(1) e by (simp add: obind_def)
  qed
qed

definition host_value :: "string \<Rightarrow> 16 word \<Rightarrow> 16 word \<Rightarrow> byte list" where
  "host_value ip hp lp = ip_bytes ip @ le16b hp @ le16b lp"

lemma put_host_padded:
  assumes "list_all valid_ip ips" and "ips \<noteq> []" and "unat len = length (rq n es)" and "length (rq n es) \<le> 1000"
  shows "put_host k ips hp lp (padded (rq n es), len) = Inr (Some (padded (rq n (es @ [(k, host_value (last ips) hp lp)])), len + 12))"
    "unat (len + 12) = length (rq n (es @ [(k, host_value (last ips) hp lp)]))"
proof -
  let ?h = "rq n es @ le16b (key_code k) @ le16b 8" and ?v = "ip_bytes (last ips)"
  have lv: "length ?v = 4" using assms(1,2) valid_ip_bytes by (simp add: list_all_iff)
  have e: "rq n (es @ [(k, host_value (last ips) hp lp)]) = ?h @ ?v @ le16b hp @ le16b lp"
    using lv by (simp add: rq_snoc entry_eq host_value_def)
  have "put_head k 8 (padded (rq n es), len) = Inr (padded ?h)" using assms(3,4) by (intro put_head_padded) simp_all
  moreover have "put_ips ips (unat len + 4) (padded ?h) = Inr (Some (padded (?h @ ?v)))"
    using assms by (intro put_ips_padded(2)) simp_all
  moreover have "write_at (padded (?h @ ?v)) (unat len + 8) (le16b hp) = Inr (padded ((?h @ ?v) @ le16b hp))"
    using assms(3,4) lv by (intro append_padded) simp_all
  moreover have "write_at (padded ((?h @ ?v) @ le16b hp)) (unat len + 10) (le16b lp) = Inr (padded (((?h @ ?v) @ le16b hp) @ le16b lp))"
    using assms(3,4) lv by (intro append_padded) simp_all
  ultimately show "put_host k ips hp lp (padded (rq n es), len) = Inr (Some (padded (rq n (es @ [(k, host_value (last ips) hp lp)])), len + 12))"
    unfolding e by (simp add: put_host_def obind_def)
  show "unat (len + 12) = length (rq n (es @ [(k, host_value (last ips) hp lp)]))"
    unfolding e using assms(3,4) lv by (simp add: unat_word_ariths)
qed

lemma read_padded: "unat len = length pre \<Longrightarrow> length pre \<le> 1400 \<Longrightarrow> read_at (padded pre) 0 (unat len) = Inr pre"
  by (simp add: padded_def kMaxCommandBufferSize_def)

section \<open>Requests and reports\<close>

text \<open>
  A command that sets values: it is sent, and a lidar that reports exactly its data is shown to the
  application with these values.
\<close>

definition reads_back :: "exn + request option \<Rightarrow> (ParamKeyName \<times> byte list) list \<Rightarrow> bool" where
  "reads_back r es \<longleftrightarrow> (\<exists>d. r = Inr (Some (kCommandIDLidarWorkModeControl, d))
     \<and> (\<forall>p info. cp_data p = d \<longrightarrow> data_len p = of_nat (length d) \<longrightarrow> length info = info_size
          \<longrightarrow> Parse p info = Inr (Some (calls (report_json es)))))"

lemma reads_backI:
  assumes "list_all well_sized es" and "terminated es" and "length es < 65536" and "length (rq (of_nat (length es)) es) < 65536"
    and "r = Inr (Some (kCommandIDLidarWorkModeControl, rq (of_nat (length es)) es))"
  shows "reads_back r es"
  unfolding reads_back_def
proof (intro exI conjI allI impI)
  fix p :: CommPacket and info :: "byte list"
  assume p: "cp_data p = rq (of_nat (length es)) es" "data_len p = of_nat (length (rq (of_nat (length es)) es))" "length info = info_size"
  then have "unat (data_len p) = length (rq (of_nat (length es)) es)" using assms(4) by (simp add: unat_of_nat)
  then have "carries es p" using p(1) assms(1,3) by (simp add: carries_def rq_def)
  then show "Parse p info = Inr (Some (calls (report_json es)))" using report_shows assms(2) p(3) by blast
qed (rule assms(5))

lemma send_padded:
  assumes "unat len = length pre" and "length pre \<le> 1400"
  shows "send_request cid (padded pre, len) = Inr (Some (cid, pre))"
  using read_padded [OF assms] by (simp add: send_request_def)

lemma set_value_eq:
  assumes "length v \<le> 64"
  shows "set_value k v = Inr (Some (kCommandIDLidarWorkModeControl, rq 1 [(k, v)]))"
proof -
  let ?h = "rq 1 [] @ le16b (key_code k) @ le16b (of_nat (length v))"
  have l: "length (rq 1 []) = 4" by (simp add: rq_def)
  have "put_head k (of_nat (length v)) (padded (rq 1 []), 4) = Inr (padded ?h)" by (rule put_head_padded) (simp_all add: l)
  moreover have "write_at (padded ?h) 8 v = Inr (padded (?h @ v))" using assms by (intro append_padded) (simp_all add: l)
  moreover have "?h @ v = rq 1 [(k, v)]" by (simp add: rq_def entry_eq)
  moreover have "send_request kCommandIDLidarWorkModeControl (padded (rq 1 [(k, v)]), 4 + 4 + of_nat (length v)) =
      Inr (Some (kCommandIDLidarWorkModeControl, rq 1 [(k, v)]))"
    using assms by (intro send_padded) (simp_all add: rq_def entry_eq unat_word_ariths unat_of_nat)
  ultimately show ?thesis by (simp add: set_value_def begin_request_eq)
qed

lemma set_value_reads_back:
  assumes "has_member k" and "length v = value_size k" and "k \<notin> {kKeySn, kKeyProductInfo}"
  shows "reads_back (set_value k v) [(k, v)]"
proof (rule reads_backI)
  have "length v \<le> 64" using value_size_bounds [OF assms(1)] assms(2) by simp
  then show "set_value k v = Inr (Some (kCommandIDLidarWorkModeControl, rq (of_nat (length [(k, v)])) [(k, v)]))"
    "length (rq (of_nat (length [(k, v)])) [(k, v)]) < 65536"
    by (simp_all add: set_value_eq rq_def entry_eq)
qed (use assms in \<open>simp_all add: well_sized_def terminated_def\<close>)

lemma host_well_sized: "is_ip_key k \<Longrightarrow> valid_ip ip \<Longrightarrow> well_sized (k, host_value ip hp lp)"
  using member_sizes(1) [of k] valid_ip_bytes [of ip] by (auto simp: well_sized_def value_size_def host_value_def is_ip_key_def)

lemma host_terminated: "\<forall>e \<in> set es. is_ip_key (fst e) \<Longrightarrow> terminated es"
  by (auto simp: terminated_def list_all_iff is_ip_key_def)

lemma set_host_reads_back:
  assumes "is_ip_key k" and "valid_ip (host_ip_addr c)"
  shows "reads_back (obind (BuildSetHostRequest k c req_buff) (send_request kCommandIDLidarWorkModeControl))
    [(k, host_value (host_ip_addr c) (host_port c) (lidar_port c))]"
proof (rule reads_backI)
  let ?es = "[(k, host_value (host_ip_addr c) (host_port c) (lidar_port c))]"
  have l: "length (rq n []) = 4" for n by (simp add: rq_def)
  have lv: "length (host_value (host_ip_addr c) (host_port c) (lidar_port c)) = 8"
    using valid_ip_bytes [OF assms(2)] by (simp add: host_value_def)
  have "BuildSetHostRequest k c req_buff = Inr (Some (padded (rq 1 ?es), 16))"
    using put_host_padded(1) [of "[host_ip_addr c]" 4 1 "[]" k "host_port c" "lidar_port c"] assms(2) l
    by (simp add: BuildSetHostRequest_def begin_request_eq)
  moreover have "send_request kCommandIDLidarWorkModeControl (padded (rq 1 ?es), 16) = Inr (Some (kCommandIDLidarWorkModeControl, rq 1 ?es))"
    by (rule send_padded) (simp_all add: rq_def entry_eq lv)
  ultimately show "obind (BuildSetHostRequest k c req_buff) (send_request kCommandIDLidarWorkModeControl) =
      Inr (Some (kCommandIDLidarWorkModeControl, rq (of_nat (length ?es)) ?es))"
    by (simp add: obind_def)
  show "length (rq (of_nat (length ?es)) ?es) < 65536" by (simp add: rq_def entry_eq lv)
qed (use assms host_well_sized in \<open>simp_all add: host_terminated\<close>)

lemma put_three_ips:
  assumes "valid_ip a" and "valid_ip b" and "valid_ip c" and "length pre \<le> 1000" and "n + 4 = length pre"
  shows "obind (InitHostIpAddr a (n + 4) (padded pre)) (\<lambda>b2. obind (InitHostIpAddr b (n + 8) b2) (\<lambda>b3.
    obind (InitHostIpAddr c (n + 12) b3) (\<lambda>b4. Inr (Some (b4, len))))) = Inr (Some (padded (pre @ ip_bytes a @ ip_bytes b @ ip_bytes c), len))"
proof -
  note v = valid_ip_bytes [OF assms(1)] valid_ip_bytes [OF assms(2)] valid_ip_bytes [OF assms(3)]
  have z: "length [0, 0, 0, 0 :: byte] = 4" by simp
  note w = InitHostIpAddr_padded(2) [OF _ z]
  show ?thesis
    using w [of a "ip_bytes a" pre "n + 4"] w [of b "ip_bytes b" "pre @ ip_bytes a" "n + 8"]
      w [of c "ip_bytes c" "pre @ ip_bytes a @ ip_bytes b" "n + 12"] v assms(4,5)
    by (simp add: obind_def)
qed

lemma set_lidar_ip_reads_back:
  assumes "valid_ip (ip_addr c)" and "valid_ip (net_mask c)" and "valid_ip (gw_addr c)"
  shows "reads_back (SetLivoxLidarIp c) [(kKeyLidarIpCfg, ip_bytes (ip_addr c) @ ip_bytes (net_mask c) @ ip_bytes (gw_addr c))]"
    (is "reads_back _ [(_, ?v)]")
proof (rule reads_backI)
  have lv: "length ?v = 12" using valid_ip_bytes assms by simp
  have l: "length (rq 1 []) = 4" by (simp add: rq_def)
  have "put_head kKeyLidarIpCfg 12 (padded (rq 1 []), 4) = Inr (padded (rq 1 [] @ le16b (key_code kKeyLidarIpCfg) @ le16b 12))"
    by (rule put_head_padded) (simp_all add: l)
  moreover have "obind (InitHostIpAddr (ip_addr c) (unat (4 :: 16 word) + 4) (padded (rq 1 [] @ le16b (key_code kKeyLidarIpCfg) @ le16b 12)))
      (\<lambda>b2. obind (InitHostIpAddr (net_mask c) (unat (4 :: 16 word) + 8) b2)
      (\<lambda>b3. obind (InitHostIpAddr (gw_addr c) (unat (4 :: 16 word) + 12) b3) (\<lambda>b4. Inr (Some (b4, 4 + 16 :: 16 word))))) =
      Inr (Some (padded ((rq 1 [] @ le16b (key_code kKeyLidarIpCfg) @ le16b 12) @ ?v), 4 + 16))"
    by (rule put_three_ips [OF assms]) (simp_all add: l)
  moreover have "(rq 1 [] @ le16b (key_code kKeyLidarIpCfg) @ le16b 12) @ ?v = rq 1 [(kKeyLidarIpCfg, ?v)]"
    using lv by (simp add: rq_def entry_eq)
  ultimately have "BuildSetLidarIPInfoRequest c req_buff = Inr (Some (padded (rq 1 [(kKeyLidarIpCfg, ?v)]), 4 + 16))"
    by (simp only: BuildSetLidarIPInfoRequest_def begin_request_eq sbind_simps prod.case)
  moreover have "send_request kCommandIDLidarWorkModeControl (padded (rq 1 [(kKeyLidarIpCfg, ?v)]), 4 + 16) =
      Inr (Some (kCommandIDLidarWorkModeControl, rq 1 [(kKeyLidarIpCfg, ?v)]))"
    using lv by (intro send_padded) (simp_all add: rq_def entry_eq)
  ultimately show "SetLivoxLidarIp c = Inr (Some (kCommandIDLidarWorkModeControl, rq (of_nat (length [(kKeyLidarIpCfg, ?v)])) [(kKeyLidarIpCfg, ?v)]))"
    by (simp add: SetLivoxLidarIp_def obind_def)
  show "length (rq (of_nat (length [(kKeyLidarIpCfg, ?v)])) [(kKeyLidarIpCfg, ?v)]) < 65536" using lv by (simp add: rq_def entry_eq)
  show "list_all well_sized [(kKeyLidarIpCfg, ?v)]" using lv member_sizes(2) by (simp add: well_sized_def value_size_def)
qed (simp_all add: terminated_def)

lemma length_words [simp]: "length (concat (map le32b ws)) = 4 * length ws"
  by (induction ws) simp_all

lemmas setting_defs = SetLivoxLidarPclDataType_def SetLivoxLidarScanPattern_def SetLivoxLidarDualEmit_def EnableLivoxLidarPointSend_def DisableLivoxLidarPointSend_def SetLivoxLidarInstallAttitude_def SetLivoxLidarFovCfg0_def SetLivoxLidarFovCfg1_def EnableLivoxLidarFov_def DisableLivoxLidarFov_def SetLivoxLidarDetectMode_def SetLivoxLidarFuncIOCfg_def SetLivoxLidarBlindSpot_def SetLivoxLidarWorkMode_def EnableLivoxLidarGlassHeat_def DisableLivoxLidarGlassHeat_def SetLivoxLidarGlassHeat_def EnableLivoxLidarImuData_def DisableLivoxLidarImuData_def EnableLivoxLidarFusaFunciont_def DisableLivoxLidarFusaFunciont_def


lemma valid_dotted: "length v = 4 \<Longrightarrow> valid_ip (dotted v)" "length v = 4 \<Longrightarrow> ip_bytes (dotted v) = v"
  by (simp_all add: valid_ip_def ip_bytes_def IpToU8_dotted)


text \<open>The data hosts of a lidar of type Mid-360, as they are configured when it is detected.\<close>

lemma mid360_configuration_reads_back:
  assumes "valid_ip (host_ip (host_net_info cfg))" and "valid_ip (data_ip (host_net_info cfg))"
  defines "h \<equiv> host_net_info cfg"
  shows "reads_back (obind (BuildUpdateMid360LidarCfgRequest cfg req_buff) (send_request kCommandIDLidarWorkModeControl))
    [(kKeyStateInfoHostIpCfg, host_value (data_ip h) (push_msg_port h) kMid360LidarPushMsgPort),
     (kKeyLidarPointDataHostIpCfg, host_value (data_ip h) (point_data_port h) kMid360LidarPointCloudPort),
     (kKeyLidarImuHostIpCfg, host_value (data_ip h) (imu_data_port h) kMid360LidarImuDataPort)]"
    (is "reads_back _ ?es")
proof (rule reads_backI)
  have lv: "length (host_value (data_ip h) p q) = 8" for p q using valid_ip_bytes assms by (simp add: host_value_def)
  have l: "unat (4 :: 16 word) = length (rq 3 [])" by (simp add: rq_def)
  let ?e1 = "(kKeyStateInfoHostIpCfg, host_value (data_ip h) (push_msg_port h) kMid360LidarPushMsgPort)"
  let ?e2 = "(kKeyLidarPointDataHostIpCfg, host_value (data_ip h) (point_data_port h) kMid360LidarPointCloudPort)"
  have s1: "put_host kKeyStateInfoHostIpCfg [host_ip h, data_ip h] (push_msg_port h) kMid360LidarPushMsgPort (padded (rq 3 []), 4) =
      Inr (Some (padded (rq 3 [?e1]), 16))"
    using put_host_padded(1) [OF _ _ l, of "[host_ip h, data_ip h]"] assms by (simp add: rq_def)
  have s2: "put_host kKeyLidarPointDataHostIpCfg [data_ip h] (point_data_port h) kMid360LidarPointCloudPort (padded (rq 3 [?e1]), 16) =
      Inr (Some (padded (rq 3 [?e1, ?e2]), 28))"
    using put_host_padded(1) [of "[data_ip h]" 16 3 "[?e1]"] assms lv by (simp add: rq_def entry_eq)
  have s3: "put_host kKeyLidarImuHostIpCfg [data_ip h] (imu_data_port h) kMid360LidarImuDataPort (padded (rq 3 [?e1, ?e2]), 28) =
      Inr (Some (padded (rq 3 ?es), 40))"
    using put_host_padded(1) [of "[data_ip h]" 28 3 "[?e1, ?e2]"] assms lv by (simp add: rq_def entry_eq)
  have "send_request kCommandIDLidarWorkModeControl (padded (rq 3 ?es), 40) = Inr (Some (kCommandIDLidarWorkModeControl, rq 3 ?es))"
    by (rule send_padded) (simp_all add: rq_def entry_eq lv)
  then show "obind (BuildUpdateMid360LidarCfgRequest cfg req_buff) (send_request kCommandIDLidarWorkModeControl) =
      Inr (Some (kCommandIDLidarWorkModeControl, rq (of_nat (length ?es)) ?es))"
    by (simp add: BuildUpdateMid360LidarCfgRequest_def Let_def begin_request_eq obind_def s1 s2 s3 flip: h_def)
  show "length (rq (of_nat (length ?es)) ?es) < 65536" by (simp add: rq_def entry_eq lv)
  show "list_all well_sized ?es" using assms by (simp add: host_well_sized is_ip_key_def)
  show "terminated ?es" by (rule host_terminated) (simp add: is_ip_key_def)
qed simp

text \<open>Two hosts, as the other builders write them.\<close>

lemma put_two_hosts:
  assumes "valid_ip ip"
  shows "put_host kKeyLidarPointDataHostIpCfg [ip] p q (padded (rq 2 []), 4) =
      Inr (Some (padded (rq 2 [(kKeyLidarPointDataHostIpCfg, host_value ip p q)]), 16))"
    "put_host kKeyLidarImuHostIpCfg [ip] p' q' (padded (rq 2 [(kKeyLidarPointDataHostIpCfg, host_value ip p q)]), 16) =
      Inr (Some (padded (rq 2 [(kKeyLidarPointDataHostIpCfg, host_value ip p q), (kKeyLidarImuHostIpCfg, host_value ip p' q')]), 28))"
    "reads_back (send_request kCommandIDLidarWorkModeControl
       (padded (rq 2 [(kKeyLidarPointDataHostIpCfg, host_value ip p q), (kKeyLidarImuHostIpCfg, host_value ip p' q')]), 28))
      [(kKeyLidarPointDataHostIpCfg, host_value ip p q), (kKeyLidarImuHostIpCfg, host_value ip p' q')]"
    (is "reads_back _ ?es")
proof -
  have lv: "length (host_value ip p q) = 8" for p q using valid_ip_bytes assms by (simp add: host_value_def)
  show "put_host kKeyLidarPointDataHostIpCfg [ip] p q (padded (rq 2 []), 4) =
      Inr (Some (padded (rq 2 [(kKeyLidarPointDataHostIpCfg, host_value ip p q)]), 16))"
    using put_host_padded(1) [of "[ip]" 4 2 "[]"] assms by (simp add: rq_def)
  show "put_host kKeyLidarImuHostIpCfg [ip] p' q' (padded (rq 2 [(kKeyLidarPointDataHostIpCfg, host_value ip p q)]), 16) =
      Inr (Some (padded (rq 2 ?es), 28))"
    using put_host_padded(1) [of "[ip]" 16 2 "[(kKeyLidarPointDataHostIpCfg, host_value ip p q)]"] assms lv by (simp add: rq_def entry_eq)
  have l: "length (rq 2 ?es) = 28" by (simp add: rq_def entry_eq lv)
  show "reads_back (send_request kCommandIDLidarWorkModeControl (padded (rq 2 ?es), 28)) ?es"
  proof (rule reads_backI)
    show "send_request kCommandIDLidarWorkModeControl (padded (rq 2 ?es), 28) =
        Inr (Some (kCommandIDLidarWorkModeControl, rq (of_nat (length ?es)) ?es))"
      using send_padded [of 28 "rq 2 ?es"] l by simp
    show "length (rq (of_nat (length ?es)) ?es) < 65536" using l by simp
    show "list_all well_sized ?es" using assms by (simp add: host_well_sized is_ip_key_def)
    show "terminated ?es" by (rule host_terminated) (simp add: is_ip_key_def)
  qed simp
qed

text \<open>
  The data hosts a lidar is given when it is detected are the configured ones, by every builder:
  for a Mid-360, for a HAP, and in the viewer; read back they are the configured address and
  ports, the multicast address where one is set.
\<close>

theorem detected_lidar_is_configured:
  assumes "valid_ip (host_ip (host_net_info cfg))" and "valid_ip (data_ip (host_net_info cfg))" and "device_type cfg = kLivoxLidarTypeIndustrialHAP"
    and "valid_ip (vi_host_ip v)" and "vi_dev_type v \<noteq> kLivoxLidarTypePA"
  shows "(let h = host_net_info cfg; ip = data_ip h in
     reads_back (obind (BuildUpdateMid360LidarCfgRequest cfg req_buff) (send_request kCommandIDLidarWorkModeControl))
       [(kKeyStateInfoHostIpCfg, host_value ip (push_msg_port h) kMid360LidarPushMsgPort),
        (kKeyLidarPointDataHostIpCfg, host_value ip (point_data_port h) kMid360LidarPointCloudPort),
        (kKeyLidarImuHostIpCfg, host_value ip (imu_data_port h) kMid360LidarImuDataPort)]
     \<and> reads_back (obind (BuildUpdateLidarCfgRequest cfg req_buff) (send_request kCommandIDLidarWorkModeControl))
       [(kKeyLidarPointDataHostIpCfg, host_value ip (point_data_port h) kHAPPointDataPort),
        (kKeyLidarImuHostIpCfg, host_value ip (imu_data_port h) kHAPIMUPort)]
     \<and> reads_back (obind (BuildUpdateViewLidarCfgRequest v req_buff) (send_request kCommandIDLidarWorkModeControl))
       [(kKeyLidarPointDataHostIpCfg, host_value (vi_host_ip v) (host_point_port v) (lidar_point_port v)),
        (kKeyLidarImuHostIpCfg, host_value (vi_host_ip v) (host_imu_data_port v) (lidar_imu_data_port v))])"
proof -
  have t: "kLivoxLidarTypeIndustrialHAP \<noteq> kLivoxLidarTypePA"
    by (simp add: kLivoxLidarTypeIndustrialHAP_def kLivoxLidarTypePA_def)
  have ports: "point_port kLivoxLidarTypeIndustrialHAP = Some kHAPPointDataPort" "imu_port kLivoxLidarTypeIndustrialHAP = Some kHAPIMUPort"
    by (simp_all add: point_port_def imu_port_def)
  note two = put_two_hosts [OF assms(2)] and twov = put_two_hosts [OF assms(4)]
  show ?thesis
    unfolding Let_def
  proof (intro conjI)
    show "reads_back (obind (BuildUpdateLidarCfgRequest cfg req_buff) (send_request kCommandIDLidarWorkModeControl))
       [(kKeyLidarPointDataHostIpCfg, host_value (data_ip (host_net_info cfg)) (point_data_port (host_net_info cfg)) kHAPPointDataPort),
        (kKeyLidarImuHostIpCfg, host_value (data_ip (host_net_info cfg)) (imu_data_port (host_net_info cfg)) kHAPIMUPort)]"
      using two(3) by (simp add: BuildUpdateLidarCfgRequest_def begin_request_eq put_data_host_def obind_def assms(3) t ports two(1,2) Let_def)
    show "reads_back (obind (BuildUpdateViewLidarCfgRequest v req_buff) (send_request kCommandIDLidarWorkModeControl))
       [(kKeyLidarPointDataHostIpCfg, host_value (vi_host_ip v) (host_point_port v) (lidar_point_port v)),
        (kKeyLidarImuHostIpCfg, host_value (vi_host_ip v) (host_imu_data_port v) (lidar_imu_data_port v))]"
      using twov(3) by (simp add: BuildUpdateViewLidarCfgRequest_def begin_request_eq obind_def assms(5) twov(1,2))
  qed (rule mid360_configuration_reads_back [OF assms(1,2)])
qed

definition example_cfg :: LivoxLidarCfg where
  "example_cfg = \<lparr>device_type = kLivoxLidarTypeIndustrialHAP, host_net_info =
     \<lparr>host_ip = dotted [192, 168, 1, 5], multicast_ip = [], push_msg_port = 56201, point_data_port = 56301, imu_data_port = 56401\<rparr>\<rparr>"

definition example_view :: ViewLidarIpInfo where
  "example_view = \<lparr>vi_dev_type = kLivoxLidarTypeMid360, vi_host_ip = dotted [192, 168, 1, 50], lidar_point_port = 56300,
     lidar_imu_data_port = 56400, host_point_port = 57000, host_imu_data_port = 58000\<rparr>"

theorem detected_lidar_is_configured_witness:
  "reads_back (obind (BuildUpdateMid360LidarCfgRequest example_cfg req_buff) (send_request kCommandIDLidarWorkModeControl))
     [(kKeyStateInfoHostIpCfg, [192, 168, 1, 5] @ le16b 56201 @ le16b 56200),
      (kKeyLidarPointDataHostIpCfg, [192, 168, 1, 5] @ le16b 56301 @ le16b 56300),
      (kKeyLidarImuHostIpCfg, [192, 168, 1, 5] @ le16b 56401 @ le16b 56400)]"
proof -
  have "valid_ip (host_ip (host_net_info example_cfg))" "valid_ip (data_ip (host_net_info example_cfg))"
    "device_type example_cfg = kLivoxLidarTypeIndustrialHAP" "valid_ip (vi_host_ip example_view)" "vi_dev_type example_view \<noteq> kLivoxLidarTypePA"
    by (simp_all add: example_cfg_def example_view_def data_ip_def valid_dotted(1) kLivoxLidarTypeMid360_def kLivoxLidarTypePA_def)
  note detected_lidar_is_configured [OF this, unfolded Let_def, THEN conjunct1]
  then show ?thesis
    by (simp add: example_cfg_def data_ip_def host_value_def valid_dotted(2) kMid360LidarPushMsgPort_def
        kMid360LidarPointCloudPort_def kMid360LidarImuDataPort_def)
qed

end
