(* ===== verification/Commands.thy ===== *)
theory Commands
  imports BuildRequest
begin

text \<open>
  The commands that wait for their answers (\<open>general_command_handler.cpp\<close>,
  \<open>mid360_command_handler.cpp\<close>, \<open>hap_command_handler.cpp\<close>, \<open>generate_seq.cpp\<close>).  A command is sent by a thread of the
  application, its acknowledgement comes to the thread of the sockets, its timeout to a timer.  The
  table is locked, the sequence of sending and recording is not: a send is two steps,
  between which the other threads may run.
\<close>

section \<open>State\<close>

datatype livox_status = kLivoxLidarStatusSendFailed | kLivoxLidarStatusTimeout | kLivoxLidarStatusFailure | kLivoxLidarStatusSuccess

text \<open>A callback is known by a number; \<open>None\<close> is the null pointer.  Times are milliseconds.\<close>

record Command =
  packet :: CommPacket
  cm_handle :: "32 word"
  time_out :: int
  cb :: "nat option"

type_synonym pending = "32 word \<times> Command \<times> int"

text \<open>
  The generator, the table in the order of its keys, the types of the detected devices and the types
  that have a handler; the commands that a thread has sent and not yet recorded.
\<close>

record GeneralCommandHandler =
  gen_seq :: "32 word"
  commands :: "pending list"
  device_dev_type :: "32 word \<Rightarrow> byte option"
  lidars_command_handler :: "byte list"
  sending :: "Command list"

datatype sdk_out =
    Sent "32 word" "16 word" "byte list"
  | Callback nat livox_status "32 word" "byte list option"
  | Detected "32 word" CommPacket
  | PushInfo "32 word" byte "json_call list"

definition kDetectionPort :: "16 word" where "kDetectionPort = 56000"
definition kCommandIDLidarSearch :: "16 word" where "kCommandIDLidarSearch = 0"
definition kCommandIDLidarPushMsg :: "16 word" where "kCommandIDLidarPushMsg = 0x0102"
definition kCommandTypeCmd :: byte where "kCommandTypeCmd = 0"
definition kCommandTypeAck :: byte where "kCommandTypeAck = 1"
definition kHostSend :: byte where "kHostSend = 0"
definition KDefaultTimeOut :: int where "KDefaultTimeOut = 1000"
definition kHAPCmdPort :: "16 word" where "kHAPCmdPort = 56000"
definition kHAPPushMsgPort :: "16 word" where "kHAPPushMsgPort = 56000"
definition kMid360LidarCmdPort :: "16 word" where "kMid360LidarCmdPort = 56100"
definition kPaLidarFaultPort :: "16 word" where "kPaLidarFaultPort = 10001"

section \<open>The table\<close>

definition seq_of :: "Command \<Rightarrow> 32 word" where
  "seq_of c = seq_num (packet c)"

definition map_del :: "32 word \<Rightarrow> pending list \<Rightarrow> pending list" where
  "map_del k m = filter (\<lambda>e. fst e \<noteq> k) m"

definition map_put :: "32 word \<Rightarrow> Command \<times> int \<Rightarrow> pending list \<Rightarrow> pending list" where
  "map_put k v m = insort_key fst (k, v) (map_del k m)"

definition GetSeq :: "GeneralCommandHandler \<Rightarrow> 32 word \<times> GeneralCommandHandler" where
  "GetSeq s = (let desired = (if gen_seq s = 0xFFFF then 1 else gen_seq s + 1) in (desired, s\<lparr>gen_seq := desired\<rparr>))"

definition AddCommand :: "Command \<Rightarrow> int \<Rightarrow> GeneralCommandHandler \<Rightarrow> GeneralCommandHandler" where
  "AddCommand c now s =
     (if cmd_type (packet c) = kCommandTypeAck then s
      else s\<lparr>commands := map_put (seq_of c) (c\<lparr>packet := (packet c)\<lparr>cp_data := [], data_len := 0\<rparr>\<rparr>, now + time_out c) (commands s)\<rparr>)"

definition call :: "nat option \<Rightarrow> livox_status \<Rightarrow> 32 word \<Rightarrow> byte list option \<Rightarrow> sdk_out list" where
  "call f st handle d = (case f of None \<Rightarrow> [] | Some c \<Rightarrow> [Callback c st handle d])"

definition CommandsHandle :: "int \<Rightarrow> GeneralCommandHandler \<Rightarrow> GeneralCommandHandler \<times> sdk_out list" where
  "CommandsHandle now s =
     (s\<lparr>commands := filter (\<lambda>(q, c, t). \<not> now > t) (commands s)\<rparr>,
      concat (map (\<lambda>(q, c, t). call (cb c) kLivoxLidarStatusTimeout (cm_handle c) None) (filter (\<lambda>(q, c, t). now > t) (commands s))))"

section \<open>Sending\<close>

definition GetLidarCommandHandler :: "GeneralCommandHandler \<Rightarrow> 32 word \<Rightarrow> byte option" where
  "GetLidarCommandHandler s handle =
     (case device_dev_type s handle of None \<Rightarrow> None
      | Some t \<Rightarrow> if t \<in> set (lidars_command_handler s) then Some t else None)"

definition cmd_port :: "byte \<Rightarrow> 16 word" where
  "cmd_port t = (if t = kLivoxLidarTypeIndustrialHAP then kHAPCmdPort else kMid360LidarCmdPort)"

text \<open>
  \<open>SendCommand\<close> of the handlers of a Mid-360 and a HAP, the latter of which records the command
  first.  What \<open>Pack\<close> returns is not looked at: where it fails the length stays 0 and an empty
  packet is sent.  Whether the socket took it is an argument.
\<close>

definition HandlerSendCommand :: "byte \<Rightarrow> nat \<Rightarrow> nat \<Rightarrow> bool \<Rightarrow> int \<Rightarrow> Command \<Rightarrow> GeneralCommandHandler
    \<Rightarrow> exn + (GeneralCommandHandler \<times> sdk_out list \<times> livox_status)" where
  "HandlerSendCommand t a b ok now c s =
     (if cmd_type (packet c) = kCommandTypeAck then Inr (s, [], kLivoxLidarStatusFailure)
      else let s1 = (if t = kLivoxLidarTypeIndustrialHAP then AddCommand c now s else s) in
      sbind (Pack a b (replicate (kMaxCommandBufferSize + 1) 0) (of_nat kMaxCommandBufferSize) (packet c)) (\<lambda>(r, buf, size).
        let n = (case size of None \<Rightarrow> 0 | Some n \<Rightarrow> unat n) in
        if \<not> ok then Inr (s1, call (cb c) kLivoxLidarStatusSendFailed (cm_handle c) None, kLivoxLidarStatusSendFailed)
        else Inr (s1, [Sent (cm_handle c) (cmd_port t) (take n buf)], kLivoxLidarStatusSuccess)))"

definition make_command :: "32 word \<Rightarrow> 16 word \<Rightarrow> byte list \<Rightarrow> 16 word \<Rightarrow> 32 word \<Rightarrow> nat option \<Rightarrow> Command" where
  "make_command sq cid d len handle f =
     \<lparr>packet = \<lparr>protocol = kLidarSdk, version = 3, seq_num = sq, cmd_id = cid, cmd_type = kCommandTypeCmd,
                sender_type = kHostSend, cp_data = d, data_len = len\<rparr>,
      cm_handle = handle, time_out = KDefaultTimeOut, cb = f\<rparr>"

text \<open>The first part of \<open>SendCommand\<close>: up to the call of the handler, and after it the record.\<close>

definition SendStart :: "nat \<Rightarrow> nat \<Rightarrow> bool \<Rightarrow> int \<Rightarrow> 32 word \<Rightarrow> 16 word \<Rightarrow> byte list \<Rightarrow> 16 word \<Rightarrow> nat option
    \<Rightarrow> GeneralCommandHandler \<Rightarrow> exn + (GeneralCommandHandler \<times> sdk_out list \<times> livox_status)" where
  "SendStart a b ok now handle command_id d len f s =
     (let (sq, s1) = GetSeq s; c = make_command sq command_id d len handle f in
      case GetLidarCommandHandler s1 handle of
        None \<Rightarrow> Inr (s1, [], kLivoxLidarStatusSendFailed)
      | Some t \<Rightarrow> sbind (HandlerSendCommand t a b ok now c s1) (\<lambda>(s2, os, _).
          Inr (s2\<lparr>sending := sending s2 @ [c]\<rparr>, os, kLivoxLidarStatusSuccess)))"

text \<open>The thread of the \<open>i\<close>-th unrecorded command goes on.\<close>

definition SendEnd :: "nat \<Rightarrow> int \<Rightarrow> GeneralCommandHandler \<Rightarrow> GeneralCommandHandler" where
  "SendEnd i now s =
     (if i < length (sending s)
      then AddCommand (sending s ! i) now (s\<lparr>sending := take i (sending s) @ drop (Suc i) (sending s)\<rparr>) else s)"

section \<open>Receiving\<close>

definition PushLivoxLidarInfo :: "32 word \<Rightarrow> json_call list \<Rightarrow> GeneralCommandHandler \<Rightarrow> sdk_out list" where
  "PushLivoxLidarInfo handle info s = (case device_dev_type s handle of None \<Rightarrow> [] | Some t \<Rightarrow> [PushInfo handle t info])"

definition push_port :: "byte \<Rightarrow> 16 word" where
  "push_port t = (if t = kLivoxLidarTypeIndustrialHAP then kHAPPushMsgPort else kMid360LidarPushMsgPort)"

text \<open>A report that cannot be parsed is pushed as the empty text; \<open>mem\<close> is what the stack held.\<close>

definition OnCommandCmd :: "byte list \<Rightarrow> byte \<Rightarrow> 32 word \<Rightarrow> 16 word \<Rightarrow> CommPacket \<Rightarrow> GeneralCommandHandler \<Rightarrow> exn + sdk_out list" where
  "OnCommandCmd mem t handle port p s =
     (if cmd_id p = kCommandIDLidarPushMsg \<and> port = push_port t
      then sbind (Parse p mem) (\<lambda>r. Inr (PushLivoxLidarInfo handle (case r of None \<Rightarrow> [] | Some info \<Rightarrow> info) s))
      else Inr [])"

definition OnCommandAck :: "nat option \<Rightarrow> 32 word \<Rightarrow> byte list option \<Rightarrow> sdk_out list" where
  "OnCommandAck f handle d =
     (case d of None \<Rightarrow> call f kLivoxLidarStatusTimeout handle d | Some _ \<Rightarrow> call f kLivoxLidarStatusSuccess handle d)"

text \<open>\<open>Handle\<close> of the two handlers, with the callback the command has; the packet has data.\<close>

definition Handle :: "byte list \<Rightarrow> byte \<Rightarrow> 32 word \<Rightarrow> 16 word \<Rightarrow> CommPacket \<Rightarrow> nat option \<Rightarrow> GeneralCommandHandler \<Rightarrow> exn + sdk_out list" where
  "Handle mem t handle port p f s =
     (if cmd_type p = kCommandTypeAck then Inr (OnCommandAck f handle (Some (cp_data p)))
      else if cmd_type p = kCommandTypeCmd then OnCommandCmd mem t handle port p s
      else Inr [])"

text \<open>The handler for devices whose type is not yet known, and the one that is given it.\<close>

definition HandlerUntyped :: "byte list \<Rightarrow> nat \<Rightarrow> 32 word \<Rightarrow> 16 word \<Rightarrow> byte list \<Rightarrow> 32 word \<Rightarrow> GeneralCommandHandler
    \<Rightarrow> exn + (GeneralCommandHandler \<times> sdk_out list)" where
  "HandlerUntyped mem a handle port buf buf_size s =
     (if buf_size = 0 then Inr (s, [])
      else sbind (ParseCommStream a buf buf_size) (\<lambda>r. case r of
        None \<Rightarrow> Inr (s, [])
      | Some p \<Rightarrow>
          if port = kDetectionPort \<and> cmd_id p = kCommandIDLidarSearch
          then Inr (s, if cmd_type p = kCommandTypeCmd then [] else [Detected handle p])
          else if cmd_type p = kCommandTypeAck
          then (case map_of (commands s) (seq_num p) of
                  None \<Rightarrow> Inr (s, [])
                | Some (c, t) \<Rightarrow> Inr (s\<lparr>commands := map_del (seq_num p) (commands s)\<rparr>,
                    call (cb c) kLivoxLidarStatusSuccess handle (Some (cp_data p))))
          else if cmd_id p = kCommandIDLidarPushMsg
          then (case GetLidarCommandHandler s handle of
                  None \<Rightarrow> Inr (s, [])
                | Some t \<Rightarrow> sbind (Handle mem t handle port p None s) (\<lambda>os. Inr (s, os)))
          else Inr (s, [])))"

text \<open>An acknowledgement that nobody waits for goes to the handler as an empty command, which does nothing.\<close>

definition HandlerTyped :: "byte list \<Rightarrow> nat \<Rightarrow> byte \<Rightarrow> 32 word \<Rightarrow> 16 word \<Rightarrow> byte list \<Rightarrow> 32 word \<Rightarrow> GeneralCommandHandler
    \<Rightarrow> exn + (GeneralCommandHandler \<times> sdk_out list)" where
  "HandlerTyped mem a dev_type handle port buf buf_size s =
     (if buf_size = 0 \<or> dev_type = kLivoxLidarTypePA \<and> port = kPaLidarFaultPort then Inr (s, [])
      else sbind (ParseCommStream a buf buf_size) (\<lambda>r. case r of
        None \<Rightarrow> Inr (s, [])
      | Some p \<Rightarrow>
          if port = kDetectionPort \<and> cmd_id p = kCommandIDLidarSearch
          then Inr (s, if cmd_type p = kCommandTypeCmd then [] else [Detected handle p])
          else if dev_type \<notin> set (lidars_command_handler s) then Inr (s, [])
          else if cmd_type p = kCommandTypeAck
          then (let sq = ucast (ucast (seq_num p) :: 16 word) in
                case map_of (commands s) sq of
                  None \<Rightarrow> Inr (s, [])
                | Some (c, t) \<Rightarrow> sbind (Handle mem dev_type handle port p (cb c) s)
                    (\<lambda>os. Inr (s\<lparr>commands := map_del sq (commands s)\<rparr>, os)))
          else if cmd_type p = kCommandTypeCmd
          then sbind (Handle mem dev_type handle port p None s) (\<lambda>os. Inr (s, os))
          else Inr (s, [])))"

section \<open>Runs\<close>

datatype sdk_event =
    Start nat nat bool int "32 word" "16 word" "byte list" "16 word" "nat option"
  | End nat int
  | Untyped "byte list" nat "32 word" "16 word" "byte list" "32 word"
  | Typed "byte list" nat byte "32 word" "16 word" "byte list" "32 word"
  | Timer int

fun sdk_step :: "(GeneralCommandHandler, sdk_event, sdk_out) handler" where
  "sdk_step s (Start a b ok now handle cid d len f) =
     sbind (SendStart a b ok now handle cid d len f s) (\<lambda>(s', os, _). Inr (s', os))"
| "sdk_step s (End i now) = Inr (SendEnd i now s, [])"
| "sdk_step s (Untyped mem a handle port buf n) = HandlerUntyped mem a handle port buf n s"
| "sdk_step s (Typed mem a t handle port buf n) = HandlerTyped mem a t handle port buf n s"
| "sdk_step s (Timer now) = Inr (CommandsHandle now s)"

end
