(* ===== verification/CommandRuns.thy ===== *)
theory CommandRuns
  imports Commands
begin

text \<open>
  Runs of the lidar commands: every command is answered once, and an exchange with a lidar that
  acknowledges it ends with its answer.  The contract of a table of open requests is the
  locale \<open>ledger\<close>.
\<close>

section \<open>Ledgers\<close>

text \<open>
  What is asked for is paid exactly once: in every step what is still due and what is paid
  make up for what was due and what is newly asked.
\<close>

fun total_asked :: "('s \<Rightarrow> 'e \<Rightarrow> nat) \<Rightarrow> ('s, 'e, 'o) handler \<Rightarrow> 's \<Rightarrow> 'e list \<Rightarrow> nat" where
  "total_asked asked h s [] = 0"
| "total_asked asked h s (e # es) = asked s e + (case h s e of Inl x \<Rightarrow> 0 | Inr (s', os) \<Rightarrow> total_asked asked h s' es)"

locale ledger =
  fixes h :: "('s, 'e, 'o) handler"
    and g :: "'s \<Rightarrow> 'e \<Rightarrow> bool"
    and inv :: "'s \<Rightarrow> bool"
    and due :: "'s \<Rightarrow> nat"
    and asked :: "'s \<Rightarrow> 'e \<Rightarrow> nat"
    and paid :: "'o \<Rightarrow> nat"
  assumes inv_kept: "inv s \<Longrightarrow> g s e \<Longrightarrow> h s e = Inr (s', os) \<Longrightarrow> inv s'"
    and balance: "inv s \<Longrightarrow> g s e \<Longrightarrow> h s e = Inr (s', os) \<Longrightarrow> due s' + sum_list (map paid os) = due s + asked s e"
begin

lemma run_balance:
  assumes "run_handlers h s es = Inr (s', os)" and "inv s" and "guarded g h s es"
  shows "inv s' \<and> due s' + sum_list (map paid os) = due s + total_asked asked h s es"
  using assms
proof (induction es arbitrary: s os)
  case Nil
  then show ?case by simp
next
  case (Cons e es)
  then obtain s1 o1 o2 where h1: "h s e = Inr (s1, o1)" and r: "run_handlers h s1 es = Inr (s', o2)" and os: "os = o1 @ o2"
    by (auto split: sum.splits)
  have "inv s1" "due s1 + sum_list (map paid o1) = due s + asked s e" "guarded g h s1 es"
    using inv_kept balance Cons.prems(2,3) h1 by auto
  then show ?case using Cons.IH [OF r] h1 os by simp
qed

end

section \<open>Every command is answered once\<close>

definition weight :: "nat \<Rightarrow> Command \<Rightarrow> nat" where
  "weight f c = (if cb c = Some f then 1 else 0)"

abbreviation keys :: "GeneralCommandHandler \<Rightarrow> 32 word set" where
  "keys s \<equiv> fst ` set (commands s)"

text \<open>The answers callback \<open>f\<close> still has to get: of recorded commands, and of those to be recorded.\<close>

definition pend :: "nat \<Rightarrow> pending list \<Rightarrow> nat" where
  "pend f m = sum_list (map (\<lambda>(q, c, t). weight f c) m)"

definition unrecorded :: "nat \<Rightarrow> 32 word set \<Rightarrow> Command list \<Rightarrow> nat" where
  "unrecorded f K cs = sum_list (map (\<lambda>c. if seq_of c \<in> K then 0 else weight f c) cs)"

definition due :: "nat \<Rightarrow> GeneralCommandHandler \<Rightarrow> nat" where
  "due f s = pend f (commands s) + unrecorded f (keys s) (sending s)"

definition asked :: "nat \<Rightarrow> GeneralCommandHandler \<Rightarrow> sdk_event \<Rightarrow> nat" where
  "asked f s e = (case e of
     Start a b ok now handle cid d len g \<Rightarrow> (if g = Some f \<and> GetLidarCommandHandler s handle \<noteq> None then 1 else 0)
   | _ \<Rightarrow> 0)"

definition answer :: "nat \<Rightarrow> sdk_out \<Rightarrow> nat" where
  "answer f x = (case x of Callback g st handle d \<Rightarrow> (if g = f then 1 else 0) | _ \<Rightarrow> 0)"

definition event_time :: "sdk_event \<Rightarrow> int option" where
  "event_time e = (case e of Start a b ok now handle cid d len f \<Rightarrow> Some now | End i now \<Rightarrow> Some now | _ \<Rightarrow> None)"

definition cmd_inv :: "int \<Rightarrow> GeneralCommandHandler \<Rightarrow> bool" where
  "cmd_inv T s \<longleftrightarrow> distinct (map fst (commands s)) \<and> distinct (map seq_of (sending s))
     \<and> (\<forall>c \<in> set (sending s). cmd_type (packet c) = kCommandTypeCmd \<and> time_out c = KDefaultTimeOut
          \<and> (\<forall>c' t. map_of (commands s) (seq_of c) = Some (c', t) \<longrightarrow> cb c' = cb c))
     \<and> (\<forall>(q, c, t) \<in> set (commands s). t \<le> T + KDefaultTimeOut)"

text \<open>The command an acknowledgement is taken for, by the two handlers.\<close>

definition is_ack :: "bool \<Rightarrow> nat \<Rightarrow> byte list \<Rightarrow> 32 word \<Rightarrow> 32 word option" where
  "is_ack typed a buf n = (case ParseCommStream a buf n of
     Inr (Some p) \<Rightarrow> (if cmd_type p \<noteq> kCommandTypeAck then None
       else Some (if typed then ucast (ucast (seq_num p) :: 16 word) else seq_num p))
   | _ \<Rightarrow> None)"

text \<open>
  The races left out, one by one: the socket takes every packet, a sequence number comes up again
  only when its command is done, and between a send and its record no acknowledgement of
  that command arrives and it does not expire.  \<open>T\<close> bounds the times of the sends.
\<close>

definition calm :: "int \<Rightarrow> GeneralCommandHandler \<Rightarrow> sdk_event \<Rightarrow> bool" where
  "calm T s e \<longleftrightarrow> (case event_time e of None \<Rightarrow> True | Some now \<Rightarrow> now \<le> T) \<and> (case e of
     Start a b ok now handle cid d len f \<Rightarrow> ok \<and> fst (GetSeq s) \<notin> keys s \<union> seq_of ` set (sending s)
   | End i now \<Rightarrow> True
   | Untyped mem a handle port buf n \<Rightarrow> (case is_ack False a buf n of None \<Rightarrow> True | Some q \<Rightarrow> q \<notin> seq_of ` set (sending s))
   | Typed mem a t handle port buf n \<Rightarrow> (case is_ack True a buf n of None \<Rightarrow> True | Some q \<Rightarrow> q \<notin> seq_of ` set (sending s))
   | Timer now \<Rightarrow> (\<forall>(q, c, t) \<in> set (commands s). now > t \<longrightarrow> q \<notin> seq_of ` set (sending s)))"

lemma keys_map_put [simp]: "fst ` set (map_put k v m) = insert k (fst ` set m)"
  by (auto simp: map_put_def map_del_def set_insort_key image_iff)

lemma keys_map_del [simp]: "fst ` set (map_del k m) = fst ` set m - {k}"
  by (auto simp: map_del_def)

lemma distinct_map_del: "distinct (map fst m) \<Longrightarrow> distinct (map fst (map_del k m))"
  by (auto simp: map_del_def distinct_map inj_on_def)

lemma map_fst_insort: "map fst (insort_key fst e m) = insort (fst e) (map fst m)"
  by (induction m) auto

lemma distinct_map_put: "distinct (map fst m) \<Longrightarrow> distinct (map fst (map_put k v m))"
  using distinct_map_del [of m k] keys_map_del [of k m]
  by (simp add: map_put_def map_fst_insort distinct_insort del: keys_map_del)

lemma sum_insort: "sum_list (map f (insort_key g x xs)) = f x + (sum_list (map f xs) :: nat)"
  by (induction xs) simp_all

lemma sum_map_put: "sum_list (map f (map_put k v m)) = f (k, v) + (sum_list (map f (map_del k m)) :: nat)"
  by (simp add: map_put_def sum_insort)

lemma sum_map_del:
  "distinct (map fst m) \<Longrightarrow> map_of m k = Some v \<Longrightarrow> f (k, v) + sum_list (map f (map_del k m)) = (sum_list (map f m) :: nat)"
proof (induction m)
  case (Cons e m)
  show ?case
  proof (cases "fst e = k")
    case True
    then have "map_del k m = m" using Cons.prems(1) by (auto simp: map_del_def filter_id_conv image_iff)
    then show ?thesis using True Cons.prems(2) by (cases e) (simp add: map_del_def)
  next
    case False
    then show ?thesis using Cons by (cases e) (auto simp: map_del_def)
  qed
qed simp

lemma map_del_absent: "k \<notin> fst ` set m \<Longrightarrow> map_del k m = m"
  by (auto simp: map_del_def filter_id_conv image_iff)

lemma map_of_map_del: "map_of (map_del k m) x = (if x = k then None else map_of m x)"
  by (induction m) (auto simp: map_del_def)

lemma map_of_insort: "k \<notin> fst ` set m \<Longrightarrow> map_of (insort_key fst (k, v) m) x = (if x = k then Some v else map_of m x)"
  by (induction m) auto

lemma map_of_map_put: "map_of (map_put k v m) x = (if x = k then Some v else map_of m x)"
  using keys_map_del [of k m] by (simp add: map_put_def map_of_insort map_of_map_del del: keys_map_del)

lemma set_map_put: "set (map_put k v m) = insert (k, v) (set (map_del k m))"
  by (simp add: map_put_def set_insort_key)

lemma set_map_del: "set (map_del k m) = {e \<in> set m. fst e \<noteq> k}"
  by (auto simp: map_del_def)

lemma pend_put: "pend f (map_put k (c, t) m) = weight f c + pend f (map_del k m)"
  by (simp add: pend_def sum_map_put)

lemma pend_del: "distinct (map fst m) \<Longrightarrow> map_of m k = Some (c, t) \<Longrightarrow> weight f c + pend f (map_del k m) = pend f m"
  using sum_map_del [of m k "(c, t)" "\<lambda>(q, c, t). weight f c"] by (simp add: pend_def)

lemma pend_filter: "pend f (filter P m) + pend f (filter (\<lambda>e. \<not> P e) m) = pend f m"
  by (induction m) (auto simp: pend_def)

lemma unrecorded_cong: "(\<And>c. c \<in> set cs \<Longrightarrow> seq_of c \<in> K \<longleftrightarrow> seq_of c \<in> K') \<Longrightarrow> unrecorded f K cs = unrecorded f K' cs"
  unfolding unrecorded_def by (rule arg_cong [of _ _ sum_list]) auto

lemma unrecorded_append: "unrecorded f K (cs @ [c]) = unrecorded f K cs + (if seq_of c \<in> K then 0 else weight f c)"
  by (simp add: unrecorded_def)

lemma unrecorded_nth:
  assumes "i < length cs"
  shows "unrecorded f K cs = (if seq_of (cs ! i) \<in> K then 0 else weight f (cs ! i)) + unrecorded f K (take i cs @ drop (Suc i) cs)"
proof -
  have "unrecorded f K cs = unrecorded f K (take i cs @ cs ! i # drop (Suc i) cs)" using assms by (simp add: id_take_nth_drop [symmetric])
  then show ?thesis by (simp add: unrecorded_def)
qed

lemma paid_call: "sum_list (map (answer f) (call g st handle d)) = (if g = Some f then 1 else 0)"
  by (cases g) (simp_all add: call_def answer_def)

lemma paid_timeouts: "sum_list (map (answer f) (concat (map (\<lambda>(q, c, t). call (cb c) st (cm_handle c) d) m))) = pend f m"
  by (induction m) (auto simp: pend_def paid_call weight_def)

section \<open>Each kind of step\<close>

text \<open>An answered command leaves the table.\<close>

lemma answered_step:
  assumes "cmd_inv T s" and "map_of (commands s) q = Some (c, t)" and "q \<notin> seq_of ` set (sending s)"
  shows "cmd_inv T (s\<lparr>commands := map_del q (commands s)\<rparr>)"
    and "due f (s\<lparr>commands := map_del q (commands s)\<rparr>) + weight f c = due f s"
proof -
  show "cmd_inv T (s\<lparr>commands := map_del q (commands s)\<rparr>)"
    using assms(1) by (auto simp: cmd_inv_def distinct_map_del map_of_map_del set_map_del split: if_splits)
  have "unrecorded f (keys s - {q}) (sending s) = unrecorded f (keys s) (sending s)"
    by (rule unrecorded_cong) (use assms(3) in auto)
  then show "due f (s\<lparr>commands := map_del q (commands s)\<rparr>) + weight f c = due f s"
    using pend_del [OF _ assms(2), of f] assms(1) by (simp add: due_def cmd_inv_def)
qed

lemma timer_step:
  assumes "cmd_inv T s" and "\<And>q c t. (q, c, t) \<in> set (commands s) \<Longrightarrow> now > t \<Longrightarrow> q \<notin> seq_of ` set (sending s)"
    and "CommandsHandle now s = (s', os)"
  shows "cmd_inv T s'" and "due f s' + sum_list (map (answer f) os) = due f s"
proof -
  let ?live = "\<lambda>(q, c, t). \<not> now > t"
  have s': "s' = s\<lparr>commands := filter ?live (commands s)\<rparr>"
    and os: "os = concat (map (\<lambda>(q, c, t). call (cb c) kLivoxLidarStatusTimeout (cm_handle c) None) (filter (\<lambda>e. \<not> ?live e) (commands s)))"
    using assms(3) by (auto simp: CommandsHandle_def case_prod_unfold)
  have d: "distinct (map fst (commands s))" using assms(1) by (simp add: cmd_inv_def)
  then have d': "distinct (map fst (filter ?live (commands s)))" by (auto simp: distinct_map inj_on_def)
  have sub: "map_of (filter ?live (commands s)) x = Some v \<Longrightarrow> map_of (commands s) x = Some v" for x v
    using d d' by (metis (no_types, lifting) filter_is_subset map_of_SomeD map_of_is_SomeI subsetD)
  show "cmd_inv T s'"
    using assms(1) d' sub by (fastforce simp: cmd_inv_def s')
  have "unrecorded f (fst ` set (filter ?live (commands s))) (sending s) = unrecorded f (keys s) (sending s)"
  proof (rule unrecorded_cong, rule iffI)
    fix c assume c: "c \<in> set (sending s)" and "seq_of c \<in> keys s"
    then obtain c' t where e: "(seq_of c, c', t) \<in> set (commands s)" by auto
    then have "\<not> now > t" using assms(2) c by blast
    then show "seq_of c \<in> fst ` set (filter ?live (commands s))" using e by (force simp: image_iff)
  qed auto
  then show "due f s' + sum_list (map (answer f) os) = due f s"
    using pend_filter [of f ?live "commands s"] by (simp add: due_def s' os paid_timeouts)
qed

lemma other_seq: "q \<notin> seq_of ` set cs \<Longrightarrow> c \<in> set cs \<Longrightarrow> seq_of c \<noteq> q"
  by auto

text \<open>A command that is sent, by a Mid-360 and by a HAP that records it first, and one that is recorded.\<close>

lemma sent_step:
  assumes "cmd_inv T s" and "seq_of c \<notin> keys s \<union> seq_of ` set (sending s)"
    and "cmd_type (packet c) = kCommandTypeCmd" "time_out c = KDefaultTimeOut"
  shows "cmd_inv T (s\<lparr>gen_seq := q, sending := sending s @ [c]\<rparr>)"
    and "due f (s\<lparr>gen_seq := q, sending := sending s @ [c]\<rparr>) = due f s + weight f c"
proof -
  have "map_of (commands s) (seq_of c) = None" using assms(2) by (auto simp: map_of_eq_None_iff)
  then show "cmd_inv T (s\<lparr>gen_seq := q, sending := sending s @ [c]\<rparr>)"
    using assms by (auto simp: cmd_inv_def)
  show "due f (s\<lparr>gen_seq := q, sending := sending s @ [c]\<rparr>) = due f s + weight f c"
    using assms(2) by (simp add: due_def unrecorded_append)
qed

lemma recorded_first_step:
  assumes "cmd_inv T s" and "seq_of c \<notin> keys s \<union> seq_of ` set (sending s)" and "c' = c\<lparr>packet := p\<rparr>"
    and "cmd_type (packet c) = kCommandTypeCmd" "time_out c = KDefaultTimeOut" and "t \<le> T + KDefaultTimeOut"
  shows "cmd_inv T (s\<lparr>gen_seq := q, commands := map_put (seq_of c) (c', t) (commands s), sending := sending s @ [c]\<rparr>)"
    and "due f (s\<lparr>gen_seq := q, commands := map_put (seq_of c) (c', t) (commands s), sending := sending s @ [c]\<rparr>) = due f s + weight f c"
proof -
  have c': "cb c' = cb c" by (simp add: assms(3))
  show "cmd_inv T (s\<lparr>gen_seq := q, commands := map_put (seq_of c) (c', t) (commands s), sending := sending s @ [c]\<rparr>)"
    using assms(1,2,4-) c' by (auto simp: cmd_inv_def distinct_map_put map_of_map_put set_map_put set_map_del dest: other_seq)
  have "unrecorded f (insert (seq_of c) (keys s)) (sending s) = unrecorded f (keys s) (sending s)"
    by (rule unrecorded_cong) (use assms(2) in \<open>auto dest: other_seq\<close>)
  then show "due f (s\<lparr>gen_seq := q, commands := map_put (seq_of c) (c', t) (commands s), sending := sending s @ [c]\<rparr>) = due f s + weight f c"
    using assms(2) c' by (simp add: due_def unrecorded_append pend_put map_del_absent weight_def)
qed

lemma recorded_step:
  assumes "cmd_inv T s" and "now \<le> T"
  shows "cmd_inv T (SendEnd i now s)" and "due f (SendEnd i now s) = due f s"
proof -
  have "cmd_inv T (SendEnd i now s) \<and> due f (SendEnd i now s) = due f s"
  proof (cases "i < length (sending s)")
    case False
    then show ?thesis using assms(1) by (simp add: SendEnd_def)
  next
    case True
    define c rest where "c = sending s ! i" and "rest = take i (sending s) @ drop (Suc i) (sending s)"
    let ?c' = "c\<lparr>packet := (packet c)\<lparr>cp_data := [], data_len := 0\<rparr>\<rparr>" and ?q = "seq_of c"
    have split: "sending s = take i (sending s) @ c # drop (Suc i) (sending s)"
      by (simp add: c_def True id_take_nth_drop [symmetric])
    have c: "c \<in> set (sending s)" using True by (simp add: c_def)
    then have k: "cmd_type (packet c) = kCommandTypeCmd" "time_out c = KDefaultTimeOut"
      "\<And>c' t. map_of (commands s) ?q = Some (c', t) \<Longrightarrow> cb c' = cb c"
      using assms(1) by (auto simp: cmd_inv_def)
    have s': "SendEnd i now s = s\<lparr>sending := rest, commands := map_put ?q (?c', now + KDefaultTimeOut) (commands s)\<rparr>"
      using True k(1,2) by (simp add: SendEnd_def AddCommand_def rest_def c_def kCommandTypeCmd_def kCommandTypeAck_def)
    have "distinct (map seq_of (take i (sending s) @ c # drop (Suc i) (sending s)))"
      using assms(1) split by (simp only: cmd_inv_def)
    then have r: "distinct (map seq_of rest)" "?q \<notin> seq_of ` set rest" by (auto simp: rest_def)
    have sub: "x \<in> set (sending s)" if "x \<in> set rest" for x
      using that by (auto simp: rest_def dest: in_set_takeD in_set_dropD)
    then have "cmd_inv T (SendEnd i now s)"
      using assms r sub by (auto simp: s' cmd_inv_def distinct_map_put map_of_map_put set_map_put set_map_del dest: other_seq)
    moreover have "unrecorded f (insert ?q (keys s)) rest = unrecorded f (keys s) rest"
      by (rule unrecorded_cong) (use r(2) in \<open>auto dest: other_seq\<close>)
    moreover have "unrecorded f (keys s) (sending s) = (if ?q \<in> keys s then 0 else weight f c) + unrecorded f (keys s) rest"
      unfolding c_def rest_def by (rule unrecorded_nth [OF True])
    moreover have "weight f ?c' + pend f (map_del ?q (commands s)) = (if ?q \<in> keys s then 0 else weight f c) + pend f (commands s)"
    proof (cases "map_of (commands s) ?q")
      case None
      then have "?q \<notin> keys s" by (simp add: map_of_eq_None_iff)
      then show ?thesis by (simp add: map_del_absent weight_def)
    next
      case (Some v)
      then obtain c0 t0 where v: "map_of (commands s) ?q = Some (c0, t0)" by (cases v) auto
      then have "?q \<in> keys s" by (force dest: map_of_SomeD)
      moreover have "weight f ?c' = weight f c0" using k(3) [OF v] by (simp add: weight_def)
      ultimately show ?thesis using pend_del [OF _ v, of f] assms(1) by (simp add: cmd_inv_def)
    qed
    ultimately show ?thesis by (simp add: s' due_def pend_put)
  qed
  then show "cmd_inv T (SendEnd i now s)" "due f (SendEnd i now s) = due f s" by simp_all
qed

text \<open>What the handlers do with the packet that arrives.\<close>

lemma OnCommandCmd_unpaid: "OnCommandCmd mem t handle port p s = Inr os \<Longrightarrow> sum_list (map (answer f) os) = 0"
  by (auto simp del: sum_list_eq_0_iff simp: OnCommandCmd_def PushLivoxLidarInfo_def answer_def sbind_def split: if_splits sum.splits option.splits)

lemma Handle_paid:
  "Handle mem t handle port p g s = Inr os \<Longrightarrow>
   sum_list (map (answer f) os) = (if cmd_type p = kCommandTypeAck \<and> g = Some f then 1 else 0)"
  by (auto simp del: sum_list_eq_0_iff simp: kCommandTypeCmd_def kCommandTypeAck_def Handle_def OnCommandAck_def paid_call OnCommandCmd_unpaid split: if_splits)

lemma untyped_step:
  assumes "cmd_inv T s" and "calm T s (Untyped mem a handle port buf n)" and "HandlerUntyped mem a handle port buf n s = Inr (s', os)"
  shows "cmd_inv T s'" and "due f s' + sum_list (map (answer f) os) = due f s"
proof -
  have "s' = s \<and> sum_list (map (answer f) os) = 0 \<or>
    (\<exists>q c t. map_of (commands s) q = Some (c, t) \<and> q \<notin> seq_of ` set (sending s) \<and> s' = s\<lparr>commands := map_del q (commands s)\<rparr>
       \<and> sum_list (map (answer f) os) = weight f c)"
    using assms(2,3)
    by (auto simp del: sum_list_eq_0_iff simp: HandlerUntyped_def calm_def is_ack_def paid_call weight_def answer_def sbind_def Handle_paid
        split: if_splits sum.splits option.splits prod.splits) blast+
  then show "cmd_inv T s'" "due f s' + sum_list (map (answer f) os) = due f s"
    using answered_step [OF assms(1)] assms(1) by auto
qed

lemma typed_step:
  assumes "cmd_inv T s" and "calm T s (Typed mem a t handle port buf n)" and "HandlerTyped mem a t handle port buf n s = Inr (s', os)"
  shows "cmd_inv T s'" and "due f s' + sum_list (map (answer f) os) = due f s"
proof -
  have "s' = s \<and> sum_list (map (answer f) os) = 0 \<or>
    (\<exists>q c t. map_of (commands s) q = Some (c, t) \<and> q \<notin> seq_of ` set (sending s) \<and> s' = s\<lparr>commands := map_del q (commands s)\<rparr>
       \<and> sum_list (map (answer f) os) = weight f c)"
    using assms(2,3)
    by (auto simp del: sum_list_eq_0_iff simp: HandlerTyped_def Let_def calm_def is_ack_def weight_def answer_def sbind_def Handle_paid
        kCommandTypeCmd_def kCommandTypeAck_def split: if_splits sum.splits option.splits prod.splits)
  then show "cmd_inv T s'" "due f s' + sum_list (map (answer f) os) = due f s"
    using answered_step [OF assms(1)] assms(1) by auto
qed

lemma seq_of_make [simp]: "seq_of (make_command q cid d len handle g) = q"
  by (simp add: seq_of_def make_command_def)

lemma weight_make: "weight f (make_command q cid d len handle g) = (if g = Some f then 1 else 0)"
  by (simp add: weight_def make_command_def)

lemma handler_of_updates: "GetLidarCommandHandler (s\<lparr>gen_seq := q\<rparr>) handle = GetLidarCommandHandler s handle"
  by (simp add: GetLidarCommandHandler_def split: option.splits)

text \<open>Where the socket takes the packet, sending only appends to the commands to be recorded and, for a HAP, records.\<close>

lemma SendStart_result:
  assumes "SendStart a b True now handle cid d len g s = Inr (s', os, st)"
  defines "q \<equiv> fst (GetSeq s)"
  defines "c \<equiv> make_command q cid d len handle g"
  shows "(\<forall>f. sum_list (map (answer f) os) = 0)"
    and "GetLidarCommandHandler s handle = None \<and> s' = s\<lparr>gen_seq := q\<rparr>
      \<or> GetLidarCommandHandler s handle \<noteq> None \<and> (s' = s\<lparr>gen_seq := q, sending := sending s @ [c]\<rparr>
         \<or> s' = s\<lparr>gen_seq := q, commands := map_put q (c\<lparr>packet := (packet c)\<lparr>cp_data := [], data_len := 0\<rparr>\<rparr>, now + KDefaultTimeOut) (commands s),
              sending := sending s @ [c]\<rparr>)"
proof -
  have k: "GetSeq s = (q, s\<lparr>gen_seq := q\<rparr>)" by (simp add: q_def GetSeq_def Let_def)
  note h = handler_of_updates
  have c: "cmd_type (packet c) = kCommandTypeCmd" "time_out c = KDefaultTimeOut" "seq_of c = q"
    by (simp_all add: c_def) (simp_all add: make_command_def)
  note e = assms(1) [unfolded SendStart_def k Let_def prod.case h, folded c_def]
  show "(\<forall>f. sum_list (map (answer f) os) = 0)"
    using e by (auto simp: HandlerSendCommand_def sbind_def answer_def c split: if_splits sum.splits option.splits prod.splits)
  show "GetLidarCommandHandler s handle = None \<and> s' = s\<lparr>gen_seq := q\<rparr>
      \<or> GetLidarCommandHandler s handle \<noteq> None \<and> (s' = s\<lparr>gen_seq := q, sending := sending s @ [c]\<rparr>
         \<or> s' = s\<lparr>gen_seq := q, commands := map_put q (c\<lparr>packet := (packet c)\<lparr>cp_data := [], data_len := 0\<rparr>\<rparr>, now + KDefaultTimeOut) (commands s),
              sending := sending s @ [c]\<rparr>)"
    using e by (auto simp: HandlerSendCommand_def AddCommand_def sbind_def c kCommandTypeCmd_def kCommandTypeAck_def
        split: if_splits sum.splits option.splits prod.splits)
qed

lemma started_step:
  assumes "cmd_inv T s" and "calm T s (Start a b ok now handle cid d len g)" and "SendStart a b ok now handle cid d len g s = Inr (s', os, st)"
  shows "cmd_inv T s'" and "due f s' + sum_list (map (answer f) os) = due f s + asked f s (Start a b ok now handle cid d len g)"
proof -
  define q where "q = fst (GetSeq s)"
  define c where "c = make_command q cid d len handle g"
  have c: "seq_of c \<notin> keys s \<union> seq_of ` set (sending s)" "cmd_type (packet c) = kCommandTypeCmd" "time_out c = KDefaultTimeOut"
    "now + KDefaultTimeOut \<le> T + KDefaultTimeOut" and ok: ok
    using assms(2) by (simp_all add: calm_def event_time_def c_def q_def) (simp_all add: make_command_def)
  have w: "weight f c = (if g = Some f then 1 else 0)" by (simp add: c_def weight_make)
  note r = SendStart_result [OF assms(3) [unfolded eqTrueI [OF ok]], folded q_def, folded c_def]
  have sc: "seq_of c = q" by (simp add: c_def)
  have none: "cmd_inv T (s\<lparr>gen_seq := q\<rparr>)" "due f (s\<lparr>gen_seq := q\<rparr>) = due f s"
    using assms(1) by (simp_all add: cmd_inv_def due_def)
  note sent = sent_step [OF assms(1) c(1-3), where q = q] and rec = recorded_first_step [OF assms(1) c(1) refl c(2-4), where q = q, unfolded sc]
  show "cmd_inv T s'" using r(2) none(1) sent(1) rec(1) by auto
  show "due f s' + sum_list (map (answer f) os) = due f s + asked f s (Start a b ok now handle cid d len g)"
    using r(2) none(2) sent(2) rec(2) by (auto simp del: sum_list_eq_0_iff simp: r(1) asked_def w)
qed

interpretation answers: ledger sdk_step "calm T" "cmd_inv T" "due f" "asked f" "answer f" for T f
proof
  fix s e s' os
  assume inv: "cmd_inv T s" and g: "calm T s e" and h: "sdk_step s e = Inr (s', os)"
  have "cmd_inv T s' \<and> due f s' + sum_list (map (answer f) os) = due f s + asked f s e"
  proof (cases e)
    case Start
    with h g show ?thesis using started_step [OF inv] by (auto simp: sbind_def split: sum.splits)
  next
    case End
    with h g show ?thesis using recorded_step [OF inv] by (auto simp: calm_def event_time_def asked_def)
  next
    case Untyped
    with h g show ?thesis using untyped_step [OF inv] by (simp add: asked_def)
  next
    case Typed
    with h g show ?thesis using typed_step [OF inv] by (simp add: asked_def)
  next
    case (Timer now)
    have "q \<notin> seq_of ` set (sending s)" if "(q, c, t) \<in> set (commands s)" "now > t" for q c t
      using g that by (auto simp: Timer calm_def)
    with h g Timer show ?thesis using timer_step [OF inv, of now s' os] by (simp add: asked_def)
  qed
  then show "cmd_inv T s'" "due f s' + sum_list (map (answer f) os) = due f s + asked f s e" by simp_all
qed

section \<open>Sending a request\<close>

definition next_seq :: "GeneralCommandHandler \<Rightarrow> 32 word" where
  "next_seq s = fst (GetSeq s)"

lemma GetSeq_eq: "GetSeq s = (next_seq s, s\<lparr>gen_seq := next_seq s\<rparr>)"
  by (simp add: next_seq_def GetSeq_def Let_def)

lemma seq16:
  assumes "(q :: 32 word) \<le> 0xFFFF"
  shows "q AND 0xFFFF = q" and "ucast (ucast q :: 16 word) = q"
proof -
  have u: "unat q < 2 ^ 16" using assms by (simp add: word_le_nat_alt)
  then show "ucast (ucast q :: 16 word) = q"
    by (simp add: word_unat_eq_iff unsigned_ucast_eq unsigned_take_bit_eq take_bit_nat_eq_self_iff)
  have "take_bit 16 q = q" by (simp only: word_unat_eq_iff unsigned_take_bit_eq take_bit_nat_eq_self u)
  moreover have "(0xFFFF :: 32 word) = mask 16" by (simp add: mask_eq_exp_minus_1)
  ultimately show "q AND 0xFFFF = q" by (simp add: take_bit_eq_mask)
qed

text \<open>The numbers go from 1 to 65535 and round.\<close>

lemma next_seq_range: "gen_seq s \<le> 0xFFFF \<Longrightarrow> 1 \<le> next_seq s \<and> next_seq s \<le> 0xFFFF"
proof -
  assume "gen_seq s \<le> 0xFFFF"
  then have "unat (gen_seq s) \<le> 0xFFFF" by (simp add: word_le_nat_alt)
  moreover have "unat (gen_seq s) \<noteq> 0xFFFF" if "gen_seq s \<noteq> 0xFFFF" using that by (auto simp: word_unat_eq_iff)
  ultimately have "gen_seq s \<noteq> 0xFFFF \<Longrightarrow> unat (gen_seq s + 1) = Suc (unat (gen_seq s)) \<and> Suc (unat (gen_seq s)) \<le> 0xFFFF"
    by (auto simp: unat_word_ariths)
  then show ?thesis by (auto simp: next_seq_def GetSeq_def Let_def word_le_nat_alt)
qed

abbreviation kept :: "Command \<Rightarrow> Command" where
  "kept c \<equiv> c\<lparr>packet := (packet c)\<lparr>cp_data := [], data_len := 0\<rparr>\<rparr>"

definition after_send :: "byte \<Rightarrow> int \<Rightarrow> Command \<Rightarrow> GeneralCommandHandler \<Rightarrow> GeneralCommandHandler" where
  "after_send t now c s = s\<lparr>gen_seq := next_seq s, sending := sending s @ [c],
     commands := (if t = kLivoxLidarTypeIndustrialHAP then map_put (seq_of c) (kept c, now + time_out c) (commands s) else commands s)\<rparr>"

lemma SendStart_ok:
  fixes s handle cid d len g
  defines "c \<equiv> make_command (next_seq s) cid d len handle g"
  assumes "GetLidarCommandHandler s handle = Some t" and "unat len \<le> 1376" and "unat len \<le> length d"
  obtains bytes where "SendStart a b ok now handle cid d len g s = Inr (after_send t now c s,
      (if ok then [Sent handle (cmd_port t) bytes] else call g kLivoxLidarStatusSendFailed handle None), kLivoxLidarStatusSuccess)"
    and "\<And>a'. ParseCommStream a' bytes (word_of_nat (length bytes)) = Inr (Some \<lparr>protocol = kLidarSdk, version = SdkProtocol.kSdkVer,
      seq_num = next_seq s AND 0xFFFF, cmd_id = cid, cmd_type = kCommandTypeCmd, sender_type = kHostSend,
      cp_data = take (unat len) d, data_len = len\<rparr>)"
proof -
  let ?p = "packet c" and ?buf = "replicate (kMaxCommandBufferSize + 1) (0 :: byte)"
  have c: "protocol ?p = kLidarSdk" "data_len ?p = len" "cp_data ?p = d" "seq_num ?p = next_seq s" "cmd_id ?p = cid"
    "cmd_type ?p = kCommandTypeCmd" "sender_type ?p = kHostSend" "cb c = g" "cm_handle c = handle"
    by (simp_all add: c_def make_command_def)
  have "24 + unat (data_len ?p) \<le> unat (of_nat kMaxCommandBufferSize :: 32 word)" "unat (of_nat kMaxCommandBufferSize :: 32 word) \<le> length ?buf"
    "24 + unat (data_len ?p) < 65536" "unat (data_len ?p) \<le> length (cp_data ?p)"
    using assms(3,4) by (simp_all add: c kMaxCommandBufferSize_def)
  then obtain us where us: "Pack a b ?buf (of_nat kMaxCommandBufferSize) ?p = Inr (0, us @ drop (24 + unat len) ?buf, Some (word_of_nat (24 + unat len)))"
    "length us = 24 + unat len"
    "\<And>a' rest. ParseCommStream a' (us @ rest) (word_of_nat (24 + unat len)) = Inr (Some \<lparr>protocol = kLidarSdk, version = SdkProtocol.kSdkVer,
      seq_num = next_seq s AND 0xFFFF, cmd_id = cid, cmd_type = kCommandTypeCmd, sender_type = kHostSend, cp_data = take (unat len) d @ rest, data_len = len\<rparr>)"
    using Pack_parses [OF c(1), of "of_nat kMaxCommandBufferSize" ?buf a b] unfolding c by metis
  define out where "out = us @ drop (24 + unat len) ?buf"
  note P = us(1) [folded out_def]
  have o: "take (24 + unat len) out = us" using us(2) by (simp add: out_def)
  have n: "unat (word_of_nat (24 + unat len) :: 32 word) = 24 + unat len"
    using assms(3) by (simp add: unat_of_nat del: of_nat_add)
  have h: "GetLidarCommandHandler (s\<lparr>gen_seq := q\<rparr>) handle = Some t" for q
    using assms(2) by (simp add: handler_of_updates)
  have "SendStart a b ok now handle cid d len g s = Inr (after_send t now c s,
      (if ok then [Sent handle (cmd_port t) us] else call g kLivoxLidarStatusSendFailed handle None), kLivoxLidarStatusSuccess)"
    using P o by (simp add: SendStart_def GetSeq_eq h c_def [symmetric] HandlerSendCommand_def c n after_send_def AddCommand_def
        kCommandTypeCmd_def kCommandTypeAck_def Let_def del: of_nat_add)
  then show thesis using that us(2) us(3) [of _ "[]"] by simp
qed

lemma HandlerTyped_ack:
  assumes "buf_size \<noteq> 0" and "ParseCommStream a buf buf_size = Inr (Some p)" and "cmd_type p = kCommandTypeAck"
    and "port = cmd_port t" "cmd_id p \<noteq> kCommandIDLidarSearch" and "t \<in> set (lidars_command_handler s)" and "seq_num p \<le> 0xFFFF"
  shows "HandlerTyped mem a t handle port buf buf_size s =
    (case map_of (commands s) (seq_num p) of None \<Rightarrow> Inr (s, [])
     | Some (c, tm) \<Rightarrow> Inr (s\<lparr>commands := map_del (seq_num p) (commands s)\<rparr>, call (cb c) kLivoxLidarStatusSuccess handle (Some (cp_data p))))"
proof -
  have "port \<noteq> kPaLidarFaultPort"
    using assms(4) by (simp add: cmd_port_def kHAPCmdPort_def kMid360LidarCmdPort_def kPaLidarFaultPort_def)
  then show ?thesis
    using assms by (auto simp: HandlerTyped_def Let_def seq16 Handle_def OnCommandAck_def split: option.splits)
qed

text \<open>The packet \<open>p\<close> is a lidar's answer to the request \<open>r\<close>.\<close>

definition acknowledges :: "CommPacket \<Rightarrow> CommPacket \<Rightarrow> bool" where
  "acknowledges p r \<longleftrightarrow> protocol p = kLidarSdk \<and> seq_num p = seq_num r \<and> cmd_id p = cmd_id r \<and> cmd_type p = kCommandTypeAck
     \<and> unat (data_len p) \<le> length (cp_data p) \<and> 24 + unat (data_len p) < 65536"

lemma SendEnd_recorded:
  "SendEnd (length (sending s)) later (after_send t now c s) =
     (after_send t now c s)\<lparr>sending := sending s,
        commands := map_put (seq_of c) (kept c, later + time_out c) (commands (after_send t now c s))\<rparr>"
  if "cmd_type (packet c) \<noteq> kCommandTypeAck"
  using that by (simp add: SendEnd_def AddCommand_def after_send_def)

text \<open>
  C17.  An exchange with a lidar succeeds: the request that goes out is parsed by the lidar as the command with
  its data; whatever packet the lidar packs as the answer, when it arrives after the
  command is recorded and before it expires, the callback gets the answer's data, once, and the
  command leaves the table.
\<close>

theorem exchange_succeeds:
  assumes "GetLidarCommandHandler s handle = Some t" and "gen_seq s \<le> 0xFFFF"
    and "unat len \<le> 1376" and "unat len \<le> length d" and "cid \<noteq> kCommandIDLidarSearch"
  shows "\<exists>s1 bytes req.
    SendStart a b True now handle cid d len (Some f) s = Inr (s1, [Sent handle (cmd_port t) bytes], kLivoxLidarStatusSuccess)
    \<and> (\<forall>a'. ParseCommStream a' bytes (word_of_nat (length bytes)) = Inr (Some req))
    \<and> cmd_id req = cid \<and> cmd_type req = kCommandTypeCmd \<and> cp_data req = take (unat len) d \<and> data_len req = len
    \<and> (\<forall>p a1 b1 sz buf a2 mem later. acknowledges p req \<and> 24 + unat (data_len p) \<le> unat sz \<and> unat sz \<le> length buf \<longrightarrow>
        (\<exists>out n s3. Pack a1 b1 buf sz p = Inr (0, out, Some n)
          \<and> HandlerTyped mem a2 t handle (cmd_port t) (take (unat n) out) n (SendEnd (length (sending s)) later s1)
            = Inr (s3, [Callback f kLivoxLidarStatusSuccess handle (Some (take (unat (data_len p)) (cp_data p)))])
          \<and> seq_num req \<notin> keys s3))"
proof -
  define c where "c = make_command (next_seq s) cid d len handle (Some f)"
  obtain bytes where S: "SendStart a b True now handle cid d len (Some f) s = Inr (after_send t now c s, [Sent handle (cmd_port t) bytes], kLivoxLidarStatusSuccess)"
    and B: "\<And>a'. ParseCommStream a' bytes (word_of_nat (length bytes)) = Inr (Some \<lparr>protocol = kLidarSdk, version = SdkProtocol.kSdkVer,
      seq_num = next_seq s AND 0xFFFF, cmd_id = cid, cmd_type = kCommandTypeCmd, sender_type = kHostSend, cp_data = take (unat len) d, data_len = len\<rparr>)"
    using SendStart_ok [OF assms(1,3,4), of a b True now cid "Some f"] by (auto simp: c_def)
  let ?req = "\<lparr>protocol = kLidarSdk, version = SdkProtocol.kSdkVer, seq_num = next_seq s, cmd_id = cid,
    cmd_type = kCommandTypeCmd, sender_type = kHostSend, cp_data = take (unat len) d, data_len = len\<rparr>"
  have r: "next_seq s \<le> 0xFFFF" using next_seq_range [OF assms(2)] by simp
  have t: "t \<in> set (lidars_command_handler s)"
    using assms(1) by (auto simp: GetLidarCommandHandler_def split: option.splits if_splits)
  have c: "cmd_type (packet c) \<noteq> kCommandTypeAck" "seq_of c = next_seq s" "cb c = Some f"
    by (simp_all add: c_def) (simp_all add: make_command_def kCommandTypeCmd_def kCommandTypeAck_def)
  have "\<exists>out n s3. Pack a1 b1 buf sz p = Inr (0, out, Some n)
      \<and> HandlerTyped mem a2 t handle (cmd_port t) (take (unat n) out) n (SendEnd (length (sending s)) later (after_send t now c s))
        = Inr (s3, [Callback f kLivoxLidarStatusSuccess handle (Some (take (unat (data_len p)) (cp_data p)))]) \<and> next_seq s \<notin> keys s3"
    if p: "acknowledges p ?req" "24 + unat (data_len p) \<le> unat sz" "unat sz \<le> length buf" for p a1 b1 sz buf a2 mem later
  proof -
    let ?n = "unat (data_len p)" and ?s2 = "SendEnd (length (sending s)) later (after_send t now c s)"
    have s2: "t \<in> set (lidars_command_handler ?s2)" "map_of (commands ?s2) (next_seq s) = Some (kept c, later + time_out c)" "cb (kept c) = Some f"
      using t c by (simp_all add: SendEnd_recorded map_of_map_put) (simp add: after_send_def)
    have a: "protocol p = kLidarSdk" "seq_num p = next_seq s" "cmd_id p = cid" "cmd_type p = kCommandTypeAck" "?n \<le> length (cp_data p)" "24 + ?n < 65536"
      using p(1) by (simp_all add: acknowledges_def)
    obtain us where us: "Pack a1 b1 buf sz p = Inr (0, us @ drop (24 + ?n) buf, Some (word_of_nat (24 + ?n)))" "length us = 24 + ?n"
      "\<And>a' rest. ParseCommStream a' (us @ rest) (word_of_nat (24 + ?n)) = Inr (Some \<lparr>protocol = kLidarSdk, version = SdkProtocol.kSdkVer,
        seq_num = next_seq s, cmd_id = cid, cmd_type = kCommandTypeAck, sender_type = sender_type p, cp_data = take ?n (cp_data p) @ rest, data_len = data_len p\<rparr>)"
      using Pack_parses [OF a(1) p(2,3) a(6,5), of a1 b1] unfolding a seq16(1) [OF r] by metis
    have n: "unat (word_of_nat (24 + ?n) :: 32 word) = 24 + ?n" using a(6) by (simp add: unat_of_nat del: of_nat_add)
    define m :: "32 word" where "m = word_of_nat (24 + ?n)"
    define ack where "ack = \<lparr>protocol = kLidarSdk, version = SdkProtocol.kSdkVer, seq_num = next_seq s, cmd_id = cid,
      cmd_type = kCommandTypeAck, sender_type = sender_type p, cp_data = take ?n (cp_data p), data_len = data_len p\<rparr>"
    have k: "cmd_type ack = kCommandTypeAck" "cmd_id ack \<noteq> kCommandIDLidarSearch" "seq_num ack = next_seq s" "cp_data ack = take ?n (cp_data p)"
      using assms(5) by (simp_all add: ack_def)
    have m: "unat m = 24 + ?n" "ParseCommStream a2 us m = Inr (Some ack)"
      using n us(3) [of a2 "[]"] by (simp_all add: m_def ack_def del: of_nat_add)
    then have "m \<noteq> 0" by auto
    from HandlerTyped_ack [OF this m(2) k(1) refl k(2), where s = ?s2 and t = t and mem = mem and handle = handle]
    have "HandlerTyped mem a2 t handle (cmd_port t) us m ?s2
      = Inr (?s2\<lparr>commands := map_del (next_seq s) (commands ?s2)\<rparr>, [Callback f kLivoxLidarStatusSuccess handle (Some (take ?n (cp_data p)))])"
      using s2 r by (simp add: k call_def)
    moreover have "take (unat m) (us @ drop (24 + ?n) buf) = us" using us(2) m(1) by simp
    moreover note us(1) [folded m_def]
    ultimately have "Pack a1 b1 buf sz p = Inr (0, us @ drop (24 + ?n) buf, Some m)
      \<and> HandlerTyped mem a2 t handle (cmd_port t) (take (unat m) (us @ drop (24 + ?n) buf)) m ?s2
        = Inr (?s2\<lparr>commands := map_del (next_seq s) (commands ?s2)\<rparr>, [Callback f kLivoxLidarStatusSuccess handle (Some (take ?n (cp_data p)))])
      \<and> next_seq s \<notin> keys (?s2\<lparr>commands := map_del (next_seq s) (commands ?s2)\<rparr>)" by simp
    then show ?thesis by blast
  qed
  then show ?thesis
    using S B by (intro exI [of _ "after_send t now c s"] exI [of _ bytes] exI [of _ ?req]) (simp add: seq16(1) [OF r])
qed

definition ready :: GeneralCommandHandler where
  "ready = \<lparr>gen_seq = 1, commands = [], device_dev_type = (\<lambda>h. if h = 7 then Some kLivoxLidarTypeMid360 else None),
     lidars_command_handler = [kLivoxLidarTypeIndustrialHAP, kLivoxLidarTypeMid360], sending = []\<rparr>"

lemma ready_handler: "GetLidarCommandHandler ready 7 = Some kLivoxLidarTypeMid360"
  by (simp add: ready_def GetLidarCommandHandler_def)

theorem exchange_succeeds_witness:
  "\<exists>s1 bytes req. SendStart 0 0 True 0 7 0x0100 [1, 2, 3] 3 (Some 5) ready = Inr (s1, [Sent 7 56100 bytes], kLivoxLidarStatusSuccess)
     \<and> ParseCommStream 1 bytes (word_of_nat (length bytes)) = Inr (Some req) \<and> cp_data req = [1, 2, 3]"
proof -
  have "gen_seq ready \<le> 0xFFFF" "unat (3 :: 16 word) \<le> 1376" "unat (3 :: 16 word) \<le> length [1, 2, 3 :: byte]" "0x0100 \<noteq> kCommandIDLidarSearch"
    by (simp_all add: ready_def kCommandIDLidarSearch_def)
  note r = exchange_succeeds [OF ready_handler this, of 0 0 0 5]
  have "cmd_port kLivoxLidarTypeMid360 = 56100" "take (unat (3 :: 16 word)) [1, 2, 3 :: byte] = [1, 2, 3]"
    by (simp_all add: cmd_port_def kLivoxLidarTypeMid360_def kLivoxLidarTypeIndustrialHAP_def kMid360LidarCmdPort_def)
  with r show ?thesis by metis
qed

section \<open>Every command is answered\<close>

lemma final_timer:
  assumes "cmd_inv T s" and "sending s = []" and "T + KDefaultTimeOut < now"
  shows "fst (CommandsHandle now s) = s\<lparr>commands := []\<rparr>" and "due f s = sum_list (map (answer f) (snd (CommandsHandle now s)))"
proof -
  have late: "now > t" if "(q, c, t) \<in> set (commands s)" for q c t
    using that assms(1,3) by (fastforce simp: cmd_inv_def)
  then have "filter (\<lambda>(q, c, t). \<not> now > t) (commands s) = []" "filter (\<lambda>(q, c, t). now > t) (commands s) = commands s"
    by (auto simp: filter_empty_conv filter_id_conv)
  then show "fst (CommandsHandle now s) = s\<lparr>commands := []\<rparr>" "due f s = sum_list (map (answer f) (snd (CommandsHandle now s)))"
    by (simp_all only: CommandsHandle_def fst_conv snd_conv paid_timeouts due_def assms(2) unrecorded_def list.map sum_list.Nil add_0_right)
qed

text \<open>
  C16.  Every command is answered exactly once: after a run that starts with nothing pending and in which none of the
  races between sending, recording and receiving happens, once the timer has run
  a second after the last send the table is empty, and each callback has been called as often
  as it was given to a command that was sent.
\<close>

theorem every_command_is_answered_once:
  assumes "commands s = []" and "sending s = []" and "run_handlers sdk_step s es = Inr (s', os)" and "guarded (calm T) sdk_step s es"
    and "sending s' = []" and "T + KDefaultTimeOut < now"
  shows "\<exists>s'' os'. run_handlers sdk_step s (es @ [Timer now]) = Inr (s'', os @ os') \<and> commands s'' = []
    \<and> (\<forall>f. sum_list (map (answer f) (os @ os')) = total_asked (asked f) sdk_step s es)"
proof -
  have "cmd_inv T s" and d0: "due f s = 0" for f
    using assms(1,2) by (simp_all add: cmd_inv_def due_def pend_def unrecorded_def)
  note bal = answers.run_balance [OF assms(3) this(1) assms(4)]
  then have inv: "cmd_inv T s'" by simp
  note ft = final_timer [OF inv assms(5,6)]
  have "run_handlers sdk_step s (es @ [Timer now]) = Inr (s'\<lparr>commands := []\<rparr>, os @ snd (CommandsHandle now s'))"
    using run_handlers_append [OF assms(3), of "[Timer now]"] ft(1) by (cases "CommandsHandle now s'") simp
  moreover have "sum_list (map (answer f) (os @ snd (CommandsHandle now s'))) = total_asked (asked f) sdk_step s es" for f
    using bal [of f] ft(2) [of f] d0 [of f] by (simp del: sum_list_eq_0_iff)
  ultimately show ?thesis by auto
qed

theorem every_command_is_answered_once_witness:
  "\<exists>s'' os'. run_handlers sdk_step ready [Start 0 0 True 0 7 0x0100 [1, 2, 3] 3 (Some 5), End 0 1, Timer 1002] = Inr (s'', os')
     \<and> commands s'' = [] \<and> sum_list (map (answer 5) os') = 1"
proof -
  let ?e = "Start 0 0 True 0 7 0x0100 [1, 2, 3] 3 (Some 5)"
  let ?c = "make_command (next_seq ready) 0x0100 [1, 2, 3] 3 7 (Some 5)"
  have "unat (3 :: 16 word) \<le> 1376" "unat (3 :: 16 word) \<le> length [1, 2, 3 :: byte]" by simp_all
  then obtain bytes where "SendStart 0 0 True 0 7 0x0100 [1, 2, 3] 3 (Some 5) ready = Inr (after_send kLivoxLidarTypeMid360 0 ?c ready,
      (if True then [Sent 7 (cmd_port kLivoxLidarTypeMid360) bytes] else call (Some 5) kLivoxLidarStatusSendFailed 7 None), kLivoxLidarStatusSuccess)"
    by (rule SendStart_ok [OF ready_handler])
  then have h: "sdk_step ready ?e = Inr (after_send kLivoxLidarTypeMid360 0 ?c ready, [Sent 7 (cmd_port kLivoxLidarTypeMid360) bytes])"
    by simp
  let ?s1 = "after_send kLivoxLidarTypeMid360 0 ?c ready"
  have l: "sending ?s1 = [?c]" by (simp add: after_send_def ready_def)
  then have l2: "sending (SendEnd 0 1 ?s1) = []" by (simp add: SendEnd_def AddCommand_def)
  have e: "commands ready = []" "sending ready = []" by (simp_all add: ready_def)
  have g: "guarded (calm 1) sdk_step ready [?e, End 0 1]"
    using h by (simp add: calm_def event_time_def e)
  have a: "total_asked (asked 5) sdk_step ready [?e, End 0 1] = 1"
    using h by (simp add: asked_def ready_handler)
  have r: "run_handlers sdk_step ready [?e, End 0 1] = Inr (SendEnd 0 1 ?s1, [Sent 7 (cmd_port kLivoxLidarTypeMid360) bytes])"
    using h by simp
  have "1 + KDefaultTimeOut < 1002" by (simp add: KDefaultTimeOut_def)
  from every_command_is_answered_once [OF e r g l2 this] obtain s'' os' where
    "run_handlers sdk_step ready ([?e, End 0 1] @ [Timer 1002]) = Inr (s'', [Sent 7 (cmd_port kLivoxLidarTypeMid360) bytes] @ os')"
    "commands s'' = []" "sum_list (map (answer 5) ([Sent 7 (cmd_port kLivoxLidarTypeMid360) bytes] @ os')) = total_asked (asked 5) sdk_step ready [?e, End 0 1]"
    by blast
  then show ?thesis unfolding a append_Cons append_Nil by blast
qed

section \<open>The races\<close>

text \<open>An expired command's callback is called.\<close>

lemma expired:
  assumes "map_of (commands s) q = Some (c, t)" and "cb c = Some f" and "now > t"
  shows "Callback f kLivoxLidarStatusTimeout (cm_handle c) None \<in> set (snd (CommandsHandle now s))"
  using map_of_SomeD [OF assms(1)] assms(2,3) by (force simp: CommandsHandle_def call_def)

lemma recorded:
  assumes "cmd_type (packet c) \<noteq> kCommandTypeAck"
  shows "map_of (commands (SendEnd (length (sending s)) later (after_send t now c s))) (seq_of c) = Some (kept c, later + time_out c)"
  using assms by (simp add: SendEnd_recorded map_of_map_put)

text \<open>
  A packet the socket refuses is answered twice: the caller is told of success, the callback that
  sending failed; the command is recorded all the same, and when it expires the callback
  is called again, for a timeout.
\<close>

theorem failed_send_is_answered_twice:
  assumes "GetLidarCommandHandler s handle = Some t" and "unat len \<le> 1376" and "unat len \<le> length d" and "later + 1000 < late"
  shows "\<exists>s1. SendStart a b False now handle cid d len (Some f) s = Inr (s1, [Callback f kLivoxLidarStatusSendFailed handle None], kLivoxLidarStatusSuccess)
    \<and> Callback f kLivoxLidarStatusTimeout handle None \<in> set (snd (CommandsHandle late (SendEnd (length (sending s)) later s1)))"
proof -
  let ?c = "make_command (next_seq s) cid d len handle (Some f)"
  obtain bytes where "SendStart a b False now handle cid d len (Some f) s = Inr (after_send t now ?c s,
      (if False then [Sent handle (cmd_port t) bytes] else call (Some f) kLivoxLidarStatusSendFailed handle None), kLivoxLidarStatusSuccess)"
    by (rule SendStart_ok [OF assms(1-3)])
  moreover have "cmd_type (packet ?c) \<noteq> kCommandTypeAck" "cb (kept ?c) = Some f" "late > later + time_out ?c" "cm_handle (kept ?c) = handle"
    using assms(4) by (simp_all add: make_command_def kCommandTypeCmd_def kCommandTypeAck_def KDefaultTimeOut_def)
  ultimately show ?thesis using expired [OF recorded] by (fastforce simp: call_def)
qed

theorem failed_send_is_answered_twice_witness:
  "\<exists>s1. SendStart 0 0 False 0 7 0x0100 [1, 2, 3] 3 (Some 5) ready = Inr (s1, [Callback 5 kLivoxLidarStatusSendFailed 7 None], kLivoxLidarStatusSuccess)
    \<and> Callback 5 kLivoxLidarStatusTimeout 7 None \<in> set (snd (CommandsHandle 1002 (SendEnd 0 1 s1)))"
proof -
  have "unat (3 :: 16 word) \<le> 1376" "unat (3 :: 16 word) \<le> length [1, 2, 3 :: byte]" "1 + 1000 < (1002 :: int)" by simp_all
  from failed_send_is_answered_twice [OF ready_handler this] show ?thesis by (simp add: ready_def)
qed

text \<open>
  An acknowledgement that is there before the command is recorded: a Mid-360's is dropped and its
  command expires; a HAP's is delivered and its command, recorded again, expires too.
\<close>

lemma early_acknowledgement:
  fixes s handle cid d len f
  defines "c \<equiv> make_command (next_seq s) cid d len handle (Some f)"
  assumes "next_seq s \<notin> keys s" and "next_seq s \<le> 0xFFFF" and "t \<in> set (lidars_command_handler s)"
    and "n \<noteq> 0" "ParseCommStream a buf n = Inr (Some p)" "cmd_type p = kCommandTypeAck" "seq_num p = next_seq s" "cmd_id p \<noteq> kCommandIDLidarSearch"
    and "later + 1000 < late"
  shows "\<exists>s1. HandlerTyped mem a t handle (cmd_port t) buf n (after_send t now c s)
      = Inr (s1, if t = kLivoxLidarTypeIndustrialHAP then [Callback f kLivoxLidarStatusSuccess handle (Some (cp_data p))] else [])
    \<and> Callback f kLivoxLidarStatusTimeout handle None \<in> set (snd (CommandsHandle late (SendEnd (length (sending s)) later s1)))"
proof -
  let ?s = "after_send t now c s"
  have c: "cmd_type (packet c) \<noteq> kCommandTypeAck" "seq_of c = next_seq s" "cb (kept c) = Some f" "time_out c = 1000" "cm_handle (kept c) = handle"
    by (simp_all add: c_def) (simp_all add: make_command_def kCommandTypeCmd_def kCommandTypeAck_def KDefaultTimeOut_def)
  have none: "map_of (commands s) (next_seq s) = None" using assms(2) by (simp add: map_of_eq_None_iff)
  have t: "t \<in> set (lidars_command_handler ?s)" "seq_num p \<le> 0xFFFF" using assms(3,4,8) by (simp_all add: after_send_def)
  note H = HandlerTyped_ack [OF assms(5-7) refl assms(9) t, of mem handle, unfolded assms(8)]
  obtain s1 where s1: "HandlerTyped mem a t handle (cmd_port t) buf n ?s = Inr (s1,
      if t = kLivoxLidarTypeIndustrialHAP then [Callback f kLivoxLidarStatusSuccess handle (Some (cp_data p))] else [])"
    "sending s1 = sending s @ [c]"
    using H none c(2,3) by (cases "t = kLivoxLidarTypeIndustrialHAP") (auto simp: after_send_def map_of_map_put call_def)
  have "map_of (commands (SendEnd (length (sending s)) later s1)) (next_seq s) = Some (kept c, later + 1000)"
    using c(1,2,4) by (simp add: SendEnd_def AddCommand_def s1(2) map_of_map_put)
  then show ?thesis using expired [OF _ c(3), of "SendEnd (length (sending s)) later s1"] s1(1) assms(10) c(5) by auto
qed

end
