(* ===== verification/LidarDiscovery.thy ===== *)
theory LidarDiscovery
  imports Commands
begin

text \<open>
  How lidars are found (\<open>general_command_handler.cpp\<close>, \<open>mid360_command_handler.cpp\<close>, \<open>hap_command_handler.cpp\<close>,
  \<open>device_manager.cpp\<close>).  A lidar that answers the search is asked whether it runs its loader or its
  application, is configured, and is reported to the application.  The functions are those
  the commands and their callbacks call; what they send is an output, and each answer an event.
\<close>

section \<open>State\<close>

text \<open>A configured lidar; its address is the number \<open>inet_addr\<close> makes of it.\<close>

record CustomLidarCfg = LivoxLidarCfg +
  lidar_addr :: "32 word"
  net_cmd_data_port :: "16 word"
  net_push_msg_port :: "16 word"
  net_point_data_port :: "16 word"
  net_imu_data_port :: "16 word"
  net_log_data_port :: "16 word"

record DeviceInfo =
  sn :: "byte list"
  di_lidar_ip :: string
  di_dev_type :: byte
  is_update_cfg :: bool
  is_get_loader_mode :: bool
  is_loader_mode :: bool
  is_callback :: bool

text \<open>
  The handler of commands, those of the two types of lidar (\<open>custom_lidars\<close>, \<open>handler_devices\<close>) and the device
  manager; \<open>master_sdk\<close> is behind a pointer that may be null, \<open>stack_mem\<close> what the stack held.
\<close>

record Discovery =
  is_view :: bool
  detection_host_ip :: string
  host_handle :: "32 word"
  master_sdk :: "bool option"
  type_lidars_cfg_map :: "byte \<Rightarrow> CustomLidarCfg option"
  custom_lidars_cfg_map :: "32 word \<Rightarrow> CustomLidarCfg option"
  custom_lidars_cfg :: "CustomLidarCfg list"
  gch_custom_lidars :: "32 word \<Rightarrow> CustomLidarCfg option"
  command_handlers :: "byte set"
  custom_lidars :: "byte \<Rightarrow> 32 word \<Rightarrow> CustomLidarCfg option"
  handler_devices :: "byte \<Rightarrow> 32 word set"
  devices :: "32 word \<Rightarrow> DeviceInfo option"
  dev_types :: "32 word \<Rightarrow> byte option"
  lidars_dev_type :: "32 word \<Rightarrow> byte option"
  view_lidars_info :: "32 word \<Rightarrow> ViewLidarIpInfo option"
  fw_count :: "8 word"
  stack_mem :: "byte list"

datatype found =
    QueryFw "32 word" "16 word \<times> byte list"
  | Configure "32 word" "16 word" "16 word \<times> byte list"
  | InfoChange "32 word" "byte list"
  | ViewDetected "32 word" "byte list" bool bool
  | ViewConfigured "32 word"

section \<open>Reports to the application\<close>

definition strcpy_to :: "byte list \<Rightarrow> nat \<Rightarrow> byte list \<Rightarrow> exn + byte list" where
  "strcpy_to mem off s = write_at mem off (s @ [0])"

definition new_device :: DeviceInfo where
  "new_device = \<lparr>sn = [], di_lidar_ip = [], di_dev_type = 0, is_update_cfg = False, is_get_loader_mode = False,
     is_loader_mode = False, is_callback = False\<rparr>"

text \<open>\<open>devices_[handle]\<close> makes a device where there is none.\<close>

definition device :: "Discovery \<Rightarrow> 32 word \<Rightarrow> DeviceInfo" where
  "device s handle = (case devices s handle of None \<Rightarrow> new_device | Some d \<Rightarrow> d)"

definition LivoxLidarInfoChange :: "32 word \<Rightarrow> Discovery \<Rightarrow> exn + (Discovery \<times> found list)" where
  "LivoxLidarInfoChange handle s =
     (let d = device s handle; d' = d\<lparr>is_update_cfg := True, is_callback := True\<rparr>;
          s' = s\<lparr>devices := (devices s)(handle \<mapsto> d')\<rparr> in
      sbind (strcpy_to (stack_mem s) 1 (sn d)) (\<lambda>i1.
      sbind (strcpy_to i1 17 (text_bytes (di_lidar_ip d))) (\<lambda>i2.
      sbind (write_at i2 0 [di_dev_type d]) (\<lambda>info.
        Inr (s', (if is_view s \<and> \<not> is_loader_mode d then [ViewConfigured handle] else [])
               @ (if \<not> is_callback d then [InfoChange handle info] else []))))))"

section \<open>Configuration\<close>

text \<open>\<open>Init\<close> of the handler of a type: its lidars of the table that it has not yet.\<close>

definition HandlerInit :: "byte \<Rightarrow> Discovery \<Rightarrow> Discovery" where
  "HandlerInit t s = s\<lparr>custom_lidars := (custom_lidars s)(t := (\<lambda>h.
     case custom_lidars s t h of Some c \<Rightarrow> Some c
     | None \<Rightarrow> (case gch_custom_lidars s h of Some c \<Rightarrow> (if device_type c = t then Some c else None) | None \<Rightarrow> None)))\<rparr>"

definition CreateCommandHandler :: "byte \<Rightarrow> Discovery \<Rightarrow> exn + Discovery" where
  "CreateCommandHandler t s =
     (if \<not> is_view s
      then if t \<in> {kLivoxLidarTypeIndustrialHAP, kLivoxLidarTypeMid360, kLivoxLidarTypePA}
           then if t \<in> command_handlers s then Inr (HandlerInit t s) else Inl Null_pointer
           else Inr s
      else if t \<in> command_handlers s then Inr s
      else if t \<in> {kLivoxLidarTypeIndustrialHAP, kLivoxLidarTypeMid360} then Inr (s\<lparr>command_handlers := insert t (command_handlers s)\<rparr>)
      else Inr s)"

definition SetCustomLidar :: "byte \<Rightarrow> 32 word \<Rightarrow> 16 word \<Rightarrow> CustomLidarCfg \<Rightarrow> exn + found list" where
  "SetCustomLidar t handle port cfg =
     sbind (obind ((if t = kLivoxLidarTypeIndustrialHAP then BuildUpdateLidarCfgRequest else BuildUpdateMid360LidarCfgRequest)
              (LivoxLidarCfg.truncate cfg) req_buff) (send_request kCommandIDLidarWorkModeControl))
       (\<lambda>r. Inr (case r of None \<Rightarrow> [] | Some q \<Rightarrow> [Configure handle port q]))"

definition HandlerUpdateLidarCfg :: "byte \<Rightarrow> 32 word \<Rightarrow> 16 word \<Rightarrow> Discovery \<Rightarrow> exn + found list" where
  "HandlerUpdateLidarCfg t handle port s =
     (if handle \<in> handler_devices s t then Inr []
      else case custom_lidars s t handle of None \<Rightarrow> Inr [] | Some cfg \<Rightarrow> SetCustomLidar t handle port cfg)"

definition UpdateLidarCfg :: "byte \<Rightarrow> 32 word \<Rightarrow> 16 word \<Rightarrow> Discovery \<Rightarrow> exn + found list" where
  "UpdateLidarCfg t handle port s =
     (if t \<notin> command_handlers s then Inr []
      else case master_sdk s of None \<Rightarrow> Inl Null_pointer
      | Some m \<Rightarrow> if m then HandlerUpdateLidarCfg t handle port s else Inr [])"

text \<open>The answer to a configuration; \<open>resp\<close> is what follows the header, \<open>None\<close> a null pointer.\<close>

definition UpdateLidarCallback :: "byte \<Rightarrow> 32 word \<Rightarrow> livox_status \<Rightarrow> byte list option \<Rightarrow> Discovery \<Rightarrow> exn + (Discovery \<times> found list)" where
  "UpdateLidarCallback t handle status resp s =
     (if status \<noteq> kLivoxLidarStatusSuccess then Inr (s, [])
      else case resp of None \<Rightarrow> Inr (s, [])
      | Some r \<Rightarrow> sbind (read_at r 0 1) (\<lambda>ret.
          sbind (if ret ! 0 = 0 then sbind (read_at r 1 2) (\<lambda>key. Inr (join16 key = 0)) else Inr False) (\<lambda>ok.
          if ok
          then LivoxLidarInfoChange handle (s\<lparr>handler_devices := (handler_devices s)(t := insert handle (handler_devices s t))\<rparr>)
          else if t = kLivoxLidarTypeIndustrialHAP then LivoxLidarInfoChange handle s
          else Inr (s, []))))"

section \<open>Loader or application\<close>

text \<open>\<open>SendCommand\<close> sends nothing, and calls nobody, for a device whose type has no handler.\<close>

definition QueryFwType :: "32 word \<Rightarrow> Discovery \<Rightarrow> exn + found list" where
  "QueryFwType handle s =
     sbind (query_keys [kKeyFwType]) (\<lambda>r.
       Inr (case (r, dev_types s handle) of
              (Some q, Some t) \<Rightarrow> (if t \<in> command_handlers s then [QueryFw handle q] else [])
            | _ \<Rightarrow> []))"

definition GetFirmwareType :: "32 word \<Rightarrow> DeviceInfo \<Rightarrow> Discovery \<Rightarrow> exn + found list" where
  "GetFirmwareType handle d s =
     (case master_sdk s of None \<Rightarrow> Inl Null_pointer
      | Some m \<Rightarrow> if \<not> m \<or> is_get_loader_mode d then Inr [] else QueryFwType handle s)"

definition UpdateFwType :: "32 word \<Rightarrow> byte \<Rightarrow> Discovery \<Rightarrow> Discovery" where
  "UpdateFwType handle fw_type s =
     (case devices s handle of None \<Rightarrow> s
      | Some d \<Rightarrow> s\<lparr>devices := (devices s)(handle \<mapsto> d\<lparr>is_get_loader_mode := True, is_loader_mode := (fw_type = 0)\<rparr>)\<rparr>)"

definition ask_again :: "32 word \<Rightarrow> Discovery \<Rightarrow> exn + (Discovery \<times> found list)" where
  "ask_again handle s = (let s' = s\<lparr>fw_count := fw_count s + 1\<rparr> in sbind (QueryFwType handle s') (\<lambda>os. Inr (s', os)))"

definition QueryFwTypeCallback :: "livox_status \<Rightarrow> 32 word \<Rightarrow> byte list option \<Rightarrow> Discovery \<Rightarrow> exn + (Discovery \<times> found list)" where
  "QueryFwTypeCallback status handle resp s =
     (if sint (fw_count s) > 10 then Inr ((UpdateFwType handle 1 s)\<lparr>fw_count := 0\<rparr>, [])
      else if status \<noteq> kLivoxLidarStatusSuccess then ask_again handle s
      else case resp of None \<Rightarrow> ask_again handle s
      | Some r \<Rightarrow> sbind (read_at r 0 1) (\<lambda>ret.
          if ret ! 0 \<noteq> 0 then ask_again handle s
          else sbind (read_at r 3 2) (\<lambda>k.
          if join16 k \<noteq> key_code kKeyFwType then ask_again handle s
          else sbind (read_at r 5 2) (\<lambda>len.
          if join16 len \<noteq> 1 then ask_again handle s
          else sbind (read_at r 7 1) (\<lambda>v. Inr (UpdateFwType handle (v ! 0) (s\<lparr>fw_count := 0\<rparr>), []))))))"

section \<open>Detection\<close>

definition VerifyNetSegment :: "byte list \<Rightarrow> Discovery \<Rightarrow> exn + bool" where
  "VerifyNetSegment ip s =
     (if \<not> is_view s then Inr True
      else if detection_host_ip s = [] then Inr False
      else sbind (IpToU8 (detection_host_ip s)) (\<lambda>r. case r of
        None \<Rightarrow> Inr False
      | Some v \<Rightarrow> Inr (take 3 v = take 3 ip)))"

text \<open>The part of the device manager; the part for the viewer is an output.\<close>

definition ManagerHandleDetectionData :: "32 word \<Rightarrow> byte list \<Rightarrow> bool \<Rightarrow> bool \<Rightarrow> Discovery \<Rightarrow> exn + (Discovery \<times> found list)" where
  "ManagerHandleDetectionData handle data got load s =
     (if handle = 0 then Inr (s, [])
      else if is_view s then Inr (s, [ViewDetected handle data got load])
      else case lidars_dev_type s handle of
        Some t \<Rightarrow> if t \<noteq> data ! 1 then Inr (s, [])
                  else if got \<and> load then LivoxLidarInfoChange handle s else Inr (s, [])
      | None \<Rightarrow> let s' = s\<lparr>lidars_dev_type := (lidars_dev_type s)(handle \<mapsto> data ! 1)\<rparr> in
                if got \<and> load then LivoxLidarInfoChange handle s' else Inr (s', []))"

text \<open>The serial number is a \<open>char\<close> array read as a C string, up to the first zero byte of the memory behind it.\<close>

definition serial_number :: "byte list \<Rightarrow> exn + byte list" where
  "serial_number mem = (if 0 \<in> set (drop 2 mem) then Inr (c_string (drop 2 mem)) else Inl Bad_index)"

definition known_device :: "32 word \<Rightarrow> byte list \<Rightarrow> DeviceInfo \<Rightarrow> Discovery \<Rightarrow> exn + (Discovery \<times> found list)" where
  "known_device handle data d s =
     sbind (if \<not> is_update_cfg d \<and> is_get_loader_mode d \<and> \<not> is_loader_mode d \<and> \<not> is_view s
            then UpdateLidarCfg (data ! 1) handle (join16 (drop 22 data)) s else Inr []) (\<lambda>os.
     sbind (ManagerHandleDetectionData handle data (is_get_loader_mode d) (is_loader_mode d) s) (\<lambda>(s', os'). Inr (s', os @ os')))"

definition add_device :: "32 word \<Rightarrow> byte list \<Rightarrow> byte list \<Rightarrow> Discovery \<Rightarrow> exn + (Discovery \<times> found list)" where
  "add_device handle data name s =
     (let d = new_device\<lparr>sn := name, di_lidar_ip := dotted (take 4 (drop 18 data)), di_dev_type := data ! 1\<rparr>;
          s' = s\<lparr>dev_types := (case dev_types s handle of Some _ \<Rightarrow> dev_types s | None \<Rightarrow> (dev_types s)(handle \<mapsto> data ! 1)),
                 devices := (devices s)(handle \<mapsto> d)\<rparr> in
      sbind (GetFirmwareType handle d s') (\<lambda>os. Inr (s', os)))"

definition HandleDetectionData :: "32 word \<Rightarrow> CommPacket \<Rightarrow> Discovery \<Rightarrow> exn + (Discovery \<times> found list)" where
  "HandleDetectionData handle p s =
     (if data_len p = 0 then Inr (s, [])
      else sbind (read_at (cp_data p) 0 24) (\<lambda>data.
        if data ! 0 \<noteq> 0 then Inr (s, [])
        else sbind (serial_number (cp_data p)) (\<lambda>name.
             sbind (VerifyNetSegment (take 4 (drop 18 data)) s) (\<lambda>ok.
             if \<not> ok then Inr (s, [])
             else sbind (CreateCommandHandler (data ! 1) s) (\<lambda>s1.
               case devices s1 handle of
                 Some d \<Rightarrow> known_device handle data d s1
               | None \<Rightarrow> add_device handle data name s1)))))"

section \<open>Datagrams\<close>

text \<open>The handler of commands takes over the lidars of the table; those it has stay as they are.\<close>

definition AddDetectedLidar :: "CustomLidarCfg list \<Rightarrow> Discovery \<Rightarrow> Discovery" where
  "AddDetectedLidar cs s = s\<lparr>gch_custom_lidars :=
     foldl (\<lambda>m c. if m (lidar_addr c) = None then m(lidar_addr c \<mapsto> c) else m) (gch_custom_lidars s) cs\<rparr>"

definition GeneralInit :: "Discovery \<Rightarrow> Discovery" where
  "GeneralInit s = AddDetectedLidar (custom_lidars_cfg s)
     (s\<lparr>command_handlers := command_handlers s \<union> {kLivoxLidarTypeIndustrialHAP, kLivoxLidarTypeMid360}\<rparr>)"

definition kHAPLogPort :: "16 word" where "kHAPLogPort = 59000"
definition kMid360LidarLogPort :: "16 word" where "kMid360LidarLogPort = 56500"
definition kPaLidarLogPort :: "16 word" where "kPaLidarLogPort = 1002"

datatype routed = Dropped | ToData byte | ToCommand byte | ToUntyped | NewLidar

text \<open>
  What becomes of a datagram, and whether the log is given it first.  The sockets that are opened
  for a new lidar are not modelled.
\<close>

definition RegisterLidar :: "nat \<Rightarrow> 32 word \<Rightarrow> byte list \<Rightarrow> 32 word \<Rightarrow> Discovery \<Rightarrow> exn + (Discovery \<times> routed)" where
  "RegisterLidar a handle buf n s =
     sbind (ParseCommStream a buf n) (\<lambda>r. case r of
       None \<Rightarrow> Inr (s, Dropped)
     | Some p \<Rightarrow>
         if cmd_id p \<noteq> kCommandIDLidarSearch \<or> data_len p = 0 then Inr (s, Dropped)
         else sbind (read_at (cp_data p) 0 2) (\<lambda>d.
           if d ! 0 \<noteq> 0 then Inr (s, Dropped)
           else case type_lidars_cfg_map s (d ! 1) of
             None \<Rightarrow> Inr (s, Dropped)
           | Some c0 \<Rightarrow>
               let c = c0\<lparr>lidar_addr := handle\<rparr>;
                   s1 = GeneralInit (s\<lparr>type_lidars_cfg_map := (type_lidars_cfg_map s)(d ! 1 \<mapsto> c),
                     custom_lidars_cfg_map := (custom_lidars_cfg_map s)(handle \<mapsto> c), custom_lidars_cfg := custom_lidars_cfg s @ [c]\<rparr>) in
               sbind (CreateCommandHandler (d ! 1) s1) (\<lambda>s2. Inr (s2, NewLidar))))"

definition OnData :: "nat \<Rightarrow> 32 word \<Rightarrow> 16 word \<Rightarrow> byte list \<Rightarrow> 32 word \<Rightarrow> Discovery \<Rightarrow> exn + (Discovery \<times> bool \<times> routed)" where
  "OnData a handle port buf n s =
     (if n = 0 \<or> handle = host_handle s then Inr (s, False, Dropped)
      else let log = (port \<in> {kHAPLogPort, kPaLidarLogPort, kMid360LidarLogPort}) in
        if is_view s
        then Inr (s, log, case view_lidars_info s handle of
               None \<Rightarrow> ToUntyped
             | Some v \<Rightarrow> if port = lidar_point_port v \<or> port = lidar_imu_data_port v then ToData (vi_dev_type v) else ToCommand (vi_dev_type v))
        else case custom_lidars_cfg_map s handle of
          Some c \<Rightarrow> Inr (s, log,
            if port = net_imu_data_port c \<or> port = net_point_data_port c then ToData (device_type c)
            else if port \<in> {kDetectionPort, net_cmd_data_port c, net_push_msg_port c, net_log_data_port c, kPaLidarFaultPort}
            then ToCommand (device_type c) else Dropped)
        | None \<Rightarrow> if port \<noteq> kDetectionPort then Inr (s, log, Dropped)
            else sbind (RegisterLidar a handle buf n s) (\<lambda>(s', r). Inr (s', log, r)))"

text \<open>The device manager starts with its configuration; without any lidar it does not start.\<close>

definition InitDiscovery :: "CustomLidarCfg list \<Rightarrow> CustomLidarCfg list \<Rightarrow> bool \<Rightarrow> 32 word \<Rightarrow> byte list \<Rightarrow> Discovery option" where
  "InitDiscovery lidars customs master host mem =
     (case lidars @ customs of [] \<Rightarrow> None
      | c # _ \<Rightarrow> Some (GeneralInit \<lparr>is_view = False, detection_host_ip = host_ip (host_net_info c), host_handle = host,
          master_sdk = Some master,
          type_lidars_cfg_map = foldl (\<lambda>m c. m(device_type c \<mapsto> c)) Map.empty lidars,
          custom_lidars_cfg_map = foldl (\<lambda>m c. m(lidar_addr c \<mapsto> c)) Map.empty customs,
          custom_lidars_cfg = customs, gch_custom_lidars = Map.empty, command_handlers = {},
          custom_lidars = (\<lambda>_. Map.empty), handler_devices = (\<lambda>_. {}), devices = Map.empty, dev_types = Map.empty,
          lidars_dev_type = Map.empty, view_lidars_info = Map.empty, fw_count = 0, stack_mem = mem\<rparr>))"

section \<open>Runs\<close>

datatype lidar_event =
    Detect "32 word" CommPacket
  | FwAnswer livox_status "32 word" "byte list option"
  | CfgAnswer byte livox_status "32 word" "byte list option"
  | Datagram nat "32 word" "16 word" "byte list" "32 word"

fun lidar_step :: "(Discovery, lidar_event, found) handler" where
  "lidar_step s (Detect h p) = HandleDetectionData h p s"
| "lidar_step s (FwAnswer st h r) = QueryFwTypeCallback st h r s"
| "lidar_step s (CfgAnswer t st h r) = UpdateLidarCallback t h st r s"
| "lidar_step s (Datagram a h port buf n) = sbind (OnData a h port buf n s) (\<lambda>(s', _). Inr (s', []))"

end
