(* ===== verification/LidarRuns.thy ===== *)
theory LidarRuns
  imports LidarDiscovery
begin

text \<open>
  Runs of the discovery of lidars.  A run is watched: the questions each lidar has still to answer, the
  answers so far, the reports to the application.
\<close>

section \<open>Watching\<close>

record Watch =
  disc :: Discovery
  open_q :: "32 word \<Rightarrow> nat"
  fw_answers :: nat
  reports :: "32 word \<Rightarrow> nat"

definition asks :: "32 word \<Rightarrow> found list \<Rightarrow> nat" where
  "asks h os = length (filter (\<lambda>x. case x of QueryFw k q \<Rightarrow> k = h | _ \<Rightarrow> False) os)"

definition told :: "32 word \<Rightarrow> found list \<Rightarrow> nat" where
  "told h os = length (filter (\<lambda>x. case x of InfoChange k i \<Rightarrow> k = h | _ \<Rightarrow> False) os)"

definition answers_of :: "lidar_event \<Rightarrow> 32 word \<Rightarrow> nat" where
  "answers_of e h = (case e of FwAnswer st k r \<Rightarrow> if k = h then 1 else 0 | _ \<Rightarrow> 0)"

definition watch :: "(Watch, lidar_event, found) handler" where
  "watch w e = sbind (lidar_step (disc w) e) (\<lambda>(s', os).
     Inr (\<lparr>disc = s', open_q = (\<lambda>h. open_q w h - answers_of e h + asks h os),
            fw_answers = fw_answers w + (case e of FwAnswer st k r \<Rightarrow> 1 | _ \<Rightarrow> 0),
            reports = (\<lambda>h. reports w h + told h os)\<rparr>, os))"

text \<open>Only questions that were asked are answered, and only configurations of known devices.\<close>

definition watch_ok :: "Watch \<Rightarrow> lidar_event \<Rightarrow> bool" where
  "watch_ok w e = (case e of FwAnswer st h r \<Rightarrow> 0 < open_q w h | CfgAnswer t st h r \<Rightarrow> devices (disc w) h \<noteq> None | _ \<Rightarrow> True)"

definition resolved :: "Discovery \<Rightarrow> 32 word set" where
  "resolved s = {h. \<exists>d. devices s h = Some d \<and> is_get_loader_mode d}"

definition waiting :: "Discovery \<Rightarrow> 32 word \<Rightarrow> bool" where
  "waiting s h \<longleftrightarrow> (\<exists>d t. devices s h = Some d \<and> \<not> is_get_loader_mode d \<and> dev_types s h = Some t \<and> t \<in> command_handlers s)"

definition announced :: "Discovery \<Rightarrow> 32 word \<Rightarrow> bool" where
  "announced s h \<longleftrightarrow> (\<exists>d. devices s h = Some d \<and> is_callback d)"

text \<open>The program runs with a configuration, as master, and both kinds of handler exist.\<close>

definition configured_mode :: "Discovery \<Rightarrow> bool" where
  "configured_mode s \<longleftrightarrow> \<not> is_view s \<and> master_sdk s = Some True
     \<and> {kLivoxLidarTypeIndustrialHAP, kLivoxLidarTypeMid360} \<subseteq> command_handlers s"

definition disc_inv :: "Discovery \<Rightarrow> bool" where
  "disc_inv s \<longleftrightarrow> configured_mode s \<and> finite (dom (devices s)) \<and> dom (devices s) \<subseteq> dom (dev_types s)
     \<and> 0 \<le> sint (fw_count s) \<and> sint (fw_count s) \<le> 11"

definition watch_inv :: "Watch \<Rightarrow> bool" where
  "watch_inv w \<longleftrightarrow> disc_inv (disc w)
     \<and> (\<forall>h. open_q w h = (if waiting (disc w) h then 1 else 0))
     \<and> int (fw_answers w) \<le> 12 * int (card (resolved (disc w))) + sint (fw_count (disc w))
     \<and> (\<forall>h. reports w h = (if announced (disc w) h then 1 else 0))"

lemmas watched = disc_inv_def configured_mode_def resolved_def waiting_def announced_def

lemma asks_simps [simp]:
  "asks h [] = 0" "asks h (os @ os') = asks h os + asks h os'"
  "asks h (QueryFw k q # os) = (if k = h then 1 else 0) + asks h os"
  "asks h (Configure k port r # os) = asks h os" "asks h (InfoChange k i # os) = asks h os"
  by (simp_all add: asks_def)

lemma told_simps [simp]:
  "told h [] = 0" "told h (os @ os') = told h os + told h os'"
  "told h (QueryFw k q # os) = told h os" "told h (Configure k port r # os) = told h os"
  "told h (InfoChange k i # os) = (if k = h then 1 else 0) + told h os"
  by (simp_all add: told_def)

section \<open>What each function does\<close>

lemma InfoChange_result:
  assumes "LivoxLidarInfoChange h s = Inr (s', os)" and "\<not> is_view s"
  shows "s' = s\<lparr>devices := (devices s)(h \<mapsto> (device s h)\<lparr>is_update_cfg := True, is_callback := True\<rparr>)\<rparr>"
    and "asks k os = 0" and "told k os = (if k = h \<and> \<not> is_callback (device s h) then 1 else 0)"
  using assms by (auto simp: LivoxLidarInfoChange_def Let_def sbind_eq_Inr split: if_splits)

lemma UpdateLidarCfg_result: "UpdateLidarCfg t h port s = Inr os \<Longrightarrow> asks k os = 0 \<and> told k os = 0"
  by (auto simp: UpdateLidarCfg_def HandlerUpdateLidarCfg_def SetCustomLidar_def sbind_eq_Inr split: if_splits option.splits)

text \<open>The fields the properties are about; the rest of the state changes freely.\<close>

definition core :: "Discovery \<Rightarrow> bool \<times> bool option \<times> byte set \<times> (32 word \<Rightarrow> DeviceInfo option) \<times> (32 word \<Rightarrow> byte option) \<times> 8 word" where
  "core s = (is_view s, master_sdk s, command_handlers s, devices s, dev_types s, fw_count s)"

lemma core_fields:
  "core s = core t \<Longrightarrow> is_view s = is_view t \<and> master_sdk s = master_sdk t \<and> command_handlers s = command_handlers t
     \<and> devices s = devices t \<and> dev_types s = dev_types t \<and> fw_count s = fw_count t"
  by (simp add: core_def)

lemma CreateCommandHandler_core: "CreateCommandHandler t s = Inr s' \<Longrightarrow> \<not> is_view s \<Longrightarrow> core s' = core s"
  by (auto simp: CreateCommandHandler_def HandlerInit_def core_def split: if_splits)

text \<open>The question of the loader, as it is sent.\<close>

lemma fw_query: "query_keys [kKeyFwType] = Inr (Some (kCommandIDLidarGetInternalInfo, rq 1 [] @ le16b (key_code kKeyFwType)))"
proof -
  have l: "length (rq 1 []) = 4" by (simp add: rq_def)
  have "write_at (padded (rq 1 [])) 4 (le16b (key_code kKeyFwType)) = Inr (padded (rq 1 [] @ le16b (key_code kKeyFwType)))"
    by (rule append_padded) (simp_all add: l)
  then show ?thesis by (simp add: query_keys_def begin_request_eq send_padded l)
qed

definition has_handler :: "Discovery \<Rightarrow> 32 word \<Rightarrow> bool" where
  "has_handler s h \<longleftrightarrow> (\<exists>t. dev_types s h = Some t \<and> t \<in> command_handlers s)"

lemma QueryFwType_total: "\<exists>os. QueryFwType h s = Inr os"
  by (simp add: QueryFwType_def fw_query)

lemma QueryFwType_result:
  assumes "QueryFwType h s = Inr os"
  shows "told k os = 0" and "asks k os = (if k = h \<and> has_handler s h then 1 else 0)"
  using assms by (auto simp: QueryFwType_def fw_query has_handler_def split: option.splits if_splits)

text \<open>An answer that settles nothing, and one that does.\<close>

lemma ask_again_result:
  assumes "ask_again h s = Inr (s', os)"
  shows "s' = s\<lparr>fw_count := fw_count s + 1\<rparr>" and "told k os = 0" and "asks k os = (if k = h \<and> has_handler s h then 1 else 0)"
  using assms QueryFwType_result [of h "s\<lparr>fw_count := fw_count s + 1\<rparr>"]
  by (auto simp: ask_again_def Let_def sbind_eq_Inr has_handler_def)

lemma UpdateFwType_count: "UpdateFwType h v (s\<lparr>fw_count := n\<rparr>) = (UpdateFwType h v s)\<lparr>fw_count := n\<rparr>"
  by (simp add: UpdateFwType_def split: option.splits)

lemma FwCallback_result:
  assumes "QueryFwTypeCallback st h r s = Inr (s', os)"
  shows "ask_again h s = Inr (s', os) \<and> sint (fw_count s) \<le> 10
    \<or> os = [] \<and> (\<exists>v. s' = (UpdateFwType h v s)\<lparr>fw_count := 0\<rparr>)"
  using assms
  by (auto simp: QueryFwTypeCallback_def sbind_eq_Inr UpdateFwType_count not_less split: if_splits option.splits)

text \<open>A detection: either the device is known, or it is new and asked.\<close>

lemma Manager_result:
  assumes "ManagerHandleDetectionData h data got load s = Inr (s', os)" and "\<not> is_view s"
  obtains s1 where "core s1 = core s" and "s' = s1 \<and> os = [] \<or> LivoxLidarInfoChange h s1 = Inr (s', os)"
proof -
  let ?s1 = "s\<lparr>lidars_dev_type := (lidars_dev_type s)(h \<mapsto> data ! 1)\<rparr>"
  have "core ?s1 = core s" by (simp add: core_def)
  moreover have "s' = s \<and> os = [] \<or> LivoxLidarInfoChange h s = Inr (s', os) \<or> s' = ?s1 \<and> os = [] \<or> LivoxLidarInfoChange h ?s1 = Inr (s', os)"
    using assms by (auto simp: ManagerHandleDetectionData_def Let_def split: if_splits option.splits)
  ultimately show thesis using that by blast
qed

lemma Detection_result:
  assumes "HandleDetectionData h p s = Inr (s', os)" and "\<not> is_view s"
  obtains (nothing) "s' = s" "os = []"
  | (known) s1 os1 os2 where "devices s h \<noteq> None" "core s1 = core s" "\<And>k. asks k os1 = 0 \<and> told k os1 = 0" "os = os1 @ os2"
      "s' = s1 \<and> os2 = [] \<or> LivoxLidarInfoChange h s1 = Inr (s', os2)"
  | (new) data name s1 where "devices s h = None" "core s1 = core s" "add_device h data name s1 = Inr (s', os)"
proof -
  consider "s' = s" "os = []" | data name s1 where "CreateCommandHandler (data ! 1) s = Inr s1"
      "(case devices s1 h of Some d \<Rightarrow> known_device h data d s1 | None \<Rightarrow> add_device h data name s1) = Inr (s', os)"
    using assms(1) by (auto simp: HandleDetectionData_def sbind_eq_Inr split: if_splits)
  then show thesis
  proof cases
    case 1
    then show thesis by (rule nothing)
  next
    case 2
    then have c: "core s1 = core s" using CreateCommandHandler_core assms(2) by blast
    note f = core_fields [OF c]
    show thesis
    proof (cases "devices s h")
      case None
      then have "add_device h data name s1 = Inr (s', os)" using 2(2) f by simp
      then show thesis by (rule new [OF None c])
    next
      case (Some dev)
      then obtain os1 os2 where k: "(if \<not> is_update_cfg dev \<and> is_get_loader_mode dev \<and> \<not> is_loader_mode dev \<and> \<not> is_view s1
            then UpdateLidarCfg (data ! 1) h (join16 (drop 22 data)) s1 else Inr []) = Inr os1" "os = os1 @ os2"
          "ManagerHandleDetectionData h data (is_get_loader_mode dev) (is_loader_mode dev) s1 = Inr (s', os2)"
        using 2(2) f by (auto simp: known_device_def sbind_eq_Inr)
      have "asks k os1 = 0 \<and> told k os1 = 0" for k using k(1) UpdateLidarCfg_result by (auto split: if_splits)
      moreover obtain s2 where "core s2 = core s1" "s' = s2 \<and> os2 = [] \<or> LivoxLidarInfoChange h s2 = Inr (s', os2)"
        using Manager_result [OF k(3)] f assms(2) by blast
      ultimately show thesis using Some c by (intro known [of s2 os1 os2]) (simp_all add: k(2))
    qed
  qed
qed

section \<open>The invariant\<close>

definition properties_of :: "Discovery \<Rightarrow> bool \<times> (32 word \<Rightarrow> bool) \<times> 32 word set \<times> (32 word \<Rightarrow> bool) \<times> int" where
  "properties_of s = (disc_inv s, waiting s, resolved s, announced s, sint (fw_count s))"

lemma core_properties: "core s = core t \<Longrightarrow> properties_of s = properties_of t"
  by (drule core_fields, elim conjE)
    (simp add: properties_of_def disc_inv_def configured_mode_def resolved_def waiting_def [abs_def] announced_def [abs_def])

text \<open>A device is announced: nothing else changes.\<close>

lemma reported_properties:
  assumes "LivoxLidarInfoChange h s = Inr (s', os)" and "disc_inv s" and "devices s h \<noteq> None"
  shows "disc_inv s'" and "waiting s' = waiting s" and "resolved s' = resolved s" and "fw_count s' = fw_count s"
    and "announced s' = (announced s)(h := True)" and "asks k os = 0" and "told k os = (if k = h \<and> \<not> announced s h then 1 else 0)"
proof -
  obtain d where d: "devices s h = Some d" using assms(3) by blast
  note r = InfoChange_result [OF assms(1)]
  have v: "\<not> is_view s" using assms(2) by (simp add: watched)
  have dd: "device s h = d" by (simp add: device_def d)
  show "asks k os = 0" "told k os = (if k = h \<and> \<not> announced s h then 1 else 0)"
    using r(2,3) [OF v] by (simp_all add: dd announced_def d)
  show "disc_inv s'" using assms(2) d unfolding r(1) [OF v] dd by (auto simp: watched)
  show "waiting s' = waiting s" "resolved s' = resolved s" "announced s' = (announced s)(h := True)" "fw_count s' = fw_count s"
    using d unfolding r(1) [OF v] dd by (auto simp: watched fun_eq_iff)
qed

text \<open>What a step may do: ask, report, and settle nothing.\<close>

definition quiet :: "Discovery \<Rightarrow> Discovery \<Rightarrow> found list \<Rightarrow> bool" where
  "quiet s s' os \<longleftrightarrow> disc_inv s' \<and> resolved s' = resolved s \<and> fw_count s' = fw_count s
     \<and> (\<forall>k. (if waiting s' k then 1 else 0) = (if waiting s k then 1 else 0) + asks k os)
     \<and> (\<forall>k. (if announced s' k then 1 else 0) = (if announced s k then 1 else 0) + told k os)"

lemma quiet_core: "core s' = core s \<Longrightarrow> disc_inv s \<Longrightarrow> (\<And>k. asks k os = 0 \<and> told k os = 0) \<Longrightarrow> quiet s s' os"
  using core_properties [of s' s] core_fields [of s' s] by (simp add: quiet_def properties_of_def)

lemma quiet_report:
  assumes "core s1 = core s" and "disc_inv s" and "devices s h \<noteq> None" and "\<And>k. asks k os1 = 0 \<and> told k os1 = 0"
    and "s' = s1 \<and> os2 = [] \<or> LivoxLidarInfoChange h s1 = Inr (s', os2)"
  shows "quiet s s' (os1 @ os2)"
  using assms(5)
proof
  assume "s' = s1 \<and> os2 = []"
  then show ?thesis using quiet_core [of s' s os1] assms(1,2,4) by simp
next
  assume i: "LivoxLidarInfoChange h s1 = Inr (s', os2)"
  note c = core_properties [OF assms(1)] and f = core_fields [OF assms(1)]
  have "disc_inv s1" "devices s1 h \<noteq> None" using c f assms(2,3) by (simp_all add: properties_of_def)
  from reported_properties [OF i this] show ?thesis
    using c f assms(4) by (simp add: quiet_def properties_of_def)
qed

lemma new_device_result:
  assumes "add_device h data name s = Inr (s', os)" and "disc_inv s" and "devices s h = None"
  shows "quiet s s' os"
proof -
  have v: "master_sdk s = Some True" using assms(2) by (simp add: watched)
  let ?d = "new_device\<lparr>sn := name, di_lidar_ip := dotted (take 4 (drop 18 data)), di_dev_type := data ! 1\<rparr>"
  let ?t = "case dev_types s h of Some _ \<Rightarrow> dev_types s | None \<Rightarrow> (dev_types s)(h \<mapsto> data ! 1)"
  have t: "?t h \<noteq> None" "\<And>k. k \<noteq> h \<Longrightarrow> ?t k = dev_types s k" by (auto split: option.splits)
  have s': "s' = s\<lparr>dev_types := ?t, devices := (devices s)(h \<mapsto> ?d)\<rparr>" and q: "QueryFwType h s' = Inr os"
    using assms(1) v by (auto simp: add_device_def Let_def sbind_eq_Inr GetFirmwareType_def new_device_def)
  have d: "devices s' = (devices s)(h \<mapsto> ?d)" "dev_types s' = ?t" "command_handlers s' = command_handlers s" "fw_count s' = fw_count s"
    "is_view s' = is_view s" "master_sdk s' = master_sdk s" unfolding s' by simp_all
  have n: "\<not> is_get_loader_mode ?d" "\<not> is_callback ?d" by (simp_all add: new_device_def)
  have sub: "dom (devices s) \<subseteq> dom (dev_types s)" using assms(2) by (simp add: watched)
  have "dom (devices s') \<subseteq> dom (dev_types s')"
  proof
    fix k assume "k \<in> dom (devices s')"
    then show "k \<in> dom (dev_types s')" using sub t(1) t(2) [of k] by (cases "k = h") (auto simp: d dom_def)
  qed
  then have "disc_inv s'" using assms(2) by (simp add: watched d)
  moreover have "resolved s' = resolved s" using assms(3) n by (auto simp: resolved_def d)
  moreover have "waiting s' k = (if k = h then has_handler s' h else waiting s k)" for k
    using n t(2) [of k] by (simp add: waiting_def has_handler_def d)
  moreover have "\<not> waiting s h" "\<not> announced s h" using assms(3) by (simp_all add: watched)
  moreover have "announced s' = announced s" using n assms(3) by (auto simp: announced_def d fun_eq_iff)
  ultimately show ?thesis using QueryFwType_result [OF q] d(4) by (simp add: quiet_def)
qed

lemma detection_quiet:
  assumes "HandleDetectionData h p s = Inr (s', os)" and "disc_inv s"
  shows "quiet s s' os"
proof -
  have "\<not> is_view s" using assms(2) by (simp add: watched)
  from assms(1) this show ?thesis
  proof (cases rule: Detection_result)
    case nothing
    then show ?thesis using quiet_core [of s s "[]"] assms(2) by simp
  next
    case (known s1 os1 os2)
    then show ?thesis using quiet_report assms(2) by blast
  next
    case (new data name s1)
    have "disc_inv s1" "devices s1 h = None"
      using new(1) core_properties [OF new(2)] core_fields [OF new(2)] assms(2) by (simp_all add: properties_of_def)
    from new_device_result [OF new(3) this] show ?thesis
      using core_properties [OF new(2)] core_fields [OF new(2)] by (simp add: quiet_def properties_of_def)
  qed
qed

lemma configuration_quiet:
  assumes "UpdateLidarCallback t h st r s = Inr (s', os)" and "disc_inv s" and "devices s h \<noteq> None"
  shows "quiet s s' os"
proof -
  let ?s1 = "s\<lparr>handler_devices := (handler_devices s)(t := insert h (handler_devices s t))\<rparr>"
  have "s' = s \<and> os = [] \<or> LivoxLidarInfoChange h s = Inr (s', os) \<or> LivoxLidarInfoChange h ?s1 = Inr (s', os)"
    using assms(1) by (auto simp: UpdateLidarCallback_def sbind_eq_Inr split: if_splits option.splits)
  then consider "s' = s \<and> os = [] \<or> LivoxLidarInfoChange h s = Inr (s', os)" | "LivoxLidarInfoChange h ?s1 = Inr (s', os)" by blast
  then show ?thesis
  proof cases
    case 1
    then show ?thesis using quiet_report [of s s h "[]" s' os] assms(2,3) by simp
  next
    case 2
    then show ?thesis using quiet_report [of ?s1 s h "[]" s' os] assms(2,3) by (simp add: core_def)
  qed
qed

lemma RegisterLidar_core:
  assumes "RegisterLidar a h buf n s = Inr (s', r)" and "disc_inv s"
  shows "core s' = core s"
proof -
  have v: "\<not> is_view s" "command_handlers s \<union> {kLivoxLidarTypeIndustrialHAP, kLivoxLidarTypeMid360} = command_handlers s"
    using assms(2) by (auto simp: watched)
  have g: "core (GeneralInit (s\<lparr>type_lidars_cfg_map := m1, custom_lidars_cfg_map := m2, custom_lidars_cfg := l\<rparr>)) = core s" for m1 m2 l
    using v(2) by (simp add: GeneralInit_def AddDetectedLidar_def core_def)
  have "s' = s \<or> (\<exists>t m1 m2 l. CreateCommandHandler t (GeneralInit (s\<lparr>type_lidars_cfg_map := m1, custom_lidars_cfg_map := m2, custom_lidars_cfg := l\<rparr>)) = Inr s')"
    using assms(1) by (simp add: RegisterLidar_def sbind_eq_Inr Let_def split: option.splits if_splits) blast+
  then show ?thesis
  proof (elim disjE exE)
    fix t m1 m2 l
    assume c: "CreateCommandHandler t (GeneralInit (s\<lparr>type_lidars_cfg_map := m1, custom_lidars_cfg_map := m2, custom_lidars_cfg := l\<rparr>)) = Inr s'"
    moreover have "\<not> is_view (GeneralInit (s\<lparr>type_lidars_cfg_map := m1, custom_lidars_cfg_map := m2, custom_lidars_cfg := l\<rparr>))"
      using v(1) by (simp add: GeneralInit_def AddDetectedLidar_def)
    ultimately show ?thesis using CreateCommandHandler_core g by simp
  qed simp
qed

lemma datagram_quiet:
  assumes "OnData a h port buf n s = Inr (s', lg, r)" and "disc_inv s"
  shows "quiet s s' []"
proof -
  have "s' = s \<or> RegisterLidar a h buf n s = Inr (s', r)"
    using assms(1) by (auto simp: OnData_def Let_def sbind_eq_Inr split: if_splits option.splits)
  then have "core s' = core s" using RegisterLidar_core assms(2) by blast
  then show ?thesis by (rule quiet_core) (simp_all add: assms(2))
qed

lemma count_up:
  fixes w :: "8 word"
  assumes "0 \<le> sint w" and "sint w \<le> 10"
  shows "sint (w + 1) = sint w + 1"
proof -
  have "w + 1 = word_of_int (sint w + 1)" by simp
  moreover have "sint (word_of_int (sint w + 1) :: 8 word) = signed_take_bit 7 (sint w + 1)" by (simp only: signed_of_int) simp
  ultimately show ?thesis using assms by (simp add: signed_take_bit_int_eq_self)
qed

text \<open>An answer: the device is asked again, or its mode is known.\<close>

lemma answer_result:
  assumes "QueryFwTypeCallback st h r s = Inr (s', os)" and "disc_inv s" and "waiting s h"
  shows "disc_inv s'" and "announced s' = announced s" and "told k os = 0"
    and "(\<forall>k. waiting s' k = waiting s k) \<and> resolved s' = resolved s \<and> sint (fw_count s') = sint (fw_count s) + 1 \<and> (\<forall>k. asks k os = (if k = h then 1 else 0))
      \<or> (\<forall>k. waiting s' k = (k \<noteq> h \<and> waiting s k)) \<and> resolved s' = insert h (resolved s) \<and> h \<notin> resolved s \<and> fw_count s' = 0 \<and> os = []"
proof -
  have P: "disc_inv s' \<and> announced s' = announced s \<and> told k os = 0 \<and>
    ((\<forall>k. waiting s' k = waiting s k) \<and> resolved s' = resolved s \<and> sint (fw_count s') = sint (fw_count s) + 1 \<and> (\<forall>k. asks k os = (if k = h then 1 else 0))
      \<or> (\<forall>k. waiting s' k = (k \<noteq> h \<and> waiting s k)) \<and> resolved s' = insert h (resolved s) \<and> h \<notin> resolved s \<and> fw_count s' = 0 \<and> os = [])" for k
    using FwCallback_result [OF assms(1)]
  proof
    assume a: "ask_again h s = Inr (s', os) \<and> sint (fw_count s) \<le> 10"
    note r = ask_again_result [OF conjunct1 [OF a]]
    have c: "sint (fw_count s + 1) = sint (fw_count s) + 1"
      using a assms(2) by (intro count_up) (simp_all add: disc_inv_def)
    have "has_handler s h" using assms(3) by (auto simp: waiting_def has_handler_def)
    then show ?thesis using r(2,3) a assms(2) unfolding r(1) by (simp add: watched c fun_eq_iff)
  next
    assume "os = [] \<and> (\<exists>v. s' = (UpdateFwType h v s)\<lparr>fw_count := 0\<rparr>)"
    then obtain v where os: "os = []" and s': "s' = (UpdateFwType h v s)\<lparr>fw_count := 0\<rparr>" by blast
    obtain d where d: "devices s h = Some d" "\<not> is_get_loader_mode d" using assms(3) by (auto simp: waiting_def)
    have f: "devices s' = (devices s)(h \<mapsto> d\<lparr>is_get_loader_mode := True, is_loader_mode := (v = 0)\<rparr>)" "dev_types s' = dev_types s"
      "command_handlers s' = command_handlers s" "is_view s' = is_view s" "master_sdk s' = master_sdk s" "fw_count s' = 0"
      unfolding s' UpdateFwType_def by (simp_all add: d(1))
    have "disc_inv s'" using assms(2) d(1) by (auto simp: watched f)
    moreover have "announced s' = announced s" "\<And>k. waiting s' k = (k \<noteq> h \<and> waiting s k)" "resolved s' = insert h (resolved s)" "h \<notin> resolved s"
      using d by (auto simp: waiting_def announced_def resolved_def f fun_eq_iff)
    ultimately show ?thesis using os f(6) by simp
  qed
  then show "disc_inv s'" "announced s' = announced s" "told k os = 0"
    "(\<forall>k. waiting s' k = waiting s k) \<and> resolved s' = resolved s \<and> sint (fw_count s') = sint (fw_count s) + 1 \<and> (\<forall>k. asks k os = (if k = h then 1 else 0))
      \<or> (\<forall>k. waiting s' k = (k \<noteq> h \<and> waiting s k)) \<and> resolved s' = insert h (resolved s) \<and> h \<notin> resolved s \<and> fw_count s' = 0 \<and> os = []"
    by blast+
qed

lemma resolved_finite: "disc_inv s \<Longrightarrow> finite (resolved s)"
  unfolding watched by (rule finite_subset [of _ "dom (devices s)"]) auto

lemma watch_quiet:
  assumes "watch_inv w" and "watch w e = Inr (w', os)" and "quiet (disc w) (disc w') os"
    and "\<And>h. answers_of e h = 0" and "\<And>st h r. e \<noteq> FwAnswer st h r"
  shows "watch_inv w'"
proof -
  have "fw_answers w' = fw_answers w" "\<And>h. open_q w' h = open_q w h + asks h os" "\<And>h. reports w' h = reports w h + told h os"
    using assms(2,4,5) by (auto simp: watch_def sbind_eq_Inr split: lidar_event.splits)
  then show ?thesis using assms(1,3) by (simp add: watch_inv_def quiet_def)
qed

interpretation watching: guarded_system watch watch_ok watch_inv "\<lambda>_. True"
proof
  fix w e w' os
  assume inv: "watch_inv w" and g: "watch_ok w e" and h: "watch w e = Inr (w', os)"
  have st: "lidar_step (disc w) e = Inr (disc w', os)" using h by (auto simp: watch_def sbind_eq_Inr)
  have di: "disc_inv (disc w)" using inv by (simp add: watch_inv_def)
  have "watch_inv w'"
  proof (cases e)
    case (Detect k p)
    show ?thesis by (rule watch_quiet [OF inv h]) (use Detect st detection_quiet di in \<open>auto simp: answers_of_def\<close>)
  next
    case (CfgAnswer t stt k r)
    show ?thesis by (rule watch_quiet [OF inv h]) (use CfgAnswer st g configuration_quiet di in \<open>auto simp: answers_of_def watch_ok_def\<close>)
  next
    case (Datagram a k port buf n)
    show ?thesis by (rule watch_quiet [OF inv h]) (use Datagram st datagram_quiet di in \<open>auto simp: answers_of_def sbind_eq_Inr\<close>)
  next
    case (FwAnswer stt k r)
    have w': "fw_answers w' = fw_answers w + 1" "\<And>h. open_q w' h = open_q w h - (if k = h then 1 else 0) + asks h os"
      "\<And>h. reports w' h = reports w h + told h os"
      using h FwAnswer by (auto simp: watch_def sbind_eq_Inr answers_of_def)
    have wt: "waiting (disc w) k"
    proof (rule ccontr)
      assume "\<not> waiting (disc w) k"
      then have "open_q w k = 0" using inv by (simp add: watch_inv_def)
      then show False using g by (simp add: FwAnswer watch_ok_def)
    qed
    have c: "QueryFwTypeCallback stt k r (disc w) = Inr (disc w', os)" using st FwAnswer by simp
    note a = answer_result [OF c di wt]
    have f: "finite (resolved (disc w))" using resolved_finite di .
    have "0 \<le> sint (fw_count (disc w)) \<and> sint (fw_count (disc w)) \<le> 11" using di by (simp add: disc_inv_def)
    then show ?thesis using a(4) inv wt f a(1-3) by (elim disjE) (auto simp: watch_inv_def w')
  qed
  then show "watch_inv w' \<and> list_all (\<lambda>_. True) os" by (simp add: list_all_iff)
qed

section \<open>Runs of the discovery\<close>

definition begin_watch :: "Discovery \<Rightarrow> Watch" where
  "begin_watch s = \<lparr>disc = s, open_q = (\<lambda>_. 0), fw_answers = 0, reports = (\<lambda>_. 0)\<rparr>"

definition fw_events :: "lidar_event list \<Rightarrow> nat" where
  "fw_events es = length (filter (\<lambda>e. case e of FwAnswer st k r \<Rightarrow> True | _ \<Rightarrow> False) es)"

lemma watched_totals:
  assumes "run_handlers watch w es = Inr (w', os)" and "guarded watch_ok watch w es"
  shows "reports w' h = reports w h + told h os" and "fw_answers w' = fw_answers w + fw_events es"
    and "open_q w' h + sum_list (map (\<lambda>e. answers_of e h) es) = open_q w h + asks h os"
proof -
  have "reports w' h = reports w h + told h os \<and> fw_answers w' = fw_answers w + fw_events es
    \<and> open_q w' h + sum_list (map (\<lambda>e. answers_of e h) es) = open_q w h + asks h os"
    using assms
  proof (induction es arbitrary: w os)
    case Nil
    then show ?case by (simp add: fw_events_def)
  next
    case (Cons e es)
    then obtain w1 o1 o2 where s: "watch w e = Inr (w1, o1)" "run_handlers watch w1 es = Inr (w', o2)" "os = o1 @ o2"
      by (auto split: sum.splits)
    have g: "watch_ok w e" "guarded watch_ok watch w1 es" using Cons.prems(2) s(1) by simp_all
    have le: "answers_of e h \<le> open_q w h" using g(1) by (auto simp: watch_ok_def answers_of_def split: lidar_event.splits)
    have "open_q w1 h = open_q w h - answers_of e h + asks h o1" using s(1) by (auto simp: watch_def sbind_eq_Inr)
    with le have "open_q w1 h + answers_of e h = open_q w h + asks h o1" by linarith
    moreover have "reports w1 h = reports w h + told h o1" "fw_answers w1 = fw_answers w + (case e of FwAnswer st k r \<Rightarrow> 1 | _ \<Rightarrow> 0)"
      using s(1) by (auto simp: watch_def sbind_eq_Inr)
    moreover have "fw_events (e # es) = (case e of FwAnswer st k r \<Rightarrow> 1 | _ \<Rightarrow> 0) + fw_events es"
      by (simp add: fw_events_def split: lidar_event.splits)
    ultimately show ?case using Cons.IH [OF s(2) g(2)] s(3) by simp
  qed
  then show "reports w' h = reports w h + told h os" "fw_answers w' = fw_answers w + fw_events es"
    "open_q w' h + sum_list (map (\<lambda>e. answers_of e h) es) = open_q w h + asks h os" by simp_all
qed

lemma InitDiscovery_inv:
  assumes "InitDiscovery lidars customs True host mem = Some s"
  shows "disc_inv s" and "devices s = Map.empty"
  using assms by (auto simp: InitDiscovery_def GeneralInit_def AddDetectedLidar_def watched split: list.splits)

lemma begin_watch_inv: "disc_inv s \<Longrightarrow> devices s = Map.empty \<Longrightarrow> watch_inv (begin_watch s)"
  by (simp add: watch_inv_def begin_watch_def waiting_def announced_def disc_inv_def)


section \<open>A lidar comes up\<close>

definition detection :: "byte \<Rightarrow> byte list \<Rightarrow> byte list \<Rightarrow> 16 word \<Rightarrow> byte list" where
  "detection t name ip port = [0, t] @ name @ replicate (16 - length name) 0 @ ip @ le16b port"

lemma detection_fields:
  assumes "length name < 16" and "0 \<notin> set name" and "length ip = 4"
  shows "length (detection t name ip port) = 24" "detection t name ip port ! 0 = 0" "detection t name ip port ! Suc 0 = t"
    "take 4 (drop 18 (detection t name ip port)) = ip" "join16 (drop 22 (detection t name ip port)) = port"
    "serial_number (detection t name ip port @ rest) = Inr name"
proof -
  have d: "drop 18 (detection t name ip port) = ip @ le16b port" "drop 22 (detection t name ip port) = le16b port"
    using assms(1,3) by (simp_all add: detection_def)
  show "take 4 (drop 18 (detection t name ip port)) = ip" "join16 (drop 22 (detection t name ip port)) = port"
    "length (detection t name ip port) = 24"
    using assms(1,3) unfolding d by (simp_all add: detection_def join_append(1) [of port "[]", simplified])
  show "detection t name ip port ! 0 = 0" "detection t name ip port ! Suc 0 = t" by (simp_all add: detection_def)
  obtain n where n: "16 - length name = Suc n" using assms(1) by (metis Suc_diff_Suc)
  have "drop 2 (detection t name ip port @ rest) = name @ 0 # (replicate n 0 @ ip @ le16b port @ rest)"
    by (simp add: detection_def n)
  moreover have "b \<noteq> 0" if "b \<in> set name" for b using that assms(2) by auto
  ultimately show "serial_number (detection t name ip port @ rest) = Inr name"
    by (simp add: serial_number_def c_string_text)
qed

text \<open>The structure for the application: type, serial number and address, in 33 bytes.\<close>

lemma info_in_memory:
  assumes "length mem = 33" and "length a < 16" and "length b < 16" and "0 \<notin> set a" and "0 \<notin> set b"
  obtains i1 i2 info where "strcpy_to mem 1 a = Inr i1" and "strcpy_to i1 17 b = Inr i2" and "write_at i2 0 [t] = Inr info"
    and "c_string (drop 1 info) = a" and "c_string (drop 17 info) = b" and "info ! 0 = t"
proof -
  define s1 s2 where "s1 = take 16 (drop 1 mem)" and "s2 = drop 17 mem"
  let ?x = "take 1 mem" and ?a = "a @ [0]" and ?b = "b @ [0]"
  let ?r1 = "drop (length ?a) s1" and ?r2 = "drop (length ?b) s2"
  have "mem = ?x @ s1 @ s2"
    unfolding s1_def s2_def by (metis add_One_commute append_take_drop_id drop_drop numeral_plus_one semiring_norm(5))
  moreover have "s1 = take (length ?a) s1 @ ?r1" by (rule append_take_drop_id [symmetric])
  ultimately have mem: "mem = ?x @ take (length ?a) s1 @ (?r1 @ s2)" by (metis append_assoc)
  have l: "length ?x = 1" "length (take (length ?a) s1) = length ?a" "length ?r1 = 15 - length a" "length (take (length ?b) s2) = length ?b"
    using assms(1-3) by (auto simp: s1_def s2_def)
  have s2: "?x @ ?a @ (?r1 @ s2) = (?x @ ?a @ ?r1) @ take (length ?b) s2 @ ?r2"
    by (metis append_assoc append_take_drop_id)
  have "strcpy_to mem 1 a = Inr (?x @ ?a @ (?r1 @ s2))"
    unfolding strcpy_to_def by (subst mem) (rule write_at_block, use l in simp_all)
  moreover note s2
  moreover have "strcpy_to ((?x @ ?a @ ?r1) @ take (length ?b) s2 @ ?r2) 17 b = Inr ((?x @ ?a @ ?r1) @ ?b @ ?r2)"
    unfolding strcpy_to_def by (rule write_at_block) (use l assms(2) in simp_all)
  moreover have "(?x @ ?a @ ?r1) @ ?b @ ?r2 = [] @ ?x @ (?a @ ?r1 @ ?b @ ?r2)" by simp
  moreover have "write_at ([] @ ?x @ (?a @ ?r1 @ ?b @ ?r2)) 0 [t] = Inr ([] @ [t] @ (?a @ ?r1 @ ?b @ ?r2))"
    by (rule write_at_block) (use l in simp_all)
  moreover have "drop 17 ([] @ [t] @ (?a @ ?r1 @ ?b @ ?r2)) = b @ 0 # ?r2"
  proof -
    have "length ([t] @ ?a @ ?r1) = 17" using l(3) assms(2) by simp
    then have "drop 17 (([t] @ ?a @ ?r1) @ (b @ 0 # ?r2)) = b @ 0 # ?r2" by (simp only: drop_append) simp
    then show ?thesis by simp
  qed
  moreover have "drop 1 ([] @ [t] @ (?a @ ?r1 @ ?b @ ?r2)) = a @ 0 # (?r1 @ ?b @ ?r2)" by simp
  moreover have "c_string (a @ 0 # m) = a" "c_string (b @ 0 # m) = b" for m
    using assms(4,5) by (metis c_string_text)+
  ultimately show thesis using that [of "?x @ ?a @ ?r1 @ s2" "(?x @ ?a @ ?r1) @ ?b @ ?r2" "[] @ [t] @ (?a @ ?r1 @ ?b @ ?r2)"] by simp
qed

definition fw_request :: "16 word \<times> byte list" where
  "fw_request = (kCommandIDLidarGetInternalInfo, rq 1 [] @ le16b (key_code kKeyFwType))"

lemma QueryFwType_sends: "has_handler s h \<Longrightarrow> QueryFwType h s = Inr [QueryFw h fw_request]"
  by (auto simp: QueryFwType_def fw_query has_handler_def fw_request_def)

text \<open>A lidar of the configuration that is not yet configured.\<close>

definition awaited :: "CustomLidarCfg \<Rightarrow> 32 word \<Rightarrow> Discovery \<Rightarrow> bool" where
  "awaited cfg h s \<longleftrightarrow> configured_mode s \<and> device_type cfg = kLivoxLidarTypeMid360 \<and> gch_custom_lidars s h = Some cfg
     \<and> custom_lidars s kLivoxLidarTypeMid360 h \<in> {None, Some cfg} \<and> h \<notin> handler_devices s kLivoxLidarTypeMid360
     \<and> lidars_dev_type s h \<in> {None, Some kLivoxLidarTypeMid360} \<and> length (stack_mem s) = 33"

lemma CreateCommandHandler_mid360:
  assumes "awaited cfg h s"
  obtains s1 where "CreateCommandHandler kLivoxLidarTypeMid360 s = Inr s1" and "awaited cfg h s1" and "core s1 = core s"
    and "custom_lidars s1 kLivoxLidarTypeMid360 h = Some cfg"
proof
  show "CreateCommandHandler kLivoxLidarTypeMid360 s = Inr (HandlerInit kLivoxLidarTypeMid360 s)"
    using assms by (simp add: CreateCommandHandler_def awaited_def configured_mode_def)
  show "awaited cfg h (HandlerInit kLivoxLidarTypeMid360 s)" "custom_lidars (HandlerInit kLivoxLidarTypeMid360 s) kLivoxLidarTypeMid360 h = Some cfg"
    using assms by (auto simp: HandlerInit_def awaited_def configured_mode_def)
qed (simp add: HandlerInit_def core_def)

definition detects :: "CommPacket \<Rightarrow> byte list \<Rightarrow> byte list \<Rightarrow> 16 word \<Rightarrow> bool" where
  "detects p name ip port \<longleftrightarrow> data_len p \<noteq> 0 \<and> length name < 16 \<and> 0 \<notin> set name \<and> length ip = 4
     \<and> (\<exists>rest. cp_data p = detection kLivoxLidarTypeMid360 name ip port @ rest)"

definition fresh :: "byte list \<Rightarrow> byte list \<Rightarrow> DeviceInfo" where
  "fresh name ip = new_device\<lparr>sn := name, di_lidar_ip := dotted ip, di_dev_type := kLivoxLidarTypeMid360\<rparr>"

lemma detection_eq:
  assumes "awaited cfg h s" and "detects p name ip port"
  obtains s1 data where "awaited cfg h s1" and "core s1 = core s" and "custom_lidars s1 kLivoxLidarTypeMid360 h = Some cfg"
    and "data ! 1 = kLivoxLidarTypeMid360" "take 4 (drop 18 data) = ip" "join16 (drop 22 data) = port"
    and "HandleDetectionData h p s = (case devices s h of Some d \<Rightarrow> known_device h data d s1 | None \<Rightarrow> add_device h data name s1)"
proof -
  obtain rest where r: "cp_data p = detection kLivoxLidarTypeMid360 name ip port @ rest" "length name < 16" "0 \<notin> set name" "length ip = 4" "data_len p \<noteq> 0"
    using assms(2) by (auto simp: detects_def)
  note f = detection_fields [OF r(2-4), of kLivoxLidarTypeMid360 port]
  obtain s1 where s1: "CreateCommandHandler kLivoxLidarTypeMid360 s = Inr s1" "awaited cfg h s1" "core s1 = core s"
    "custom_lidars s1 kLivoxLidarTypeMid360 h = Some cfg"
    by (rule CreateCommandHandler_mid360 [OF assms(1)])
  have "read_at (cp_data p) 0 24 = Inr (detection kLivoxLidarTypeMid360 name ip port)" using f(1) by (simp add: r(1))
  moreover have "\<not> is_view s" using assms(1) by (simp add: awaited_def configured_mode_def)
  ultimately have "HandleDetectionData h p s = (case devices s h of Some d \<Rightarrow> known_device h (detection kLivoxLidarTypeMid360 name ip port) d s1
      | None \<Rightarrow> add_device h (detection kLivoxLidarTypeMid360 name ip port) name s1)"
    using r(5) s1(1) core_fields [OF s1(3)] f(6) by (simp add: HandleDetectionData_def VerifyNetSegment_def f(2,3) r(1) del: read_at_Inr)
  then show thesis using that s1(2-4) f(3-5) by simp
qed

text \<open>The stages: detected, asked in vain, answered, detected again, configured.\<close>

lemma stage_detected:
  assumes "awaited cfg h s" and "detects p name ip port" and "devices s h = None" and "dev_types s h = None"
  obtains s' where "HandleDetectionData h p s = Inr (s', [QueryFw h fw_request])" and "awaited cfg h s'"
    and "devices s' h = Some (fresh name ip)" and "dev_types s' h = Some kLivoxLidarTypeMid360" and "fw_count s' = fw_count s"
proof -
  obtain s1 data where d: "awaited cfg h s1" "core s1 = core s" "data ! 1 = kLivoxLidarTypeMid360" "take 4 (drop 18 data) = ip"
    "HandleDetectionData h p s = (case devices s h of Some d \<Rightarrow> known_device h data d s1 | None \<Rightarrow> add_device h data name s1)"
    by (rule detection_eq [OF assms(1,2)])
  note c = core_fields [OF d(2)]
  let ?s2 = "s1\<lparr>dev_types := (dev_types s1)(h \<mapsto> kLivoxLidarTypeMid360), devices := (devices s1)(h \<mapsto> fresh name ip)\<rparr>"
  have e: "awaited cfg h ?s2" "has_handler ?s2 h" "master_sdk ?s2 = Some True"
    using d(1) by (auto simp: awaited_def configured_mode_def has_handler_def)
  have "add_device h data name s1 = Inr (?s2, [QueryFw h fw_request])"
    using QueryFwType_sends [OF e(2)] e(3) assms(4) c d(3,4)
    by (simp add: add_device_def fresh_def [symmetric] GetFirmwareType_def) (simp add: fresh_def new_device_def)
  then have "HandleDetectionData h p s = Inr (?s2, [QueryFw h fw_request])" using d(5) assms(3) by simp
  then show thesis using that [of ?s2] e(1) c by simp
qed

lemma small_count: "n \<le> 100 \<Longrightarrow> sint (of_nat n :: 8 word) = int n"
proof -
  assume "n \<le> 100"
  moreover have "sint (word_of_int (int n) :: 8 word) = signed_take_bit 7 (int n)" by (simp only: signed_of_int) simp
  ultimately show ?thesis by (simp add: signed_take_bit_int_eq_self)
qed

lemma stage_failures:
  assumes "has_handler s h" and "fw_count s = of_nat n" and "n + length fs \<le> 11" and "kLivoxLidarStatusSuccess \<notin> set fs"
  shows "run_handlers lidar_step s (map (\<lambda>st. FwAnswer st h None) fs)
    = Inr (s\<lparr>fw_count := of_nat (n + length fs)\<rparr>, replicate (length fs) (QueryFw h fw_request))"
  using assms
proof (induction fs arbitrary: s n)
  case Nil
  then show ?case by simp
next
  case (Cons st fs)
  let ?s1 = "s\<lparr>fw_count := of_nat (Suc n)\<rparr>"
  have h: "has_handler ?s1 h" using Cons.prems(1) by (simp add: has_handler_def)
  have "sint (fw_count s) = int n" using Cons.prems(2,3) by (simp add: small_count)
  then have "QueryFwTypeCallback st h None s = Inr (?s1, [QueryFw h fw_request])"
    using Cons.prems(2-4) QueryFwType_sends [OF h] by (simp add: QueryFwTypeCallback_def ask_again_def add.commute)
  moreover have "run_handlers lidar_step ?s1 (map (\<lambda>st. FwAnswer st h None) fs)
      = Inr (?s1\<lparr>fw_count := of_nat (Suc n + length fs)\<rparr>, replicate (length fs) (QueryFw h fw_request))"
    by (rule Cons.IH [OF h]) (use Cons.prems in simp_all)
  ultimately show ?case by simp
qed

text \<open>The answer of a device: its return code, the number of keys, the key, its length, the value.\<close>

definition fw_response :: "16 word \<Rightarrow> byte \<Rightarrow> byte list \<Rightarrow> byte list" where
  "fw_response n v rest = [0] @ le16b n @ le16b (key_code kKeyFwType) @ le16b 1 @ [v] @ rest"

lemma fw_response_eq:
  assumes "sint (fw_count s) \<le> 10"
  shows "QueryFwTypeCallback kLivoxLidarStatusSuccess h (Some (fw_response n v rest)) s = Inr (UpdateFwType h v (s\<lparr>fw_count := 0\<rparr>), [])"
proof -
  let ?r = "fw_response n v rest"
  have d: "take 1 ?r = [0]" "drop 3 ?r = le16b (key_code kKeyFwType) @ le16b 1 @ [v] @ rest" "drop 5 ?r = le16b 1 @ [v] @ rest" "drop 7 ?r = v # rest"
    "8 \<le> length ?r"
    by (simp_all add: fw_response_def numeral_eq_Suc)
  have "read_at ?r 0 1 = Inr [0]" "read_at ?r 3 2 = Inr (le16b (key_code kKeyFwType))" "read_at ?r 5 2 = Inr (le16b 1)" "read_at ?r 7 1 = Inr [v]"
    using d by simp_all
  then show ?thesis using assms by (simp add: QueryFwTypeCallback_def del: read_at_Inr)
qed

definition mid360_hosts :: "HostNetInfo \<Rightarrow> (ParamKeyName \<times> byte list) list" where
  "mid360_hosts h =
    [(kKeyStateInfoHostIpCfg, host_value (data_ip h) (push_msg_port h) kMid360LidarPushMsgPort),
     (kKeyLidarPointDataHostIpCfg, host_value (data_ip h) (point_data_port h) kMid360LidarPointCloudPort),
     (kKeyLidarImuHostIpCfg, host_value (data_ip h) (imu_data_port h) kMid360LidarImuDataPort)]"

lemma stage_configures:
  assumes "awaited cfg h s" and "detects p name ip port" and "devices s h = Some d"
    and "is_get_loader_mode d" and "\<not> is_loader_mode d" and "\<not> is_update_cfg d"
    and "valid_ip (host_ip (host_net_info cfg))" and "valid_ip (data_ip (host_net_info cfg))"
  obtains s' q where "HandleDetectionData h p s = Inr (s', [Configure h port q])" and "reads_back (Inr (Some q)) (mid360_hosts (host_net_info cfg))"
    and "awaited cfg h s'" and "core s' = core s"
proof -
  obtain s1 data where e: "awaited cfg h s1" "core s1 = core s" "custom_lidars s1 kLivoxLidarTypeMid360 h = Some cfg"
    "data ! 1 = kLivoxLidarTypeMid360" "join16 (drop 22 data) = port"
    "HandleDetectionData h p s = (case devices s h of Some d \<Rightarrow> known_device h data d s1 | None \<Rightarrow> add_device h data name s1)"
    by (rule detection_eq [OF assms(1,2)])
  let ?c = "LivoxLidarCfg.truncate cfg"
  have hn: "host_net_info ?c = host_net_info cfg" by (simp add: LivoxLidarCfg.truncate_def)
  have rb: "reads_back (obind (BuildUpdateMid360LidarCfgRequest ?c req_buff) (send_request kCommandIDLidarWorkModeControl)) (mid360_hosts (host_net_info cfg))"
    using mid360_configuration_reads_back [of ?c] assms(7,8) by (simp add: hn mid360_hosts_def)
  then obtain q where q: "obind (BuildUpdateMid360LidarCfgRequest ?c req_buff) (send_request kCommandIDLidarWorkModeControl) = Inr (Some q)"
    by (auto simp: reads_back_def)
  have m: "\<not> is_view s1" "master_sdk s1 = Some True" "kLivoxLidarTypeMid360 \<in> command_handlers s1" "h \<notin> handler_devices s1 kLivoxLidarTypeMid360"
    "lidars_dev_type s1 h \<in> {None, Some kLivoxLidarTypeMid360}"
    using e(1) by (simp_all add: awaited_def configured_mode_def)
  have "UpdateLidarCfg kLivoxLidarTypeMid360 h port s1 = Inr [Configure h port q]"
    using m e(3) q by (simp add: UpdateLidarCfg_def HandlerUpdateLidarCfg_def SetCustomLidar_def kLivoxLidarTypeMid360_def kLivoxLidarTypeIndustrialHAP_def)
  moreover obtain s' where "ManagerHandleDetectionData h data True False s1 = Inr (s', [])" "awaited cfg h s'" "core s' = core s1"
  proof -
    let ?s2 = "s1\<lparr>lidars_dev_type := (lidars_dev_type s1)(h \<mapsto> kLivoxLidarTypeMid360)\<rparr>"
    have "awaited cfg h ?s2" "core ?s2 = core s1" using e(1) by (simp_all add: awaited_def configured_mode_def core_def)
    moreover have "ManagerHandleDetectionData h data True False s1 = Inr (s1, []) \<or> ManagerHandleDetectionData h data True False s1 = Inr (?s2, [])"
      using m(1,5) e(4) by (auto simp: ManagerHandleDetectionData_def split: option.splits)
    ultimately show thesis using that e(1) by blast
  qed
  ultimately have "known_device h data d s1 = Inr (s', [Configure h port q])"
    using assms(4-6) m(1) e(4,5) by (simp add: known_device_def)
  then show thesis using that [of s' q] e(2,6) assms(3) rb \<open>awaited cfg h s'\<close> \<open>core s' = core s1\<close> by (simp add: q)
qed

lemma stage_confirmed:
  assumes "awaited cfg h s" and "devices s h = Some d" and "\<not> is_callback d"
    and "sn d = name" and "di_lidar_ip d = dotted ip" and "di_dev_type d = kLivoxLidarTypeMid360" and "length name < 16" and "0 \<notin> set name"
  obtains s' info where "UpdateLidarCallback kLivoxLidarTypeMid360 h kLivoxLidarStatusSuccess (Some [0, 0, 0]) s = Inr (s', [InfoChange h info])"
    and "info ! 0 = kLivoxLidarTypeMid360" and "c_string (drop 1 info) = name" and "c_string (drop 17 info) = text_bytes (dotted ip)"
proof -
  have "length (text_bytes (dotted ip)) < 16" "0 \<notin> set (text_bytes (dotted ip))" "length (stack_mem s) = 33"
    using length_dotted [of ip] dotted_bytes [of 0 ip] assms(1) by (auto simp: awaited_def)
  then obtain i1 i2 info where i: "strcpy_to (stack_mem s) 1 name = Inr i1" "strcpy_to i1 17 (text_bytes (dotted ip)) = Inr i2"
    "write_at i2 0 [kLivoxLidarTypeMid360] = Inr info" "c_string (drop 1 info) = name" "c_string (drop 17 info) = text_bytes (dotted ip)"
    "info ! 0 = kLivoxLidarTypeMid360"
    using info_in_memory [of "stack_mem s" name "text_bytes (dotted ip)" kLivoxLidarTypeMid360] assms(7,8) by blast
  have b: "read_at [0, 0, 0 :: byte] 0 1 = Inr [0]" "read_at [0, 0, 0 :: byte] 1 2 = Inr (le16b 0)"
    by (simp_all add: le16b_def numeral_eq_Suc)
  have "\<not> is_view s" using assms(1) by (simp add: awaited_def configured_mode_def)
  then have "\<exists>s'. UpdateLidarCallback kLivoxLidarTypeMid360 h kLivoxLidarStatusSuccess (Some [0, 0, 0]) s = Inr (s', [InfoChange h info])"
    using i(1-3) assms(2-6) b
    by (simp add: UpdateLidarCallback_def LivoxLidarInfoChange_def device_def Let_def del: read_at_Inr write_at_Inr)
  then show thesis using that i(4-6) by blast
qed

text \<open>
  C19.  A lidar comes up: when a Mid-360 of the configuration is detected it is asked for its mode; after up to ten failed
  answers it is asked again each time; once it answers that it runs its application the next detection sends
  it the configured hosts, in a request it reads back as such; and when it confirms them it
  is reported to the application with its type, serial number and address.
\<close>

theorem lidar_comes_up:
  assumes "awaited cfg h s" and "detects p name ip port" and "devices s h = None" and "dev_types s h = None" and "fw_count s = 0"
    and "valid_ip (host_ip (host_net_info cfg))" and "valid_ip (data_ip (host_net_info cfg))"
    and "kLivoxLidarStatusSuccess \<notin> set fs" and "length fs \<le> 10" and "v \<noteq> 0"
  shows "\<exists>s' q info. run_handlers lidar_step s (Detect h p # map (\<lambda>st. FwAnswer st h None) fs
      @ [FwAnswer kLivoxLidarStatusSuccess h (Some (fw_response n v rest)), Detect h p,
         CfgAnswer kLivoxLidarTypeMid360 kLivoxLidarStatusSuccess h (Some [0, 0, 0])])
    = Inr (s', replicate (Suc (length fs)) (QueryFw h fw_request) @ [Configure h port q, InfoChange h info])
    \<and> reads_back (Inr (Some q)) (mid360_hosts (host_net_info cfg))
    \<and> info ! 0 = kLivoxLidarTypeMid360 \<and> c_string (drop 1 info) = name \<and> c_string (drop 17 info) = text_bytes (dotted ip)"
proof -
  obtain s1 where s1: "HandleDetectionData h p s = Inr (s1, [QueryFw h fw_request])" "awaited cfg h s1" "devices s1 h = Some (fresh name ip)"
    "dev_types s1 h = Some kLivoxLidarTypeMid360" "fw_count s1 = fw_count s"
    by (rule stage_detected [OF assms(1-4)])
  let ?s2 = "s1\<lparr>fw_count := of_nat (length fs)\<rparr>"
  have "has_handler s1 h" using s1(2,4) by (simp add: has_handler_def awaited_def configured_mode_def)
  then have r2: "run_handlers lidar_step s1 (map (\<lambda>st. FwAnswer st h None) fs) = Inr (?s2, replicate (length fs) (QueryFw h fw_request))"
    using stage_failures [of s1 h 0 fs] s1(5) assms(5,8,9) by simp
  let ?d = "(fresh name ip)\<lparr>is_get_loader_mode := True, is_loader_mode := False\<rparr>"
  let ?s3 = "s1\<lparr>fw_count := 0, devices := (devices s1)(h \<mapsto> ?d)\<rparr>"
  have "sint (fw_count ?s2) \<le> 10" using assms(9) by (simp add: small_count)
  from fw_response_eq [OF this] have r3: "lidar_step ?s2 (FwAnswer kLivoxLidarStatusSuccess h (Some (fw_response n v rest))) = Inr (?s3, [])"
    using s1(3) assms(10) by (simp add: UpdateFwType_def)
  have e3: "awaited cfg h ?s3" using s1(2) by (simp add: awaited_def configured_mode_def)
  have d3: "devices ?s3 h = Some ?d" "is_get_loader_mode ?d" "\<not> is_loader_mode ?d" "\<not> is_update_cfg ?d" "\<not> is_callback ?d"
    "sn ?d = name" "di_lidar_ip ?d = dotted ip" "di_dev_type ?d = kLivoxLidarTypeMid360"
    by (simp_all add: fresh_def new_device_def)
  obtain s4 q where s4: "HandleDetectionData h p ?s3 = Inr (s4, [Configure h port q])" "reads_back (Inr (Some q)) (mid360_hosts (host_net_info cfg))"
    "awaited cfg h s4" "core s4 = core ?s3"
    by (rule stage_configures [OF e3 assms(2) d3(1-4) assms(6,7)])
  have d4: "devices s4 h = Some ?d" using core_fields [OF s4(4)] by simp
  have nm: "length name < 16" "0 \<notin> set name" using assms(2) by (simp_all add: detects_def)
  obtain s5 info where s5: "UpdateLidarCallback kLivoxLidarTypeMid360 h kLivoxLidarStatusSuccess (Some [0, 0, 0]) s4 = Inr (s5, [InfoChange h info])"
    "info ! 0 = kLivoxLidarTypeMid360" "c_string (drop 1 info) = name" "c_string (drop 17 info) = text_bytes (dotted ip)"
    by (rule stage_confirmed [OF s4(3) d4 d3(5-8) nm])
  have "run_handlers lidar_step ?s2 [FwAnswer kLivoxLidarStatusSuccess h (Some (fw_response n v rest)), Detect h p,
      CfgAnswer kLivoxLidarTypeMid360 kLivoxLidarStatusSuccess h (Some [0, 0, 0])] = Inr (s5, [Configure h port q, InfoChange h info])"
    using r3 s4(1) s5(1) by simp
  from run_handlers_append [OF r2 this] have "run_handlers lidar_step s (Detect h p # map (\<lambda>st. FwAnswer st h None) fs
      @ [FwAnswer kLivoxLidarStatusSuccess h (Some (fw_response n v rest)), Detect h p,
         CfgAnswer kLivoxLidarTypeMid360 kLivoxLidarStatusSuccess h (Some [0, 0, 0])])
    = Inr (s5, replicate (Suc (length fs)) (QueryFw h fw_request) @ [Configure h port q, InfoChange h info])"
    using s1(1) by simp
  then show ?thesis using s4(2) s5(2-4) by blast
qed

definition example_lidar :: CustomLidarCfg where
  "example_lidar = \<lparr>device_type = kLivoxLidarTypeMid360, host_net_info = host_net_info example_cfg, lidar_addr = 7,
     net_cmd_data_port = 56100, net_push_msg_port = 56200, net_point_data_port = 56300, net_imu_data_port = 56400, net_log_data_port = 56500\<rparr>"

definition example_start :: Discovery where
  "example_start = the (InitDiscovery [] [example_lidar] True 1 (replicate 33 0))"

definition example_found :: CommPacket where
  "example_found = \<lparr>protocol = 0, version = 0, seq_num = 1, cmd_id = 0, cmd_type = 1, sender_type = 1,
     cp_data = detection kLivoxLidarTypeMid360 [77, 51, 54] [192, 168, 1, 7] 56100, data_len = 24\<rparr>"

lemma example_ready:
  "InitDiscovery [] [example_lidar] True 1 (replicate 33 0) = Some example_start" "awaited example_lidar 7 example_start"
  "detects example_found [77, 51, 54] [192, 168, 1, 7] 56100" "devices example_start 7 = None" "dev_types example_start 7 = None"
  "fw_count example_start = 0" "valid_ip (host_ip (host_net_info example_lidar))" "valid_ip (data_ip (host_net_info example_lidar))"
  by (simp_all add: example_start_def InitDiscovery_def GeneralInit_def AddDetectedLidar_def awaited_def configured_mode_def example_lidar_def
      detects_def example_found_def example_cfg_def data_ip_def valid_dotted)

theorem lidar_comes_up_witness:
  "\<exists>s' q info. run_handlers lidar_step example_start
     [Detect 7 example_found, FwAnswer kLivoxLidarStatusTimeout 7 None, FwAnswer kLivoxLidarStatusSuccess 7 (Some (fw_response 1 1 [])),
      Detect 7 example_found, CfgAnswer kLivoxLidarTypeMid360 kLivoxLidarStatusSuccess 7 (Some [0, 0, 0])]
     = Inr (s', [QueryFw 7 fw_request, QueryFw 7 fw_request, Configure 7 56100 q, InfoChange 7 info]) \<and> c_string (drop 1 info) = [77, 51, 54]"
proof -
  have "kLivoxLidarStatusSuccess \<notin> set [kLivoxLidarStatusTimeout]" "length [kLivoxLidarStatusTimeout] \<le> 10" "(1 :: byte) \<noteq> 0" by simp_all
  from lidar_comes_up [OF example_ready(2-8) this, of 1 "[]"] show ?thesis by auto
qed


section \<open>What goes wrong\<close>

text \<open>
  The failed answers of all lidars are counted together: after eleven of lidar \<open>a\<close>, lidar \<open>b\<close> that answers
  that it runs its loader is taken to run its application.
\<close>

lemma failures_of_one_lidar_decide_another:
  assumes "has_handler s a" and "fw_count s = 0" and "length fs = 11" and "kLivoxLidarStatusSuccess \<notin> set fs" and "devices s b = Some d"
  shows "\<exists>s' os d'. run_handlers lidar_step s (map (\<lambda>st. FwAnswer st a None) fs
      @ [FwAnswer kLivoxLidarStatusSuccess b (Some (fw_response n 0 rest))]) = Inr (s', os)
    \<and> devices s' b = Some d' \<and> is_get_loader_mode d' \<and> \<not> is_loader_mode d'"
proof -
  let ?s1 = "s\<lparr>fw_count := of_nat (0 + length fs)\<rparr>"
  have r: "run_handlers lidar_step s (map (\<lambda>st. FwAnswer st a None) fs) = Inr (?s1, replicate (length fs) (QueryFw a fw_request))"
    by (rule stage_failures) (use assms in simp_all)
  have "sint (fw_count ?s1) > 10" using assms(3) by (simp add: small_count)
  then have "run_handlers lidar_step ?s1 [FwAnswer kLivoxLidarStatusSuccess b (Some (fw_response n 0 rest))] = Inr ((UpdateFwType b 1 ?s1)\<lparr>fw_count := 0\<rparr>, [])"
    by (simp add: QueryFwTypeCallback_def)
  from run_handlers_append [OF r this] show ?thesis using assms(5) by (simp add: UpdateFwType_def)
qed

text \<open>The viewer has no framework configuration: its first lidar ends it.  So does a lidar of type PA.\<close>

lemma viewer_ends_with_its_first_lidar:
  assumes "is_view s" and "master_sdk s = None" and "devices s h = None"
  shows "add_device h data name s = Inl Null_pointer"
  using assms by (simp add: add_device_def GetFirmwareType_def Let_def)

lemma pa_lidar_ends_the_program:
  assumes "\<not> is_view s" and "kLivoxLidarTypePA \<notin> command_handlers s"
  shows "CreateCommandHandler kLivoxLidarTypePA s = Inl Null_pointer"
  using assms by (simp add: CreateCommandHandler_def)

text \<open>A serial number that fills its array takes the address with it.\<close>

lemma full_serial_number_takes_the_address:
  assumes "length name = 16" and "0 \<notin> set name" and "0 \<notin> set ip" and "0 \<notin> set port"
  shows "serial_number ([0, t] @ name @ ip @ port @ 0 # rest) = Inr (name @ ip @ port)"
proof -
  have "b \<noteq> 0" if "b \<in> set (name @ ip @ port)" for b using that assms by auto
  then have "c_string ((name @ ip @ port) @ 0 # rest) = name @ ip @ port" by (rule c_string_text)
  then show ?thesis by (simp add: serial_number_def)
qed

end
