(* ===== verification/LivoxQueue.thy ===== *)
theory LivoxQueue
  imports Text
begin

text \<open>
  The packet store of the lidar driver: the ring queue of point packets (\<open>ldq.cpp\<close>, \<open>ldq.h\<close>), its
  use by the data source (\<open>PushLidarData\<close> of \<open>lds.cpp\<close>, \<open>PublishPointcloud2\<close>'s loop of \<open>lddc.cpp\<close>), and
  the table that gives each lidar its queue (\<open>cache_index.cpp\<close>).  Indices are 32-bit words that
  wrap.
\<close>

section \<open>The ring\<close>

record PointXyzlt =
  pt_x :: real
  pt_y :: real
  pt_z :: real
  pt_intensity :: real
  pt_tag :: byte
  pt_line :: byte
  pt_offset_time :: "64 word"

record PointPacket =
  pk_points_num :: "32 word"
  pk_points :: "PointXyzlt list"

record StoragePacket =
  base_time :: "64 word"
  points_num :: "32 word"
  points :: "PointXyzlt list"

text \<open>The array of the queue: no array, an array already deleted that is still pointed to, or its slots.\<close>

datatype Storage = Null | Freed | Slots "StoragePacket list"

record LidarDataQueue =
  storage_packet :: Storage
  rd_idx :: "32 word"
  wr_idx :: "32 word"
  mask_bits :: "32 word"
  qsize :: "32 word"

definition empty_packet :: StoragePacket where
  "empty_packet = \<lparr>base_time = 0, points_num = 0, points = []\<rparr>"

definition IsPowerOf2 :: "32 word \<Rightarrow> bool" where
  "IsPowerOf2 sz \<longleftrightarrow> sz \<noteq> 0 \<and> sz AND (sz - 1) = 0"

fun roundup_loop :: "nat \<Rightarrow> nat \<Rightarrow> 32 word \<Rightarrow> 32 word \<Rightarrow> 32 word" where
  "roundup_loop 0 i sz v = v"
| "roundup_loop (Suc n) i sz v = (let v' = push_bit i 1 in if sz \<le> v' then v' else roundup_loop n (i + 1) sz v')"

definition RoundupPowerOf2 :: "32 word \<Rightarrow> 32 word" where
  "RoundupPowerOf2 sz = roundup_loop 32 0 sz 0"

text \<open>\<open>Bad_index\<close> stands for the use of memory that is not the queue's: a second \<open>delete[]\<close>, a slot out of range.\<close>

definition InitQueue :: "32 word \<Rightarrow> LidarDataQueue \<Rightarrow> exn + LidarDataQueue" where
  "InitQueue n q =
     (let n' = (if IsPowerOf2 n then n else RoundupPowerOf2 n)
      in if storage_packet q = Freed then Inl Bad_index
         else Inr \<lparr>storage_packet = Slots (replicate (unat n') empty_packet), rd_idx = 0, wr_idx = 0, mask_bits = n' - 1, qsize = n'\<rparr>)"

definition DeInitQueue :: "LidarDataQueue \<Rightarrow> exn + LidarDataQueue" where
  "DeInitQueue q =
     (if storage_packet q = Freed then Inl Bad_index
      else Inr \<lparr>storage_packet = (if storage_packet q = Null then Null else Freed), rd_idx = 0, wr_idx = 0, mask_bits = 0, qsize = 0\<rparr>)"

definition ResetQueue :: "LidarDataQueue \<Rightarrow> LidarDataQueue" where
  "ResetQueue q = q\<lparr>rd_idx := 0, wr_idx := 0\<rparr>"

definition slot :: "Storage \<Rightarrow> 32 word \<Rightarrow> exn + StoragePacket" where
  "slot st i = (case st of Slots ps \<Rightarrow> idx ps (uint i) | _ \<Rightarrow> Inl Bad_index)"

definition QueueIsEmpty :: "LidarDataQueue \<Rightarrow> bool" where
  "QueueIsEmpty q \<longleftrightarrow> rd_idx q = wr_idx q"

definition QueueIsFull :: "LidarDataQueue \<Rightarrow> bool" where
  "QueueIsFull q \<longleftrightarrow> wr_idx q - rd_idx q > mask_bits q"

definition QueueUsedSize :: "LidarDataQueue \<Rightarrow> 32 word" where
  "QueueUsedSize q = wr_idx q - rd_idx q"

definition QueueUnusedSize :: "LidarDataQueue \<Rightarrow> 32 word" where
  "QueueUnusedSize q = qsize q - QueueUsedSize q"

text \<open>A copy of \<open>n\<close> points out of an array.\<close>

definition copy_packet_points :: "32 word \<Rightarrow> PointXyzlt list \<Rightarrow> exn + PointXyzlt list" where
  "copy_packet_points n ps = (if unat n \<le> length ps then Inr (take (unat n) ps) else Inl Bad_index)"

definition QueuePrePop :: "LidarDataQueue \<Rightarrow> exn + StoragePacket option" where
  "QueuePrePop q =
     (if QueueIsEmpty q then Inr None
      else sbind (slot (storage_packet q) (rd_idx q AND mask_bits q)) (\<lambda>s.
           sbind (copy_packet_points (points_num s) (points s)) (\<lambda>ps.
             Inr (Some \<lparr>base_time = base_time s, points_num = points_num s, points = ps\<rparr>))))"

definition QueuePopUpdate :: "LidarDataQueue \<Rightarrow> LidarDataQueue" where
  "QueuePopUpdate q = q\<lparr>rd_idx := rd_idx q + 1\<rparr>"

definition QueuePop :: "LidarDataQueue \<Rightarrow> exn + (LidarDataQueue \<times> StoragePacket option)" where
  "QueuePop q = sbind (QueuePrePop q) (\<lambda>r. case r of None \<Rightarrow> Inr (q, None) | Some s \<Rightarrow> Inr (QueuePopUpdate q, Some s))"

definition QueuePushAny :: "PointPacket \<Rightarrow> 64 word \<Rightarrow> LidarDataQueue \<Rightarrow> exn + LidarDataQueue" where
  "QueuePushAny d t q =
     (let i = wr_idx q AND mask_bits q in
      case storage_packet q of
        Slots ps \<Rightarrow>
          if unat i < length ps then
            sbind (copy_packet_points (pk_points_num d) (pk_points d)) (\<lambda>pts.
              Inr (q\<lparr>storage_packet := Slots (ps[unat i := \<lparr>base_time = t, points_num = pk_points_num d, points = pts\<rparr>]),
                     wr_idx := wr_idx q + 1\<rparr>))
          else Inl Bad_index
      | _ \<Rightarrow> Inl Bad_index)"

section \<open>Its use\<close>

definition CalculatePacketQueueSize :: "real \<Rightarrow> 32 word" where
  "CalculatePacketQueueSize freq = (if freq > 10 then word_of_int (c_trunc freq) + 1 else 10)"

text \<open>Storing a packet: the queue is made on first use; a packet that finds it full is dropped.\<close>

definition PushLidarData :: "real \<Rightarrow> PointPacket \<Rightarrow> 64 word \<Rightarrow> LidarDataQueue \<Rightarrow> exn + LidarDataQueue" where
  "PushLidarData freq d t q0 =
     sbind (if storage_packet q0 = Null then InitQueue (CalculatePacketQueueSize freq) q0 else Inr q0) (\<lambda>q.
       if \<not> QueueIsFull q then QueuePushAny d t q else Inr q)"

text \<open>
  The loop that publishes what the queue holds: packets without points are dropped.  Its fuel
  bounds the packets popped.
\<close>

fun publish_loop :: "nat \<Rightarrow> LidarDataQueue \<Rightarrow> (LidarDataQueue \<times> StoragePacket list) run" where
  "publish_loop 0 q = None"
| "publish_loop (Suc n) q =
     (if QueueIsEmpty q then Some (Inr (q, []))
      else case QueuePop q of
          Inl e \<Rightarrow> Some (Inl e)
        | Inr (q', r) \<Rightarrow> rbind (publish_loop n q') (\<lambda>(q'', out).
            Some (Inr (q'', (case r of None \<Rightarrow> [] | Some p \<Rightarrow> if points p = [] then [] else [p]) @ out))))"

section \<open>The ring as a bounded list\<close>

text \<open>
  The contract of a bounded first-in first-out queue: a store of the packets in order, that
  takes one more while it has room, and gives back the oldest.
\<close>

locale bounded_fifo =
  fixes inv :: "'q \<Rightarrow> bool"
    and abs :: "'q \<Rightarrow> 'a list"
    and cap :: "'q \<Rightarrow> nat"
    and good :: "'a \<Rightarrow> bool"
    and push :: "'a \<Rightarrow> 'q \<Rightarrow> exn + 'q"
    and pop :: "'q \<Rightarrow> exn + ('q \<times> 'a option)"
  assumes bound: "inv q \<Longrightarrow> length (abs q) \<le> cap q"
    and push_room: "inv q \<Longrightarrow> good x \<Longrightarrow> length (abs q) < cap q \<Longrightarrow> \<exists>q'. push x q = Inr q' \<and> inv q' \<and> cap q' = cap q \<and> abs q' = abs q @ [x]"
    and push_full: "inv q \<Longrightarrow> length (abs q) = cap q \<Longrightarrow> push x q = Inr q"
    and pop_some: "inv q \<Longrightarrow> abs q = x # xs \<Longrightarrow> \<exists>q'. pop q = Inr (q', Some x) \<and> inv q' \<and> cap q' = cap q \<and> abs q' = xs"
    and pop_none: "inv q \<Longrightarrow> abs q = [] \<Longrightarrow> pop q = Inr (q, None)"

text \<open>A client's commands, their answers from a queue, and from the list it stands for.\<close>

datatype 'a command = Push 'a | Pop

fun run_fifo :: "nat \<Rightarrow> 'a list \<Rightarrow> 'a command list \<Rightarrow> 'a list \<times> 'a option list" where
  "run_fifo n xs [] = (xs, [])"
| "run_fifo n xs (Push x # cs) = run_fifo n (if length xs < n then xs @ [x] else xs) cs"
| "run_fifo n xs (Pop # cs) = (let (ys, os) = run_fifo n (tl xs) cs in (ys, (case xs of [] \<Rightarrow> None | x # _ \<Rightarrow> Some x) # os))"

fun run_queue :: "('a \<Rightarrow> 'q \<Rightarrow> exn + 'q) \<Rightarrow> ('q \<Rightarrow> exn + ('q \<times> 'a option)) \<Rightarrow> 'q \<Rightarrow> 'a command list \<Rightarrow> exn + ('q \<times> 'a option list)" where
  "run_queue push pop q [] = Inr (q, [])"
| "run_queue push pop q (Push x # cs) = sbind (push x q) (\<lambda>q'. run_queue push pop q' cs)"
| "run_queue push pop q (Pop # cs) = sbind (pop q) (\<lambda>(q', r). sbind (run_queue push pop q' cs) (\<lambda>(q'', os). Inr (q'', r # os)))"

context bounded_fifo
begin

lemma refines:
  assumes "inv q" and "\<forall>x. Push x \<in> set cs \<longrightarrow> good x"
  shows "\<exists>q'. run_queue push pop q cs = Inr (q', snd (run_fifo (cap q) (abs q) cs)) \<and> inv q' \<and> abs q' = fst (run_fifo (cap q) (abs q) cs)"
  using assms
proof (induction cs arbitrary: q)
  case Nil
  then show ?case by simp
next
  case (Cons c cs)
  note IH = Cons.IH and inv = Cons.prems(1)
  show ?case
  proof (cases c)
    case (Push x)
    show ?thesis
    proof (cases "length (abs q) < cap q")
      case True
      then obtain q1 where "push x q = Inr q1" "inv q1" "cap q1 = cap q" "abs q1 = abs q @ [x]"
        using push_room [OF Cons.prems(1)] Cons.prems(2) by (auto simp: Push)
      then show ?thesis using Cons.IH [of q1] Cons.prems(2) True by (simp add: Push)
    next
      case False
      then have "push x q = Inr q" using push_full [OF Cons.prems(1)] bound [OF Cons.prems(1)] by simp
      then show ?thesis using Cons.IH [OF Cons.prems(1)] Cons.prems(2) False by (simp add: Push)
    qed
  next
    case Pop
    have g: "\<forall>x. Push x \<in> set cs \<longrightarrow> good x" using Cons.prems(2) by simp
    show ?thesis
    proof (cases "abs q")
      case Nil
      then have "pop q = Inr (q, None)" using pop_none [OF Cons.prems(1)] by blast
      then show ?thesis using Cons.IH [OF Cons.prems(1) g] Nil by (auto simp: Pop split_def Let_def)
    next
      case (Cons x xs)
      then obtain q1 where "pop q = Inr (q1, Some x)" "inv q1" "cap q1 = cap q" "abs q1 = xs"
        using pop_some [OF inv] by blast
      then show ?thesis using IH [of q1] g Cons by (auto simp: Pop split_def Let_def)
    qed
  qed
qed

end

section \<open>The ring implements it\<close>

lemma mask_index: "unat ((w + of_nat j) AND mask k) = (unat w + j) mod 2 ^ k" if "k \<le> 32" for w :: "32 word"
proof -
  have "w + of_nat j = (of_nat (unat w + j) :: 32 word)" by simp
  then have "unat (w + of_nat j) = (unat w + j) mod 2 ^ 32" by (simp only: unat_of_nat) simp
  moreover have "(x mod 2 ^ 32) mod 2 ^ k = x mod 2 ^ k" for x :: nat
    by (rule mod_mod_cancel) (rule le_imp_power_dvd [OF that])
  moreover have "unat (v AND mask k) = unat v mod 2 ^ k" for v :: "32 word"
    unfolding take_bit_eq_mask [symmetric] unsigned_take_bit_eq by (rule take_bit_eq_mod)
  ultimately show ?thesis by simp
qed

definition counted :: "StoragePacket \<Rightarrow> bool" where
  "counted p \<longleftrightarrow> unat (points_num p) = length (points p)"

definition ring_inv :: "LidarDataQueue \<Rightarrow> bool" where
  "ring_inv q \<longleftrightarrow> (\<exists>k ps. k < 32 \<and> storage_packet q = Slots ps \<and> length ps = 2 ^ k \<and> mask_bits q = mask k \<and> qsize q = 2 ^ k
     \<and> unat (wr_idx q - rd_idx q) \<le> 2 ^ k \<and> (\<forall>p \<in> set ps. counted p))"

fun slots_of :: "Storage \<Rightarrow> StoragePacket list" where
  "slots_of (Slots ps) = ps"
| "slots_of _ = []"

definition ring_list :: "StoragePacket list \<Rightarrow> nat \<Rightarrow> nat \<Rightarrow> StoragePacket list" where
  "ring_list ps r n = map (\<lambda>j. ps ! ((r + j) mod length ps)) [0..<n]"

definition ring_abs :: "LidarDataQueue \<Rightarrow> StoragePacket list" where
  "ring_abs q = ring_list (slots_of (storage_packet q)) (unat (rd_idx q)) (unat (wr_idx q - rd_idx q))"

definition ring_cap :: "LidarDataQueue \<Rightarrow> nat" where
  "ring_cap q = length (slots_of (storage_packet q))"

definition store :: "real \<Rightarrow> StoragePacket \<Rightarrow> LidarDataQueue \<Rightarrow> exn + LidarDataQueue" where
  "store freq p q = PushLidarData freq \<lparr>pk_points_num = points_num p, pk_points = points p\<rparr> (base_time p) q"

lemma ring_list_push:
  assumes "n < length ps"
  shows "ring_list (ps[(r + n) mod length ps := x]) r (Suc n) = ring_list ps r n @ [x]"
proof -
  have "(r + n) mod length ps \<noteq> (r + j) mod length ps" if "j < n" for j
  proof
    assume "(r + n) mod length ps = (r + j) mod length ps"
    then have "length ps dvd (r + n) - (r + j)" using mod_eq_dvd_iff_nat [of "r + j" "r + n" "length ps"] that by simp
    then show False using that assms by (auto dest: dvd_imp_le)
  qed
  moreover have "(r + n) mod length ps < length ps" using assms by (intro mod_less_divisor) linarith
  ultimately show ?thesis by (simp add: ring_list_def)
qed

lemma ring_list_pop: "ring_list ps r (Suc n) = ps ! (r mod length ps) # ring_list ps (Suc r) n"
  unfolding ring_list_def by (simp add: map_upt_Suc del: upt_Suc)

lemma ring_list_shift: "n dvd m \<Longrightarrow> length ps = n \<Longrightarrow> ring_list ps (r mod m) u = ring_list ps r u"
  by (simp add: ring_list_def mod_add_left_eq mod_mod_cancel) (metis mod_add_left_eq mod_mod_cancel)

lemma unat_step:
  fixes rd wr :: "32 word"
  shows "unat (wr - rd) < 2 ^ 31 + 1 \<Longrightarrow> unat (wr + 1 - rd) = Suc (unat (wr - rd))"
    and "wr \<noteq> rd \<Longrightarrow> unat (wr - rd) = Suc (unat (wr - (rd + 1)))"
proof -
  have e: "wr + 1 - rd = (wr - rd) + 1" by simp
  assume "unat (wr - rd) < 2 ^ 31 + 1"
  then have "wr - rd + 1 \<noteq> 0" by (auto simp: word_unat_eq_iff unat_word_ariths)
  then show "unat (wr + 1 - rd) = Suc (unat (wr - rd))" unfolding e by (metis add.commute unatSuc)
next
  assume "wr \<noteq> rd"
  moreover have "wr - (rd + 1) + 1 = wr - rd" by simp
  ultimately show "unat (wr - rd) = Suc (unat (wr - (rd + 1)))" by (metis add.commute eq_iff_diff_eq_0 unatSuc)
qed

lemma ring_unpack:
  assumes "ring_inv q"
  obtains k ps where "k < 32" "storage_packet q = Slots ps" "length ps = 2 ^ k" "mask_bits q = mask k" "qsize q = 2 ^ k"
    "unat (wr_idx q - rd_idx q) \<le> 2 ^ k" "\<forall>p \<in> set ps. counted p"
    "ring_abs q = ring_list ps (unat (rd_idx q)) (unat (wr_idx q - rd_idx q))" "ring_cap q = 2 ^ k"
  using assms that unfolding ring_inv_def ring_abs_def ring_cap_def by fastforce

lemma unat_mask:
  assumes "k < 32"
  shows "unat (mask k :: 32 word) = 2 ^ k - 1"
proof -
  have m: "mask k = (of_nat (2 ^ k - 1) :: 32 word)" by (simp add: mask_eq_exp_minus_1 of_nat_diff)
  have "(2 :: nat) ^ k < 2 ^ 32" using assms by (intro power_strict_increasing) simp_all
  then have "2 ^ k - 1 < (2 :: nat) ^ 32" by linarith
  moreover have "unat (of_nat x :: 32 word) = x" if "x < 2 ^ 32" for x using that by (simp add: unat_of_nat)
  ultimately show ?thesis unfolding m by blast
qed

lemma slot_at: "unat i < length ps \<Longrightarrow> slot (Slots ps) i = Inr (ps ! unat i)"
  using of_nat_less_iff [of "unat i" "length ps", where ?'a = int] by (simp add: slot_def idx_def)

lemma used_0: "unat (a - b) = 0 \<longleftrightarrow> a = (b :: 32 word)"
  by (simp add: unsigned_eq_0_iff)

lemma full_iff: "k < 32 \<Longrightarrow> mask_bits q = mask k \<Longrightarrow> QueueIsFull q \<longleftrightarrow> 2 ^ k \<le> unat (wr_idx q - rd_idx q)"
  by (simp add: QueueIsFull_def word_less_nat_alt unat_mask) (metis One_nat_def Suc_pred less_eq_Suc_le pos2 zero_less_power)

lemma ring_push_room:
  assumes "ring_inv q" and "counted p" and "length (ring_abs q) < ring_cap q"
  shows "\<exists>q'. store freq p q = Inr q' \<and> ring_inv q' \<and> ring_cap q' = ring_cap q \<and> ring_abs q' = ring_abs q @ [p]"
proof -
  obtain k ps where q: "k < 32" "storage_packet q = Slots ps" "length ps = 2 ^ k" "mask_bits q = mask k" "qsize q = 2 ^ k"
    "unat (wr_idx q - rd_idx q) \<le> 2 ^ k" "\<forall>p \<in> set ps. counted p"
    "ring_abs q = ring_list ps (unat (rd_idx q)) (unat (wr_idx q - rd_idx q))" "ring_cap q = 2 ^ k"
    by (rule ring_unpack [OF assms(1)])
  define n where "n = unat (wr_idx q - rd_idx q)"
  have n: "n < 2 ^ k" using assms(3) q(8,9) by (simp add: ring_list_def n_def)
  have "wr_idx q = rd_idx q + of_nat n" by (simp add: n_def)
  then have i: "unat (wr_idx q AND mask k) = (unat (rd_idx q) + n) mod 2 ^ k"
    using mask_index [of k "rd_idx q" n] q(1) by simp
  have pk: "\<lparr>base_time = base_time p, points_num = points_num p, points = points p\<rparr> = p" by simp
  have cp: "copy_packet_points (points_num p) (points p) = Inr (points p)"
    using assms(2) by (simp add: copy_packet_points_def counted_def)
  define q' where "q' = q\<lparr>storage_packet := Slots (ps[(unat (rd_idx q) + n) mod 2 ^ k := p]), wr_idx := wr_idx q + 1\<rparr>"
  have "store freq p q = Inr q'"
    using q(1,2,3,4) n full_iff [OF q(1,4)]
    by (simp add: store_def PushLidarData_def QueuePushAny_def Let_def i cp pk q'_def n_def [symmetric])
  moreover have u: "unat (wr_idx q + 1 - rd_idx q) = Suc n"
  proof -
    have "(2 :: nat) ^ k \<le> 2 ^ 31" using q(1) by (intro power_increasing) simp_all
    then show ?thesis using unat_step(1) [of "wr_idx q" "rd_idx q"] n unfolding n_def by linarith
  qed
  moreover have "\<forall>x \<in> set (ps[(unat (rd_idx q) + n) mod 2 ^ k := p]). counted x"
    using q(7) assms(2) set_update_subset_insert by fastforce
  then have "ring_inv q'" using q(1-5) n u unfolding ring_inv_def by (intro exI [of _ k]) (simp add: q'_def)
  moreover have "ring_cap q' = ring_cap q" using q(2,3,9) by (simp add: ring_cap_def q'_def)
  moreover have "ring_abs q' = ring_abs q @ [p]"
    using ring_list_push [of n ps "unat (rd_idx q)" p] n q(3,8) u by (simp add: ring_abs_def q'_def n_def [symmetric])
  ultimately show ?thesis by blast
qed

lemma ring_pop:
  assumes "ring_inv q" and "ring_abs q = x # xs"
  shows "\<exists>q'. QueuePop q = Inr (q', Some x) \<and> ring_inv q' \<and> ring_cap q' = ring_cap q \<and> ring_abs q' = xs"
proof -
  obtain k ps where q: "k < 32" "storage_packet q = Slots ps" "length ps = 2 ^ k" "mask_bits q = mask k" "qsize q = 2 ^ k"
    "unat (wr_idx q - rd_idx q) \<le> 2 ^ k" "\<forall>p \<in> set ps. counted p"
    "ring_abs q = ring_list ps (unat (rd_idx q)) (unat (wr_idx q - rd_idx q))" "ring_cap q = 2 ^ k"
    by (rule ring_unpack [OF assms(1)])
  have ne: "wr_idx q \<noteq> rd_idx q" using assms(2) q(8) by (auto simp: ring_list_def)
  define n where "n = unat (wr_idx q - (rd_idx q + 1))"
  have n: "unat (wr_idx q - rd_idx q) = Suc n" using unat_step(2) [OF ne] by (simp add: n_def)
  let ?i = "unat (rd_idx q) mod 2 ^ k"
  have i: "unat (rd_idx q AND mask k) = ?i" using mask_index [of k "rd_idx q" 0] q(1) by simp
  have x: "x = ps ! ?i" and xs: "xs = ring_list ps (Suc (unat (rd_idx q))) n"
    using assms(2) q(3,8) by (simp_all add: n ring_list_pop)
  have lt: "?i < length ps" using q(3) by simp
  then have "slot (storage_packet q) (rd_idx q AND mask_bits q) = Inr x"
    using i by (simp add: q(2,4) x slot_at)
  moreover have "counted x" using q(7) lt x by simp
  then have "copy_packet_points (points_num x) (points x) = Inr (points x)" by (simp add: copy_packet_points_def counted_def)
  moreover have "\<lparr>base_time = base_time x, points_num = points_num x, points = points x\<rparr> = x" by simp
  ultimately have "QueuePop q = Inr (QueuePopUpdate q, Some x)"
    using ne by (simp add: QueuePop_def QueuePrePop_def QueueIsEmpty_def)
  moreover have "ring_inv (QueuePopUpdate q)"
    using q(1-7) n unfolding ring_inv_def by (intro exI [of _ k]) (simp add: QueuePopUpdate_def n_def)
  moreover have "ring_cap (QueuePopUpdate q) = ring_cap q" by (simp add: ring_cap_def QueuePopUpdate_def)
  moreover have "ring_abs (QueuePopUpdate q) = xs"
  proof -
    have "unat (rd_idx q + 1) = Suc (unat (rd_idx q)) mod 2 ^ 32" by (simp add: unat_word_ariths)
    moreover have "(2 :: nat) ^ k dvd 2 ^ 32" using q(1) by (intro le_imp_power_dvd) simp
    ultimately show ?thesis
      using ring_list_shift [of "2 ^ k" "2 ^ 32" ps "Suc (unat (rd_idx q))" n] q(2,3)
      by (simp add: ring_abs_def QueuePopUpdate_def xs n_def del: power_numeral)
  qed
  ultimately show ?thesis by blast
qed

interpretation ring: bounded_fifo ring_inv ring_abs ring_cap counted "store freq" QueuePop for freq
proof unfold_locales
  fix q :: LidarDataQueue
  assume i: "ring_inv q"
  then show "length (ring_abs q) \<le> ring_cap q" by (rule ring_unpack) (simp add: ring_list_def)
  fix x
  show "counted x \<Longrightarrow> length (ring_abs q) < ring_cap q \<Longrightarrow> \<exists>q'. store freq x q = Inr q' \<and> ring_inv q' \<and> ring_cap q' = ring_cap q \<and> ring_abs q' = ring_abs q @ [x]"
    by (rule ring_push_room [OF i])
  show "store freq x q = Inr q" if "length (ring_abs q) = ring_cap q"
    using i that by - (rule ring_unpack, assumption, simp add: store_def PushLidarData_def full_iff ring_list_def)
  show "\<exists>q'. QueuePop q = Inr (q', Some x) \<and> ring_inv q' \<and> ring_cap q' = ring_cap q \<and> ring_abs q' = xs" if "ring_abs q = x # xs" for xs
    using ring_pop [OF i that] .
  show "QueuePop q = Inr (q, None)" if "ring_abs q = []"
    using i that by - (rule ring_unpack, assumption, simp add: ring_list_def used_0 QueuePop_def QueuePrePop_def QueueIsEmpty_def)
qed

section \<open>Capacities\<close>

lemma roundup_spec: "\<exists>j \<le> i + n. roundup_loop (Suc n) i sz v = push_bit j 1 \<and> (j < i + n \<longrightarrow> sz \<le> push_bit j 1)"
proof (induction n arbitrary: i v)
  case 0
  show ?case by (intro exI [of _ i]) (auto simp: Let_def)
next
  case (Suc n)
  show ?case
  proof (cases "sz \<le> push_bit i 1")
    case True
    then show ?thesis by (intro exI [of _ i]) (simp add: Let_def)
  next
    case False
    obtain j where "j \<le> i + 1 + n" "roundup_loop (Suc n) (i + 1) sz (push_bit i 1) = push_bit j 1" "j < i + 1 + n \<longrightarrow> sz \<le> push_bit j 1"
      using Suc.IH by blast
    moreover have "roundup_loop (Suc (Suc n)) i sz v = roundup_loop (Suc n) (i + 1) sz (push_bit i 1)"
      using False by (simp only: roundup_loop.simps(2) [of "Suc n"] Let_def if_False)
    ultimately show ?thesis by (metis add.commute add_Suc_right plus_1_eq_Suc)
  qed
qed

lemma RoundupPowerOf2_power: "\<exists>k<32. RoundupPowerOf2 sz = 2 ^ k \<and> (sz \<le> 2 ^ 31 \<longrightarrow> sz \<le> 2 ^ k)"
proof -
  obtain j where j: "j \<le> 31" "roundup_loop (Suc 31) 0 sz 0 = push_bit j 1" "j < 31 \<longrightarrow> sz \<le> push_bit j 1"
    using roundup_spec [of 0 31 sz 0] by auto
  have "RoundupPowerOf2 sz = 2 ^ j" using j(2) by (simp add: RoundupPowerOf2_def)
  moreover have "sz \<le> 2 ^ 31 \<longrightarrow> sz \<le> 2 ^ j" using j(1,3) by (cases "j = 31") simp_all
  ultimately show ?thesis using j(1) by (intro exI [of _ j]) simp
qed

lemma IsPowerOf2_power:
  assumes "IsPowerOf2 n"
  shows "\<exists>k<32. n = 2 ^ k"
proof -
  have n0: "n \<noteq> 0" and a: "n AND (n - 1) = 0" using assms by (simp_all add: IsPowerOf2_def)
  define m where "m = unat n"
  have m: "0 < m" "m < 2 ^ 32" using n0 unsigned_less [of n, where ?'a = nat] by (simp_all add: m_def unat_gt_0)
  obtain k where k: "2 ^ k \<le> m" "m < 2 ^ (k + 1)" using ex_power_ivl1 [of 2 m] m(1) by auto
  have k32: "k < 32" using k(1) m(2) power_less_imp_less_exp [of "2 :: nat" k 32] by linarith
  have "m = 2 ^ k"
  proof (rule ccontr)
    assume "m \<noteq> 2 ^ k"
    then have "2 ^ k \<le> m - 1" using k(1) by linarith
    then have "m div 2 ^ k = 1" "(m - 1) div 2 ^ k = 1"
      using k by (auto intro!: div_nat_eqI)
    then have "bit m k" "bit (m - 1) k" by (simp_all add: bit_iff_odd)
    moreover have "unat (n - 1) = m - 1" using n0 by (simp add: m_def unat_minus_one)
    ultimately have "bit n k \<and> bit (n - 1) k" using k32 by (metis m_def bit_unsigned_iff len_of_numeral_defs)
    then show False using a by (metis bit_and_iff bit_0_eq bot_apply bot_bool_def)
  qed
  then have "n = 2 ^ k" by (metis m_def of_nat_numeral of_nat_power ucast_id of_nat_unat)
  then show ?thesis using k32 by blast
qed

lemma InitQueue_ring:
  assumes "storage_packet q = Null"
  shows "\<exists>q0. InitQueue n q = Inr q0 \<and> ring_inv q0 \<and> ring_abs q0 = [] \<and> (\<exists>k<32. ring_cap q0 = 2 ^ k) \<and> (n \<le> 2 ^ 31 \<longrightarrow> unat n \<le> ring_cap q0)"
proof -
  define n' where "n' = (if IsPowerOf2 n then n else RoundupPowerOf2 n)"
  obtain k where k: "k < 32" "n' = 2 ^ k" "n \<le> 2 ^ 31 \<longrightarrow> n \<le> n'"
    using IsPowerOf2_power [of n] RoundupPowerOf2_power [of n] by (cases "IsPowerOf2 n") (auto simp: n'_def)
  have u: "unat n' = 2 ^ k"
    using unat_of_nat [of "2 ^ k", where ?'a = 32] power_strict_increasing [OF k(1), of "2 :: nat"] by (simp add: k(2))
  define q0 where "q0 = \<lparr>storage_packet = Slots (replicate (unat n') empty_packet), rd_idx = 0, wr_idx = 0, mask_bits = n' - 1, qsize = n'\<rparr>"
  have "InitQueue n q = Inr q0" using assms by (simp add: InitQueue_def q0_def n'_def Let_def)
  moreover have "ring_inv q0"
    unfolding ring_inv_def using k(1) u
    by (intro exI [of _ k] exI [of _ "replicate (2 ^ k) empty_packet"]) (simp add: q0_def k(2) mask_eq_exp_minus_1 counted_def empty_packet_def)
  moreover have "ring_abs q0 = []" by (simp add: ring_abs_def q0_def ring_list_def)
  moreover have "ring_cap q0 = 2 ^ k" by (simp add: ring_cap_def q0_def u)
  ultimately show ?thesis using k(1,3) u by (auto simp: word_le_nat_alt)
qed

text \<open>
  C11.  The packet queue is a bounded first-in first-out queue: from its creation on, for every
  sequence of storing and taking packets, however often the 32-bit indices wrap, it answers like a
  list that holds at most a power of two of packets, no less than was asked for, drops what comes
  while it is full, and gives back packets whole and in order.
\<close>

theorem livox_queue_is_fifo:
  assumes "storage_packet q = Null" and "\<forall>p. Push p \<in> set cs \<longrightarrow> unat (points_num p) = length (points p)"
  shows "\<exists>q0 q' n. InitQueue (CalculatePacketQueueSize freq) q = Inr q0 \<and> (\<exists>k<32. n = 2 ^ k)
    \<and> (CalculatePacketQueueSize freq \<le> 2 ^ 31 \<longrightarrow> unat (CalculatePacketQueueSize freq) \<le> n)
    \<and> run_queue (store freq) QueuePop q0 cs = Inr (q', snd (run_fifo n [] cs))"
proof -
  obtain q0 where q0: "InitQueue (CalculatePacketQueueSize freq) q = Inr q0" "ring_inv q0" "ring_abs q0 = []" "\<exists>k<32. ring_cap q0 = 2 ^ k"
      "CalculatePacketQueueSize freq \<le> 2 ^ 31 \<longrightarrow> unat (CalculatePacketQueueSize freq) \<le> ring_cap q0"
    using InitQueue_ring [OF assms(1)] by blast
  have "\<forall>p. Push p \<in> set cs \<longrightarrow> counted p" using assms(2) by (simp add: counted_def)
  from ring.refines [OF q0(2) this, of freq] show ?thesis using q0 by metis
qed

definition zero_queue :: LidarDataQueue where
  "zero_queue = \<lparr>storage_packet = Null, rd_idx = 0, wr_idx = 0, mask_bits = 0, qsize = 0\<rparr>"

theorem livox_queue_is_fifo_witness:
  "\<exists>q0 q'. InitQueue (CalculatePacketQueueSize 10) zero_queue = Inr q0
     \<and> run_queue (store 10) QueuePop q0 [Push (empty_packet\<lparr>base_time := 1\<rparr>), Push (empty_packet\<lparr>base_time := 2\<rparr>), Pop, Pop, Pop]
       = Inr (q', [Some (empty_packet\<lparr>base_time := 1\<rparr>), Some (empty_packet\<lparr>base_time := 2\<rparr>), None])"
proof -
  let ?cs = "[Push (empty_packet\<lparr>base_time := 1\<rparr>), Push (empty_packet\<lparr>base_time := 2\<rparr>), Pop, Pop, Pop]"
  have "storage_packet zero_queue = Null" and "\<forall>p. Push p \<in> set ?cs \<longrightarrow> unat (points_num p) = length (points p)"
    by (auto simp: zero_queue_def empty_packet_def)
  from livox_queue_is_fifo [OF this, of 10] obtain q0 q' n where
      r: "InitQueue (CalculatePacketQueueSize 10) zero_queue = Inr q0"
         "run_queue (store 10) QueuePop q0 ?cs = Inr (q', snd (run_fifo n [] ?cs))"
      and n: "CalculatePacketQueueSize 10 \<le> 2 ^ 31 \<longrightarrow> unat (CalculatePacketQueueSize 10) \<le> n"
    by blast
  have "CalculatePacketQueueSize 10 = 10" by (simp add: CalculatePacketQueueSize_def)
  then have "10 \<le> n" using n by simp
  then have "run_fifo n [] ?cs = ([], [Some (empty_packet\<lparr>base_time := 1\<rparr>), Some (empty_packet\<lparr>base_time := 2\<rparr>), None])"
    by simp
  then show ?thesis using r by auto
qed

text \<open>\<open>DeInitQueue\<close> leaves the pointer to the array it deletes: the next packet is written through it.\<close>

lemma push_after_deinit:
  "storage_packet q = Slots ps \<Longrightarrow> DeInitQueue q = Inr q' \<Longrightarrow> PushLidarData freq d t q' = Inl Bad_index"
  by (auto simp: DeInitQueue_def PushLidarData_def QueueIsFull_def QueuePushAny_def)

section \<open>Publishing\<close>

lemma publish_drains:
  assumes "ring_inv q" and "length (ring_abs q) < n"
  shows "\<exists>q'. publish_loop n q = Some (Inr (q', filter (\<lambda>p. points p \<noteq> []) (ring_abs q))) \<and> ring_inv q' \<and> QueueIsEmpty q'"
  using assms
proof (induction "ring_abs q" arbitrary: q n)
  case Nil
  then obtain m where m: "n = Suc m" by (cases n) auto
  have "QueueIsEmpty q" using Nil by - (rule ring_unpack [OF Nil(2)], simp add: ring_list_def used_0 QueueIsEmpty_def)
  then show ?case using Nil m by auto
next
  case (Cons x xs)
  then obtain m where m: "n = Suc m" by (cases n) auto
  obtain q1 where q1: "QueuePop q = Inr (q1, Some x)" "ring_inv q1" "ring_abs q1 = xs"
    using ring_pop [OF Cons.prems(1) Cons.hyps(2) [symmetric]] by blast
  have "\<not> QueueIsEmpty q"
    using Cons.hyps(2) by - (rule ring_unpack [OF Cons.prems(1)], auto simp: ring_list_def QueueIsEmpty_def)
  moreover obtain q' where "publish_loop m q1 = Some (Inr (q', filter (\<lambda>p. points p \<noteq> []) xs))" "ring_inv q'" "QueueIsEmpty q'"
    using Cons.hyps(1) [of q1 m] q1 Cons.prems(2) m Cons.hyps(2) by (metis Suc_less_eq length_Cons)
  ultimately show ?case using q1(1) Cons.hyps(2) m by (auto simp flip: Cons.hyps(2))
qed

text \<open>
  Publishing ends: after any storing and taking, one pass over the queue, with no more
  iterations than packets it can hold and one test, publishes exactly the stored packets that have
  points, in order, and leaves the queue empty.
\<close>

theorem publishing_drains_the_queue:
  assumes "storage_packet q = Null" and "\<forall>p. Push p \<in> set cs \<longrightarrow> unat (points_num p) = length (points p)"
  shows "\<exists>q0 q1 q2 os n. InitQueue m q = Inr q0 \<and> n \<le> 2 ^ 31 \<and> (m \<le> 2 ^ 31 \<longrightarrow> unat m \<le> n) \<and> run_queue (store freq) QueuePop q0 cs = Inr (q1, os)
    \<and> publish_loop (n + 1) q1 = Some (Inr (q2, filter (\<lambda>p. points p \<noteq> []) (fst (run_fifo n [] cs)))) \<and> QueueIsEmpty q2"
proof -
  obtain q0 where q0: "InitQueue m q = Inr q0" "ring_inv q0" "ring_abs q0 = []" "\<exists>k<32. ring_cap q0 = 2 ^ k" "m \<le> 2 ^ 31 \<longrightarrow> unat m \<le> ring_cap q0"
    using InitQueue_ring [OF assms(1)] by blast
  have "ring_cap q0 \<le> 2 ^ 31"
  proof -
    obtain k where k: "k < 32" "ring_cap q0 = 2 ^ k" using q0(4) by blast
    then show ?thesis using power_increasing [of k 31 "2 :: nat"] by simp
  qed
  have "\<forall>p. Push p \<in> set cs \<longrightarrow> counted p" using assms(2) by (simp add: counted_def)
  from ring.refines [OF q0(2) this, of freq] obtain q1 where
      q1: "run_queue (store freq) QueuePop q0 cs = Inr (q1, snd (run_fifo (ring_cap q0) [] cs))" "ring_inv q1"
          "ring_abs q1 = fst (run_fifo (ring_cap q0) [] cs)"
    unfolding q0(3) by blast
  have "length (fst (run_fifo c xs cs)) \<le> c" if "length xs \<le> c" for c and xs :: "StoragePacket list"
    using that by (induction c xs cs rule: run_fifo.induct) (auto simp: Let_def split_def)
  then have "length (ring_abs q1) < ring_cap q0 + 1" unfolding q1(3) by (simp add: less_Suc_eq_le)
  then show ?thesis using publish_drains [OF q1(2)] q0(1,5) q1(1,3) \<open>ring_cap q0 \<le> 2 ^ 31\<close> by metis
qed

definition one_point :: StoragePacket where
  "one_point = \<lparr>base_time = 1, points_num = 1,
     points = [\<lparr>pt_x = 1, pt_y = 2, pt_z = 3, pt_intensity = 0, pt_tag = 0, pt_line = 0, pt_offset_time = 0\<rparr>]\<rparr>"

theorem publishing_drains_the_queue_witness:
  "\<exists>q0 q1 q2 os n. InitQueue 16 zero_queue = Inr q0 \<and> run_queue (store 10) QueuePop q0 [Push one_point, Push empty_packet] = Inr (q1, os)
     \<and> publish_loop (n + 1) q1 = Some (Inr (q2, [one_point])) \<and> QueueIsEmpty q2"
proof -
  let ?cs = "[Push one_point, Push empty_packet]"
  have "storage_packet zero_queue = Null" and "\<forall>p. Push p \<in> set ?cs \<longrightarrow> unat (points_num p) = length (points p)"
    by (auto simp: zero_queue_def one_point_def empty_packet_def)
  from publishing_drains_the_queue [OF this, of 16 10] obtain q0 q1 q2 os n where
      r: "InitQueue 16 zero_queue = Inr q0" "run_queue (store 10) QueuePop q0 ?cs = Inr (q1, os)"
         "publish_loop (n + 1) q1 = Some (Inr (q2, filter (\<lambda>p. points p \<noteq> []) (fst (run_fifo n [] ?cs))))" "QueueIsEmpty q2"
      and n: "(16 :: 32 word) \<le> 2 ^ 31 \<longrightarrow> unat (16 :: 32 word) \<le> n"
    by blast
  have "16 \<le> n" using n by simp
  then have "filter (\<lambda>p. points p \<noteq> []) (fst (run_fifo n [] ?cs)) = [one_point]"
    by (simp add: one_point_def empty_packet_def)
  then show ?thesis using r(1,2,4) r(3) by metis
qed

section \<open>The table of lidars\<close>

record CacheIndex =
  map_index :: "string \<rightharpoonup> nat"
  index_cache :: "bool list"

definition kMaxSourceLidar :: nat where
  "kMaxSourceLidar = 32"

definition CacheIndex_ctor :: CacheIndex where
  "CacheIndex_ctor = \<lparr>map_index = Map.empty, index_cache = replicate kMaxSourceLidar False\<rparr>"

definition kLivoxLidarType :: nat where
  "kLivoxLidarType = 8"

definition GenerateIndexKey :: "nat \<Rightarrow> nat \<Rightarrow> string option" where
  "GenerateIndexKey lidar_type handle = (if lidar_type = kLivoxLidarType then Some (''livox_lidar_'' @ show_nat handle) else None)"

fun first_free :: "bool list \<Rightarrow> nat \<Rightarrow> nat option" where
  "first_free [] i = None"
| "first_free (b # bs) i = (if \<not> b then Some i else first_free bs (i + 1))"

text \<open>An operation that fails, with -1, gives \<open>None\<close> for the index.\<close>

definition GetFreeIndex :: "nat \<Rightarrow> nat \<Rightarrow> CacheIndex \<Rightarrow> CacheIndex \<times> nat option" where
  "GetFreeIndex lidar_type handle ci =
     (case GenerateIndexKey lidar_type handle of None \<Rightarrow> (ci, None) | Some key \<Rightarrow>
        (case map_index ci key of Some i \<Rightarrow> (ci, Some i) | None \<Rightarrow>
           (case first_free (index_cache ci) 0 of None \<Rightarrow> (ci, None) | Some i \<Rightarrow>
              (ci\<lparr>index_cache := (index_cache ci)[i := True], map_index := (map_index ci)(key \<mapsto> i)\<rparr>, Some i))))"

definition GetIndex :: "nat \<Rightarrow> nat \<Rightarrow> CacheIndex \<Rightarrow> nat option" where
  "GetIndex lidar_type handle ci =
     (case GenerateIndexKey lidar_type handle of None \<Rightarrow> None | Some key \<Rightarrow> map_index ci key)"

definition LvxGetIndex :: "nat \<Rightarrow> nat \<Rightarrow> CacheIndex \<Rightarrow> CacheIndex \<times> nat option" where
  "LvxGetIndex lidar_type handle ci =
     (case GenerateIndexKey lidar_type handle of None \<Rightarrow> (ci, None) | Some key \<Rightarrow>
        (case map_index ci key of Some i \<Rightarrow> (ci, Some i) | None \<Rightarrow> GetFreeIndex lidar_type handle ci))"

definition ResetIndex :: "nat \<Rightarrow> nat \<Rightarrow> CacheIndex \<Rightarrow> CacheIndex" where
  "ResetIndex lidar_type handle ci =
     (case GenerateIndexKey lidar_type handle of None \<Rightarrow> ci | Some key \<Rightarrow>
        (case map_index ci key of None \<Rightarrow> ci | Some i \<Rightarrow>
           ci\<lparr>map_index := (map_index ci)(key := None), index_cache := (index_cache ci)[i := False]\<rparr>))"

datatype IndexOp = GetFree nat nat | LvxGet nat nat | ResetOp nat nat

fun index_step :: "CacheIndex \<Rightarrow> IndexOp \<Rightarrow> CacheIndex \<times> unit list" where
  "index_step ci (GetFree ty h) = (fst (GetFreeIndex ty h ci), [])"
| "index_step ci (LvxGet ty h) = (fst (LvxGetIndex ty h ci), [])"
| "index_step ci (ResetOp ty h) = (ResetIndex ty h ci, [])"

definition index_inv :: "CacheIndex \<Rightarrow> bool" where
  "index_inv ci \<longleftrightarrow> length (index_cache ci) = kMaxSourceLidar
     \<and> (\<forall>k i. map_index ci k = Some i \<longrightarrow> i < kMaxSourceLidar \<and> index_cache ci ! i)
     \<and> (\<forall>k k' i. map_index ci k = Some i \<and> map_index ci k' = Some i \<longrightarrow> k = k')
     \<and> (\<forall>i<kMaxSourceLidar. index_cache ci ! i \<longrightarrow> (\<exists>k. map_index ci k = Some i))"

lemma first_free_Some: "first_free bs j = Some i \<Longrightarrow> j \<le> i \<and> i < j + length bs \<and> \<not> bs ! (i - j)"
  by (induction bs j rule: first_free.induct) (auto split: if_splits simp: nth_Cons' Suc_diff_le)

lemma index_take:
  assumes "index_inv ci" and "map_index ci key = None" and "i < kMaxSourceLidar" and "\<not> index_cache ci ! i"
  shows "index_inv (ci\<lparr>index_cache := (index_cache ci)[i := True], map_index := (map_index ci)(key \<mapsto> i)\<rparr>)"
proof -
  have l: "length (index_cache ci) = kMaxSourceLidar" and m: "\<And>k j. map_index ci k = Some j \<Longrightarrow> j < kMaxSourceLidar \<and> index_cache ci ! j"
    and inj: "\<And>k k' j. map_index ci k = Some j \<Longrightarrow> map_index ci k' = Some j \<Longrightarrow> k = k'"
    and sur: "\<And>j. j < kMaxSourceLidar \<Longrightarrow> index_cache ci ! j \<Longrightarrow> \<exists>k. map_index ci k = Some j"
    using assms(1) unfolding index_inv_def by blast+
  have "\<exists>k. ((map_index ci)(key \<mapsto> i)) k = Some j" if "j < kMaxSourceLidar" "(index_cache ci)[i := True] ! j" for j
  proof (cases "j = i")
    case False
    then have "index_cache ci ! j" using that(2) by simp
    with sur [OF that(1)] obtain k where "map_index ci k = Some j" by blast
    then show ?thesis using assms(2) by (intro exI [of _ k]) auto
  qed auto
  then show ?thesis
    unfolding index_inv_def using l m inj assms(3,4) by (auto simp: nth_list_update)
qed

lemma index_drop:
  assumes "index_inv ci" and "map_index ci key = Some i"
  shows "index_inv (ci\<lparr>map_index := (map_index ci)(key := None), index_cache := (index_cache ci)[i := False]\<rparr>)"
proof -
  have l: "length (index_cache ci) = kMaxSourceLidar" and m: "\<And>k j. map_index ci k = Some j \<Longrightarrow> j < kMaxSourceLidar \<and> index_cache ci ! j"
    and inj: "\<And>k k' j. map_index ci k = Some j \<Longrightarrow> map_index ci k' = Some j \<Longrightarrow> k = k'"
    and sur: "\<And>j. j < kMaxSourceLidar \<Longrightarrow> index_cache ci ! j \<Longrightarrow> \<exists>k. map_index ci k = Some j"
    using assms(1) unfolding index_inv_def by blast+
  have i: "i < length (index_cache ci)" using m [OF assms(2)] l by simp
  have "\<exists>k. ((map_index ci)(key := None)) k = Some j" if "j < kMaxSourceLidar" "(index_cache ci)[i := False] ! j" for j
  proof -
    have "j \<noteq> i" using that i by auto
    then have "index_cache ci ! j" using that(2) by simp
    with sur [OF that(1)] obtain k where "map_index ci k = Some j" by blast
    then show ?thesis using assms(2) \<open>j \<noteq> i\<close> by (intro exI [of _ k]) auto
  qed
  then show ?thesis
    unfolding index_inv_def using l m inj assms(2) by (auto simp: nth_list_update)
qed

lemma index_GetFree: "index_inv ci \<Longrightarrow> index_inv (fst (GetFreeIndex ty h ci))"
  by (auto simp: GetFreeIndex_def intro!: index_take split: option.splits dest!: first_free_Some) (auto simp: index_inv_def)

lemma index_Reset: "index_inv ci \<Longrightarrow> index_inv (ResetIndex ty h ci)"
  by (auto simp: ResetIndex_def intro!: index_drop split: option.splits)

lemma index_Lvx: "index_inv ci \<Longrightarrow> index_inv (fst (LvxGetIndex ty h ci))"
  using index_GetFree by (auto simp: LvxGetIndex_def split: option.splits)

interpretation lidar_index: total_system index_step index_inv "\<lambda>_. True"
proof unfold_locales
  fix ci e ci' os
  assume "index_inv ci" and "index_step ci e = (ci', os)"
  then show "index_inv ci' \<and> list_all (\<lambda>_. True) os"
    using index_GetFree index_Reset index_Lvx by (cases e) (auto simp: list_all_iff)
qed

text \<open>The decimal number a handle is printed as determines it.\<close>

definition dec_value :: "string \<Rightarrow> nat" where
  "dec_value = foldl (\<lambda>a c. 10 * a + (of_char c - 48)) 0"

lemma dec_value_digit: "dec_value (cs @ [char_of (48 + d)]) = 10 * dec_value cs + d" if "d < 10"
  using that by (simp add: dec_value_def of_char_of)

lemma dec_value_show: "dec_value (show_nat n) = n"
proof (induction n rule: show_nat.induct)
  case (1 n)
  show ?case
  proof (cases "n < 10")
    case True
    then have "show_nat n = [] @ [char_of (48 + n)]" by (subst show_nat.simps) simp
    moreover have "dec_value [] = 0" by (simp add: dec_value_def)
    ultimately show ?thesis using dec_value_digit [OF True, of "[]"] by simp
  next
    case False
    then have "show_nat n = show_nat (n div 10) @ [char_of (48 + n mod 10)]" by (subst show_nat.simps) simp
    then show ?thesis using dec_value_digit [of "n mod 10" "show_nat (n div 10)"] 1 [OF False] by simp
  qed
qed

lemma show_nat_inj: "show_nat a = show_nat b \<longleftrightarrow> a = b"
  by (metis dec_value_show)

lemma index_key_inj: "GenerateIndexKey ty h = Some k \<Longrightarrow> GenerateIndexKey ty' h' = Some k \<Longrightarrow> h = h'"
  by (auto simp: GenerateIndexKey_def show_nat_inj split: if_splits)

text \<open>
  No two lidars share a queue: after any sequence of registrations and resets, lidars with
  different addresses have different indices, each below 32, and a registration fails only when
  all 32 are taken.
\<close>

theorem lidars_have_their_own_index:
  assumes "run_handlers (\<lambda>s e. Inr (index_step s e)) CacheIndex_ctor ops = Inr (ci, os)"
    and "GetIndex ty h ci = Some i" and "GetIndex ty' h' ci = Some i'" and "h \<noteq> h'"
  shows "i \<noteq> i' \<and> i < 32 \<and> i' < 32
    \<and> (snd (GetFreeIndex 8 h'' ci) = None \<longrightarrow> (\<forall>j<32. \<exists>k. map_index ci k = Some j))"
proof -
  have "index_inv CacheIndex_ctor" by (simp add: index_inv_def CacheIndex_ctor_def)
  then have inv: "index_inv ci" using lidar_index.run_inv [OF assms(1)] by blast
  obtain k k' where k: "GenerateIndexKey ty h = Some k" "map_index ci k = Some i" "GenerateIndexKey ty' h' = Some k'" "map_index ci k' = Some i'"
    using assms(2,3) by (auto simp: GetIndex_def split: option.splits)
  have "k \<noteq> k'" using index_key_inj k(1,3) assms(4) by blast
  moreover have full: "first_free bs j = None \<Longrightarrow> l < length bs \<Longrightarrow> bs ! l" for bs j l
    by (induction bs j arbitrary: l rule: first_free.induct) (auto simp: nth_Cons' split: if_splits)
  have "\<exists>k. map_index ci k = Some j" if "snd (GetFreeIndex 8 h'' ci) = None" "j < 32" for j
    using that inv full [of "index_cache ci" 0 j]
    by (auto simp: GetFreeIndex_def GenerateIndexKey_def kLivoxLidarType_def index_inv_def kMaxSourceLidar_def split: option.splits)
  ultimately show ?thesis using inv k(2,4) unfolding index_inv_def kMaxSourceLidar_def by metis
qed

theorem lidars_have_their_own_index_witness:
  "\<exists>ci os. run_handlers (\<lambda>s e. Inr (index_step s e)) CacheIndex_ctor [GetFree 8 1, GetFree 8 2] = Inr (ci, os)
     \<and> GetIndex 8 1 ci \<noteq> GetIndex 8 2 ci \<and> GetIndex 8 1 ci = Some 0"
proof -
  have n: "show_nat 1 = ''1''" "show_nat 2 = ''2''" by (simp_all add: show_nat.simps char_of_def bit_0)
  have c: "replicate kMaxSourceLidar False = False # False # replicate 30 False"
    by (simp add: kMaxSourceLidar_def numeral_eq_Suc)
  obtain ci os where r: "run_handlers (\<lambda>s e. Inr (index_step s e)) CacheIndex_ctor [GetFree 8 1, GetFree 8 2] = Inr (ci, os)"
      and i: "GetIndex 8 1 ci = Some 0" "GetIndex 8 2 ci = Some 1"
    by (simp add: GetFreeIndex_def GetIndex_def GenerateIndexKey_def kLivoxLidarType_def CacheIndex_ctor_def c n del: One_nat_def)
  then show ?thesis using lidars_have_their_own_index [OF r i] by auto
qed

end
