(* ===== verification/PubHandler.thy ===== *)
theory PubHandler
  imports LivoxQueue Bytes
begin

text \<open>
  The point handler of the lidar driver (\<open>pub_handler.cpp\<close>, \<open>pub_handler.h\<close>): it takes the Ethernet packets of the
  SDK, turns their raw points into points in metres in the frame of the car, and gathers them
  into frames that are handed on at the publishing rate.  Memory that is not there is
  \<open>Bad_index\<close>; a frame points into the buffers of the lidars, and what it points to may be gone.
\<close>

section \<open>Packets of the network\<close>

definition join64 :: "byte list \<Rightarrow> 64 word" where
  "join64 bs = push_bit 32 (ucast (join32 (drop 4 bs))) OR ucast (join32 (take 4 bs))"

text \<open>The header of an Ethernet packet at the start of the memory it was received into; \<open>data\<close> starts at byte 36.\<close>

record LivoxLidarEthernetPacket =
  ep_length :: "16 word"
  ep_time_interval :: "16 word"
  ep_dot_num :: "16 word"
  ep_data_type :: byte
  ep_time_type :: byte
  ep_timestamp :: "byte list"

definition ethernet_packet :: "byte list \<Rightarrow> exn + LivoxLidarEthernetPacket" where
  "ethernet_packet mem = sbind (read_at mem 0 36) (\<lambda>b. Inr
     \<lparr>ep_length = join16 (drop 1 b), ep_time_interval = join16 (drop 3 b), ep_dot_num = join16 (drop 5 b),
      ep_data_type = b ! 10, ep_time_type = b ! 11, ep_timestamp = take 8 (drop 28 b)\<rparr>)"

record RawPacket =
  rp_handle :: "32 word"
  rp_extrinsic_enable :: bool
  rp_point_num :: "32 word"
  rp_data_type :: byte
  rp_line_num :: byte
  rp_time_stamp :: "64 word"
  rp_point_interval :: "64 word"
  rp_raw_data :: "byte list"

text \<open>The values of the inertial sensor are kept as the bits of the floats.\<close>

record ImuData =
  im_handle :: "32 word"
  im_time_stamp :: "64 word"
  im_gyro :: "32 word list"
  im_acc :: "32 word list"

definition kLivoxLidarImuData :: byte where "kLivoxLidarImuData = 0"
definition kLivoxLidarCartesianCoordinateHighData :: byte where "kLivoxLidarCartesianCoordinateHighData = 1"
definition kLivoxLidarCartesianCoordinateLowData :: byte where "kLivoxLidarCartesianCoordinateLowData = 2"
definition kLivoxLidarSphericalCoordinateData :: byte where "kLivoxLidarSphericalCoordinateData = 3"

definition line_num_of :: "byte \<Rightarrow> byte" where
  "line_num_of dev_type = (if dev_type = 10 then 6 else if dev_type = 9 then 4 else 1)"

text \<open>The time of a packet, or the clock where the lidar is not synchronised.\<close>

definition GetEthPacketTimestamp :: "byte \<Rightarrow> byte list \<Rightarrow> 64 word \<Rightarrow> 64 word" where
  "GetEthPacketTimestamp time_type stamp now = (if time_type = 1 \<or> time_type = 2 then join64 stamp else now)"

text \<open>
  The length of the data is the length the header claims less that of the header, a 64-bit
  difference cut to 32 bits; the interval is in nanoseconds.
\<close>

definition make_raw :: "32 word \<Rightarrow> byte \<Rightarrow> byte list \<Rightarrow> 64 word \<Rightarrow> LivoxLidarEthernetPacket \<Rightarrow> exn + RawPacket" where
  "make_raw handle dev_type mem now p =
     (if ep_dot_num p = 0 then Inl Division_by_zero
      else sbind (read_at mem 36 (unat (ucast (ep_length p) - 36 :: 32 word))) (\<lambda>d. Inr
        \<lparr>rp_handle = handle, rp_extrinsic_enable = False, rp_point_num = ucast (ep_dot_num p), rp_data_type = ep_data_type p,
         rp_line_num = line_num_of dev_type, rp_time_stamp = GetEthPacketTimestamp (ep_time_type p) (ep_timestamp p) now,
         rp_point_interval = of_nat (unat (ep_time_interval p) * 100 div unat (ep_dot_num p)), rp_raw_data = d\<rparr>))"

definition make_imu :: "32 word \<Rightarrow> byte list \<Rightarrow> 64 word \<Rightarrow> LivoxLidarEthernetPacket \<Rightarrow> exn + ImuData" where
  "make_imu handle mem now p = sbind (read_at mem 36 24) (\<lambda>d. Inr
     \<lparr>im_handle = handle, im_time_stamp = GetEthPacketTimestamp (ep_time_type p) (ep_timestamp p) now,
      im_gyro = map (\<lambda>i. join32 (drop (4 * i) d)) [0..<3], im_acc = map (\<lambda>i. join32 (drop (4 * i) d)) [3..<6]\<rparr>)"

section \<open>Points\<close>

record ExtParameter =
  roll :: real
  pitch :: real
  yaw :: real
  tx :: "32 word"
  ty :: "32 word"
  tz :: "32 word"

record ExtParameterDetailed =
  trans :: "real list"
  rotation :: "real list list"

definition default_extrinsic :: ExtParameterDetailed where
  "default_extrinsic = \<lparr>trans = [0, 0, 0], rotation = [[1, 0, 0], [0, 1, 1], [0, 0, 1]]\<rparr>"

definition extrinsic_of :: "ExtParameter \<Rightarrow> ExtParameterDetailed" where
  "extrinsic_of p =
     (let cr = cos (roll p * pi / 180); cp = cos (pitch p * pi / 180); cy = cos (yaw p * pi / 180);
          sr = sin (roll p * pi / 180); sp = sin (pitch p * pi / 180); sy = sin (yaw p * pi / 180) in
      \<lparr>trans = [real_of_int (sint (tx p)), real_of_int (sint (ty p)), real_of_int (sint (tz p))],
       rotation = [[cp * cy, sr * sp * cy - cr * sy, cr * sp * cy + sr * sy],
                   [cp * sy, sr * sp * sy + cr * cy, cr * sp * sy - sr * cy],
                   [- sp, sr * cp, cr * cp]]\<rparr>)"

record LidarPubHandler =
  points_clouds :: "PointXyzlt list"
  extrinsic :: ExtParameterDetailed
  is_set_extrinsic_params :: bool

definition LidarPubHandler_ctor :: LidarPubHandler where
  "LidarPubHandler_ctor = \<lparr>points_clouds = [], extrinsic = default_extrinsic, is_set_extrinsic_params = False\<rparr>"

definition SetLidarsExtParam :: "ExtParameter \<Rightarrow> LidarPubHandler \<Rightarrow> LidarPubHandler" where
  "SetLidarsExtParam p h = (if is_set_extrinsic_params h then h else h\<lparr>extrinsic := extrinsic_of p, is_set_extrinsic_params := True\<rparr>)"

definition GetLidarBaseTime :: "LidarPubHandler \<Rightarrow> 64 word" where
  "GetLidarBaseTime h = (case points_clouds h of [] \<Rightarrow> 0 | p # _ \<Rightarrow> pt_offset_time p)"

definition GetRecentTimeStamp :: "LidarPubHandler \<Rightarrow> 64 word" where
  "GetRecentTimeStamp h = (if points_clouds h = [] then 0 else pt_offset_time (last (points_clouds h)))"

text \<open>Row \<open>k\<close> of the rotation applied to a point.\<close>

definition rotated :: "ExtParameterDetailed \<Rightarrow> nat \<Rightarrow> real \<times> real \<times> real \<Rightarrow> real" where
  "rotated e k = (\<lambda>(x, y, z). x * (rotation e ! k ! 0) + y * (rotation e ! k ! 1) + z * (rotation e ! k ! 2))"

text \<open>Point \<open>i\<close> of a packet, with its line and its time.\<close>

definition make_point :: "RawPacket \<Rightarrow> nat \<Rightarrow> byte \<Rightarrow> byte \<Rightarrow> (nat \<Rightarrow> real) \<Rightarrow> PointXyzlt" where
  "make_point pkt i reflectivity tag c =
     \<lparr>pt_x = c 0, pt_y = c 1, pt_z = c 2, pt_intensity = real (unat reflectivity), pt_tag = tag,
      pt_line = of_nat (i mod unat (rp_line_num pkt)), pt_offset_time = rp_time_stamp pkt + of_nat i * rp_point_interval pkt\<rparr>"

definition triple :: "real \<times> real \<times> real \<Rightarrow> nat \<Rightarrow> real" where
  "triple = (\<lambda>(x, y, z) k. if k = 0 then x else if k = 1 then y else z)"

definition ProcessCartesianHighPoint :: "RawPacket \<Rightarrow> ExtParameterDetailed \<Rightarrow> nat \<Rightarrow> exn + PointXyzlt" where
  "ProcessCartesianHighPoint pkt e i = sbind (read_at (rp_raw_data pkt) (14 * i) 14) (\<lambda>r.
     let v = (real_of_int (sint (join32 r)), real_of_int (sint (join32 (drop 4 r))), real_of_int (sint (join32 (drop 8 r)))) in
     Inr (make_point pkt i (r ! 12) (r ! 13)
       (\<lambda>k. if rp_extrinsic_enable pkt then triple v k / 1000 else (rotated e k v + trans e ! k) / 1000)))"

definition ProcessCartesianLowPoint :: "RawPacket \<Rightarrow> ExtParameterDetailed \<Rightarrow> nat \<Rightarrow> exn + PointXyzlt" where
  "ProcessCartesianLowPoint pkt e i = sbind (read_at (rp_raw_data pkt) (8 * i) 8) (\<lambda>r.
     let v = (real_of_int (sint (join16 r)), real_of_int (sint (join16 (drop 2 r))), real_of_int (sint (join16 (drop 4 r)))) in
     Inr (make_point pkt i (r ! 6) (r ! 7)
       (\<lambda>k. if rp_extrinsic_enable pkt then triple v k / 100 else (rotated e k v + trans e ! k) / 100)))"

definition ProcessSphericalPoint :: "RawPacket \<Rightarrow> ExtParameterDetailed \<Rightarrow> nat \<Rightarrow> exn + PointXyzlt" where
  "ProcessSphericalPoint pkt e i = sbind (read_at (rp_raw_data pkt) (10 * i) 10) (\<lambda>r.
     let radius = real (unat (join32 r)) / 1000; theta = real (unat (join16 (drop 4 r))) / 100 / 180 * pi;
         phi = real (unat (join16 (drop 6 r))) / 100 / 180 * pi;
         v = (radius * sin theta * cos phi, radius * sin theta * sin phi, radius * cos theta) in
     Inr (make_point pkt i (r ! 8) (r ! 9)
       (\<lambda>k. if rp_extrinsic_enable pkt then triple v k else rotated e k v + trans e ! k / 1000)))"

text \<open>The points of a packet; a packet of another type has none.\<close>

definition packet_points :: "ExtParameterDetailed \<Rightarrow> RawPacket \<Rightarrow> exn + PointXyzlt list" where
  "packet_points e pkt =
     (let is = [0..<unat (rp_point_num pkt)] in
      if rp_data_type pkt = kLivoxLidarCartesianCoordinateHighData then smap (ProcessCartesianHighPoint pkt e) is
      else if rp_data_type pkt = kLivoxLidarCartesianCoordinateLowData then smap (ProcessCartesianLowPoint pkt e) is
      else if rp_data_type pkt = kLivoxLidarSphericalCoordinateData then smap (ProcessSphericalPoint pkt e) is
      else Inr [])"

definition LivoxLidarPointCloudProcess :: "RawPacket \<Rightarrow> LidarPubHandler \<Rightarrow> exn + LidarPubHandler" where
  "LivoxLidarPointCloudProcess pkt h = sbind (packet_points (extrinsic h) pkt) (\<lambda>ps. Inr (h\<lparr>points_clouds := points_clouds h @ ps\<rparr>))"

section \<open>Frames\<close>

text \<open>
  An entry of the frame: the points it points to are gone once the buffer of its lidar has been
  cleared.
\<close>

record FramePoint =
  fp_handle :: "32 word"
  fp_points_num :: "32 word"
  fp_points :: "PointXyzlt list option"

text \<open>The frame being gathered, the queue of packets, and the handler of each lidar, in the order of the handles.\<close>

record PubHandler =
  frame_base_time :: "64 word list"
  frame_lidar_num :: byte
  frame_lidar_point :: "FramePoint list"
  raw_packet_queue :: "RawPacket list"
  publish_interval_tolerance :: "64 word"
  publish_interval_ms :: "64 word"
  lidar_process_handlers :: "(32 word \<times> LidarPubHandler) list"
  lidar_extrinsics :: "32 word \<Rightarrow> ExtParameter option"
  points_callback :: bool
  imu_callback :: bool

datatype pub_out = ImuOut ImuData | FrameOut "(64 word \<times> 32 word \<times> PointXyzlt list) list"

definition PubHandler_ctor :: PubHandler where
  "PubHandler_ctor = \<lparr>frame_base_time = replicate kMaxSourceLidar 0, frame_lidar_num = 0,
     frame_lidar_point = replicate kMaxSourceLidar \<lparr>fp_handle = 0, fp_points_num = 0, fp_points = None\<rparr>,
     raw_packet_queue = [], publish_interval_tolerance = 100000000, publish_interval_ms = 100,
     lidar_process_handlers = [], lidar_extrinsics = Map.empty, points_callback = False, imu_callback = False\<rparr>"

definition SetPointCloudConfig :: "real \<Rightarrow> PubHandler \<Rightarrow> PubHandler" where
  "SetPointCloudConfig freq s =
     (let interval = word_of_int (c_trunc (1000000000 / (freq * 10) * 10)) in
      s\<lparr>publish_interval_tolerance := interval - 1000000, publish_interval_ms := interval div 1000000\<rparr>)"

definition AddLidarsExtParam :: "32 word \<Rightarrow> ExtParameter \<Rightarrow> PubHandler \<Rightarrow> PubHandler" where
  "AddLidarsExtParam handle p s = s\<lparr>lidar_extrinsics := (lidar_extrinsics s)(handle \<mapsto> p)\<rparr>"

definition ClearAllLidarsExtrinsicParams :: "PubHandler \<Rightarrow> PubHandler" where
  "ClearAllLidarsExtrinsicParams s = s\<lparr>lidar_extrinsics := Map.empty\<rparr>"

definition OnLivoxLidarPointCloudCallback :: "32 word \<Rightarrow> byte \<Rightarrow> byte list \<Rightarrow> 64 word \<Rightarrow> PubHandler \<Rightarrow> exn + (PubHandler \<times> pub_out list)" where
  "OnLivoxLidarPointCloudCallback handle dev_type mem now s =
     sbind (ethernet_packet mem) (\<lambda>p.
       if ep_data_type p = kLivoxLidarImuData
       then if imu_callback s then sbind (make_imu handle mem now p) (\<lambda>m. Inr (s, [ImuOut m])) else Inr (s, [])
       else sbind (make_raw handle dev_type mem now p) (\<lambda>r. Inr (s\<lparr>raw_packet_queue := raw_packet_queue s @ [r]\<rparr>, [])))"

text \<open>A map ordered by its keys.\<close>

definition put_key :: "'k::linorder \<Rightarrow> 'v \<Rightarrow> ('k \<times> 'v) list \<Rightarrow> ('k \<times> 'v) list" where
  "put_key k v m = insort_key fst (k, v) (filter (\<lambda>e. fst e \<noteq> k) m)"

definition is_due :: "PubHandler \<Rightarrow> LidarPubHandler \<Rightarrow> bool" where
  "is_due s h \<longleftrightarrow>
     (let recent_time_ms = GetRecentTimeStamp h div 1000000 in
      recent_time_ms mod publish_interval_ms s = 0 \<and> recent_time_ms \<noteq> 0
      \<and> publish_interval_tolerance s \<le> GetRecentTimeStamp h - GetLidarBaseTime h)"

text \<open>\<open>points_[id].clear()\<close>: the entries that pointed there point to nothing.\<close>

definition forget :: "32 word \<Rightarrow> FramePoint list \<Rightarrow> FramePoint list" where
  "forget lid fs = map (\<lambda>f. if fp_handle f = lid then f\<lparr>fp_points := None\<rparr> else f) fs"

definition check_lidar :: "32 word \<times> LidarPubHandler \<Rightarrow> PubHandler \<Rightarrow> exn + PubHandler" where
  "check_lidar = (\<lambda>(lid, h) s.
     if publish_interval_ms s = 0 then Inl Division_by_zero
     else if \<not> is_due s h then Inr s
     else if kMaxSourceLidar \<le> unat (frame_lidar_num s) then Inl Bad_index
     else let n = unat (frame_lidar_num s);
              s1 = s\<lparr>frame_base_time := (frame_base_time s)[n := GetLidarBaseTime h],
                     frame_lidar_point := forget lid (frame_lidar_point s),
                     lidar_process_handlers := put_key lid (h\<lparr>points_clouds := []\<rparr>) (lidar_process_handlers s)\<rparr>;
              ps = points_clouds h in
          if ps = [] then Inr s1
          else Inr (s1\<lparr>frame_lidar_point := (frame_lidar_point s1)[n := \<lparr>fp_handle = lid, fp_points_num = of_nat (length ps), fp_points = Some ps\<rparr>],
                       frame_lidar_num := frame_lidar_num s1 + 1\<rparr>))"

fun check_lidars :: "(32 word \<times> LidarPubHandler) list \<Rightarrow> PubHandler \<Rightarrow> exn + PubHandler" where
  "check_lidars [] s = Inr s"
| "check_lidars (e # es) s = sbind (check_lidar e s) (check_lidars es)"

text \<open>The frame as the callback reads it, through the pointers of its entries.\<close>

definition read_entry :: "PubHandler \<Rightarrow> nat \<Rightarrow> exn + (64 word \<times> 32 word \<times> PointXyzlt list)" where
  "read_entry s i =
     (if kMaxSourceLidar \<le> i then Inl Bad_index
      else let f = frame_lidar_point s ! i in
        case fp_points f of None \<Rightarrow> Inl Bad_index
        | Some ps \<Rightarrow> sbind (copy_packet_points (fp_points_num f) ps) (\<lambda>qs. Inr (frame_base_time s ! i, fp_handle f, qs)))"

definition PublishPointCloud :: "PubHandler \<Rightarrow> exn + pub_out list" where
  "PublishPointCloud s =
     (if points_callback s then sbind (smap (read_entry s) [0..<unat (frame_lidar_num s)]) (\<lambda>f. Inr [FrameOut f]) else Inr [])"

definition CheckTimer :: "PubHandler \<Rightarrow> exn + (PubHandler \<times> pub_out list)" where
  "CheckTimer s = sbind (check_lidars (lidar_process_handlers s) s) (\<lambda>s'.
     if frame_lidar_num s' = of_nat (length (lidar_process_handlers s))
     then sbind (PublishPointCloud s') (\<lambda>os. Inr (s'\<lparr>frame_lidar_num := 0\<rparr>, os))
     else Inr (s', []))"

text \<open>One round of the thread; without a packet it waits.\<close>

definition handler_of :: "PubHandler \<Rightarrow> 32 word \<Rightarrow> LidarPubHandler" where
  "handler_of s lid =
     (let h = (case map_of (lidar_process_handlers s) lid of None \<Rightarrow> LidarPubHandler_ctor | Some h \<Rightarrow> h) in
      case lidar_extrinsics s lid of None \<Rightarrow> h | Some p \<Rightarrow> SetLidarsExtParam p h)"

definition RawDataProcess :: "PubHandler \<Rightarrow> exn + (PubHandler \<times> pub_out list)" where
  "RawDataProcess s =
     (case raw_packet_queue s of [] \<Rightarrow> Inr (s, [])
      | pkt # rest \<Rightarrow>
          sbind (LivoxLidarPointCloudProcess pkt (handler_of s (rp_handle pkt))) (\<lambda>h.
            CheckTimer (s\<lparr>raw_packet_queue := rest, lidar_process_handlers := put_key (rp_handle pkt) h (lidar_process_handlers s)\<rparr>)))"

datatype pub_event = Packet "32 word" byte "byte list" "64 word" | Process

fun pub_step :: "(PubHandler, pub_event, pub_out) handler" where
  "pub_step s (Packet handle dev_type mem now) = OnLivoxLidarPointCloudCallback handle dev_type mem now s"
| "pub_step s Process = RawDataProcess s"

section \<open>The frame of the car\<close>

definition norm3 :: "real \<times> real \<times> real \<Rightarrow> real" where
  "norm3 = (\<lambda>(x, y, z). x\<^sup>2 + y\<^sup>2 + z\<^sup>2)"

definition minus3 :: "real \<times> real \<times> real \<Rightarrow> real \<times> real \<times> real \<Rightarrow> real \<times> real \<times> real" where
  "minus3 = (\<lambda>(x, y, z) (x', y', z'). (x - x', y - y', z - z'))"

lemma rotation_columns:
  fixes cr sr cp sp cy sy :: real
  assumes "cr\<^sup>2 + sr\<^sup>2 = 1" and "cp\<^sup>2 + sp\<^sup>2 = 1" and "cy\<^sup>2 + sy\<^sup>2 = 1"
  shows "(x * (cp * cy) + y * (sr * sp * cy - cr * sy) + z * (cr * sp * cy + sr * sy))\<^sup>2
       + (x * (cp * sy) + y * (sr * sp * sy + cr * cy) + z * (cr * sp * sy - sr * cy))\<^sup>2
       + (x * - sp + y * (sr * cp) + z * (cr * cp))\<^sup>2 = x\<^sup>2 + y\<^sup>2 + z\<^sup>2"
proof -
  define u where "u = x * cp + (y * sr + z * cr) * sp"
  define v where "v = z * sr - y * cr"
  have "x * (cp * cy) + y * (sr * sp * cy - cr * sy) + z * (cr * sp * cy + sr * sy) = u * cy + v * sy"
    and "x * (cp * sy) + y * (sr * sp * sy + cr * cy) + z * (cr * sp * sy - sr * cy) = u * sy - v * cy"
    by (simp_all add: u_def v_def algebra_simps)
  moreover have "(u * cy + v * sy)\<^sup>2 + (u * sy - v * cy)\<^sup>2 = (u\<^sup>2 + v\<^sup>2) * (cy\<^sup>2 + sy\<^sup>2)"
    by (simp add: power2_eq_square algebra_simps)
  moreover have "u\<^sup>2 + (x * - sp + y * (sr * cp) + z * (cr * cp))\<^sup>2 = (x\<^sup>2 + (y * sr + z * cr)\<^sup>2) * (cp\<^sup>2 + sp\<^sup>2)"
    by (simp add: u_def power2_eq_square algebra_simps)
  moreover have "v\<^sup>2 + (y * sr + z * cr)\<^sup>2 = (y\<^sup>2 + z\<^sup>2) * (cr\<^sup>2 + sr\<^sup>2)"
    by (simp add: v_def power2_eq_square algebra_simps)
  ultimately show ?thesis using assms by simp
qed

lemma rotated_norm: "(rotated (extrinsic_of p) 0 v)\<^sup>2 + (rotated (extrinsic_of p) 1 v)\<^sup>2 + (rotated (extrinsic_of p) 2 v)\<^sup>2 = norm3 v"
proof -
  obtain x y z where v: "v = (x, y, z)" by (cases v)
  show ?thesis
    unfolding v rotated_def extrinsic_of_def Let_def norm3_def
    using rotation_columns [of "cos (roll p * pi / 180)" "sin (roll p * pi / 180)" "cos (pitch p * pi / 180)" "sin (pitch p * pi / 180)"
        "cos (yaw p * pi / 180)" "sin (yaw p * pi / 180)" x y z]
    by (simp add: numeral_2_eq_2)
qed

lemma rotated_diff: "rotated e k v - rotated e k w = rotated e k (minus3 v w)"
  by (cases v; cases w) (simp add: rotated_def minus3_def algebra_simps)

text \<open>The millimetres of point \<open>i\<close> of a packet of high resolution.\<close>

definition raw_point :: "RawPacket \<Rightarrow> nat \<Rightarrow> real \<times> real \<times> real" where
  "raw_point pkt i = (let r = drop (14 * i) (rp_raw_data pkt) in
     (real_of_int (sint (join32 r)), real_of_int (sint (join32 (drop 4 r))), real_of_int (sint (join32 (drop 8 r)))))"

lemma join32_take: "4 \<le> n \<Longrightarrow> join32 (take n xs) = join32 xs"
  by (simp add: join32_def)

lemma high_point:
  assumes "ProcessCartesianHighPoint pkt e i = Inr q" and "\<not> rp_extrinsic_enable pkt"
  shows "pt_x q = (rotated e 0 (raw_point pkt i) + trans e ! 0) / 1000" "pt_y q = (rotated e 1 (raw_point pkt i) + trans e ! 1) / 1000"
    "pt_z q = (rotated e 2 (raw_point pkt i) + trans e ! 2) / 1000"
  using assms
  by (auto simp: ProcessCartesianHighPoint_def sbind_eq_Inr read_at_eq_Inr make_point_def raw_point_def Let_def join32_take drop_take)

lemma smap_nth: "smap f xs = Inr ys \<Longrightarrow> i < length xs \<Longrightarrow> f (xs ! i) = Inr (ys ! i)"
  by (simp add: smap_all2 list_all2_conv_all_nth)


text \<open>A lidar without configured parameters keeps the default matrix, which has a one too many: \<open>y\<close> becomes \<open>y + z\<close>.\<close>

lemma default_extrinsic_shears:
  "rotated default_extrinsic 0 (x, y, z) = x" "rotated default_extrinsic 1 (x, y, z) = y + z" "rotated default_extrinsic 2 (x, y, z) = z"
  by (simp_all add: rotated_def default_extrinsic_def numeral_2_eq_2)

section \<open>One lidar\<close>

text \<open>A packet that holds the points it announces.\<close>

definition point_size :: "byte \<Rightarrow> nat" where
  "point_size t = (if t = kLivoxLidarCartesianCoordinateHighData then 14 else if t = kLivoxLidarCartesianCoordinateLowData then 8
     else if t = kLivoxLidarSphericalCoordinateData then 10 else 0)"

definition sound_raw :: "RawPacket \<Rightarrow> bool" where
  "sound_raw r \<longleftrightarrow> unat (rp_point_num r) * point_size (rp_data_type r) \<le> length (rp_raw_data r)"

definition sound_packet :: "byte list \<Rightarrow> bool" where
  "sound_packet mem = (case ethernet_packet mem of Inl _ \<Rightarrow> False | Inr p \<Rightarrow>
     if ep_data_type p = kLivoxLidarImuData then 60 \<le> length mem
     else ep_dot_num p \<noteq> 0 \<and> 36 \<le> unat (ep_length p) \<and> unat (ep_length p) \<le> length mem
       \<and> unat (ep_dot_num p) * point_size (ep_data_type p) \<le> unat (ep_length p) - 36)"

text \<open>The packets of points among the events, and the points of a packet.\<close>

fun accepted :: "pub_event \<Rightarrow> RawPacket list" where
  "accepted (Packet handle dev_type mem now) = (case ethernet_packet mem of Inl _ \<Rightarrow> [] | Inr p \<Rightarrow>
     if ep_data_type p = kLivoxLidarImuData then [] else (case make_raw handle dev_type mem now p of Inl _ \<Rightarrow> [] | Inr r \<Rightarrow> [r]))"
| "accepted Process = []"

definition points_of :: "ExtParameterDetailed \<Rightarrow> RawPacket \<Rightarrow> PointXyzlt list" where
  "points_of e r = (case packet_points e r of Inl _ \<Rightarrow> [] | Inr ps \<Rightarrow> ps)"

lemma smap_upto:
  assumes "\<And>i. i < n \<Longrightarrow> \<exists>y. f i = Inr y"
  shows "\<exists>ys. smap f [0..<n] = Inr ys \<and> length ys = n"
proof -
  obtain g where "\<And>i. i < n \<Longrightarrow> f i = Inr (g i)" using assms by metis
  then have "smap f [0..<n] = Inr (map g [0..<n])" by (intro smap_Inr) simp
  then show ?thesis by simp
qed

lemma slot_fits: "i < (n :: nat) \<Longrightarrow> n * k \<le> l \<Longrightarrow> k * i + k \<le> l"
  by (metis Suc_leI add.commute dual_order.trans mult.commute mult_Suc_right mult_le_mono2)

lemma sound_points:
  assumes "sound_raw r"
  obtains ps where "packet_points e r = Inr ps" "points_of e r = ps" "length ps \<le> unat (rp_point_num r)"
proof -
  note kinds = kLivoxLidarCartesianCoordinateHighData_def kLivoxLidarCartesianCoordinateLowData_def kLivoxLidarSphericalCoordinateData_def
  let ?n = "unat (rp_point_num r)" and ?t = "rp_data_type r"
  have fits: "k * i + k \<le> length (rp_raw_data r)" if "i < ?n" "point_size ?t = k" for i k
    using slot_fits [OF that(1), of k] assms that(2) by (simp add: sound_raw_def)
  have "\<exists>ps. packet_points e r = Inr ps \<and> length ps \<le> ?n"
  proof (cases "?t = kLivoxLidarCartesianCoordinateHighData")
    case True
    then have "\<exists>y. ProcessCartesianHighPoint r e i = Inr y" if "i < ?n" for i
      using fits [OF that, of 14] by (simp add: point_size_def ProcessCartesianHighPoint_def Let_def)
    from smap_upto [of ?n "ProcessCartesianHighPoint r e", OF this] show ?thesis using True by (auto simp: packet_points_def)
  next
    case no_high: False
    show ?thesis
    proof (cases "?t = kLivoxLidarCartesianCoordinateLowData")
      case True
      then have "\<exists>y. ProcessCartesianLowPoint r e i = Inr y" if "i < ?n" for i
        using fits [OF that, of 8] by (simp add: point_size_def ProcessCartesianLowPoint_def Let_def kinds)
      from smap_upto [of ?n "ProcessCartesianLowPoint r e", OF this] show ?thesis using True by (auto simp: packet_points_def kinds)
    next
      case no_low: False
      have "\<exists>y. ProcessSphericalPoint r e i = Inr y" if "i < ?n" "?t = kLivoxLidarSphericalCoordinateData" for i
        using fits [OF that(1), of 10] that(2) by (simp add: point_size_def ProcessSphericalPoint_def Let_def kinds)
      from smap_upto [of ?n "ProcessSphericalPoint r e"] this show ?thesis using no_high no_low by (auto simp: packet_points_def)
    qed
  qed
  then show thesis using that by (auto simp: points_of_def)
qed

lemma accepted_packet:
  assumes "sound_packet mem"
  obtains m where "OnLivoxLidarPointCloudCallback handle dev_type mem now s = Inr (s, m)" "accepted (Packet handle dev_type mem now) = []"
      "\<forall>x \<in> set m. \<exists>i. x = ImuOut i"
  | r where "OnLivoxLidarPointCloudCallback handle dev_type mem now s = Inr (s\<lparr>raw_packet_queue := raw_packet_queue s @ [r]\<rparr>, [])"
      "accepted (Packet handle dev_type mem now) = [r]" "sound_raw r" "rp_handle r = handle"
proof -
  obtain p where p: "ethernet_packet mem = Inr p" using assms by (auto simp: sound_packet_def split: sum.splits)
  show thesis
  proof (cases "ep_data_type p = kLivoxLidarImuData")
    case True
    then have "60 \<le> length mem" using assms p by (simp add: sound_packet_def)
    then obtain i where "make_imu handle mem now p = Inr i" by (simp add: make_imu_def)
    with True p show thesis
      by (intro that(1) [of "if imu_callback s then [ImuOut i] else []"]) (simp_all add: OnLivoxLidarPointCloudCallback_def)
  next
    case False
    then have l: "ep_dot_num p \<noteq> 0" "36 \<le> unat (ep_length p)" "unat (ep_length p) \<le> length mem"
      "unat (ep_dot_num p) * point_size (ep_data_type p) \<le> unat (ep_length p) - 36"
      using assms p by (simp_all add: sound_packet_def)
    have u: "unat (ucast (ep_length p) :: 32 word) = unat (ep_length p)" "unat (ucast (ep_dot_num p) :: 32 word) = unat (ep_dot_num p)"
      using unsigned_less [of "ep_length p", where ?'a = nat] unsigned_less [of "ep_dot_num p", where ?'a = nat] by (simp_all add: unsigned_ucast_eq take_bit_eq_mod)
    then have "(36 :: 32 word) \<le> ucast (ep_length p)" using l(2) by (simp add: word_le_nat_alt)
    then have "unat (ucast (ep_length p) - 36 :: 32 word) = unat (ep_length p) - 36" using u(1) by (simp add: unat_sub)
    then have "\<exists>r. make_raw handle dev_type mem now p = Inr r \<and> sound_raw r \<and> rp_handle r = handle"
      using l by (simp add: make_raw_def sound_raw_def u(2))
    then show thesis using that(2) False p by (auto simp: OnLivoxLidarPointCloudCallback_def)
  qed
qed

text \<open>The configuration of a lidar: its parameters, or the default.\<close>

definition mounting :: "ExtParameter option \<Rightarrow> ExtParameterDetailed" where
  "mounting x = (case x of None \<Rightarrow> default_extrinsic | Some p \<Rightarrow> extrinsic_of p)"

definition pending :: "PubHandler \<Rightarrow> 32 word \<Rightarrow> PointXyzlt list" where
  "pending s l = (case map_of (lidar_process_handlers s) l of None \<Rightarrow> [] | Some h \<Rightarrow> points_clouds h)"

fun frame_points :: "pub_out \<Rightarrow> PointXyzlt list" where
  "frame_points (FrameOut f) = concat (map (\<lambda>(t, h, ps). ps) f)"
| "frame_points (ImuOut m) = []"

text \<open>A frame of one lidar that was due: it has points, and its last one comes at a multiple of the period, late enough.\<close>

definition due_frame :: "32 word \<Rightarrow> 64 word \<Rightarrow> 64 word \<Rightarrow> pub_out \<Rightarrow> bool" where
  "due_frame l tolerance ms x = (case x of ImuOut m \<Rightarrow> True | FrameOut f \<Rightarrow>
     (\<exists>ps. f = [(pt_offset_time (hd ps), l, ps)] \<and> ps \<noteq> [] \<and> (pt_offset_time (last ps) div 1000000) mod ms = 0
        \<and> tolerance \<le> pt_offset_time (last ps) - pt_offset_time (hd ps)))"

definition single_inv :: "32 word \<Rightarrow> PubHandler \<Rightarrow> bool" where
  "single_inv l s \<longleftrightarrow> length (frame_base_time s) = kMaxSourceLidar \<and> length (frame_lidar_point s) = kMaxSourceLidar \<and> frame_lidar_num s = 0
     \<and> points_callback s \<and> publish_interval_ms s \<noteq> 0 \<and> (\<forall>r \<in> set (raw_packet_queue s). sound_raw r \<and> rp_handle r = l)
     \<and> (lidar_process_handlers s = [] \<or> (\<exists>h. lidar_process_handlers s = [(l, h)] \<and> extrinsic h = mounting (lidar_extrinsics s l)
          \<and> (is_set_extrinsic_params h \<longleftrightarrow> lidar_extrinsics s l \<noteq> None)))"

text \<open>What stays as it is configured.\<close>

definition same_config :: "PubHandler \<Rightarrow> PubHandler \<Rightarrow> bool" where
  "same_config s s' \<longleftrightarrow> publish_interval_tolerance s' = publish_interval_tolerance s \<and> publish_interval_ms s' = publish_interval_ms s
     \<and> lidar_extrinsics s' = lidar_extrinsics s"

lemma single_handler:
  assumes "single_inv l s"
  shows "extrinsic (handler_of s l) = mounting (lidar_extrinsics s l)" "points_clouds (handler_of s l) = pending s l"
    "is_set_extrinsic_params (handler_of s l) \<longleftrightarrow> lidar_extrinsics s l \<noteq> None"
  using assms
  by (auto simp: single_inv_def handler_of_def pending_def mounting_def SetLidarsExtParam_def LidarPubHandler_ctor_def split: option.splits)

lemma recent_times: "ps \<noteq> [] \<Longrightarrow> GetLidarBaseTime (h\<lparr>points_clouds := ps\<rparr>) = pt_offset_time (hd ps)"
  "ps \<noteq> [] \<Longrightarrow> GetRecentTimeStamp (h\<lparr>points_clouds := ps\<rparr>) = pt_offset_time (last ps)"
  "GetRecentTimeStamp (h\<lparr>points_clouds := []\<rparr>) = 0"
  by (auto simp: GetLidarBaseTime_def GetRecentTimeStamp_def neq_Nil_conv)

lemma single_timer:
  assumes "single_inv l s" and "lidar_process_handlers s = [(l, h)]" and "length (points_clouds h) < 2 ^ 32"
  shows "\<exists>s' os. CheckTimer s = Inr (s', os) \<and> single_inv l s' \<and> same_config s s' \<and> raw_packet_queue s' = raw_packet_queue s
    \<and> concat (map frame_points os) @ pending s' l = points_clouds h
    \<and> list_all (due_frame l (publish_interval_tolerance s) (publish_interval_ms s)) os"
proof (cases "is_due s h")
  case False
  then have "check_lidar (l, h) s = Inr s" using assms(1) by (simp add: check_lidar_def single_inv_def)
  then have "CheckTimer s = Inr (s, [])" using assms(1,2) by (simp add: CheckTimer_def single_inv_def)
  then show ?thesis using assms(1,2) by (simp add: same_config_def pending_def)
next
  case True
  let ?ps = "points_clouds h"
  have ne: "?ps \<noteq> []" using True by (auto simp: is_due_def GetRecentTimeStamp_def Let_def)
  have t: "GetLidarBaseTime h = pt_offset_time (hd ?ps)" "GetRecentTimeStamp h = pt_offset_time (last ?ps)"
    using recent_times(1,2) [OF ne, of h] by simp_all
  have n: "unat (of_nat (length ?ps) :: 32 word) = length ?ps" using assms(3) by (simp add: unat_of_nat)
  let ?s = "s\<lparr>frame_base_time := (frame_base_time s)[0 := GetLidarBaseTime h],
    frame_lidar_point := (forget l (frame_lidar_point s))[0 := \<lparr>fp_handle = l, fp_points_num = of_nat (length ?ps), fp_points = Some ?ps\<rparr>],
    frame_lidar_num := 1, lidar_process_handlers := [(l, h\<lparr>points_clouds := []\<rparr>)]\<rparr>"
  have i: "length (frame_base_time s) = 32" "length (frame_lidar_point s) = 32" "frame_lidar_num s = 0" "points_callback s"
    "publish_interval_ms s \<noteq> 0" using assms(1) by (simp_all add: single_inv_def kMaxSourceLidar_def)
  have c: "check_lidar (l, h) s = Inr ?s"
    using True i ne assms(2) by (simp add: check_lidar_def kMaxSourceLidar_def put_key_def Let_def)
  have "read_entry ?s 0 = Inr (GetLidarBaseTime h, l, ?ps)"
    using i n by (simp add: read_entry_def kMaxSourceLidar_def copy_packet_points_def forget_def Let_def)
  then have "PublishPointCloud ?s = Inr [FrameOut [(GetLidarBaseTime h, l, ?ps)]]"
    using i(4) by (simp add: PublishPointCloud_def)
  then have "CheckTimer s = Inr (?s\<lparr>frame_lidar_num := 0\<rparr>, [FrameOut [(GetLidarBaseTime h, l, ?ps)]])"
    using c assms(2) by (simp add: CheckTimer_def)
  moreover have "due_frame l (publish_interval_tolerance s) (publish_interval_ms s) (FrameOut [(GetLidarBaseTime h, l, ?ps)])"
    using True ne by (auto simp: due_frame_def is_due_def t Let_def)
  moreover have "single_inv l (?s\<lparr>frame_lidar_num := 0\<rparr>)"
    using assms(1,2) by (auto simp: single_inv_def forget_def)
  ultimately show ?thesis by (auto simp: same_config_def pending_def)
qed

lemma single_process:
  assumes "single_inv l s" and "raw_packet_queue s = r # rest" and "length (pending s l) + unat (rp_point_num r) < 2 ^ 32"
  shows "\<exists>s' os. RawDataProcess s = Inr (s', os) \<and> single_inv l s' \<and> same_config s s' \<and> raw_packet_queue s' = rest
    \<and> concat (map frame_points os) @ pending s' l = pending s l @ points_of (mounting (lidar_extrinsics s l)) r
    \<and> list_all (due_frame l (publish_interval_tolerance s) (publish_interval_ms s)) os"
proof -
  have r: "sound_raw r" "rp_handle r = l" using assms(1,2) by (simp_all add: single_inv_def)
  let ?e = "mounting (lidar_extrinsics s l)" and ?h = "handler_of s l"
  note hl = single_handler [OF assms(1)]
  obtain ps where ps: "packet_points ?e r = Inr ps" "points_of ?e r = ps" "length ps \<le> unat (rp_point_num r)"
    by (rule sound_points [OF r(1)])
  let ?h' = "?h\<lparr>points_clouds := pending s l @ ps\<rparr>"
  let ?s = "s\<lparr>raw_packet_queue := rest, lidar_process_handlers := put_key l ?h' (lidar_process_handlers s)\<rparr>"
  have p: "RawDataProcess s = CheckTimer ?s"
    using assms(2) ps(1) hl r(2) by (simp add: RawDataProcess_def LivoxLidarPointCloudProcess_def)
  have one: "lidar_process_handlers ?s = [(l, ?h')]" using assms(1) by (auto simp: single_inv_def put_key_def)
  have "single_inv l ?s" using assms(1,2) one hl by (auto simp: single_inv_def)
  from single_timer [OF this one] show ?thesis
    using assms(3) ps p by (auto simp: same_config_def)
qed

text \<open>All packets come from one lidar and are sound.\<close>

definition lidar_event_ok :: "32 word \<Rightarrow> pub_event \<Rightarrow> bool" where
  "lidar_event_ok l e = (case e of Packet h t mem now \<Rightarrow> h = l \<and> sound_packet mem | Process \<Rightarrow> True)"

definition points_in :: "RawPacket list \<Rightarrow> nat" where
  "points_in rs = sum_list (map (\<lambda>r. unat (rp_point_num r)) rs)"

lemma points_in_simps [simp]: "points_in [] = 0" "points_in (r # rs) = unat (rp_point_num r) + points_in rs"
  "points_in (rs @ rs') = points_in rs + points_in rs'"
  by (simp_all add: points_in_def)

lemma single_run:
  assumes "single_inv l s" and "list_all (lidar_event_ok l) es"
    and "length (pending s l) + points_in (raw_packet_queue s) + points_in (concat (map accepted es)) < 2 ^ 32"
  shows "\<exists>s' os qs. run_handlers pub_step s es = Inr (s', os) \<and> single_inv l s' \<and> same_config s s'
    \<and> raw_packet_queue s @ concat (map accepted es) = qs @ raw_packet_queue s'
    \<and> concat (map frame_points os) @ pending s' l = pending s l @ concat (map (points_of (mounting (lidar_extrinsics s l))) qs)
    \<and> list_all (due_frame l (publish_interval_tolerance s) (publish_interval_ms s)) os"
  using assms
proof (induction es arbitrary: s)
  case Nil
  then show ?case by (auto simp: same_config_def)
next
  case (Cons e es)
  note IH = Cons.IH
  have go: ?case if step: "pub_step s e = Inr (s1, o1)" "single_inv l s1" "same_config s s1"
      "raw_packet_queue s @ accepted e = q1 @ raw_packet_queue s1"
      "concat (map frame_points o1) @ pending s1 l = pending s l @ concat (map (points_of (mounting (lidar_extrinsics s l))) q1)"
      "list_all (due_frame l (publish_interval_tolerance s) (publish_interval_ms s)) o1"
    and room: "length (pending s1 l) + points_in (raw_packet_queue s1) + points_in (concat (map accepted es)) < 2 ^ 32"
    for s1 o1 q1
  proof -
    obtain s2 o2 q2 where r: "run_handlers pub_step s1 es = Inr (s2, o2)" "single_inv l s2" "same_config s1 s2"
      "raw_packet_queue s1 @ concat (map accepted es) = q2 @ raw_packet_queue s2"
      "concat (map frame_points o2) @ pending s2 l = pending s1 l @ concat (map (points_of (mounting (lidar_extrinsics s1 l))) q2)"
      "list_all (due_frame l (publish_interval_tolerance s1) (publish_interval_ms s1)) o2"
      using IH [OF step(2) _ room] Cons.prems(2) by auto
    have c: "lidar_extrinsics s1 = lidar_extrinsics s" "publish_interval_tolerance s1 = publish_interval_tolerance s"
      "publish_interval_ms s1 = publish_interval_ms s" using step(3) by (simp_all add: same_config_def)
    have "concat (map frame_points (o1 @ o2)) @ pending s2 l
        = concat (map frame_points o1) @ pending s1 l @ concat (map (points_of (mounting (lidar_extrinsics s l))) q2)"
      using r(5) c(1) by simp
    also have "\<dots> = pending s l @ concat (map (points_of (mounting (lidar_extrinsics s l))) (q1 @ q2))"
      by (simp only: append_assoc [symmetric] step(5)) simp
    finally have pts: "concat (map frame_points (o1 @ o2)) @ pending s2 l
      = pending s l @ concat (map (points_of (mounting (lidar_extrinsics s l))) (q1 @ q2))" .
    have "raw_packet_queue s @ concat (map accepted (e # es)) = (q1 @ q2) @ raw_packet_queue s2"
      using step(4) r(4) by (metis append.assoc concat.simps(2) list.simps(9))
    moreover have "same_config s s2" using step(3) r(3) by (simp add: same_config_def)
    ultimately show ?thesis
      using step(1) r(1,2) step(6) r(6) c pts by (intro exI [of _ s2] exI [of _ "o1 @ o2"] exI [of _ "q1 @ q2"]) simp
  qed
  show ?case
  proof (cases e)
    case (Packet h t mem now)
    then have hl: "h = l" "sound_packet mem" using Cons.prems(2) by (simp_all add: lidar_event_ok_def)
    show ?thesis
    proof (rule accepted_packet [OF hl(2), of h t now s])
      fix m assume m: "OnLivoxLidarPointCloudCallback h t mem now s = Inr (s, m)" "accepted (Packet h t mem now) = []"
        "\<forall>x \<in> set m. \<exists>i. x = ImuOut i"
      have "concat (map frame_points m) = []" using m(3) by auto
      moreover have "list_all (due_frame l (publish_interval_tolerance s) (publish_interval_ms s)) m"
        using m(3) by (auto simp: list_all_iff due_frame_def)
      ultimately show ?thesis
        using m Cons.prems by (intro go [of s m "[]"]) (simp_all add: Packet same_config_def)
    next
      fix r assume r: "OnLivoxLidarPointCloudCallback h t mem now s = Inr (s\<lparr>raw_packet_queue := raw_packet_queue s @ [r]\<rparr>, [])"
        "accepted (Packet h t mem now) = [r]" "sound_raw r" "rp_handle r = h"
      show ?thesis
        using r Cons.prems hl(1)
        by (intro go [of "s\<lparr>raw_packet_queue := raw_packet_queue s @ [r]\<rparr>" "[]" "[]"])
          (auto simp: Packet same_config_def single_inv_def pending_def)
    qed
  next
    case Process
    show ?thesis
    proof (cases "raw_packet_queue s")
      case Nil
      then show ?thesis
        using Cons.prems by (intro go [of s "[]" "[]"]) (simp_all add: Process RawDataProcess_def same_config_def)
    next
      case (Cons r rest)
      have "length (pending s l) + unat (rp_point_num r) < 2 ^ 32" using Cons.prems(3) Cons by simp
      from single_process [OF Cons.prems(1) Cons this] obtain s1 o1 where p: "RawDataProcess s = Inr (s1, o1)" "single_inv l s1"
        "same_config s s1" "raw_packet_queue s1 = rest"
        "concat (map frame_points o1) @ pending s1 l = pending s l @ points_of (mounting (lidar_extrinsics s l)) r"
        "list_all (due_frame l (publish_interval_tolerance s) (publish_interval_ms s)) o1" by blast
      have "sound_raw r" using Cons.prems(1) Cons by (simp add: single_inv_def)
      then have "length (points_of (mounting (lidar_extrinsics s l)) r) \<le> unat (rp_point_num r)" by (metis sound_points)
      moreover have "length (pending s1 l) \<le> length (pending s l) + length (points_of (mounting (lidar_extrinsics s l)) r)"
        using arg_cong [OF p(5), of length] by simp
      ultimately show ?thesis
        using p Cons Cons.prems(3) by (intro go [of s1 o1 "[r]"]) (simp_all add: Process)
    qed
  qed
qed


definition example_packet :: "byte list" where
  "example_packet = [0, 50, 0, 0, 0, 1, 0, 0, 0, 0, 1, 0, 0, 0, 0, 0, 0, 0, 0, 0, 0, 0, 0, 0, 0, 0, 0, 0, 0, 0, 0, 0, 0, 0, 0, 0] @ replicate 14 0"

lemma example_header: "ethernet_packet example_packet = Inr \<lparr>ep_length = 50, ep_time_interval = 0, ep_dot_num = 1, ep_data_type = 1,
    ep_time_type = 0, ep_timestamp = [0, 0, 0, 0, 0, 0, 0, 0]\<rparr>"
  by (simp add: ethernet_packet_def example_packet_def join16_def)



section \<open>What goes wrong\<close>

text \<open>A packet that announces no points ends the driver with a division by zero.\<close>

lemma packet_without_points_ends_the_driver:
  "ethernet_packet mem = Inr p \<Longrightarrow> ep_data_type p \<noteq> kLivoxLidarImuData \<Longrightarrow> ep_dot_num p = 0
    \<Longrightarrow> OnLivoxLidarPointCloudCallback handle dev_type mem now s = Inl Division_by_zero"
  by (simp add: OnLivoxLidarPointCloudCallback_def make_raw_def)

text \<open>One that claims to be shorter than its header makes the driver copy almost four gigabytes.\<close>

lemma short_packet_reads_everything:
  assumes "ethernet_packet mem = Inr p" and "ep_data_type p \<noteq> kLivoxLidarImuData" and "ep_dot_num p \<noteq> 0" and "unat (ep_length p) < 36"
    and "length mem \<le> 2 ^ 32 - 36"
  shows "OnLivoxLidarPointCloudCallback handle dev_type mem now s = Inl Bad_index"
proof -
  define l where "l = unat (ep_length p)"
  have "l < 36" using assms(4) by (simp add: l_def)
  then have "unat (of_nat (2 ^ 32 - 36 + l) :: 32 word) = 2 ^ 32 - 36 + l" by (simp only: unat_of_nat) simp
  moreover have "(ucast (ep_length p) :: 32 word) = of_nat l" by (simp add: l_def)
  then have "(ucast (ep_length p) - 36 :: 32 word) = of_nat (2 ^ 32 - 36 + l)" by simp
  ultimately have "unat (ucast (ep_length p) - 36 :: 32 word) = 2 ^ 32 - 36 + l" by simp
  then show ?thesis using assms by (simp add: OnLivoxLidarPointCloudCallback_def make_raw_def read_at_def)
qed

text \<open>
  With two lidars, one that is due again before the other was overwrites the buffer its entry of
  the frame points into; the frame, then full, is read through that pointer.
\<close>

lemma fast_lidar_spoils_the_frame:
  assumes "lidar_process_handlers s = [(a, ha), (b, hb)]" and "a < b" and "is_due s ha" and "\<not> is_due s hb"
    and "frame_lidar_num s = 1" and "fp_handle (frame_lidar_point s ! 0) = a" and "publish_interval_ms s \<noteq> 0"
    and "length (frame_lidar_point s) = kMaxSourceLidar" and "points_callback s"
  shows "CheckTimer s = Inl Bad_index"
proof -
  have ne: "points_clouds ha \<noteq> []" using assms(3) by (auto simp: is_due_def GetRecentTimeStamp_def Let_def)
  obtain s1 where s1: "check_lidar (a, ha) s = Inr s1" "frame_lidar_num s1 = 2" "fp_points (frame_lidar_point s1 ! 0) = None"
    "publish_interval_ms s1 = publish_interval_ms s" "publish_interval_tolerance s1 = publish_interval_tolerance s" "points_callback s1"
    using assms ne by (auto simp: check_lidar_def forget_def kMaxSourceLidar_def Let_def)
  have "check_lidar (b, hb) s1 = Inr s1" using assms(4,7) s1(4,5) by (simp add: check_lidar_def is_due_def)
  then have "check_lidars (lidar_process_handlers s) s = Inr s1" using s1(1) assms(1) by simp
  moreover have "PublishPointCloud s1 = Inl Bad_index"
    using s1(2,3,6) by (simp add: PublishPointCloud_def read_entry_def kMaxSourceLidar_def upt_rec)
  ultimately show ?thesis using s1(2) assms(1) by (simp add: CheckTimer_def)
qed

end
