(* ===== verification/LidarDriver.thy ===== *)
theory LidarDriver
  imports PubHandler Commands
begin

text \<open>
  The lidar driver node: its configuration of the lidars and their answers (\<open>livox_lidar_callback.cpp\<close>,
  \<open>parse_livox_lidar_cfg.cpp\<close>, \<open>lds_lidar.cpp\<close>), the store of points and inertial data (\<open>lds.cpp\<close>,
  \<open>lidar_imu_data_queue.cpp\<close>), and their publication (\<open>lddc.cpp\<close>, in its ROS 2 form).
\<close>

section \<open>Configuration\<close>

text \<open>What the file says of a lidar, each member present or not; the address as a number.\<close>

record JsonExtrinsics =
  js_roll :: "real option"
  js_pitch :: "real option"
  js_yaw :: "real option"
  js_x :: "int option"
  js_y :: "int option"
  js_z :: "int option"

record JsonLidar =
  js_ip :: "32 word option"
  js_pcl_data_type :: "int option"
  js_pattern_mode :: "int option"
  js_blind_spot_set :: "int option"
  js_dual_emit_en :: "int option"
  js_extrinsic :: "JsonExtrinsics option"

record UserLivoxLidarConfig =
  cfg_handle :: "32 word"
  pcl_data_type :: byte
  pattern_mode :: byte
  blind_spot_set :: "32 word"
  dual_emit_en :: byte
  extrinsic_param :: ExtParameter
  set_bits :: "32 word"

definition json_or :: "'b \<Rightarrow> ('a \<Rightarrow> 'b) \<Rightarrow> 'a option \<Rightarrow> 'b" where
  "json_or d f x = (case x of None \<Rightarrow> d | Some v \<Rightarrow> f v)"

definition zero_extrinsics :: ExtParameter where
  "zero_extrinsics = \<lparr>roll = 0, pitch = 0, yaw = 0, tx = 0, ty = 0, tz = 0\<rparr>"

definition ParseExtrinsics :: "JsonExtrinsics \<Rightarrow> ExtParameter" where
  "ParseExtrinsics v = \<lparr>roll = json_or 0 (\<lambda>x. x) (js_roll v), pitch = json_or 0 (\<lambda>x. x) (js_pitch v), yaw = json_or 0 (\<lambda>x. x) (js_yaw v),
     tx = json_or 0 word_of_int (js_x v), ty = json_or 0 word_of_int (js_y v), tz = json_or 0 word_of_int (js_z v)\<rparr>"

text \<open>Each number is cut to 8 bits, the blind spot too, whose field has 32.\<close>

definition ParseUserConfig :: "32 word \<Rightarrow> JsonLidar \<Rightarrow> UserLivoxLidarConfig" where
  "ParseUserConfig ip v = \<lparr>cfg_handle = ip,
     pcl_data_type = json_or (- 1) word_of_int (js_pcl_data_type v),
     pattern_mode = json_or (- 1) word_of_int (js_pattern_mode v),
     blind_spot_set = json_or (- 1) (\<lambda>x. scast (word_of_int x :: byte)) (js_blind_spot_set v),
     dual_emit_en = json_or (- 1) word_of_int (js_dual_emit_en v),
     extrinsic_param = json_or zero_extrinsics ParseExtrinsics (js_extrinsic v), set_bits = 0\<rparr>"

fun ParseUserConfigs :: "JsonLidar list \<Rightarrow> UserLivoxLidarConfig list" where
  "ParseUserConfigs [] = []"
| "ParseUserConfigs (v # vs) = (case js_ip v of None \<Rightarrow> ParseUserConfigs vs | Some ip \<Rightarrow> ParseUserConfig ip v # ParseUserConfigs vs)"

section \<open>State\<close>

datatype LidarConnectState = kConnectStateOff | kConnectStateOn | kConnectStateConfig | kConnectStateSampling

record LidarDevice =
  lidar_type :: nat
  ld_handle :: "32 word"
  connect_state :: LidarConnectState
  ld_data :: LidarDataQueue
  imu_data :: "ImuData list"
  livox_config :: UserLivoxLidarConfig

text \<open>The data source, and the publishers made so far with the length of their queues.\<close>

record Lds =
  lidars :: "LidarDevice list"
  cache_index :: CacheIndex
  pcd_semaphore :: int
  imu_semaphore :: int
  publish_freq :: real
  request_exit :: bool
  transfer_format :: nat
  use_multi_topic :: bool
  output_type :: nat
  private_pub :: "nat \<Rightarrow> bool"
  global_pub :: bool
  private_imu_pub :: "nat \<Rightarrow> bool"
  global_imu_pub :: bool

definition kPointCloud2Msg :: nat where "kPointCloud2Msg = 0"
definition kLivoxCustomMsg :: nat where "kLivoxCustomMsg = 1"
definition kPclPxyziMsg :: nat where "kPclPxyziMsg = 2"
definition kOutputToRos :: nat where "kOutputToRos = 0"

record CustomPoint =
  cp_offset_time :: "32 word"
  cp_x :: real
  cp_y :: real
  cp_z :: real
  cp_reflectivity :: byte
  cp_tag :: byte
  cp_line :: byte

record CustomMsg =
  cm_stamp :: "64 word"
  cm_timebase :: "64 word"
  cm_point_num :: "32 word"
  cm_lidar_id :: byte
  cm_points :: "CustomPoint list"

record LivoxPointXyzrtlt =
  lp_x :: real
  lp_y :: real
  lp_z :: real
  lp_reflectivity :: real
  lp_tag :: byte
  lp_line :: byte
  lp_timestamp :: real

record PointCloud2 =
  pc_stamp :: "64 word"
  pc_width :: "32 word"
  pc_point_step :: "32 word"
  pc_row_step :: "32 word"
  pc_data :: "LivoxPointXyzrtlt list"

datatype driver_out =
    SendDataType "32 word" byte
  | SendScanPattern "32 word" byte
  | SendBlindSpot "32 word" "32 word"
  | SendDualEmit "32 word" bool
  | SendAttitude "32 word" ExtParameter
  | SendWorkMode "32 word"
  | SendEnableImu "32 word"
  | NewPublisher string nat
  | PubCustom string CustomMsg
  | PubCloud string PointCloud2
  | PubImu string ImuData

definition set_device :: "nat \<Rightarrow> (LidarDevice \<Rightarrow> LidarDevice) \<Rightarrow> Lds \<Rightarrow> Lds" where
  "set_device i f s = s\<lparr>lidars := (lidars s)[i := f (lidars s ! i)]\<rparr>"

section \<open>Start\<close>

definition ResetLidar :: "LidarDevice \<Rightarrow> exn + LidarDevice" where
  "ResetLidar d = sbind (DeInitQueue (ld_data d)) (\<lambda>q. Inr (d\<lparr>ld_data := q, imu_data := [], connect_state := kConnectStateOff\<rparr>))"

definition ResetLds :: "Lds \<Rightarrow> exn + Lds" where
  "ResetLds s = sbind (smap ResetLidar (lidars s)) (\<lambda>ds. Inr (s\<lparr>lidars := ds\<rparr>))"

definition zero_config :: UserLivoxLidarConfig where
  "zero_config = \<lparr>cfg_handle = 0, pcl_data_type = 0, pattern_mode = 0, blind_spot_set = 0, dual_emit_en = 0, extrinsic_param = zero_extrinsics, set_bits = 0\<rparr>"

text \<open>The data source is a static object: its memory is zero before its constructor runs.\<close>

definition zero_device :: LidarDevice where
  "zero_device = \<lparr>lidar_type = 0, ld_handle = 0, connect_state = kConnectStateOff,
     ld_data = \<lparr>storage_packet = Null, rd_idx = 0, wr_idx = 0, mask_bits = 0, qsize = 0\<rparr>, imu_data = [], livox_config = zero_config\<rparr>"

definition Lds_ctor :: "real \<Rightarrow> nat \<Rightarrow> bool \<Rightarrow> nat \<Rightarrow> exn + Lds" where
  "Lds_ctor freq format multi_topic output =
     ResetLds \<lparr>lidars = replicate kMaxSourceLidar zero_device, cache_index = CacheIndex_ctor, pcd_semaphore = 0, imu_semaphore = 0,
       publish_freq = freq, request_exit = False, transfer_format = format, use_multi_topic = multi_topic, output_type = output,
       private_pub = (\<lambda>_. False), global_pub = False, private_imu_pub = (\<lambda>_. False), global_imu_pub = False\<rparr>"

text \<open>The parameters of the node bound the rate.\<close>

definition clamp_freq :: "real \<Rightarrow> real" where
  "clamp_freq f = (if f > 100 then 100 else if f < 0.5 then 0.5 else f)"

text \<open>Each configured lidar gets an index; its mounting goes to the point handler, in centimetres for packets of low resolution.\<close>

definition ext_of_config :: "UserLivoxLidarConfig \<Rightarrow> ExtParameter" where
  "ext_of_config c =
     (let e = extrinsic_param c; tenth = (\<lambda>w :: 32 word. word_of_int (c_trunc (real_of_int (sint w) / 10))) in
      if pcl_data_type c = kLivoxLidarCartesianCoordinateLowData
      then e\<lparr>tx := tenth (tx e), ty := tenth (ty e), tz := tenth (tz e)\<rparr> else e)"

fun InitLivoxLidar :: "UserLivoxLidarConfig list \<Rightarrow> Lds \<Rightarrow> PubHandler \<Rightarrow> Lds \<times> PubHandler" where
  "InitLivoxLidar [] s p = (s, p)"
| "InitLivoxLidar (c # cs) s p =
     (case GetFreeIndex kLivoxLidarType (unat (cfg_handle c)) (cache_index s) of
        (ci, None) \<Rightarrow> InitLivoxLidar cs (s\<lparr>cache_index := ci\<rparr>) p
      | (ci, Some i) \<Rightarrow>
          InitLivoxLidar cs
            (set_device i (\<lambda>d. d\<lparr>lidar_type := kLivoxLidarType, livox_config := c, ld_handle := cfg_handle c\<rparr>) (s\<lparr>cache_index := ci\<rparr>))
            (AddLidarsExtParam (cfg_handle c) (ext_of_config c) p))"

section \<open>Lidars and their answers\<close>

definition GetLidarDevice :: "32 word \<Rightarrow> Lds \<Rightarrow> nat option" where
  "GetLidarDevice handle s = GetIndex kLivoxLidarType (unat handle) (cache_index s)"

definition kConfigDataType :: "32 word" where "kConfigDataType = 1"
definition kConfigScanPattern :: "32 word" where "kConfigScanPattern = 2"
definition kConfigBlindSpot :: "32 word" where "kConfigBlindSpot = 4"
definition kConfigDualEmit :: "32 word" where "kConfigDualEmit = 8"

text \<open>The bits of the settings a configuration asks for, and the commands that set them.\<close>

definition wanted_bits :: "UserLivoxLidarConfig \<Rightarrow> 32 word" where
  "wanted_bits c = (if pcl_data_type c \<noteq> - 1 then kConfigDataType else 0) OR (if pattern_mode c \<noteq> - 1 then kConfigScanPattern else 0)
     OR (if blind_spot_set c \<noteq> - 1 then kConfigBlindSpot else 0) OR (if dual_emit_en c \<noteq> - 1 then kConfigDualEmit else 0)"

definition setting_commands :: "32 word \<Rightarrow> UserLivoxLidarConfig \<Rightarrow> driver_out list" where
  "setting_commands handle c =
     (if pcl_data_type c \<noteq> - 1 then [SendDataType handle (pcl_data_type c)] else [])
     @ (if pattern_mode c \<noteq> - 1 then [SendScanPattern handle (pattern_mode c)] else [])
     @ (if blind_spot_set c \<noteq> - 1 then [SendBlindSpot handle (blind_spot_set c)] else [])
     @ (if dual_emit_en c \<noteq> - 1 then [SendDualEmit handle (dual_emit_en c \<noteq> 0)] else [])"

definition LidarInfoChangeCallback :: "32 word \<Rightarrow> Lds \<Rightarrow> Lds \<times> driver_out list" where
  "LidarInfoChangeCallback handle s =
     (case GetLidarDevice handle s of
        None \<Rightarrow>
          (case GetFreeIndex kLivoxLidarType (unat handle) (cache_index s) of
             (ci, None) \<Rightarrow> (s\<lparr>cache_index := ci\<rparr>, [])
           | (ci, Some i) \<Rightarrow> (set_device i (\<lambda>d. d\<lparr>lidar_type := kLivoxLidarType\<rparr>) (s\<lparr>cache_index := ci\<rparr>),
               [SendWorkMode handle, SendEnableImu handle]))
      | Some i \<Rightarrow>
          (let c = livox_config (lidars s ! i) in
           (set_device i (\<lambda>d. d\<lparr>livox_config := c\<lparr>set_bits := set_bits c OR wanted_bits c\<rparr>\<rparr>) s,
            setting_commands handle c @ [SendAttitude (cfg_handle c) (extrinsic_param c), SendWorkMode handle, SendEnableImu handle])))"

definition WorkModeChangedCallback :: "livox_status \<Rightarrow> 32 word \<Rightarrow> driver_out list" where
  "WorkModeChangedCallback status handle = (if status \<noteq> kLivoxLidarStatusSuccess then [SendWorkMode handle] else [])"

text \<open>
  The answer to a setting: success clears its bit, and with the last bit the lidar is ready; after
  a timeout the command goes out again; any other status reads the response, which may be a null
  pointer.
\<close>

definition clear_bit :: "32 word \<Rightarrow> LidarDevice \<Rightarrow> LidarDevice" where
  "clear_bit b d =
     (let c = livox_config d; bits = set_bits c AND NOT b; d' = d\<lparr>livox_config := c\<lparr>set_bits := bits\<rparr>\<rparr> in
      if bits = 0 then d'\<lparr>connect_state := kConnectStateSampling\<rparr> else d')"

definition setting_answer :: "32 word \<Rightarrow> (UserLivoxLidarConfig \<Rightarrow> driver_out) \<Rightarrow> livox_status \<Rightarrow> 32 word \<Rightarrow> byte list option \<Rightarrow> Lds
    \<Rightarrow> exn + (Lds \<times> driver_out list)" where
  "setting_answer b again status handle response s =
     (case GetLidarDevice handle s of None \<Rightarrow> Inr (s, [])
      | Some i \<Rightarrow>
          if status = kLivoxLidarStatusSuccess then Inr (set_device i (clear_bit b) s, [])
          else if status = kLivoxLidarStatusTimeout then Inr (s, [again (livox_config (lidars s ! i))])
          else if response = None then Inl Null_pointer else Inr (s, []))"

definition SetDataTypeCallback :: "livox_status \<Rightarrow> 32 word \<Rightarrow> byte list option \<Rightarrow> Lds \<Rightarrow> exn + (Lds \<times> driver_out list)" where
  "SetDataTypeCallback status handle = setting_answer kConfigDataType (\<lambda>c. SendDataType handle (pcl_data_type c)) status handle"

definition SetPatternModeCallback :: "livox_status \<Rightarrow> 32 word \<Rightarrow> byte list option \<Rightarrow> Lds \<Rightarrow> exn + (Lds \<times> driver_out list)" where
  "SetPatternModeCallback status handle = setting_answer kConfigScanPattern (\<lambda>c. SendScanPattern handle (pattern_mode c)) status handle"

definition SetBlindSpotCallback :: "livox_status \<Rightarrow> 32 word \<Rightarrow> byte list option \<Rightarrow> Lds \<Rightarrow> exn + (Lds \<times> driver_out list)" where
  "SetBlindSpotCallback status handle = setting_answer kConfigBlindSpot (\<lambda>c. SendBlindSpot handle (blind_spot_set c)) status handle"

definition SetDualEmitCallback :: "livox_status \<Rightarrow> 32 word \<Rightarrow> byte list option \<Rightarrow> Lds \<Rightarrow> exn + (Lds \<times> driver_out list)" where
  "SetDualEmitCallback status handle = setting_answer kConfigDualEmit (\<lambda>c. SendDualEmit handle (dual_emit_en c \<noteq> 0)) status handle"

definition SetAttitudeCallback :: "livox_status \<Rightarrow> 32 word \<Rightarrow> Lds \<Rightarrow> driver_out list" where
  "SetAttitudeCallback status handle s =
     (case GetLidarDevice handle s of None \<Rightarrow> []
      | Some i \<Rightarrow> let c = livox_config (lidars s ! i) in
          if status = kLivoxLidarStatusTimeout then [SendAttitude (cfg_handle c) (extrinsic_param c)] else [])"

definition EnableLivoxLidarImuDataCallback :: "livox_status \<Rightarrow> 32 word \<Rightarrow> byte list option \<Rightarrow> Lds \<Rightarrow> driver_out list" where
  "EnableLivoxLidarImuDataCallback status handle response s =
     (case GetLidarDevice handle s of None \<Rightarrow> []
      | Some i \<Rightarrow> if response \<noteq> None \<and> status = kLivoxLidarStatusTimeout then [SendEnableImu handle] else [])"

section \<open>The store\<close>

definition signal :: "int \<Rightarrow> int" where
  "signal n = (if n \<le> 0 then n + 1 else n)"

text \<open>The semaphore is signalled when there is something to publish; a full queue has something too.\<close>

definition StoreLidarData :: "PointPacket \<Rightarrow> nat \<Rightarrow> 64 word \<Rightarrow> Lds \<Rightarrow> exn + Lds" where
  "StoreLidarData pk i t s =
     sbind (PushLidarData (publish_freq s) pk t (ld_data (lidars s ! i))) (\<lambda>q.
       Inr ((set_device i (\<lambda>d. d\<lparr>ld_data := q\<rparr>) s)\<lparr>pcd_semaphore :=
         (if QueueIsEmpty q then pcd_semaphore s else signal (pcd_semaphore s))\<rparr>))"

fun StoragePointData :: "(64 word \<times> 32 word \<times> PointXyzlt list) list \<Rightarrow> Lds \<Rightarrow> exn + Lds" where
  "StoragePointData [] s = Inr s"
| "StoragePointData ((t, handle, ps) # f) s =
     (case GetIndex kLivoxLidarType (unat handle) (cache_index s) of
        None \<Rightarrow> StoragePointData f s
      | Some i \<Rightarrow> sbind (StoreLidarData \<lparr>pk_points_num = of_nat (length ps), pk_points = ps\<rparr> i t s) (StoragePointData f))"

definition OnLidarPointCloudCb :: "(64 word \<times> 32 word \<times> PointXyzlt list) list \<Rightarrow> Lds \<Rightarrow> exn + Lds" where
  "OnLidarPointCloudCb f s = (if f = [] then Inr s else StoragePointData f s)"

definition StorageImuData :: "ImuData \<Rightarrow> Lds \<Rightarrow> Lds" where
  "StorageImuData m s =
     (case GetIndex kLivoxLidarType (unat (im_handle m)) (cache_index s) of
        None \<Rightarrow> s
      | Some i \<Rightarrow> (set_device i (\<lambda>d. d\<lparr>imu_data := imu_data d @ [m]\<rparr>) s)\<lparr>imu_semaphore := signal (imu_semaphore s)\<rparr>)"

section \<open>Publication\<close>

lemma cut_first: "x \<notin> set xs \<Longrightarrow> takeWhile (\<lambda>c. c \<noteq> x) (xs @ x # ys) = xs"
  "x \<notin> set xs \<Longrightarrow> dropWhile (\<lambda>c. c \<noteq> x) (xs @ x # ys) = x # ys"
  by (induction xs) auto

function ReplacePeriodByUnderline :: "string \<Rightarrow> string" where
  "ReplacePeriodByUnderline str =
     (if CHR ''.'' \<in> set str
      then ReplacePeriodByUnderline (takeWhile (\<lambda>c. c \<noteq> CHR ''.'') str @ CHR ''_'' # tl (dropWhile (\<lambda>c. c \<noteq> CHR ''.'') str))
      else str)"
  by pat_completeness auto
termination
proof (relation "measure (\<lambda>str. length (filter (\<lambda>c. c = CHR ''.'') str))")
  fix str :: string
  assume "CHR ''.'' \<in> set str"
  then obtain xs ys where s: "str = xs @ CHR ''.'' # ys" "CHR ''.'' \<notin> set xs" by (meson split_list_first)
  then have "takeWhile (\<lambda>c. c \<noteq> CHR ''.'') str = xs" "dropWhile (\<lambda>c. c \<noteq> CHR ''.'') str = CHR ''.'' # ys"
    by (simp_all add: cut_first)
  then show "(takeWhile (\<lambda>c. c \<noteq> CHR ''.'') str @ CHR ''_'' # tl (dropWhile (\<lambda>c. c \<noteq> CHR ''.'') str), str)
      \<in> measure (\<lambda>str. length (filter (\<lambda>c. c = CHR ''.'') str))"
    using s by simp
qed simp
declare ReplacePeriodByUnderline.simps [simp del]

definition IpNumToString :: "32 word \<Rightarrow> string" where
  "IpNumToString ip_num = dotted (le32b ip_num)"

definition kMinEthPacketQueueSize :: nat where
  "kMinEthPacketQueueSize = 32"

text \<open>The publisher of a lidar and its topic, made when it is first needed; the queue lengths of lidars and of all.\<close>

definition topic_name :: "string \<Rightarrow> nat \<Rightarrow> Lds \<Rightarrow> string" where
  "topic_name kind i s = ''livox/'' @ kind @
     (if use_multi_topic s then ''_'' @ ReplacePeriodByUnderline (IpNumToString (ld_handle (lidars s ! i))) else [])"

definition GetCurrentPublisher :: "nat \<Rightarrow> Lds \<Rightarrow> Lds \<times> driver_out list" where
  "GetCurrentPublisher i s =
     (if use_multi_topic s
      then if private_pub s i then (s, [])
           else (s\<lparr>private_pub := (private_pub s)(i := True)\<rparr>, [NewPublisher (topic_name ''lidar'' i s) (kMinEthPacketQueueSize * 2)])
      else if global_pub s then (s, [])
           else (s\<lparr>global_pub := True\<rparr>, [NewPublisher (topic_name ''lidar'' i s) (kMinEthPacketQueueSize * 8)]))"

definition GetCurrentImuPublisher :: "nat \<Rightarrow> Lds \<Rightarrow> Lds \<times> driver_out list" where
  "GetCurrentImuPublisher i s =
     (if use_multi_topic s
      then if private_imu_pub s i then (s, [])
           else (s\<lparr>private_imu_pub := (private_imu_pub s)(i := True)\<rparr>, [NewPublisher (topic_name ''imu'' i s) (kMinEthPacketQueueSize * 2)])
      else if global_imu_pub s then (s, [])
           else (s\<lparr>global_imu_pub := True\<rparr>, [NewPublisher (topic_name ''imu'' i s) (kMinEthPacketQueueSize * 8)]))"

text \<open>A packet as a message: the fields of the message, then its points, each with its time after that of the packet.\<close>

definition FillPointsToCustomMsg :: "StoragePacket \<Rightarrow> exn + CustomPoint list" where
  "FillPointsToCustomMsg pkg = smap (\<lambda>i. sbind (idx (points pkg) (int i)) (\<lambda>p. Inr
     \<lparr>cp_offset_time = ucast (pt_offset_time p - base_time pkg), cp_x = pt_x p, cp_y = pt_y p, cp_z = pt_z p,
      cp_reflectivity = word_of_int (c_trunc (pt_intensity p)), cp_tag = pt_tag p, cp_line = pt_line p\<rparr>)) [0..<unat (points_num pkg)]"

definition InitCustomMsg :: "StoragePacket \<Rightarrow> nat \<Rightarrow> Lds \<Rightarrow> CustomMsg" where
  "InitCustomMsg pkg i s =
     (let timestamp = (if points pkg \<noteq> [] then base_time pkg else 0) in
      \<lparr>cm_stamp = timestamp, cm_timebase = timestamp, cm_point_num = points_num pkg,
       cm_lidar_id = (if lidar_type (lidars s ! i) = kLivoxLidarType then ucast (ld_handle (lidars s ! i)) else 0), cm_points = []\<rparr>)"

definition InitPointcloud2Msg :: "StoragePacket \<Rightarrow> exn + PointCloud2" where
  "InitPointcloud2Msg pkg =
     sbind (smap (\<lambda>i. sbind (idx (points pkg) (int i)) (\<lambda>p. Inr
       \<lparr>lp_x = pt_x p, lp_y = pt_y p, lp_z = pt_z p, lp_reflectivity = pt_intensity p, lp_tag = pt_tag p, lp_line = pt_line p,
        lp_timestamp = real (unat (pt_offset_time p))\<rparr>)) [0..<unat (points_num pkg)])
     (\<lambda>d. Inr \<lparr>pc_stamp = (if points pkg \<noteq> [] then base_time pkg else 0), pc_width = points_num pkg, pc_point_step = 26,
        pc_row_step = points_num pkg * 26, pc_data = d\<rparr>)"

definition PublishPacket :: "nat \<Rightarrow> StoragePacket \<Rightarrow> Lds \<Rightarrow> exn + (Lds \<times> driver_out list)" where
  "PublishPacket i pkg s =
     (let (s', os) = GetCurrentPublisher i s; topic = topic_name ''lidar'' i s in
      if transfer_format s = kPointCloud2Msg
      then sbind (InitPointcloud2Msg pkg) (\<lambda>m. Inr (s', os @ (if output_type s = kOutputToRos then [PubCloud topic m] else [])))
      else sbind (FillPointsToCustomMsg pkg) (\<lambda>ps. Inr (s', os @ (if output_type s = kOutputToRos
             then [PubCustom topic ((InitCustomMsg pkg i s)\<lparr>cm_points := ps\<rparr>)] else []))))"

fun PublishPackets :: "nat \<Rightarrow> StoragePacket list \<Rightarrow> Lds \<Rightarrow> exn + (Lds \<times> driver_out list)" where
  "PublishPackets i [] s = Inr (s, [])"
| "PublishPackets i (p # ps) s = sbind (PublishPacket i p s) (\<lambda>(s', os). sbind (PublishPackets i ps s') (\<lambda>(s'', os'). Inr (s'', os @ os')))"

text \<open>
  The loop that empties the queue of a lidar.  A message type that is not supported leaves the
  queue as it is, and the loop goes on for ever: no fuel is enough.
\<close>

fun PollingLidarPointCloudData :: "nat \<Rightarrow> nat \<Rightarrow> Lds \<Rightarrow> (Lds \<times> driver_out list) run" where
  "PollingLidarPointCloudData 0 i s = None"
| "PollingLidarPointCloudData (Suc n) i s =
     (let q = ld_data (lidars s ! i) in
      if storage_packet q = Null \<or> request_exit s \<or> QueueIsEmpty q then Some (Inr (s, []))
      else if transfer_format s = kPointCloud2Msg \<or> transfer_format s = kLivoxCustomMsg
      then rbind (publish_loop n q) (\<lambda>(q', ps).
           rbind (Some (PublishPackets i ps (set_device i (\<lambda>d. d\<lparr>ld_data := q'\<rparr>) s))) (\<lambda>(s', os).
           rbind (PollingLidarPointCloudData n i s') (\<lambda>(s'', os'). Some (Inr (s'', os @ os')))))
      else PollingLidarPointCloudData n i s)"

fun poll_lidars :: "nat \<Rightarrow> nat list \<Rightarrow> Lds \<Rightarrow> (Lds \<times> driver_out list) run" where
  "poll_lidars n [] s = Some (Inr (s, []))"
| "poll_lidars n (i # is) s =
     rbind (if connect_state (lidars s ! i) = kConnectStateSampling then PollingLidarPointCloudData n i s else Some (Inr (s, [])))
       (\<lambda>(s', os). rbind (poll_lidars n is s') (\<lambda>(s'', os'). Some (Inr (s'', os @ os'))))"

text \<open>One round of the thread; while the semaphore is not signalled it waits.\<close>

definition DistributePointCloudData :: "nat \<Rightarrow> Lds \<Rightarrow> (Lds \<times> driver_out list) run" where
  "DistributePointCloudData n s =
     (if request_exit s \<or> pcd_semaphore s \<le> 0 then Some (Inr (s, []))
      else poll_lidars n [0..<kMaxSourceLidar] (s\<lparr>pcd_semaphore := pcd_semaphore s - 1\<rparr>))"

definition PublishImuData :: "nat \<Rightarrow> ImuData \<Rightarrow> Lds \<Rightarrow> Lds \<times> driver_out list" where
  "PublishImuData i m s =
     (let (s', os) = GetCurrentImuPublisher i s in (s', os @ (if output_type s = kOutputToRos then [PubImu (topic_name ''imu'' i s) m] else [])))"

fun publish_imus :: "nat \<Rightarrow> ImuData list \<Rightarrow> Lds \<Rightarrow> Lds \<times> driver_out list" where
  "publish_imus i [] s = (set_device i (\<lambda>d. d\<lparr>imu_data := []\<rparr>) s, [])"
| "publish_imus i (m # ms) s = (let (s', os) = PublishImuData i m s; (s'', os') = publish_imus i ms s' in (s'', os @ os'))"

definition PollingLidarImuData :: "nat \<Rightarrow> Lds \<Rightarrow> Lds \<times> driver_out list" where
  "PollingLidarImuData i s = (if request_exit s then (s, []) else publish_imus i (imu_data (lidars s ! i)) s)"

fun poll_imus :: "nat list \<Rightarrow> Lds \<Rightarrow> Lds \<times> driver_out list" where
  "poll_imus [] s = (s, [])"
| "poll_imus (i # is) s =
     (let (s', os) = (if connect_state (lidars s ! i) = kConnectStateSampling then PollingLidarImuData i s else (s, []));
          (s'', os') = poll_imus is s' in (s'', os @ os'))"

definition DistributeImuData :: "Lds \<Rightarrow> Lds \<times> driver_out list" where
  "DistributeImuData s =
     (if request_exit s \<or> imu_semaphore s \<le> 0 then (s, []) else poll_imus [0..<kMaxSourceLidar] (s\<lparr>imu_semaphore := imu_semaphore s - 1\<rparr>))"

section \<open>Names\<close>

lemma underline_is_map: "ReplacePeriodByUnderline str = map (\<lambda>c. if c = CHR ''.'' then CHR ''_'' else c) str"
proof (induction str rule: ReplacePeriodByUnderline.induct)
  case (1 str)
  show ?case
  proof (cases "CHR ''.'' \<in> set str")
    case True
    then obtain xs ys where s: "str = xs @ CHR ''.'' # ys" "CHR ''.'' \<notin> set xs" by (meson split_list_first)
    then have t: "takeWhile (\<lambda>c. c \<noteq> CHR ''.'') str = xs" "dropWhile (\<lambda>c. c \<noteq> CHR ''.'') str = CHR ''.'' # ys"
      by (simp_all add: cut_first)
    then have "ReplacePeriodByUnderline str = ReplacePeriodByUnderline (xs @ CHR ''_'' # ys)"
      using True by (subst ReplacePeriodByUnderline.simps) simp
    also have "\<dots> = map (\<lambda>c. if c = CHR ''.'' then CHR ''_'' else c) str" using 1 [OF True] s t by simp
    finally show ?thesis .
  next
    case False
    then have "ReplacePeriodByUnderline str = str" by (subst ReplacePeriodByUnderline.simps) simp
    moreover have "map (\<lambda>c. if c = CHR ''.'' then CHR ''_'' else c) str = str" using False by (intro map_idI) auto
    ultimately show ?thesis by simp
  qed
qed

section \<open>Getting a lidar to stream\<close>

datatype Setting = DataType | ScanPattern | BlindSpot | DualEmit

fun setting_bit :: "Setting \<Rightarrow> 32 word" where
  "setting_bit DataType = kConfigDataType"
| "setting_bit ScanPattern = kConfigScanPattern"
| "setting_bit BlindSpot = kConfigBlindSpot"
| "setting_bit DualEmit = kConfigDualEmit"

fun wants :: "UserLivoxLidarConfig \<Rightarrow> Setting \<Rightarrow> bool" where
  "wants c DataType = (pcl_data_type c \<noteq> - 1)"
| "wants c ScanPattern = (pattern_mode c \<noteq> - 1)"
| "wants c BlindSpot = (blind_spot_set c \<noteq> - 1)"
| "wants c DualEmit = (dual_emit_en c \<noteq> - 1)"

fun SettingCallback :: "Setting \<Rightarrow> livox_status \<Rightarrow> 32 word \<Rightarrow> byte list option \<Rightarrow> Lds \<Rightarrow> exn + (Lds \<times> driver_out list)" where
  "SettingCallback DataType = SetDataTypeCallback"
| "SettingCallback ScanPattern = SetPatternModeCallback"
| "SettingCallback BlindSpot = SetBlindSpotCallback"
| "SettingCallback DualEmit = SetDualEmitCallback"

text \<open>The events of the configuration.\<close>

datatype config_event = InfoChanged "32 word" | Answered Setting livox_status "32 word" "byte list option" | WorkMode livox_status "32 word"

fun config_step :: "(Lds, config_event, driver_out) handler" where
  "config_step s (InfoChanged handle) = Inr (LidarInfoChangeCallback handle s)"
| "config_step s (Answered st status handle r) = SettingCallback st status handle r s"
| "config_step s (WorkMode status handle) = Inr (s, WorkModeChangedCallback status handle)"

definition answered_bits :: "Setting set \<Rightarrow> 32 word" where
  "answered_bits S = (if DataType \<in> S then 1 else 0) OR (if ScanPattern \<in> S then 2 else 0) OR (if BlindSpot \<in> S then 4 else 0)
     OR (if DualEmit \<in> S then 8 else 0)"

lemma answered_insert: "answered_bits (insert st S) = answered_bits S OR setting_bit st"
  by (cases st) (simp_all add: answered_bits_def kConfigDataType_def kConfigScanPattern_def kConfigBlindSpot_def kConfigDualEmit_def
      or.assoc or.commute or.left_commute)

lemma all_answered: "wanted_bits c AND NOT (answered_bits S) = 0 \<longleftrightarrow> (\<forall>st. wants c st \<longrightarrow> st \<in> S)"
proof -
  have s: "(\<forall>st. P st) \<longleftrightarrow> P DataType \<and> P ScanPattern \<and> P BlindSpot \<and> P DualEmit" for P
    by (metis Setting.exhaust)
  show ?thesis
    unfolding s wanted_bits_def answered_bits_def kConfigDataType_def kConfigScanPattern_def kConfigBlindSpot_def kConfigDualEmit_def
    by (cases "DataType \<in> S"; cases "ScanPattern \<in> S"; cases "BlindSpot \<in> S"; cases "DualEmit \<in> S") simp_all
qed

lemma set_device_at [simp]: "i < length (lidars s) \<Longrightarrow> lidars (set_device i f s) ! i = f (lidars s ! i)"
  "j \<noteq> i \<Longrightarrow> lidars (set_device i f s) ! j = lidars s ! j" "length (lidars (set_device i f s)) = length (lidars s)"
  "cache_index (set_device i f s) = cache_index s"
  by (simp_all add: set_device_def)

lemma GetLidarDevice_set [simp]: "GetLidarDevice h (set_device i f s) = GetLidarDevice h s"
  by (simp add: GetLidarDevice_def)

text \<open>The settings the lidar has confirmed.\<close>

definition confirmed :: "config_event list \<Rightarrow> Setting set" where
  "confirmed es = {st. \<exists>h r. Answered st kLivoxLidarStatusSuccess h r \<in> set es}"

definition config_ok :: "32 word \<Rightarrow> config_event \<Rightarrow> bool" where
  "config_ok h e = (case e of InfoChanged h' \<Rightarrow> False | WorkMode st h' \<Rightarrow> True
     | Answered st status h' r \<Rightarrow> h' = h \<and> (status = kLivoxLidarStatusSuccess \<or> status = kLivoxLidarStatusTimeout \<or> r \<noteq> None))"

lemma confirmed_Cons: "confirmed (e # es) = (case e of Answered st status h r \<Rightarrow>
    if status = kLivoxLidarStatusSuccess then insert st (confirmed es) else confirmed es | _ \<Rightarrow> confirmed es)"
  by (auto simp: confirmed_def split: config_event.splits)

lemma setting_success: "GetLidarDevice h s = Some i \<Longrightarrow>
    SettingCallback st kLivoxLidarStatusSuccess h r s = Inr (set_device i (clear_bit (setting_bit st)) s, [])"
  by (cases st) (simp_all add: SetDataTypeCallback_def SetPatternModeCallback_def SetBlindSpotCallback_def SetDualEmitCallback_def
      setting_answer_def)

lemma setting_other: "status \<noteq> kLivoxLidarStatusSuccess \<Longrightarrow> status = kLivoxLidarStatusTimeout \<or> r \<noteq> None
    \<Longrightarrow> \<exists>os. SettingCallback st status h r s = Inr (s, os)"
  by (cases st) (auto simp: SetDataTypeCallback_def SetPatternModeCallback_def SetBlindSpotCallback_def SetDualEmitCallback_def
      setting_answer_def split: option.splits)

lemma answers_run:
  assumes "GetLidarDevice h s = Some i" and "i < length (lidars s)" and "list_all (config_ok h) es"
    and "set_bits (livox_config (lidars s ! i)) = W AND NOT (answered_bits S)"
    and "connect_state (lidars s ! i) = kConnectStateSampling \<longleftrightarrow> S \<noteq> {} \<and> W AND NOT (answered_bits S) = 0"
  shows "\<exists>s' os. run_handlers config_step s es = Inr (s', os)
    \<and> (connect_state (lidars s' ! i) = kConnectStateSampling
        \<longleftrightarrow> S \<union> confirmed es \<noteq> {} \<and> W AND NOT (answered_bits (S \<union> confirmed es)) = 0)"
  using assms
proof (induction es arbitrary: s S)
  case Nil
  then show ?case by (simp add: confirmed_def)
next
  case (Cons e es)
  have ok: "list_all (config_ok h) es" using Cons.prems(3) by simp
  show ?case
  proof (cases e)
    case (InfoChanged h')
    then show ?thesis using Cons.prems(3) by (simp add: config_ok_def)
  next
    case (WorkMode st h')
    then show ?thesis using Cons.IH [OF Cons.prems(1,2) ok Cons.prems(4,5)] by (auto simp: confirmed_Cons)
  next
    case (Answered st status h' r)
    then have e: "h' = h" "status = kLivoxLidarStatusSuccess \<or> status = kLivoxLidarStatusTimeout \<or> r \<noteq> None"
      using Cons.prems(3) by (simp_all add: config_ok_def)
    show ?thesis
    proof (cases "status = kLivoxLidarStatusSuccess")
      case True
      let ?s = "set_device i (clear_bit (setting_bit st)) s" and ?S = "insert st S"
      have b: "W AND NOT (answered_bits ?S) = (W AND NOT (answered_bits S)) AND NOT (setting_bit st)"
        by (simp add: answered_insert ac_simps)
      have "set_bits (livox_config (lidars ?s ! i)) = W AND NOT (answered_bits ?S)"
        unfolding b using Cons.prems(2,4) by (simp add: clear_bit_def Let_def)
      moreover have "connect_state (lidars ?s ! i) = kConnectStateSampling \<longleftrightarrow> ?S \<noteq> {} \<and> W AND NOT (answered_bits ?S) = 0"
        using Cons.prems(2,4,5) b by (auto simp: clear_bit_def Let_def)
      moreover have "S \<union> confirmed (e # es) = ?S \<union> confirmed es"
        unfolding confirmed_Cons Answered using True by simp
      ultimately show ?thesis
        using Cons.IH [of ?s ?S] Cons.prems(1,2) ok setting_success [OF Cons.prems(1)] Answered e(1) True by auto
    next
      case False
      then obtain o1 where "config_step s e = Inr (s, o1)" using setting_other [OF False] e Answered by fastforce
      moreover have "confirmed (e # es) = confirmed es" using False Answered by (simp add: confirmed_Cons)
      ultimately show ?thesis using Cons.IH [OF Cons.prems(1,2) ok Cons.prems(4,5)] by auto
    qed
  qed
qed

text \<open>
  C20.  When a configured lidar reports itself, the driver asks it for the settings of its
  configuration, and then, in whatever order and however often the answers come, publishes its
  points exactly when it has confirmed every setting the configuration asks for, and at least one;
  a lidar whose configuration asks for none stays silent.
\<close>

theorem lidar_streams_when_configured:
  assumes "GetLidarDevice h s = Some i" and "i < length (lidars s)" and "connect_state (lidars s ! i) = kConnectStateOff"
    and "set_bits (livox_config (lidars s ! i)) = 0" and "list_all (config_ok h) es"
  shows "\<exists>s' os. run_handlers config_step s (InfoChanged h # es) = Inr (s', os)
    \<and> (connect_state (lidars s' ! i) = kConnectStateSampling
        \<longleftrightarrow> confirmed es \<noteq> {} \<and> (\<forall>st. wants (livox_config (lidars s ! i)) st \<longrightarrow> st \<in> confirmed es))"
proof -
  let ?c = "livox_config (lidars s ! i)"
  let ?s = "set_device i (\<lambda>d. d\<lparr>livox_config := ?c\<lparr>set_bits := set_bits ?c OR wanted_bits ?c\<rparr>\<rparr>) s"
  have "set_bits (livox_config (lidars ?s ! i)) = wanted_bits ?c AND NOT (answered_bits {})"
    using assms(2,4) by (simp add: answered_bits_def)
  then obtain s' os where "run_handlers config_step ?s es = Inr (s', os)"
    "connect_state (lidars s' ! i) = kConnectStateSampling
        \<longleftrightarrow> {} \<union> confirmed es \<noteq> {} \<and> wanted_bits ?c AND NOT (answered_bits ({} \<union> confirmed es)) = 0"
    using answers_run [of h ?s i es "wanted_bits ?c" "{}"] assms by auto
  then show ?thesis using assms(1) all_answered by (simp add: LidarInfoChangeCallback_def Let_def)
qed

section \<open>Publishing what is stored\<close>

text \<open>A queue in use, or one that was never used; and the packets with points it holds.\<close>

definition queue_ok :: "LidarDataQueue \<Rightarrow> bool" where
  "queue_ok q \<longleftrightarrow> ring_inv q \<or> storage_packet q = Null \<and> rd_idx q = wr_idx q"

definition queued :: "LidarDataQueue \<Rightarrow> StoragePacket list" where
  "queued q = (if storage_packet q = Null then [] else filter (\<lambda>p. points p \<noteq> []) (ring_abs q))"

definition lds_inv :: "Lds \<Rightarrow> bool" where
  "lds_inv s \<longleftrightarrow> length (lidars s) = kMaxSourceLidar \<and> (\<forall>d \<in> set (lidars s). queue_ok (ld_data d))"

definition custom_point :: "64 word \<Rightarrow> PointXyzlt \<Rightarrow> CustomPoint" where
  "custom_point t p = \<lparr>cp_offset_time = ucast (pt_offset_time p - t), cp_x = pt_x p, cp_y = pt_y p, cp_z = pt_z p,
     cp_reflectivity = word_of_int (c_trunc (pt_intensity p)), cp_tag = pt_tag p, cp_line = pt_line p\<rparr>"

definition custom_msg :: "LidarDevice \<Rightarrow> StoragePacket \<Rightarrow> CustomMsg" where
  "custom_msg d pkg = \<lparr>cm_stamp = base_time pkg, cm_timebase = base_time pkg, cm_point_num = points_num pkg,
     cm_lidar_id = (if lidar_type d = kLivoxLidarType then ucast (ld_handle d) else 0), cm_points = map (custom_point (base_time pkg)) (points pkg)\<rparr>"

text \<open>The messages among the outputs, with their topics.\<close>

fun custom_of :: "driver_out \<Rightarrow> (string \<times> CustomMsg) list" where
  "custom_of (PubCustom topic m) = [(topic, m)]"
| "custom_of _ = []"

abbreviation messages :: "driver_out list \<Rightarrow> (string \<times> CustomMsg) list" where
  "messages os \<equiv> concat (map custom_of os)"

lemma fill_points: "counted pkg \<Longrightarrow> FillPointsToCustomMsg pkg = Inr (map (custom_point (base_time pkg)) (points pkg))"
  unfolding FillPointsToCustomMsg_def counted_def
  by (subst smap_Inr [where g = "\<lambda>i. custom_point (base_time pkg) (points pkg ! i)"])
    (auto simp: custom_point_def intro: nth_equalityI)

lemma publisher_made: "\<exists>pp gp o1. GetCurrentPublisher i s = (s\<lparr>private_pub := pp, global_pub := gp\<rparr>, o1) \<and> messages o1 = []"
proof -
  have [simp]: "s\<lparr>private_pub := private_pub s, global_pub := global_pub s\<rparr> = s"
    "s\<lparr>private_pub := pp, global_pub := global_pub s\<rparr> = s\<lparr>private_pub := pp\<rparr>"
    "s\<lparr>private_pub := private_pub s, global_pub := gp\<rparr> = s\<lparr>global_pub := gp\<rparr>" for pp gp by simp_all
  show ?thesis
    unfolding GetCurrentPublisher_def
    by (intro exI [of _ "if use_multi_topic s then (private_pub s)(i := True) else private_pub s"]
          exI [of _ "if use_multi_topic s then global_pub s else True"]) (auto simp: fun_upd_idem)
qed

definition custom_mode :: "Lds \<Rightarrow> bool" where
  "custom_mode s \<longleftrightarrow> transfer_format s = kLivoxCustomMsg \<and> output_type s = kOutputToRos \<and> \<not> request_exit s"

lemma publish_packets:
  assumes "custom_mode s" and "\<forall>p \<in> set ps. counted p \<and> points p \<noteq> []"
  shows "\<exists>pp gp os. PublishPackets i ps s = Inr (s\<lparr>private_pub := pp, global_pub := gp\<rparr>, os)
    \<and> messages os = map (\<lambda>p. (topic_name ''lidar'' i s, custom_msg (lidars s ! i) p)) ps"
  using assms
proof (induction ps arbitrary: s)
  case Nil
  have "s = s\<lparr>private_pub := private_pub s, global_pub := global_pub s\<rparr>" by simp
  then show ?case by (metis PublishPackets.simps(1) concat.simps(1) list.simps(8))
next
  case (Cons p ps)
  obtain pp gp o1 where g: "GetCurrentPublisher i s = (s\<lparr>private_pub := pp, global_pub := gp\<rparr>, o1)" "messages o1 = []"
    using publisher_made by blast
  let ?s = "s\<lparr>private_pub := pp, global_pub := gp\<rparr>"
  have p: "counted p" "points p \<noteq> []" using Cons.prems(2) by simp_all
  have "PublishPacket i p s = Inr (?s, o1 @ [PubCustom (topic_name ''lidar'' i s) (custom_msg (lidars s ! i) p)])"
    using Cons.prems(1) g(1) p
    by (simp add: PublishPacket_def custom_mode_def kLivoxCustomMsg_def kPointCloud2Msg_def fill_points InitCustomMsg_def custom_msg_def Let_def)
  moreover have "custom_mode ?s" "topic_name ''lidar'' i ?s = topic_name ''lidar'' i s" "lidars ?s = lidars s"
    using Cons.prems(1) by (simp_all add: custom_mode_def topic_name_def)
  moreover obtain pp' gp' os where "PublishPackets i ps ?s = Inr (?s\<lparr>private_pub := pp', global_pub := gp'\<rparr>, os)"
    "messages os = map (\<lambda>p. (topic_name ''lidar'' i ?s, custom_msg (lidars ?s ! i) p)) ps"
    using Cons.IH [of ?s] calculation(2) Cons.prems(2) by auto
  ultimately show ?case using g(2) by auto
qed

lemma ring_counted: "ring_inv q \<Longrightarrow> p \<in> set (ring_abs q) \<Longrightarrow> counted p"
  by (erule ring_unpack) (auto simp: ring_list_def)

lemma ring_slots: "ring_inv q \<Longrightarrow> storage_packet q \<noteq> Null"
  by (auto simp: ring_inv_def)

lemma empty_ring: "ring_inv q \<Longrightarrow> QueueIsEmpty q \<Longrightarrow> ring_abs q = []"
  by (erule ring_unpack) (simp add: QueueIsEmpty_def ring_list_def)

lemma queue_empty: "queue_ok q \<Longrightarrow> storage_packet q = Null \<or> QueueIsEmpty q \<Longrightarrow> ring_abs q = []"
  using ring_slots empty_ring by (auto simp: queue_ok_def ring_abs_def ring_list_def QueueIsEmpty_def)

text \<open>What is left of a device whose queue has been published.\<close>

definition drained :: "LidarDevice \<Rightarrow> LidarDevice \<Rightarrow> bool" where
  "drained d d' \<longleftrightarrow> (\<exists>q. d' = d\<lparr>ld_data := q\<rparr> \<and> queue_ok q \<and> ring_abs q = [])"

lemma polling_one:
  assumes "custom_mode s" and "i < length (lidars s)" and "queue_ok (ld_data (lidars s ! i))"
    and "length (ring_abs (ld_data (lidars s ! i))) + 2 \<le> n"
  shows "\<exists>d pp gp os. PollingLidarPointCloudData n i s = Some (Inr (s\<lparr>lidars := (lidars s)[i := d], private_pub := pp, global_pub := gp\<rparr>, os))
    \<and> drained (lidars s ! i) d
    \<and> messages os = map (\<lambda>p. (topic_name ''lidar'' i s, custom_msg (lidars s ! i) p)) (queued (ld_data (lidars s ! i)))"
proof -
  let ?d = "lidars s ! i" and ?q = "ld_data (lidars s ! i)"
  obtain m where n: "n = Suc m" "length (ring_abs ?q) + 1 \<le> m" using assms(4) by (cases n) auto
  have same: "s = s\<lparr>lidars := (lidars s)[i := ?d], private_pub := private_pub s, global_pub := global_pub s\<rparr>"
    by (simp add: list_update_id)
  show ?thesis
  proof (cases "storage_packet ?q = Null \<or> QueueIsEmpty ?q")
    case True
    then have r: "ring_abs ?q = []" using queue_empty [OF assms(3)] by blast
    then have q: "queued ?q = []" by (simp add: queued_def)
    have "?d = ?d\<lparr>ld_data := ?q\<rparr>" by simp
    then have "drained ?d ?d" using assms(3) r unfolding drained_def by blast
    moreover have "PollingLidarPointCloudData n i s = Some (Inr (s, []))" using True n(1) by (auto simp: Let_def)
    ultimately show ?thesis using same q by (metis concat.simps(1) list.simps(8))
  next
    case False
    then have r: "ring_inv ?q" using assms(3) by (simp add: queue_ok_def)
    obtain q' where q': "publish_loop m ?q = Some (Inr (q', filter (\<lambda>p. points p \<noteq> []) (ring_abs ?q)))" "ring_inv q'" "QueueIsEmpty q'"
      using publish_drains [OF r, of m] n(2) by auto
    let ?ps = "filter (\<lambda>p. points p \<noteq> []) (ring_abs ?q)" and ?s = "set_device i (\<lambda>d. d\<lparr>ld_data := q'\<rparr>) s"
    have s: "custom_mode ?s" "topic_name ''lidar'' i ?s = topic_name ''lidar'' i s" "lidars ?s ! i = ?d\<lparr>ld_data := q'\<rparr>"
      using assms(1,2) by (simp_all add: custom_mode_def topic_name_def set_device_def)
    obtain pp gp os where p: "PublishPackets i ?ps ?s = Inr (?s\<lparr>private_pub := pp, global_pub := gp\<rparr>, os)"
      "messages os = map (\<lambda>p. (topic_name ''lidar'' i ?s, custom_msg (lidars ?s ! i) p)) ?ps"
      using publish_packets [OF s(1), of ?ps i] ring_counted [OF r] by auto
    let ?s' = "?s\<lparr>private_pub := pp, global_pub := gp\<rparr>"
    obtain k where "m = Suc k" using n(2) by (cases m) auto
    then have "PollingLidarPointCloudData m i ?s' = Some (Inr (?s', []))" using s(3) q'(3) by (simp add: Let_def)
    then have "PollingLidarPointCloudData n i s = Some (Inr (?s', os))"
      using False n(1) q'(1) p(1) assms(1) by (simp add: custom_mode_def Let_def)
    moreover have "?s' = s\<lparr>lidars := (lidars s)[i := ?d\<lparr>ld_data := q'\<rparr>], private_pub := pp, global_pub := gp\<rparr>"
      by (simp add: set_device_def)
    moreover have "drained ?d (?d\<lparr>ld_data := q'\<rparr>)"
      using q'(2,3) empty_ring unfolding drained_def by (intro exI [of _ q']) (simp add: queue_ok_def)
    moreover have "messages os = map (\<lambda>p. (topic_name ''lidar'' i s, custom_msg ?d p)) (queued ?q)"
      using p(2) s(2,3) False by (simp add: queued_def custom_msg_def)
    ultimately show ?thesis by metis
  qed
qed

text \<open>The messages lidar \<open>i\<close> has ready.\<close>

definition ready :: "Lds \<Rightarrow> nat \<Rightarrow> (string \<times> CustomMsg) list" where
  "ready s i = (if connect_state (lidars s ! i) = kConnectStateSampling
     then map (\<lambda>p. (topic_name ''lidar'' i s, custom_msg (lidars s ! i) p)) (queued (ld_data (lidars s ! i))) else [])"

definition room_ok :: "nat \<Rightarrow> Lds \<Rightarrow> bool" where
  "room_ok n s \<longleftrightarrow> (\<forall>d \<in> set (lidars s). length (ring_abs (ld_data d)) + 2 \<le> n)"

lemma poll_lidars_sends:
  assumes "custom_mode s" and "lds_inv s" and "room_ok n s" and "distinct is" and "\<forall>i \<in> set is. i < kMaxSourceLidar"
  shows "\<exists>s' os. poll_lidars n is s = Some (Inr (s', os)) \<and> messages os = concat (map (ready s) is)
    \<and> length (lidars s') = kMaxSourceLidar
    \<and> (\<forall>i<kMaxSourceLidar. if i \<in> set is \<and> connect_state (lidars s ! i) = kConnectStateSampling then drained (lidars s ! i) (lidars s' ! i)
         else lidars s' ! i = lidars s ! i)"
  using assms
proof (induction "is" arbitrary: s)
  case Nil
  then show ?case by (simp add: lds_inv_def)
next
  case (Cons i "is")
  have i: "i < length (lidars s)" and d: "queue_ok (ld_data (lidars s ! i))" "length (ring_abs (ld_data (lidars s ! i))) + 2 \<le> n"
    using Cons.prems(2,3,5) by (auto simp: lds_inv_def room_ok_def)
  show ?case
  proof (cases "connect_state (lidars s ! i) = kConnectStateSampling")
    case False
    then show ?thesis
      using Cons.IH [OF Cons.prems(1-3)] Cons.prems(4,5) by (auto simp: ready_def)
  next
    case True
    obtain d1 pp gp o1 where p: "PollingLidarPointCloudData n i s = Some (Inr (s\<lparr>lidars := (lidars s)[i := d1], private_pub := pp, global_pub := gp\<rparr>, o1))"
      "drained (lidars s ! i) d1" "messages o1 = ready s i"
      using polling_one [OF Cons.prems(1) i d] True by (auto simp: ready_def)
    let ?s = "s\<lparr>lidars := (lidars s)[i := d1], private_pub := pp, global_pub := gp\<rparr>"
    have q: "queue_ok (ld_data d1)" "length (ring_abs (ld_data d1)) + 2 \<le> n"
      using p(2) d by (auto simp: drained_def)
    have same: "ready ?s j = ready s j" if "j \<noteq> i" for j
      using that i by (simp add: ready_def topic_name_def)
    have "custom_mode ?s" using Cons.prems(1) by (simp add: custom_mode_def)
    moreover have "lds_inv ?s" using Cons.prems(2) q(1) set_update_subset_insert by (fastforce simp: lds_inv_def)
    moreover have "room_ok n ?s" using Cons.prems(3) q(2) set_update_subset_insert by (fastforce simp: room_ok_def)
    ultimately obtain s2 o2 where r: "poll_lidars n is ?s = Some (Inr (s2, o2))" "messages o2 = concat (map (ready ?s) is)"
      "length (lidars s2) = kMaxSourceLidar"
      "\<forall>j<kMaxSourceLidar. if j \<in> set is \<and> connect_state (lidars ?s ! j) = kConnectStateSampling then drained (lidars ?s ! j) (lidars s2 ! j)
         else lidars s2 ! j = lidars ?s ! j"
      using Cons.IH [of ?s] Cons.prems(4,5) by auto
    have eq: "map (ready ?s) is = map (ready s) is" using Cons.prems(4) by (intro map_cong refl same) auto
    then have "messages (o1 @ o2) = concat (map (ready s) (i # is))"
      by (simp only: map_append concat_append p(3) r(2) eq list.map concat.simps)
    moreover have "\<forall>j<kMaxSourceLidar. if j \<in> set (i # is) \<and> connect_state (lidars s ! j) = kConnectStateSampling
        then drained (lidars s ! j) (lidars s2 ! j) else lidars s2 ! j = lidars s ! j"
    proof (intro allI impI)
      fix j assume "j < kMaxSourceLidar"
      then show "if j \<in> set (i # is) \<and> connect_state (lidars s ! j) = kConnectStateSampling
        then drained (lidars s ! j) (lidars s2 ! j) else lidars s2 ! j = lidars s ! j"
        using r(4) [rule_format, of j] p(2) i True Cons.prems(4) by (cases "j = i") auto
    qed
    ultimately show ?thesis using p(1) r(1,3) True by auto
  qed
qed

text \<open>The points of a message, with their times.\<close>

definition decode_point :: "CustomMsg \<Rightarrow> CustomPoint \<Rightarrow> real \<times> real \<times> real \<times> byte \<times> byte \<times> 64 word" where
  "decode_point m p = (cp_x p, cp_y p, cp_z p, cp_tag p, cp_line p, cm_timebase m + ucast (cp_offset_time p))"

definition plain_point :: "PointXyzlt \<Rightarrow> real \<times> real \<times> real \<times> byte \<times> byte \<times> 64 word" where
  "plain_point p = (pt_x p, pt_y p, pt_z p, pt_tag p, pt_line p, pt_offset_time p)"

lemma decode_custom: "pt_offset_time p - t < 2 ^ 32 \<Longrightarrow> cm_timebase m = t \<Longrightarrow> decode_point m (custom_point t p) = plain_point p"
proof -
  assume a: "pt_offset_time p - t < 2 ^ 32" "cm_timebase m = t"
  have "unat (pt_offset_time p - t) < 2 ^ 32" using a(1) by (simp add: word_less_nat_alt)
  then have "ucast (ucast (pt_offset_time p - t) :: 32 word) = pt_offset_time p - t"
    by (simp add: word_unat_eq_iff unsigned_ucast_eq unsigned_take_bit_eq take_bit_nat_eq_self)
  then show ?thesis using a(2) by (simp add: decode_point_def plain_point_def custom_point_def)
qed

lemma push_new: "storage_packet q = Null \<Longrightarrow> InitQueue (CalculatePacketQueueSize freq) q = Inr q0 \<Longrightarrow> storage_packet q0 \<noteq> Null
    \<Longrightarrow> PushLidarData freq d t q = PushLidarData freq d t q0"
  by (simp add: PushLidarData_def)

text \<open>A packet goes to the end of the queue, which is made for the first one.\<close>

lemma store_packet:
  assumes "queue_ok q" and "length ps < 2 ^ 32" and "ps \<noteq> []"
    and "storage_packet q \<noteq> Null \<Longrightarrow> length (ring_abs q) < ring_cap q"
  shows "\<exists>q'. PushLidarData freq \<lparr>pk_points_num = of_nat (length ps), pk_points = ps\<rparr> t q = Inr q' \<and> ring_inv q' \<and> \<not> QueueIsEmpty q'
    \<and> queued q' = queued q @ [\<lparr>base_time = t, points_num = of_nat (length ps), points = ps\<rparr>] \<and> length (ring_abs q') \<le> Suc (length (ring_abs q))"
proof -
  let ?p = "\<lparr>base_time = t, points_num = of_nat (length ps), points = ps\<rparr>"
  have c: "counted ?p" using assms(2) by (simp add: counted_def unat_of_nat)
  have go: ?thesis if q0: "ring_inv q0" "length (ring_abs q0) < ring_cap q0" "PushLidarData freq d t q = PushLidarData freq d t q0"
      "queued q0 = queued q" "length (ring_abs q0) \<le> length (ring_abs q)" "d = \<lparr>pk_points_num = of_nat (length ps), pk_points = ps\<rparr>" for q0 d
  proof -
    obtain q' where q': "store freq ?p q0 = Inr q'" "ring_inv q'" "ring_abs q' = ring_abs q0 @ [?p]"
      using ring.push_room [OF q0(1) c q0(2), of freq] by blast
    have "\<not> QueueIsEmpty q'" using empty_ring [OF q'(2)] q'(3) by auto
    moreover have "queued q' = queued q @ [?p]"
      using q0(4) q'(3) ring_slots [OF q'(2)] ring_slots [OF q0(1)] assms(3) by (simp add: queued_def)
    ultimately show ?thesis using q' q0(3,5,6) by (simp add: store_def)
  qed
  show ?thesis
  proof (cases "storage_packet q = Null")
    case True
    obtain q0 where q0: "InitQueue (CalculatePacketQueueSize freq) q = Inr q0" "ring_inv q0" "ring_abs q0 = []" "\<exists>k<32. ring_cap q0 = 2 ^ k"
      using InitQueue_ring [OF True] by blast
    have e: "queued q0 = queued q" using q0(3) True by (simp add: queued_def)
    have c: "length (ring_abs q0) < ring_cap q0" using q0(3,4) by auto
    show ?thesis using go [OF q0(2) c push_new [OF True q0(1) ring_slots [OF q0(2)]] e] q0(3) by simp
  next
    case False
    then show ?thesis using go [of q] assms(1,4) by (simp add: queue_ok_def)
  qed
qed

text \<open>
  C21.  A frame reaches its topic: once a lidar streams, a frame of its points that finds room in
  its queue is published by the next round of the thread, behind what waited before it, as one
  message on the topic of the lidar, with all points, and with times that add up to those of the
  points when the frame is shorter than 4.29 seconds; and the round publishes what every
  streaming lidar had waiting.
\<close>

theorem frame_reaches_its_topic:
  assumes "lds_inv s" and "custom_mode s" and "0 \<le> pcd_semaphore s"
    and "GetIndex kLivoxLidarType (unat h) (cache_index s) = Some i" and "i < kMaxSourceLidar"
    and "connect_state (lidars s ! i) = kConnectStateSampling" and "ps \<noteq> []" and "length ps < 2 ^ 32"
    and "storage_packet (ld_data (lidars s ! i)) \<noteq> Null \<longrightarrow> length (ring_abs (ld_data (lidars s ! i))) < ring_cap (ld_data (lidars s ! i))"
    and "\<forall>p \<in> set ps. pt_offset_time p - t < 2 ^ 32"
  shows "\<exists>s1 n s2 os m. OnLidarPointCloudCb [(t, h, ps)] s = Inr s1 \<and> DistributePointCloudData n s1 = Some (Inr (s2, os))
    \<and> messages os = concat (map (\<lambda>j. ready s j @ (if j = i then [(topic_name ''lidar'' i s, m)] else [])) [0..<kMaxSourceLidar])
    \<and> map (decode_point m) (cm_points m) = map plain_point ps
    \<and> (\<forall>j<kMaxSourceLidar. connect_state (lidars s ! j) = kConnectStateSampling \<longrightarrow> queued (ld_data (lidars s2 ! j)) = [])"
proof -
  let ?d = "lidars s ! i" and ?p = "\<lparr>base_time = t, points_num = of_nat (length ps), points = ps\<rparr>"
  have l: "length (lidars s) = kMaxSourceLidar" and ok: "queue_ok (ld_data ?d)" using assms(1,5) by (auto simp: lds_inv_def)
  obtain q where q: "PushLidarData (publish_freq s) \<lparr>pk_points_num = of_nat (length ps), pk_points = ps\<rparr> t (ld_data ?d) = Inr q"
    "ring_inv q" "\<not> QueueIsEmpty q" "queued q = queued (ld_data ?d) @ [?p]" "length (ring_abs q) \<le> Suc (length (ring_abs (ld_data ?d)))"
    using store_packet [OF ok assms(8,7), of "publish_freq s" t] assms(9) by blast
  define s1 where "s1 = (set_device i (\<lambda>d. d\<lparr>ld_data := q\<rparr>) s)\<lparr>pcd_semaphore := signal (pcd_semaphore s)\<rparr>"
  have store: "OnLidarPointCloudCb [(t, h, ps)] s = Inr s1"
    using assms(4) q(1,3) by (simp add: OnLidarPointCloudCb_def StoreLidarData_def s1_def)
  define n where "n = Max ((\<lambda>d. length (ring_abs (ld_data d)) + 2) ` set (lidars s1))"
  let ?s1 = "s1\<lparr>pcd_semaphore := pcd_semaphore s1 - 1\<rparr>"
  have lid: "lidars s1 = (lidars s)[i := ?d\<lparr>ld_data := q\<rparr>]" by (simp add: s1_def set_device_def)
  have "room_ok n ?s1" by (simp add: room_ok_def n_def)
  moreover have "custom_mode ?s1" using assms(2) by (simp add: custom_mode_def s1_def set_device_def)
  moreover have "lds_inv ?s1"
    using assms(1) q(2) set_update_subset_insert [of "lidars s" i "?d\<lparr>ld_data := q\<rparr>"] by (auto simp: lds_inv_def lid queue_ok_def)
  ultimately obtain s2 os where d: "poll_lidars n [0..<kMaxSourceLidar] ?s1 = Some (Inr (s2, os))"
    "messages os = concat (map (ready ?s1) [0..<kMaxSourceLidar])"
    "\<forall>j<kMaxSourceLidar. if j \<in> set [0..<kMaxSourceLidar] \<and> connect_state (lidars ?s1 ! j) = kConnectStateSampling
        then drained (lidars ?s1 ! j) (lidars s2 ! j) else lidars s2 ! j = lidars ?s1 ! j"
    using poll_lidars_sends [of ?s1 n "[0..<kMaxSourceLidar]"] by auto
  have "0 < pcd_semaphore s1" using assms(3) by (simp add: s1_def signal_def)
  then have dist: "DistributePointCloudData n s1 = Some (Inr (s2, os))"
    using d(1) assms(2) by (simp add: DistributePointCloudData_def custom_mode_def s1_def set_device_def)
  let ?m = "custom_msg ?d ?p"
  have r: "ready ?s1 j = ready s j @ (if j = i then [(topic_name ''lidar'' i s, ?m)] else [])" if "j < kMaxSourceLidar" for j
  proof (cases "j = i")
    case True
    then show ?thesis
      using assms(5,6) l q(4) by (simp add: ready_def lid topic_name_def s1_def set_device_def custom_msg_def)
  next
    case False
    then show ?thesis by (simp add: ready_def lid topic_name_def s1_def set_device_def)
  qed
  have "messages os = concat (map (\<lambda>j. ready s j @ (if j = i then [(topic_name ''lidar'' i s, ?m)] else [])) [0..<kMaxSourceLidar])"
    unfolding d(2) by (intro arg_cong [of _ _ concat] map_cong refl r) simp
  moreover have "map (decode_point ?m) (cm_points ?m) = map plain_point ps"
    using assms(10) decode_custom [of _ t ?m] by (simp add: custom_msg_def)
  moreover have "queued (ld_data (lidars s2 ! j)) = []" if "j < kMaxSourceLidar" "connect_state (lidars s ! j) = kConnectStateSampling" for j
  proof -
    have "connect_state (lidars ?s1 ! j) = kConnectStateSampling" using that l by (cases "j = i") (simp_all add: lid)
    then have "drained (lidars ?s1 ! j) (lidars s2 ! j)" using d(3) [rule_format, OF that(1)] that(1) by (simp only: if_True simp_thms set_upt atLeastLessThan_iff le0)
    then show ?thesis by (auto simp: drained_def queued_def)
  qed
  ultimately show ?thesis using store dist by blast
qed

definition example_lidar_config :: UserLivoxLidarConfig where
  "example_lidar_config = ParseUserConfig 7 \<lparr>js_ip = Some 7, js_pcl_data_type = Some 1, js_pattern_mode = Some 0, js_blind_spot_set = None,
     js_dual_emit_en = None, js_extrinsic = None\<rparr>"

definition example_lds :: "LidarConnectState \<Rightarrow> Lds" where
  "example_lds c = \<lparr>lidars = (replicate kMaxSourceLidar zero_device)[0 := zero_device\<lparr>lidar_type := kLivoxLidarType, ld_handle := 7,
       connect_state := c, livox_config := example_lidar_config\<rparr>],
     cache_index = CacheIndex_ctor\<lparr>map_index := [''livox_lidar_7'' \<mapsto> 0]\<rparr>, pcd_semaphore = 0, imu_semaphore = 0, publish_freq = 10,
     request_exit = False, transfer_format = kLivoxCustomMsg, use_multi_topic = False, output_type = kOutputToRos,
     private_pub = (\<lambda>_. False), global_pub = False, private_imu_pub = (\<lambda>_. False), global_imu_pub = False\<rparr>"

lemma example_device: "GetIndex kLivoxLidarType 7 (cache_index (example_lds c)) = Some 0" "GetLidarDevice 7 (example_lds c) = Some 0"
  "connect_state (lidars (example_lds c) ! 0) = c" "livox_config (lidars (example_lds c) ! 0) = example_lidar_config"
  "ld_data (lidars (example_lds c) ! 0) = ld_data zero_device" "length (lidars (example_lds c)) = kMaxSourceLidar"
  by (simp_all add: GetLidarDevice_def GetIndex_def GenerateIndexKey_def example_lds_def kLivoxLidarType_def show_nat.simps char_of_def bit_0
      kMaxSourceLidar_def)

theorem lidar_streams_when_configured_witness:
  "\<exists>s' os. run_handlers config_step (example_lds kConnectStateOff)
     [InfoChanged 7, Answered ScanPattern kLivoxLidarStatusTimeout 7 None, Answered DataType kLivoxLidarStatusSuccess 7 None,
      Answered ScanPattern kLivoxLidarStatusSuccess 7 None] = Inr (s', os) \<and> connect_state (lidars s' ! 0) = kConnectStateSampling"
proof -
  let ?es = "[Answered ScanPattern kLivoxLidarStatusTimeout 7 None, Answered DataType kLivoxLidarStatusSuccess 7 None,
      Answered ScanPattern kLivoxLidarStatusSuccess 7 None]"
  have ok: "list_all (config_ok 7) ?es" by (simp add: config_ok_def)
  have c: "confirmed ?es = {DataType, ScanPattern}" by (auto simp: confirmed_Cons) (auto simp: confirmed_def)
  have w: "wants example_lidar_config st \<longrightarrow> st \<in> {DataType, ScanPattern}" for st
    by (cases st) (simp_all add: example_lidar_config_def ParseUserConfig_def json_or_def)
  have b: "set_bits example_lidar_config = 0" by (simp add: example_lidar_config_def ParseUserConfig_def)
  show ?thesis
    using lidar_streams_when_configured [OF example_device(2) _ example_device(3) _ ok] example_device(4,6) w b c by (simp add: kMaxSourceLidar_def)
qed

theorem frame_reaches_its_topic_witness:
  "\<exists>s1 n s2 os m. OnLidarPointCloudCb [(0, 7, points one_point)] (example_lds kConnectStateSampling) = Inr s1
     \<and> DistributePointCloudData n s1 = Some (Inr (s2, os)) \<and> map (decode_point m) (cm_points m) = map plain_point (points one_point)"
proof -
  let ?s = "example_lds kConnectStateSampling"
  have i: "lds_inv ?s" "custom_mode ?s" "pcd_semaphore ?s = 0"
    by (auto simp: lds_inv_def custom_mode_def example_lds_def queue_ok_def zero_device_def kMaxSourceLidar_def dest!: subsetD [OF set_update_subset_insert])
  have p: "points one_point \<noteq> []" "length (points one_point) < 2 ^ 32" "\<forall>p \<in> set (points one_point). pt_offset_time p - 0 < 2 ^ 32"
    by (simp_all add: one_point_def)
  show ?thesis
    using frame_reaches_its_topic [OF i(1,2) _ _ _ example_device(3) p(1,2) _ p(3), of 7] example_device(1,5) i(3)
    by (simp add: kMaxSourceLidar_def zero_device_def) blast
qed

section \<open>What goes wrong\<close>

text \<open>An answer without a response, such as that of a command the socket refused, is read through a null pointer.\<close>

lemma refused_command_ends_the_driver:
  "GetLidarDevice h s = Some i \<Longrightarrow> config_step s (Answered st kLivoxLidarStatusSendFailed h None) = Inl Null_pointer"
  by (cases st) (simp_all add: SetDataTypeCallback_def SetPatternModeCallback_def SetBlindSpotCallback_def SetDualEmitCallback_def setting_answer_def)

text \<open>A lidar that is not in the configuration gets an index and its commands, but stays off, without an address.\<close>

lemma kept_field: "(\<And>d. f (g d) = f d) \<Longrightarrow> map f ((ds)[i := g (ds ! i)]) = map f ds"
  by (simp add: map_update) (metis length_map list_update_beyond list_update_id not_le nth_map)

lemma unknown_lidar_stays_off:
  assumes "GetLidarDevice h s = None" and "LidarInfoChangeCallback h s = (s', os)"
  shows "map connect_state (lidars s') = map connect_state (lidars s) \<and> map ld_handle (lidars s') = map ld_handle (lidars s)"
  using assms kept_field [of connect_state "\<lambda>d. d\<lparr>lidar_type := kLivoxLidarType\<rparr>" "lidars s"]
    kept_field [of ld_handle "\<lambda>d. d\<lparr>lidar_type := kLivoxLidarType\<rparr>" "lidars s"]
  by (auto simp: LidarInfoChangeCallback_def set_device_def split: prod.splits option.splits)

text \<open>A blind spot of 200 centimetres is cut to 8 bits on its way into a field of 32.\<close>

lemma blind_spot_is_cut: "js_blind_spot_set v = Some 200 \<Longrightarrow> blind_spot_set (ParseUserConfig ip v) = - 56"
  by (simp add: ParseUserConfig_def json_or_def)

text \<open>With the message type of PCL the thread never comes back from the first queue with a packet.\<close>

lemma unsupported_type_never_returns:
  assumes "transfer_format s = kPclPxyziMsg" and "\<not> request_exit s" and "storage_packet (ld_data (lidars s ! i)) \<noteq> Null"
    and "\<not> QueueIsEmpty (ld_data (lidars s ! i))"
  shows "PollingLidarPointCloudData n i s = None"
  using assms by (induction n) (simp_all add: kPclPxyziMsg_def kPointCloud2Msg_def kLivoxCustomMsg_def Let_def)

end
