(* ===== verification/ImageProjection.thy ===== *)
theory ImageProjection
  imports LidarDriver
begin

text \<open>
  The first node of the lidar odometry (\<open>imageProjection.cpp\<close>, with \<open>utility.hpp\<close>): scans of the driver wait
  for the inertial data that covers them, are freed of the rotation of the sensor, sorted into an
  image of ranges by ring, and sent on ring by ring.  The transformations of the libraries PCL,
  Eigen and tf2 are parameters.
\<close>

section \<open>Libraries and parameters\<close>

record 'a Geometry =
  getTransformation :: "real \<Rightarrow> real \<Rightarrow> real \<Rightarrow> real \<Rightarrow> real \<Rightarrow> real \<Rightarrow> 'a"
  affine_inverse :: "'a \<Rightarrow> 'a"
  affine_mult :: "'a \<Rightarrow> 'a \<Rightarrow> 'a"
  coeff :: "'a \<Rightarrow> nat \<Rightarrow> nat \<Rightarrow> real"
  getRPY :: "real \<times> real \<times> real \<times> real \<Rightarrow> real \<times> real \<times> real"
  getTranslation :: "'a \<Rightarrow> real \<times> real \<times> real"

datatype SensorType = VELODYNE | OUSTER | LIVOX

record ParamServer =
  sensor :: SensorType
  N_SCAN :: nat
  Horizon_SCAN :: nat
  downsampleRate :: nat
  lidarMinRange :: real
  lidarMaxRange :: real
  imuGravity :: real
  extRot :: "real list list"
  extQRPY :: "real \<times> real \<times> real \<times> real"
  edgeThreshold :: real
  surfThreshold :: real
  extTrans :: "real \<times> real \<times> real"

definition queueLength :: nat where "queueLength = 2000"

definition FLT_MAX :: real where "FLT_MAX = (2 - 1 / 2 ^ 23) * 2 ^ 127"

section \<open>Messages and state\<close>

record PointType =
  p_x :: real
  p_y :: real
  p_z :: real
  p_intensity :: real

record PointXYZIRT = PointType +
  p_time :: real
  p_ring :: nat
  p_tag :: byte

record RosImu =
  ri_stamp :: real
  ri_acceleration :: "real \<times> real \<times> real"
  ri_angular :: "real \<times> real \<times> real"
  ri_orientation :: "real \<times> real \<times> real \<times> real"

record Odometry =
  od_stamp :: real
  od_position :: "real \<times> real \<times> real"
  od_orientation :: "real \<times> real \<times> real \<times> real"
  od_covariance0 :: real

record CloudInfo =
  start_ring_index :: "int list"
  end_ring_index :: "int list"
  point_col_ind :: "int list"
  point_range :: "real list"
  imu_available :: bool
  odom_available :: bool
  imu_rpy_init :: "real \<times> real \<times> real"
  initial_guess :: "(real \<times> real \<times> real) \<times> (real \<times> real \<times> real)"
  cloud_deskewed :: "PointType list"

record 'a ImageProjection =
  imuQueue :: "RosImu list"
  odomQueue :: "Odometry list"
  cloudQueue :: "CustomMsg list"
  imuTime :: "real list"
  imuRot :: "(real \<times> real \<times> real) list"
  imuPointerCur :: int
  firstPointFlag :: bool
  transStartInverse :: 'a
  laserCloudIn :: "PointXYZIRT list"
  fullCloud :: "PointType list"
  extractedCloud :: "PointType list"
  rangeMat :: "real list list"
  odomDeskewFlag :: bool
  odomIncre :: "real \<times> real \<times> real"
  cloudInfo :: CloudInfo
  timeScanCur :: real
  timeScanEnd :: real
  columnIdnCountVec :: "nat list"

definition zero_point :: PointType where
  "zero_point = \<lparr>p_x = 0, p_y = 0, p_z = 0, p_intensity = 0\<rparr>"

definition resetParameters :: "ParamServer \<Rightarrow> 'a ImageProjection \<Rightarrow> 'a ImageProjection" where
  "resetParameters c s = s\<lparr>laserCloudIn := [], extractedCloud := [], rangeMat := replicate (N_SCAN c) (replicate (Horizon_SCAN c) FLT_MAX),
     imuPointerCur := 0, firstPointFlag := True, odomDeskewFlag := False, imuTime := replicate queueLength 0,
     imuRot := replicate queueLength (0, 0, 0), columnIdnCountVec := replicate (N_SCAN c) 0\<rparr>"

definition allocateMemory :: "ParamServer \<Rightarrow> 'a ImageProjection \<Rightarrow> 'a ImageProjection" where
  "allocateMemory c s = resetParameters c (s\<lparr>fullCloud := replicate (N_SCAN c * Horizon_SCAN c) zero_point,
     cloudInfo := (cloudInfo s)\<lparr>start_ring_index := replicate (N_SCAN c) 0, end_ring_index := replicate (N_SCAN c) 0,
       point_col_ind := replicate (N_SCAN c * Horizon_SCAN c) 0, point_range := replicate (N_SCAN c * Horizon_SCAN c) 0\<rparr>\<rparr>)"

section \<open>Inertial data and odometry\<close>

definition mat_vec :: "real list list \<Rightarrow> real \<times> real \<times> real \<Rightarrow> real \<times> real \<times> real" where
  "mat_vec m = (\<lambda>(x, y, z). let row = (\<lambda>k. m ! k ! 0 * x + m ! k ! 1 * y + m ! k ! 2 * z) in (row 0, row 1, row 2))"

definition scale3 :: "real \<Rightarrow> real \<times> real \<times> real \<Rightarrow> real \<times> real \<times> real" where
  "scale3 k = (\<lambda>(x, y, z). (x * k, y * k, z * k))"

definition norm4 :: "real \<times> real \<times> real \<times> real \<Rightarrow> real" where
  "norm4 = (\<lambda>(x, y, z, w). sqrt (x * x + y * y + z * z + w * w))"

definition normalize4 :: "real \<times> real \<times> real \<times> real \<Rightarrow> real \<times> real \<times> real \<times> real" where
  "normalize4 q = (if norm4 q > 0 then case q of (x, y, z, w) \<Rightarrow> (x / norm4 q, y / norm4 q, z / norm4 q, w / norm4 q) else q)"

lemma norm4_split: "norm4 (x, y, z, w) = sqrt (x * x + y * y + z * z + w * w)"
  by (simp add: norm4_def)

text \<open>The orientation of the message is replaced by that of the mounting; without one the node shuts down.\<close>

definition imu_turned :: "ParamServer \<Rightarrow> RosImu \<Rightarrow> RosImu" where
  "imu_turned c m = m\<lparr>ri_acceleration := mat_vec (extRot c) (scale3 (imuGravity c) (ri_acceleration m)),
     ri_angular := mat_vec (extRot c) (ri_angular m), ri_orientation := normalize4 (extQRPY c)\<rparr>"

definition imuConverter :: "ParamServer \<Rightarrow> RosImu \<Rightarrow> exn + RosImu" where
  "imuConverter c m = (if norm4 (ri_orientation (imu_turned c m)) < 0.1 then Inl (Exit 0) else Inr (imu_turned c m))"

definition imuHandler :: "ParamServer \<Rightarrow> RosImu \<Rightarrow> 'a ImageProjection \<Rightarrow> exn + 'a ImageProjection" where
  "imuHandler c m s = sbind (imuConverter c m) (\<lambda>m'. Inr (s\<lparr>imuQueue := imuQueue s @ [m']\<rparr>))"

lemma norm4_normalize: "norm4 q \<noteq> 0 \<Longrightarrow> norm4 (normalize4 q) = 1"
proof -
  assume n: "norm4 q \<noteq> 0"
  obtain x y z w where q: "q = (x, y, z, w)" by (metis prod_cases4)
  have r: "norm4 q = sqrt (x * x + y * y + z * z + w * w)" by (simp add: q norm4_def)
  have ge: "0 \<le> x * x + y * y + z * z + w * w" by simp
  then have pos: "norm4 q > 0" using n r by (metis less_eq_real_def real_sqrt_ge_zero)
  have "x / norm4 q * (x / norm4 q) + y / norm4 q * (y / norm4 q) + z / norm4 q * (z / norm4 q) + w / norm4 q * (w / norm4 q)
      = (x * x + y * y + z * z + w * w) / (norm4 q * norm4 q)" by (simp add: add_divide_distrib)
  also have "norm4 q * norm4 q = x * x + y * y + z * z + w * w" unfolding r using ge by simp
  also have "(x * x + y * y + z * z + w * w) / (x * x + y * y + z * z + w * w) = 1" using pos r by auto
  finally have one: "x / norm4 q * (x / norm4 q) + y / norm4 q * (y / norm4 q) + z / norm4 q * (z / norm4 q) + w / norm4 q * (w / norm4 q) = 1" .
  have "normalize4 q = (x / norm4 q, y / norm4 q, z / norm4 q, w / norm4 q)" using pos by (simp add: normalize4_def q)
  then have "norm4 (normalize4 q) = sqrt (x / norm4 q * (x / norm4 q) + y / norm4 q * (y / norm4 q) + z / norm4 q * (z / norm4 q) + w / norm4 q * (w / norm4 q))"
    by (simp only: norm4_split)
  then show ?thesis unfolding one by simp
qed

definition odometryHandler :: "Odometry \<Rightarrow> 'a ImageProjection \<Rightarrow> 'a ImageProjection" where
  "odometryHandler m s = s\<lparr>odomQueue := odomQueue s @ [m]\<rparr>"

section \<open>Scans\<close>

text \<open>The last point of the message is left out; the bound of the loop is an unsigned difference.\<close>

definition scan_point :: "CustomPoint \<Rightarrow> PointXYZIRT" where
  "scan_point p = \<lparr>p_x = cp_x p, p_y = cp_y p, p_z = cp_z p, p_intensity = real (unat (cp_reflectivity p)),
     p_time = real (unat (cp_offset_time p)) / 1000000000, p_ring = unat (cp_line p), p_tag = cp_tag p\<rparr>"

definition moveFromCustomMsg :: "CustomMsg \<Rightarrow> exn + PointXYZIRT list" where
  "moveFromCustomMsg m = smap (\<lambda>i. sbind (idx (cm_points m) (int i)) (\<lambda>p. Inr (scan_point p))) [0..<unat (cm_point_num m - 1)]"

text \<open>
  A scan is taken up when two more have come.  With a sensor other than \<open>LIVOX\<close> the node shuts
  down, which \<open>Exit\<close> stands for.
\<close>

definition stamp2Sec :: "64 word \<Rightarrow> real" where
  "stamp2Sec t = real (unat t) / 1000000000"

definition cachePointCloud :: "ParamServer \<Rightarrow> CustomMsg \<Rightarrow> 'a ImageProjection \<Rightarrow> exn + ('a ImageProjection \<times> bool)" where
  "cachePointCloud c m s =
     (let q = cloudQueue s @ [m] in
      if length q \<le> 2 then Inr (s\<lparr>cloudQueue := q\<rparr>, False)
      else if sensor c \<noteq> LIVOX then Inl (Exit 0)
      else sbind (moveFromCustomMsg (hd q)) (\<lambda>ps.
        if ps = [] then Inl Bad_index
        else Inr (s\<lparr>cloudQueue := tl q, laserCloudIn := ps, timeScanCur := stamp2Sec (cm_stamp (hd q)),
               timeScanEnd := stamp2Sec (cm_stamp (hd q)) + p_time (last ps)\<rparr>, True)))"

text \<open>\<open>imuDeskewInfo\<close>: the rotation is integrated over the messages from just before the scan to just after it.\<close>

fun imu_loop :: "'a Geometry \<Rightarrow> RosImu list \<Rightarrow> 'a ImageProjection \<Rightarrow> exn + 'a ImageProjection" where
  "imu_loop g [] s = Inr s"
| "imu_loop g (m # ms) s =
     (let t = ri_stamp m;
          s1 = (if t \<le> timeScanCur s then s\<lparr>cloudInfo := (cloudInfo s)\<lparr>imu_rpy_init := getRPY g (ri_orientation m)\<rparr>\<rparr> else s) in
      if t > timeScanEnd s + 0.01 then Inr s1
      else if imuPointerCur s1 = 0
      then imu_loop g ms (s1\<lparr>imuRot := (imuRot s1)[0 := (0, 0, 0)], imuTime := (imuTime s1)[0 := t], imuPointerCur := 1\<rparr>)
      else if imuPointerCur s1 < 0 \<or> int queueLength \<le> imuPointerCur s1 then Inl Bad_index
      else let k = nat (imuPointerCur s1); dt = t - imuTime s1 ! (k - 1);
               (ax, ay, az) = ri_angular m; (rx, ry, rz) = imuRot s1 ! (k - 1) in
           imu_loop g ms (s1\<lparr>imuRot := (imuRot s1)[k := (rx + ax * dt, ry + ay * dt, rz + az * dt)],
             imuTime := (imuTime s1)[k := t], imuPointerCur := imuPointerCur s1 + 1\<rparr>))"

definition imuDeskewInfo :: "'a Geometry \<Rightarrow> 'a ImageProjection \<Rightarrow> exn + 'a ImageProjection" where
  "imuDeskewInfo g s =
     (let s1 = s\<lparr>cloudInfo := (cloudInfo s)\<lparr>imu_available := False\<rparr>,
            imuQueue := dropWhile (\<lambda>m. ri_stamp m < timeScanCur s - 0.01) (imuQueue s)\<rparr> in
      if imuQueue s1 = [] then Inr s1
      else sbind (imu_loop g (imuQueue s1) (s1\<lparr>imuPointerCur := 0\<rparr>)) (\<lambda>s2.
        let s3 = s2\<lparr>imuPointerCur := imuPointerCur s2 - 1\<rparr> in
        Inr (if imuPointerCur s3 \<le> 0 then s3 else s3\<lparr>cloudInfo := (cloudInfo s3)\<lparr>imu_available := True\<rparr>\<rparr>)))"

text \<open>The first odometry not before a time, or the last one of all.\<close>

fun odom_at :: "real \<Rightarrow> Odometry list \<Rightarrow> Odometry option" where
  "odom_at t [] = None"
| "odom_at t [m] = Some m"
| "odom_at t (m # ms) = (if od_stamp m < t then odom_at t ms else Some m)"

definition transform_of :: "'a Geometry \<Rightarrow> Odometry \<Rightarrow> 'a" where
  "transform_of g m = (let (x, y, z) = od_position m; (r, p, w) = getRPY g (od_orientation m) in getTransformation g x y z r p w)"

definition odomDeskewInfo :: "'a Geometry \<Rightarrow> 'a ImageProjection \<Rightarrow> 'a ImageProjection" where
  "odomDeskewInfo g s =
     (let s1 = s\<lparr>cloudInfo := (cloudInfo s)\<lparr>odom_available := False\<rparr>,
            odomQueue := dropWhile (\<lambda>m. od_stamp m < timeScanCur s - 0.01) (odomQueue s)\<rparr>; q = odomQueue s1 in
      if q = [] \<or> od_stamp (hd q) > timeScanCur s then s1
      else case odom_at (timeScanCur s) q of None \<Rightarrow> s1
      | Some a \<Rightarrow>
          (let s2 = s1\<lparr>cloudInfo := (cloudInfo s1)\<lparr>initial_guess := (od_position a, getRPY g (od_orientation a)), odom_available := True\<rparr>,
                       odomDeskewFlag := False\<rparr> in
           if od_stamp (last q) < timeScanEnd s then s2
           else case odom_at (timeScanEnd s) q of None \<Rightarrow> s2
           | Some b \<Rightarrow>
               if c_round (od_covariance0 a) \<noteq> c_round (od_covariance0 b) then s2
               else s2\<lparr>odomIncre := getTranslation g (affine_mult g (affine_inverse g (transform_of g a)) (transform_of g b)),
                       odomDeskewFlag := True\<rparr>))"

definition deskewInfo :: "'a Geometry \<Rightarrow> 'a ImageProjection \<Rightarrow> exn + ('a ImageProjection \<times> bool)" where
  "deskewInfo g s =
     (if imuQueue s = [] \<or> ri_stamp (hd (imuQueue s)) > timeScanCur s \<or> ri_stamp (last (imuQueue s)) < timeScanEnd s then Inr (s, False)
      else sbind (imuDeskewInfo g s) (\<lambda>s1. Inr (odomDeskewInfo g s1, True)))"

section \<open>Rotation during a scan\<close>

text \<open>The first entry later than the time, or the last.\<close>

function rotation_front :: "real \<Rightarrow> real list \<Rightarrow> int \<Rightarrow> int \<Rightarrow> exn + int" where
  "rotation_front t ts cur i =
     (if i < cur then sbind (idx ts i) (\<lambda>x. if t < x then Inr i else rotation_front t ts cur (i + 1)) else Inr i)"
  by pat_completeness auto
termination by (relation "measure (\<lambda>(t, ts, cur, i). nat (cur - i))") auto
declare rotation_front.simps [simp del]

definition mix3 :: "real \<Rightarrow> real \<times> real \<times> real \<Rightarrow> real \<Rightarrow> real \<times> real \<times> real \<Rightarrow> real \<times> real \<times> real" where
  "mix3 a = (\<lambda>(x, y, z) b (x', y', z'). (x * a + x' * b, y * a + y' * b, z * a + z' * b))"

definition findRotation :: "real \<Rightarrow> 'a ImageProjection \<Rightarrow> exn + real \<times> real \<times> real" where
  "findRotation t s =
     sbind (rotation_front t (imuTime s) (imuPointerCur s) 0) (\<lambda>front.
     sbind (idx (imuTime s) front) (\<lambda>tf. sbind (idx (imuRot s) front) (\<lambda>rf.
       if t > tf \<or> front = 0 then Inr rf
       else sbind (idx (imuTime s) (front - 1)) (\<lambda>tb. sbind (idx (imuRot s) (front - 1)) (\<lambda>rb.
         Inr (mix3 ((t - tb) / (tf - tb)) rf ((tf - t) / (tf - tb)) rb))))))"

definition apply_affine :: "'a Geometry \<Rightarrow> 'a \<Rightarrow> PointType \<Rightarrow> PointType" where
  "apply_affine g T p =
     (let row = (\<lambda>k. coeff g T k 0 * p_x p + coeff g T k 1 * p_y p + coeff g T k 2 * p_z p + coeff g T k 3) in
      \<lparr>p_x = row 0, p_y = row 1, p_z = row 2, p_intensity = p_intensity p\<rparr>)"

text \<open>The position of the sensor is taken as fixed during a scan (\<open>findPosition\<close>); all points are turned to the first one.\<close>

definition deskewPoint :: "'a Geometry \<Rightarrow> PointType \<Rightarrow> real \<Rightarrow> 'a ImageProjection \<Rightarrow> exn + ('a ImageProjection \<times> PointType)" where
  "deskewPoint g p rel_time s =
     (if \<not> imu_available (cloudInfo s) then Inr (s, p)
      else sbind (findRotation (timeScanCur s + rel_time) s) (\<lambda>(rx, ry, rz).
        let T = getTransformation g 0 0 0 rx ry rz;
            s' = (if firstPointFlag s then s\<lparr>transStartInverse := affine_inverse g T, firstPointFlag := False\<rparr> else s) in
        Inr (s', apply_affine g (affine_mult g (transStartInverse s') T) p)))"

section \<open>The image\<close>

definition pointDistance :: "'p PointType_scheme \<Rightarrow> real" where
  "pointDistance p = sqrt (p_x p * p_x p + p_y p * p_y p + p_z p * p_z p)"

definition horizon_column :: "ParamServer \<Rightarrow> PointXYZIRT \<Rightarrow> int" where
  "horizon_column c p =
     (let horizonAngle = atan2 (p_x p) (p_y p) * 180 / pi; ang_res_x = 360 / real (Horizon_SCAN c);
          col = - c_round ((horizonAngle - 90) / ang_res_x) + int (Horizon_SCAN c) div 2 in
      if int (Horizon_SCAN c) \<le> col then col - int (Horizon_SCAN c) else col)"

definition project_point :: "'a Geometry \<Rightarrow> ParamServer \<Rightarrow> PointXYZIRT \<Rightarrow> 'a ImageProjection \<Rightarrow> exn + 'a ImageProjection" where
  "project_point g c p s =
     (let rng = pointDistance p; row = p_ring p in
      if rng < lidarMinRange c \<or> rng > lidarMaxRange c then Inr s
      else if N_SCAN c \<le> row then Inr s
      else if downsampleRate c = 0 then Inl Division_by_zero
      else if row mod downsampleRate c \<noteq> 0 then Inr s
      else let col = (if sensor c = LIVOX then int (columnIdnCountVec s ! row) else horizon_column c p);
               s1 = (if sensor c = LIVOX then s\<lparr>columnIdnCountVec := (columnIdnCountVec s)[row := columnIdnCountVec s ! row + 1]\<rparr> else s) in
           if col < 0 \<or> int (Horizon_SCAN c) \<le> col then Inr s1
           else if rangeMat s1 ! row ! nat col \<noteq> FLT_MAX then Inr s1
           else sbind (deskewPoint g (PointType.truncate p) (p_time p) s1) (\<lambda>(s2, q).
             Inr (s2\<lparr>rangeMat := (rangeMat s2)[row := (rangeMat s2 ! row)[nat col := rng]],
                     fullCloud := (fullCloud s2)[nat col + row * Horizon_SCAN c := q]\<rparr>)))"

fun projectPointCloud :: "'a Geometry \<Rightarrow> ParamServer \<Rightarrow> PointXYZIRT list \<Rightarrow> 'a ImageProjection \<Rightarrow> exn + 'a ImageProjection" where
  "projectPointCloud g c [] s = Inr s"
| "projectPointCloud g c (p # ps) s = sbind (project_point g c p s) (projectPointCloud g c ps)"

text \<open>One cell of the image, one ring, and all of them; \<open>count\<close> is the number of points so far.\<close>

definition extract_cell :: "ParamServer \<Rightarrow> nat \<Rightarrow> nat \<Rightarrow> nat \<times> 'a ImageProjection \<Rightarrow> nat \<times> 'a ImageProjection" where
  "extract_cell c i j = (\<lambda>(count, s).
     if rangeMat s ! i ! j \<noteq> FLT_MAX
     then (count + 1, s\<lparr>cloudInfo := (cloudInfo s)\<lparr>point_col_ind := (point_col_ind (cloudInfo s))[count := int j],
             point_range := (point_range (cloudInfo s))[count := rangeMat s ! i ! j]\<rparr>,
           extractedCloud := extractedCloud s @ [fullCloud s ! (j + i * Horizon_SCAN c)]\<rparr>)
     else (count, s))"

definition extract_ring :: "ParamServer \<Rightarrow> nat \<Rightarrow> nat \<times> 'a ImageProjection \<Rightarrow> nat \<times> 'a ImageProjection" where
  "extract_ring c i = (\<lambda>(count, s).
     let s1 = s\<lparr>cloudInfo := (cloudInfo s)\<lparr>start_ring_index := (start_ring_index (cloudInfo s))[i := int count - 1 + 5]\<rparr>\<rparr>;
         (count', s2) = fold (extract_cell c i) [0..<Horizon_SCAN c] (count, s1) in
     (count', s2\<lparr>cloudInfo := (cloudInfo s2)\<lparr>end_ring_index := (end_ring_index (cloudInfo s2))[i := int count' - 1 - 5]\<rparr>\<rparr>))"

definition cloudExtraction :: "ParamServer \<Rightarrow> 'a ImageProjection \<Rightarrow> 'a ImageProjection" where
  "cloudExtraction c s = snd (fold (extract_ring c) [0..<N_SCAN c] (0, s))"

definition publishClouds :: "'a ImageProjection \<Rightarrow> 'a ImageProjection" where
  "publishClouds s = s\<lparr>cloudInfo := (cloudInfo s)\<lparr>cloud_deskewed := extractedCloud s\<rparr>\<rparr>"

definition cloudHandler :: "'a Geometry \<Rightarrow> ParamServer \<Rightarrow> CustomMsg \<Rightarrow> 'a ImageProjection \<Rightarrow> exn + ('a ImageProjection \<times> CloudInfo list)" where
  "cloudHandler g c m s =
     sbind (cachePointCloud c m s) (\<lambda>(s1, taken).
       if \<not> taken then Inr (s1, [])
       else sbind (deskewInfo g s1) (\<lambda>(s2, covered).
         if \<not> covered then Inr (s2, [])
         else sbind (projectPointCloud g c (laserCloudIn s2) s2) (\<lambda>s3.
           let s4 = publishClouds (cloudExtraction c s3) in Inr (resetParameters c s4, [cloudInfo s4]))))"

datatype projection_event = ImuEvent RosImu | OdomEvent Odometry | CloudEvent CustomMsg

fun projection_step :: "'a Geometry \<Rightarrow> ParamServer \<Rightarrow> ('a ImageProjection, projection_event, CloudInfo) handler" where
  "projection_step g c s (ImuEvent m) = sbind (imuHandler c m s) (\<lambda>s'. Inr (s', []))"
| "projection_step g c s (OdomEvent m) = Inr (odometryHandler m s, [])"
| "projection_step g c s (CloudEvent m) = cloudHandler g c m s"

section \<open>What the image holds\<close>

text \<open>The points of ring \<open>r\<close> that are taken, in the order they come.\<close>

definition taken :: "ParamServer \<Rightarrow> nat \<Rightarrow> 'p PointXYZIRT_scheme \<Rightarrow> bool" where
  "taken c r p \<longleftrightarrow> p_ring p = r \<and> r < N_SCAN c \<and> r mod downsampleRate c = 0 \<and> lidarMinRange c \<le> pointDistance p \<and> pointDistance p \<le> lidarMaxRange c"

definition ring_points :: "ParamServer \<Rightarrow> PointXYZIRT list \<Rightarrow> nat \<Rightarrow> PointXYZIRT list" where
  "ring_points c ps r = take (Horizon_SCAN c) (filter (taken c r) ps)"

text \<open>What a scan leaves alone while it is projected.\<close>

definition scan_frame :: "'a ImageProjection \<Rightarrow> 'a ImageProjection \<Rightarrow> bool" where
  "scan_frame s s' \<longleftrightarrow> imuTime s' = imuTime s \<and> imuRot s' = imuRot s \<and> imuPointerCur s' = imuPointerCur s \<and> timeScanCur s' = timeScanCur s
     \<and> cloudInfo s' = cloudInfo s \<and> extractedCloud s' = extractedCloud s \<and> cloudQueue s' = cloudQueue s \<and> imuQueue s' = imuQueue s
     \<and> odomQueue s' = odomQueue s \<and> laserCloudIn s' = laserCloudIn s"

lemma scan_frame_trans: "scan_frame s s' \<Longrightarrow> scan_frame s' s'' \<Longrightarrow> scan_frame s s''"
  by (simp add: scan_frame_def)

definition imu_ok :: "'a ImageProjection \<Rightarrow> bool" where
  "imu_ok s \<longleftrightarrow> length (imuTime s) = queueLength \<and> length (imuRot s) = queueLength \<and> 0 \<le> imuPointerCur s \<and> imuPointerCur s < int queueLength"

lemma rotation_front_ok:
  "0 \<le> i \<Longrightarrow> i \<le> cur \<Longrightarrow> cur < int (length ts) \<Longrightarrow> \<exists>k. rotation_front t ts cur i = Inr k \<and> i \<le> k \<and> k \<le> cur"
proof (induction t ts cur i rule: rotation_front.induct)
  case (1 t ts cur i)
  show ?case
  proof (cases "i < cur \<and> \<not> t < ts ! nat i")
    case True
    then have "\<exists>k. rotation_front t ts cur (i + 1) = Inr k \<and> i + 1 \<le> k \<and> k \<le> cur" using 1 by auto
    then show ?thesis using True 1(2-4) by (subst rotation_front.simps) auto
  next
    case False
    then show ?thesis using 1(2-4) by (subst rotation_front.simps) auto
  qed
qed

lemma findRotation_ok: "imu_ok s \<Longrightarrow> \<exists>r. findRotation t s = Inr r"
proof -
  assume a: "imu_ok s"
  obtain k where k: "rotation_front t (imuTime s) (imuPointerCur s) 0 = Inr k" "0 \<le> k" "k \<le> imuPointerCur s"
    using rotation_front_ok [of 0 "imuPointerCur s" "imuTime s" t] a by (auto simp: imu_ok_def)
  then show ?thesis using a by (simp add: findRotation_def imu_ok_def del: split_paired_Ex)
qed

lemma findRotation_cong: "imuTime s' = imuTime s \<Longrightarrow> imuRot s' = imuRot s \<Longrightarrow> imuPointerCur s' = imuPointerCur s
    \<Longrightarrow> findRotation t s' = findRotation t s"
  by (simp only: findRotation_def)

definition rotation_at :: "'a ImageProjection \<Rightarrow> real \<Rightarrow> real \<times> real \<times> real" where
  "rotation_at s t = (case findRotation t s of Inl _ \<Rightarrow> (0, 0, 0) | Inr r \<Rightarrow> r)"

definition turn_by :: "'a Geometry \<Rightarrow> real \<times> real \<times> real \<Rightarrow> 'a" where
  "turn_by g = (\<lambda>(rx, ry, rz). getTransformation g 0 0 0 rx ry rz)"

text \<open>A point turned to the start of the scan.\<close>

definition turned :: "'a Geometry \<Rightarrow> 'a ImageProjection \<Rightarrow> PointXYZIRT \<Rightarrow> PointType" where
  "turned g s p = (if imu_available (cloudInfo s)
     then apply_affine g (affine_mult g (transStartInverse s) (turn_by g (rotation_at s (timeScanCur s + p_time p)))) (PointType.truncate p)
     else PointType.truncate p)"

definition image_inv :: "'a Geometry \<Rightarrow> ParamServer \<Rightarrow> PointXYZIRT list \<Rightarrow> 'a ImageProjection \<Rightarrow> bool" where
  "image_inv g c qs s \<longleftrightarrow> length (rangeMat s) = N_SCAN c \<and> (\<forall>r<N_SCAN c. length (rangeMat s ! r) = Horizon_SCAN c)
     \<and> length (fullCloud s) = N_SCAN c * Horizon_SCAN c \<and> length (columnIdnCountVec s) = N_SCAN c
     \<and> (\<forall>r<N_SCAN c. columnIdnCountVec s ! r = length (filter (taken c r) qs))
     \<and> (\<forall>r<N_SCAN c. \<forall>j<Horizon_SCAN c. rangeMat s ! r ! j = (if j < length (ring_points c qs r) then pointDistance (ring_points c qs r ! j) else FLT_MAX))
     \<and> (\<forall>r<N_SCAN c. \<forall>j<length (ring_points c qs r). fullCloud s ! (j + r * Horizon_SCAN c) = turned g s (ring_points c qs r ! j))
     \<and> (firstPointFlag s \<and> imu_available (cloudInfo s) \<longrightarrow> (\<forall>r<N_SCAN c. ring_points c qs r = []))"

lemma cell_inj: "(j :: nat) < h \<Longrightarrow> j' < h \<Longrightarrow> j + r * h = j' + r' * h \<longleftrightarrow> j = j' \<and> r = r'"
  by (metis add.commute div_mult_self1 div_less less_nat_zero_code mod_less mod_mult_self1 add_cancel_left_left not_less_zero)

lemma cell_less: "(j :: nat) < h \<Longrightarrow> r < n \<Longrightarrow> j + r * h < n * h"
proof -
  assume "j < h" "r < n"
  then have "j + r * h < Suc r * h" by simp
  also have "\<dots> \<le> n * h" using \<open>r < n\<close> by (intro mult_le_mono1) simp
  finally show ?thesis .
qed

lemma ring_points_snoc: "ring_points c (qs @ [p]) r =
    (if taken c r p \<and> length (filter (taken c r) qs) < Horizon_SCAN c then ring_points c qs r @ [p] else ring_points c qs r)"
  by (auto simp: ring_points_def)

lemma length_ring_points: "length (ring_points c qs r) = min (Horizon_SCAN c) (length (filter (taken c r) qs))"
  by (simp add: ring_points_def)

lemma deskew_turns:
  assumes "imu_available (cloudInfo s) \<longrightarrow> imu_ok s"
  shows "\<exists>s'. deskewPoint g (PointType.truncate p) (p_time p) s = Inr (s', turned g s' p) \<and> scan_frame s s' \<and> rangeMat s' = rangeMat s
    \<and> fullCloud s' = fullCloud s \<and> columnIdnCountVec s' = columnIdnCountVec s
    \<and> (imu_available (cloudInfo s) \<longrightarrow> \<not> firstPointFlag s') \<and> (\<not> firstPointFlag s \<or> \<not> imu_available (cloudInfo s) \<longrightarrow> s' = s)"
proof (cases "imu_available (cloudInfo s)")
  case False
  then show ?thesis by (simp add: deskewPoint_def turned_def scan_frame_def)
next
  case True
  obtain rx ry rz where r: "findRotation (timeScanCur s + p_time p) s = Inr (rx, ry, rz)"
    using findRotation_ok assms True by (metis prod_cases3)
  let ?T = "getTransformation g 0 0 0 rx ry rz"
  define s' where "s' = (if firstPointFlag s then s\<lparr>transStartInverse := affine_inverse g ?T, firstPointFlag := False\<rparr> else s)"
  have "findRotation t s' = findRotation t s" for t by (rule findRotation_cong) (simp_all add: s'_def)
  then have "turned g s' p = apply_affine g (affine_mult g (transStartInverse s') ?T) (PointType.truncate p)"
    using True r by (simp add: turned_def rotation_at_def turn_by_def s'_def)
  then have "deskewPoint g (PointType.truncate p) (p_time p) s = Inr (s', turned g s' p)"
    using True r by (simp add: deskewPoint_def s'_def Let_def)
  then show ?thesis using True by (intro exI [of _ s']) (simp add: s'_def scan_frame_def)
qed

lemma turned_frame: "scan_frame s s' \<Longrightarrow> transStartInverse s' = transStartInverse s \<Longrightarrow> turned g s' = turned g s"
  using findRotation_cong [of s' s] by (intro ext) (simp add: turned_def rotation_at_def scan_frame_def)

lemma image_inv_cong: "(\<And>r. filter (taken c r) qs' = filter (taken c r) qs) \<Longrightarrow> image_inv g c qs' s = image_inv g c qs s"
  by (simp only: image_inv_def ring_points_def)

lemma project_step:
  assumes "image_inv g c qs s" and "imu_available (cloudInfo s) \<longrightarrow> imu_ok s" and "sensor c = LIVOX" and "downsampleRate c \<noteq> 0"
    and "lidarMaxRange c < FLT_MAX"
  shows "\<exists>s'. project_point g c p s = Inr s' \<and> image_inv g c (qs @ [p]) s' \<and> scan_frame s s'"
proof (cases "taken c (p_ring p) p")
  case False
  then have n: "\<not> taken c r p" for r by (auto simp: taken_def)
  then have "image_inv g c (qs @ [p]) s" using assms(1) image_inv_cong [of c "qs @ [p]" qs g s] by simp
  moreover have "project_point g c p s = Inr s"
  proof (cases "pointDistance p < lidarMinRange c \<or> pointDistance p > lidarMaxRange c \<or> N_SCAN c \<le> p_ring p")
    case True
    then show ?thesis by (auto simp: project_point_def Let_def)
  next
    case in_range: False
    then have "p_ring p mod downsampleRate c \<noteq> 0" using False by (simp add: taken_def)
    then show ?thesis using in_range assms(4) by (simp add: project_point_def Let_def)
  qed
  ultimately show ?thesis by (auto simp: scan_frame_def)
next
  case True
  let ?r = "p_ring p" and ?h = "Horizon_SCAN c"
  have r: "?r < N_SCAN c" "?r mod downsampleRate c = 0" "lidarMinRange c \<le> pointDistance p" "pointDistance p \<le> lidarMaxRange c"
    using True by (simp_all add: taken_def)
  have other: "\<not> taken c r p" if "r \<noteq> ?r" for r using that by (auto simp: taken_def)
  define k where "k = length (filter (taken c ?r) qs)"
  have col: "columnIdnCountVec s ! ?r = k" using assms(1) r(1) by (simp add: image_inv_def k_def)
  let ?s1 = "s\<lparr>columnIdnCountVec := (columnIdnCountVec s)[?r := k + 1]\<rparr>"
  have cnt: "\<forall>q<N_SCAN c. (columnIdnCountVec s)[?r := k + 1] ! q = length (filter (taken c q) (qs @ [p]))"
  proof (intro allI impI)
    fix q assume q: "q < N_SCAN c"
    have "length (columnIdnCountVec s) = N_SCAN c" "columnIdnCountVec s ! q = length (filter (taken c q) qs)"
      using assms(1) q by (simp_all add: image_inv_def)
    then show "(columnIdnCountVec s)[?r := k + 1] ! q = length (filter (taken c q) (qs @ [p]))"
      using True other [of q] r(1) by (cases "q = ?r") (simp_all add: k_def)
  qed
  show ?thesis
  proof (cases "k < ?h")
    case False
    then have "project_point g c p s = Inr ?s1" using r assms(3,4) col by (simp add: project_point_def Let_def)
    moreover have "ring_points c (qs @ [p]) q = ring_points c qs q" for q
      using False other [of q] by (cases "q = ?r") (auto simp: ring_points_snoc k_def)
    then have "image_inv g c (qs @ [p]) ?s1"
      using assms(1) cnt turned_frame [of s ?s1] by (simp add: image_inv_def scan_frame_def)
    ultimately show ?thesis by (auto simp: scan_frame_def)
  next
    case room: True
    have new: "ring_points c (qs @ [p]) q = (if q = ?r then ring_points c qs q @ [p] else ring_points c qs q)" for q
      using room True other [of q] by (auto simp: ring_points_snoc k_def)
    have lk: "length (ring_points c qs ?r) = k" using room by (simp add: length_ring_points k_def)
    have free: "rangeMat s ! ?r ! k = FLT_MAX" using assms(1) r(1) room lk by (simp add: image_inv_def)
    obtain s2 where d: "deskewPoint g (PointType.truncate p) (p_time p) ?s1 = Inr (s2, turned g s2 p)" "scan_frame ?s1 s2"
      "rangeMat s2 = rangeMat s" "fullCloud s2 = fullCloud s" "columnIdnCountVec s2 = (columnIdnCountVec s)[?r := k + 1]"
      "imu_available (cloudInfo s) \<longrightarrow> \<not> firstPointFlag s2" "\<not> firstPointFlag s \<or> \<not> imu_available (cloudInfo s) \<longrightarrow> s2 = ?s1"
      using deskew_turns [of ?s1 g p] assms(2) by (auto simp: imu_ok_def)
    let ?s3 = "s2\<lparr>rangeMat := (rangeMat s2)[?r := (rangeMat s2 ! ?r)[k := pointDistance p]],
      fullCloud := (fullCloud s2)[k + ?r * ?h := turned g s2 p]\<rparr>"
    have p3: "project_point g c p s = Inr ?s3"
      using r assms(3,4) col room free d(1) by (simp add: project_point_def Let_def)
    have f: "scan_frame s ?s3" using d(2) by (simp add: scan_frame_def)
    have t3: "turned g ?s3 = turned g s2" by (rule turned_frame) (simp_all add: scan_frame_def)
    have t2: "turned g s2 q = turned g s q" if "q \<in> set (ring_points c qs e)" "e < N_SCAN c" for q e
    proof (cases "imu_available (cloudInfo s)")
      case True
      then have "s2 = ?s1" using d(7) that assms(1) by (auto simp: image_inv_def)
      then show ?thesis using turned_frame [of s ?s1 g] by (simp add: scan_frame_def)
    next
      case False
      then have "s2 = ?s1" using d(7) by blast
      then show ?thesis using turned_frame [of s ?s1 g] by (simp add: scan_frame_def)
    qed
    have "image_inv g c (qs @ [p]) ?s3"
      unfolding image_inv_def
    proof (intro conjI allI impI)
      fix q j assume q: "q < N_SCAN c" "j < ?h"
      show "rangeMat ?s3 ! q ! j = (if j < length (ring_points c (qs @ [p]) q) then pointDistance (ring_points c (qs @ [p]) q ! j) else FLT_MAX)"
      proof (cases "q = ?r")
        case True
        then show ?thesis using q assms(1) r(1) lk d(3) new [of q] by (auto simp: image_inv_def nth_append nth_list_update)
      next
        case False
        then show ?thesis using q assms(1) d(3) new [of q] by (simp add: image_inv_def)
      qed
    next
      fix q j assume q: "q < N_SCAN c" and j: "j < length (ring_points c (qs @ [p]) q)"
      have jh: "j < ?h" using j by (simp add: length_ring_points)
      have len: "length (fullCloud s2) = N_SCAN c * ?h" using assms(1) d(4) by (simp add: image_inv_def)
      show "fullCloud ?s3 ! (j + q * ?h) = turned g ?s3 (ring_points c (qs @ [p]) q ! j)"
      proof (cases "q = ?r \<and> j = k")
        case True
        then show ?thesis using len cell_less [OF jh q] lk new [of q] by (simp add: t3 nth_append)
      next
        case False
        then have ne: "j + q * ?h \<noteq> k + ?r * ?h" using cell_inj [OF jh room] by blast
        have jq: "j < length (ring_points c qs q)" using j False lk new [of q] by (auto split: if_splits)
        then have "turned g s2 (ring_points c qs q ! j) = turned g s (ring_points c qs q ! j)" using t2 q nth_mem by blast
        moreover have "fullCloud ?s3 ! (j + q * ?h) = fullCloud s ! (j + q * ?h)" using ne d(4) by simp
        moreover have "fullCloud s ! (j + q * ?h) = turned g s (ring_points c qs q ! j)" using assms(1) q jq by (simp add: image_inv_def)
        moreover have "ring_points c (qs @ [p]) q ! j = ring_points c qs q ! j" using new [of q] jq by (cases "q = ?r") (simp_all add: nth_append)
        ultimately show ?thesis unfolding t3 by simp
      qed
    next
      fix q assume q: "q < N_SCAN c"
      have "length (rangeMat s) = N_SCAN c" "length (rangeMat s ! q) = ?h" using assms(1) q by (simp_all add: image_inv_def)
      then show "length (rangeMat ?s3 ! q) = ?h" using d(3) r(1) by (cases "q = ?r") simp_all
      show "columnIdnCountVec ?s3 ! q = length (filter (taken c q) (qs @ [p]))" using cnt q d(5) by simp
    next
      fix q assume flag: "firstPointFlag ?s3 \<and> imu_available (cloudInfo ?s3)"
      have "imu_available (cloudInfo s)" using flag f by (simp add: scan_frame_def)
      then show "ring_points c (qs @ [p]) q = []" using flag d(6) by simp
    qed (use assms(1) d(3-5) in \<open>simp_all add: image_inv_def\<close>)
    then show ?thesis using p3 f by blast
  qed
qed

lemma project_all:
  assumes "image_inv g c qs s" and "imu_available (cloudInfo s) \<longrightarrow> imu_ok s" and "sensor c = LIVOX" and "downsampleRate c \<noteq> 0"
    and "lidarMaxRange c < FLT_MAX"
  shows "\<exists>s'. projectPointCloud g c ps s = Inr s' \<and> image_inv g c (qs @ ps) s' \<and> scan_frame s s'"
  using assms(1,2)
proof (induction ps arbitrary: qs s)
  case Nil
  then show ?case by (simp add: scan_frame_def)
next
  case (Cons p ps)
  obtain s1 where s1: "project_point g c p s = Inr s1" "image_inv g c (qs @ [p]) s1" "scan_frame s s1"
    using project_step [OF Cons.prems assms(3-5)] by blast
  have "imu_available (cloudInfo s1) \<longrightarrow> imu_ok s1" using Cons.prems(2) s1(3) by (simp add: scan_frame_def imu_ok_def)
  from Cons.IH [OF s1(2) this] show ?case using s1(1,3) by (auto intro: scan_frame_trans)
qed

section \<open>Ring by ring\<close>

text \<open>The extraction writes five fields; everything else of the state is that of \<open>s\<close>.\<close>

definition written :: "'a ImageProjection \<Rightarrow> int list \<Rightarrow> real list \<Rightarrow> int list \<Rightarrow> int list \<Rightarrow> PointType list \<Rightarrow> 'a ImageProjection" where
  "written s cs rs ss es ex = s\<lparr>cloudInfo := (cloudInfo s)\<lparr>point_col_ind := cs, point_range := rs, start_ring_index := ss, end_ring_index := es\<rparr>,
     extractedCloud := ex\<rparr>"

lemma written_self: "s = written s (point_col_ind (cloudInfo s)) (point_range (cloudInfo s)) (start_ring_index (cloudInfo s))
    (end_ring_index (cloudInfo s)) (extractedCloud s)"
  by (simp add: written_def)

text \<open>The cells of ring \<open>i\<close> among \<open>js\<close> that hold a point, and what is sent of a cell.\<close>

definition filled :: "'a ImageProjection \<Rightarrow> nat \<Rightarrow> nat list \<Rightarrow> nat list" where
  "filled s i js = filter (\<lambda>j. rangeMat s ! i ! j \<noteq> FLT_MAX) js"

definition cell_point :: "ParamServer \<Rightarrow> 'a ImageProjection \<Rightarrow> nat \<Rightarrow> nat \<Rightarrow> PointType" where
  "cell_point c s i j = fullCloud s ! (j + i * Horizon_SCAN c)"

lemma extract_cell_written: "extract_cell c i j (n, written s cs rs ss es ex) =
    (if rangeMat s ! i ! j \<noteq> FLT_MAX
     then (n + 1, written s (cs[n := int j]) (rs[n := rangeMat s ! i ! j]) ss es (ex @ [cell_point c s i j]))
     else (n, written s cs rs ss es ex))"
  by (simp add: extract_cell_def written_def cell_point_def)

lemma take_update_snoc: "n < length xs \<Longrightarrow> take (Suc n) (xs[n := x]) = take n xs @ [x]"
  by (simp add: take_Suc_conv_app_nth)

text \<open>Writing a list from position \<open>n\<close> on.\<close>

fun put_at :: "nat \<Rightarrow> 'b list \<Rightarrow> 'b list \<Rightarrow> 'b list" where
  "put_at n [] xs = xs"
| "put_at n (y # ys) xs = put_at (n + 1) ys (xs[n := y])"

lemma length_put_at [simp]: "length (put_at n ys xs) = length xs"
  by (induction n ys xs rule: put_at.induct) simp_all

lemma take_put_at: "n + length ys \<le> length xs \<Longrightarrow> take (n + length ys) (put_at n ys xs) = take n xs @ ys"
proof (induction n ys xs rule: put_at.induct)
  case (2 n y ys xs)
  then show ?case by (simp add: take_update_snoc)
qed simp

lemma extract_cells: "fold (extract_cell c i) js (n, written s cs rs ss es ex) = (n + length (filled s i js),
    written s (put_at n (map int (filled s i js)) cs) (put_at n (map (\<lambda>j. rangeMat s ! i ! j) (filled s i js)) rs) ss es
      (ex @ map (cell_point c s i) (filled s i js)))"
  by (induction js arbitrary: n cs rs ex) (simp_all add: filled_def extract_cell_written)

lemma extract_ring_written: "extract_ring c i (n, written s cs rs ss es ex) =
    (let js = filled s i [0..<Horizon_SCAN c] in (n + length js,
     written s (put_at n (map int js) cs) (put_at n (map (\<lambda>j. rangeMat s ! i ! j) js) rs) (ss[i := int n + 4]) (es[i := int (n + length js) - 6])
       (ex @ map (cell_point c s i) js)))"
proof -
  have st: "(written s cs rs ss es ex)\<lparr>cloudInfo := (cloudInfo (written s cs rs ss es ex))
      \<lparr>start_ring_index := (start_ring_index (cloudInfo (written s cs rs ss es ex)))[i := int n - 1 + 5]\<rparr>\<rparr>
      = written s cs rs (ss[i := int n + 4]) es ex"
    by (simp add: written_def add.commute)
  have en: "(written s cs rs ss es ex)\<lparr>cloudInfo := (cloudInfo (written s cs rs ss es ex))
      \<lparr>end_ring_index := (end_ring_index (cloudInfo (written s cs rs ss es ex)))[i := int k - 1 - 5]\<rparr>\<rparr>
      = written s cs rs ss (es[i := int k - 6]) ex" for cs rs ss ex k
    by (simp add: written_def)
  show ?thesis by (simp only: extract_ring_def prod.case Let_def st extract_cells en)
qed

text \<open>The rings before ring \<open>i\<close>, one after the other.\<close>

definition rings_before :: "(nat \<Rightarrow> 'b list) \<Rightarrow> nat \<Rightarrow> 'b list" where
  "rings_before f i = concat (map f [0..<i])"

lemma rings_before_simps [simp]: "rings_before f 0 = []" "rings_before f (Suc i) = rings_before f i @ f i"
  by (simp_all add: rings_before_def)

lemma rings_before_mono: "i \<le> j \<Longrightarrow> length (rings_before f i) \<le> length (rings_before f j)"
  by (induction j) (auto simp: le_Suc_eq)

lemma rings_before_cong: "(\<And>r. r < i \<Longrightarrow> f r = g r) \<Longrightarrow> rings_before f i = rings_before g i"
  by (induction i) simp_all

lemma rings_before_map: "rings_before (\<lambda>r. map h (f r)) i = map h (rings_before f i)"
  by (induction i) simp_all

lemma length_rings_before_map: "length (rings_before (\<lambda>r. map (h r) (f r)) i) = length (rings_before f i)"
  by (induction i) simp_all

text \<open>How far the extraction has come; \<open>cells r\<close> are the filled cells of ring \<open>r\<close>.\<close>

lemma extract_all:
  fixes s :: "'a ImageProjection" and c :: ParamServer
  defines "cells \<equiv> \<lambda>r. filled s r [0..<Horizon_SCAN c]"
  assumes "i \<le> length (start_ring_index (cloudInfo s))" and "i \<le> length (end_ring_index (cloudInfo s))"
    and "length (rings_before cells i) \<le> length (point_col_ind (cloudInfo s))"
    and "length (rings_before cells i) \<le> length (point_range (cloudInfo s))"
  shows "\<exists>cs rs ss es. fold (extract_ring c) [0..<i] (0, s) = (length (rings_before cells i), written s cs rs ss es
        (extractedCloud s @ rings_before (\<lambda>r. map (cell_point c s r) (cells r)) i))
    \<and> length cs = length (point_col_ind (cloudInfo s)) \<and> length rs = length (point_range (cloudInfo s))
    \<and> length ss = length (start_ring_index (cloudInfo s)) \<and> length es = length (end_ring_index (cloudInfo s))
    \<and> take (length (rings_before cells i)) cs = map int (rings_before cells i)
    \<and> take (length (rings_before cells i)) rs = rings_before (\<lambda>r. map (\<lambda>j. rangeMat s ! r ! j) (cells r)) i
    \<and> (\<forall>r<i. ss ! r = int (length (rings_before cells r)) + 4 \<and> es ! r = int (length (rings_before cells (Suc r))) - 6)"
  using assms(2-5)
proof (induction i)
  case 0
  show ?case by (intro exI) (auto intro: written_self)
next
  case (Suc i)
  let ?n = "length (rings_before cells i)"
  have le: "i \<le> length (start_ring_index (cloudInfo s))" "i \<le> length (end_ring_index (cloudInfo s))"
    "?n \<le> length (point_col_ind (cloudInfo s))" "?n \<le> length (point_range (cloudInfo s))"
    using Suc.prems by simp_all
  obtain cs rs ss es where f: "fold (extract_ring c) [0..<i] (0, s) = (?n, written s cs rs ss es
        (extractedCloud s @ rings_before (\<lambda>r. map (cell_point c s r) (cells r)) i))"
    and l: "length cs = length (point_col_ind (cloudInfo s))" "length rs = length (point_range (cloudInfo s))"
      "length ss = length (start_ring_index (cloudInfo s))" "length es = length (end_ring_index (cloudInfo s))"
    and t: "take ?n cs = map int (rings_before cells i)" "take ?n rs = rings_before (\<lambda>r. map (\<lambda>j. rangeMat s ! r ! j) (cells r)) i"
    and ix: "\<forall>r<i. ss ! r = int (length (rings_before cells r)) + 4 \<and> es ! r = int (length (rings_before cells (Suc r))) - 6"
    using Suc.IH [OF le] by blast
  define cs' where "cs' = put_at ?n (map int (cells i)) cs"
  define rs' where "rs' = put_at ?n (map (\<lambda>j. rangeMat s ! i ! j) (cells i)) rs"
  define ss' where "ss' = ss[i := int ?n + 4]"
  define es' where "es' = es[i := int (?n + length (cells i)) - 6]"
  have "fold (extract_ring c) [0..<Suc i] (0, s) = (length (rings_before cells (Suc i)), written s cs' rs' ss' es'
      (extractedCloud s @ rings_before (\<lambda>r. map (cell_point c s r) (cells r)) (Suc i)))"
    using f by (simp add: extract_ring_written cells_def cs'_def rs'_def ss'_def es'_def Let_def)
  moreover have "take (length (rings_before cells (Suc i))) cs' = map int (rings_before cells (Suc i))"
    using take_put_at [of ?n "map int (cells i)" cs] Suc.prems(3) l(1) t(1) by (simp add: cs'_def)
  moreover have "take (length (rings_before cells (Suc i))) rs' = rings_before (\<lambda>r. map (\<lambda>j. rangeMat s ! r ! j) (cells r)) (Suc i)"
    using take_put_at [of ?n "map (\<lambda>j. rangeMat s ! i ! j) (cells i)" rs] Suc.prems(4) l(2) t(2) by (simp add: rs'_def)
  moreover have "\<forall>r<Suc i. ss' ! r = int (length (rings_before cells r)) + 4 \<and> es' ! r = int (length (rings_before cells (Suc r))) - 6"
    using ix Suc.prems(1,2) l(3,4) by (auto simp: ss'_def es'_def nth_list_update less_Suc_eq)
  moreover have "length cs' = length (point_col_ind (cloudInfo s))" "length rs' = length (point_range (cloudInfo s))"
    "length ss' = length (start_ring_index (cloudInfo s))" "length es' = length (end_ring_index (cloudInfo s))"
    using l by (simp_all add: cs'_def rs'_def ss'_def es'_def)
  ultimately show ?case by blast
qed

section \<open>A whole scan\<close>

text \<open>What the inertial data and the odometry leave alone.\<close>

definition scan_part :: "'a ImageProjection \<Rightarrow> (CustomMsg list \<times> PointXYZIRT list \<times> PointType list \<times> PointType list \<times> real list list)
    \<times> (bool \<times> real \<times> real \<times> nat list) \<times> (int list \<times> int list \<times> int list \<times> real list)" where
  "scan_part s = ((cloudQueue s, laserCloudIn s, fullCloud s, extractedCloud s, rangeMat s), (firstPointFlag s, timeScanCur s, timeScanEnd s, columnIdnCountVec s),
     (start_ring_index (cloudInfo s), end_ring_index (cloudInfo s), point_col_ind (cloudInfo s), point_range (cloudInfo s)))"

lemma imu_loop_ok:
  assumes "length (imuTime s) = queueLength" and "length (imuRot s) = queueLength" and "0 \<le> imuPointerCur s"
    and "imuPointerCur s + int (length ms) \<le> int queueLength"
  shows "\<exists>s'. imu_loop g ms s = Inr s' \<and> scan_part s' = scan_part s \<and> length (imuTime s') = queueLength \<and> length (imuRot s') = queueLength
    \<and> 0 \<le> imuPointerCur s' \<and> imuPointerCur s' \<le> int queueLength"
  using assms
proof (induction ms arbitrary: s)
  case Nil
  then show ?case by simp
next
  case (Cons m ms)
  define s1 where "s1 = (if ri_stamp m \<le> timeScanCur s then s\<lparr>cloudInfo := (cloudInfo s)\<lparr>imu_rpy_init := getRPY g (ri_orientation m)\<rparr>\<rparr> else s)"
  have s1: "scan_part s1 = scan_part s" "imuTime s1 = imuTime s" "imuRot s1 = imuRot s" "imuPointerCur s1 = imuPointerCur s"
    by (simp_all add: s1_def scan_part_def)
  obtain ax ay az where a: "ri_angular m = (ax, ay, az)" by (metis prod_cases3)
  define k where "k = nat (imuPointerCur s)"
  obtain rx ry rz where r: "imuRot s ! (k - 1) = (rx, ry, rz)" by (metis prod_cases3)
  let ?s2 = "s1\<lparr>imuRot := (imuRot s1)[0 := (0, 0, 0)], imuTime := (imuTime s1)[0 := ri_stamp m], imuPointerCur := 1\<rparr>"
  let ?d = "ri_stamp m - imuTime s1 ! (k - 1)"
  let ?s3 = "s1\<lparr>imuRot := (imuRot s1)[k := (rx + ax * ?d, ry + ay * ?d, rz + az * ?d)], imuTime := (imuTime s1)[k := ri_stamp m],
      imuPointerCur := imuPointerCur s1 + 1\<rparr>"
  have "imu_loop g (m # ms) s = (if ri_stamp m > timeScanEnd s + 0.01 then Inr s1 else if imuPointerCur s = 0 then imu_loop g ms ?s2 else imu_loop g ms ?s3)"
    using Cons.prems s1 a r by (simp add: s1_def [symmetric] k_def Let_def)
  moreover have "scan_part ?s2 = scan_part s" "scan_part ?s3 = scan_part s" using s1(1) by (simp_all add: scan_part_def)
  moreover have "length (imuTime ?s2) = queueLength" "length (imuRot ?s2) = queueLength" "length (imuTime ?s3) = queueLength" "length (imuRot ?s3) = queueLength"
    using Cons.prems(1,2) s1 by simp_all
  moreover have "0 \<le> imuPointerCur ?s2" "0 \<le> imuPointerCur ?s3" "imuPointerCur ?s3 + int (length ms) \<le> int queueLength"
    using Cons.prems(3,4) s1 by simp_all
  moreover have "imuPointerCur ?s2 + int (length ms) \<le> int queueLength" if "imuPointerCur s = 0" using Cons.prems(4) that by simp
  ultimately show ?case using Cons.IH [of ?s2] Cons.IH [of ?s3] Cons.prems s1 by (cases "imuPointerCur s = 0") auto
qed

lemma imu_loop_available: "imu_loop g ms s = Inr s' \<Longrightarrow> imu_available (cloudInfo s') = imu_available (cloudInfo s)"
  by (induction g ms s rule: imu_loop.induct) (auto simp: Let_def split: if_splits prod.splits)

lemma odomDeskewInfo_frame: "scan_part (odomDeskewInfo g s) = scan_part s" "imuTime (odomDeskewInfo g s) = imuTime s"
    "imuRot (odomDeskewInfo g s) = imuRot s" "imuPointerCur (odomDeskewInfo g s) = imuPointerCur s"
    "imu_available (cloudInfo (odomDeskewInfo g s)) = imu_available (cloudInfo s)"
  by (simp_all add: odomDeskewInfo_def scan_part_def Let_def split: option.split)

lemma deskewInfo_ok:
  assumes "imuQueue s \<noteq> []" and "ri_stamp (hd (imuQueue s)) \<le> timeScanCur s" and "timeScanEnd s \<le> ri_stamp (last (imuQueue s))"
    and "length (imuQueue s) \<le> queueLength" and "length (imuTime s) = queueLength" and "length (imuRot s) = queueLength"
  shows "\<exists>s'. deskewInfo g s = Inr (s', True) \<and> scan_part s' = scan_part s \<and> length (imuTime s') = queueLength \<and> length (imuRot s') = queueLength
    \<and> (imu_available (cloudInfo s') \<longrightarrow> imu_ok s')"
proof -
  let ?q = "dropWhile (\<lambda>m. ri_stamp m < timeScanCur s - 0.01) (imuQueue s)"
  let ?s1 = "s\<lparr>cloudInfo := (cloudInfo s)\<lparr>imu_available := False\<rparr>, imuQueue := ?q\<rparr>"
  have "\<exists>s'. imuDeskewInfo g s = Inr s' \<and> scan_part s' = scan_part s \<and> length (imuTime s') = queueLength \<and> length (imuRot s') = queueLength
      \<and> (imu_available (cloudInfo s') \<longrightarrow> imu_ok s')"
  proof (cases "?q = []")
    case True
    then show ?thesis using assms(5,6) by (simp add: imuDeskewInfo_def scan_part_def)
  next
    case False
    have "length ?q \<le> queueLength" using assms(4) length_dropWhile_le le_trans by blast
    then obtain s2 where s2: "imu_loop g ?q (?s1\<lparr>imuPointerCur := 0\<rparr>) = Inr s2" "scan_part s2 = scan_part (?s1\<lparr>imuPointerCur := 0\<rparr>)"
      "length (imuTime s2) = queueLength" "length (imuRot s2) = queueLength" "0 \<le> imuPointerCur s2" "imuPointerCur s2 \<le> int queueLength"
      "imu_available (cloudInfo s2) = imu_available (cloudInfo s2)"
      using imu_loop_ok [of "?s1\<lparr>imuPointerCur := 0\<rparr>" ?q g] assms(5,6) by auto
    let ?s3 = "s2\<lparr>imuPointerCur := imuPointerCur s2 - 1\<rparr>"
    let ?s4 = "if imuPointerCur ?s3 \<le> 0 then ?s3 else ?s3\<lparr>cloudInfo := (cloudInfo ?s3)\<lparr>imu_available := True\<rparr>\<rparr>"
    have "imuDeskewInfo g s = Inr ?s4" using False s2(1) by (simp add: imuDeskewInfo_def Let_def del: dropWhile_eq_Nil_conv)
    moreover have "scan_part ?s4 = scan_part s" using s2(2) by (simp add: scan_part_def)
    moreover have "imu_available (cloudInfo ?s4) \<longrightarrow> imu_ok ?s4"
      using s2(3-6) imu_loop_available [OF s2(1)] by (simp add: imu_ok_def)
    ultimately show ?thesis using s2(3,4) by (intro exI [of _ ?s4]) auto
  qed
  then obtain s' where s': "imuDeskewInfo g s = Inr s'" "scan_part s' = scan_part s" "length (imuTime s') = queueLength" "length (imuRot s') = queueLength"
      "imu_available (cloudInfo s') \<longrightarrow> imu_ok s'" by blast
  then have "deskewInfo g s = Inr (odomDeskewInfo g s', True)" using assms(1-3) by (simp add: deskewInfo_def)
  then show ?thesis using s' by (simp add: odomDeskewInfo_frame imu_ok_def)
qed

lemma filter_upt: "(\<And>j. j < n \<Longrightarrow> P j \<longleftrightarrow> j < k) \<Longrightarrow> k \<le> n \<Longrightarrow> filter P [0..<n] = [0..<k]"
proof -
  assume a: "\<And>j. j < n \<Longrightarrow> P j \<longleftrightarrow> j < k" and k: "k \<le> n"
  have "[0..<n] = [0..<k] @ [k..<n]" using k by (metis le_add_diff_inverse upt_add_eq_append zero_le)
  moreover have "filter P [0..<k] = [0..<k]" using a k by simp
  moreover have "filter P [k..<n] = []" using a by (simp add: filter_empty_conv)
  ultimately show ?thesis by simp
qed

text \<open>The filled cells of a projected scan are the first ones of each ring.\<close>

lemma image_cells:
  assumes "image_inv g c ps s" and "r < N_SCAN c" and "lidarMaxRange c < FLT_MAX"
  shows "filled s r [0..<Horizon_SCAN c] = [0..<length (ring_points c ps r)]"
    and "map (\<lambda>j. rangeMat s ! r ! j) [0..<length (ring_points c ps r)] = map pointDistance (ring_points c ps r)"
    and "map (cell_point c s r) [0..<length (ring_points c ps r)] = map (turned g s) (ring_points c ps r)"
proof -
  have cell: "rangeMat s ! r ! j = (if j < length (ring_points c ps r) then pointDistance (ring_points c ps r ! j) else FLT_MAX)" if "j < Horizon_SCAN c" for j
    using assms(1,2) that by (simp add: image_inv_def)
  have le: "length (ring_points c ps r) \<le> Horizon_SCAN c" by (simp add: length_ring_points)
  have short: "pointDistance p \<noteq> FLT_MAX" if "p \<in> set (ring_points c ps r)" for p
    using that assms(3) by (auto simp: ring_points_def taken_def dest!: in_set_takeD)
  have "rangeMat s ! r ! j \<noteq> FLT_MAX \<longleftrightarrow> j < length (ring_points c ps r)" if "j < Horizon_SCAN c" for j
    using cell [OF that] short [OF nth_mem, of j] by presburger
  then show "filled s r [0..<Horizon_SCAN c] = [0..<length (ring_points c ps r)]"
    unfolding filled_def by (rule filter_upt) (use le in auto)
  show "map (\<lambda>j. rangeMat s ! r ! j) [0..<length (ring_points c ps r)] = map pointDistance (ring_points c ps r)"
    by (rule nth_equalityI) (use cell le in simp_all)
  show "map (cell_point c s r) [0..<length (ring_points c ps r)] = map (turned g s) (ring_points c ps r)"
    by (rule nth_equalityI) (use assms(1,2) in \<open>auto simp: cell_point_def image_inv_def\<close>)
qed

lemma cloudExtraction_ok:
  assumes "image_inv g c ps s" and "lidarMaxRange c < FLT_MAX" and "extractedCloud s = []"
    and "length (start_ring_index (cloudInfo s)) = N_SCAN c" and "length (end_ring_index (cloudInfo s)) = N_SCAN c"
    and "length (point_col_ind (cloudInfo s)) = N_SCAN c * Horizon_SCAN c" and "length (point_range (cloudInfo s)) = N_SCAN c * Horizon_SCAN c"
  shows "\<exists>cs rs ss es. let n = length (rings_before (ring_points c ps) (N_SCAN c)) in
      cloudExtraction c s = written s cs rs ss es (map (turned g s) (rings_before (ring_points c ps) (N_SCAN c)))
    \<and> length cs = N_SCAN c * Horizon_SCAN c \<and> length rs = N_SCAN c * Horizon_SCAN c \<and> length ss = N_SCAN c \<and> length es = N_SCAN c
    \<and> take n cs = map int (rings_before (\<lambda>r. [0..<length (ring_points c ps r)]) (N_SCAN c))
    \<and> take n rs = map pointDistance (rings_before (ring_points c ps) (N_SCAN c))
    \<and> (\<forall>r<N_SCAN c. ss ! r = int (length (rings_before (ring_points c ps) r)) + 4
         \<and> es ! r = int (length (rings_before (ring_points c ps) (Suc r))) - 6)"
proof -
  let ?n = "N_SCAN c" and ?ring = "ring_points c ps"
  let ?cells = "\<lambda>r. filled s r [0..<Horizon_SCAN c]"
  note image = image_cells [OF assms(1) _ assms(2)]
  have cells: "rings_before ?cells i = rings_before (\<lambda>r. [0..<length (?ring r)]) i" if "i \<le> ?n" for i
    by (rule rings_before_cong) (use image(1) that in auto)
  have len: "length (rings_before ?cells i) = length (rings_before ?ring i)" if "i \<le> ?n" for i
    unfolding cells [OF that] by (induction i) simp_all
  have "length (rings_before ?ring i) \<le> i * Horizon_SCAN c" for i
    by (induction i) (simp_all add: length_ring_points)
  then have fits: "length (rings_before ?cells ?n) \<le> ?n * Horizon_SCAN c" using len [of ?n] by simp
  have points: "rings_before (\<lambda>r. map (cell_point c s r) (?cells r)) ?n = map (turned g s) (rings_before ?ring ?n)"
    unfolding rings_before_map [symmetric] by (rule rings_before_cong) (use image(1,3) in simp)
  have ranges: "rings_before (\<lambda>r. map (\<lambda>j. rangeMat s ! r ! j) (?cells r)) ?n = map pointDistance (rings_before ?ring ?n)"
    unfolding rings_before_map [symmetric] by (rule rings_before_cong) (use image(1,2) in simp)
  have pre: "?n \<le> length (start_ring_index (cloudInfo s))" "?n \<le> length (end_ring_index (cloudInfo s))"
    "length (rings_before ?cells ?n) \<le> length (point_col_ind (cloudInfo s))" "length (rings_before ?cells ?n) \<le> length (point_range (cloudInfo s))"
    using fits assms(4-7) by simp_all
  from extract_all [OF pre] obtain cs rs ss es
    where f: "fold (extract_ring c) [0..<?n] (0, s) = (length (rings_before ?cells ?n), written s cs rs ss es
        (extractedCloud s @ rings_before (\<lambda>r. map (cell_point c s r) (?cells r)) ?n))"
    and l: "length cs = length (point_col_ind (cloudInfo s))" "length rs = length (point_range (cloudInfo s))"
      "length ss = length (start_ring_index (cloudInfo s))" "length es = length (end_ring_index (cloudInfo s))"
    and t: "take (length (rings_before ?cells ?n)) cs = map int (rings_before ?cells ?n)"
      "take (length (rings_before ?cells ?n)) rs = rings_before (\<lambda>r. map (\<lambda>j. rangeMat s ! r ! j) (?cells r)) ?n"
    and ix: "\<forall>r<?n. ss ! r = int (length (rings_before ?cells r)) + 4 \<and> es ! r = int (length (rings_before ?cells (Suc r))) - 6"
    by blast
  have "cloudExtraction c s = written s cs rs ss es (map (turned g s) (rings_before ?ring ?n))"
    unfolding cloudExtraction_def f snd_conv points assms(3) append_Nil ..
  moreover have "take (length (rings_before ?ring ?n)) cs = map int (rings_before (\<lambda>r. [0..<length (?ring r)]) ?n)"
    using t(1) unfolding len [OF order_refl] unfolding cells [OF order_refl] .
  moreover have "take (length (rings_before ?ring ?n)) rs = map pointDistance (rings_before ?ring ?n)"
    using t(2) unfolding len [OF order_refl] ranges .
  moreover have "\<forall>r<?n. ss ! r = int (length (rings_before ?ring r)) + 4 \<and> es ! r = int (length (rings_before ?ring (Suc r))) - 6"
    using ix len by (simp add: len less_imp_le Suc_leI del: rings_before_simps)
  ultimately show ?thesis using l unfolding Let_def assms(4-7) by (intro exI conjI)
qed

section \<open>Between scans\<close>

text \<open>How the node waits for a scan: the image is empty and every array has its size.\<close>

definition between_scans :: "ParamServer \<Rightarrow> 'a ImageProjection \<Rightarrow> bool" where
  "between_scans c s \<longleftrightarrow> rangeMat s = replicate (N_SCAN c) (replicate (Horizon_SCAN c) FLT_MAX) \<and> columnIdnCountVec s = replicate (N_SCAN c) 0
     \<and> firstPointFlag s \<and> extractedCloud s = [] \<and> length (fullCloud s) = N_SCAN c * Horizon_SCAN c
     \<and> length (start_ring_index (cloudInfo s)) = N_SCAN c \<and> length (end_ring_index (cloudInfo s)) = N_SCAN c
     \<and> length (point_col_ind (cloudInfo s)) = N_SCAN c * Horizon_SCAN c \<and> length (point_range (cloudInfo s)) = N_SCAN c * Horizon_SCAN c
     \<and> length (imuTime s) = queueLength \<and> length (imuRot s) = queueLength"

lemma allocated_waits: "between_scans c (allocateMemory c s)"
  by (simp add: allocateMemory_def resetParameters_def between_scans_def)

definition lidar_config :: "ParamServer \<Rightarrow> bool" where
  "lidar_config c \<longleftrightarrow> sensor c = LIVOX \<and> downsampleRate c \<noteq> 0 \<and> lidarMaxRange c < FLT_MAX \<and> norm4 (extQRPY c) \<noteq> 0"

text \<open>What the message of a scan holds: ring after ring the points that are taken, with the places of the rings.\<close>

definition info_image :: "ParamServer \<Rightarrow> (nat \<Rightarrow> PointXYZIRT list) \<Rightarrow> CloudInfo \<Rightarrow> bool" where
  "info_image c ring info \<longleftrightarrow> (let all = rings_before ring (N_SCAN c); n = length all in
     length (cloud_deskewed info) = n \<and> length (point_col_ind info) = N_SCAN c * Horizon_SCAN c \<and> length (point_range info) = N_SCAN c * Horizon_SCAN c
     \<and> length (start_ring_index info) = N_SCAN c \<and> length (end_ring_index info) = N_SCAN c \<and> n \<le> N_SCAN c * Horizon_SCAN c
     \<and> take n (point_col_ind info) = map int (rings_before (\<lambda>r. [0..<length (ring r)]) (N_SCAN c))
     \<and> take n (point_range info) = map pointDistance all
     \<and> (\<not> imu_available info \<longrightarrow> cloud_deskewed info = map PointType.truncate all)
     \<and> (\<forall>r<N_SCAN c. start_ring_index info ! r = int (length (rings_before ring r)) + 4
          \<and> end_ring_index info ! r = int (length (rings_before ring (Suc r))) - 6))"

text \<open>A scan whose inertial data is there: projected, extracted and sent, and the node waits again.\<close>

lemma scan_sent:
  assumes "between_scans c s" and "lidar_config c" and "scan_part s2 = scan_part s" and "length (imuTime s2) = queueLength"
    and "length (imuRot s2) = queueLength" and "imu_available (cloudInfo s2) \<longrightarrow> imu_ok s2"
  shows "\<exists>s3 s4. projectPointCloud g c (laserCloudIn s2) s2 = Inr s3 \<and> s4 = publishClouds (cloudExtraction c s3)
    \<and> info_image c (ring_points c (laserCloudIn s)) (cloudInfo s4) \<and> between_scans c (resetParameters c s4) \<and> cloudQueue s4 = cloudQueue s"
proof -
  let ?ps = "laserCloudIn s"
  have same: "laserCloudIn s2 = ?ps" "fullCloud s2 = fullCloud s" "extractedCloud s2 = extractedCloud s" "rangeMat s2 = rangeMat s" "firstPointFlag s2 = firstPointFlag s"
    "columnIdnCountVec s2 = columnIdnCountVec s" "cloudQueue s2 = cloudQueue s"
    "start_ring_index (cloudInfo s2) = start_ring_index (cloudInfo s)" "end_ring_index (cloudInfo s2) = end_ring_index (cloudInfo s)"
    "point_col_ind (cloudInfo s2) = point_col_ind (cloudInfo s)" "point_range (cloudInfo s2) = point_range (cloudInfo s)"
    using assms(3) by (simp_all add: scan_part_def)
  have "image_inv g c [] s2" using assms(1) same by (simp add: image_inv_def between_scans_def ring_points_def)
  then obtain s3 where s3: "projectPointCloud g c ?ps s2 = Inr s3" "image_inv g c ?ps s3" "scan_frame s2 s3"
    using project_all [of g c "[]" s2 ?ps] assms(2,6) by (auto simp: lidar_config_def)
  have f3: "cloudInfo s3 = cloudInfo s2" "extractedCloud s3 = []" "cloudQueue s3 = cloudQueue s" "imuTime s3 = imuTime s2" "imuRot s3 = imuRot s2"
    using s3(3) same assms(1) by (simp_all add: scan_frame_def between_scans_def)
  let ?all = "rings_before (ring_points c ?ps) (N_SCAN c)"
  have "lidarMaxRange c < FLT_MAX" using assms(2) by (simp add: lidar_config_def)
  then obtain cs rs ss es where e: "cloudExtraction c s3 = written s3 cs rs ss es (map (turned g s3) ?all)"
    and l: "length cs = N_SCAN c * Horizon_SCAN c" "length rs = N_SCAN c * Horizon_SCAN c" "length ss = N_SCAN c" "length es = N_SCAN c"
    and t: "take (length ?all) cs = map int (rings_before (\<lambda>r. [0..<length (ring_points c ?ps r)]) (N_SCAN c))"
      "take (length ?all) rs = map pointDistance ?all"
    and ix: "\<forall>r<N_SCAN c. ss ! r = int (length (rings_before (ring_points c ?ps) r)) + 4
         \<and> es ! r = int (length (rings_before (ring_points c ?ps) (Suc r))) - 6"
    using cloudExtraction_ok [OF s3(2)] f3(1,2) same(8-11) assms(1) unfolding Let_def between_scans_def by (metis (no_types, lifting))
  define s4 where "s4 = publishClouds (cloudExtraction c s3)"
  have s4: "cloudInfo s4 = (cloudInfo s2)\<lparr>point_col_ind := cs, point_range := rs, start_ring_index := ss, end_ring_index := es,
      cloud_deskewed := map (turned g s3) ?all\<rparr>" "cloudQueue s4 = cloudQueue s" "fullCloud s4 = fullCloud s3"
    "imuTime s4 = imuTime s3" "imuRot s4 = imuRot s3"
    using f3 by (simp_all add: s4_def publishClouds_def e written_def)
  have "length ?all \<le> N_SCAN c * Horizon_SCAN c"
    using arg_cong [OF t(2), of length] l(2) by simp
  moreover have "\<not> imu_available (cloudInfo s2) \<Longrightarrow> map (turned g s3) ?all = map PointType.truncate ?all"
    using f3(1) by (simp add: turned_def)
  ultimately have "info_image c (ring_points c ?ps) (cloudInfo s4)"
    using l t ix by (simp add: info_image_def Let_def s4(1) del: rings_before_simps)
  moreover have "between_scans c (resetParameters c s4)"
    using l s3(2) by (simp add: between_scans_def resetParameters_def s4 image_inv_def)
  ultimately show ?thesis using s3(1) same(1) s4(2) unfolding s4_def by auto
qed

section \<open>Every run of the node\<close>

lemma imu_loop_keeps:
  "imu_loop g ms s = Inr s' \<Longrightarrow> length (imuTime s) = queueLength \<Longrightarrow> length (imuRot s) = queueLength \<Longrightarrow> 0 \<le> imuPointerCur s
   \<Longrightarrow> imuPointerCur s \<le> int queueLength
   \<Longrightarrow> scan_part s' = scan_part s \<and> length (imuTime s') = queueLength \<and> length (imuRot s') = queueLength \<and> 0 \<le> imuPointerCur s'
     \<and> imuPointerCur s' \<le> int queueLength"
  by (induction g ms s rule: imu_loop.induct) (auto simp: Let_def scan_part_def queueLength_def split: if_splits prod.splits)

lemma deskewInfo_keeps:
  assumes "deskewInfo g s = Inr (s', b)" and "length (imuTime s) = queueLength" and "length (imuRot s) = queueLength"
  shows "scan_part s' = scan_part s \<and> length (imuTime s') = queueLength \<and> length (imuRot s') = queueLength
    \<and> (b \<longrightarrow> imu_available (cloudInfo s') \<longrightarrow> imu_ok s')"
proof (cases b)
  case False
  then show ?thesis using assms by (auto simp: deskewInfo_def sbind_eq_Inr split: if_splits)
next
  case True
  then obtain s1 where s1: "imuDeskewInfo g s = Inr s1" "s' = odomDeskewInfo g s1"
    using assms(1) by (auto simp: deskewInfo_def sbind_eq_Inr split: if_splits)
  let ?q = "dropWhile (\<lambda>m. ri_stamp m < timeScanCur s - 0.01) (imuQueue s)"
  let ?s0 = "s\<lparr>cloudInfo := (cloudInfo s)\<lparr>imu_available := False\<rparr>, imuQueue := ?q\<rparr>"
  have "scan_part s1 = scan_part s \<and> length (imuTime s1) = queueLength \<and> length (imuRot s1) = queueLength \<and> (imu_available (cloudInfo s1) \<longrightarrow> imu_ok s1)"
  proof (cases "?q = []")
    case True
    then have "s1 = ?s0" using s1(1) unfolding imuDeskewInfo_def Let_def by (simp del: dropWhile_eq_Nil_conv)
    then show ?thesis using assms(2,3) by (simp add: scan_part_def)
  next
    case False
    then obtain s2 where s2: "imu_loop g ?q (?s0\<lparr>imuPointerCur := 0\<rparr>) = Inr s2"
      and e: "s1 = (let s3 = s2\<lparr>imuPointerCur := imuPointerCur s2 - 1\<rparr> in
          if imuPointerCur s3 \<le> 0 then s3 else s3\<lparr>cloudInfo := (cloudInfo s3)\<lparr>imu_available := True\<rparr>\<rparr>)"
      using s1(1) unfolding imuDeskewInfo_def Let_def by (auto simp: sbind_eq_Inr simp del: dropWhile_eq_Nil_conv)
    show ?thesis using imu_loop_keeps [OF s2] imu_loop_available [OF s2] assms(2,3) by (simp add: e scan_part_def imu_ok_def Let_def)
  qed
  then show ?thesis unfolding s1(2) by (simp add: odomDeskewInfo_frame imu_ok_def)
qed

lemma cachePointCloud_keeps:
  "cachePointCloud c m s = Inr (s', b) \<Longrightarrow> between_scans c s \<Longrightarrow> between_scans c s'"
  by (auto simp: cachePointCloud_def Let_def sbind_eq_Inr between_scans_def split: if_splits)

text \<open>What a message of the node says for sure.\<close>

definition info_ok :: "ParamServer \<Rightarrow> CloudInfo \<Rightarrow> bool" where
  "info_ok c info \<longleftrightarrow> (\<exists>ring. (\<forall>r. length (ring r) \<le> Horizon_SCAN c \<and> (\<forall>p\<in>set (ring r). taken c r p)) \<and> info_image c ring info)"

lemma info_ok_ring_points: "info_image c (ring_points c ps) info \<Longrightarrow> info_ok c info"
  unfolding info_ok_def by (intro exI [of _ "ring_points c ps"]) (auto simp: length_ring_points ring_points_def dest: in_set_takeD)

lemma cloudHandler_keeps:
  assumes "cloudHandler g c m s = Inr (s', os)" and "between_scans c s" and "lidar_config c"
  shows "between_scans c s' \<and> list_all (info_ok c) os"
proof -
  obtain s1 tk where s1: "cachePointCloud c m s = Inr (s1, tk)" using assms(1) by (auto simp: cloudHandler_def sbind_eq_Inr)
  have b1: "between_scans c s1" using cachePointCloud_keeps [OF s1 assms(2)] .
  show ?thesis
  proof (cases tk)
    case False
    then show ?thesis using assms(1) s1 b1 by (auto simp: cloudHandler_def)
  next
    case True
    obtain s2 cov where s2: "deskewInfo g s1 = Inr (s2, cov)" using assms(1) s1 True by (auto simp: cloudHandler_def sbind_eq_Inr)
    note k = deskewInfo_keeps [OF s2]
    show ?thesis
    proof (cases cov)
      case False
      then show ?thesis using assms(1) s1 True s2 k b1 by (auto simp: cloudHandler_def between_scans_def scan_part_def)
    next
      case cov: True
      have "imu_available (cloudInfo s2) \<longrightarrow> imu_ok s2" using k cov b1 by (simp add: between_scans_def)
      then obtain s3 s4 where x: "projectPointCloud g c (laserCloudIn s2) s2 = Inr s3" "s4 = publishClouds (cloudExtraction c s3)"
        "info_image c (ring_points c (laserCloudIn s1)) (cloudInfo s4)" "between_scans c (resetParameters c s4)"
        using scan_sent [OF b1 assms(3), of s2 g] k b1 by (auto simp: between_scans_def)
      then show ?thesis using assms(1) s1 True s2 cov info_ok_ring_points by (auto simp: cloudHandler_def Let_def)
    qed
  qed
qed

lemma handlers_keep: "imuHandler c' m s = Inr s' \<Longrightarrow> between_scans c s' = between_scans c s" "between_scans c (odometryHandler d s) = between_scans c s"
  by (auto simp: imuHandler_def odometryHandler_def between_scans_def sbind_eq_Inr)

lemma imuHandler_ok: "lidar_config c \<Longrightarrow> imuHandler c m s = Inr (s\<lparr>imuQueue := imuQueue s @ [imu_turned c m]\<rparr>)"
  by (simp add: imuHandler_def imuConverter_def norm4_normalize lidar_config_def imu_turned_def)

interpretation projection: handler_system "projection_step g c" "\<lambda>s. between_scans c s \<and> lidar_config c" "info_ok c"
  for g :: "'a Geometry" and c
proof
  fix s :: "'a ImageProjection" and e s' os
  assume s: "between_scans c s \<and> lidar_config c" and h: "projection_step g c s e = Inr (s', os)"
  show "between_scans c s' \<and> lidar_config c"
    using s h by (cases e) (auto simp: handlers_keep sbind_eq_Inr dest: cloudHandler_keeps)
  show "list_all (info_ok c) os" using s h by (cases e) (auto simp: sbind_eq_Inr dest: cloudHandler_keeps)
qed

lemma projection_run_ok:
  "run_handlers (projection_step g c) (allocateMemory c s0) es = Inr (s, infos) \<Longrightarrow> lidar_config c \<Longrightarrow> info \<in> set infos \<Longrightarrow> info_ok c info"
  using projection.run_out allocated_waits by blast

section \<open>Properties\<close>

text \<open>
  C24.  However the scans, the inertial data and the odometry come, every message the node sends
  describes an image: the arrays have the size of the image, the points stand ring after ring, each
  with its column and its distance, at most as many as the image is wide and only such as lie in
  the range of distances and on a ring that is not thinned out, and the places of the rings are
  four behind their first point and six before the first point of the next one.
\<close>
theorem every_cloud_is_an_image:
  assumes "run_handlers (projection_step g c) (allocateMemory c s0) es = Inr (s, infos)" and "lidar_config c" and "info \<in> set infos"
  shows "info_ok c info \<and> between_scans c s"
  using projection.run_out [OF assms(1)] projection.run_inv [OF assms(1)] assms(2,3) allocated_waits by blast

lemma moveFromCustomMsg_all:
  assumes "cm_point_num m = of_nat (length (cm_points m))" and "length (cm_points m) < 2 ^ 32" and "cm_points m \<noteq> []"
  shows "moveFromCustomMsg m = Inr (map scan_point (butlast (cm_points m)))"
proof -
  let ?n = "length (cm_points m)"
  have "(of_nat ?n :: 32 word) - 1 = of_nat (?n - 1)" using assms(3) by (cases "cm_points m") simp_all
  then have n: "unat (cm_point_num m - 1) = ?n - 1"
    using assms(1,2) by (simp add: unat_of_nat take_bit_nat_eq_self_iff)
  have "moveFromCustomMsg m = Inr (map (\<lambda>i. scan_point (cm_points m ! i)) [0..<?n - 1])"
    unfolding moveFromCustomMsg_def n by (rule smap_Inr) auto
  also have "map (\<lambda>i. scan_point (cm_points m ! i)) [0..<?n - 1] = map scan_point (butlast (cm_points m))"
    by (rule nth_equalityI) (simp_all add: nth_butlast)
  finally show ?thesis .
qed

lemma moveFromCustomMsg_ready:
  assumes "cm_point_num m = of_nat (length (cm_points m))" and "length (cm_points m) < 2 ^ 32" and "2 \<le> length (cm_points m)"
  shows "moveFromCustomMsg m = Inr (map scan_point (butlast (cm_points m)))" and "butlast (cm_points m) \<noteq> []"
proof -
  have "cm_points m \<noteq> []" using assms(3) by auto
  then show "moveFromCustomMsg m = Inr (map scan_point (butlast (cm_points m)))" using moveFromCustomMsg_all assms(1,2) by blast
  show "butlast (cm_points m) \<noteq> []" using assms(3) by (cases "cm_points m" rule: rev_cases) auto
qed

definition scan_start :: "CustomMsg \<Rightarrow> real" where
  "scan_start m = stamp2Sec (cm_stamp m)"

definition scan_end :: "CustomMsg \<Rightarrow> real" where
  "scan_end m = scan_start m + p_time (scan_point (last (butlast (cm_points m))))"

text \<open>A message of a scan, and the inertial data that covers it.\<close>

definition scan_message :: "CustomMsg \<Rightarrow> bool" where
  "scan_message m \<longleftrightarrow> cm_point_num m = of_nat (length (cm_points m)) \<and> length (cm_points m) < 2 ^ 32 \<and> 2 \<le> length (cm_points m)"

definition covers :: "RosImu list \<Rightarrow> CustomMsg \<Rightarrow> bool" where
  "covers imus m \<longleftrightarrow> imus \<noteq> [] \<and> ri_stamp (hd imus) \<le> scan_start m \<and> scan_end m \<le> ri_stamp (last imus) \<and> length imus \<le> queueLength"

lemma cloudHandler_sends:
  assumes "between_scans c s" and "lidar_config c" and "cloudQueue s = [m1, m2]" and "scan_message m1" and "covers (imuQueue s) m1"
  shows "\<exists>s' info. cloudHandler g c m3 s = Inr (s', [info]) \<and> between_scans c s' \<and> cloudQueue s' = [m2, m3]
    \<and> info_image c (ring_points c (map scan_point (butlast (cm_points m1)))) info"
proof -
  let ?ps = "map scan_point (butlast (cm_points m1))"
  have mv: "moveFromCustomMsg m1 = Inr ?ps" "butlast (cm_points m1) \<noteq> []"
    using moveFromCustomMsg_ready assms(4) by (simp_all add: scan_message_def)
  define s1 where "s1 = s\<lparr>cloudQueue := [m2, m3], laserCloudIn := ?ps, timeScanCur := scan_start m1, timeScanEnd := scan_end m1\<rparr>"
  have s1: "cachePointCloud c m3 s = Inr (s1, True)"
    using assms(2,3) mv by (simp add: cachePointCloud_def s1_def scan_start_def scan_end_def lidar_config_def last_map)
  have b1: "between_scans c s1" using assms(1) by (simp add: s1_def between_scans_def)
  obtain s2 where s2: "deskewInfo g s1 = Inr (s2, True)" "scan_part s2 = scan_part s1" "length (imuTime s2) = queueLength" "length (imuRot s2) = queueLength"
    "imu_available (cloudInfo s2) \<longrightarrow> imu_ok s2"
    using deskewInfo_ok [of s1 g] assms(5) b1 by (auto simp: s1_def covers_def between_scans_def)
  obtain s3 s4 where s4: "projectPointCloud g c (laserCloudIn s2) s2 = Inr s3" "s4 = publishClouds (cloudExtraction c s3)"
    "info_image c (ring_points c (laserCloudIn s1)) (cloudInfo s4)" "between_scans c (resetParameters c s4)" "cloudQueue s4 = cloudQueue s1"
    using scan_sent [OF b1 assms(2) s2(2-5), of g] by blast
  have "cloudHandler g c m3 s = Inr (resetParameters c s4, [cloudInfo s4])"
    using s1 s2(1) s4(1,2) by (simp add: cloudHandler_def Let_def)
  moreover have "cloudQueue (resetParameters c s4) = [m2, m3]" using s4(5) by (simp add: resetParameters_def s1_def)
  ultimately show ?thesis using s4(3,4) by (auto simp: s1_def)
qed

text \<open>The node before its first scan: two scans and the inertial data only wait.\<close>

lemma first_messages:
  assumes "cloudQueue s = []" and "imuQueue s = []" and "lidar_config c"
  shows "run_handlers (projection_step g c) s ([CloudEvent m1, CloudEvent m2] @ map ImuEvent imus)
    = Inr (s\<lparr>cloudQueue := [m1, m2], imuQueue := map (imu_turned c) imus\<rparr>, [])"
proof -
  have imu: "run_handlers (projection_step g c) t (map ImuEvent ms) = Inr (t\<lparr>imuQueue := imuQueue t @ map (imu_turned c) ms\<rparr>, [])" for t ms
    by (induction ms arbitrary: t) (simp_all add: imuHandler_ok assms(3))
  have "run_handlers (projection_step g c) s [CloudEvent m1, CloudEvent m2] = Inr (s\<lparr>cloudQueue := [m1, m2]\<rparr>, [])"
    using assms(1) by (simp add: cloudHandler_def cachePointCloud_def)
  from run_handlers_append [OF this imu] show ?thesis using assms(2) by simp
qed

text \<open>
  C25.  From the start of the node, a scan that two more have followed, with inertial data from
  before its start to after its end (at most as many messages as the node has room for), is sent as
  an image of its points: those on a ring that is kept and in the range of distances, all but the
  last of the message, ring after ring and as many of each as the image is wide.  The node then
  waits for the next scan with the two later ones still in hand.
\<close>
theorem scan_becomes_image:
  assumes "lidar_config c" and "cloudQueue s = []" and "imuQueue s = []" and "scan_message m1" and "covers imus m1"
  shows "\<exists>s' info. run_handlers (projection_step g c) (allocateMemory c s) ([CloudEvent m1, CloudEvent m2] @ map ImuEvent imus @ [CloudEvent m3]) = Inr (s', [info])
    \<and> between_scans c s' \<and> cloudQueue s' = [m2, m3]
    \<and> info_image c (ring_points c (map scan_point (butlast (cm_points m1)))) info"
proof -
  let ?s = "(allocateMemory c s)\<lparr>cloudQueue := [m1, m2], imuQueue := map (imu_turned c) imus\<rparr>"
  have "between_scans c ?s" using allocated_waits [of c s] by (simp add: between_scans_def)
  moreover have "covers (imuQueue ?s) m1" using assms(5) by (auto simp: covers_def imu_turned_def hd_map last_map)
  ultimately obtain s' info where x: "cloudHandler g c m3 ?s = Inr (s', [info])" "between_scans c s'" "cloudQueue s' = [m2, m3]"
    "info_image c (ring_points c (map scan_point (butlast (cm_points m1)))) info"
    using cloudHandler_sends [of c ?s m1 m2 g m3] assms(1,4) by auto
  have "run_handlers (projection_step g c) (allocateMemory c s) ([CloudEvent m1, CloudEvent m2] @ map ImuEvent imus) = Inr (?s, [])"
    by (rule first_messages) (use assms(1-3) in \<open>simp_all add: allocateMemory_def resetParameters_def\<close>)
  moreover have "run_handlers (projection_step g c) ?s [CloudEvent m3] = Inr (s', [info])" using x(1) by simp
  ultimately have "run_handlers (projection_step g c) (allocateMemory c s) (([CloudEvent m1, CloudEvent m2] @ map ImuEvent imus) @ [CloudEvent m3])
      = Inr (s', [] @ [info])" by (rule run_handlers_append)
  then show ?thesis using x(2-4) by auto
qed

section \<open>Concrete runs\<close>

definition example_geometry :: "unit Geometry" where
  "example_geometry = \<lparr>getTransformation = (\<lambda>_ _ _ _ _ _. ()), affine_inverse = (\<lambda>_. ()), affine_mult = (\<lambda>_ _. ()),
     coeff = (\<lambda>_ i j. if i = j then 1 else 0), getRPY = (\<lambda>_. (0, 0, 0)), getTranslation = (\<lambda>_. (0, 0, 0))\<rparr>"

definition example_server :: ParamServer where
  "example_server = \<lparr>sensor = LIVOX, N_SCAN = 4, Horizon_SCAN = 6000, downsampleRate = 1, lidarMinRange = 1, lidarMaxRange = 1000, imuGravity = 9.80511,
     extRot = [[1, 0, 0], [0, 1, 0], [0, 0, 1]], extQRPY = (0, 0, 0, 1), edgeThreshold = 1, surfThreshold = 0.1, extTrans = (0, 0, 0)\<rparr>"

definition example_scan :: CustomMsg where
  "example_scan = \<lparr>cm_stamp = 0, cm_timebase = 0, cm_point_num = 3, cm_lidar_id = 0, cm_points =
     [\<lparr>cp_offset_time = 0, cp_x = 3, cp_y = 4, cp_z = 0, cp_reflectivity = 9, cp_tag = 0, cp_line = 1\<rparr>,
      \<lparr>cp_offset_time = 0, cp_x = 0, cp_y = 0, cp_z = 0, cp_reflectivity = 9, cp_tag = 0, cp_line = 1\<rparr>,
      \<lparr>cp_offset_time = 0, cp_x = 6, cp_y = 8, cp_z = 0, cp_reflectivity = 9, cp_tag = 0, cp_line = 2\<rparr>]\<rparr>"

definition example_imu :: RosImu where
  "example_imu = \<lparr>ri_stamp = 0, ri_acceleration = (0, 0, 1), ri_angular = (0, 0, 0), ri_orientation = (0, 0, 0, 1)\<rparr>"

definition example_info :: CloudInfo where
  "example_info = \<lparr>start_ring_index = [], end_ring_index = [], point_col_ind = [], point_range = [], imu_available = False, odom_available = False,
     imu_rpy_init = (0, 0, 0), initial_guess = ((0, 0, 0), (0, 0, 0)), cloud_deskewed = []\<rparr>"

definition example_projection :: "unit ImageProjection" where
  "example_projection = \<lparr>imuQueue = [], odomQueue = [], cloudQueue = [], imuTime = [], imuRot = [], imuPointerCur = 0, firstPointFlag = True,
     transStartInverse = (), laserCloudIn = [], fullCloud = [], extractedCloud = [], rangeMat = [], odomDeskewFlag = False, odomIncre = (0, 0, 0),
     cloudInfo = example_info, timeScanCur = 0, timeScanEnd = 0, columnIdnCountVec = []\<rparr>"

lemma example_lidar_config: "lidar_config example_server"
  by (simp add: lidar_config_def example_server_def FLT_MAX_def norm4_def)

lemma example_scan_message: "scan_message example_scan"
  by (simp add: scan_message_def example_scan_def)

lemma example_covers: "covers [example_imu] example_scan"
  by (simp add: covers_def example_scan_def example_imu_def scan_start_def scan_end_def stamp2Sec_def scan_point_def queueLength_def)

lemma example_waits: "between_scans example_server ((allocateMemory example_server example_projection)
    \<lparr>cloudQueue := [example_scan, example_scan], imuQueue := [imu_turned example_server example_imu]\<rparr>)"
  using allocated_waits [of example_server example_projection] by (simp add: between_scans_def)

lemma example_queues: "cloudQueue example_projection = []" "imuQueue example_projection = []"
  by (simp_all add: example_projection_def)

lemma example_ring: "ring_points example_server (map scan_point (butlast (cm_points example_scan))) 1
    = [scan_point (hd (cm_points example_scan))]"
proof -
  have "sqrt 25 = 5" by (rule real_sqrt_unique) simp_all
  then show ?thesis by (simp add: ring_points_def example_server_def example_scan_def scan_point_def taken_def pointDistance_def)
qed

text \<open>
  The last point of the message is left out, the one at the origin is too near, and the first
  becomes the only point of its ring.
\<close>
theorem scan_becomes_image_witness: "\<exists>s' info. run_handlers (projection_step example_geometry example_server) (allocateMemory example_server example_projection)
      ([CloudEvent example_scan, CloudEvent example_scan] @ map ImuEvent [example_imu] @ [CloudEvent example_scan]) = Inr (s', [info])
    \<and> start_ring_index info ! 1 = 4 \<and> end_ring_index info ! 1 = -5"
proof -
  from scan_becomes_image [OF example_lidar_config example_queues example_scan_message example_covers]
  obtain s' info where x: "run_handlers (projection_step example_geometry example_server) (allocateMemory example_server example_projection)
      ([CloudEvent example_scan, CloudEvent example_scan] @ map ImuEvent [example_imu] @ [CloudEvent example_scan]) = Inr (s', [info])"
    "info_image example_server (ring_points example_server (map scan_point (butlast (cm_points example_scan)))) info"
    by blast
  let ?ring = "ring_points example_server (map scan_point (butlast (cm_points example_scan)))"
  have n: "(1 :: nat) < N_SCAN example_server" by (simp add: example_server_def)
  have r0: "?ring 0 = []" by (simp add: ring_points_def example_scan_def scan_point_def taken_def)
  have "rings_before ?ring 1 = []" "length (rings_before ?ring (Suc 1)) = 1"
    using r0 example_ring by (simp_all add: rings_before_def)
  then have "start_ring_index info ! 1 = 4 \<and> end_ring_index info ! 1 = -5"
    using x(2) n unfolding info_image_def Let_def by auto
  then show ?thesis using x(1) by blast
qed

lemma example_run: "\<exists>s info. run_handlers (projection_step example_geometry example_server) (allocateMemory example_server example_projection)
      (([CloudEvent example_scan, CloudEvent example_scan] @ map ImuEvent [example_imu]) @ [CloudEvent example_scan]) = Inr (s, [info])
    \<and> info_image example_server (ring_points example_server (map scan_point (butlast (cm_points example_scan)))) info"
proof -
  let ?s = "(allocateMemory example_server example_projection)
    \<lparr>cloudQueue := [example_scan, example_scan], imuQueue := map (imu_turned example_server) [example_imu]\<rparr>"
  have "covers (imuQueue ?s) example_scan" using example_covers by (simp add: covers_def imu_turned_def)
  then obtain s' info where x: "cloudHandler example_geometry example_server example_scan ?s = Inr (s', [info])"
    "info_image example_server (ring_points example_server (map scan_point (butlast (cm_points example_scan)))) info"
    using cloudHandler_sends [of example_server ?s example_scan example_scan example_geometry example_scan] example_waits example_lidar_config
      example_scan_message by auto
  have "run_handlers (projection_step example_geometry example_server) (allocateMemory example_server example_projection)
      ([CloudEvent example_scan, CloudEvent example_scan] @ map ImuEvent [example_imu]) = Inr (?s, [])"
    by (rule first_messages) (simp_all add: allocateMemory_def resetParameters_def example_queues example_lidar_config)
  moreover have "run_handlers (projection_step example_geometry example_server) ?s [CloudEvent example_scan] = Inr (s', [info])" using x(1) by simp
  ultimately have "run_handlers (projection_step example_geometry example_server) (allocateMemory example_server example_projection)
      (([CloudEvent example_scan, CloudEvent example_scan] @ map ImuEvent [example_imu]) @ [CloudEvent example_scan]) = Inr (s', [] @ [info])"
    by (rule run_handlers_append)
  then show ?thesis using x(2) by auto
qed

theorem every_cloud_is_an_image_witness: "\<exists>s infos. run_handlers (projection_step example_geometry example_server) (allocateMemory example_server example_projection)
      (([CloudEvent example_scan, CloudEvent example_scan] @ map ImuEvent [example_imu]) @ [CloudEvent example_scan]) = Inr (s, infos)
    \<and> length infos = 1 \<and> list_all (info_ok example_server) infos"
proof -
  obtain s info where r: "run_handlers (projection_step example_geometry example_server) (allocateMemory example_server example_projection)
      (([CloudEvent example_scan, CloudEvent example_scan] @ map ImuEvent [example_imu]) @ [CloudEvent example_scan]) = Inr (s, [info])"
    using example_run by blast
  then show ?thesis using every_cloud_is_an_image [OF r example_lidar_config] by auto
qed

section \<open>What goes wrong\<close>

text \<open>A message with a single point leaves no point at all, and the time of the last one is asked for.\<close>

lemma single_point_ends_the_node:
  "cloudQueue s = [m1, m2] \<Longrightarrow> cm_point_num m1 = 1 \<Longrightarrow> cloudHandler g c m3 s = Inl (if sensor c = LIVOX then Bad_index else Exit 0)"
  by (simp add: cloudHandler_def cachePointCloud_def moveFromCustomMsg_def)

text \<open>A message without points counts down from zero and reads behind its array.\<close>

lemma empty_message_ends_the_node:
  assumes "cloudQueue s = [m1, m2]" and "cm_point_num m1 = 0" and "cm_points m1 = []" and "sensor c = LIVOX"
  shows "cloudHandler g c m3 s = Inl Bad_index"
proof -
  have "0 < unat (- 1 :: 32 word)" by (simp add: unat_gt_0)
  then have "\<exists>xs. [0..<unat (cm_point_num m1 - 1)] = 0 # xs" using assms(2) by (simp add: upt_rec)
  then obtain xs where "[0..<unat (cm_point_num m1 - 1)] = 0 # xs" by blast
  then have "moveFromCustomMsg m1 = Inl Bad_index"
    unfolding moveFromCustomMsg_def by (simp add: assms(3) idx_def)
  then show ?thesis using assms(1,4) by (simp add: cloudHandler_def cachePointCloud_def)
qed

text \<open>More inertial messages over one scan than the tables hold end the node as well.\<close>

lemma imu_tables_overflow:
  "imuPointerCur s = int queueLength \<Longrightarrow> ri_stamp m \<le> timeScanEnd s \<Longrightarrow> imu_loop g (m # ms) s = Inl Bad_index"
  by (simp add: queueLength_def Let_def)

text \<open>The attitude the sensor reports does not reach the node: every message has that of the mounting.\<close>

lemma attitude_is_dropped:
  "imuConverter c m = Inr m' \<Longrightarrow> ri_orientation m' = normalize4 (extQRPY c)"
  by (auto simp: imuConverter_def imu_turned_def split: if_splits)

end
