(* ===== verification/FeatureExtraction.thy ===== *)
theory FeatureExtraction
  imports ImageProjection "HOL-Library.Signed_Division" "HOL-Library.Multiset"
begin

text \<open>
  The second node of the lidar odometry (\<open>featureExtraction.cpp\<close>): from the image of a scan it takes the
  points of edges and of surfaces, by how much the distance of a point differs from that of its
  neighbours in the ring.  The arrays are checked at every access; \<open>std::sort\<close> and the voxel filter
  of PCL are parameters.
\<close>

section \<open>State\<close>

record FeatureExtraction =
  fe_cloud :: "PointType list"
  fe_info :: CloudInfo
  cloudSmoothness :: "(real \<times> nat) list"
  cloudCurvature :: "real list"
  cloudNeighborPicked :: "int list"
  cloudLabel :: "int list"
  cornerCloud :: "PointType list"
  surfaceCloud :: "PointType list"
  surfaceCloudScan :: "PointType list"

text \<open>The message with the two clouds of features.\<close>

record FeatureInfo = CloudInfo +
  cloud_corner :: "PointType list"
  cloud_surface :: "PointType list"

text \<open>The arrays of \<open>new\<close> hold whatever the memory held, which \<open>mem\<close> gives.\<close>

definition initializationValue :: "ParamServer \<Rightarrow> CloudInfo \<Rightarrow> real list \<Rightarrow> int list \<Rightarrow> int list \<Rightarrow> FeatureExtraction" where
  "initializationValue c info mem1 mem2 mem3 =
     (let n = N_SCAN c * Horizon_SCAN c in
      \<lparr>fe_cloud = [], fe_info = info, cloudSmoothness = replicate n (0, 0), cloudCurvature = take n mem1, cloudNeighborPicked = take n mem2,
       cloudLabel = take n mem3, cornerCloud = [], surfaceCloud = [], surfaceCloudScan = []\<rparr>)"

definition put_idx :: "'a list \<Rightarrow> int \<Rightarrow> 'a \<Rightarrow> exn + 'a list" where
  "put_idx xs i v = (if 0 \<le> i \<and> i < int (length xs) then Inr (xs[nat i := v]) else Inl Bad_index)"

lemma put_idx_Inr [simp]: "0 \<le> i \<Longrightarrow> i < int (length xs) \<Longrightarrow> put_idx xs i v = Inr (xs[nat i := v])"
  by (simp add: put_idx_def)

fun sfold :: "('a \<Rightarrow> 's \<Rightarrow> exn + 's) \<Rightarrow> 'a list \<Rightarrow> 's \<Rightarrow> exn + 's" where
  "sfold f [] s = Inr s"
| "sfold f (x # xs) s = sbind (f x s) (sfold f xs)"

section \<open>Curvature\<close>

text \<open>The distance of a point against those of two points on either side.\<close>

definition smooth_step :: "int \<Rightarrow> FeatureExtraction \<Rightarrow> exn + FeatureExtraction" where
  "smooth_step i s =
     (let r = point_range (fe_info s) in
      sbind (idx r (i - 2)) (\<lambda>a. sbind (idx r (i - 1)) (\<lambda>b. sbind (idx r i) (\<lambda>m. sbind (idx r (i + 1)) (\<lambda>d. sbind (idx r (i + 2)) (\<lambda>e.
      let diffRange = a + b - m * 4 + d + e; v = diffRange * diffRange in
      sbind (put_idx (cloudCurvature s) i v) (\<lambda>cv. sbind (put_idx (cloudNeighborPicked s) i 0) (\<lambda>pk.
      sbind (put_idx (cloudLabel s) i 0) (\<lambda>lb. sbind (put_idx (cloudSmoothness s) i (v, nat i)) (\<lambda>sm.
        Inr (s\<lparr>cloudCurvature := cv, cloudNeighborPicked := pk, cloudLabel := lb, cloudSmoothness := sm\<rparr>)))))))))))"

definition calculateSmoothness :: "FeatureExtraction \<Rightarrow> exn + FeatureExtraction" where
  "calculateSmoothness s = sfold smooth_step [5..int (length (fe_cloud s)) - 6] s"

section \<open>Occluded points\<close>

definition pick :: "int \<Rightarrow> FeatureExtraction \<Rightarrow> exn + FeatureExtraction" where
  "pick i s = sbind (put_idx (cloudNeighborPicked s) i 1) (\<lambda>pk. Inr (s\<lparr>cloudNeighborPicked := pk\<rparr>))"

definition mark_step :: "int \<Rightarrow> FeatureExtraction \<Rightarrow> exn + FeatureExtraction" where
  "mark_step i s =
     (let r = point_range (fe_info s); col = point_col_ind (fe_info s) in
      sbind (idx r i) (\<lambda>depth1. sbind (idx r (i + 1)) (\<lambda>depth2. sbind (idx col (i + 1)) (\<lambda>c1. sbind (idx col i) (\<lambda>c0.
      sbind (if \<bar>c1 - c0\<bar> < 10
             then if depth1 - depth2 > 0.3 then sbind (pick (i - 1) s) (pick i)
                  else if depth2 - depth1 > 0.3 then sbind (pick (i + 1) s) (pick (i + 2)) else Inr s
             else Inr s) (\<lambda>s1.
      sbind (idx r (i - 1)) (\<lambda>before.
        if \<bar>before - depth1\<bar> > 0.1 * depth1 \<and> \<bar>depth2 - depth1\<bar> > 0.1 * depth1 then pick i s1 else Inr s1)))))))"

definition markOccludedPoints :: "FeatureExtraction \<Rightarrow> exn + FeatureExtraction" where
  "markOccludedPoints s = sfold mark_step [5..int (length (fe_cloud s)) - 7] s"

section \<open>Features\<close>

text \<open>The neighbours of a point that was taken are not taken, as far as the ring has no gap.\<close>

fun spread :: "int \<Rightarrow> int \<Rightarrow> int list \<Rightarrow> FeatureExtraction \<Rightarrow> exn + FeatureExtraction" where
  "spread ind d [] s = Inr s"
| "spread ind d (l # ls) s =
     sbind (idx (point_col_ind (fe_info s)) (ind + d * l)) (\<lambda>a. sbind (idx (point_col_ind (fe_info s)) (ind + d * (l - 1))) (\<lambda>b.
       if \<bar>a - b\<bar> > 10 then Inr s else sbind (pick (ind + d * l) s) (spread ind d ls)))"

definition take_out :: "int \<Rightarrow> int \<Rightarrow> FeatureExtraction \<Rightarrow> exn + FeatureExtraction" where
  "take_out ind label s =
     sbind (put_idx (cloudLabel s) ind label) (\<lambda>lb. sbind (pick ind (s\<lparr>cloudLabel := lb\<rparr>)) (\<lambda>s1.
       sbind (spread ind 1 [1..5] s1) (spread ind (- 1) [1..5])))"

text \<open>Whether the point of slot \<open>k\<close> is still free and its curvature satisfies \<open>P\<close>.\<close>

definition free_slot :: "(real \<Rightarrow> bool) \<Rightarrow> int \<Rightarrow> FeatureExtraction \<Rightarrow> exn + int option" where
  "free_slot P k s =
     sbind (idx (cloudSmoothness s) k) (\<lambda>sm. let ind = int (snd sm) in
     sbind (idx (cloudNeighborPicked s) ind) (\<lambda>pk.
       if pk \<noteq> 0 then Inr None
       else sbind (idx (cloudCurvature s) ind) (\<lambda>cv. Inr (if P cv then Some ind else None))))"

text \<open>The edges of a sector, from the largest curvature down, at most forty.\<close>

fun corner_loop :: "ParamServer \<Rightarrow> nat \<Rightarrow> int list \<Rightarrow> FeatureExtraction \<Rightarrow> exn + FeatureExtraction" where
  "corner_loop c picked [] s = Inr s"
| "corner_loop c picked (k # ks) s =
     sbind (free_slot (\<lambda>cv. cv > edgeThreshold c) k s) (\<lambda>r. case r of None \<Rightarrow> corner_loop c picked ks s
     | Some ind \<Rightarrow>
         if picked + 1 \<le> 40
         then sbind (idx (fe_cloud s) ind) (\<lambda>p. sbind (take_out ind 1 (s\<lparr>cornerCloud := cornerCloud s @ [p]\<rparr>)) (corner_loop c (picked + 1) ks))
         else Inr s)"

definition surface_step :: "ParamServer \<Rightarrow> int \<Rightarrow> FeatureExtraction \<Rightarrow> exn + FeatureExtraction" where
  "surface_step c k s = sbind (free_slot (\<lambda>cv. cv < surfThreshold c) k s) (\<lambda>r. case r of None \<Rightarrow> Inr s | Some ind \<Rightarrow> take_out ind (- 1) s)"

definition collect_step :: "int \<Rightarrow> FeatureExtraction \<Rightarrow> exn + FeatureExtraction" where
  "collect_step k s =
     sbind (idx (cloudLabel s) k) (\<lambda>l. if l \<le> 0 then sbind (idx (fe_cloud s) k) (\<lambda>p. Inr (s\<lparr>surfaceCloudScan := surfaceCloudScan s @ [p]\<rparr>)) else Inr s)"

text \<open>\<open>std::sort\<close> on the slots from \<open>sp\<close> to before \<open>ep\<close>.\<close>

definition sort_slots :: "((real \<times> nat) list \<Rightarrow> (real \<times> nat) list) \<Rightarrow> int \<Rightarrow> int \<Rightarrow> FeatureExtraction \<Rightarrow> exn + FeatureExtraction" where
  "sort_slots srt sp ep s =
     (let xs = cloudSmoothness s; a = nat sp; b = nat ep in
      if sp < 0 \<or> int (length xs) < ep then Inl Bad_index
      else Inr (s\<lparr>cloudSmoothness := take a xs @ srt (take (b - a) (drop a xs)) @ drop b xs\<rparr>))"

definition sector_start :: "int \<Rightarrow> int \<Rightarrow> int \<Rightarrow> int" where
  "sector_start a b j = (a * (6 - j) + b * j) sdiv 6"

definition sector_end :: "int \<Rightarrow> int \<Rightarrow> int \<Rightarrow> int" where
  "sector_end a b j = (a * (5 - j) + b * (j + 1)) sdiv 6 - 1"

definition extract_sector :: "((real \<times> nat) list \<Rightarrow> (real \<times> nat) list) \<Rightarrow> ParamServer \<Rightarrow> int \<Rightarrow> int \<Rightarrow> FeatureExtraction \<Rightarrow> exn + FeatureExtraction" where
  "extract_sector srt c i j s =
     sbind (idx (start_ring_index (fe_info s)) i) (\<lambda>a. sbind (idx (end_ring_index (fe_info s)) i) (\<lambda>b.
       let sp = sector_start a b j; ep = sector_end a b j in
       if sp \<ge> ep then Inr s
       else sbind (sort_slots srt sp ep s) (\<lambda>s1. sbind (corner_loop c 0 (rev [sp..ep]) s1) (\<lambda>s2.
            sbind (sfold (surface_step c) [sp..ep] s2) (sfold collect_step [sp..ep])))))"

definition feature_ring :: "((real \<times> nat) list \<Rightarrow> (real \<times> nat) list) \<Rightarrow> (PointType list \<Rightarrow> PointType list) \<Rightarrow> ParamServer \<Rightarrow> int
    \<Rightarrow> FeatureExtraction \<Rightarrow> exn + FeatureExtraction" where
  "feature_ring srt downsize c i s =
     sbind (sfold (extract_sector srt c i) [0..5] (s\<lparr>surfaceCloudScan := []\<rparr>)) (\<lambda>s'.
       Inr (s'\<lparr>surfaceCloud := surfaceCloud s' @ downsize (surfaceCloudScan s')\<rparr>))"

definition extractFeatures :: "((real \<times> nat) list \<Rightarrow> (real \<times> nat) list) \<Rightarrow> (PointType list \<Rightarrow> PointType list) \<Rightarrow> ParamServer
    \<Rightarrow> FeatureExtraction \<Rightarrow> exn + FeatureExtraction" where
  "extractFeatures srt downsize c s = sfold (feature_ring srt downsize c) [0..int (N_SCAN c) - 1] (s\<lparr>cornerCloud := [], surfaceCloud := [], surfaceCloudScan := []\<rparr>)"

text \<open>The indices are cleared before the message is sent on.\<close>

definition publishFeatureCloud :: "FeatureExtraction \<Rightarrow> FeatureExtraction \<times> FeatureInfo list" where
  "publishFeatureCloud s =
     (let info = (fe_info s)\<lparr>start_ring_index := [], end_ring_index := [], point_col_ind := [], point_range := []\<rparr> in
      (s\<lparr>fe_info := info\<rparr>, [CloudInfo.extend info (FeatureInfo.fields (cornerCloud s) (surfaceCloud s))]))"

definition laserCloudInfoHandler :: "((real \<times> nat) list \<Rightarrow> (real \<times> nat) list) \<Rightarrow> (PointType list \<Rightarrow> PointType list) \<Rightarrow> ParamServer
    \<Rightarrow> (FeatureExtraction, CloudInfo, FeatureInfo) handler" where
  "laserCloudInfoHandler srt downsize c s msg =
     sbind (calculateSmoothness (s\<lparr>fe_info := msg, fe_cloud := cloud_deskewed msg\<rparr>)) (\<lambda>s1.
     sbind (markOccludedPoints s1) (\<lambda>s2. sbind (extractFeatures srt downsize c s2) (\<lambda>s3. Inr (publishFeatureCloud s3))))"

section \<open>Loops\<close>

lemma sfold_inv:
  assumes "\<And>x s. x \<in> set xs \<Longrightarrow> P s \<Longrightarrow> \<exists>s'. f x s = Inr s' \<and> P s'" and "P s"
  shows "\<exists>s'. sfold f xs s = Inr s' \<and> P s'"
  using assms
proof (induction xs arbitrary: s)
  case (Cons x xs)
  obtain s1 where "f x s = Inr s1" "P s1" using Cons.prems(1) [of x s] Cons.prems(2) by auto
  then show ?case using Cons.IH [of s1] Cons.prems(1) by simp
qed simp

text \<open>A loop over the numbers from \<open>a\<close> to \<open>b\<close>; \<open>P i\<close> holds before the step of \<open>i\<close>.\<close>

lemma sfold_upto:
  assumes "\<And>i s. a \<le> i \<Longrightarrow> i \<le> b \<Longrightarrow> P i s \<Longrightarrow> \<exists>s'. f i s = Inr s' \<and> P (i + 1) s'" and "P a s" and "a \<le> b + 1"
  shows "\<exists>s'. sfold f [a..b] s = Inr s' \<and> P (b + 1) s'"
  using assms
proof (induction a b arbitrary: s rule: upto.induct)
  case (1 a b)
  show ?case
  proof (cases "a \<le> b")
    case True
    obtain s1 where s1: "f a s = Inr s1" "P (a + 1) s1" using 1(2) [of a s] 1(3) True by auto
    have "\<exists>s'. sfold f [a + 1..b] s1 = Inr s' \<and> P (b + 1) s'"
      by (rule 1(1) [OF True]) (use 1(2) s1(2) True in auto)
    then show ?thesis using s1(1) by (simp add: upto_rec1 [OF True])
  next
    case False
    then have "a = b + 1" using 1(4) by linarith
    then show ?thesis using 1(3) by simp
  qed
qed

section \<open>What the arrays hold\<close>

text \<open>The squared difference of a distance to the mean of its neighbours, times sixteen.\<close>

definition roughness :: "real list \<Rightarrow> nat \<Rightarrow> real" where
  "roughness r i = (r ! (i - 2) + r ! (i - 1) - r ! i * 4 + r ! (i + 1) + r ! (i + 2))\<^sup>2"

definition places :: "ParamServer \<Rightarrow> nat" where
  "places c = N_SCAN c * Horizon_SCAN c"

definition fits :: "ParamServer \<Rightarrow> CloudInfo \<Rightarrow> bool" where
  "fits c info \<longleftrightarrow> length (cloud_deskewed info) \<le> places c \<and> length (point_range info) = places c \<and> length (point_col_ind info) = places c
     \<and> length (start_ring_index info) = N_SCAN c \<and> length (end_ring_index info) = N_SCAN c
     \<and> (\<forall>r<N_SCAN c. 4 \<le> start_ring_index info ! r \<and> end_ring_index info ! r + 6 \<le> int (length (cloud_deskewed info)))"

definition feature_inv :: "ParamServer \<Rightarrow> CloudInfo \<Rightarrow> FeatureExtraction \<Rightarrow> bool" where
  "feature_inv c info s \<longleftrightarrow> fe_info s = info \<and> fe_cloud s = cloud_deskewed info \<and> length (cloudSmoothness s) = places c
     \<and> length (cloudCurvature s) = places c \<and> length (cloudNeighborPicked s) = places c \<and> length (cloudLabel s) = places c"

text \<open>The slots the sectors use name points with five neighbours on either side.\<close>

definition slot_ok :: "nat \<Rightarrow> real \<times> nat \<Rightarrow> bool" where
  "slot_ok n x \<longleftrightarrow> 5 \<le> snd x \<and> snd x + 6 \<le> n"

definition slots_ok :: "nat \<Rightarrow> FeatureExtraction \<Rightarrow> bool" where
  "slots_ok n s \<longleftrightarrow> (12 \<le> n \<longrightarrow> (\<forall>k. 4 \<le> k \<and> k + 6 \<le> n \<longrightarrow> slot_ok n (cloudSmoothness s ! k)))"

definition is_edge :: "ParamServer \<Rightarrow> CloudInfo \<Rightarrow> PointType \<Rightarrow> bool" where
  "is_edge c info p \<longleftrightarrow> (\<exists>i. 5 \<le> i \<and> i + 6 \<le> length (cloud_deskewed info) \<and> p = cloud_deskewed info ! i \<and> roughness (point_range info) i > edgeThreshold c)"

text \<open>A point that the voxel filter makes of points of the scan.\<close>

definition is_surface :: "(PointType list \<Rightarrow> PointType list) \<Rightarrow> CloudInfo \<Rightarrow> PointType \<Rightarrow> bool" where
  "is_surface ds info p \<longleftrightarrow> (\<exists>ps. set ps \<subseteq> set (cloud_deskewed info) \<and> p \<in> set (ds ps))"

definition work_inv :: "(PointType list \<Rightarrow> PointType list) \<Rightarrow> ParamServer \<Rightarrow> CloudInfo \<Rightarrow> FeatureExtraction \<Rightarrow> bool" where
  "work_inv ds c info s \<longleftrightarrow> feature_inv c info s \<and> slots_ok (length (cloud_deskewed info)) s
     \<and> (\<forall>i. 5 \<le> i \<and> i + 6 \<le> length (cloud_deskewed info) \<longrightarrow> cloudCurvature s ! i = roughness (point_range info) i)
     \<and> (\<forall>p\<in>set (cornerCloud s). is_edge c info p) \<and> set (surfaceCloudScan s) \<subseteq> set (cloud_deskewed info)
     \<and> (\<forall>p\<in>set (surfaceCloud s). is_surface ds info p)"

text \<open>What marking points leaves alone.\<close>

definition marks_only :: "FeatureExtraction \<Rightarrow> FeatureExtraction \<Rightarrow> bool" where
  "marks_only s s' \<longleftrightarrow> fe_info s' = fe_info s \<and> fe_cloud s' = fe_cloud s \<and> cloudSmoothness s' = cloudSmoothness s \<and> cloudCurvature s' = cloudCurvature s
     \<and> cornerCloud s' = cornerCloud s \<and> surfaceCloud s' = surfaceCloud s \<and> surfaceCloudScan s' = surfaceCloudScan s
     \<and> length (cloudNeighborPicked s') = length (cloudNeighborPicked s) \<and> length (cloudLabel s') = length (cloudLabel s)"

lemma marks_only_refl [simp]: "marks_only s s"
  by (simp add: marks_only_def)

lemma marks_only_trans: "marks_only s s' \<Longrightarrow> marks_only s' s'' \<Longrightarrow> marks_only s s''"
  by (simp add: marks_only_def)

lemma marks_only_work: "marks_only s s' \<Longrightarrow> work_inv ds c info s' = work_inv ds c info s"
  by (simp add: marks_only_def work_inv_def feature_inv_def slots_ok_def)

lemma marks_only_inv: "marks_only s s' \<Longrightarrow> feature_inv c info s' = feature_inv c info s"
  by (simp add: marks_only_def feature_inv_def)

lemma pick_ok: "0 \<le> i \<Longrightarrow> i < int (length (cloudNeighborPicked s)) \<Longrightarrow> \<exists>s'. pick i s = Inr s' \<and> marks_only s s'"
  by (simp add: pick_def marks_only_def)

lemma smooth_step_ok:
  assumes "feature_inv c info s" and "fits c info" and "5 \<le> i" and "i \<le> int (length (cloud_deskewed info)) - 6"
  shows "\<exists>s'. smooth_step i s = Inr s' \<and> feature_inv c info s' \<and> cloudCurvature s' = (cloudCurvature s)[nat i := roughness (point_range info) (nat i)]
    \<and> cloudSmoothness s' = (cloudSmoothness s)[nat i := (roughness (point_range info) (nat i), nat i)]
    \<and> cornerCloud s' = cornerCloud s \<and> surfaceCloud s' = surfaceCloud s \<and> surfaceCloudScan s' = surfaceCloudScan s"
proof -
  have "nat (i - 2) = nat i - 2" "nat (i - 1) = nat i - 1" "nat (i + 1) = nat i + 1" "nat (i + 2) = nat i + 2"
    using assms(3) by (simp_all add: nat_diff_distrib nat_add_distrib)
  moreover have "i + 2 < int (places c)" using assms(2,4) by (simp add: fits_def)
  ultimately show ?thesis using assms
    by (simp add: smooth_step_def feature_inv_def fits_def roughness_def Let_def power2_eq_square)
qed

lemma calculateSmoothness_ok:
  assumes "feature_inv c info s" and "fits c info" and "12 \<le> length (cloud_deskewed info) \<longrightarrow> slot_ok (length (cloud_deskewed info)) (cloudSmoothness s ! 4)"
    and "cornerCloud s = cs"
  shows "\<exists>s'. calculateSmoothness s = Inr s' \<and> feature_inv c info s' \<and> slots_ok (length (cloud_deskewed info)) s'
    \<and> (\<forall>i. 5 \<le> i \<and> i + 6 \<le> length (cloud_deskewed info) \<longrightarrow> cloudCurvature s' ! i = roughness (point_range info) i)"
proof -
  let ?n = "length (cloud_deskewed info)"
  define P where "P = (\<lambda>m t. feature_inv c info t \<and> cloudSmoothness t ! 4 = cloudSmoothness s ! 4
    \<and> (\<forall>i. 5 \<le> i \<and> int i < m \<longrightarrow> cloudCurvature t ! i = roughness (point_range info) i \<and> snd (cloudSmoothness t ! i) = i))"
  have len: "length (fe_cloud s) = ?n" using assms(1) by (simp add: feature_inv_def)
  show ?thesis
  proof (cases "11 \<le> ?n")
    case True
    have "\<exists>s'. sfold smooth_step [5..int ?n - 6] s = Inr s' \<and> P (int ?n - 6 + 1) s'"
    proof (rule sfold_upto)
      fix i t assume i: "5 \<le> i" "i \<le> int ?n - 6" and t: "P i t"
      obtain t' where t': "smooth_step i t = Inr t'" "feature_inv c info t'" "cloudCurvature t' = (cloudCurvature t)[nat i := roughness (point_range info) (nat i)]"
        "cloudSmoothness t' = (cloudSmoothness t)[nat i := (roughness (point_range info) (nat i), nat i)]"
        using smooth_step_ok [OF _ assms(2) i, of t] t by (auto simp: P_def)
      have l: "nat i < length (cloudCurvature t)" "nat i < length (cloudSmoothness t)"
        using t i assms(2) by (auto simp: P_def feature_inv_def fits_def)
      have "P (i + 1) t'" unfolding P_def
      proof (intro conjI allI impI)
        show "cloudSmoothness t' ! 4 = cloudSmoothness s ! 4" using t i by (simp add: t'(4) P_def)
      next
        fix k assume k: "5 \<le> k \<and> int k < i + 1"
        show "cloudCurvature t' ! k = roughness (point_range info) k" "snd (cloudSmoothness t' ! k) = k"
          using k t l by (cases "k = nat i"; auto simp: t'(3,4) P_def)+
      qed (rule t'(2))
      then show "\<exists>s'. smooth_step i t = Inr s' \<and> P (i + 1) s'" using t'(1) by blast
    qed (use assms(1) True in \<open>simp_all add: P_def\<close>)
    then obtain s' where s': "calculateSmoothness s = Inr s'" "P (int ?n - 5) s'"
      unfolding calculateSmoothness_def len by auto
    have "slots_ok ?n s'" unfolding slots_ok_def
    proof (intro impI allI)
      fix k assume n: "12 \<le> ?n" and k: "4 \<le> k \<and> k + 6 \<le> ?n"
      show "slot_ok ?n (cloudSmoothness s' ! k)"
      proof (cases "k = 4")
        case True
        then show ?thesis using assms(3) n s'(2) by (simp add: P_def)
      next
        case False
        then have "snd (cloudSmoothness s' ! k) = k" using s'(2) k by (simp add: P_def)
        then show ?thesis using k False by (simp add: slot_ok_def)
      qed
    qed
    moreover have "cloudCurvature s' ! i = roughness (point_range info) i" if "5 \<le> i \<and> i + 6 \<le> ?n" for i
      using s'(2) that by (simp add: P_def)
    ultimately show ?thesis using s' by (auto simp: P_def)
  next
    case False
    then have "calculateSmoothness s = Inr s" by (simp add: calculateSmoothness_def len)
    then show ?thesis using assms(1) False by (simp add: slots_ok_def)
  qed
qed

lemma mark_step_ok:
  assumes "feature_inv c info s" and "fits c info" and "5 \<le> i" and "i \<le> int (length (cloud_deskewed info)) - 7"
  shows "\<exists>s'. mark_step i s = Inr s' \<and> marks_only s s'"
proof -
  have f: "fe_info s = info" "length (cloudNeighborPicked s) = places c" using assms(1) by (simp_all add: feature_inv_def)
  have b: "i + 2 < int (places c)" using assms(2,4) by (simp add: fits_def)
  have two: "\<exists>t. sbind (pick a s) (pick d) = Inr t \<and> marks_only s t"
    if ab: "0 \<le> a" "a < int (places c)" "0 \<le> d" "d < int (places c)" for a d
  proof -
    obtain t1 where t1: "pick a s = Inr t1" "marks_only s t1" using pick_ok [of a s] ab(1,2) f(2) by auto
    then have "length (cloudNeighborPicked t1) = places c" using f(2) by (simp add: marks_only_def)
    then obtain t2 where t2: "pick d t1 = Inr t2" "marks_only t1 t2" using pick_ok [of d t1] ab(3,4) by auto
    show ?thesis using t1 t2 marks_only_trans [OF t1(2) t2(2)] by simp
  qed
  let ?r = "point_range info" and ?col = "point_col_ind info"
  let ?mid = "if \<bar>?col ! nat (i + 1) - ?col ! nat i\<bar> < 10
     then if ?r ! nat i - ?r ! nat (i + 1) > 0.3 then sbind (pick (i - 1) s) (pick i)
          else if ?r ! nat (i + 1) - ?r ! nat i > 0.3 then sbind (pick (i + 1) s) (pick (i + 2)) else Inr s
     else Inr s"
  have "\<exists>t. ?mid = Inr t \<and> marks_only s t" using two assms(3) b by auto
  then obtain t where t: "?mid = Inr t" "marks_only s t" by blast
  then have "length (cloudNeighborPicked t) = places c" using f(2) by (simp add: marks_only_def)
  then obtain t' where t': "pick i t = Inr t'" "marks_only t t'" using pick_ok [of i t] assms(3) b by auto
  have len: "length ?r = places c" "length ?col = places c" using assms(2) by (simp_all add: fits_def)
  have "mark_step i s = (if \<bar>?r ! nat (i - 1) - ?r ! nat i\<bar> > 0.1 * ?r ! nat i \<and> \<bar>?r ! nat (i + 1) - ?r ! nat i\<bar> > 0.1 * ?r ! nat i then pick i t else Inr t)"
    unfolding mark_step_def Let_def f(1) using assms(3) b len by (simp add: t(1) [simplified])
  then show ?thesis using t t' marks_only_trans by auto
qed

lemma spread_ok:
  assumes "feature_inv c info s" and "fits c info" and "\<forall>l\<in>set ls. 0 \<le> ind + d * l \<and> ind + d * l < int (places c)
    \<and> 0 \<le> ind + d * (l - 1) \<and> ind + d * (l - 1) < int (places c)"
  shows "\<exists>s'. spread ind d ls s = Inr s' \<and> marks_only s s'"
  using assms
proof (induction ls arbitrary: s)
  case (Cons l ls)
  have f: "fe_info s = info" "length (cloudNeighborPicked s) = places c" using Cons.prems(1) by (simp_all add: feature_inv_def)
  have len: "length (point_col_ind info) = places c" using Cons.prems(2) by (simp add: fits_def)
  obtain s1 where s1: "pick (ind + d * l) s = Inr s1" "marks_only s s1" using pick_ok [of "ind + d * l" s] Cons.prems(3) f(2) by auto
  have "feature_inv c info s1" using s1(2) Cons.prems(1) by (simp add: marks_only_def feature_inv_def)
  then obtain s2 where s2: "spread ind d ls s1 = Inr s2" "marks_only s1 s2" using Cons.IH Cons.prems(2,3) by auto
  show ?case using Cons.prems(3) len s1 s2 marks_only_trans [OF s1(2) s2(2)] by (simp add: f(1) del: mult_Suc_right)
qed simp

lemma take_out_ok:
  assumes "feature_inv c info s" and "fits c info" and "5 \<le> ind" and "ind + 6 \<le> int (length (cloud_deskewed info))"
  shows "\<exists>s'. take_out ind l s = Inr s' \<and> marks_only s s'"
proof -
  have b: "ind + 5 < int (places c)" using assms(2,4) by (simp add: fits_def)
  have f: "length (cloudNeighborPicked s) = places c" "length (cloudLabel s) = places c" using assms(1) by (simp_all add: feature_inv_def)
  let ?s0 = "s\<lparr>cloudLabel := (cloudLabel s)[nat ind := l]\<rparr>"
  have m0: "marks_only s ?s0" by (simp add: marks_only_def)
  obtain s1 where s1: "pick ind ?s0 = Inr s1" "marks_only ?s0 s1" using pick_ok [of ind ?s0] assms(3) b f(1) by auto
  have i1: "feature_inv c info s1" using marks_only_trans [OF m0 s1(2)] assms(1) by (simp add: marks_only_def feature_inv_def)
  obtain s2 where s2: "spread ind 1 [1..5] s1 = Inr s2" "marks_only s1 s2" using spread_ok [OF i1 assms(2), of "[1..5]" ind 1] assms(3) b by auto
  have i2: "feature_inv c info s2" using s2(2) i1 by (simp add: marks_only_def feature_inv_def)
  obtain s3 where s3: "spread ind (- 1) [1..5] s2 = Inr s3" "marks_only s2 s3" using spread_ok [OF i2 assms(2), of "[1..5]" ind "- 1"] assms(3) b by auto
  have "take_out ind l s = Inr s3"
    unfolding take_out_def using assms(3) b f(2) by (simp only: put_idx_Inr sbind_simps s1(1) s2(1) s3(1))
  then show ?thesis using m0 s1(2) s2(2) s3(2) marks_only_trans by blast
qed

section \<open>A sector\<close>

lemma free_slot_ok:
  assumes "work_inv ds c info s" and "fits c info" and "4 \<le> k" and "k + 7 \<le> int (length (cloud_deskewed info))" and "12 \<le> length (cloud_deskewed info)"
  shows "free_slot P k s = Inr None \<or> (\<exists>ind. free_slot P k s = Inr (Some ind) \<and> 5 \<le> ind \<and> ind + 6 \<le> int (length (cloud_deskewed info))
    \<and> P (roughness (point_range info) (nat ind)))"
proof -
  let ?n = "length (cloud_deskewed info)"
  have k: "4 \<le> nat k \<and> nat k + 6 \<le> ?n" using assms(3,4) by linarith
  have "slots_ok ?n s" using assms(1) by (simp add: work_inv_def)
  then have so: "5 \<le> snd (cloudSmoothness s ! nat k)" "snd (cloudSmoothness s ! nat k) + 6 \<le> ?n"
    using k assms(5) unfolding slots_ok_def slot_ok_def by blast+
  have l: "length (cloudSmoothness s) = places c" "length (cloudCurvature s) = places c" "length (cloudNeighborPicked s) = places c" "?n \<le> places c"
    using assms(1,2) by (simp_all add: work_inv_def feature_inv_def fits_def)
  have cv: "cloudCurvature s ! snd (cloudSmoothness s ! nat k) = roughness (point_range info) (snd (cloudSmoothness s ! nat k))"
    using assms(1) so by (simp add: work_inv_def)
  show ?thesis using assms(3,4) so l cv by (simp add: free_slot_def Let_def)
qed

lemma corner_loop_ok:
  assumes "fits c info" and "12 \<le> length (cloud_deskewed info)" and "work_inv ds c info s"
    and "\<forall>k\<in>set ks. 4 \<le> k \<and> k + 7 \<le> int (length (cloud_deskewed info))" and "m \<le> 40"
  shows "\<exists>s'. corner_loop c m ks s = Inr s' \<and> work_inv ds c info s' \<and> length (cornerCloud s') \<le> length (cornerCloud s) + (40 - m)"
  using assms(3-5)
proof (induction ks arbitrary: s m)
  case (Cons k ks)
  from free_slot_ok [OF Cons.prems(1) assms(1) _ _ assms(2), of k "\<lambda>cv. cv > edgeThreshold c"] Cons.prems(2)
  consider "free_slot (\<lambda>cv. cv > edgeThreshold c) k s = Inr None"
    | ind where "free_slot (\<lambda>cv. cv > edgeThreshold c) k s = Inr (Some ind)" "5 \<le> ind" "ind + 6 \<le> int (length (cloud_deskewed info))"
        "roughness (point_range info) (nat ind) > edgeThreshold c" by auto
  then show ?case
  proof cases
    case 1
    then show ?thesis using Cons by simp
  next
    case (2 ind)
    show ?thesis
    proof (cases "m + 1 \<le> 40")
      case False
      then show ?thesis using 2 Cons.prems by simp
    next
      case True
      let ?p = "cloud_deskewed info ! nat ind"
      let ?s1 = "s\<lparr>cornerCloud := cornerCloud s @ [?p]\<rparr>"
      have cl: "fe_cloud s = cloud_deskewed info" using Cons.prems(1) by (simp add: work_inv_def feature_inv_def)
      have "is_edge c info ?p" unfolding is_edge_def using 2(2-4) by (intro exI [of _ "nat ind"]) auto
      then have w1: "work_inv ds c info ?s1" using Cons.prems(1) by (auto simp: work_inv_def feature_inv_def slots_ok_def)
      then have "feature_inv c info ?s1" by (simp add: work_inv_def)
      then obtain s2 where s2: "take_out ind 1 ?s1 = Inr s2" "marks_only ?s1 s2" using take_out_ok [OF _ assms(1) 2(2,3)] by blast
      have "work_inv ds c info s2" using marks_only_work [OF s2(2)] w1 by simp
      then obtain s' where s': "corner_loop c (m + 1) ks s2 = Inr s'" "work_inv ds c info s'" "length (cornerCloud s') \<le> length (cornerCloud s2) + (40 - (m + 1))"
        using Cons.IH [of s2 "m + 1"] Cons.prems(2) True by auto
      have "length (cornerCloud s2) = length (cornerCloud s) + 1" using s2(2) by (simp add: marks_only_def)
      then show ?thesis using 2(1-3) True s2(1) s' cl by simp
    qed
  qed
qed simp

lemma surface_step_ok:
  assumes "work_inv ds c info s" and "fits c info" and "4 \<le> k" and "k + 7 \<le> int (length (cloud_deskewed info))" and "12 \<le> length (cloud_deskewed info)"
  shows "\<exists>s'. surface_step c k s = Inr s' \<and> marks_only s s'"
proof -
  have i: "feature_inv c info s" using assms(1) by (simp add: work_inv_def)
  show ?thesis
    using free_slot_ok [OF assms, of "\<lambda>cv. cv < surfThreshold c"] take_out_ok [OF i assms(2)] by (auto simp: surface_step_def)
qed

lemma collect_step_ok:
  assumes "work_inv ds c info s" and "fits c info" and "0 \<le> k" and "k < int (length (cloud_deskewed info))"
  shows "\<exists>s'. collect_step k s = Inr s' \<and> work_inv ds c info s' \<and> cornerCloud s' = cornerCloud s"
proof -
  have l: "length (cloudLabel s) = places c" "fe_cloud s = cloud_deskewed info" "length (cloud_deskewed info) \<le> places c"
    using assms(1,2) by (simp_all add: work_inv_def feature_inv_def fits_def)
  have "work_inv ds c info (s\<lparr>surfaceCloudScan := surfaceCloudScan s @ [cloud_deskewed info ! nat k]\<rparr>)"
    using assms(1,3,4) by (auto simp: work_inv_def feature_inv_def slots_ok_def)
  then show ?thesis using assms(1,3,4) l by (simp add: collect_step_def)
qed

definition keeps_elements :: "((real \<times> nat) list \<Rightarrow> (real \<times> nat) list) \<Rightarrow> bool" where
  "keeps_elements srt \<longleftrightarrow> (\<forall>xs. mset (srt xs) = mset xs)"

lemma sort_slots_ok:
  assumes "keeps_elements srt" and "work_inv ds c info s" and "fits c info" and "4 \<le> sp" and "sp < ep" and "ep + 7 \<le> int (length (cloud_deskewed info))"
  shows "\<exists>s'. sort_slots srt sp ep s = Inr s' \<and> work_inv ds c info s' \<and> cornerCloud s' = cornerCloud s"
proof -
  let ?n = "length (cloud_deskewed info)" and ?xs = "cloudSmoothness s"
  obtain a b where ab0: "a = nat sp" "b = nat ep" by blast
  let ?seg = "take (b - a) (drop a ?xs)"
  let ?ys = "take a ?xs @ srt ?seg @ drop b ?xs"
  have l: "length ?xs = places c" "?n \<le> places c" using assms(2,3) by (simp_all add: work_inv_def feature_inv_def fits_def)
  have ab: "a < b" "b \<le> length ?xs" "b + 7 \<le> ?n" "4 \<le> a" using l assms(4-6) ab0 by linarith+
  have m: "mset (srt ?seg) = mset ?seg" using assms(1) by (simp add: keeps_elements_def)
  have ls: "length (srt ?seg) = b - a"
  proof -
    have "length (srt ?seg) = length ?seg" using arg_cong [OF m, of size] by simp
    then show ?thesis using ab by simp
  qed
  have so: "slots_ok ?n s" using assms(2) by (simp add: work_inv_def)
  have "slot_ok ?n (?ys ! k)" if k: "4 \<le> k" "k + 6 \<le> ?n" and n: "12 \<le> ?n" for k
  proof -
    consider "k < a" | "a \<le> k" "k < b" | "b \<le> k" by linarith
    then show ?thesis
    proof cases
      case 1
      then have "?ys ! k = ?xs ! k" using ab by (simp add: nth_append)
      then show ?thesis using so k n by (simp add: slots_ok_def)
    next
      case 2
      then have "k - a < b - a" "min (length ?xs) a = a" using ab by linarith+
      then have "?ys ! k = srt ?seg ! (k - a)" using 2 ls by (simp add: nth_append)
      moreover have "srt ?seg ! (k - a) \<in> set (srt ?seg)" using 2 ls by simp
      ultimately have "?ys ! k \<in> set ?seg" using mset_eq_setD [OF m] by simp
      then obtain q where q: "q < length ?seg" "?ys ! k = ?seg ! q" by (metis in_set_conv_nth)
      then have "?ys ! k = ?xs ! (a + q)" "a + q < b" using ab by simp_all
      then show ?thesis using so n ab by (simp add: slots_ok_def)
    next
      case 3
      then have "\<not> k - a < b - a" "\<not> k < a" "min (length ?xs) a = a" using ab by linarith+
      then have "?ys ! k = ?xs ! k" using 3 ab ls by (simp add: nth_append)
      then show ?thesis using so k n by (simp add: slots_ok_def)
    qed
  qed
  then have "slots_ok ?n (s\<lparr>cloudSmoothness := ?ys\<rparr>)" by (simp add: slots_ok_def)
  moreover have "length ?ys = places c" using ls ab l by simp
  ultimately have "work_inv ds c info (s\<lparr>cloudSmoothness := ?ys\<rparr>)"
    using assms(2) by (simp add: work_inv_def feature_inv_def)
  then show ?thesis using assms(4,6) l by (simp add: sort_slots_def Let_def ab0)
qed

lemma sdiv_6_mono: "x \<le> y \<Longrightarrow> x sdiv 6 \<le> y sdiv (6 :: int)"
proof -
  assume a: "x \<le> y"
  consider "y < 0" | "x < 0" "0 \<le> y" | "0 \<le> x" by linarith
  then show ?thesis
  proof cases
    case 2
    then have "0 \<le> (- x) div 6" "0 \<le> y div 6" by (simp_all add: pos_imp_zdiv_nonneg_iff)
    then have "- ((- x) div 6) \<le> y div 6" by linarith
    then show ?thesis using 2 by (auto simp: signed_divide_int_def sgn_if)
  qed (use a in \<open>auto simp: signed_divide_int_def sgn_if zdiv_mono1\<close>)
qed

lemma sector_bounds:
  assumes "0 \<le> j" and "j \<le> 5" and "4 \<le> a" and "sector_start a b j < sector_end a b j"
  shows "4 \<le> sector_start a b j" and "sector_end a b j < b"
proof -
  have ab: "a < b"
  proof (rule ccontr)
    assume "\<not> a < b"
    then have "a * (5 - j) + b * (j + 1) \<le> a * (6 - j) + b * j" by (simp add: algebra_simps)
    then have "sector_end a b j < sector_start a b j" using sdiv_6_mono by (fastforce simp: sector_start_def sector_end_def)
    then show False using assms(4) by simp
  qed
  have "a * j \<le> b * j" using ab assms(1) by (simp add: mult_right_mono)
  then have "6 * a \<le> a * (6 - j) + b * j" by (simp add: algebra_simps)
  from sdiv_6_mono [OF this] show "4 \<le> sector_start a b j" using assms(3) by (simp add: sector_start_def signed_divide_int_def)
  have "a * (5 - j) \<le> b * (5 - j)" using ab assms(2) by (simp add: mult_right_mono)
  then have "a * (5 - j) + b * (j + 1) \<le> 6 * b" by (simp add: algebra_simps)
  from sdiv_6_mono [OF this] show "sector_end a b j < b" using ab assms(3) by (simp add: sector_end_def signed_divide_int_def)
qed

lemma extract_sector_ok:
  assumes "keeps_elements srt" and "work_inv ds c info s" and "fits c info" and "0 \<le> i" and "i < int (N_SCAN c)" and "0 \<le> j" and "j \<le> 5"
  shows "\<exists>s'. extract_sector srt c i j s = Inr s' \<and> work_inv ds c info s' \<and> length (cornerCloud s') \<le> length (cornerCloud s) + 40"
proof -
  let ?n = "int (length (cloud_deskewed info))"
  let ?a = "start_ring_index info ! nat i" and ?b = "end_ring_index info ! nat i"
  let ?sp = "sector_start ?a ?b j" and ?ep = "sector_end ?a ?b j"
  have info: "fe_info s = info" using assms(2) by (simp add: work_inv_def feature_inv_def)
  have len: "i < int (length (start_ring_index info))" "i < int (length (end_ring_index info))" using assms(3,5) by (simp_all add: fits_def)
  have ring: "4 \<le> ?a" "?b + 6 \<le> ?n" using assms(3-5) by (simp_all add: fits_def)
  show ?thesis
  proof (cases "?sp \<ge> ?ep")
    case True
    then have "extract_sector srt c i j s = Inr s" using assms(4) len by (simp add: extract_sector_def info)
    then show ?thesis using assms(2) by simp
  next
    case False
    then have lt: "?sp < ?ep" by simp
    have b: "4 \<le> ?sp" "?sp < ?ep" "?ep + 7 \<le> ?n" using sector_bounds [OF assms(6,7) ring(1) lt] ring(2) lt by linarith+
    have n: "12 \<le> length (cloud_deskewed info)" using b by linarith
    have range: "4 \<le> k \<and> k + 7 \<le> ?n" if "k \<in> set [?sp..?ep]" for k using that b by auto
    obtain s1 where s1: "sort_slots srt ?sp ?ep s = Inr s1" "work_inv ds c info s1" "cornerCloud s1 = cornerCloud s"
      using sort_slots_ok [OF assms(1-3) b] by blast
    obtain s2 where s2: "corner_loop c 0 (rev [?sp..?ep]) s1 = Inr s2" "work_inv ds c info s2" "length (cornerCloud s2) \<le> length (cornerCloud s1) + 40"
      using corner_loop_ok [OF assms(3) n s1(2), of "rev [?sp..?ep]" 0] range by auto
    have "\<exists>s3. sfold (surface_step c) [?sp..?ep] s2 = Inr s3 \<and> work_inv ds c info s3 \<and> cornerCloud s3 = cornerCloud s2"
    proof (rule sfold_inv)
      fix k t assume k: "k \<in> set [?sp..?ep]" and t: "work_inv ds c info t \<and> cornerCloud t = cornerCloud s2"
      obtain t' where t': "surface_step c k t = Inr t'" "marks_only t t'" using surface_step_ok [of ds c info t k] t assms(3) range [OF k] n by blast
      have "work_inv ds c info t'" using marks_only_work [OF t'(2)] t by simp
      moreover have "cornerCloud t' = cornerCloud s2" using t'(2) t by (simp add: marks_only_def)
      ultimately show "\<exists>t'. surface_step c k t = Inr t' \<and> work_inv ds c info t' \<and> cornerCloud t' = cornerCloud s2" using t'(1) by blast
    qed (use s2(2) in simp)
    then obtain s3 where s3: "sfold (surface_step c) [?sp..?ep] s2 = Inr s3" "work_inv ds c info s3" "cornerCloud s3 = cornerCloud s2" by blast
    have "\<exists>s4. sfold collect_step [?sp..?ep] s3 = Inr s4 \<and> work_inv ds c info s4 \<and> cornerCloud s4 = cornerCloud s2"
    proof (rule sfold_inv)
      fix k t assume k: "k \<in> set [?sp..?ep]" and t: "work_inv ds c info t \<and> cornerCloud t = cornerCloud s2"
      show "\<exists>t'. collect_step k t = Inr t' \<and> work_inv ds c info t' \<and> cornerCloud t' = cornerCloud s2"
        using collect_step_ok [of ds c info t k] t assms(3) range [OF k] by auto
    qed (use s3 in simp)
    then obtain s4 where s4: "sfold collect_step [?sp..?ep] s3 = Inr s4" "work_inv ds c info s4" "cornerCloud s4 = cornerCloud s2" by blast
    have "extract_sector srt c i j s = Inr s4"
      using False assms(4) len s1(1) s2(1) s3(1) s4(1) by (simp add: extract_sector_def info)
    then show ?thesis using s1(3) s2(3) s4(2,3) by simp
  qed
qed

section \<open>All rings\<close>

lemma feature_ring_ok:
  assumes "keeps_elements srt" and "work_inv ds c info s" and "fits c info" and "0 \<le> i" and "i < int (N_SCAN c)"
  shows "\<exists>s'. feature_ring srt ds c i s = Inr s' \<and> work_inv ds c info s' \<and> int (length (cornerCloud s')) \<le> int (length (cornerCloud s)) + 240"
proof -
  let ?s0 = "s\<lparr>surfaceCloudScan := []\<rparr>"
  define P where "P = (\<lambda>j t. work_inv ds c info t \<and> int (length (cornerCloud t)) \<le> int (length (cornerCloud s)) + 40 * j)"
  have "\<exists>s'. sfold (extract_sector srt c i) [0..5] ?s0 = Inr s' \<and> P (5 + 1) s'"
  proof (rule sfold_upto)
    fix j t assume j: "0 \<le> j" "j \<le> 5" and t: "P j t"
    then show "\<exists>t'. extract_sector srt c i j t = Inr t' \<and> P (j + 1) t'"
      using extract_sector_ok [OF assms(1) _ assms(3-5) j, of ds t] by (auto simp: P_def)
  next
    show "P 0 ?s0" using assms(2) by (simp add: P_def work_inv_def feature_inv_def slots_ok_def)
  qed simp
  then obtain s1 where s1: "sfold (extract_sector srt c i) [0..5] ?s0 = Inr s1" "P 6 s1" by auto
  have "work_inv ds c info (s1\<lparr>surfaceCloud := surfaceCloud s1 @ ds (surfaceCloudScan s1)\<rparr>)"
    using s1(2) by (auto simp: P_def work_inv_def feature_inv_def slots_ok_def is_surface_def)
  then show ?thesis using s1 by (simp add: feature_ring_def P_def)
qed

lemma extractFeatures_ok:
  assumes "keeps_elements srt" and "work_inv ds c info (s\<lparr>cornerCloud := [], surfaceCloud := [], surfaceCloudScan := []\<rparr>)" and "fits c info"
  shows "\<exists>s'. extractFeatures srt ds c s = Inr s' \<and> work_inv ds c info s' \<and> length (cornerCloud s') \<le> 240 * N_SCAN c"
proof -
  define P where "P = (\<lambda>i t. work_inv ds c info t \<and> int (length (cornerCloud t)) \<le> 240 * i)"
  have "\<exists>s'. sfold (feature_ring srt ds c) [0..int (N_SCAN c) - 1] (s\<lparr>cornerCloud := [], surfaceCloud := [], surfaceCloudScan := []\<rparr>) = Inr s' \<and> P (int (N_SCAN c) - 1 + 1) s'"
  proof (rule sfold_upto)
    fix i t assume i: "0 \<le> i" "i \<le> int (N_SCAN c) - 1" and t: "P i t"
    then show "\<exists>t'. feature_ring srt ds c i t = Inr t' \<and> P (i + 1) t'"
      using feature_ring_ok [OF assms(1) _ assms(3) i(1), of ds t] by (auto simp: P_def)
  qed (use assms(2) in \<open>simp_all add: P_def\<close>)
  then show ?thesis by (auto simp: extractFeatures_def P_def)
qed

lemma info_ok_fits:
  assumes "info_ok c info"
  shows "fits c info"
proof -
  obtain ring where i: "info_image c ring info" using assms by (auto simp: info_ok_def)
  have "int (length (rings_before ring (Suc r))) \<le> int (length (cloud_deskewed info))" if "r < N_SCAN c" for r
    using rings_before_mono [of "Suc r" "N_SCAN c" ring] i that by (simp add: info_image_def Let_def del: rings_before_simps)
  then show ?thesis using i by (simp add: fits_def places_def info_image_def Let_def del: rings_before_simps)
qed

section \<open>Properties\<close>

text \<open>How the node waits: the arrays have the size of the image.\<close>

definition sized :: "ParamServer \<Rightarrow> FeatureExtraction \<Rightarrow> bool" where
  "sized c s \<longleftrightarrow> length (cloudSmoothness s) = places c \<and> length (cloudCurvature s) = places c \<and> length (cloudNeighborPicked s) = places c
     \<and> length (cloudLabel s) = places c"

definition first_slot_ok :: "nat \<Rightarrow> FeatureExtraction \<Rightarrow> bool" where
  "first_slot_ok n s \<longleftrightarrow> (12 \<le> n \<longrightarrow> slot_ok n (cloudSmoothness s ! 4))"

lemma handler_ok:
  assumes "keeps_elements srt" and "sized c s" and "fits c info" and "first_slot_ok (length (cloud_deskewed info)) s"
  shows "\<exists>s' out. laserCloudInfoHandler srt ds c s info = Inr (s', [out]) \<and> sized c s' \<and> first_slot_ok (length (cloud_deskewed info)) s'
    \<and> length (cloud_corner out) \<le> 240 * N_SCAN c \<and> (\<forall>p\<in>set (cloud_corner out). is_edge c info p)
    \<and> (\<forall>p\<in>set (cloud_surface out). is_surface ds info p)"
proof -
  let ?n = "length (cloud_deskewed info)" and ?s0 = "s\<lparr>fe_info := info, fe_cloud := cloud_deskewed info\<rparr>"
  have i0: "feature_inv c info ?s0" using assms(2) by (simp add: sized_def feature_inv_def)
  have "12 \<le> ?n \<longrightarrow> slot_ok ?n (cloudSmoothness ?s0 ! 4)" using assms(4) by (simp add: first_slot_ok_def)
  from calculateSmoothness_ok [OF i0 assms(3) this refl] obtain s1 where s1: "calculateSmoothness ?s0 = Inr s1" "feature_inv c info s1" "slots_ok ?n s1"
    "\<forall>i. 5 \<le> i \<and> i + 6 \<le> ?n \<longrightarrow> cloudCurvature s1 ! i = roughness (point_range info) i" by blast
  have "\<exists>s2. sfold mark_step [5..int ?n - 7] s1 = Inr s2 \<and> (feature_inv c info s2 \<and> marks_only s1 s2)"
  proof (rule sfold_inv)
    fix i t assume i: "i \<in> set [5..int ?n - 7]" and t: "feature_inv c info t \<and> marks_only s1 t"
    obtain t' where t': "mark_step i t = Inr t'" "marks_only t t'" using mark_step_ok [of c info t i] t assms(3) i by auto
    have "feature_inv c info t'" using marks_only_inv [OF t'(2)] t by simp
    then show "\<exists>t'. mark_step i t = Inr t' \<and> feature_inv c info t' \<and> marks_only s1 t'"
      using t'(1) t marks_only_trans [OF _ t'(2)] by blast
  qed (use s1(2) in simp)
  moreover have "length (fe_cloud s1) = ?n" using s1(2) by (simp add: feature_inv_def)
  ultimately obtain s2 where s2: "markOccludedPoints s1 = Inr s2" "feature_inv c info s2" "marks_only s1 s2"
    by (auto simp: markOccludedPoints_def)
  have "slots_ok ?n s2" "\<forall>i. 5 \<le> i \<and> i + 6 \<le> ?n \<longrightarrow> cloudCurvature s2 ! i = roughness (point_range info) i"
    using s1(3,4) s2(3) by (simp_all add: marks_only_def slots_ok_def)
  then have "work_inv ds c info (s2\<lparr>cornerCloud := [], surfaceCloud := [], surfaceCloudScan := []\<rparr>)"
    using s2(2) by (simp add: work_inv_def feature_inv_def slots_ok_def)
  then obtain s3 where s3: "extractFeatures srt ds c s2 = Inr s3" "work_inv ds c info s3" "length (cornerCloud s3) \<le> 240 * N_SCAN c"
    using extractFeatures_ok [OF assms(1) _ assms(3)] by blast
  have "laserCloudInfoHandler srt ds c s info = Inr (publishFeatureCloud s3)"
    using s1(1) s2(1) s3(1) by (simp add: laserCloudInfoHandler_def)
  moreover obtain s' out where out: "publishFeatureCloud s3 = (s', [out])" "cloud_corner out = cornerCloud s3" "cloud_surface out = surfaceCloud s3"
    "cloudSmoothness s' = cloudSmoothness s3" "cloudCurvature s' = cloudCurvature s3" "cloudNeighborPicked s' = cloudNeighborPicked s3" "cloudLabel s' = cloudLabel s3"
    by (simp add: publishFeatureCloud_def Let_def CloudInfo.defs FeatureInfo.defs)
  moreover have "sized c s'" using s3(2) out by (simp add: work_inv_def feature_inv_def sized_def)
  moreover have "first_slot_ok ?n s'" using s3(2) out by (simp add: work_inv_def slots_ok_def first_slot_ok_def)
  moreover have "\<forall>p\<in>set (cloud_corner out). is_edge c info p" "\<forall>p\<in>set (cloud_surface out). is_surface ds info p"
    using s3(2) by (simp_all add: work_inv_def out)
  ultimately show ?thesis using s3(3) by auto
qed

text \<open>What is promised of the message for one image.\<close>

definition features_ok :: "(PointType list \<Rightarrow> PointType list) \<Rightarrow> ParamServer \<Rightarrow> CloudInfo \<Rightarrow> FeatureInfo \<Rightarrow> bool" where
  "features_ok ds c info out \<longleftrightarrow> length (cloud_corner out) \<le> 240 * N_SCAN c \<and> (\<forall>p\<in>set (cloud_corner out). is_edge c info p)
     \<and> (\<forall>p\<in>set (cloud_surface out). is_surface ds info p)"

definition cloud_size :: "CloudInfo \<Rightarrow> nat" where
  "cloud_size info = length (cloud_deskewed info)"

lemma first_slot_grows: "first_slot_ok n s \<Longrightarrow> 12 \<le> n \<Longrightarrow> n \<le> m \<Longrightarrow> first_slot_ok m s"
  by (simp add: first_slot_ok_def slot_ok_def)

lemma growing_clouds_handled:
  assumes "keeps_elements srt" and "sized c s" and "\<forall>info\<in>set infos. fits c info \<and> 12 \<le> cloud_size info" and "sorted (map cloud_size infos)"
    and "infos \<noteq> [] \<longrightarrow> first_slot_ok (cloud_size (hd infos)) s"
  shows "\<exists>s' outs. run_handlers (laserCloudInfoHandler srt ds c) s infos = Inr (s', outs) \<and> list_all2 (features_ok ds c) infos outs"
  using assms(2-5)
proof (induction infos arbitrary: s)
  case (Cons info infos)
  obtain s1 out where s1: "laserCloudInfoHandler srt ds c s info = Inr (s1, [out])" "sized c s1" "first_slot_ok (cloud_size info) s1" "features_ok ds c info out"
    using handler_ok [OF assms(1) Cons.prems(1), of info ds] Cons.prems(2,4) by (auto simp: cloud_size_def features_ok_def)
  have "first_slot_ok (cloud_size (hd infos)) s1" if "infos \<noteq> []"
    using first_slot_grows [OF s1(3)] Cons.prems(2,3) that by (cases infos) auto
  then obtain s' outs where "run_handlers (laserCloudInfoHandler srt ds c) s1 infos = Inr (s', outs)" "list_all2 (features_ok ds c) infos outs"
    using Cons.IH [OF s1(2)] Cons.prems(2,3) by auto
  then show ?case using s1(1,4) by simp
qed simp


lemma sort_key_keeps: "keeps_elements (sort_key fst)"
  by (simp add: keeps_elements_def)

definition example_features :: FeatureExtraction where
  "example_features = initializationValue example_server example_info (replicate 24000 0) (replicate 24000 0) (replicate 24000 0)"

lemma example_sized: "sized example_server example_features"
  by (simp add: sized_def example_features_def initializationValue_def places_def example_server_def Let_def)


section \<open>What goes wrong\<close>

text \<open>
  The first ring starts at slot four, and the curvatures are computed from five on.  In a fresh node
  the slot names point 0, whose neighbours to the left are outside; later it names whatever point an
  earlier sort left there, which a smaller image need not have.
\<close>

lemma fresh_node_is_not_ready:
  "12 \<le> n \<Longrightarrow> 5 \<le> places c \<Longrightarrow> \<not> first_slot_ok n (initializationValue c info mem1 mem2 mem3)"
  by (simp add: first_slot_ok_def slot_ok_def initializationValue_def places_def Let_def)

lemma first_point_reads_outside: "spread 0 (- 1) [1..5] s = Inl Bad_index"
  by (simp add: upto_rec1 idx_def)

lemma stale_slot_reads_outside:
  "free_slot (\<lambda>cv. cv > edgeThreshold c) 4 s = Inr (Some ind) \<Longrightarrow> int (length (fe_cloud s)) \<le> ind \<Longrightarrow> m < 40
   \<Longrightarrow> corner_loop c m (4 # ks) s = Inl Bad_index"
  by (simp add: idx_def)

text \<open>The last slot of a sector is not sorted, yet the search for edges starts there.\<close>

lemma last_slot_is_not_sorted:
  assumes "keeps_elements srt" and "sort_slots srt sp ep s = Inr s'" and "0 \<le> sp" and "sp < ep" and "ep < int (length (cloudSmoothness s))"
  shows "cloudSmoothness s' ! nat ep = cloudSmoothness s ! nat ep"
proof -
  define a b where "a = nat sp" and "b = nat ep"
  let ?seg = "take (b - a) (drop a (cloudSmoothness s))"
  have ab: "a < b" "b < length (cloudSmoothness s)" using assms(3-5) by (simp_all add: a_def b_def)
  have "mset (srt ?seg) = mset ?seg" using assms(1) by (simp add: keeps_elements_def)
  from arg_cong [OF this, of size] have "length (srt ?seg) = b - a" using ab by simp
  then have "(take a (cloudSmoothness s) @ srt ?seg @ drop b (cloudSmoothness s)) ! b = cloudSmoothness s ! b"
    using ab by (simp add: nth_append min_def)
  then show ?thesis using assms(2-5) by (auto simp: sort_slots_def Let_def a_def b_def split: if_splits)
qed

end
