(* ===== verification/ImuPreintegration.thy ===== *)
theory ImuPreintegration
  imports ImageProjection Messages
begin

text \<open>
  The node that carries the motion of the lidar on between its scans (class \<open>IMUPreintegration\<close> of
  \<open>imuPreintegration.cpp\<close>): it integrates the inertial data from the last corrected state and publishes
  navigation states.  What GTSAM computes is a parameter, of which nothing is assumed but that it returns: the
  optimiser is the list of the updates it got, the integrator its bias and the list of the measurements
  it got, and results are functions of these lists.
\<close>

section \<open>The library\<close>

type_synonym vec = "real \<times> real \<times> real"
type_synonym quaternion = "real \<times> real \<times> real \<times> real"

text \<open>A bias: accelerometer and gyroscope.\<close>

type_synonym bias = "vec \<times> vec"

text \<open>\<open>PreintegratedImuMeasurements\<close>: acceleration, angular velocity and time of each measurement, from a bias.\<close>

type_synonym integrator = "bias \<times> (vec \<times> vec \<times> real) list"

datatype symbol = Xk nat | Vk nat | Bk nat

datatype 'p graph_value = PoseValue 'p | VelValue vec | BiasValue bias

text \<open>
  \<open>Marginal\<close> is the covariance of a variable in an optimiser, given by the updates that one had got.
  A correction is followed by a second, empty update, which is part of it.
\<close>

datatype 'p noise = Prior | Marginal "('p factor list \<times> (symbol \<times> 'p graph_value) list) list" symbol | Correction | Correction2
  and 'p factor =
    PriorPose symbol 'p "'p noise"
  | PriorVel symbol vec "'p noise"
  | PriorBias symbol bias "'p noise"
  | ImuFactor symbol symbol symbol symbol symbol integrator
  | BetweenBias symbol symbol real

type_synonym 'p graph_update = "'p factor list \<times> (symbol \<times> 'p graph_value) list"

record 'p Gtsam =
  pose3 :: "quaternion \<Rightarrow> vec \<Rightarrow> 'p"
  compose :: "'p \<Rightarrow> 'p \<Rightarrow> 'p"
  pose_translation :: "'p \<Rightarrow> vec"
  pose_rotation :: "'p \<Rightarrow> quaternion"
  predict :: "integrator \<Rightarrow> 'p \<times> vec \<Rightarrow> bias \<Rightarrow> 'p \<times> vec"
  deltaTij :: "integrator \<Rightarrow> real"
  estimate_pose :: "'p graph_update list \<Rightarrow> symbol \<Rightarrow> 'p"
  estimate_vel :: "'p graph_update list \<Rightarrow> symbol \<Rightarrow> vec"
  estimate_bias :: "'p graph_update list \<Rightarrow> symbol \<Rightarrow> bias"

section \<open>State\<close>

record 'p IMUPreintegration =
  systemInitialized :: bool
  imuIntegratorOpt :: integrator
  imuIntegratorImu :: integrator
  imuQueOpt :: "RosImu list"
  imuQueImu :: "RosImu list"
  prevPose :: 'p
  prevVel :: vec
  prevState :: "'p \<times> vec"
  prevBias :: bias
  prevStateOdom :: "'p \<times> vec"
  prevBiasOdom :: bias
  doneFirstOpt :: bool
  lastImuT_imu :: real
  lastImuT_opt :: real
  optimizer :: "'p graph_update list"
  graph_key :: nat

definition zero_vec :: vec where "zero_vec = (0, 0, 0)"
definition zero_bias :: bias where "zero_bias = (zero_vec, zero_vec)"

text \<open>A pose of GTSAM is the identity unless something else is said.\<close>

definition identity_pose :: "'p Gtsam \<Rightarrow> 'p" where
  "identity_pose g = pose3 g (0, 0, 0, 1) zero_vec"

definition IMUPreintegration_ctor :: "'p Gtsam \<Rightarrow> 'p IMUPreintegration" where
  "IMUPreintegration_ctor g = \<lparr>systemInitialized = False, imuIntegratorOpt = (zero_bias, []), imuIntegratorImu = (zero_bias, []), imuQueOpt = [], imuQueImu = [],
     prevPose = identity_pose g, prevVel = zero_vec, prevState = (identity_pose g, zero_vec), prevBias = zero_bias,
     prevStateOdom = (identity_pose g, zero_vec), prevBiasOdom = zero_bias, doneFirstOpt = False, lastImuT_imu = - 1, lastImuT_opt = - 1,
     optimizer = [], graph_key = 1\<rparr>"

definition negated :: "vec \<Rightarrow> vec" where
  "negated = (\<lambda>(x, y, z). (- x, - y, - z))"

definition imu2Lidar :: "'p Gtsam \<Rightarrow> ParamServer \<Rightarrow> 'p" where
  "imu2Lidar g c = pose3 g (0, 0, 0, 1) (negated (extTrans c))"

definition lidar2Imu :: "'p Gtsam \<Rightarrow> ParamServer \<Rightarrow> 'p" where
  "lidar2Imu g c = pose3 g (0, 0, 0, 1) (extTrans c)"

section \<open>Corrections\<close>

definition resetOptimization :: "'p IMUPreintegration \<Rightarrow> 'p IMUPreintegration" where
  "resetOptimization s = s\<lparr>optimizer := []\<rparr>"

definition resetParams :: "'p IMUPreintegration \<Rightarrow> 'p IMUPreintegration" where
  "resetParams s = s\<lparr>lastImuT_imu := - 1, doneFirstOpt := False, systemInitialized := False\<rparr>"

text \<open>The first variables of a graph, with their priors.\<close>

definition priors :: "'p IMUPreintegration \<Rightarrow> 'p noise \<Rightarrow> 'p noise \<Rightarrow> 'p noise \<Rightarrow> 'p graph_update" where
  "priors s n1 n2 n3 = ([PriorPose (Xk 0) (prevPose s) n1, PriorVel (Vk 0) (prevVel s) n2, PriorBias (Bk 0) (prevBias s) n3],
     [(Xk 0, PoseValue (prevPose s)), (Vk 0, VelValue (prevVel s)), (Bk 0, BiasValue (prevBias s))])"

text \<open>What is older than a time is dropped; \<open>t0\<close> becomes the time of the last message dropped.\<close>

fun drop_older :: "real \<Rightarrow> real \<Rightarrow> RosImu list \<Rightarrow> real \<times> RosImu list" where
  "drop_older t t0 [] = (t0, [])"
| "drop_older t t0 (m # ms) = (if ri_stamp m < t then drop_older t (ri_stamp m) ms else (t0, m # ms))"

definition time_step :: "real \<Rightarrow> real \<Rightarrow> real" where
  "time_step t0 t = (if t0 < 0 then 1 / 500 else t - t0)"

definition integrateMeasurement :: "RosImu \<Rightarrow> real \<Rightarrow> integrator \<Rightarrow> integrator" where
  "integrateMeasurement m dt i = (fst i, snd i @ [(ri_acceleration m, ri_angular m, dt)])"

text \<open>What is older than the correction is integrated and dropped.\<close>

fun integrate_older :: "real \<Rightarrow> real \<Rightarrow> integrator \<Rightarrow> RosImu list \<Rightarrow> real \<times> integrator \<times> RosImu list" where
  "integrate_older t t0 i [] = (t0, i, [])"
| "integrate_older t t0 i (m # ms) =
     (if ri_stamp m < t then integrate_older t (ri_stamp m) (integrateMeasurement m (time_step t0 (ri_stamp m)) i) ms else (t0, i, m # ms))"

fun integrate_all :: "real \<Rightarrow> integrator \<Rightarrow> RosImu list \<Rightarrow> integrator" where
  "integrate_all t0 i [] = i"
| "integrate_all t0 i (m # ms) = integrate_all (ri_stamp m) (integrateMeasurement m (time_step t0 (ri_stamp m)) i) ms"

definition vec_norm :: "vec \<Rightarrow> real" where
  "vec_norm = (\<lambda>(x, y, z). sqrt (x * x + y * y + z * z))"

definition failureDetection :: "vec \<Rightarrow> bias \<Rightarrow> bool" where
  "failureDetection velCur biasCur \<longleftrightarrow> vec_norm velCur > 30 \<or> vec_norm (fst biasCur) > 1 \<or> vec_norm (snd biasCur) > 1"

definition lidar_pose :: "'p Gtsam \<Rightarrow> Odometry \<Rightarrow> 'p" where
  "lidar_pose g m = pose3 g (od_orientation m) (od_position m)"

definition initialize :: "'p Gtsam \<Rightarrow> ParamServer \<Rightarrow> Odometry \<Rightarrow> 'p IMUPreintegration \<Rightarrow> 'p IMUPreintegration" where
  "initialize g c m s =
     (let (t, q) = drop_older (od_stamp m) (lastImuT_opt s) (imuQueOpt s);
          s1 = (resetOptimization s)\<lparr>lastImuT_opt := t, imuQueOpt := q, prevPose := compose g (lidar_pose g m) (lidar2Imu g c), prevVel := zero_vec,
                 prevBias := zero_bias\<rparr> in
      s1\<lparr>optimizer := [priors s1 Prior Prior Prior], imuIntegratorImu := (zero_bias, []), imuIntegratorOpt := (zero_bias, []),
         graph_key := 1, systemInitialized := True\<rparr>)"

text \<open>After a hundred corrections the graph starts again from the last state.\<close>

definition restart_graph :: "'p IMUPreintegration \<Rightarrow> 'p IMUPreintegration" where
  "restart_graph s =
     (if graph_key s = 100
      then let k = graph_key s - 1; s1 = resetOptimization s in
           s1\<lparr>optimizer := [priors s1 (Marginal (optimizer s) (Xk k)) (Marginal (optimizer s) (Vk k)) (Marginal (optimizer s) (Bk k))], graph_key := 1\<rparr>
      else s)"

text \<open>The factors and the values of a correction.\<close>

definition correction :: "'p Gtsam \<Rightarrow> ParamServer \<Rightarrow> Odometry \<Rightarrow> 'p IMUPreintegration \<Rightarrow> 'p graph_update" where
  "correction g c m s =
     (let k = graph_key s; i = imuIntegratorOpt s; p = predict g i (prevState s) (prevBias s);
          degenerate = (c_trunc (od_covariance0 m) = 1) in
      ([ImuFactor (Xk (k - 1)) (Vk (k - 1)) (Xk k) (Vk k) (Bk (k - 1)) i, BetweenBias (Bk (k - 1)) (Bk k) (sqrt (deltaTij g i)),
        PriorPose (Xk k) (compose g (lidar_pose g m) (lidar2Imu g c)) (if degenerate then Correction2 else Correction)],
       [(Xk k, PoseValue (fst p)), (Vk k, VelValue (snd p)), (Bk k, BiasValue (prevBias s))]))"

definition optimize :: "'p Gtsam \<Rightarrow> ParamServer \<Rightarrow> Odometry \<Rightarrow> 'p IMUPreintegration \<Rightarrow> 'p IMUPreintegration" where
  "optimize g c m s =
     (let (t, i, q) = integrate_older (od_stamp m) (lastImuT_opt s) (imuIntegratorOpt s) (imuQueOpt s);
          s1 = s\<lparr>lastImuT_opt := t, imuIntegratorOpt := i, imuQueOpt := q\<rparr>;
          h = optimizer s1 @ [correction g c m s1]; k = graph_key s1;
          b = estimate_bias g h (Bk k) in
      s1\<lparr>optimizer := h, prevPose := estimate_pose g h (Xk k), prevVel := estimate_vel g h (Vk k),
         prevState := (estimate_pose g h (Xk k), estimate_vel g h (Vk k)), prevBias := b, imuIntegratorOpt := (b, [])\<rparr>)"

text \<open>The inertial data since the correction is integrated again, from the corrected state; without any the integrator is left as it is.\<close>

definition repropagate :: "real \<Rightarrow> 'p IMUPreintegration \<Rightarrow> 'p IMUPreintegration" where
  "repropagate t s =
     (let (t0, q) = drop_older t (- 1) (imuQueImu s);
          s1 = s\<lparr>prevStateOdom := prevState s, prevBiasOdom := prevBias s, imuQueImu := q\<rparr> in
      (if q = [] then s1 else s1\<lparr>imuIntegratorImu := integrate_all t0 (prevBiasOdom s1, []) q\<rparr>)\<lparr>graph_key := graph_key s + 1, doneFirstOpt := True\<rparr>)"

definition odometry_correction :: "'p Gtsam \<Rightarrow> ParamServer \<Rightarrow> Odometry \<Rightarrow> 'p IMUPreintegration \<Rightarrow> 'p IMUPreintegration" where
  "odometry_correction g c m s =
     (if imuQueOpt s = [] then s
      else if \<not> systemInitialized s then initialize g c m s
      else let s2 = optimize g c m (restart_graph s) in
           if failureDetection (prevVel s2) (prevBias s2) then resetParams s2 else repropagate (od_stamp m) s2)"

section \<open>Inertial data\<close>

datatype 'p preint_out = PubOdometry Odometry vec vec | PubNavState NavStateMsg

definition stamp_seconds :: "TimeMsg \<Rightarrow> real" where
  "stamp_seconds t = of_int (tm_sec t) + of_int (tm_nanosec t) / 1000000000"

definition to_vec3 :: "vec \<Rightarrow> vec3" where
  "to_vec3 = (\<lambda>(x, y, z). \<lparr>v3_x = x, v3_y = y, v3_z = z\<rparr>)"

definition add_vec :: "vec \<Rightarrow> vec \<Rightarrow> vec" where
  "add_vec = (\<lambda>(x, y, z) (x', y', z'). (x + x', y + y', z + z'))"

text \<open>The odometry with its twist, and the navigation state.\<close>

definition published :: "'p Gtsam \<Rightarrow> ParamServer \<Rightarrow> TimeMsg \<Rightarrow> RosImu \<Rightarrow> 'p IMUPreintegration \<Rightarrow> 'p preint_out list" where
  "published g c tm m s =
     (let (imuPose, v) = predict g (imuIntegratorImu s) (prevStateOdom s) (prevBiasOdom s);
          lidarPose = compose g imuPose (imu2Lidar g c); p = pose_translation g lidarPose; q = pose_rotation g lidarPose;
          (qx, qy, qz, qw) = q in
      [PubOdometry \<lparr>od_stamp = ri_stamp m, od_position = p, od_orientation = q, od_covariance0 = 0\<rparr> v (add_vec (ri_angular m) (snd (prevBiasOdom s))),
       PubNavState \<lparr>nv_timestamp = tm, nv_origin = to_vec3 zero_vec, nv_position = to_vec3 p, nv_velocity = to_vec3 v,
         nv_quaternion = \<lparr>q_w = qw, q_x = qx, q_y = qy, q_z = qz\<rparr>,
         nv_acceleration = to_vec3 (ri_acceleration m), nv_angular_velocity = to_vec3 (ri_angular m)\<rparr>])"

definition take_imu :: "'p Gtsam \<Rightarrow> ParamServer \<Rightarrow> TimeMsg \<Rightarrow> RosImu \<Rightarrow> 'p IMUPreintegration \<Rightarrow> 'p IMUPreintegration \<times> 'p preint_out list" where
  "take_imu g c tm m s =
     (let s1 = s\<lparr>imuQueOpt := imuQueOpt s @ [m], imuQueImu := imuQueImu s @ [m]\<rparr> in
      if \<not> doneFirstOpt s1 then (s1, [])
      else let s2 = s1\<lparr>lastImuT_imu := ri_stamp m, imuIntegratorImu := integrateMeasurement m (time_step (lastImuT_imu s1) (ri_stamp m)) (imuIntegratorImu s1)\<rparr> in
           (s2, published g c tm m s2))"

datatype preint_event = InertialData TimeMsg RosImu | LidarOdometry Odometry

fun preint_step :: "'p Gtsam \<Rightarrow> ParamServer \<Rightarrow> ('p IMUPreintegration, preint_event, 'p preint_out) handler" where
  "preint_step g c s (InertialData tm raw) = sbind (imuConverter c (raw\<lparr>ri_stamp := stamp_seconds tm\<rparr>)) (\<lambda>m. Inr (take_imu g c tm m s))"
| "preint_step g c s (LidarOdometry m) = Inr (odometry_correction g c m s, [])"

section \<open>The graph\<close>

text \<open>The variables a factor is about, and those an update brings in.\<close>

fun symbols_of :: "'p factor \<Rightarrow> symbol set" where
  "symbols_of (PriorPose x p n) = {x}"
| "symbols_of (PriorVel v p n) = {v}"
| "symbols_of (PriorBias b p n) = {b}"
| "symbols_of (ImuFactor x v x' v' b i) = {x, v, x', v', b}"
| "symbols_of (BetweenBias b b' d) = {b, b'}"

definition brought :: "'p graph_update list \<Rightarrow> symbol set" where
  "brought h = fst ` set (concat (map snd h))"

text \<open>The variables of the first \<open>n\<close> states.\<close>

definition states :: "nat \<Rightarrow> symbol set" where
  "states n = Xk ` {..<n} \<union> Vk ` {..<n} \<union> Bk ` {..<n}"

text \<open>An update names only variables that are there, and brings in each only once.\<close>

definition update_fits :: "'p graph_update list \<Rightarrow> 'p graph_update \<Rightarrow> bool" where
  "update_fits h u \<longleftrightarrow> distinct (map fst (snd u)) \<and> fst ` set (snd u) \<inter> brought h = {} \<and> (\<forall>f\<in>set (fst u). symbols_of f \<subseteq> brought (h @ [u]))"

definition well_formed :: "'p graph_update list \<Rightarrow> bool" where
  "well_formed h \<longleftrightarrow> (\<forall>n<length h. update_fits (take n h) (h ! n))"

text \<open>The covariances taken over from an earlier graph belong to variables of it.\<close>

fun noise_ok :: "'p factor \<Rightarrow> bool" where
  "noise_ok (PriorPose x p (Marginal h y)) = (y \<in> brought h)"
| "noise_ok (PriorVel x p (Marginal h y)) = (y \<in> brought h)"
| "noise_ok (PriorBias x p (Marginal h y)) = (y \<in> brought h)"
| "noise_ok _ = True"

definition graph_ok :: "'p IMUPreintegration \<Rightarrow> bool" where
  "graph_ok s \<longleftrightarrow> well_formed (optimizer s) \<and> (\<forall>u\<in>set (optimizer s). \<forall>f\<in>set (fst u). noise_ok f) \<and> 1 \<le> graph_key s \<and> graph_key s \<le> 100
     \<and> (systemInitialized s \<longrightarrow> brought (optimizer s) = states (graph_key s))"

lemma brought_simps [simp]: "brought [] = {}" "brought (h @ h') = brought h \<union> brought h'" "brought [u] = fst ` set (snd u)"
  by (auto simp: brought_def)

lemma well_formed_snoc: "well_formed (h @ [u]) \<longleftrightarrow> well_formed h \<and> update_fits h u"
  by (auto simp: well_formed_def nth_append less_Suc_eq)

lemma states_Suc: "states (Suc n) = states n \<union> {Xk n, Vk n, Bk n}"
  by (auto simp: states_def lessThan_Suc)

lemma states_fresh: "Xk n \<notin> states n" "Vk n \<notin> states n" "Bk n \<notin> states n"
  by (auto simp: states_def)

lemma states_below: "k < n \<Longrightarrow> Xk k \<in> states n \<and> Vk k \<in> states n \<and> Bk k \<in> states n"
  by (auto simp: states_def)

lemma priors_graph:
  assumes "optimizer s = [priors t n1 n2 n3]" and "\<forall>f\<in>set (fst (priors t n1 n2 n3)). noise_ok f" and "graph_key s = 1"
  shows "graph_ok s"
proof -
  have "brought [priors t n1 n2 n3] = states 1" by (auto simp: priors_def states_def)
  moreover have "update_fits [] (priors t n1 n2 n3)" by (simp add: update_fits_def priors_def)
  then have "well_formed [priors t n1 n2 n3]" using well_formed_snoc [of "[]" "priors t n1 n2 n3"] by (simp add: well_formed_def)
  ultimately show ?thesis using assms by (simp add: graph_ok_def)
qed

lemma initialize_graph: "graph_ok (initialize g c m s)"
proof -
  obtain t q where "drop_older (od_stamp m) (lastImuT_opt s) (imuQueOpt s) = (t, q)" by fastforce
  then have "\<exists>s1. optimizer (initialize g c m s) = [priors s1 Prior Prior Prior] \<and> graph_key (initialize g c m s) = 1"
    by (auto simp: initialize_def Let_def)
  then obtain s1 where s1: "optimizer (initialize g c m s) = [priors s1 Prior Prior Prior]" "graph_key (initialize g c m s) = 1" by blast
  show ?thesis by (rule priors_graph [OF s1(1) _ s1(2)]) (simp add: priors_def)
qed

lemma restart_graph_ok:
  assumes "graph_ok s" and "systemInitialized s"
  shows "graph_ok (restart_graph s)" and "graph_key (restart_graph s) < 100" and "systemInitialized (restart_graph s)"
proof -
  let ?h = "optimizer s" and ?s1 = "resetOptimization s"
  have "graph_ok (?s1\<lparr>optimizer := [priors ?s1 (Marginal ?h (Xk 99)) (Marginal ?h (Vk 99)) (Marginal ?h (Bk 99))], graph_key := 1\<rparr>)" if k: "graph_key s = 100"
  proof (rule priors_graph)
    have "brought ?h = states 100" using assms k by (simp add: graph_ok_def)
    then show "\<forall>f\<in>set (fst (priors ?s1 (Marginal ?h (Xk 99)) (Marginal ?h (Vk 99)) (Marginal ?h (Bk 99)))). noise_ok f"
      using states_below [of 99 100] by (simp add: priors_def)
  qed simp_all
  then show "graph_ok (restart_graph s)" using assms(1) by (simp add: restart_graph_def Let_def)
  show "graph_key (restart_graph s) < 100" using assms(1) by (simp add: restart_graph_def Let_def graph_ok_def)
  show "systemInitialized (restart_graph s)" using assms(2) by (simp add: restart_graph_def Let_def resetOptimization_def)
qed

lemma correction_fits:
  assumes "brought h = states k" and "graph_key s = k" and "1 \<le> k"
  shows "update_fits h (correction g c m s)" and "brought (h @ [correction g c m s]) = states (Suc k)"
    and "\<forall>f\<in>set (fst (correction g c m s)). noise_ok f"
proof -
  let ?u = "correction g c m s"
  have new: "fst ` set (snd ?u) = {Xk k, Vk k, Bk k}" using assms(2) by (simp add: correction_def Let_def)
  then show b: "brought (h @ [?u]) = states (Suc k)" using assms(1) by (simp add: states_Suc)
  have "distinct (map fst (snd ?u))" by (simp add: correction_def Let_def)
  moreover have "fst ` set (snd ?u) \<inter> brought h = {}" unfolding new assms(1) using states_fresh by blast
  moreover have "\<forall>f\<in>set (fst ?u). symbols_of f \<subseteq> states (Suc k)"
    using assms(2) states_below [of "k - 1" "Suc k"] states_below [of k "Suc k"] by (simp add: correction_def Let_def)
  ultimately show "update_fits h ?u" unfolding update_fits_def b by blast
  show "\<forall>f\<in>set (fst ?u). noise_ok f" by (simp add: correction_def Let_def)
qed

lemma optimize_graph:
  assumes "graph_ok s" and "systemInitialized s" and "graph_key s < 100"
  shows "well_formed (optimizer (optimize g c m s))" and "\<forall>u\<in>set (optimizer (optimize g c m s)). \<forall>f\<in>set (fst u). noise_ok f"
    and "brought (optimizer (optimize g c m s)) = states (Suc (graph_key s))" and "graph_key (optimize g c m s) = graph_key s"
    and "systemInitialized (optimize g c m s)"
proof -
  obtain t i q where "integrate_older (od_stamp m) (lastImuT_opt s) (imuIntegratorOpt s) (imuQueOpt s) = (t, i, q)" by (metis prod_cases3)
  then have "\<exists>s1. optimizer (optimize g c m s) = optimizer s @ [correction g c m s1] \<and> graph_key s1 = graph_key s"
    by (auto simp: optimize_def Let_def intro!: exI [of _ "s\<lparr>lastImuT_opt := t, imuIntegratorOpt := i, imuQueOpt := q\<rparr>"])
  then obtain s1 where s1: "optimizer (optimize g c m s) = optimizer s @ [correction g c m s1]" "graph_key s1 = graph_key s" by blast
  have b: "brought (optimizer s) = states (graph_key s)" "1 \<le> graph_key s" using assms by (simp_all add: graph_ok_def)
  note fits = correction_fits [OF b(1) s1(2) b(2), of g c m]
  show "well_formed (optimizer (optimize g c m s))" using assms(1) fits(1) by (simp add: s1(1) well_formed_snoc graph_ok_def)
  show "\<forall>u\<in>set (optimizer (optimize g c m s)). \<forall>f\<in>set (fst u). noise_ok f" using assms(1) fits(3) by (simp add: s1(1) graph_ok_def)
  show "brought (optimizer (optimize g c m s)) = states (Suc (graph_key s))" using fits(2) by (simp only: s1(1))
  show "graph_key (optimize g c m s) = graph_key s" by (simp add: optimize_def Let_def split: prod.split)
  show "systemInitialized (optimize g c m s)" using assms(2) by (simp add: optimize_def Let_def split: prod.split)
qed

lemma repropagate_frame: "optimizer (repropagate t s) = optimizer s" "graph_key (repropagate t s) = graph_key s + 1"
    "systemInitialized (repropagate t s) = systemInitialized s" "doneFirstOpt (repropagate t s)" "prevStateOdom (repropagate t s) = prevState s"
    "prevBiasOdom (repropagate t s) = prevBias s"
  by (simp_all add: repropagate_def Let_def split: prod.split)

lemma odometry_graph:
  assumes "graph_ok s"
  shows "graph_ok (odometry_correction g c m s)"
proof -
  let ?s2 = "optimize g c m (restart_graph s)"
  have "graph_ok (if failureDetection (prevVel ?s2) (prevBias ?s2) then resetParams ?s2 else repropagate (od_stamp m) ?s2)" if i: "systemInitialized s"
  proof -
    note r = restart_graph_ok [OF assms i]
    note o = optimize_graph [OF r(1,3,2), of g c m]
    have k: "1 \<le> graph_key (restart_graph s)" using r(1) by (simp add: graph_ok_def)
    show ?thesis using o r(2) k by (auto simp: graph_ok_def resetParams_def repropagate_frame)
  qed
  then show ?thesis using assms by (simp add: odometry_correction_def Let_def initialize_graph)
qed

section \<open>What is integrated\<close>

text \<open>Every published state is predicted from a corrected state that passed the test for failures.\<close>

definition motion_ok :: "'p IMUPreintegration \<Rightarrow> bool" where
  "motion_ok s \<longleftrightarrow> (doneFirstOpt s \<longrightarrow> \<not> failureDetection (snd (prevStateOdom s)) (prevBiasOdom s))"

definition measured :: "RosImu \<Rightarrow> vec \<times> vec" where
  "measured m = (ri_acceleration m, ri_angular m)"

text \<open>The integrator holds exactly the inertial data since the correction, each message once and in order.\<close>

definition integrated_ok :: "'p IMUPreintegration \<Rightarrow> bool" where
  "integrated_ok s \<longleftrightarrow> (doneFirstOpt s \<longrightarrow> fst (imuIntegratorImu s) = prevBiasOdom s
     \<and> map (\<lambda>(a, w, dt). (a, w)) (snd (imuIntegratorImu s)) = map measured (imuQueImu s))"

lemma integrate_all_measured: "fst (integrate_all t i ms) = fst i \<and>
    map (\<lambda>(a, w, dt). (a, w)) (snd (integrate_all t i ms)) = map (\<lambda>(a, w, dt). (a, w)) (snd i) @ map measured ms"
  by (induction t i ms rule: integrate_all.induct) (simp_all add: integrateMeasurement_def measured_def)

lemma drop_older_queue: "snd (drop_older t t0 ms) = dropWhile (\<lambda>m. ri_stamp m < t) ms"
  by (induction t t0 ms rule: drop_older.induct) simp_all

lemma optimize_frame: "prevState (optimize g c m s) = (prevPose (optimize g c m s), prevVel (optimize g c m s))"
    "imuQueImu (optimize g c m s) = imuQueImu s" "doneFirstOpt (optimize g c m s) = doneFirstOpt s"
    "prevStateOdom (optimize g c m s) = prevStateOdom s" "prevBiasOdom (optimize g c m s) = prevBiasOdom s"
    "imuIntegratorImu (optimize g c m s) = imuIntegratorImu s"
  by (simp_all add: optimize_def Let_def split: prod.split)

lemma restart_frame: "imuQueImu (restart_graph s) = imuQueImu s" "doneFirstOpt (restart_graph s) = doneFirstOpt s"
  by (simp_all add: restart_graph_def Let_def resetOptimization_def)

lemma initialize_frame: "doneFirstOpt (initialize g c m s) = doneFirstOpt s" "imuQueImu (initialize g c m s) = imuQueImu s"
  by (simp_all add: initialize_def Let_def resetOptimization_def split: prod.split)

text \<open>A lidar odometry comes while inertial data not older than it is in hand.\<close>

fun covered :: "'p IMUPreintegration \<Rightarrow> preint_event \<Rightarrow> bool" where
  "covered s (InertialData tm m) = True"
| "covered s (LidarOdometry m) = (\<exists>x\<in>set (imuQueImu s). od_stamp m \<le> ri_stamp x)"

definition preint_inv :: "'p IMUPreintegration \<Rightarrow> bool" where
  "preint_inv s \<longleftrightarrow> graph_ok s \<and> motion_ok s \<and> (\<not> systemInitialized s \<longrightarrow> \<not> doneFirstOpt s)"

lemma repropagate_integrated:
  assumes "\<exists>x\<in>set (imuQueImu s). t \<le> ri_stamp x"
  shows "integrated_ok (repropagate t s)"
proof -
  obtain t0 q where d: "drop_older t (- 1) (imuQueImu s) = (t0, q)" by fastforce
  then have q: "q = dropWhile (\<lambda>m. ri_stamp m < t) (imuQueImu s)" using drop_older_queue [of t "- 1" "imuQueImu s"] by simp
  have "q \<noteq> []" using assms by (auto simp: q not_less)
  then show ?thesis using integrate_all_measured [of t0 "(prevBias s, [])" q] by (simp add: repropagate_def d integrated_ok_def Let_def)
qed

lemma odometry_inv:
  assumes "preint_inv s"
  shows "preint_inv (odometry_correction g c m s)"
    and "integrated_ok s \<Longrightarrow> covered s (LidarOdometry m) \<Longrightarrow> integrated_ok (odometry_correction g c m s)"
proof -
  let ?s2 = "optimize g c m (restart_graph s)"
  have g: "graph_ok (odometry_correction g c m s)" by (rule odometry_graph) (use assms in \<open>simp add: preint_inv_def\<close>)
  have i2: "systemInitialized ?s2" if "systemInitialized s"
    using optimize_graph(5) restart_graph_ok [of s] assms that by (simp add: preint_inv_def)
  show "preint_inv (odometry_correction g c m s)"
    using g assms i2 by (auto simp: odometry_correction_def Let_def preint_inv_def motion_ok_def initialize_frame resetParams_def repropagate_frame optimize_frame)
  assume i: "integrated_ok s" and cov: "covered s (LidarOdometry m)"
  have "\<exists>x\<in>set (imuQueImu ?s2). od_stamp m \<le> ri_stamp x" using cov by (simp add: optimize_frame restart_frame)
  then have "integrated_ok (repropagate (od_stamp m) ?s2)" by (rule repropagate_integrated)
  then show "integrated_ok (odometry_correction g c m s)"
    using i assms by (auto simp: odometry_correction_def Let_def integrated_ok_def initialize_frame resetParams_def preint_inv_def)
qed

lemma take_imu_inv:
  "preint_inv s \<Longrightarrow> preint_inv (fst (take_imu g c tm m s))" "integrated_ok s \<Longrightarrow> integrated_ok (fst (take_imu g c tm m s))"
  by (auto simp: take_imu_def Let_def preint_inv_def graph_ok_def motion_ok_def integrated_ok_def integrateMeasurement_def measured_def)

interpretation preint: handler_system "preint_step g c" preint_inv "\<lambda>_. True"
  for g :: "'p Gtsam" and c
proof
  fix s :: "'p IMUPreintegration" and e s' os
  assume s: "preint_inv s" and h: "preint_step g c s e = Inr (s', os)"
  show "preint_inv s'"
    using h odometry_inv(1) [OF s] take_imu_inv(1) [OF s] by (cases e) (auto simp: sbind_eq_Inr, metis fst_conv)
  show "list_all (\<lambda>_. True) os" by (simp add: list_all_iff)
qed


text \<open>As long as every correction is covered, the integrator holds what the queue holds.\<close>

interpretation carried: guarded_system "preint_step g c" covered "\<lambda>s. preint_inv s \<and> integrated_ok s" "\<lambda>_. True"
  for g :: "'p Gtsam" and c
proof
  fix s :: "'p IMUPreintegration" and e s' os
  assume s: "preint_inv s \<and> integrated_ok s" and cov: "covered s e" and h: "preint_step g c s e = Inr (s', os)"
  have "preint_inv s'" using preint.inv_step h s by blast
  moreover have "integrated_ok s'"
  proof (cases e)
    case (InertialData tm raw)
    then obtain m where "take_imu g c tm m s = (s', os)" using h by (auto simp: sbind_eq_Inr)
    then show ?thesis using take_imu_inv(2) [of s g c tm m] s by simp
  next
    case (LidarOdometry m)
    then have "s' = odometry_correction g c m s" using h by simp
    then show ?thesis using odometry_inv(2) [of s m g c] s cov LidarOdometry by simp
  qed
  ultimately show "(preint_inv s' \<and> integrated_ok s') \<and> list_all (\<lambda>_. True) os" by (simp add: list_all_iff)
qed

lemma ctor_inv: "preint_inv (IMUPreintegration_ctor g)" "integrated_ok (IMUPreintegration_ctor g)"
  by (simp_all add: IMUPreintegration_ctor_def preint_inv_def graph_ok_def well_formed_def motion_ok_def integrated_ok_def)

lemma imuConverter_ok: "lidar_config c \<Longrightarrow> imuConverter c m = Inr (imu_turned c m)"
  by (simp add: imuConverter_def norm4_normalize lidar_config_def imu_turned_def)

lemma imu_turned_stamp: "ri_stamp (imu_turned c m) = ri_stamp m"
  by (simp add: imu_turned_def)

section \<open>A concrete run\<close>

text \<open>A vehicle that stands: every estimate is the origin.\<close>

definition example_gtsam :: "unit Gtsam" where
  "example_gtsam = \<lparr>pose3 = (\<lambda>_ _. ()), compose = (\<lambda>_ _. ()), pose_translation = (\<lambda>_. zero_vec), pose_rotation = (\<lambda>_. (0, 0, 0, 1)),
     predict = (\<lambda>i s b. s), deltaTij = (\<lambda>i. 1), estimate_pose = (\<lambda>h x. ()), estimate_vel = (\<lambda>h v. zero_vec), estimate_bias = (\<lambda>h b. zero_bias)\<rparr>"

definition example_time :: "int \<Rightarrow> TimeMsg" where
  "example_time t = \<lparr>tm_sec = t, tm_nanosec = 0\<rparr>"

definition example_odometry :: "real \<Rightarrow> Odometry" where
  "example_odometry t = \<lparr>od_stamp = t, od_position = (0, 0, 0), od_orientation = (0, 0, 0, 1), od_covariance0 = 0\<rparr>"

definition example_events :: "preint_event list" where
  "example_events = [InertialData (example_time 1) example_imu, LidarOdometry (example_odometry 0.5),
     InertialData (example_time 2) example_imu, LidarOdometry (example_odometry 1.5)]"

lemmas preint_run_defs = example_events_def example_time_def example_odometry_def stamp_seconds_def IMUPreintegration_ctor_def
  odometry_correction_def initialize_def resetOptimization_def optimize_def restart_graph_def repropagate_def failureDetection_def vec_norm_def
  take_imu_def imu_turned_stamp imuConverter_ok [OF example_lidar_config]

lemma example_preint_run:
  "\<exists>s. run_handlers (preint_step example_gtsam example_server) (IMUPreintegration_ctor example_gtsam) example_events = Inr (s, [])
    \<and> systemInitialized s \<and> doneFirstOpt s \<and> length (optimizer s) = 2 \<and> graph_key s = 2 \<and> length (imuQueImu s) = 1"
  and example_preint_covered: "guarded covered (preint_step example_gtsam example_server) (IMUPreintegration_ctor example_gtsam) example_events"
  by (simp_all add: preint_run_defs Let_def example_gtsam_def zero_bias_def zero_vec_def time_step_def integrateMeasurement_def)




lemma example_message: "preint_step g example_server s (InertialData tm raw)
    = Inr (take_imu g example_server tm (imu_turned example_server (raw\<lparr>ri_stamp := stamp_seconds tm\<rparr>)) s)"
  by (simp add: imuConverter_ok [OF example_lidar_config])

lemma take_imu_sends: "doneFirstOpt s \<Longrightarrow> snd (take_imu g c tm m s) \<noteq> []"
  by (simp add: take_imu_def published_def Let_def split: prod.split)


section \<open>What goes wrong\<close>

text \<open>
  A correction newer than all inertial data in hand leaves the integrator as it is, while the state it starts from moves on:
  the motion of that data is counted twice.
\<close>

lemma motion_is_counted_twice:
  "\<forall>x\<in>set (imuQueImu s). ri_stamp x < t \<Longrightarrow> imuIntegratorImu (repropagate t s) = imuIntegratorImu s \<and> prevStateOdom (repropagate t s) = prevState s"
  using drop_older_queue [of t "- 1" "imuQueImu s"] by (auto simp: repropagate_def Let_def split: prod.split)

text \<open>After the first correction one message is integrated over 1/500 s, whatever its time.\<close>

lemma first_message_takes_two_milliseconds:
  "doneFirstOpt s \<Longrightarrow> lastImuT_imu s = - 1 \<Longrightarrow>
   imuIntegratorImu (fst (take_imu g c tm m s)) = integrateMeasurement m (1 / 500) (imuIntegratorImu s)"
  by (simp add: take_imu_def time_step_def Let_def)

lemma corrections_keep_the_time: "lastImuT_imu (repropagate t s) = lastImuT_imu s" "lastImuT_imu (optimize g c m s) = lastImuT_imu s"
  by (simp_all add: repropagate_def optimize_def Let_def split: prod.split)

text \<open>The first correction is predicted from the state before the initialisation, not from the pose the graph starts with.\<close>

lemma initial_state_is_not_set: "prevState (initialize g c m s) = prevState s"
  by (simp add: initialize_def Let_def resetOptimization_def split: prod.split)

end
