(* ===== verification/TransformFusion.thy ===== *)
theory TransformFusion
  imports ImageProjection
begin

text \<open>
  The node that adds the motion since the last scan to the pose of the scan (class \<open>TransformFusion\<close> of
  \<open>imuPreintegration.cpp\<close>): the poses of the inertial odometry are kept from the last scan on, and the newest is turned
  into the frame of the scan.  Eigen and tf2 are the parameter \<open>Isometry\<close>, of which nothing is assumed.
\<close>

section \<open>State\<close>

record 'a Isometry =
  odom2affine :: "Odometry \<Rightarrow> 'a"
  iso_inverse :: "'a \<Rightarrow> 'a"
  iso_mult :: "'a \<Rightarrow> 'a \<Rightarrow> 'a"
  iso_translation :: "'a \<Rightarrow> real \<times> real \<times> real"
  iso_rotation :: "'a \<Rightarrow> real \<times> real \<times> real \<times> real"

record Frames =
  lidarFrame :: string
  baselinkFrame :: string
  odometryFrame :: string

text \<open>A pose of the path: its time, position and orientation.\<close>

type_synonym stamped_pose = "real \<times> (real \<times> real \<times> real) \<times> (real \<times> real \<times> real \<times> real)"

record 'a TransformFusion =
  lidarOdomAffine :: 'a
  lidarOdomTime :: real
  imuOdomQueue :: "Odometry list"
  lidar2Baselink :: 'a
  imuPath :: "stamped_pose list"
  last_path_time :: real

text \<open>What is not initialised, the two transforms, is given.\<close>

definition TransformFusion_ctor :: "'a \<Rightarrow> 'a \<Rightarrow> 'a TransformFusion" where
  "TransformFusion_ctor a b = \<lparr>lidarOdomAffine = a, lidarOdomTime = - 1, imuOdomQueue = [], lidar2Baselink = b, imuPath = [], last_path_time = - 1\<rparr>"

text \<open>A transform is sent with its parent frame, time, pose and child frame; a path with its time and frame.\<close>

datatype 'a fusion_out = FusedOdometry Odometry | FusedTransform string real 'a string | FusedPath real string "stamped_pose list"

section \<open>Handlers\<close>

definition lidarOdometryHandler :: "'a Isometry \<Rightarrow> Odometry \<Rightarrow> 'a TransformFusion \<Rightarrow> 'a TransformFusion" where
  "lidarOdometryHandler g m s = s\<lparr>lidarOdomAffine := odom2affine g m, lidarOdomTime := od_stamp m\<rparr>"

text \<open>The poses that are not newer than the scan are dropped.\<close>

definition drop_before_scan :: "real \<Rightarrow> Odometry list \<Rightarrow> Odometry list" where
  "drop_before_scan t q = dropWhile (\<lambda>o'. od_stamp o' \<le> t) q"

definition fused_pose :: "'a Isometry \<Rightarrow> 'a \<Rightarrow> Odometry \<Rightarrow> Odometry \<Rightarrow> 'a" where
  "fused_pose g lidar front back = iso_mult g lidar (iso_mult g (iso_inverse g (odom2affine g front)) (odom2affine g back))"

text \<open>The transform, with the frame of the lidar looked up if it is not the base frame; without it the last one found is used.\<close>

definition send_transform :: "'a Isometry \<Rightarrow> Frames \<Rightarrow> 'a option \<Rightarrow> real \<Rightarrow> 'a \<Rightarrow> 'a TransformFusion \<Rightarrow> 'a TransformFusion \<times> 'a fusion_out" where
  "send_transform g fr found t pose s =
     (if lidarFrame fr \<noteq> baselinkFrame fr
      then let s1 = (case found of Some b \<Rightarrow> s\<lparr>lidar2Baselink := b\<rparr> | None \<Rightarrow> s) in
           (s1, FusedTransform (odometryFrame fr) t (iso_mult g pose (lidar2Baselink s1)) (baselinkFrame fr))
      else (s, FusedTransform [] 0 pose (baselinkFrame fr)))"

text \<open>At most ten poses a second are added to the path, which starts a second before the scan.\<close>

definition extend_path :: "Frames \<Rightarrow> bool \<Rightarrow> Odometry \<Rightarrow> 'a TransformFusion \<Rightarrow> 'a TransformFusion \<times> 'a fusion_out list" where
  "extend_path fr subscribed m s =
     (if od_stamp m - last_path_time s > 0.1
      then let p = dropWhile (\<lambda>(t, _). t < lidarOdomTime s - 1) (imuPath s @ [(od_stamp m, od_position m, od_orientation m)]) in
           (s\<lparr>last_path_time := od_stamp m, imuPath := p\<rparr>, if subscribed then [FusedPath (od_stamp m) (odometryFrame fr) p] else [])
      else (s, []))"

definition imuOdometryHandler ::
    "'a Isometry \<Rightarrow> Frames \<Rightarrow> Odometry \<Rightarrow> 'a option \<Rightarrow> bool \<Rightarrow> 'a TransformFusion \<Rightarrow> exn + 'a TransformFusion \<times> 'a fusion_out list" where
  "imuOdometryHandler g fr m found subscribed s =
     (let s1 = s\<lparr>imuOdomQueue := imuOdomQueue s @ [m]\<rparr> in
      if lidarOdomTime s1 = - 1 then Inr (s1, [])
      else let q = drop_before_scan (lidarOdomTime s1) (imuOdomQueue s1); s2 = s1\<lparr>imuOdomQueue := q\<rparr> in
           if q = [] then Inl Bad_index
           else let pose = fused_pose g (lidarOdomAffine s2) (hd q) (last q);
                    laserOdometry = (last q)\<lparr>od_position := iso_translation g pose, od_orientation := iso_rotation g pose\<rparr>;
                    (s3, tf) = send_transform g fr found (od_stamp m) pose s2;
                    (s4, path) = extend_path fr subscribed laserOdometry s3 in
                Inr (s4, FusedOdometry laserOdometry # tf # path))"

datatype 'a fusion_event = LaserOdometry Odometry | ImuOdometry Odometry "'a option" bool

fun fusion_step :: "'a Isometry \<Rightarrow> Frames \<Rightarrow> ('a TransformFusion, 'a fusion_event, 'a fusion_out) handler" where
  "fusion_step g fr s (LaserOdometry m) = Inr (lidarOdometryHandler g m s, [])"
| "fusion_step g fr s (ImuOdometry m found subscribed) = imuOdometryHandler g fr m found subscribed s"

section \<open>Runs in the order of time\<close>

text \<open>Scans and inertial odometry each come in order of time, and inertial odometry is newer than the last scan when it comes.\<close>

fun in_order :: "'a TransformFusion \<Rightarrow> 'a fusion_event \<Rightarrow> bool" where
  "in_order s (LaserOdometry m) = (lidarOdomTime s \<le> od_stamp m)"
| "in_order s (ImuOdometry m found subscribed) = (lidarOdomTime s < od_stamp m \<and> (\<forall>o'\<in>set (imuOdomQueue s). od_stamp o' \<le> od_stamp m))"

definition queue_sorted :: "'a TransformFusion \<Rightarrow> bool" where
  "queue_sorted s \<longleftrightarrow> sorted (map od_stamp (imuOdomQueue s))"

text \<open>A guarded system whose handler returns whenever the guard holds.\<close>

locale steady_system = guarded_system +
  assumes g_returns: "inv s \<Longrightarrow> g s e \<Longrightarrow> \<exists>s' os. h s e = Inr (s', os)"
begin

lemma steady_run: "inv s \<Longrightarrow> guarded g h s es \<Longrightarrow> \<exists>s' os. run_handlers h s es = Inr (s', os) \<and> inv s' \<and> list_all ok os"
proof (induction es arbitrary: s)
  case Nil
  then show ?case by simp
next
  case (Cons e es)
  then obtain s1 o1 where h1: "h s e = Inr (s1, o1)" using g_returns by fastforce
  then have "inv s1" "list_all ok o1" "guarded g h s1 es" using g_step [OF Cons.prems(1) _ h1] Cons.prems(2) by simp_all
  then show ?case using Cons.IH [of s1] h1 by auto
qed

end

lemma drop_before_sorted:
  assumes "sorted (map od_stamp q)"
  shows "drop_before_scan t q = filter (\<lambda>o'. t < od_stamp o') q"
  using assms by (induction q) (auto simp: drop_before_scan_def intro!: filter_True [symmetric])

lemma sorted_newest: "queue_sorted s \<Longrightarrow> \<forall>o'\<in>set (imuOdomQueue s). od_stamp o' \<le> od_stamp m \<Longrightarrow> sorted (map od_stamp (imuOdomQueue s @ [m]))"
  by (auto simp: queue_sorted_def sorted_append)

lemma send_transform_frame: "send_transform g fr found t pose s = (s', x) \<Longrightarrow>
    imuOdomQueue s' = imuOdomQueue s \<and> lidarOdomTime s' = lidarOdomTime s \<and> lidarOdomAffine s' = lidarOdomAffine s \<and> imuPath s' = imuPath s"
  by (auto simp: send_transform_def Let_def split: if_splits option.splits)

lemma extend_path_frame: "extend_path fr subscribed m s = (s', xs) \<Longrightarrow> imuOdomQueue s' = imuOdomQueue s \<and> lidarOdomTime s' = lidarOdomTime s \<and> lidarOdomAffine s' = lidarOdomAffine s"
  by (auto simp: extend_path_def Let_def split: if_splits)

lemma newest_is_kept: "t < od_stamp m \<Longrightarrow> drop_before_scan t (q @ [m]) = drop_before_scan t q @ [m]"
  by (induction q) (simp_all add: drop_before_scan_def)

text \<open>What the handler does to a message newer than the scan.\<close>

lemma imuOdometryHandler_newer:
  fixes g :: "'a Isometry"
  assumes "lidarOdomTime s \<noteq> - 1" and "lidarOdomTime s < od_stamp m"
  defines "q \<equiv> drop_before_scan (lidarOdomTime s) (imuOdomQueue s) @ [m]"
  defines "pose \<equiv> fused_pose g (lidarOdomAffine s) (hd q) m"
  shows "\<exists>s' rest. imuOdometryHandler g fr m found subscribed s
      = Inr (s', FusedOdometry (m\<lparr>od_position := iso_translation g pose, od_orientation := iso_rotation g pose\<rparr>) # rest)
    \<and> imuOdomQueue s' = q \<and> lidarOdomTime s' = lidarOdomTime s \<and> lidarOdomAffine s' = lidarOdomAffine s"
proof -
  let ?l = "m\<lparr>od_position := iso_translation g pose, od_orientation := iso_rotation g pose\<rparr>" and ?s2 = "s\<lparr>imuOdomQueue := q\<rparr>"
  obtain s3 tf where t: "send_transform g fr found (od_stamp m) pose ?s2 = (s3, tf)" by fastforce
  obtain s4 path where p: "extend_path fr subscribed ?l s3 = (s4, path)" by fastforce
  have d: "drop_before_scan (lidarOdomTime s) (imuOdomQueue s @ [m]) = q" using newest_is_kept [OF assms(2)] by (simp add: q_def)
  have q: "q \<noteq> []" "last q = m" by (simp_all add: q_def)
  have "imuOdometryHandler g fr m found subscribed s = Inr (s4, FusedOdometry ?l # tf # path)"
    using assms(1) d q t p by (simp add: imuOdometryHandler_def Let_def pose_def)
  then show ?thesis using send_transform_frame [OF t] extend_path_frame [OF p] by auto
qed

interpretation fusion: steady_system "fusion_step g fr" in_order queue_sorted "\<lambda>_. True"
  for g :: "'a Isometry" and fr
proof
  fix s :: "'a TransformFusion" and e s' os
  assume s: "queue_sorted s" and e: "in_order s e" and h: "fusion_step g fr s e = Inr (s', os)"
  have "queue_sorted s'"
  proof (cases e)
    case (LaserOdometry m)
    then show ?thesis using s h by (auto simp: lidarOdometryHandler_def queue_sorted_def)
  next
    case (ImuOdometry m found subscribed)
    then have o: "lidarOdomTime s < od_stamp m" "sorted (map od_stamp (imuOdomQueue s @ [m]))" using e sorted_newest [OF s] by simp_all
    show ?thesis
    proof (cases "lidarOdomTime s = - 1")
      case True
      then show ?thesis using o(2) h ImuOdometry by (auto simp: imuOdometryHandler_def queue_sorted_def)
    next
      case False
      then have "imuOdomQueue s' = drop_before_scan (lidarOdomTime s) (imuOdomQueue s @ [m])"
        using imuOdometryHandler_newer [OF False o(1), of g fr found subscribed] newest_is_kept [OF o(1)] h ImuOdometry by auto
      then show ?thesis by (simp only: queue_sorted_def drop_before_sorted [OF o(2)] sorted_filter [OF o(2)])
    qed
  qed
  then show "queue_sorted s' \<and> list_all (\<lambda>_. True) os" by (simp add: list_all_iff)
next
  fix s :: "'a TransformFusion" and e
  assume s: "queue_sorted s" and e: "in_order s e"
  show "\<exists>s' os. fusion_step g fr s e = Inr (s', os)"
  proof (cases e)
    case (ImuOdometry m found subscribed)
    then have o: "lidarOdomTime s < od_stamp m" using e by simp
    show ?thesis using imuOdometryHandler_newer [OF _ o, of g fr found subscribed] ImuOdometry
      by (cases "lidarOdomTime s = - 1") (auto simp: imuOdometryHandler_def)
  qed simp
qed

text \<open>The inertial odometry of a run.\<close>

fun received :: "'a fusion_event list \<Rightarrow> Odometry list" where
  "received [] = []"
| "received (LaserOdometry m # es) = received es"
| "received (ImuOdometry m found subscribed # es) = m # received es"

text \<open>The queue holds what was received and is newer than a time that no scan has passed.\<close>

definition holds_newer :: "Odometry list \<Rightarrow> 'a TransformFusion \<Rightarrow> bool" where
  "holds_newer r s \<longleftrightarrow> (\<exists>t\<le>lidarOdomTime s. imuOdomQueue s = filter (\<lambda>o'. t < od_stamp o') r)"

lemma holds_newer_step:
  assumes "holds_newer r s" and "queue_sorted s" and "in_order s e" and "fusion_step g fr s e = Inr (s', os)"
  shows "holds_newer (r @ received [e]) s'"
proof (cases e)
  case (LaserOdometry m)
  then have "lidarOdomTime s \<le> lidarOdomTime s'" "imuOdomQueue s' = imuOdomQueue s" using assms(3,4) by (auto simp: lidarOdometryHandler_def)
  then show ?thesis using assms(1) order_trans LaserOdometry by (fastforce simp: holds_newer_def)
next
  case (ImuOdometry m found subscribed)
  have o: "lidarOdomTime s < od_stamp m" "sorted (map od_stamp (imuOdomQueue s @ [m]))"
    using assms(3) sorted_newest [OF assms(2)] ImuOdometry by simp_all
  obtain t where t: "t \<le> lidarOdomTime s" "imuOdomQueue s = filter (\<lambda>o'. t < od_stamp o') r" using assms(1) by (auto simp: holds_newer_def)
  show ?thesis
  proof (cases "lidarOdomTime s = - 1")
    case True
    then have "s' = s\<lparr>imuOdomQueue := imuOdomQueue s @ [m]\<rparr>" using assms(4) ImuOdometry by (simp add: imuOdometryHandler_def)
    then show ?thesis using t o(1) ImuOdometry by (auto simp: holds_newer_def intro!: exI [of _ t])
  next
    case False
    then have s': "imuOdomQueue s' = drop_before_scan (lidarOdomTime s) (imuOdomQueue s @ [m])" "lidarOdomTime s' = lidarOdomTime s"
      using imuOdometryHandler_newer [OF False o(1), of g fr found subscribed] newest_is_kept [OF o(1)] assms(4) ImuOdometry by auto
    have "filter (\<lambda>o'. lidarOdomTime s < od_stamp o') (imuOdomQueue s) = filter (\<lambda>o'. lidarOdomTime s < od_stamp o') r"
      using t by (auto intro: filter_cong)
    then show ?thesis using s' o(1) ImuOdometry by (auto simp: holds_newer_def drop_before_sorted [OF o(2)] intro!: exI [of _ "lidarOdomTime s"])
  qed
qed

lemma received_Cons: "received (e # es) = received [e] @ received es"
  by (cases e) simp_all

lemma holds_newer_run:
  assumes "run_handlers (fusion_step g fr) s es = Inr (s', os)" and "holds_newer r s" and "queue_sorted s" and "guarded in_order (fusion_step g fr) s es"
  shows "holds_newer (r @ received es) s'"
  using assms
proof (induction es arbitrary: s r os)
  case Nil
  then show ?case by simp
next
  case (Cons e es)
  then obtain s1 o1 o2 where h: "fusion_step g fr s e = Inr (s1, o1)" and r: "run_handlers (fusion_step g fr) s1 es = Inr (s', o2)"
    by (auto split: sum.splits)
  then have g: "in_order s e" "guarded in_order (fusion_step g fr) s1 es" using Cons.prems(4) by simp_all
  have "queue_sorted s1" using fusion.g_step [OF Cons.prems(3) g(1) h] by simp
  then show ?case using Cons.IH [OF r holds_newer_step [OF Cons.prems(2,3) g(1) h] _ g(2)] received_Cons [of e es] by simp
qed

lemma ctor_holds: "holds_newer [] (TransformFusion_ctor a b)" "queue_sorted (TransformFusion_ctor a b)"
  by (auto simp: holds_newer_def queue_sorted_def TransformFusion_ctor_def)


section \<open>A concrete run\<close>

text \<open>A vehicle on a straight line.\<close>

definition example_line :: "real Isometry" where
  "example_line = \<lparr>odom2affine = (\<lambda>m. fst (od_position m)), iso_inverse = (\<lambda>x. - x), iso_mult = (\<lambda>x y. x + y),
     iso_translation = (\<lambda>x. (x, 0, 0)), iso_rotation = (\<lambda>_. (0, 0, 0, 1))\<rparr>"

definition example_frames :: Frames where
  "example_frames = \<lparr>lidarFrame = ''livox_frame'', baselinkFrame = ''base_link'', odometryFrame = ''odom''\<rparr>"

definition at_place :: "real \<Rightarrow> real \<Rightarrow> Odometry" where
  "at_place t x = \<lparr>od_stamp = t, od_position = (x, 0, 0), od_orientation = (0, 0, 0, 1), od_covariance0 = 0\<rparr>"

definition line_events :: "real fusion_event list" where
  "line_events = [ImuOdometry (at_place 0.5 1) None False, LaserOdometry (at_place 1 10), ImuOdometry (at_place 1.5 2) (Some 0) True, ImuOdometry (at_place 2 5) None True]"

lemmas fusion_run_defs = line_events_def TransformFusion_ctor_def lidarOdometryHandler_def imuOdometryHandler_def drop_before_scan_def send_transform_def
  extend_path_def example_frames_def at_place_def

lemma line_run: "\<exists>s os. run_handlers (fusion_step example_line example_frames) (TransformFusion_ctor 0 0) line_events = Inr (s, os)
    \<and> lidarOdomTime s = 1 \<and> lidarOdomAffine s = 10 \<and> imuOdomQueue s = [at_place 1.5 2, at_place 2 5]"
  and line_in_order: "guarded in_order (fusion_step example_line example_frames) (TransformFusion_ctor 0 0) line_events"
  by (simp_all add: fusion_run_defs example_line_def Let_def)


section \<open>What goes wrong\<close>

text \<open>An odometry that is not newer than the scan empties the queue, whose front and back are read all the same.\<close>

lemma late_odometry_reads_empty_queue:
  assumes "lidarOdomTime s \<noteq> - 1" and "\<forall>o'\<in>set (imuOdomQueue s @ [m]). od_stamp o' \<le> lidarOdomTime s"
  shows "imuOdometryHandler g fr m found subscribed s = Inl Bad_index"
proof -
  have "drop_before_scan (lidarOdomTime s) (imuOdomQueue s @ [m]) = []" using assms(2) unfolding drop_before_scan_def by simp
  then show ?thesis using assms(1) by (simp add: imuOdometryHandler_def)
qed

text \<open>With one frame for lidar and base the transform has neither a parent frame nor a time.\<close>

lemma transform_without_frame:
  "lidarFrame fr = baselinkFrame fr \<Longrightarrow> snd (send_transform g fr found t pose s) = FusedTransform [] 0 pose (baselinkFrame fr)"
  by (simp add: send_transform_def)

end
