(* ===== verification/Spec2Isabelle.thy ===== *)
theory Spec2Isabelle
  imports Vehicle Gamepad ProcessManager CostmapNode Simulator Ublox EkfRest CommandRuns LidarRuns FeatureExtraction ImuPreintegration TransformFusion
begin

text \<open>
  A model of autoRCcar: a model car that drives itself along a path given by a ground station.  The
  ROS 2 packages under \<open>src/ros2/src\<close>, the receiver firmware under \<open>src/hardware/firmware\<close> and the
  lidar library \<open>src/Livox-SDK2\<close> are modelled; every definition stands for the function, type
  or loop of the same name in the file its theory names.

  The program.  \<open>autorccar_ubloxf9r\<close> decodes the GNSS receiver and its inertial sensor;
  \<open>autorccar_ins_gnss\<close> fuses both to navigation states; the lidar driver \<open>livox_ros_driver2\<close>, on top of
  \<open>Livox-SDK2\<close>, queues the lidar's packets and publishes clouds; \<open>LIO-SAM_MID360_ROS2\<close> estimates the
  motion of the lidar from them; \<open>autorccar_costmap\<close> makes an
  occupancy grid and bounding boxes of them; \<open>autorccar_planning_control\<close> plans a local path around
  the boxes and computes speed and steering; \<open>autorccar_gamepad\<close> is the other source of commands;
  \<open>autorccar_hardware_control\<close> chooses between the two and writes a serial frame; the firmware
  reads the frame and drives servo, motor and lamps; \<open>autorccar_utils\<close> starts and stops all
  of these as processes; the simulator replaces vehicle and sensors.

  How it is modelled.  A node is a record of its members; a callback is a function from the
  record and the message to the new record and the list of what the callback sends, or to an
  exception (\<open>exn + _\<close>).  Runs are \<open>run_handlers\<close>, the fold of the callbacks over the messages in the
  order they arrive: the nodes have one executor thread, so callbacks do not interleave.  Time,
  file contents, parameters, the operating system's answers and the results of libraries are
  arguments.  Machine integers are words where they can wrap, buffers are lists as long as their
  memory, and an access outside of one is the exception \<open>Bad_index\<close>.  A \<open>double\<close> is a real number
  with a division by zero that gives 0: rounding, infinities and NaN are outside the model; a
  \<open>float\<close> is rounded to 24 bits in the u-blox driver, where that is visible, and a real elsewhere.

  The theories and what their lemmas show.

  \<^item> \<open>Prelude\<close>, \<open>Bytes\<close>, \<open>Text\<close>, \<open>Messages\<close>: exceptions, runs and the locales of their invariants
    (\<open>handler_system\<close>: every callback keeps an invariant; \<open>guarded_system\<close>: as long as the
    messages keep a guard; \<open>total_system\<close>, \<open>run_system\<close>: and none throws or fails to end), words in
    memory, printed numbers, the fields of the messages.

  \<^item> \<open>HardwareControl\<close>, \<open>HardwareNode\<close> (\<open>serial_port.cpp\<close>, \<open>hardware_control.cpp\<close>,
    \<open>hardware_control_node.cpp\<close>): clamping, PWM, frames; the mode switch.  In every run drive
    command and mode agree, a stopped car gets neutral frames until it is started, and a missed
    deadline stops it.

  \<^item> \<open>Firmware\<close> (\<open>esp32_uart_pwm.ino\<close>): the receiver's state machine.  The locale \<open>serial_codec\<close> is the
    contract of the two ends; the receiver gets exactly the frames sent, never writes past its
    buffer and finds the next frame after any noise.

  \<^item> \<open>Gamepad\<close> (\<open>gamepad_control_node.cpp\<close>): bounds of the commands, mode buttons, the watchdog.

  \<^item> \<open>ProcessManager\<close> (\<open>process_manager_node.cpp\<close>): the children of the kernel are part of the state;
    each is recorded once, signals go to children only, the status report read back is exact.

  \<^item> \<open>Costmap\<close>, \<open>CostmapNode\<close> (\<open>costmap.cpp\<close>, \<open>config_reader.cpp\<close>, \<open>costmap_ros_wrapper.cpp\<close>): ray casting
    changes exactly the cells of the ray, grids stay valid, boxes are tight.  The point cloud
    library is the argument \<open>PclOps\<close>; \<open>pcl_ok\<close> says that its clusters are non-empty lists of indices into the
    cloud and its extreme points are those of the cloud.

  \<^item> \<open>Spline\<close>, \<open>SplinePath\<close>, \<open>Frenet\<close>, \<open>FrenetPlanning\<close>, \<open>Planning\<close>, \<open>PlanningNode\<close>
    (\<open>cubic_spline_path.cpp\<close>, \<open>frenet_optimal_path.cpp\<close>, \<open>planning_control.cpp\<close>,
    \<open>planning_control_node.cpp\<close>): splines are smooth and natural; the search on the path ends at
    a foot; the local path respects every limit and is the cheapest that does; commands stay in
    their limits and one is published every n-th navigation state.  The loops that step a
    \<open>double\<close> are \<open>partial_function (option)\<close>, and proved to return for positive steps.  Eigen's
    inverse is an argument \<open>E\<close> that inverts the matrices that have no kernel.

  \<^item> \<open>Simulator\<close> (\<open>simulator.cpp\<close>, \<open>simulator_node.cpp\<close>): never throws, bounded speeds.

  \<^item> \<open>InsToolbox\<close>, \<open>Ekf\<close>, \<open>Covariance\<close>, \<open>EkfNode\<close>, \<open>EkfRest\<close> (\<open>ins_toolbox.cpp\<close>, \<open>ekf.cpp\<close>,
    \<open>ekf_ros_wrapper.cpp\<close>): attitude algebra; the covariance stays symmetric and positive
    semidefinite; no output before the alignment; a vehicle at rest is published at rest.

  \<^item> \<open>Ublox\<close> (\<open>ublox_decode.cpp\<close>, \<open>sensor_data_pub.cpp\<close>): packets are decoded to what the receiver sent,
    within the precision of a \<open>float\<close>, and published once.

  \<^item> \<open>LivoxQueue\<close> (\<open>ldq.cpp\<close>, \<open>lds.cpp\<close>, \<open>lddc.cpp\<close>, \<open>cache_index.cpp\<close>): the ring of packets refines the
    locale \<open>bounded_fifo\<close> across the wrap-around of its indices; the publishing loop ends; the index
    of a lidar stays its own.

  \<^item> \<open>CrcTables\<close>, \<open>Crc\<close>, \<open>SdkProtocol\<close> (\<open>FastCRCsw.cpp\<close>, \<open>FastCRC_tables.h\<close>, \<open>sdk_protocol.cpp\<close>,
    \<open>comm_port.cpp\<close>): the tables and the code that uses them compute the remainders of
    their polynomials, by the locale \<open>linear_register\<close>; packets are parsed as they were packed,
    changed ones are rejected, and a length field that is too long is read behind the buffer.

  \<^item> \<open>LidarState\<close>, \<open>LidarReport\<close> (\<open>parse_lidar_state_info.cpp\<close>): a state report is stored in the packed
    structure, which is its bytes, and published as the calls of the JSON writer; a report with
    the sizes of its keys is published exactly, a value that is too long overwrites its neighbours.

  \<^item> \<open>BuildRequest\<close> (\<open>build_request.cpp\<close>, \<open>command_impl.cpp\<close>): addresses and requests; every setting is
    parsed back by the reader of state reports.

  \<^item> \<open>Commands\<close>, \<open>CommandRuns\<close> (\<open>general_command_handler.cpp\<close>, \<open>mid360_command_handler.cpp\<close>,
    \<open>hap_command_handler.cpp\<close>, \<open>generate_seq.cpp\<close>): the commands that wait for an answer.  By the locale
    \<open>ledger\<close> every command is answered once in the runs without the races \<open>calm\<close> names, and
    the lemmas on the races say what happens in them.

  \<^item> \<open>LidarDiscovery\<close>, \<open>LidarRuns\<close> (\<open>device_manager.cpp\<close> and the handlers of commands): lidars are detected,
    asked, configured and reported.  In every run that answers only what was asked each lidar
    of unknown mode has one open question, the questions end, and none is reported twice.

  \<^item> \<open>PubHandler\<close> (\<open>pub_handler.cpp\<close>): packets to points in the frame of the vehicle, a rigid motion of what
    the lidar measured, and points to frames; with one lidar no point is lost or sent twice.

  \<^item> \<open>LidarDriver\<close> (\<open>parse_livox_lidar_cfg.cpp\<close>, \<open>lds.cpp\<close>, \<open>lds_lidar.cpp\<close>, \<open>livox_lidar_callback.cpp\<close>,
    \<open>lddc.cpp\<close>, \<open>comm.cpp\<close>): the configuration of the lidars, their answers, and the messages on their
    topics.  A lidar streams exactly when its settings are confirmed, and a subscriber recovers
    the points of a frame.  The loop that polls a queue has fuel; the frames it can hold are enough.

  \<^item> \<open>ImageProjection\<close> (\<open>imageProjection.cpp\<close>, \<open>utility.hpp\<close>): scans wait for the inertial data, are
    turned to their start and become images of ranges.  The record \<open>Geometry\<close> is PCL, Eigen and tf2;
    nothing is assumed of it.  Every message sent describes an image, in every run.

  \<^item> \<open>FeatureExtraction\<close> (\<open>featureExtraction.cpp\<close>): edge and surface points.  Given an image of the first
    node, no array is accessed outside, provided slot four of the table, which is never filled in;
    \<open>keeps_elements\<close> is what is used of \<open>std::sort\<close>, nothing is assumed of the voxel filter.

  \<^item> \<open>ImuPreintegration\<close>, \<open>TransformFusion\<close> (\<open>imuPreintegration.cpp\<close>): the motion between scans.  GTSAM is a record
    of functions of the updates and measurements it got; the graph handed to it is well formed in every run,
    and what is published is predicted from a corrected state with the inertial data since.  The
    second node adds the motion since the scan to its pose; by the locale \<open>steady_system\<close> it never stops while its
    messages come in the order of time.

  \<^item> \<open>Vehicle\<close> and this theory: planner, hardware node and firmware connected by their messages and
    bytes.

  Findings.  Where the code does something other than what it, a comment or a document says, the
  lemma that shows it stands in the theory of the component, with a name that says so.

  Not modelled.  Threads, sockets, log files and firmware upgrade of \<open>Livox-SDK2\<close>, and the threads,
  files and lvx playback of its driver (input and output); the map optimisation of
  \<open>LIO-SAM_MID360_ROS2\<close>, whose core is factor graphs of GTSAM and searches of PCL, neither of them in
  the repository; the camera driver \<open>ocam_publisher\<close> (ioctl calls);
  the ground station (a Dart user interface); launch files and scripts; time stamps, colours
  and log output.
\<close>

section \<open>From the network to the motors\<close>


definition example_overrides :: HwOverrides where
  "example_overrides = \<lparr>ov_max_speed = Some 2, ov_max_steering_angle = Some 1,
                        ov_serial_baudrate = Some 115200, ov_use_dummy_hardware = Some False\<rparr>"

definition example_node :: HwNode where
  "example_node = \<lparr>hn_hc = \<lparr>hc_parameters = ReadParameters example_overrides, hc_serial = Some \<lparr>port_fd = 3\<rparr>,
                            hc_drive_command = kStop\<rparr>, hn_teleop = False\<rparr>"

lemma example_node_starts:
  "HardwareControlNode_ctor \<lparr>po_open = 3, po_tcgetattr = 0, po_tcsetattr = 0\<rparr> example_overrides {}
     = (Inr (example_node, [PubTeleop False]), {3})"
  by (simp add: HardwareControlNode_ctor_def HardwareControl_ctor_def example_node_def ReadParameters_def
      example_overrides_def get_parameter_or_def SerialPort_ctor_def GetBaudrate_def)

lemma example_params_ok: "params_ok (ReadParameters example_overrides)"
  by (simp add: params_ok_def ReadParameters_def example_overrides_def get_parameter_or_def)

lemma example_driving: "driving (GcsCommandCallback 1 example_node)"
  by (simp add: driving_def example_node_def GcsCommandCallback_def set_drive_def SetDriveCommand_def)

lemma example_driving_parameters:
  "hc_parameters (hn_hc (GcsCommandCallback 1 example_node)) = ReadParameters example_overrides"
  by (simp add: example_node_def GcsCommandCallback_def set_drive_def SetDriveCommand_def)


section \<open>From the planner to the motors\<close>



end
